(* ===== verification/Prelude.thy ===== *)
theory Prelude
  imports Main "HOL-Library.Word"
begin

text \<open>
  What the components share: the machine integers of the C code, the macros of
  \<^verbatim>\<open>time2.h\<close> and \<^verbatim>\<open>utility.h\<close>, the byte-order macros of \<^verbatim>\<open>unix.h\<close>/\<^verbatim>\<open>win32.h\<close> on a
  little-endian host, and generic lemmas on lists and words.
\<close>

unbundle bit_operations_syntax

type_synonym u8 = "8 word"
type_synonym u16 = "16 word"
type_synonym u32 = "32 word"
type_synonym size_t = "64 word"

named_theorems frame_simps
  \<open>which parts of the state an operation leaves alone\<close>
named_theorems wire_simps
  \<open>byte-order and serialisation facts\<close>

section \<open>Utility and time macros\<close>

definition ENET_MAX :: "'a::linorder \<Rightarrow> 'a \<Rightarrow> 'a" where
  "ENET_MAX x y = (if x > y then x else y)"

definition ENET_MIN :: "'a::linorder \<Rightarrow> 'a \<Rightarrow> 'a" where
  "ENET_MIN x y = (if x < y then x else y)"

definition ENET_TIME_OVERFLOW :: u32 where
  "ENET_TIME_OVERFLOW = 86400000"

definition ENET_TIME_LESS :: "u32 \<Rightarrow> u32 \<Rightarrow> bool" where
  "ENET_TIME_LESS a b \<longleftrightarrow> a - b \<ge> ENET_TIME_OVERFLOW"

definition ENET_TIME_GREATER :: "u32 \<Rightarrow> u32 \<Rightarrow> bool" where
  "ENET_TIME_GREATER a b \<longleftrightarrow> b - a \<ge> ENET_TIME_OVERFLOW"

definition ENET_TIME_LESS_EQUAL :: "u32 \<Rightarrow> u32 \<Rightarrow> bool" where
  "ENET_TIME_LESS_EQUAL a b \<longleftrightarrow> \<not> ENET_TIME_GREATER a b"

definition ENET_TIME_GREATER_EQUAL :: "u32 \<Rightarrow> u32 \<Rightarrow> bool" where
  "ENET_TIME_GREATER_EQUAL a b \<longleftrightarrow> \<not> ENET_TIME_LESS a b"

definition ENET_TIME_DIFFERENCE :: "u32 \<Rightarrow> u32 \<Rightarrow> u32" where
  "ENET_TIME_DIFFERENCE a b = (if a - b \<ge> ENET_TIME_OVERFLOW then b - a else a - b)"

section \<open>Little-endian storage of words\<close>

definition le16 :: "u16 \<Rightarrow> u8 list" where
  "le16 v = [ucast v, ucast (drop_bit 8 v)]"

definition le32 :: "u32 \<Rightarrow> u8 list" where
  "le32 v = [ucast v, ucast (drop_bit 8 v), ucast (drop_bit 16 v), ucast (drop_bit 24 v)]"

fun rd16 :: "u8 list \<Rightarrow> u16" where
  "rd16 (a # b # _) = ucast a OR push_bit 8 (ucast b)"
| "rd16 _ = 0"

fun rd32 :: "u8 list \<Rightarrow> u32" where
  "rd32 (a # b # c # d # _) =
     ucast a OR push_bit 8 (ucast b) OR push_bit 16 (ucast c) OR push_bit 24 (ucast d)"
| "rd32 _ = 0"

lemma length_le16 [simp]: "length (le16 v) = 2" by (simp add: le16_def)
lemma length_le32 [simp]: "length (le32 v) = 4" by (simp add: le32_def)

lemma rd16_le16 [simp, wire_simps]: "rd16 (le16 v @ bs) = v"
  by (simp add: le16_def, rule bit_word_eqI) (auto simp: bit_simps)

lemma rd32_le32 [simp, wire_simps]: "rd32 (le32 v @ bs) = v"
proof (rule bit_word_eqI)
  fix n assume "n < LENGTH(32)"
  then consider "n < 8" | "8 \<le> n" "n < 16" | "16 \<le> n" "n < 24" | "24 \<le> n" "n < 32"
    by force
  then show "bit (rd32 (le32 v @ bs)) n \<longleftrightarrow> bit v n"
    by cases (auto simp: le32_def bit_simps)
qed

lemma rd16_le16_self [simp, wire_simps]: "rd16 (le16 v) = v"
  using rd16_le16 [of v "[]"] by simp

lemma rd32_le32_self [simp, wire_simps]: "rd32 (le32 v) = v"
  using rd32_le32 [of v "[]"] by simp

lemma bit_u8_high [simp]: "8 \<le> n \<Longrightarrow> \<not> bit (a :: u8) n"
  by (auto dest: bit_imp_le_length)

lemma le16_rd16 [wire_simps]: "le16 (rd16 (a # b # bs)) = [a, b]"
  by (auto simp: le16_def bit_simps intro!: bit_word_eqI)

lemma le32_rd32 [wire_simps]: "le32 (rd32 (a # b # c # d # bs)) = [a, b, c, d]"
  by (auto simp: le32_def bit_simps intro!: bit_word_eqI)

section \<open>Byte order\<close>

text \<open>
  On a little-endian host \<^verbatim>\<open>htons\<close>, \<^verbatim>\<open>htonl\<close> and their inverses reverse the bytes of
  the stored word.
\<close>

definition bswap16 :: "u16 \<Rightarrow> u16" where
  "bswap16 x = rd16 (rev (le16 x))"

definition bswap32 :: "u32 \<Rightarrow> u32" where
  "bswap32 x = rd32 (rev (le32 x))"

abbreviation ENET_HOST_TO_NET_16 :: "u16 \<Rightarrow> u16" where "ENET_HOST_TO_NET_16 \<equiv> bswap16"
abbreviation ENET_HOST_TO_NET_32 :: "u32 \<Rightarrow> u32" where "ENET_HOST_TO_NET_32 \<equiv> bswap32"
abbreviation ENET_NET_TO_HOST_16 :: "u16 \<Rightarrow> u16" where "ENET_NET_TO_HOST_16 \<equiv> bswap16"
abbreviation ENET_NET_TO_HOST_32 :: "u32 \<Rightarrow> u32" where "ENET_NET_TO_HOST_32 \<equiv> bswap32"

lemma bswap16_bswap16 [simp, wire_simps]: "bswap16 (bswap16 x) = x"
proof -
  obtain a b where ab: "le16 x = [a, b]" by (simp add: le16_def)
  have "le16 (rd16 [b, a]) = [b, a]" by (rule le16_rd16)
  with ab show ?thesis using rd16_le16_self [of x] by (simp add: bswap16_def del: rd16.simps)
qed

lemma bswap32_bswap32 [simp, wire_simps]: "bswap32 (bswap32 x) = x"
proof -
  obtain a b c d where ab: "le32 x = [a, b, c, d]" by (simp add: le32_def)
  have "le32 (rd32 [d, c, b, a]) = [d, c, b, a]" by (rule le32_rd32)
  with ab show ?thesis using rd32_le32_self [of x] by (simp add: bswap32_def del: rd32.simps)
qed

lemma bswap16_inj [simp]: "bswap16 x = bswap16 y \<longleftrightarrow> x = y"
  by (metis bswap16_bswap16)

lemma bswap32_inj [simp]: "bswap32 x = bswap32 y \<longleftrightarrow> x = y"
  by (metis bswap32_bswap32)

section \<open>Bits\<close>

lemma and_push_bit_1: "n < LENGTH('a) \<Longrightarrow> (x :: 'a::len word) AND push_bit n 1 \<noteq> 0 \<longleftrightarrow> bit x n"
  by (simp add: and_exp_eq_0_iff_not_bit)

lemma and_1_bit: "(x :: 'a::len word) AND 1 \<noteq> 0 \<longleftrightarrow> bit x 0"
  using and_push_bit_1 [of 0 x] by simp

section \<open>Lists\<close>

lemma in_set_tlD: "x \<in> set (tl xs) \<Longrightarrow> x \<in> set xs"
  by (cases xs) auto

lemma disjoint_neq: "S \<inter> T = {} \<Longrightarrow> x \<in> S \<Longrightarrow> y \<in> T \<Longrightarrow> x \<noteq> y"
  by blast

lemma list_update_id_nth [simp]: "xs[i := xs ! i] = xs"
  by (rule list_update_id)

lemma nth_list_update_if: "i < length xs \<Longrightarrow> xs[i := x] ! j = (if i = j then x else xs ! j)"
  by simp

end
