(* ===== verification/ENet_List.thy ===== *)
theory ENet_List
  imports Prelude
begin

text \<open>
  The intrusive doubly linked lists of \<^verbatim>\<open>list.c\<close> at pointer level: a heap gives the
  \<^verbatim>\<open>next\<close> and \<^verbatim>\<open>previous\<close> fields of every node, a list is its sentinel's address.
  \<open>is_list h l xs\<close> says that the ring through sentinel \<open>l\<close> holds exactly the nodes \<open>xs\<close>;
  each operation is proved to act on \<open>xs\<close> as the corresponding operation on HOL lists,
  which is how the other theories represent the queues of peers, channels and hosts.
\<close>

section \<open>Nodes, lists and operations\<close>

type_synonym node = nat

record list_heap =
  next_of :: "node \<Rightarrow> node"
  previous_of :: "node \<Rightarrow> node"

definition set_next :: "node \<Rightarrow> node \<Rightarrow> list_heap \<Rightarrow> list_heap" where
  "set_next a b h = h\<lparr>next_of := (next_of h)(a := b)\<rparr>"

definition set_previous :: "node \<Rightarrow> node \<Rightarrow> list_heap \<Rightarrow> list_heap" where
  "set_previous a b h = h\<lparr>previous_of := (previous_of h)(a := b)\<rparr>"

definition enet_list_begin :: "node \<Rightarrow> list_heap \<Rightarrow> node" where
  "enet_list_begin l h = next_of h l"

definition enet_list_end :: "node \<Rightarrow> node" where
  "enet_list_end l = l"

definition enet_list_empty :: "node \<Rightarrow> list_heap \<Rightarrow> bool" where
  "enet_list_empty l h \<longleftrightarrow> enet_list_begin l h = enet_list_end l"

definition enet_list_back :: "node \<Rightarrow> list_heap \<Rightarrow> node" where
  "enet_list_back l h = previous_of h l"

definition enet_list_clear :: "node \<Rightarrow> list_heap \<Rightarrow> list_heap" where
  "enet_list_clear l h = set_previous l l (set_next l l h)"

definition enet_list_insert :: "node \<Rightarrow> node \<Rightarrow> list_heap \<Rightarrow> node \<times> list_heap" where
  "enet_list_insert position data h =
    (let result = data;
         h = set_previous result (previous_of h position) h;
         h = set_next result position h;
         h = set_next (previous_of h result) result h;
         h = set_previous position result h
     in (result, h))"

definition enet_list_remove :: "node \<Rightarrow> list_heap \<Rightarrow> node \<times> list_heap" where
  "enet_list_remove position h =
    (let h = set_next (previous_of h position) (next_of h position) h;
         h = set_previous (next_of h position) (previous_of h position) h
     in (position, h))"

definition enet_list_move :: "node \<Rightarrow> node \<Rightarrow> node \<Rightarrow> list_heap \<Rightarrow> node \<times> list_heap" where
  "enet_list_move position dataFirst dataLast h =
    (let first = dataFirst; last = dataLast;
         h = set_next (previous_of h first) (next_of h last) h;
         h = set_previous (next_of h last) (previous_of h first) h;
         h = set_previous first (previous_of h position) h;
         h = set_next last position h;
         h = set_next (previous_of h first) first h;
         h = set_previous position last h
     in (first, h))"

text \<open>
  The loop of \<^verbatim>\<open>enet_list_size\<close> ends only when the ring comes back to the sentinel, so it
  is a partial function; \<open>None\<close> is a loop that never ends.
\<close>

partial_function (option) enet_list_size_from ::
  "node \<Rightarrow> list_heap \<Rightarrow> node \<Rightarrow> nat \<Rightarrow> nat option" where
  "enet_list_size_from l h position sz =
    (if position \<noteq> enet_list_end l
     then enet_list_size_from l h (next_of h position) (Suc sz)
     else Some sz)"

definition enet_list_size :: "node \<Rightarrow> list_heap \<Rightarrow> nat option" where
  "enet_list_size l h = enet_list_size_from l h (enet_list_begin l h) 0"

section \<open>Abstraction to HOL lists\<close>

fun linked :: "list_heap \<Rightarrow> node list \<Rightarrow> bool" where
  "linked h (a # b # r) \<longleftrightarrow> next_of h a = b \<and> previous_of h b = a \<and> linked h (b # r)"
| "linked h _ \<longleftrightarrow> True"

definition is_list :: "list_heap \<Rightarrow> node \<Rightarrow> node list \<Rightarrow> bool" where
  "is_list h l xs \<longleftrightarrow> distinct (l # xs) \<and> linked h (l # xs @ [l])"

lemma next_of_set [simp]:
  "next_of (set_next a b h) = (next_of h)(a := b)"
  "next_of (set_previous a b h) = next_of h"
  "previous_of (set_next a b h) = previous_of h"
  "previous_of (set_previous a b h) = (previous_of h)(a := b)"
  by (simp_all add: set_next_def set_previous_def)

lemma linked_app:
  assumes "as \<noteq> []" and "bs \<noteq> []"
  shows "linked h (as @ bs) \<longleftrightarrow>
    linked h as \<and> linked h bs \<and> next_of h (last as) = hd bs \<and> previous_of h (hd bs) = last as"
  using assms(1)
proof (induction as)
  case Nil
  then show ?case by simp
next
  case (Cons a as)
  then show ?case using assms(2) by (cases as; cases bs) auto
qed

text \<open>
  The link fields a segment depends on: the \<^verbatim>\<open>next\<close> of all but its last node and the
  \<^verbatim>\<open>previous\<close> of all but its first.
\<close>

lemma linked_cong:
  assumes "\<And>a. a \<in> set (butlast xs) \<Longrightarrow> next_of h' a = next_of h a"
    and "\<And>a. a \<in> set (tl xs) \<Longrightarrow> previous_of h' a = previous_of h a"
  shows "linked h' xs = linked h xs"
  using assms
proof (induction xs rule: induct_list012)
  case (3 a b r)
  have "linked h' (b # r) = linked h (b # r)"
    using 3(3,4) by (intro 3(2)) (auto dest: in_set_tlD split: if_splits)
  with 3(3,4) show ?case by (auto split: if_splits)
qed simp_all

text \<open>The ring cut at any point: the nodes before it and the nodes after it.\<close>

definition before :: "node \<Rightarrow> node list \<Rightarrow> node" where
  "before l xs = last (l # xs)"

definition after :: "node \<Rightarrow> node list \<Rightarrow> node" where
  "after l ys = hd (ys @ [l])"

lemma before_simps [simp]: "before l [] = l" "before l (xs @ [x]) = x"
  by (simp_all add: before_def)

lemma after_simps [simp]: "after l [] = l" "after l (y # ys) = y"
  by (simp_all add: after_def)

lemma before_in: "before l xs \<in> set (l # xs)" and after_in: "after l ys \<in> set (l # ys)"
  by (cases xs rule: rev_cases; auto) (cases ys; auto)

lemma before_after_notin:
  assumes "distinct (l # xs @ ys)"
  shows "after l ys \<notin> set xs" "after l ys \<notin> set (tl (ys @ [l]))"
    "before l xs \<notin> set (butlast (l # xs))" "before l xs \<notin> set ys"
proof -
  show "after l ys \<notin> set xs" "after l ys \<notin> set (tl (ys @ [l]))"
    using assms by (cases ys; auto)+
  show "before l xs \<notin> set (butlast (l # xs))" "before l xs \<notin> set ys"
    using assms by (cases xs rule: rev_cases; auto simp: butlast_append)+
qed

lemma is_list_cut:
  "is_list h l (xs @ ys) \<longleftrightarrow> distinct (l # xs @ ys) \<and> linked h (l # xs) \<and> linked h (ys @ [l])
     \<and> next_of h (before l xs) = after l ys \<and> previous_of h (after l ys) = before l xs"
  using linked_app [of "l # xs" "ys @ [l]" h]
  by (auto simp: is_list_def before_def after_def)

lemma is_list_nodes:
  "is_list h l xs \<Longrightarrow> l \<notin> set xs" "is_list h l xs \<Longrightarrow> distinct xs"
  by (simp_all add: is_list_def)

text \<open>A list that shares no node with an update is left alone.\<close>

lemma is_list_frame:
  assumes "is_list h l xs"
    and "\<And>a. a \<in> set (l # xs) \<Longrightarrow> next_of h' a = next_of h a"
    and "\<And>a. a \<in> set (l # xs) \<Longrightarrow> previous_of h' a = previous_of h a"
  shows "is_list h' l xs"
proof -
  have "linked h' (l # xs @ [l]) = linked h (l # xs @ [l])"
    by (rule linked_cong) (use assms(2,3) in \<open>auto split: if_splits\<close>)
  with assms(1) show ?thesis by (simp add: is_list_def)
qed

section \<open>What each operation does\<close>

lemma enet_list_begin_is_list: "is_list h l xs \<Longrightarrow> enet_list_begin l h = after l xs"
  using is_list_cut [of h l "[]" xs] by (auto simp: enet_list_begin_def)

lemma enet_list_back_is_list: "is_list h l xs \<Longrightarrow> enet_list_back l h = before l xs"
  using is_list_cut [of h l xs "[]"] by (auto simp: enet_list_back_def)

lemma enet_list_empty_is_list: "is_list h l xs \<Longrightarrow> enet_list_empty l h \<longleftrightarrow> xs = []"
  using enet_list_begin_is_list [of h l xs]
  by (cases xs) (auto simp: enet_list_empty_def enet_list_end_def is_list_def)

lemma is_list_clear: "is_list (enet_list_clear l h) l []"
  by (simp add: enet_list_clear_def is_list_def)

lemma is_list_insert:
  assumes il: "is_list h l (xs @ ys)" and new: "d \<notin> set (l # xs @ ys)"
  shows "is_list (snd (enet_list_insert (after l ys) d h)) l (xs @ d # ys)"
    (is "is_list ?h' l _")
proof -
  let ?p = "after l ys" and ?q = "before l xs"
  have q: "previous_of h ?p = ?q" and dist: "distinct (l # xs @ ys)"
    and lx: "linked h (l # xs)" and ly: "linked h (ys @ [l])"
    using il by (auto simp: is_list_cut)
  note notin = before_after_notin [OF dist]
  have dp: "d \<noteq> ?p" "d \<noteq> ?q" using new before_in [of l xs] after_in [of l ys] by auto
  have nx: "next_of ?h' = (next_of h)(d := ?p, ?q := d)"
    and pv: "previous_of ?h' = (previous_of h)(d := ?q, ?p := d)"
    using dp q by (simp_all add: enet_list_insert_def Let_def)
  have "linked ?h' (l # xs) = linked h (l # xs)"
    by (rule linked_cong) (use new notin in \<open>auto simp: nx pv dest: in_set_butlastD split: if_splits\<close>)
  moreover have "linked ?h' (ys @ [l]) = linked h (ys @ [l])"
    by (rule linked_cong)
      (use new notin in \<open>auto simp: nx pv dest: in_set_butlastD in_set_tlD split: if_splits\<close>)
  moreover have "after l (d # ys) = d" "before l (xs @ [d]) = d" by simp_all
  moreover have "linked ?h' ((l # xs) @ [d]) \<longleftrightarrow> linked ?h' (l # xs)"
    by (subst linked_app) (use dp in \<open>auto simp: nx pv before_def\<close>)
  ultimately have "is_list ?h' l ((xs @ [d]) @ ys)"
    unfolding is_list_cut using lx ly new dist dp by (auto simp: nx pv)
  then show ?thesis by simp
qed

lemma is_list_remove:
  assumes il: "is_list h l (xs @ x # ys)"
  shows "is_list (snd (enet_list_remove x h)) l (xs @ ys)" (is "is_list ?h' l _")
proof -
  let ?p = "after l ys" and ?q = "before l xs"
  have d: "distinct (l # xs @ x # ys)" using il by (simp add: is_list_def)
  then have dist: "distinct (l # xs @ ys)" by auto
  note notin = before_after_notin [OF dist]
  have px: "?p \<noteq> x" "?q \<noteq> x" using d before_in [of l xs] after_in [of l ys] by auto
  have left: "linked h (l # xs)" "linked h (x # ys @ [l])" "previous_of h x = ?q"
    using il is_list_cut [of h l xs "x # ys"] by auto
  have right: "next_of h x = ?p" "linked h (ys @ [l])"
    using il is_list_cut [of h l "xs @ [x]" ys] by auto
  have nx: "next_of ?h' = (next_of h)(?q := ?p)"
    and pv: "previous_of ?h' = (previous_of h)(?p := ?q)"
    using left right px by (simp_all add: enet_list_remove_def Let_def)
  have "linked ?h' (l # xs) = linked h (l # xs)"
    by (rule linked_cong) (use notin in \<open>auto simp: nx pv\<close>)
  moreover have "linked ?h' (ys @ [l]) = linked h (ys @ [l])"
    by (rule linked_cong) (use notin in \<open>auto simp: nx pv dest: in_set_tlD\<close>)
  ultimately show ?thesis
    unfolding is_list_cut using left right dist by (simp add: nx pv)
qed

text \<open>
  \<^verbatim>\<open>enet_list_move\<close> cuts the segment \<open>bs\<close> out of one list and splices it in front of a
  position of another.
\<close>

lemma linked_seg_is_list:
  "is_list h l (as @ bs @ cs) \<Longrightarrow> linked h bs"
proof (cases bs)
  case (Cons b bs')
  assume "is_list h l (as @ bs @ cs)"
  then have "linked h (bs @ cs @ [l])" by (simp add: is_list_cut)
  with Cons show ?thesis by (simp add: linked_app del: append_assoc flip: append_Cons)
qed simp

lemma is_list_move:
  assumes src: "is_list h l1 (as @ bs @ cs)" and dst: "is_list h l2 (xs @ ys)"
    and disj: "set (l1 # as @ bs @ cs) \<inter> set (l2 # xs @ ys) = {}" and ne: "bs \<noteq> []"
  shows "is_list (snd (enet_list_move (after l2 ys) (hd bs) (last bs) h)) l1 (as @ cs)"
    and "is_list (snd (enet_list_move (after l2 ys) (hd bs) (last bs) h)) l2 (xs @ bs @ ys)"
    (is "is_list ?h' l2 _")
proof -
  let ?q1 = "before l1 as" and ?p1 = "after l1 cs" and ?q2 = "before l2 xs" and ?p2 = "after l2 ys"
  have d1: "distinct (l1 # as @ bs @ cs)" using src by (simp add: is_list_def)
  have d2: "distinct (l2 # xs @ ys)" using dst by (simp add: is_list_def)
  have dist1: "distinct (l1 # as @ cs)" using d1 by auto
  have dist2: "distinct (l2 # xs @ bs @ ys)" using d1 d2 disj by auto
  have hl: "hd bs \<in> set bs" "last bs \<in> set bs" using ne by simp_all
  note n1 = before_after_notin [OF dist1] and n2 = before_after_notin [OF d2]
  define A where "A = set (l1 # as @ cs)"
  define B where "B = set (l2 # xs @ ys)"
  have AB: "A \<inter> B = {}" "A \<inter> set bs = {}" "B \<inter> set bs = {}"
    using d1 disj unfolding A_def B_def by auto
  have in1: "?q1 \<in> A" "?p1 \<in> A"
    using before_in [of l1 as] after_in [of l1 cs] unfolding A_def by auto
  have in2: "?q2 \<in> B" "?p2 \<in> B"
    using before_in [of l2 xs] after_in [of l2 ys] unfolding B_def by auto
  have neqs: "hd bs \<noteq> ?p1" "last bs \<noteq> ?q1" "hd bs \<noteq> ?p2" "last bs \<noteq> ?q2" "?p1 \<noteq> ?p2" "?q1 \<noteq> ?q2"
    using disjoint_neq [OF AB(1)] disjoint_neq [OF AB(2)] disjoint_neq [OF AB(3)] in1 in2 hl
    by metis+
  have subs: "set (l1 # as) \<subseteq> A" "set (cs @ [l1]) \<subseteq> A" "set (l2 # xs) \<subseteq> B" "set (ys @ [l2]) \<subseteq> B"
    by (auto simp: A_def B_def)
  have fr: "a \<noteq> last bs" "a \<noteq> hd bs" "a \<noteq> ?q2" "a \<noteq> ?p2" if "a \<in> A" for a
    using disjoint_neq [OF AB(1) that] disjoint_neq [OF AB(2) that] in2 hl by metis+
  have fr2: "a \<noteq> last bs" "a \<noteq> hd bs" "a \<noteq> ?q1" "a \<noteq> ?p1" if "a \<in> B" for a
    using disjoint_neq [OF AB(1) _ that] disjoint_neq [OF AB(3) that] in1 hl by metis+
  have ends: "previous_of h (hd bs) = ?q1" "next_of h (last bs) = ?p1"
    "linked h (l1 # as)" "linked h (cs @ [l1])"
  proof -
    show "previous_of h (hd bs) = ?q1" "linked h (l1 # as)"
      using src is_list_cut [of h l1 as "bs @ cs"] ne by (auto simp: after_def)
    have "before l1 (as @ bs) = last bs" using ne by (simp add: before_def)
    then show "next_of h (last bs) = ?p1" "linked h (cs @ [l1])"
      using src is_list_cut [of h l1 "as @ bs" cs] by auto
  qed
  have dst': "linked h (l2 # xs)" "linked h (ys @ [l2])" "next_of h ?q2 = ?p2" "previous_of h ?p2 = ?q2"
    using dst by (auto simp: is_list_cut)
  have nx: "next_of ?h' = (next_of h)(?q1 := ?p1, last bs := ?p2, ?q2 := hd bs)"
    and pv: "previous_of ?h' = (previous_of h)(?p1 := ?q1, hd bs := ?q2, ?p2 := last bs)"
    using ends dst' neqs by (auto simp: enet_list_move_def Let_def fun_eq_iff)
  have "linked ?h' (l1 # as) = linked h (l1 # as)"
  proof (rule linked_cong)
    fix a assume a: "a \<in> set (butlast (l1 # as))"
    then have "a \<in> A" using subs(1) by (meson in_set_butlastD subsetD)
    then show "next_of ?h' a = next_of h a" using fr a n1(3) by (auto simp: nx)
  next
    fix a assume a: "a \<in> set (tl (l1 # as))"
    then have "a \<in> A" using subs(1) by auto
    then show "previous_of ?h' a = previous_of h a" using fr a n1(1) by (auto simp: pv)
  qed
  moreover have "linked ?h' (cs @ [l1]) = linked h (cs @ [l1])"
  proof (rule linked_cong)
    fix a assume a: "a \<in> set (butlast (cs @ [l1]))"
    then have "a \<in> A" using subs(2) by auto
    then show "next_of ?h' a = next_of h a" using fr a n1(4) by (auto simp: nx)
  next
    fix a assume a: "a \<in> set (tl (cs @ [l1]))"
    then have "a \<in> A" using subs(2) by (meson in_set_tlD subsetD)
    then show "previous_of ?h' a = previous_of h a" using fr a n1(2) by (auto simp: pv)
  qed
  ultimately show "is_list ?h' l1 (as @ cs)"
    unfolding is_list_cut using ends dist1 neqs by (simp add: nx pv)
  have bs': "hd bs \<notin> set (tl bs)" "last bs \<notin> set (butlast bs)"
    using d1 ne by (cases bs; auto) (use d1 ne in \<open>cases bs rule: rev_cases; auto\<close>)
  have "linked ?h' bs = linked h bs"
  proof (rule linked_cong)
    fix a assume a: "a \<in> set (butlast bs)"
    then have "a \<in> set bs" by (rule in_set_butlastD)
    then have "a \<noteq> ?q1" "a \<noteq> ?q2"
      using disjoint_neq [OF AB(2) in1(1)] disjoint_neq [OF AB(3) in2(1)] by metis+
    then show "next_of ?h' a = next_of h a" using a bs' by (auto simp: nx)
  next
    fix a assume a: "a \<in> set (tl bs)"
    then have "a \<in> set bs" by (rule in_set_tlD)
    then have "a \<noteq> ?p1" "a \<noteq> ?p2"
      using disjoint_neq [OF AB(2) in1(2)] disjoint_neq [OF AB(3) in2(2)] by metis+
    then show "previous_of ?h' a = previous_of h a" using a bs' by (auto simp: pv)
  qed
  then have lbs: "linked ?h' bs" using linked_seg_is_list [OF src] by simp
  have "linked ?h' (l2 # xs) = linked h (l2 # xs)"
  proof (rule linked_cong)
    fix a assume a: "a \<in> set (butlast (l2 # xs))"
    then have "a \<in> B" using subs(3) by (meson in_set_butlastD subsetD)
    then show "next_of ?h' a = next_of h a" using fr2 a n2(3) by (auto simp: nx)
  next
    fix a assume a: "a \<in> set (tl (l2 # xs))"
    then have "a \<in> B" using subs(3) by auto
    then show "previous_of ?h' a = previous_of h a" using fr2 a n2(1) by (auto simp: pv)
  qed
  then have l2: "linked ?h' (l2 # xs)" using dst' by simp
  have "linked ?h' (ys @ [l2]) = linked h (ys @ [l2])"
  proof (rule linked_cong)
    fix a assume a: "a \<in> set (butlast (ys @ [l2]))"
    then have "a \<in> B" using subs(4) by auto
    then show "next_of ?h' a = next_of h a" using fr2 a n2(4) by (auto simp: nx)
  next
    fix a assume a: "a \<in> set (tl (ys @ [l2]))"
    then have "a \<in> B" using subs(4) by (meson in_set_tlD subsetD)
    then show "previous_of ?h' a = previous_of h a" using fr2 a n2(2) by (auto simp: pv)
  qed
  then have r2: "linked ?h' (ys @ [l2])" using dst' by simp
  have "linked ?h' ((l2 # xs) @ bs)"
    using l2 lbs ne neqs by (subst linked_app) (auto simp: nx pv before_def)
  moreover have "before l2 (xs @ bs) = last bs" using ne by (simp add: before_def)
  ultimately have "is_list ?h' l2 ((xs @ bs) @ ys)"
    unfolding is_list_cut using r2 dist2 neqs by (simp add: nx pv)
  then show "is_list ?h' l2 (xs @ bs @ ys)" by simp
qed

text \<open>The size loop returns, and returns the number of nodes.\<close>

lemma enet_list_size_from_linked:
  "linked h (ys @ [l]) \<Longrightarrow> l \<notin> set ys \<Longrightarrow>
     enet_list_size_from l h (after l ys) n = Some (n + length ys)"
proof (induction ys arbitrary: n)
  case Nil
  then show ?case by (simp add: enet_list_size_from.simps enet_list_end_def)
next
  case (Cons y ys)
  have "next_of h y = after l ys" using Cons.prems by (cases ys) auto
  moreover have "linked h (ys @ [l])" using Cons.prems by (cases ys) auto
  ultimately show ?case using Cons
    by (subst enet_list_size_from.simps) (simp add: enet_list_end_def)
qed

lemma enet_list_size_length: "is_list h l xs \<Longrightarrow> enet_list_size l h = Some (length xs)"
  using is_list_cut [of h l "[]" xs]
  by (auto simp: enet_list_size_def enet_list_begin_def enet_list_size_from_linked)

section \<open>Lists as first-in first-out queues\<close>

text \<open>
  The contract every ENet queue is used under: insertion at the end, removal at the
  front. \<open>holds s q xs\<close> abstracts queue \<open>q\<close> of state \<open>s\<close>, \<open>fresh\<close> is what an element must
  satisfy to be inserted.
\<close>

fun drain :: "('s \<Rightarrow> 'a \<times> 's) \<Rightarrow> nat \<Rightarrow> 's \<Rightarrow> 'a list \<times> 's" where
  "drain deq 0 s = ([], s)"
| "drain deq (Suc n) s =
     (let (x, s1) = deq s; (xs, s2) = drain deq n s1 in (x # xs, s2))"

locale fifo =
  fixes holds :: "'s \<Rightarrow> 'q \<Rightarrow> 'a list \<Rightarrow> bool"
    and fresh :: "'q \<Rightarrow> 'a list \<Rightarrow> 'a \<Rightarrow> bool"
    and enqueue :: "'q \<Rightarrow> 'a \<Rightarrow> 's \<Rightarrow> 's"
    and dequeue :: "'q \<Rightarrow> 's \<Rightarrow> 'a \<times> 's"
    and is_empty :: "'q \<Rightarrow> 's \<Rightarrow> bool"
  assumes enqueue: "holds s q xs \<Longrightarrow> fresh q xs x \<Longrightarrow> holds (enqueue q x s) q (xs @ [x])"
    and dequeue: "holds s q (x # xs) \<Longrightarrow> fst (dequeue q s) = x \<and> holds (snd (dequeue q s)) q xs"
    and is_empty: "holds s q xs \<Longrightarrow> is_empty q s \<longleftrightarrow> xs = []"
begin

lemma enqueue_all:
  assumes "holds s q xs"
    and "\<And>us x vs. ys = us @ x # vs \<Longrightarrow> fresh q (xs @ us) x"
  shows "holds (fold (enqueue q) ys s) q (xs @ ys)"
  using assms
proof (induction ys arbitrary: s xs)
  case Nil
  then show ?case by simp
next
  case (Cons y ys)
  have "fresh q xs y" using Cons.prems(2) [of "[]" y ys] by simp
  then have "holds (enqueue q y s) q (xs @ [y])" using Cons.prems(1) by (intro enqueue)
  moreover have "fresh q ((xs @ [y]) @ us) x" if "ys = us @ x # vs" for us x vs
    using Cons.prems(2) [of "y # us" x vs] that by simp
  ultimately have "holds (fold (enqueue q) ys (enqueue q y s)) q ((xs @ [y]) @ ys)"
    by (intro Cons.IH)
  then show ?case by simp
qed

lemma drain_all:
  "holds s q (xs @ ys) \<Longrightarrow>
     fst (drain (dequeue q) (length xs) s) = xs \<and> holds (snd (drain (dequeue q) (length xs) s)) q ys"
proof (induction xs arbitrary: s)
  case Nil
  then show ?case by simp
next
  case (Cons x xs)
  then have d: "fst (dequeue q s) = x" "holds (snd (dequeue q s)) q (xs @ ys)"
    using dequeue by auto
  from Cons.IH [OF d(2)] d(1) show ?case
    by (auto simp: Let_def split: prod.splits)
qed

text \<open>What goes in comes out in the same order, behind what was there before.\<close>

lemma first_in_first_out:
  assumes "holds s q xs"
    and "\<And>us x vs. ys = us @ x # vs \<Longrightarrow> fresh q (xs @ us) x"
  shows "fst (drain (dequeue q) (length xs + length ys) (fold (enqueue q) ys s)) = xs @ ys"
    and "is_empty q (snd (drain (dequeue q) (length xs + length ys) (fold (enqueue q) ys s)))"
proof -
  have "holds (fold (enqueue q) ys s) q ((xs @ ys) @ [])"
    using enqueue_all [OF assms] by simp
  from drain_all [OF this] is_empty
  show "fst (drain (dequeue q) (length xs + length ys) (fold (enqueue q) ys s)) = xs @ ys"
    and "is_empty q (snd (drain (dequeue q) (length xs + length ys) (fold (enqueue q) ys s)))"
    by auto
qed

end

definition list_enqueue :: "node \<Rightarrow> node \<Rightarrow> list_heap \<Rightarrow> list_heap" where
  "list_enqueue l d h = snd (enet_list_insert (enet_list_end l) d h)"

definition list_dequeue :: "node \<Rightarrow> list_heap \<Rightarrow> node \<times> list_heap" where
  "list_dequeue l h = enet_list_remove (enet_list_begin l h) h"

interpretation list_fifo: fifo is_list "\<lambda>l xs d. d \<notin> set (l # xs)" list_enqueue list_dequeue enet_list_empty
proof unfold_locales
  fix h l xs d assume "is_list h l xs" "d \<notin> set (l # xs)"
  then show "is_list (list_enqueue l d h) l (xs @ [d])"
    using is_list_insert [of h l xs "[]" d] by (simp add: list_enqueue_def enet_list_end_def)
next
  fix h l x xs assume il: "is_list h l (x # xs)"
  then have "enet_list_begin l h = x" by (simp add: enet_list_begin_is_list)
  then show "fst (list_dequeue l h) = x \<and> is_list (snd (list_dequeue l h)) l xs"
    using is_list_remove [of h l "[]" x xs] il
    by (simp add: list_dequeue_def enet_list_remove_def)
next
  fix h l xs assume "is_list h l xs"
  then show "enet_list_empty l h \<longleftrightarrow> xs = []" by (rule enet_list_empty_is_list)
qed

section \<open>Properties of the list operations\<close>


text \<open>A heap with an empty list at node 0 and a one-element list at node 10.\<close>

definition example_heap :: list_heap where
  "example_heap = list_enqueue 10 11 (enet_list_clear 10 (enet_list_clear 0
     \<lparr>next_of = (\<lambda>_. 99), previous_of = (\<lambda>_. 99)\<rparr>))"

lemma example_heap_lists: "is_list example_heap 0 []" "is_list example_heap 10 [11]"
  by (simp_all add: example_heap_def list_enqueue_def enet_list_insert_def enet_list_clear_def
      enet_list_end_def is_list_def Let_def)


text \<open>
  C21: Moving a non-empty segment from one list in front of a position of another removes
  exactly that segment from the first list and splices it, in order, into the second; the
  call returns the segment's first node.
\<close>

theorem list_move_correct:
  assumes "is_list h l1 (as @ bs @ cs)" and "is_list h l2 (xs @ ys)"
    and "set (l1 # as @ bs @ cs) \<inter> set (l2 # xs @ ys) = {}" and "bs \<noteq> []"
  shows "fst (enet_list_move (after l2 ys) (hd bs) (last bs) h) = hd bs
    \<and> is_list (snd (enet_list_move (after l2 ys) (hd bs) (last bs) h)) l1 (as @ cs)
    \<and> is_list (snd (enet_list_move (after l2 ys) (hd bs) (last bs) h)) l2 (xs @ bs @ ys)"
  using is_list_move [OF assms] by (simp add: enet_list_move_def Let_def)

theorem list_move_correct_witness:
  "is_list (snd (enet_list_move 0 11 11 example_heap)) 10 []
   \<and> is_list (snd (enet_list_move 0 11 11 example_heap)) 0 [11]"
  using list_move_correct [of example_heap 10 "[]" "[11]" "[]" 0 "[]" "[]"] example_heap_lists
  by simp

text \<open>
  C22: A list used through insertion at the end and removal at the front is a first-in
  first-out queue: after queueing the distinct fresh nodes \<open>ys\<close> behind \<open>xs\<close>, removing them
  all returns \<open>xs @ ys\<close> in order and leaves the list empty, and before that the size loop
  ends with their number.
\<close>

theorem list_queue_fifo:
  assumes "is_list h l xs" and "distinct ys" and "set ys \<inter> set (l # xs) = {}"
  shows "fst (drain (list_dequeue l) (length xs + length ys) (fold (list_enqueue l) ys h)) = xs @ ys
    \<and> enet_list_empty l (snd (drain (list_dequeue l) (length xs + length ys)
         (fold (list_enqueue l) ys h)))
    \<and> enet_list_size l (fold (list_enqueue l) ys h) = Some (length xs + length ys)"
proof -
  have fr: "x \<notin> set (l # xs @ us)" if "ys = us @ x # vs" for us x vs
    using assms(2,3) that by auto
  show ?thesis
    using list_fifo.first_in_first_out [OF assms(1) fr]
      enet_list_size_length [OF list_fifo.enqueue_all [OF assms(1) fr]] by simp
qed

theorem list_queue_fifo_witness:
  "fst (drain (list_dequeue 10) 3 (fold (list_enqueue 10) [12, 13] example_heap)) = [11, 12, 13]"
  using list_queue_fifo [of example_heap 10 "[11]" "[12, 13]"] example_heap_lists
  by (simp add: numeral_3_eq_3)

end
