(* ===== verification/ENet_Packet.thy ===== *)
theory ENet_Packet
  imports Prelude
begin

text \<open>
  Memory and packets: the allocation callbacks of \<^verbatim>\<open>callbacks.c\<close>, the packets and the CRC-32
  of \<^verbatim>\<open>packet.c\<close>. \<open>enet_env\<close> is what lies outside an ENet host: the packets allocated so far
  (a packet pointer is a key of \<open>env_packets\<close>, \<^verbatim>\<open>NULL\<close> is \<open>None\<close>), the outcomes of the
  coming allocations, what uninitialised memory holds, the clock, the datagrams that will be
  received and those sent, and the flag \<open>env_ub\<close>, set where the C code would access memory it
  does not own. \<^verbatim>\<open>ENetHost\<close> extends this record.
\<close>

section \<open>Addresses and the environment of a host\<close>

record ENetAddress =
  ad_host :: u32
  ad_port :: u16

definition ENET_HOST_ANY :: u32 where "ENET_HOST_ANY = 0"
definition ENET_HOST_BROADCAST :: u32 where "ENET_HOST_BROADCAST = 0xFFFFFFFF"

type_synonym packet_ref = nat

record ENetPacket =
  pk_referenceCount :: size_t
  pk_flags :: u32
  pk_data :: "u8 list option"
  pk_dataLength :: size_t
  pk_freeCallback :: "nat option"
  pk_userData :: nat

definition ENET_PACKET_FLAG_RELIABLE :: u32 where "ENET_PACKET_FLAG_RELIABLE = 1"
definition ENET_PACKET_FLAG_UNSEQUENCED :: u32 where "ENET_PACKET_FLAG_UNSEQUENCED = 2"
definition ENET_PACKET_FLAG_NO_ALLOCATE :: u32 where "ENET_PACKET_FLAG_NO_ALLOCATE = 4"
definition ENET_PACKET_FLAG_UNRELIABLE_FRAGMENT :: u32 where
  "ENET_PACKET_FLAG_UNRELIABLE_FRAGMENT = 8"
definition ENET_PACKET_FLAG_SENT :: u32 where "ENET_PACKET_FLAG_SENT = 256"

lemmas packet_flag_defs =
  ENET_PACKET_FLAG_RELIABLE_def ENET_PACKET_FLAG_UNSEQUENCED_def ENET_PACKET_FLAG_NO_ALLOCATE_def
  ENET_PACKET_FLAG_UNRELIABLE_FRAGMENT_def ENET_PACKET_FLAG_SENT_def

text \<open>What a call of \<^verbatim>\<open>recvfrom\<close> yields: an error, nothing, or a datagram.\<close>

datatype received = RecvError | RecvNone | RecvData ENetAddress "u8 list"

record enet_env =
  env_packets :: "packet_ref \<Rightarrow> ENetPacket option"
  env_nextAddr :: nat
  env_allocs :: "bool list"
  env_noMemory :: nat
  env_junk :: "nat \<Rightarrow> u8"
  env_callbackLog :: "(nat \<times> packet_ref) list"
  env_destroyed :: "nat list"
  env_ub :: bool
  env_now :: u32
  env_clock :: "u32 list"
  env_recv :: "received list"
  env_sendResults :: "int list"
  env_sent :: "(ENetAddress \<times> u8 list) list"
  env_waits :: "(int \<times> u32) list"
  env_rand :: "u32 list"

section \<open>Allocation callbacks\<close>

definition ENET_VERSION_CREATE :: "u32 \<Rightarrow> u32 \<Rightarrow> u32 \<Rightarrow> u32" where
  "ENET_VERSION_CREATE major minor patch = push_bit 16 major OR push_bit 8 minor OR patch"

definition ENET_VERSION :: u32 where
  "ENET_VERSION = ENET_VERSION_CREATE 1 3 14"

record 'f ENetCallbacks =
  cb_malloc :: "'f option"
  cb_free :: "'f option"
  cb_no_memory :: "'f option"

text \<open>
  The result is the return code and the callbacks in force afterwards; \<open>initialize\<close> is the
  result of the platform's \<^verbatim>\<open>enet_initialize\<close>.
\<close>

definition enet_initialize_with_callbacks ::
  "int \<Rightarrow> u32 \<Rightarrow> 'f ENetCallbacks \<Rightarrow> 'f ENetCallbacks \<Rightarrow> int \<times> 'f ENetCallbacks" where
  "enet_initialize_with_callbacks initialize version inits callbacks =
    (if version < ENET_VERSION_CREATE 1 3 0 then (-1, callbacks)
     else if (cb_malloc inits \<noteq> None \<or> cb_free inits \<noteq> None)
             \<and> (cb_malloc inits = None \<or> cb_free inits = None) then (-1, callbacks)
     else
       let callbacks = (if cb_malloc inits \<noteq> None \<or> cb_free inits \<noteq> None
                        then callbacks\<lparr>cb_malloc := cb_malloc inits, cb_free := cb_free inits\<rparr>
                        else callbacks);
           callbacks = (if cb_no_memory inits \<noteq> None
                        then callbacks\<lparr>cb_no_memory := cb_no_memory inits\<rparr> else callbacks)
       in (initialize, callbacks))"

definition enet_linked_version :: u32 where
  "enet_linked_version = ENET_VERSION"

text \<open>
  Whether the next allocation succeeds is read from \<open>env_allocs\<close> (allocations succeed when
  it is empty); a failure calls \<^verbatim>\<open>no_memory\<close>, counted in \<open>env_noMemory\<close>, and returns \<^verbatim>\<open>NULL\<close>.
\<close>

definition enet_malloc :: "'a enet_env_scheme \<Rightarrow> bool \<times> 'a enet_env_scheme" where
  "enet_malloc s = (case env_allocs s of
      [] \<Rightarrow> (True, s)
    | True # bs \<Rightarrow> (True, s\<lparr>env_allocs := bs\<rparr>)
    | False # bs \<Rightarrow> (False, s\<lparr>env_allocs := bs, env_noMemory := Suc (env_noMemory s)\<rparr>))"

section \<open>Packets\<close>

definition enet_packet_create ::
  "u8 list option \<Rightarrow> size_t \<Rightarrow> u32 \<Rightarrow> 'a enet_env_scheme \<Rightarrow> packet_ref option \<times> 'a enet_env_scheme" where
  "enet_packet_create data dataLength flags s =
    (let (ok, s) = enet_malloc s in
     if \<not> ok then (None, s)
     else
       let (ok, contents, s) =
         (if flags AND ENET_PACKET_FLAG_NO_ALLOCATE \<noteq> 0 then (True, data, s)
          else if dataLength \<le> 0 then (True, None, s)
          else let (ok, s) = enet_malloc s in
               if \<not> ok then (False, None, s)
               else case data of
                   None \<Rightarrow> (True, Some (map (env_junk s) [0..<unat dataLength]), s)
                 | Some d \<Rightarrow> (True, Some (take (unat dataLength) d),
                     if length d < unat dataLength then s\<lparr>env_ub := True\<rparr> else s))
       in if \<not> ok then (None, s)
          else (Some (env_nextAddr s),
                s\<lparr>env_packets := (env_packets s)(env_nextAddr s \<mapsto>
                     \<lparr>pk_referenceCount = 0, pk_flags = flags, pk_data = contents,
                      pk_dataLength = dataLength, pk_freeCallback = None, pk_userData = 0\<rparr>),
                  env_nextAddr := Suc (env_nextAddr s)\<rparr>))"

definition enet_packet_destroy :: "packet_ref option \<Rightarrow> 'a enet_env_scheme \<Rightarrow> 'a enet_env_scheme" where
  "enet_packet_destroy packet s =
    (case packet of
       None \<Rightarrow> s
     | Some p \<Rightarrow>
        (case env_packets s p of
           None \<Rightarrow> s\<lparr>env_ub := True\<rparr>
         | Some pk \<Rightarrow>
            let s = (case pk_freeCallback pk of
                       None \<Rightarrow> s
                     | Some cb \<Rightarrow> s\<lparr>env_callbackLog := env_callbackLog s @ [(cb, p)]\<rparr>)
            in s\<lparr>env_packets := (env_packets s)(p := None)\<rparr>))"

definition enet_packet_resize ::
  "packet_ref \<Rightarrow> size_t \<Rightarrow> 'a enet_env_scheme \<Rightarrow> int \<times> 'a enet_env_scheme" where
  "enet_packet_resize packet dataLength s =
    (case env_packets s packet of
       None \<Rightarrow> (0, s\<lparr>env_ub := True\<rparr>)
     | Some pk \<Rightarrow>
        if dataLength \<le> pk_dataLength pk \<or> pk_flags pk AND ENET_PACKET_FLAG_NO_ALLOCATE \<noteq> 0
        then (0, s\<lparr>env_packets := (env_packets s)(packet \<mapsto> pk\<lparr>pk_dataLength := dataLength\<rparr>)\<rparr>)
        else
          let (ok, s) = enet_malloc s in
          if \<not> ok then (-1, s)
          else
            let old = take (unat (pk_dataLength pk)) (case pk_data pk of None \<Rightarrow> [] | Some d \<Rightarrow> d);
                newData = old @ map (env_junk s) [length old..<unat dataLength];
                s = (if length old < unat (pk_dataLength pk) then s\<lparr>env_ub := True\<rparr> else s)
            in (0, s\<lparr>env_packets := (env_packets s)(packet \<mapsto>
                       pk\<lparr>pk_data := Some newData, pk_dataLength := dataLength\<rparr>)\<rparr>))"

text \<open>
  The reference counting that \<^verbatim>\<open>peer.c\<close> and \<^verbatim>\<open>protocol.c\<close> repeat inline: take a reference;
  drop one and destroy the packet with the last. \<open>mark\<close> is the flag that some places set
  before destroying (\<^verbatim>\<open>ENET_PACKET_FLAG_SENT\<close>).
\<close>

definition packet_retain :: "size_t \<Rightarrow> packet_ref \<Rightarrow> 'a enet_env_scheme \<Rightarrow> 'a enet_env_scheme" where
  "packet_retain n p s = (case env_packets s p of
      None \<Rightarrow> s\<lparr>env_ub := True\<rparr>
    | Some pk \<Rightarrow> s\<lparr>env_packets := (env_packets s)(p \<mapsto>
         pk\<lparr>pk_referenceCount := pk_referenceCount pk + n\<rparr>)\<rparr>)"

definition packet_drop :: "packet_ref \<Rightarrow> 'a enet_env_scheme \<Rightarrow> 'a enet_env_scheme" where
  "packet_drop p s = (case env_packets s p of
      None \<Rightarrow> s\<lparr>env_ub := True\<rparr>
    | Some pk \<Rightarrow> s\<lparr>env_packets := (env_packets s)(p \<mapsto>
         pk\<lparr>pk_referenceCount := pk_referenceCount pk - 1\<rparr>)\<rparr>)"

definition packet_release :: "u32 \<Rightarrow> packet_ref \<Rightarrow> 'a enet_env_scheme \<Rightarrow> 'a enet_env_scheme" where
  "packet_release mark p s =
    (let s = packet_drop p s in
     case env_packets s p of
       None \<Rightarrow> s
     | Some pk \<Rightarrow>
        if pk_referenceCount pk = 0
        then enet_packet_destroy (Some p) (s\<lparr>env_packets := (env_packets s)(p \<mapsto>
               pk\<lparr>pk_flags := pk_flags pk OR mark\<rparr>)\<rparr>)
        else s)"

section \<open>CRC-32\<close>

text \<open>
  \<^verbatim>\<open>reflect_crc\<close> works on \<^verbatim>\<open>int\<close>: the right shift of the (possibly negative) value is
  arithmetic.
\<close>

definition reflect_step :: "nat \<Rightarrow> nat \<Rightarrow> u32 \<times> u32 \<Rightarrow> u32 \<times> u32" where
  "reflect_step bits i = (\<lambda>(val, result).
     (signed_drop_bit 1 val,
      if val AND 1 \<noteq> 0 then result OR push_bit (bits - 1 - i) 1 else result))"

definition reflect_crc :: "u32 \<Rightarrow> nat \<Rightarrow> u32" where
  "reflect_crc val bits = snd (fold (reflect_step bits) [0..<bits] (val, 0))"

definition crc_shift :: "u32 \<Rightarrow> u32" where
  "crc_shift crc = (if crc AND 0x80000000 \<noteq> 0 then push_bit 1 crc XOR 0x04c11db7 else push_bit 1 crc)"

definition crc_table_entry :: "nat \<Rightarrow> u32" where
  "crc_table_entry byte =
    reflect_crc (fold (\<lambda>_. crc_shift) [0..<8] (push_bit 24 (reflect_crc (word_of_nat byte) 8))) 32"

definition initialize_crc32 :: "u32 list" where
  "initialize_crc32 = map crc_table_entry [0..<256]"

definition crc32_step :: "u32 list \<Rightarrow> u8 \<Rightarrow> u32 \<Rightarrow> u32" where
  "crc32_step crcTable b crc =
     drop_bit 8 crc XOR crcTable ! unat ((crc AND 0xFF) XOR ucast b)"

definition enet_crc32 :: "u8 list list \<Rightarrow> u32" where
  "enet_crc32 buffers =
     ENET_HOST_TO_NET_32 (NOT (fold (\<lambda>buffer crc. fold (crc32_step initialize_crc32) buffer crc)
                                    buffers 0xFFFFFFFF))"

section \<open>The checksum is the bitwise CRC-32\<close>

lemma reflect_step_pair: "reflect_step bits i (val, result) =
    (signed_drop_bit 1 val,
     if val AND 1 \<noteq> 0 then result OR push_bit (bits - 1 - i) 1 else result)"
  by (simp add: reflect_step_def)

lemma bit_reflect_loop:
  assumes "bits \<le> 32" "k \<le> bits"
  shows "fst (fold (reflect_step bits) [0..<k] (v, 0)) = signed_drop_bit k v
    \<and> (\<forall>j. bit (snd (fold (reflect_step bits) [0..<k] (v, 0))) j
           \<longleftrightarrow> bits - k \<le> j \<and> j < bits \<and> bit v (bits - 1 - j))"
  using assms(2)
proof (induction k)
  case 0
  then show ?case by auto
next
  case (Suc k)
  obtain a b where r: "fold (reflect_step bits) [0..<k] (v, 0) = (a, b)" by fastforce
  have a: "a = signed_drop_bit k v"
    and b: "bit b j \<longleftrightarrow> bits - k \<le> j \<and> j < bits \<and> bit v (bits - 1 - j)" for j
    using Suc r by auto
  have odd: "a AND 1 \<noteq> 0 \<longleftrightarrow> bit v k"
    using assms(1) Suc.prems by (simp add: a and_1_bit bit_simps)
  have "signed_drop_bit 1 a = signed_drop_bit (Suc k) v"
    using assms(1) Suc.prems by (auto intro!: bit_word_eqI simp: a bit_simps)
  moreover have "bit (if a AND 1 \<noteq> 0 then b OR push_bit (bits - 1 - k) 1 else b) j
      \<longleftrightarrow> bits - Suc k \<le> j \<and> j < bits \<and> bit v (bits - 1 - j)" for j
  proof (cases "j = bits - Suc k")
    case True
    then have "bits - 1 - j = k" using Suc.prems by simp
    then show ?thesis using Suc.prems assms(1) True by (auto simp: odd b bit_simps)
  next
    case False
    then show ?thesis using Suc.prems assms(1) by (auto simp: odd b bit_simps)
  qed
  ultimately show ?case by (simp add: r reflect_step_pair)
qed

lemma bit_reflect_crc:
  "bits \<le> 32 \<Longrightarrow> bit (reflect_crc v bits) j \<longleftrightarrow> j < bits \<and> bit v (bits - 1 - j)"
  using bit_reflect_loop [of bits bits v] by (simp add: reflect_crc_def)
 
text \<open>
  The reference: the reflected CRC-32 of IEEE 802.3, one bit at a time, over the
  concatenation of the buffers.
\<close>

definition crc32_bit :: "u32 \<Rightarrow> u32" where
  "crc32_bit c = (if c AND 1 \<noteq> 0 then drop_bit 1 c XOR 0xEDB88320 else drop_bit 1 c)"

lemma reflect_xor: "reflect_crc (x XOR y) 32 = reflect_crc x 32 XOR reflect_crc y 32"
  by (rule bit_word_eqI) (auto simp: bit_reflect_crc bit_simps)

lemma reflect_shift: "reflect_crc (push_bit 1 x) 32 = drop_bit 1 (reflect_crc x 32)"
proof (rule bit_word_eqI)
  fix j assume "j < LENGTH(32)"
  then show "bit (reflect_crc (push_bit 1 x) 32) j \<longleftrightarrow> bit (drop_bit 1 (reflect_crc x 32)) j"
    by (simp only: bit_reflect_crc bit_push_bit_iff bit_drop_bit_eq comp_def order_refl) (auto simp: Suc_diff_Suc)
qed

lemma reflect_poly: "reflect_crc 0x04c11db7 32 = 0xEDB88320"
  by code_simp

lemma reflect_crc_shift: "reflect_crc (crc_shift crc) 32 = crc32_bit (reflect_crc crc 32)"
proof -
  have "(0x80000000 :: u32) = push_bit 31 1" by simp
  then have "crc AND 0x80000000 \<noteq> 0 \<longleftrightarrow> reflect_crc crc 32 AND 1 \<noteq> 0"
    using and_push_bit_1 [of 31 crc] by (simp add: and_1_bit bit_reflect_crc)
  then show ?thesis
    by (simp only: crc_shift_def crc32_bit_def reflect_xor reflect_shift reflect_poly
        if_distrib [of "\<lambda>x. reflect_crc x 32"])
qed

lemma crc_table_entry_bitwise:
  assumes "n < 256" shows "crc_table_entry n = (crc32_bit ^^ 8) (word_of_nat n)"
proof -
  have f: "fold (\<lambda>_. crc_shift) [0..<k] x = (crc_shift ^^ k) x" for k x
    by (induction k) auto
  have r: "reflect_crc ((crc_shift ^^ k) x) 32 = (crc32_bit ^^ k) (reflect_crc x 32)" for k x
    by (induction k) (simp_all add: reflect_crc_shift)
  have "reflect_crc (push_bit 24 (reflect_crc (word_of_nat n) 8)) 32 = word_of_nat n"
  proof (rule bit_word_eqI)
    fix j :: nat assume "j < LENGTH(32)"
    have "\<not> bit n j" if "8 \<le> j"
    proof -
      have "(2::nat) ^ 8 \<le> 2 ^ j" using that by (intro power_increasing) simp_all
      then have "n div 2 ^ j = 0" using assms by simp
      then show ?thesis by (simp add: bit_iff_odd)
    qed
    then have lt: "bit n j \<Longrightarrow> j < 8" by (metis not_less)
    then show "bit (reflect_crc (push_bit 24 (reflect_crc (word_of_nat n) 8)) 32) j \<longleftrightarrow> bit (word_of_nat n :: u32) j"
      using \<open>j < LENGTH(32)\<close> by (cases "j < 8") (auto simp: bit_reflect_crc bit_simps)
  qed
  then show ?thesis by (simp add: crc_table_entry_def f r del: upt_rec_numeral)
qed

definition crc32_byte :: "u8 \<Rightarrow> u32 \<Rightarrow> u32" where
  "crc32_byte b crc = (crc32_bit ^^ 8) (crc XOR ucast b)"

lemma initialize_crc32_nth: "n < 256 \<Longrightarrow> initialize_crc32 ! n = (crc32_bit ^^ 8) (word_of_nat n)"
  by (simp add: initialize_crc32_def crc_table_entry_bitwise del: upt_rec_numeral)

lemma crc32_bit_xor: "crc32_bit (x XOR y) = crc32_bit x XOR crc32_bit y"
  by (auto simp: crc32_bit_def and_1_bit bit_simps intro!: bit_word_eqI)

lemma crc32_bits_xor: "(crc32_bit ^^ k) (x XOR y) = (crc32_bit ^^ k) x XOR (crc32_bit ^^ k) y"
  by (induction k) (simp_all add: crc32_bit_xor)

lemma crc32_bit_even: "\<not> bit x 0 \<Longrightarrow> crc32_bit x = drop_bit 1 x"
  by (simp add: crc32_bit_def and_1_bit)

lemma crc32_bits_high:
  "(\<And>j. j < k \<Longrightarrow> \<not> bit x j) \<Longrightarrow> (crc32_bit ^^ k) x = drop_bit k x"
proof (induction k)
  case 0
  then show ?case by simp
next
  case (Suc k)
  then have "(crc32_bit ^^ k) x = drop_bit k x" by simp
  moreover have "\<not> bit (drop_bit k x) 0" using Suc.prems [of k] by (simp add: bit_simps)
  ultimately show ?case by (simp add: crc32_bit_even)
qed

lemma bit_FF: "bit (0xFF :: u32) n \<longleftrightarrow> n < 8"
proof -
  have "(0xFF :: u32) = mask 8" by (simp add: mask_eq_exp_minus_1)
  show ?thesis by (subst \<open>0xFF = mask 8\<close>) (auto simp: bit_mask_iff)
qed

lemma crc32_step_bitwise: "crc32_step initialize_crc32 b crc = crc32_byte b crc"
proof -
  define m :: u32 where "m = 0xFF"
  define x :: u32 where "x = crc XOR ucast b"
  have bm [simp]: "bit m n \<longleftrightarrow> n < 8" for n by (simp only: m_def bit_FF)
  have low: "(crc AND m) XOR ucast b = x AND m"
    by (rule bit_word_eqI) (auto simp: x_def bit_and_iff bit_xor_iff bit_ucast_iff dest: bit_imp_le_length)
  have "x AND m \<le> m" by (rule word_and_le1)
  then have lt: "unat (x AND m) < 256" by (simp add: word_le_nat_alt m_def)
  have split: "x = (x AND NOT m) XOR (x AND m)"
    by (rule bit_word_eqI) (auto simp: bit_and_iff bit_xor_iff bit_not_iff)
  have "(crc32_bit ^^ 8) (x AND NOT m) = drop_bit 8 (x AND NOT m)"
    by (rule crc32_bits_high) (simp add: bit_and_iff bit_not_iff)
  also have "\<dots> = drop_bit 8 crc"
    by (rule bit_word_eqI)
      (auto simp: x_def bit_and_iff bit_not_iff bit_drop_bit_eq bit_xor_iff bit_ucast_iff
        dest: bit_imp_le_length)
  finally have high: "(crc32_bit ^^ 8) (x AND NOT m) = drop_bit 8 crc" .
  have "crc32_byte b crc = (crc32_bit ^^ 8) ((x AND NOT m) XOR (x AND m))"
    using split by (simp add: crc32_byte_def x_def)
  also have "\<dots> = drop_bit 8 crc XOR (crc32_bit ^^ 8) (x AND m)"
    by (simp only: crc32_bits_xor high)
  finally show ?thesis
    using lt by (simp add: crc32_step_def low initialize_crc32_nth flip: m_def)
qed

lemma xor_xor_cancel: "((x :: 'a::len word) XOR c) XOR c = x"
  by (rule bit_word_eqI) (auto simp: bit_xor_iff)

lemma crc32_bit_inj: "crc32_bit x = crc32_bit y \<Longrightarrow> x = y"
proof (rule ccontr)
  assume eq: "crc32_bit x = crc32_bit y" and ne: "x \<noteq> y"
  let ?d = "x XOR y"
  have z: "crc32_bit ?d = 0" using eq by (simp add: crc32_bit_xor)
  have "bit (crc32_bit ?d) 31 = bit ?d 0"
  proof -
    have "bit (0xEDB88320 :: u32) 31" by simp
    then show ?thesis by (auto simp: crc32_bit_def and_1_bit bit_simps dest: bit_imp_le_length)
  qed
  then have "\<not> bit ?d 0" using z by simp
  then have "drop_bit 1 ?d = 0" using z by (simp add: crc32_bit_def and_1_bit)
  then have "\<not> bit ?d (Suc j)" for j
    using bit_drop_bit_eq [of 1 ?d] by (simp add: fun_eq_iff)
  with \<open>\<not> bit ?d 0\<close> have "\<not> bit ?d j" for j by (cases j) auto
  then have "bit x j = bit y j" for j by (simp add: bit_xor_iff)
  then have "x = y" by (intro bit_word_eqI) simp
  with ne show False by simp
qed

lemma crc32_byte_inj_crc: "crc32_byte b x = crc32_byte b y \<longleftrightarrow> x = y"
proof
  assume "crc32_byte b x = crc32_byte b y"
  then have "(crc32_bit ^^ 8) (x XOR ucast b) = (crc32_bit ^^ 8) (y XOR ucast b)"
    by (simp add: crc32_byte_def)
  moreover have "inj (crc32_bit ^^ 8)"
    by (rule inj_fn) (rule injI, rule crc32_bit_inj)
  ultimately have "x XOR ucast b = y XOR ucast b" by (rule injD [rotated])
  from arg_cong [OF this, of "\<lambda>w. w XOR ucast b"] show "x = y"
    by (simp only: xor_xor_cancel)
qed simp

lemma crc32_byte_inj_byte: "crc32_byte a x = crc32_byte b x \<longleftrightarrow> a = b"
proof
  assume "crc32_byte a x = crc32_byte b x"
  then have "(crc32_bit ^^ 8) (x XOR ucast a) = (crc32_bit ^^ 8) (x XOR ucast b)"
    by (simp add: crc32_byte_def)
  moreover have "inj (crc32_bit ^^ 8)"
    by (rule inj_fn) (rule injI, rule crc32_bit_inj)
  ultimately have e: "x XOR ucast a = x XOR (ucast b :: u32)" by (rule injD [rotated])
  have "bit a n = bit b n" if "n < 8" for n
    using arg_cong [OF e, of "\<lambda>w. bit w n"] that by (auto simp: bit_xor_iff bit_ucast_iff)
  then show "a = b" by (intro bit_word_eqI) simp
qed simp

lemma crc32_bytes_inj: "fold crc32_byte vs x = fold crc32_byte vs y \<longleftrightarrow> x = y"
  by (induction vs arbitrary: x y) (simp_all add: crc32_byte_inj_crc)

lemma fold_fold_concat: "fold (\<lambda>buffer. fold f buffer) buffers x = fold f (concat buffers) x"
  by (induction buffers arbitrary: x) simp_all

lemma enet_crc32_concat:
  "enet_crc32 buffers = bswap32 (NOT (fold crc32_byte (concat buffers) 0xFFFFFFFF))"
proof -
  have "crc32_step initialize_crc32 = crc32_byte"
    by (intro ext crc32_step_bitwise)
  then show ?thesis by (simp add: enet_crc32_def fold_fold_concat)
qed

text \<open>
  C17: The table-driven checksum over scattered buffers is, in network byte order, the bitwise
  CRC-32 of the buffers' concatenation: the table is right in every entry and how the data is
  split into buffers does not matter.
\<close>

theorem enet_crc32_is_crc32:
  "enet_crc32 buffers = ENET_HOST_TO_NET_32 (NOT (fold crc32_byte (concat buffers) 0xFFFFFFFF))"
  by (rule enet_crc32_concat)

text \<open>
  C19: The checksum of a datagram changes whenever one of its bytes does, whatever the byte
  and its position: a datagram with a single corrupted byte never passes the check.
\<close>

theorem enet_crc32_detects_byte_error:
  "enet_crc32 [us @ a # vs] = enet_crc32 [us @ b # vs] \<longleftrightarrow> a = b"
proof -
  have "NOT x = NOT y \<longleftrightarrow> x = y" for x y :: u32 by (metis bit.double_compl)
  then show ?thesis
    by (simp add: enet_crc32_concat crc32_bytes_inj crc32_byte_inj_byte)
qed

end
