(* ===== verification/ENet_Protocol.thy ===== *)
theory ENet_Protocol
  imports Prelude
begin

text \<open>
  The wire format of \<^verbatim>\<open>protocol.h\<close>: the command header, the packed command structs and the
  union of them, the table of command sizes, and how a command lies in memory. A field holds
  the raw word as it is stored, so the code's \<^verbatim>\<open>ENET_HOST_TO_NET\<close> and \<^verbatim>\<open>ENET_NET_TO_HOST\<close>
  conversions appear in the definitions that use it.
\<close>

section \<open>Constants\<close>

definition ENET_PROTOCOL_MINIMUM_MTU :: u32 where "ENET_PROTOCOL_MINIMUM_MTU = 576"
definition ENET_PROTOCOL_MAXIMUM_MTU :: u32 where "ENET_PROTOCOL_MAXIMUM_MTU = 4096"
definition ENET_PROTOCOL_MAXIMUM_PACKET_COMMANDS :: nat where "ENET_PROTOCOL_MAXIMUM_PACKET_COMMANDS = 32"
definition ENET_PROTOCOL_MINIMUM_WINDOW_SIZE :: u32 where "ENET_PROTOCOL_MINIMUM_WINDOW_SIZE = 4096"
definition ENET_PROTOCOL_MAXIMUM_WINDOW_SIZE :: u32 where "ENET_PROTOCOL_MAXIMUM_WINDOW_SIZE = 65536"
definition ENET_PROTOCOL_MINIMUM_CHANNEL_COUNT :: size_t where "ENET_PROTOCOL_MINIMUM_CHANNEL_COUNT = 1"
definition ENET_PROTOCOL_MAXIMUM_CHANNEL_COUNT :: size_t where "ENET_PROTOCOL_MAXIMUM_CHANNEL_COUNT = 255"
definition ENET_PROTOCOL_MAXIMUM_PEER_ID :: u16 where "ENET_PROTOCOL_MAXIMUM_PEER_ID = 0xFFF"
definition ENET_PROTOCOL_MAXIMUM_FRAGMENT_COUNT :: u32 where
  "ENET_PROTOCOL_MAXIMUM_FRAGMENT_COUNT = 1024 * 1024"

definition ENET_PROTOCOL_COMMAND_NONE :: u8 where "ENET_PROTOCOL_COMMAND_NONE = 0"
definition ENET_PROTOCOL_COMMAND_ACKNOWLEDGE :: u8 where "ENET_PROTOCOL_COMMAND_ACKNOWLEDGE = 1"
definition ENET_PROTOCOL_COMMAND_CONNECT :: u8 where "ENET_PROTOCOL_COMMAND_CONNECT = 2"
definition ENET_PROTOCOL_COMMAND_VERIFY_CONNECT :: u8 where "ENET_PROTOCOL_COMMAND_VERIFY_CONNECT = 3"
definition ENET_PROTOCOL_COMMAND_DISCONNECT :: u8 where "ENET_PROTOCOL_COMMAND_DISCONNECT = 4"
definition ENET_PROTOCOL_COMMAND_PING :: u8 where "ENET_PROTOCOL_COMMAND_PING = 5"
definition ENET_PROTOCOL_COMMAND_SEND_RELIABLE :: u8 where "ENET_PROTOCOL_COMMAND_SEND_RELIABLE = 6"
definition ENET_PROTOCOL_COMMAND_SEND_UNRELIABLE :: u8 where "ENET_PROTOCOL_COMMAND_SEND_UNRELIABLE = 7"
definition ENET_PROTOCOL_COMMAND_SEND_FRAGMENT :: u8 where "ENET_PROTOCOL_COMMAND_SEND_FRAGMENT = 8"
definition ENET_PROTOCOL_COMMAND_SEND_UNSEQUENCED :: u8 where "ENET_PROTOCOL_COMMAND_SEND_UNSEQUENCED = 9"
definition ENET_PROTOCOL_COMMAND_BANDWIDTH_LIMIT :: u8 where "ENET_PROTOCOL_COMMAND_BANDWIDTH_LIMIT = 10"
definition ENET_PROTOCOL_COMMAND_THROTTLE_CONFIGURE :: u8 where "ENET_PROTOCOL_COMMAND_THROTTLE_CONFIGURE = 11"
definition ENET_PROTOCOL_COMMAND_SEND_UNRELIABLE_FRAGMENT :: u8 where "ENET_PROTOCOL_COMMAND_SEND_UNRELIABLE_FRAGMENT = 12"
definition ENET_PROTOCOL_COMMAND_COUNT :: u8 where "ENET_PROTOCOL_COMMAND_COUNT = 13"
definition ENET_PROTOCOL_COMMAND_MASK :: u8 where "ENET_PROTOCOL_COMMAND_MASK = 0x0F"
definition ENET_PROTOCOL_COMMAND_FLAG_ACKNOWLEDGE :: u8 where "ENET_PROTOCOL_COMMAND_FLAG_ACKNOWLEDGE = 0x80"
definition ENET_PROTOCOL_COMMAND_FLAG_UNSEQUENCED :: u8 where "ENET_PROTOCOL_COMMAND_FLAG_UNSEQUENCED = 0x40"
definition ENET_PROTOCOL_HEADER_FLAG_COMPRESSED :: u16 where "ENET_PROTOCOL_HEADER_FLAG_COMPRESSED = 0x4000"
definition ENET_PROTOCOL_HEADER_FLAG_SENT_TIME :: u16 where "ENET_PROTOCOL_HEADER_FLAG_SENT_TIME = 0x8000"
definition ENET_PROTOCOL_HEADER_FLAG_MASK :: u16 where "ENET_PROTOCOL_HEADER_FLAG_MASK = 0xC000"
definition ENET_PROTOCOL_HEADER_SESSION_MASK :: u16 where "ENET_PROTOCOL_HEADER_SESSION_MASK = 0x3000"
definition ENET_PROTOCOL_HEADER_SESSION_SHIFT :: nat where "ENET_PROTOCOL_HEADER_SESSION_SHIFT = 12"

lemmas command_defs =
  ENET_PROTOCOL_COMMAND_NONE_def
  ENET_PROTOCOL_COMMAND_ACKNOWLEDGE_def
  ENET_PROTOCOL_COMMAND_CONNECT_def
  ENET_PROTOCOL_COMMAND_VERIFY_CONNECT_def
  ENET_PROTOCOL_COMMAND_DISCONNECT_def
  ENET_PROTOCOL_COMMAND_PING_def
  ENET_PROTOCOL_COMMAND_SEND_RELIABLE_def
  ENET_PROTOCOL_COMMAND_SEND_UNRELIABLE_def
  ENET_PROTOCOL_COMMAND_SEND_FRAGMENT_def
  ENET_PROTOCOL_COMMAND_SEND_UNSEQUENCED_def
  ENET_PROTOCOL_COMMAND_BANDWIDTH_LIMIT_def
  ENET_PROTOCOL_COMMAND_THROTTLE_CONFIGURE_def
  ENET_PROTOCOL_COMMAND_SEND_UNRELIABLE_FRAGMENT_def
  ENET_PROTOCOL_COMMAND_COUNT_def
  ENET_PROTOCOL_COMMAND_MASK_def

lemmas command_flag_defs =
  ENET_PROTOCOL_COMMAND_FLAG_ACKNOWLEDGE_def ENET_PROTOCOL_COMMAND_FLAG_UNSEQUENCED_def

lemmas header_flag_defs =
  ENET_PROTOCOL_HEADER_FLAG_COMPRESSED_def ENET_PROTOCOL_HEADER_FLAG_SENT_TIME_def
  ENET_PROTOCOL_HEADER_FLAG_MASK_def ENET_PROTOCOL_HEADER_SESSION_MASK_def
  ENET_PROTOCOL_HEADER_SESSION_SHIFT_def

lemmas protocol_limit_defs =
  ENET_PROTOCOL_MINIMUM_MTU_def ENET_PROTOCOL_MAXIMUM_MTU_def
  ENET_PROTOCOL_MAXIMUM_PACKET_COMMANDS_def ENET_PROTOCOL_MINIMUM_WINDOW_SIZE_def
  ENET_PROTOCOL_MAXIMUM_WINDOW_SIZE_def ENET_PROTOCOL_MINIMUM_CHANNEL_COUNT_def
  ENET_PROTOCOL_MAXIMUM_CHANNEL_COUNT_def ENET_PROTOCOL_MAXIMUM_PEER_ID_def
  ENET_PROTOCOL_MAXIMUM_FRAGMENT_COUNT_def

section \<open>Structs\<close>

record ENetProtocolCommandHeader =
  hd_command :: u8
  hd_channelID :: u8
  hd_reliableSequenceNumber :: u16

record ENetProtocolAcknowledge =
  ak_receivedReliableSequenceNumber :: u16
  ak_receivedSentTime :: u16

record ENetProtocolConnect =
  cn_outgoingPeerID :: u16
  cn_incomingSessionID :: u8
  cn_outgoingSessionID :: u8
  cn_mtu :: u32
  cn_windowSize :: u32
  cn_channelCount :: u32
  cn_incomingBandwidth :: u32
  cn_outgoingBandwidth :: u32
  cn_packetThrottleInterval :: u32
  cn_packetThrottleAcceleration :: u32
  cn_packetThrottleDeceleration :: u32
  cn_connectID :: u32
  cn_data :: u32

record ENetProtocolVerifyConnect =
  vc_outgoingPeerID :: u16
  vc_incomingSessionID :: u8
  vc_outgoingSessionID :: u8
  vc_mtu :: u32
  vc_windowSize :: u32
  vc_channelCount :: u32
  vc_incomingBandwidth :: u32
  vc_outgoingBandwidth :: u32
  vc_packetThrottleInterval :: u32
  vc_packetThrottleAcceleration :: u32
  vc_packetThrottleDeceleration :: u32
  vc_connectID :: u32

record ENetProtocolBandwidthLimit =
  bl_incomingBandwidth :: u32
  bl_outgoingBandwidth :: u32

record ENetProtocolThrottleConfigure =
  tc_packetThrottleInterval :: u32
  tc_packetThrottleAcceleration :: u32
  tc_packetThrottleDeceleration :: u32

record ENetProtocolDisconnect =
  dc_data :: u32

record ENetProtocolSendReliable =
  sr_dataLength :: u16

record ENetProtocolSendUnreliable =
  su_unreliableSequenceNumber :: u16
  su_dataLength :: u16

record ENetProtocolSendUnsequenced =
  sq_unsequencedGroup :: u16
  sq_dataLength :: u16

record ENetProtocolSendFragment =
  sf_startSequenceNumber :: u16
  sf_dataLength :: u16
  sf_fragmentCount :: u32
  sf_fragmentNumber :: u32
  sf_totalLength :: u32
  sf_fragmentOffset :: u32

text \<open>The union: which member is live is given by the command number in the header.\<close>

datatype ENetProtocolBody =
    BAcknowledge ENetProtocolAcknowledge
  | BConnect ENetProtocolConnect
  | BVerifyConnect ENetProtocolVerifyConnect
  | BDisconnect ENetProtocolDisconnect
  | BPing
  | BSendReliable ENetProtocolSendReliable
  | BSendUnreliable ENetProtocolSendUnreliable
  | BSendUnsequenced ENetProtocolSendUnsequenced
  | BSendFragment ENetProtocolSendFragment
  | BBandwidthLimit ENetProtocolBandwidthLimit
  | BThrottleConfigure ENetProtocolThrottleConfigure

record ENetProtocol =
  pc_header :: ENetProtocolCommandHeader
  pc_body :: ENetProtocolBody

definition command_of :: "ENetProtocol \<Rightarrow> u8" where
  "command_of p = hd_command (pc_header p)"

definition command_number :: "ENetProtocol \<Rightarrow> u8" where
  "command_number p = hd_command (pc_header p) AND ENET_PROTOCOL_COMMAND_MASK"

text \<open>
  \<^verbatim>\<open>sendUnreliable.unreliableSequenceNumber\<close> and \<^verbatim>\<open>sendFragment.startSequenceNumber\<close> share their
  place in the union, and \<^verbatim>\<open>peer.c\<close> reads the former where the latter is live.
\<close>

fun sendUnreliable_unreliableSequenceNumber :: "ENetProtocolBody \<Rightarrow> u16" where
  "sendUnreliable_unreliableSequenceNumber (BSendUnreliable b) = su_unreliableSequenceNumber b"
| "sendUnreliable_unreliableSequenceNumber (BSendFragment b) = sf_startSequenceNumber b"
| "sendUnreliable_unreliableSequenceNumber _ = 0"

section \<open>Sizes\<close>

definition sizeof_ENetProtocolHeader :: size_t where "sizeof_ENetProtocolHeader = 4"
definition sizeof_ENetProtocolHeaderUbisoft :: size_t where "sizeof_ENetProtocolHeaderUbisoft = 10"
definition sizeof_ENetProtocolCommandHeader :: size_t where "sizeof_ENetProtocolCommandHeader = 4"
definition sizeof_ENetProtocolPing :: size_t where "sizeof_ENetProtocolPing = 4"
definition sizeof_ENetProtocolAcknowledge :: size_t where "sizeof_ENetProtocolAcknowledge = 8"
definition sizeof_ENetProtocolConnect :: size_t where "sizeof_ENetProtocolConnect = 48"
definition sizeof_ENetProtocolVerifyConnect :: size_t where "sizeof_ENetProtocolVerifyConnect = 44"
definition sizeof_ENetProtocolBandwidthLimit :: size_t where "sizeof_ENetProtocolBandwidthLimit = 12"
definition sizeof_ENetProtocolThrottleConfigure :: size_t where "sizeof_ENetProtocolThrottleConfigure = 16"
definition sizeof_ENetProtocolDisconnect :: size_t where "sizeof_ENetProtocolDisconnect = 8"
definition sizeof_ENetProtocolSendReliable :: size_t where "sizeof_ENetProtocolSendReliable = 6"
definition sizeof_ENetProtocolSendUnreliable :: size_t where "sizeof_ENetProtocolSendUnreliable = 8"
definition sizeof_ENetProtocolSendUnsequenced :: size_t where "sizeof_ENetProtocolSendUnsequenced = 8"
definition sizeof_ENetProtocolSendFragment :: size_t where "sizeof_ENetProtocolSendFragment = 24"

lemmas sizeof_defs =
  sizeof_ENetProtocolHeader_def sizeof_ENetProtocolHeaderUbisoft_def
  sizeof_ENetProtocolCommandHeader_def sizeof_ENetProtocolPing_def
  sizeof_ENetProtocolAcknowledge_def
  sizeof_ENetProtocolConnect_def
  sizeof_ENetProtocolVerifyConnect_def
  sizeof_ENetProtocolBandwidthLimit_def
  sizeof_ENetProtocolThrottleConfigure_def
  sizeof_ENetProtocolDisconnect_def
  sizeof_ENetProtocolSendReliable_def
  sizeof_ENetProtocolSendUnreliable_def
  sizeof_ENetProtocolSendUnsequenced_def
  sizeof_ENetProtocolSendFragment_def

definition commandSizes :: "size_t list" where
  "commandSizes =
    [0, sizeof_ENetProtocolAcknowledge, sizeof_ENetProtocolConnect, sizeof_ENetProtocolVerifyConnect,
     sizeof_ENetProtocolDisconnect, sizeof_ENetProtocolPing, sizeof_ENetProtocolSendReliable,
     sizeof_ENetProtocolSendUnreliable, sizeof_ENetProtocolSendFragment,
     sizeof_ENetProtocolSendUnsequenced, sizeof_ENetProtocolBandwidthLimit,
     sizeof_ENetProtocolThrottleConfigure, sizeof_ENetProtocolSendFragment]"

definition enet_protocol_command_size :: "u8 \<Rightarrow> size_t" where
  "enet_protocol_command_size commandNumber =
     commandSizes ! unat (commandNumber AND ENET_PROTOCOL_COMMAND_MASK)"

section \<open>Commands in memory\<close>

definition header_bytes :: "ENetProtocolCommandHeader \<Rightarrow> u8 list" where
  "header_bytes h = [hd_command h, hd_channelID h] @ le16 (hd_reliableSequenceNumber h)"

fun body_bytes :: "ENetProtocolBody \<Rightarrow> u8 list" where
  "body_bytes (BAcknowledge b) =
     le16 (ak_receivedReliableSequenceNumber b) @ le16 (ak_receivedSentTime b)"
| "body_bytes (BConnect b) =
     le16 (cn_outgoingPeerID b) @ [cn_incomingSessionID b]
     @ [cn_outgoingSessionID b] @ le32 (cn_mtu b)
     @ le32 (cn_windowSize b) @ le32 (cn_channelCount b)
     @ le32 (cn_incomingBandwidth b) @ le32 (cn_outgoingBandwidth b)
     @ le32 (cn_packetThrottleInterval b) @ le32 (cn_packetThrottleAcceleration b)
     @ le32 (cn_packetThrottleDeceleration b) @ le32 (cn_connectID b)
     @ le32 (cn_data b)"
| "body_bytes (BVerifyConnect b) =
     le16 (vc_outgoingPeerID b) @ [vc_incomingSessionID b]
     @ [vc_outgoingSessionID b] @ le32 (vc_mtu b)
     @ le32 (vc_windowSize b) @ le32 (vc_channelCount b)
     @ le32 (vc_incomingBandwidth b) @ le32 (vc_outgoingBandwidth b)
     @ le32 (vc_packetThrottleInterval b) @ le32 (vc_packetThrottleAcceleration b)
     @ le32 (vc_packetThrottleDeceleration b) @ le32 (vc_connectID b)"
| "body_bytes (BDisconnect b) =
     le32 (dc_data b)"
| "body_bytes (BSendReliable b) =
     le16 (sr_dataLength b)"
| "body_bytes (BSendUnreliable b) =
     le16 (su_unreliableSequenceNumber b) @ le16 (su_dataLength b)"
| "body_bytes (BSendUnsequenced b) =
     le16 (sq_unsequencedGroup b) @ le16 (sq_dataLength b)"
| "body_bytes (BSendFragment b) =
     le16 (sf_startSequenceNumber b) @ le16 (sf_dataLength b)
     @ le32 (sf_fragmentCount b) @ le32 (sf_fragmentNumber b)
     @ le32 (sf_totalLength b) @ le32 (sf_fragmentOffset b)"
| "body_bytes (BBandwidthLimit b) =
     le32 (bl_incomingBandwidth b) @ le32 (bl_outgoingBandwidth b)"
| "body_bytes (BThrottleConfigure b) =
     le32 (tc_packetThrottleInterval b) @ le32 (tc_packetThrottleAcceleration b)
     @ le32 (tc_packetThrottleDeceleration b)"
| "body_bytes BPing = []"

definition ENetProtocol_bytes :: "ENetProtocol \<Rightarrow> u8 list" where
  "ENetProtocol_bytes p = header_bytes (pc_header p) @ body_bytes (pc_body p)"

text \<open>Reading the members of a struct that starts at the given bytes.\<close>

definition Acknowledge_at :: "u8 list \<Rightarrow> ENetProtocolAcknowledge" where
  "Acknowledge_at bs = \<lparr>ak_receivedReliableSequenceNumber = rd16 (drop 0 bs), ak_receivedSentTime = rd16 (drop 2 bs)\<rparr>"

definition Connect_at :: "u8 list \<Rightarrow> ENetProtocolConnect" where
  "Connect_at bs = \<lparr>cn_outgoingPeerID = rd16 (drop 0 bs), cn_incomingSessionID = bs ! 2,
      cn_outgoingSessionID = bs ! 3, cn_mtu = rd32 (drop 4 bs),
      cn_windowSize = rd32 (drop 8 bs), cn_channelCount = rd32 (drop 12 bs),
      cn_incomingBandwidth = rd32 (drop 16 bs), cn_outgoingBandwidth = rd32 (drop 20 bs),
      cn_packetThrottleInterval = rd32 (drop 24 bs), cn_packetThrottleAcceleration = rd32 (drop 28 bs),
      cn_packetThrottleDeceleration = rd32 (drop 32 bs), cn_connectID = rd32 (drop 36 bs),
      cn_data = rd32 (drop 40 bs)\<rparr>"

definition VerifyConnect_at :: "u8 list \<Rightarrow> ENetProtocolVerifyConnect" where
  "VerifyConnect_at bs = \<lparr>vc_outgoingPeerID = rd16 (drop 0 bs), vc_incomingSessionID = bs ! 2,
      vc_outgoingSessionID = bs ! 3, vc_mtu = rd32 (drop 4 bs),
      vc_windowSize = rd32 (drop 8 bs), vc_channelCount = rd32 (drop 12 bs),
      vc_incomingBandwidth = rd32 (drop 16 bs), vc_outgoingBandwidth = rd32 (drop 20 bs),
      vc_packetThrottleInterval = rd32 (drop 24 bs), vc_packetThrottleAcceleration = rd32 (drop 28 bs),
      vc_packetThrottleDeceleration = rd32 (drop 32 bs), vc_connectID = rd32 (drop 36 bs)\<rparr>"

definition Disconnect_at :: "u8 list \<Rightarrow> ENetProtocolDisconnect" where
  "Disconnect_at bs = \<lparr>dc_data = rd32 (drop 0 bs)\<rparr>"

definition SendReliable_at :: "u8 list \<Rightarrow> ENetProtocolSendReliable" where
  "SendReliable_at bs = \<lparr>sr_dataLength = rd16 (drop 0 bs)\<rparr>"

definition SendUnreliable_at :: "u8 list \<Rightarrow> ENetProtocolSendUnreliable" where
  "SendUnreliable_at bs = \<lparr>su_unreliableSequenceNumber = rd16 (drop 0 bs), su_dataLength = rd16 (drop 2 bs)\<rparr>"

definition SendUnsequenced_at :: "u8 list \<Rightarrow> ENetProtocolSendUnsequenced" where
  "SendUnsequenced_at bs = \<lparr>sq_unsequencedGroup = rd16 (drop 0 bs), sq_dataLength = rd16 (drop 2 bs)\<rparr>"

definition SendFragment_at :: "u8 list \<Rightarrow> ENetProtocolSendFragment" where
  "SendFragment_at bs = \<lparr>sf_startSequenceNumber = rd16 (drop 0 bs), sf_dataLength = rd16 (drop 2 bs),
      sf_fragmentCount = rd32 (drop 4 bs), sf_fragmentNumber = rd32 (drop 8 bs),
      sf_totalLength = rd32 (drop 12 bs), sf_fragmentOffset = rd32 (drop 16 bs)\<rparr>"

definition BandwidthLimit_at :: "u8 list \<Rightarrow> ENetProtocolBandwidthLimit" where
  "BandwidthLimit_at bs = \<lparr>bl_incomingBandwidth = rd32 (drop 0 bs), bl_outgoingBandwidth = rd32 (drop 4 bs)\<rparr>"

definition ThrottleConfigure_at :: "u8 list \<Rightarrow> ENetProtocolThrottleConfigure" where
  "ThrottleConfigure_at bs = \<lparr>tc_packetThrottleInterval = rd32 (drop 0 bs), tc_packetThrottleAcceleration = rd32 (drop 4 bs),
      tc_packetThrottleDeceleration = rd32 (drop 8 bs)\<rparr>"

definition header_at :: "u8 list \<Rightarrow> ENetProtocolCommandHeader" where
  "header_at bs = \<lparr>hd_command = bs ! 0, hd_channelID = bs ! 1,
     hd_reliableSequenceNumber = rd16 (drop 2 bs)\<rparr>"

text \<open>The body read under the member that the command number selects.\<close>

definition body_at :: "u8 \<Rightarrow> u8 list \<Rightarrow> ENetProtocolBody" where
  "body_at n bs =
    (if n = ENET_PROTOCOL_COMMAND_ACKNOWLEDGE then BAcknowledge (Acknowledge_at bs)
     else if n = ENET_PROTOCOL_COMMAND_CONNECT then BConnect (Connect_at bs)
     else if n = ENET_PROTOCOL_COMMAND_VERIFY_CONNECT then BVerifyConnect (VerifyConnect_at bs)
     else if n = ENET_PROTOCOL_COMMAND_DISCONNECT then BDisconnect (Disconnect_at bs)
     else if n = ENET_PROTOCOL_COMMAND_SEND_RELIABLE then BSendReliable (SendReliable_at bs)
     else if n = ENET_PROTOCOL_COMMAND_SEND_UNRELIABLE then BSendUnreliable (SendUnreliable_at bs)
     else if n = ENET_PROTOCOL_COMMAND_SEND_FRAGMENT \<or> n = ENET_PROTOCOL_COMMAND_SEND_UNRELIABLE_FRAGMENT
       then BSendFragment (SendFragment_at bs)
     else if n = ENET_PROTOCOL_COMMAND_SEND_UNSEQUENCED then BSendUnsequenced (SendUnsequenced_at bs)
     else if n = ENET_PROTOCOL_COMMAND_BANDWIDTH_LIMIT then BBandwidthLimit (BandwidthLimit_at bs)
     else if n = ENET_PROTOCOL_COMMAND_THROTTLE_CONFIGURE then BThrottleConfigure (ThrottleConfigure_at bs)
     else BPing)"

definition ENetProtocol_at :: "u8 list \<Rightarrow> ENetProtocol" where
  "ENetProtocol_at bs =
    (let h = header_at bs
     in \<lparr>pc_header = h, pc_body = body_at (hd_command h AND ENET_PROTOCOL_COMMAND_MASK) (drop 4 bs)\<rparr>)"

text \<open>The live member is the one the command number names.\<close>

fun body_command :: "u8 \<Rightarrow> ENetProtocolBody \<Rightarrow> bool" where
  "body_command n (BAcknowledge _) \<longleftrightarrow> n = ENET_PROTOCOL_COMMAND_ACKNOWLEDGE"
| "body_command n (BConnect _) \<longleftrightarrow> n = ENET_PROTOCOL_COMMAND_CONNECT"
| "body_command n (BVerifyConnect _) \<longleftrightarrow> n = ENET_PROTOCOL_COMMAND_VERIFY_CONNECT"
| "body_command n (BDisconnect _) \<longleftrightarrow> n = ENET_PROTOCOL_COMMAND_DISCONNECT"
| "body_command n BPing \<longleftrightarrow> n = ENET_PROTOCOL_COMMAND_PING"
| "body_command n (BSendReliable _) \<longleftrightarrow> n = ENET_PROTOCOL_COMMAND_SEND_RELIABLE"
| "body_command n (BSendUnreliable _) \<longleftrightarrow> n = ENET_PROTOCOL_COMMAND_SEND_UNRELIABLE"
| "body_command n (BSendUnsequenced _) \<longleftrightarrow> n = ENET_PROTOCOL_COMMAND_SEND_UNSEQUENCED"
| "body_command n (BSendFragment _) \<longleftrightarrow>
     n = ENET_PROTOCOL_COMMAND_SEND_FRAGMENT \<or> n = ENET_PROTOCOL_COMMAND_SEND_UNRELIABLE_FRAGMENT"
| "body_command n (BBandwidthLimit _) \<longleftrightarrow> n = ENET_PROTOCOL_COMMAND_BANDWIDTH_LIMIT"
| "body_command n (BThrottleConfigure _) \<longleftrightarrow> n = ENET_PROTOCOL_COMMAND_THROTTLE_CONFIGURE"

definition well_formed_command :: "ENetProtocol \<Rightarrow> bool" where
  "well_formed_command p \<longleftrightarrow> body_command (command_number p) (pc_body p)"

section \<open>Round trips\<close>

lemma body_at_body_bytes: "body_command n b \<Longrightarrow> body_at n (body_bytes b @ rest) = b"
  by (cases b)
    (auto simp: body_at_def command_defs Acknowledge_at_def Connect_at_def VerifyConnect_at_def
      Disconnect_at_def SendReliable_at_def SendUnreliable_at_def SendUnsequenced_at_def
      SendFragment_at_def BandwidthLimit_at_def ThrottleConfigure_at_def nth_append drop_Cons')

lemma header_at_header_bytes: "header_at (header_bytes h @ rest) = h"
  by (simp add: header_at_def header_bytes_def)

lemma length_header_bytes [simp]: "length (header_bytes h) = 4"
  by (simp add: header_bytes_def)

lemma ENetProtocol_at_bytes:
  "well_formed_command p \<Longrightarrow> ENetProtocol_at (ENetProtocol_bytes p @ rest) = p"
  using header_at_header_bytes [of "pc_header p" "body_bytes (pc_body p) @ rest"]
  by (simp add: ENetProtocol_at_def ENetProtocol_bytes_def Let_def well_formed_command_def
      command_number_def body_at_body_bytes)

lemma command_number_cases:
  assumes "n \<noteq> 0" and "n < ENET_PROTOCOL_COMMAND_COUNT"
  shows "n \<in> {1, 2, 3, 4, 5, 6, 7, 8, 9, 10, 11, 12}"
proof -
  have "unat n < 13" "unat n \<noteq> 0"
    using assms by (simp_all add: ENET_PROTOCOL_COMMAND_COUNT_def word_less_nat_alt unat_eq_0)
  then show ?thesis by (simp add: word_unat_eq_iff) presburger
qed

lemma body_command_size:
  "body_command n b \<Longrightarrow> length (body_bytes b) + 4 = unat (commandSizes ! unat n)"
  by (cases b) (auto simp: command_defs commandSizes_def sizeof_defs)

lemma length_ENetProtocol_bytes:
  "well_formed_command p \<Longrightarrow>
     length (ENetProtocol_bytes p) = unat (enet_protocol_command_size (command_of p))"
  using body_command_size [of "command_number p" "pc_body p"]
  by (simp add: ENetProtocol_bytes_def well_formed_command_def enet_protocol_command_size_def
      command_number_def command_of_def)

lemma well_formed_ENetProtocol_at:
  assumes "hd_command (header_at bs) AND ENET_PROTOCOL_COMMAND_MASK \<noteq> 0"
    and "hd_command (header_at bs) AND ENET_PROTOCOL_COMMAND_MASK < ENET_PROTOCOL_COMMAND_COUNT"
  shows "well_formed_command (ENetProtocol_at bs)"
  using command_number_cases [OF assms]
  by (auto simp: well_formed_command_def command_number_def ENetProtocol_at_def Let_def body_at_def
      command_defs)

lemma le16_rd16_drop [wire_simps]:
  "k + 2 \<le> length bs \<Longrightarrow> le16 (rd16 (drop k bs)) = take 2 (drop k bs)"
proof -
  assume "k + 2 \<le> length bs"
  then obtain a b r where "drop k bs = a # b # r"
    by (cases "drop k bs"; cases "tl (drop k bs)") (auto dest: arg_cong [of _ _ length])
  then show ?thesis by (simp add: le16_rd16 del: rd16.simps)
qed

lemma le32_rd32_drop [wire_simps]:
  "k + 4 \<le> length bs \<Longrightarrow> le32 (rd32 (drop k bs)) = take 4 (drop k bs)"
proof -
  assume "k + 4 \<le> length bs"
  then have "4 \<le> length (drop k bs)" by simp
  then obtain a b c d r where "drop k bs = a # b # c # d # r"
    by (cases "drop k bs"; cases "tl (drop k bs)"; cases "tl (tl (drop k bs))";
        cases "tl (tl (tl (drop k bs)))") (auto dest: arg_cong [of _ _ length])
  then show ?thesis by (simp add: le32_rd32 del: rd32.simps)
qed

lemma singleton_take: "k < length bs \<Longrightarrow> [bs ! k] = take 1 (drop k bs)"
  by (simp add: take_Suc_conv_app_nth hd_drop_conv_nth take_Suc)

lemma take_take_drop: "take i (drop k bs) @ take j (drop (k + i) bs) = take (i + j) (drop k bs)"
  by (simp add: take_add add.commute)

lemma take_take_drop_app:
  "take i (drop k bs) @ take j (drop (k + i) bs) @ zs = take (i + j) (drop k bs) @ zs"
  by (simp add: take_take_drop flip: append_assoc)

lemmas command_at_defs =
  Acknowledge_at_def Connect_at_def VerifyConnect_at_def Disconnect_at_def SendReliable_at_def
  SendUnreliable_at_def SendUnsequenced_at_def SendFragment_at_def BandwidthLimit_at_def
  ThrottleConfigure_at_def

lemma take_drop_0: "take i bs @ take j (drop i bs) = take (i + j) bs"
  by (simp add: take_add)

lemma take_drop_0_app: "take i bs @ take j (drop i bs) @ zs = take (i + j) bs @ zs"
  by (simp add: take_add)

lemma body_bytes_body_at:
  assumes "n \<noteq> 0" and "n < ENET_PROTOCOL_COMMAND_COUNT"
    and "unat (commandSizes ! unat n) \<le> length bs + 4"
  shows "body_bytes (body_at n bs) = take (unat (commandSizes ! unat n) - 4) bs"
  using command_number_cases [OF assms(1,2)] assms(3)
  by (elim insertE emptyE)
    (simp_all add: body_at_def command_defs commandSizes_def sizeof_defs command_at_defs
      le16_rd16_drop le32_rd32_drop le16_rd16_drop [where k = 0, simplified]
      le32_rd32_drop [where k = 0, simplified] singleton_take take_drop_0 take_drop_0_app
      del: rd16.simps rd32.simps)

lemma header_bytes_header_at: "4 \<le> length bs \<Longrightarrow> header_bytes (header_at bs) = take 4 bs"
  using le16_rd16_drop [of 0 "drop 2 bs"]
  by (cases bs; cases "tl bs") (auto simp: header_bytes_def header_at_def numeral_eq_Suc simp del: rd16.simps)

lemma commandSizes_ge_4:
  "n \<noteq> 0 \<Longrightarrow> n < ENET_PROTOCOL_COMMAND_COUNT \<Longrightarrow> 4 \<le> unat (commandSizes ! unat n)"
  by (drule (1) command_number_cases) (auto simp: commandSizes_def sizeof_defs)

lemma ENetProtocol_bytes_at:
  assumes "hd_command (header_at bs) AND ENET_PROTOCOL_COMMAND_MASK \<noteq> 0"
    and "hd_command (header_at bs) AND ENET_PROTOCOL_COMMAND_MASK < ENET_PROTOCOL_COMMAND_COUNT"
    and "unat (enet_protocol_command_size (hd_command (header_at bs))) \<le> length bs"
  shows "ENetProtocol_bytes (ENetProtocol_at bs)
       = take (unat (enet_protocol_command_size (hd_command (header_at bs)))) bs"
proof -
  let ?n = "hd_command (header_at bs) AND ENET_PROTOCOL_COMMAND_MASK"
  let ?z = "unat (commandSizes ! unat ?n)"
  have z: "4 \<le> ?z" "?z \<le> length bs"
    using commandSizes_ge_4 [OF assms(1,2)] assms(3) by (simp_all add: enet_protocol_command_size_def)
  have "body_bytes (body_at ?n (drop 4 bs)) = take (?z - 4) (drop 4 bs)"
    using z by (intro body_bytes_body_at assms(1,2)) simp
  moreover have "header_bytes (header_at bs) = take 4 bs"
    using z by (intro header_bytes_header_at) simp
  ultimately have "ENetProtocol_bytes (ENetProtocol_at bs) = take 4 bs @ take (?z - 4) (drop 4 bs)"
    by (simp add: ENetProtocol_bytes_def ENetProtocol_at_def Let_def)
  also have "\<dots> = take ?z bs" using take_drop_0 [of 4 bs "?z - 4"] z by simp
  finally show ?thesis by (simp add: enet_protocol_command_size_def)
qed

section \<open>Properties of the wire format\<close>

text \<open>
  C18: A command whose live union member matches its command number survives the wire: read
  back from memory that starts with its bytes, whatever follows, it is the same command, and
  it occupies exactly the number of bytes of the command size table.
\<close>

theorem command_wire_roundtrip:
  assumes "well_formed_command p"
  shows "ENetProtocol_at (ENetProtocol_bytes p @ rest) = p
    \<and> length (ENetProtocol_bytes p) = unat (enet_protocol_command_size (command_of p))"
  using ENetProtocol_at_bytes [OF assms] length_ENetProtocol_bytes [OF assms] by simp

definition example_fragment :: ENetProtocol where
  "example_fragment =
    \<lparr>pc_header = \<lparr>hd_command = 0x88, hd_channelID = 3, hd_reliableSequenceNumber = 0x1234\<rparr>,
     pc_body = BSendFragment \<lparr>sf_startSequenceNumber = 7, sf_dataLength = 1300, sf_fragmentCount = 4,
       sf_fragmentNumber = 2, sf_totalLength = 5000, sf_fragmentOffset = 2600\<rparr>\<rparr>"

theorem command_wire_roundtrip_witness:
  "ENetProtocol_at (ENetProtocol_bytes example_fragment @ [1, 2, 3]) = example_fragment
   \<and> length (ENetProtocol_bytes example_fragment) = 24"
  using command_wire_roundtrip [of example_fragment "[1, 2, 3]"]
  by (simp add: example_fragment_def well_formed_command_def command_number_def command_defs
      length_ENetProtocol_bytes enet_protocol_command_size_def command_of_def commandSizes_def
      sizeof_defs)

text \<open>
  Conversely, whatever bytes arrive, a command accepted by the size checks of
  \<^verbatim>\<open>enet_protocol_handle_incoming_commands\<close> (a known command number and enough bytes) is
  read without loss: storing the command read gives back exactly the bytes it was read from.
\<close>

theorem command_bytes_roundtrip:
  assumes "hd_command (header_at bs) AND ENET_PROTOCOL_COMMAND_MASK \<noteq> 0"
    and "hd_command (header_at bs) AND ENET_PROTOCOL_COMMAND_MASK < ENET_PROTOCOL_COMMAND_COUNT"
    and "unat (enet_protocol_command_size (hd_command (header_at bs))) \<le> length bs"
  shows "well_formed_command (ENetProtocol_at bs)
    \<and> ENetProtocol_bytes (ENetProtocol_at bs)
       = take (unat (enet_protocol_command_size (hd_command (header_at bs)))) bs"
  using ENetProtocol_bytes_at [OF assms] well_formed_ENetProtocol_at [OF assms(1,2)] by simp

theorem command_bytes_roundtrip_witness:
  "ENetProtocol_bytes (ENetProtocol_at [0x86, 0, 0, 1, 0, 2, 9, 9]) = [0x86, 0, 0, 1, 0, 2]"
  using command_bytes_roundtrip [of "[0x86, 0, 0, 1, 0, 2, 9, 9]"]
  by (simp add: header_at_def command_defs enet_protocol_command_size_def commandSizes_def sizeof_defs)

end
