(* ===== verification/ENet_State.thy ===== *)
theory ENet_State
  imports ENet_Packet ENet_Protocol
begin

text \<open>
  The data of an ENet host (\<^verbatim>\<open>enet.h\<close>): acknowledgements, outgoing and incoming commands,
  channels, peers, events and the host itself, field by field. Lists are HOL lists (theory
  \<^verbatim>\<open>ENet_List\<close> proves the pointer lists of \<^verbatim>\<open>list.c\<close> to be such lists), a peer is its index in
  the host's array, a packet its key in \<open>env_packets\<close>, an incoming command carries its
  address so that a pointer to it can be followed after lists have changed.
\<close>

section \<open>Constants\<close>

definition ENET_HOST_BANDWIDTH_THROTTLE_INTERVAL :: u32 where "ENET_HOST_BANDWIDTH_THROTTLE_INTERVAL = 1000"
definition ENET_HOST_DEFAULT_MTU :: u32 where "ENET_HOST_DEFAULT_MTU = 1400"
definition ENET_HOST_DEFAULT_MAXIMUM_PACKET_SIZE :: size_t where "ENET_HOST_DEFAULT_MAXIMUM_PACKET_SIZE = 32 * 1024 * 1024"
definition ENET_HOST_DEFAULT_MAXIMUM_WAITING_DATA :: size_t where "ENET_HOST_DEFAULT_MAXIMUM_WAITING_DATA = 32 * 1024 * 1024"
definition ENET_PEER_DEFAULT_ROUND_TRIP_TIME :: u32 where "ENET_PEER_DEFAULT_ROUND_TRIP_TIME = 500"
definition ENET_PEER_DEFAULT_PACKET_THROTTLE :: u32 where "ENET_PEER_DEFAULT_PACKET_THROTTLE = 32"
definition ENET_PEER_PACKET_THROTTLE_SCALE :: u32 where "ENET_PEER_PACKET_THROTTLE_SCALE = 32"
definition ENET_PEER_PACKET_THROTTLE_COUNTER :: u32 where "ENET_PEER_PACKET_THROTTLE_COUNTER = 7"
definition ENET_PEER_PACKET_THROTTLE_ACCELERATION :: u32 where "ENET_PEER_PACKET_THROTTLE_ACCELERATION = 2"
definition ENET_PEER_PACKET_THROTTLE_DECELERATION :: u32 where "ENET_PEER_PACKET_THROTTLE_DECELERATION = 2"
definition ENET_PEER_PACKET_THROTTLE_INTERVAL :: u32 where "ENET_PEER_PACKET_THROTTLE_INTERVAL = 5000"
definition ENET_PEER_PACKET_LOSS_SCALE :: u32 where "ENET_PEER_PACKET_LOSS_SCALE = 65536"
definition ENET_PEER_PACKET_LOSS_INTERVAL :: u32 where "ENET_PEER_PACKET_LOSS_INTERVAL = 10000"
definition ENET_PEER_WINDOW_SIZE_SCALE :: u32 where "ENET_PEER_WINDOW_SIZE_SCALE = 64 * 1024"
definition ENET_PEER_TIMEOUT_LIMIT :: u32 where "ENET_PEER_TIMEOUT_LIMIT = 32"
definition ENET_PEER_TIMEOUT_MINIMUM :: u32 where "ENET_PEER_TIMEOUT_MINIMUM = 5000"
definition ENET_PEER_TIMEOUT_MAXIMUM :: u32 where "ENET_PEER_TIMEOUT_MAXIMUM = 30000"
definition ENET_PEER_PING_INTERVAL :: u32 where "ENET_PEER_PING_INTERVAL = 500"
definition ENET_PEER_UNSEQUENCED_WINDOW_SIZE :: u32 where "ENET_PEER_UNSEQUENCED_WINDOW_SIZE = 1024"
definition ENET_PEER_FREE_UNSEQUENCED_WINDOWS :: u32 where "ENET_PEER_FREE_UNSEQUENCED_WINDOWS = 32"
definition ENET_PEER_RELIABLE_WINDOWS :: u16 where "ENET_PEER_RELIABLE_WINDOWS = 16"
definition ENET_PEER_RELIABLE_WINDOW_SIZE :: u16 where "ENET_PEER_RELIABLE_WINDOW_SIZE = 0x1000"
definition ENET_PEER_FREE_RELIABLE_WINDOWS :: u16 where "ENET_PEER_FREE_RELIABLE_WINDOWS = 8"
definition ENET_BUFFER_MAXIMUM :: nat where "ENET_BUFFER_MAXIMUM = 65"

lemmas peer_const_defs =
  ENET_PEER_DEFAULT_ROUND_TRIP_TIME_def ENET_PEER_DEFAULT_PACKET_THROTTLE_def
  ENET_PEER_PACKET_THROTTLE_SCALE_def ENET_PEER_PACKET_THROTTLE_COUNTER_def
  ENET_PEER_PACKET_THROTTLE_ACCELERATION_def ENET_PEER_PACKET_THROTTLE_DECELERATION_def
  ENET_PEER_PACKET_THROTTLE_INTERVAL_def ENET_PEER_PACKET_LOSS_SCALE_def
  ENET_PEER_PACKET_LOSS_INTERVAL_def ENET_PEER_WINDOW_SIZE_SCALE_def ENET_PEER_TIMEOUT_LIMIT_def
  ENET_PEER_TIMEOUT_MINIMUM_def ENET_PEER_TIMEOUT_MAXIMUM_def ENET_PEER_PING_INTERVAL_def
  ENET_PEER_UNSEQUENCED_WINDOW_SIZE_def ENET_PEER_FREE_UNSEQUENCED_WINDOWS_def

lemmas window_const_defs =
  ENET_PEER_RELIABLE_WINDOWS_def ENET_PEER_RELIABLE_WINDOW_SIZE_def
  ENET_PEER_FREE_RELIABLE_WINDOWS_def

section \<open>Peer states, in the order of their numbers\<close>

datatype ENetPeerState =
    ENET_PEER_STATE_DISCONNECTED
  | ENET_PEER_STATE_CONNECTING
  | ENET_PEER_STATE_ACKNOWLEDGING_CONNECT
  | ENET_PEER_STATE_CONNECTION_PENDING
  | ENET_PEER_STATE_CONNECTION_SUCCEEDED
  | ENET_PEER_STATE_CONNECTED
  | ENET_PEER_STATE_DISCONNECT_LATER
  | ENET_PEER_STATE_DISCONNECTING
  | ENET_PEER_STATE_ACKNOWLEDGING_DISCONNECT
  | ENET_PEER_STATE_ZOMBIE

fun peer_state_number :: "ENetPeerState \<Rightarrow> nat" where
  "peer_state_number ENET_PEER_STATE_DISCONNECTED = 0"
| "peer_state_number ENET_PEER_STATE_CONNECTING = 1"
| "peer_state_number ENET_PEER_STATE_ACKNOWLEDGING_CONNECT = 2"
| "peer_state_number ENET_PEER_STATE_CONNECTION_PENDING = 3"
| "peer_state_number ENET_PEER_STATE_CONNECTION_SUCCEEDED = 4"
| "peer_state_number ENET_PEER_STATE_CONNECTED = 5"
| "peer_state_number ENET_PEER_STATE_DISCONNECT_LATER = 6"
| "peer_state_number ENET_PEER_STATE_DISCONNECTING = 7"
| "peer_state_number ENET_PEER_STATE_ACKNOWLEDGING_DISCONNECT = 8"
| "peer_state_number ENET_PEER_STATE_ZOMBIE = 9"

lemma peer_state_number_inj: "peer_state_number a = peer_state_number b \<longleftrightarrow> a = b"
  by (cases a; cases b) simp_all

instantiation ENetPeerState :: linorder
begin

definition less_eq_ENetPeerState :: "ENetPeerState \<Rightarrow> ENetPeerState \<Rightarrow> bool" where
  "less_eq_ENetPeerState a b \<longleftrightarrow> peer_state_number a \<le> peer_state_number b"

definition less_ENetPeerState :: "ENetPeerState \<Rightarrow> ENetPeerState \<Rightarrow> bool" where
  "less_ENetPeerState a b \<longleftrightarrow> peer_state_number a < peer_state_number b"

instance
  by standard (auto simp: less_eq_ENetPeerState_def less_ENetPeerState_def peer_state_number_inj)

end

section \<open>Commands, channels\<close>

record ENetAcknowledgement =
  aq_sentTime :: u32
  aq_command :: ENetProtocol

record ENetOutgoingCommand =
  oc_reliableSequenceNumber :: u16
  oc_unreliableSequenceNumber :: u16
  oc_sentTime :: u32
  oc_roundTripTimeout :: u32
  oc_roundTripTimeoutLimit :: u32
  oc_fragmentOffset :: u32
  oc_fragmentLength :: u16
  oc_sendAttempts :: u16
  oc_command :: ENetProtocol
  oc_packet :: "packet_ref option"

record ENetIncomingCommand =
  ic_addr :: nat
  ic_reliableSequenceNumber :: u16
  ic_unreliableSequenceNumber :: u16
  ic_command :: ENetProtocol
  ic_fragmentCount :: u32
  ic_fragmentsRemaining :: u32
  ic_fragments :: "u32 list option"
  ic_packet :: "packet_ref option"

record ENetChannel =
  ch_outgoingReliableSequenceNumber :: u16
  ch_outgoingUnreliableSequenceNumber :: u16
  ch_usedReliableWindows :: u16
  ch_reliableWindows :: "u16 list"
  ch_incomingReliableSequenceNumber :: u16
  ch_incomingUnreliableSequenceNumber :: u16
  ch_incomingReliableCommands :: "ENetIncomingCommand list"
  ch_incomingUnreliableCommands :: "ENetIncomingCommand list"

section \<open>Peers\<close>

record ENetPeer =
  pr_outgoingPeerID :: u16
  pr_incomingPeerID :: u16
  pr_connectID :: u32
  pr_outgoingSessionID :: u8
  pr_incomingSessionID :: u8
  pr_address :: ENetAddress
  pr_data :: nat
  pr_state :: ENetPeerState
  pr_channels :: "ENetChannel list"
  pr_channelCount :: size_t
  pr_incomingBandwidth :: u32
  pr_outgoingBandwidth :: u32
  pr_incomingBandwidthThrottleEpoch :: u32
  pr_outgoingBandwidthThrottleEpoch :: u32
  pr_incomingDataTotal :: u32
  pr_outgoingDataTotal :: u32
  pr_lastSendTime :: u32
  pr_lastReceiveTime :: u32
  pr_nextTimeout :: u32
  pr_earliestTimeout :: u32
  pr_packetLossEpoch :: u32
  pr_packetsSent :: u32
  pr_packetsLost :: u32
  pr_packetLoss :: u32
  pr_packetLossVariance :: u32
  pr_packetThrottle :: u32
  pr_packetThrottleLimit :: u32
  pr_packetThrottleCounter :: u32
  pr_packetThrottleEpoch :: u32
  pr_packetThrottleAcceleration :: u32
  pr_packetThrottleDeceleration :: u32
  pr_packetThrottleInterval :: u32
  pr_pingInterval :: u32
  pr_timeoutLimit :: u32
  pr_timeoutMinimum :: u32
  pr_timeoutMaximum :: u32
  pr_lastRoundTripTime :: u32
  pr_lowestRoundTripTime :: u32
  pr_lastRoundTripTimeVariance :: u32
  pr_highestRoundTripTimeVariance :: u32
  pr_roundTripTime :: u32
  pr_roundTripTimeVariance :: u32
  pr_mtu :: u32
  pr_windowSize :: u32
  pr_reliableDataInTransit :: u32
  pr_outgoingReliableSequenceNumber :: u16
  pr_acknowledgements :: "ENetAcknowledgement list"
  pr_sentReliableCommands :: "ENetOutgoingCommand list"
  pr_sentUnreliableCommands :: "ENetOutgoingCommand list"
  pr_outgoingReliableCommands :: "ENetOutgoingCommand list"
  pr_outgoingUnreliableCommands :: "ENetOutgoingCommand list"
  pr_dispatchedCommands :: "ENetIncomingCommand list"
  pr_needsDispatch :: bool
  pr_incomingUnsequencedGroup :: u16
  pr_outgoingUnsequencedGroup :: u16
  pr_unsequencedWindow :: "u32 list"
  pr_eventData :: u32
  pr_totalWaitingData :: size_t

section \<open>Events and hosts\<close>

datatype ENetEventType =
    ENET_EVENT_TYPE_NONE
  | ENET_EVENT_TYPE_CONNECT
  | ENET_EVENT_TYPE_DISCONNECT
  | ENET_EVENT_TYPE_RECEIVE

record ENetEvent =
  ev_type :: ENetEventType
  ev_peer :: "nat option"
  ev_channelID :: u8
  ev_data :: u32
  ev_packet :: "packet_ref option"

text \<open>
  A buffer of the gather array refers to a command of the datagram or to a slice of a packet's
  data; the bytes are read when the datagram is sent. \<^verbatim>\<open>buffers[0]\<close>, the datagram header, is
  not stored, so \<^verbatim>\<open>bufferCount\<close> is one more than the length of \<open>ho_buffers\<close>.
\<close>

datatype ENetBuffer =
    BufferCommand ENetProtocol
  | BufferData packet_ref u32 u16

text \<open>
  A compressor with a non-null context: \<open>cp_compress buffers inLimit outLimit\<close> and
  \<open>cp_decompress data outLimit\<close> yield the bytes written to the output (none on failure). The
  destructor is a token, logged in \<open>env_destroyed\<close> when it is called.
\<close>

record ENetCompressor =
  cp_compress :: "(u8 list list \<Rightarrow> size_t \<Rightarrow> size_t \<Rightarrow> u8 list) option"
  cp_decompress :: "(u8 list \<Rightarrow> size_t \<Rightarrow> u8 list) option"
  cp_destroy :: "nat option"

record ENetHost = enet_env +
  ho_socket :: nat
  ho_address :: ENetAddress
  ho_incomingBandwidth :: u32
  ho_outgoingBandwidth :: u32
  ho_bandwidthThrottleEpoch :: u32
  ho_mtu :: u32
  ho_randomSeed :: u32
  ho_recalculateBandwidthLimits :: bool
  ho_peers :: "ENetPeer list"
  ho_channelLimit :: size_t
  ho_serviceTime :: u32
  ho_dispatchQueue :: "nat list"
  ho_continueSending :: bool
  ho_packetSize :: size_t
  ho_headerFlags :: u16
  ho_commandCount :: nat
  ho_buffers :: "ENetBuffer list"
  ho_checksum :: "(u8 list list \<Rightarrow> u32) option"
  ho_compressor :: "ENetCompressor option"
  ho_receivedAddress :: ENetAddress
  ho_receivedData :: "u8 list"
  ho_totalSentData :: u32
  ho_totalSentPackets :: u32
  ho_totalReceivedData :: u32
  ho_totalReceivedPackets :: u32
  ho_connectedPeers :: size_t
  ho_bandwidthLimitedPeers :: size_t
  ho_duplicatePeers :: size_t
  ho_maximumPacketSize :: size_t
  ho_maximumWaitingData :: size_t
  ho_usingNewPacket :: bool

definition ho_bufferCount :: "ENetHost \<Rightarrow> nat" where
  "ho_bufferCount h = Suc (length (ho_buffers h))"

definition ho_peerCount :: "ENetHost \<Rightarrow> nat" where
  "ho_peerCount h = length (ho_peers h)"

text \<open>Access to a peer of the host and to a channel of a peer.\<close>

definition peer_at :: "ENetHost \<Rightarrow> nat \<Rightarrow> ENetPeer" where
  "peer_at h i = ho_peers h ! i"

definition upd_peer :: "nat \<Rightarrow> (ENetPeer \<Rightarrow> ENetPeer) \<Rightarrow> ENetHost \<Rightarrow> ENetHost" where
  "upd_peer i f h = h\<lparr>ho_peers := (ho_peers h)[i := f (ho_peers h ! i)]\<rparr>"

definition channel_at :: "ENetPeer \<Rightarrow> nat \<Rightarrow> ENetChannel" where
  "channel_at p c = pr_channels p ! c"

definition upd_channel :: "nat \<Rightarrow> (ENetChannel \<Rightarrow> ENetChannel) \<Rightarrow> ENetPeer \<Rightarrow> ENetPeer" where
  "upd_channel c f p = p\<lparr>pr_channels := (pr_channels p)[c := f (pr_channels p ! c)]\<rparr>"

lemma peer_at_upd_peer [simp]:
  "i < length (ho_peers h) \<Longrightarrow> peer_at (upd_peer i f h) j = (if i = j then f (peer_at h j) else peer_at h j)"
  by (simp add: peer_at_def upd_peer_def)

lemma length_ho_peers_upd_peer [simp]: "length (ho_peers (upd_peer i f h)) = length (ho_peers h)"
  by (simp add: upd_peer_def)

lemma channel_at_upd_channel [simp]:
  "c < length (pr_channels p) \<Longrightarrow>
     channel_at (upd_channel c f p) d = (if c = d then f (channel_at p d) else channel_at p d)"
  by (simp add: channel_at_def upd_channel_def)

lemma length_channels_upd_channel [simp]:
  "length (pr_channels (upd_channel c f p)) = length (pr_channels p)"
  by (simp add: upd_channel_def)

end
