(* ===== verification/ENet_Queue.thy ===== *)
theory ENet_Queue
  imports ENet_State
begin

text \<open>
  The command queues of a peer, from \<^verbatim>\<open>peer.c\<close>: queueing outgoing commands and
  acknowledgements, queueing an incoming command at its place, dispatching the incoming
  commands that are due, and emptying the queues. An operation on \<^verbatim>\<open>peer\<close> takes the peer's
  index \<open>i\<close> and the host, which is \<^verbatim>\<open>peer -> host\<close>.
\<close>

section \<open>Shared steps\<close>

definition set_ub :: "'a enet_env_scheme \<Rightarrow> 'a enet_env_scheme" where
  "set_ub s = s\<lparr>env_ub := True\<rparr>"

text \<open>
  The window a reliable sequence number falls in, relative to the next one expected; \<^verbatim>\<open>peer.c\<close>
  computes it in three places.
\<close>

definition reliable_window :: "u16 \<Rightarrow> u16 \<Rightarrow> u16" where
  "reliable_window sequenceNumber incoming =
    (let w = sequenceNumber div ENET_PEER_RELIABLE_WINDOW_SIZE in
     if sequenceNumber < incoming then w + ENET_PEER_RELIABLE_WINDOWS else w)"

text \<open>Put the peer in the host's dispatch queue, unless it is there.\<close>

definition need_dispatch :: "nat \<Rightarrow> ENetHost \<Rightarrow> ENetHost" where
  "need_dispatch i h =
    (if \<not> pr_needsDispatch (peer_at h i)
     then upd_peer i (\<lambda>p. p\<lparr>pr_needsDispatch := True\<rparr>)
            (h\<lparr>ho_dispatchQueue := ho_dispatchQueue h @ [i]\<rparr>)
     else h)"

section \<open>Outgoing commands\<close>

definition set_reliableSequenceNumber :: "u16 \<Rightarrow> ENetProtocol \<Rightarrow> ENetProtocol" where
  "set_reliableSequenceNumber n c =
     c\<lparr>pc_header := (pc_header c)\<lparr>hd_reliableSequenceNumber := n\<rparr>\<rparr>"

fun set_unreliableSequenceNumber :: "u16 \<Rightarrow> ENetProtocolBody \<Rightarrow> ENetProtocolBody" where
  "set_unreliableSequenceNumber n (BSendUnreliable b) = BSendUnreliable (b\<lparr>su_unreliableSequenceNumber := n\<rparr>)"
| "set_unreliableSequenceNumber _ b = b"

fun set_unsequencedGroup :: "u16 \<Rightarrow> ENetProtocolBody \<Rightarrow> ENetProtocolBody" where
  "set_unsequencedGroup n (BSendUnsequenced b) = BSendUnsequenced (b\<lparr>sq_unsequencedGroup := n\<rparr>)"
| "set_unsequencedGroup _ b = b"

text \<open>
  \<open>outgoing_sequence\<close> is the chain of conditions of \<^verbatim>\<open>enet_peer_setup_outgoing_command\<close> that
  numbers the command: it yields the peer and the two numbers.
\<close>

definition outgoing_sequence :: "ENetOutgoingCommand \<Rightarrow> ENetPeer \<Rightarrow> ENetPeer \<times> u16 \<times> u16" where
  "outgoing_sequence oc p =
    (let header = pc_header (oc_command oc); c = unat (hd_channelID header) in
     if hd_channelID header = 0xFF then
       let p = p\<lparr>pr_outgoingReliableSequenceNumber := pr_outgoingReliableSequenceNumber p + 1\<rparr>
       in (p, pr_outgoingReliableSequenceNumber p, 0)
     else if hd_command header AND ENET_PROTOCOL_COMMAND_FLAG_ACKNOWLEDGE \<noteq> 0 then
       let p = upd_channel c (\<lambda>ch. ch\<lparr>
                 ch_outgoingReliableSequenceNumber := ch_outgoingReliableSequenceNumber ch + 1,
                 ch_outgoingUnreliableSequenceNumber := 0\<rparr>) p
       in (p, ch_outgoingReliableSequenceNumber (channel_at p c), 0)
     else if hd_command header AND ENET_PROTOCOL_COMMAND_FLAG_UNSEQUENCED \<noteq> 0 then
       (p\<lparr>pr_outgoingUnsequencedGroup := pr_outgoingUnsequencedGroup p + 1\<rparr>, 0, 0)
     else
       let p = (if oc_fragmentOffset oc = 0
                then upd_channel c (\<lambda>ch. ch\<lparr>ch_outgoingUnreliableSequenceNumber :=
                       ch_outgoingUnreliableSequenceNumber ch + 1\<rparr>) p
                else p)
       in (p, ch_outgoingReliableSequenceNumber (channel_at p c),
              ch_outgoingUnreliableSequenceNumber (channel_at p c)))"

definition outgoing_numbered :: "ENetPeer \<Rightarrow> u16 \<Rightarrow> u16 \<Rightarrow> ENetOutgoingCommand \<Rightarrow> ENetOutgoingCommand" where
  "outgoing_numbered p reliable unreliable oc =
    (let command = set_reliableSequenceNumber (ENET_HOST_TO_NET_16 reliable) (oc_command oc);
         n = command_number command;
         command =
          (if n = ENET_PROTOCOL_COMMAND_SEND_UNRELIABLE
           then command\<lparr>pc_body := set_unreliableSequenceNumber (ENET_HOST_TO_NET_16 unreliable) (pc_body command)\<rparr>
           else if n = ENET_PROTOCOL_COMMAND_SEND_UNSEQUENCED
           then command\<lparr>pc_body := set_unsequencedGroup
                  (ENET_HOST_TO_NET_16 (pr_outgoingUnsequencedGroup p)) (pc_body command)\<rparr>
           else command)
     in oc\<lparr>oc_reliableSequenceNumber := reliable, oc_unreliableSequenceNumber := unreliable,
           oc_sendAttempts := 0, oc_sentTime := 0, oc_roundTripTimeout := 0,
           oc_roundTripTimeoutLimit := 0, oc_command := command\<rparr>)"

definition setup_outgoing :: "ENetOutgoingCommand \<Rightarrow> ENetPeer \<Rightarrow> ENetPeer" where
  "setup_outgoing oc p =
    (let p = p\<lparr>pr_outgoingDataTotal := pr_outgoingDataTotal p
                 + ucast (enet_protocol_command_size (command_of (oc_command oc)) + ucast (oc_fragmentLength oc))\<rparr>;
         (p, reliable, unreliable) = outgoing_sequence oc p;
         oc = outgoing_numbered p reliable unreliable oc
     in if command_of (oc_command oc) AND ENET_PROTOCOL_COMMAND_FLAG_ACKNOWLEDGE \<noteq> 0
        then p\<lparr>pr_outgoingReliableCommands := pr_outgoingReliableCommands p @ [oc]\<rparr>
        else p\<lparr>pr_outgoingUnreliableCommands := pr_outgoingUnreliableCommands p @ [oc]\<rparr>)"

text \<open>A command for a channel that the peer does not have would be counted outside the array.\<close>

definition channel_missing :: "ENetPeer \<Rightarrow> u8 \<Rightarrow> bool" where
  "channel_missing p channelID \<longleftrightarrow> channelID \<noteq> 0xFF \<and> length (pr_channels p) \<le> unat channelID"

definition enet_peer_setup_outgoing_command :: "nat \<Rightarrow> ENetOutgoingCommand \<Rightarrow> ENetHost \<Rightarrow> ENetHost" where
  "enet_peer_setup_outgoing_command i oc h =
    (if channel_missing (peer_at h i) (hd_channelID (pc_header (oc_command oc))) then set_ub h
     else upd_peer i (setup_outgoing oc) h)"

text \<open>The result tells whether the returned pointer is not \<^verbatim>\<open>NULL\<close>.\<close>

definition enet_peer_queue_outgoing_command ::
  "nat \<Rightarrow> ENetProtocol \<Rightarrow> packet_ref option \<Rightarrow> u32 \<Rightarrow> u16 \<Rightarrow> ENetHost \<Rightarrow> bool \<times> ENetHost" where
  "enet_peer_queue_outgoing_command i command packet offset len h =
    (let (ok, h) = enet_malloc h in
     if \<not> ok then (False, h)
     else
       let oc = \<lparr>oc_reliableSequenceNumber = 0, oc_unreliableSequenceNumber = 0, oc_sentTime = 0,
                 oc_roundTripTimeout = 0, oc_roundTripTimeoutLimit = 0, oc_fragmentOffset = offset,
                 oc_fragmentLength = len, oc_sendAttempts = 0, oc_command = command, oc_packet = packet\<rparr>;
           h = (case packet of None \<Rightarrow> h | Some q \<Rightarrow> packet_retain 1 q h)
       in (True, enet_peer_setup_outgoing_command i oc h))"

section \<open>Acknowledgements\<close>

definition enet_peer_queue_acknowledgement :: "nat \<Rightarrow> ENetProtocol \<Rightarrow> u16 \<Rightarrow> ENetHost \<Rightarrow> bool \<times> ENetHost" where
  "enet_peer_queue_acknowledgement i command sentTime h =
    (let p = peer_at h i;
         header = pc_header command;
         rejected =
          (if ucast (hd_channelID header) < pr_channelCount p then
             let channel = channel_at p (unat (hd_channelID header));
                 incoming = ch_incomingReliableSequenceNumber channel;
                 reliableWindow = unat (reliable_window (hd_reliableSequenceNumber header) incoming);
                 currentWindow = unat (incoming div ENET_PEER_RELIABLE_WINDOW_SIZE)
             in reliableWindow \<ge> currentWindow + unat ENET_PEER_FREE_RELIABLE_WINDOWS - 1
                \<and> reliableWindow \<le> currentWindow + unat ENET_PEER_FREE_RELIABLE_WINDOWS
           else False)
     in if rejected then (False, h)
        else
          let (ok, h) = enet_malloc h in
          if \<not> ok then (False, h)
          else (True, upd_peer i (\<lambda>p. p\<lparr>
                  pr_outgoingDataTotal := pr_outgoingDataTotal p + ucast sizeof_ENetProtocolAcknowledge,
                  pr_acknowledgements := pr_acknowledgements p @
                    [\<lparr>aq_sentTime = ucast sentTime, aq_command = command\<rparr>]\<rparr>) h))"

section \<open>Emptying queues\<close>

definition outgoing_release :: "ENetOutgoingCommand \<Rightarrow> ENetHost \<Rightarrow> ENetHost" where
  "outgoing_release oc h = (case oc_packet oc of None \<Rightarrow> h | Some q \<Rightarrow> packet_release 0 q h)"

text \<open>The queue is empty afterwards: callers store the empty list in its place.\<close>

definition enet_peer_reset_outgoing_commands :: "ENetOutgoingCommand list \<Rightarrow> ENetHost \<Rightarrow> ENetHost" where
  "enet_peer_reset_outgoing_commands queue h = fold outgoing_release queue h"

definition incoming_release :: "ENetIncomingCommand \<Rightarrow> ENetHost \<Rightarrow> ENetHost" where
  "incoming_release ic h = (case ic_packet ic of None \<Rightarrow> h | Some q \<Rightarrow> packet_release 0 q h)"

text \<open>The argument is the part of the queue from \<^verbatim>\<open>startCommand\<close> up to \<^verbatim>\<open>endCommand\<close>.\<close>

definition enet_peer_remove_incoming_commands :: "ENetIncomingCommand list \<Rightarrow> ENetHost \<Rightarrow> ENetHost" where
  "enet_peer_remove_incoming_commands cs h = fold incoming_release cs h"

definition enet_peer_reset_incoming_commands :: "ENetIncomingCommand list \<Rightarrow> ENetHost \<Rightarrow> ENetHost" where
  "enet_peer_reset_incoming_commands queue h = enet_peer_remove_incoming_commands queue h"

definition reset_channel :: "ENetChannel \<Rightarrow> ENetHost \<Rightarrow> ENetHost" where
  "reset_channel ch h =
    enet_peer_reset_incoming_commands (ch_incomingUnreliableCommands ch)
      (enet_peer_reset_incoming_commands (ch_incomingReliableCommands ch) h)"

definition enet_peer_reset_queues :: "nat \<Rightarrow> ENetHost \<Rightarrow> ENetHost" where
  "enet_peer_reset_queues i h =
    (let h = (if pr_needsDispatch (peer_at h i)
              then upd_peer i (\<lambda>p. p\<lparr>pr_needsDispatch := False\<rparr>)
                     (h\<lparr>ho_dispatchQueue := remove1 i (ho_dispatchQueue h)\<rparr>)
              else h);
         p = peer_at h i;
         h = enet_peer_reset_outgoing_commands (pr_sentReliableCommands p) h;
         h = enet_peer_reset_outgoing_commands (pr_sentUnreliableCommands p) h;
         h = enet_peer_reset_outgoing_commands (pr_outgoingReliableCommands p) h;
         h = enet_peer_reset_outgoing_commands (pr_outgoingUnreliableCommands p) h;
         h = enet_peer_reset_incoming_commands (pr_dispatchedCommands p) h;
         h = fold reset_channel (take (unat (pr_channelCount p)) (pr_channels p)) h
     in upd_peer i (\<lambda>p. p\<lparr>
          pr_acknowledgements := [], pr_sentReliableCommands := [], pr_sentUnreliableCommands := [],
          pr_outgoingReliableCommands := [], pr_outgoingUnreliableCommands := [],
          pr_dispatchedCommands := [], pr_channels := [], pr_channelCount := 0\<rparr>) h)"

section \<open>Dispatching incoming commands\<close>

text \<open>
  The loop of \<^verbatim>\<open>enet_peer_dispatch_incoming_unreliable_commands\<close>. Its three iterators split
  the queue: \<open>kept\<close> lies before \<^verbatim>\<open>startCommand\<close>, \<open>pending\<close> from there up to \<^verbatim>\<open>currentCommand\<close>,
  \<open>rest\<close> is what follows; \<^verbatim>\<open>droppedCommand\<close> is the position \<open>dropped\<close>, always at or before
  \<^verbatim>\<open>startCommand\<close> where it is read. \<open>moved\<close> collects what goes to \<^verbatim>\<open>dispatchedCommands\<close>.
\<close>

record unreliable_scan =
  us_incomingUnreliableSequenceNumber :: u16
  us_moved :: "ENetIncomingCommand list"
  us_kept :: "ENetIncomingCommand list"
  us_pending :: "ENetIncomingCommand list"
  us_rest :: "ENetIncomingCommand list"
  us_dropped :: nat

fun dispatch_unreliable_loop :: "u16 \<Rightarrow> ENetIncomingCommand list \<Rightarrow> unreliable_scan \<Rightarrow> unreliable_scan" where
  "dispatch_unreliable_loop incoming [] us = us\<lparr>us_rest := []\<rparr>"
| "dispatch_unreliable_loop incoming (c # cs) us =
    (if command_number (ic_command c) = ENET_PROTOCOL_COMMAND_SEND_UNSEQUENCED
     then dispatch_unreliable_loop incoming cs (us\<lparr>us_pending := us_pending us @ [c]\<rparr>)
     else if ic_reliableSequenceNumber c = incoming then
       if ic_fragmentsRemaining c \<le> 0
       then dispatch_unreliable_loop incoming cs
              (us\<lparr>us_incomingUnreliableSequenceNumber := ic_unreliableSequenceNumber c,
                  us_pending := us_pending us @ [c]\<rparr>)
       else
         let n = length (us_kept us);
             us = (if us_pending us \<noteq> []
                   then us\<lparr>us_moved := us_moved us @ us_pending us, us_dropped := n\<rparr>
                   else if us_dropped us \<noteq> n then us\<lparr>us_dropped := n - 1\<rparr>
                   else us)
         in dispatch_unreliable_loop incoming cs (us\<lparr>us_kept := us_kept us @ [c], us_pending := []\<rparr>)
     else
       let reliableWindow = unat (reliable_window (ic_reliableSequenceNumber c) incoming);
           currentWindow = unat (incoming div ENET_PEER_RELIABLE_WINDOW_SIZE)
       in if reliableWindow \<ge> currentWindow
             \<and> reliableWindow < currentWindow + unat ENET_PEER_FREE_RELIABLE_WINDOWS - 1
          then us\<lparr>us_rest := c # cs\<rparr>
          else dispatch_unreliable_loop incoming cs
                 (us\<lparr>us_dropped := Suc (length (us_kept us)), us_moved := us_moved us @ us_pending us,
                     us_kept := us_kept us @ [c], us_pending := []\<rparr>))"

text \<open>The move after the loop.\<close>

definition dispatch_unreliable_scan :: "ENetChannel \<Rightarrow> unreliable_scan" where
  "dispatch_unreliable_scan ch =
    (let us = dispatch_unreliable_loop (ch_incomingReliableSequenceNumber ch) (ch_incomingUnreliableCommands ch)
                \<lparr>us_incomingUnreliableSequenceNumber = ch_incomingUnreliableSequenceNumber ch,
                 us_moved = [], us_kept = [], us_pending = [], us_rest = [], us_dropped = 0\<rparr>
     in if us_pending us \<noteq> []
        then us\<lparr>us_moved := us_moved us @ us_pending us, us_pending := [],
                us_dropped := length (us_kept us)\<rparr>
        else us)"

definition enet_peer_dispatch_incoming_unreliable_commands :: "nat \<Rightarrow> nat \<Rightarrow> ENetHost \<Rightarrow> ENetHost" where
  "enet_peer_dispatch_incoming_unreliable_commands i c h =
    (let us = dispatch_unreliable_scan (channel_at (peer_at h i) c);
         queue = us_kept us @ us_rest us;
         h = upd_peer i (\<lambda>p. p\<lparr>pr_dispatchedCommands := pr_dispatchedCommands p @ us_moved us\<rparr>) h;
         h = (if us_moved us \<noteq> [] then need_dispatch i h else h);
         h = upd_peer i (upd_channel c (\<lambda>ch. ch\<lparr>
               ch_incomingUnreliableSequenceNumber := us_incomingUnreliableSequenceNumber us,
               ch_incomingUnreliableCommands := drop (us_dropped us) queue\<rparr>)) h
     in enet_peer_remove_incoming_commands (take (us_dropped us) queue) h)"

text \<open>
  The loop of \<^verbatim>\<open>enet_peer_dispatch_incoming_reliable_commands\<close> yields the new
  \<^verbatim>\<open>incomingReliableSequenceNumber\<close>, the commands before \<^verbatim>\<open>currentCommand\<close> and the others.
\<close>

fun dispatch_reliable_loop ::
  "u16 \<Rightarrow> ENetIncomingCommand list \<Rightarrow> u16 \<times> ENetIncomingCommand list \<times> ENetIncomingCommand list" where
  "dispatch_reliable_loop incoming [] = (incoming, [], [])"
| "dispatch_reliable_loop incoming (c # cs) =
    (if ic_fragmentsRemaining c > 0 \<or> ic_reliableSequenceNumber c \<noteq> incoming + 1
     then (incoming, [], c # cs)
     else
       let incoming = ic_reliableSequenceNumber c;
           incoming = (if ic_fragmentCount c > 0 then incoming + ucast (ic_fragmentCount c - 1) else incoming);
           (n, ready, rest) = dispatch_reliable_loop incoming cs
       in (n, c # ready, rest))"

definition enet_peer_dispatch_incoming_reliable_commands :: "nat \<Rightarrow> nat \<Rightarrow> ENetHost \<Rightarrow> ENetHost" where
  "enet_peer_dispatch_incoming_reliable_commands i c h =
    (let ch = channel_at (peer_at h i) c;
         (n, ready, rest) = dispatch_reliable_loop (ch_incomingReliableSequenceNumber ch)
                              (ch_incomingReliableCommands ch);
         h = upd_peer i (upd_channel c (\<lambda>ch. ch\<lparr>ch_incomingReliableSequenceNumber := n\<rparr>)) h
     in if ready = [] then h
        else
          let h = upd_peer i (\<lambda>p. upd_channel c (\<lambda>ch. ch\<lparr>
                    ch_incomingUnreliableSequenceNumber := 0, ch_incomingReliableCommands := rest\<rparr>)
                    (p\<lparr>pr_dispatchedCommands := pr_dispatchedCommands p @ ready\<rparr>)) h;
              h = need_dispatch i h
          in if ch_incomingUnreliableCommands (channel_at (peer_at h i) c) \<noteq> []
             then enet_peer_dispatch_incoming_unreliable_commands i c h else h)"

section \<open>Queueing an incoming command\<close>

text \<open>
  The searches from the end of the queue: \<open>search_back\<close> yields how many commands precede the
  place of the new one, or none when the command is discarded.
\<close>

datatype search_step = Continue | Break | Discard

fun search_back :: "(ENetIncomingCommand \<Rightarrow> search_step) \<Rightarrow> ENetIncomingCommand list \<Rightarrow> nat option" where
  "search_back step [] = Some 0"
| "search_back step (c # cs) =
    (case step c of
       Continue \<Rightarrow> search_back step cs
     | Break \<Rightarrow> Some (Suc (length cs))
     | Discard \<Rightarrow> None)"

definition reliable_search_step :: "u16 \<Rightarrow> u16 \<Rightarrow> ENetIncomingCommand \<Rightarrow> search_step" where
  "reliable_search_step incoming reliable c =
    (if reliable \<ge> incoming \<and> ic_reliableSequenceNumber c < incoming then Continue
     else if \<not> reliable \<ge> incoming \<and> ic_reliableSequenceNumber c \<ge> incoming then Break
     else if ic_reliableSequenceNumber c \<le> reliable
     then if ic_reliableSequenceNumber c < reliable then Break else Discard
     else Continue)"

text \<open>
  The first test of the loop looks at the command being queued, which is never unsequenced
  here: the queued unsequenced commands are not skipped.
\<close>

definition unreliable_search_step :: "u8 \<Rightarrow> u16 \<Rightarrow> u16 \<Rightarrow> u16 \<Rightarrow> ENetIncomingCommand \<Rightarrow> search_step" where
  "unreliable_search_step number incoming reliable unreliable c =
    (if number = ENET_PROTOCOL_COMMAND_SEND_UNSEQUENCED then Continue
     else if reliable \<ge> incoming \<and> ic_reliableSequenceNumber c < incoming then Continue
     else if \<not> reliable \<ge> incoming \<and> ic_reliableSequenceNumber c \<ge> incoming then Break
     else if ic_reliableSequenceNumber c < reliable then Break
     else if ic_reliableSequenceNumber c > reliable then Continue
     else if ic_unreliableSequenceNumber c \<le> unreliable
     then if ic_unreliableSequenceNumber c < unreliable then Break else Discard
     else Continue)"

text \<open>
  The checks before anything is allocated: the window test and the switch over the command
  number. The result is the place in the queue and \<^verbatim>\<open>unreliableSequenceNumber\<close>, or none at
  \<^verbatim>\<open>discardCommand\<close>. An unsequenced command goes to the front, after the list's sentinel.
\<close>

definition incoming_place :: "ENetProtocol \<Rightarrow> ENetChannel \<Rightarrow> (nat \<times> u16) option" where
  "incoming_place command ch =
    (let number = command_number command;
         incoming = ch_incomingReliableSequenceNumber ch;
         reliable = (if number \<noteq> ENET_PROTOCOL_COMMAND_SEND_UNSEQUENCED
                     then hd_reliableSequenceNumber (pc_header command) else 0);
         reliableWindow = unat (reliable_window reliable incoming);
         currentWindow = unat (incoming div ENET_PEER_RELIABLE_WINDOW_SIZE)
     in if number \<noteq> ENET_PROTOCOL_COMMAND_SEND_UNSEQUENCED
           \<and> (reliableWindow < currentWindow
              \<or> reliableWindow \<ge> currentWindow + unat ENET_PEER_FREE_RELIABLE_WINDOWS - 1)
        then None
        else if number = ENET_PROTOCOL_COMMAND_SEND_FRAGMENT \<or> number = ENET_PROTOCOL_COMMAND_SEND_RELIABLE
        then
          if reliable = incoming then None
          else map_option (\<lambda>n. (n, 0))
                 (search_back (reliable_search_step incoming reliable) (rev (ch_incomingReliableCommands ch)))
        else if number = ENET_PROTOCOL_COMMAND_SEND_UNRELIABLE
                \<or> number = ENET_PROTOCOL_COMMAND_SEND_UNRELIABLE_FRAGMENT
        then
          let unreliable = ENET_NET_TO_HOST_16 (sendUnreliable_unreliableSequenceNumber (pc_body command))
          in if reliable = incoming \<and> unreliable \<le> ch_incomingUnreliableSequenceNumber ch then None
             else map_option (\<lambda>n. (n, unreliable))
                    (search_back (unreliable_search_step number incoming reliable unreliable)
                       (rev (ch_incomingUnreliableCommands ch)))
        else if number = ENET_PROTOCOL_COMMAND_SEND_UNSEQUENCED then Some (0, 0)
        else None)"

definition reliable_queue_command :: "u8 \<Rightarrow> bool" where
  "reliable_queue_command number \<longleftrightarrow>
     number = ENET_PROTOCOL_COMMAND_SEND_FRAGMENT \<or> number = ENET_PROTOCOL_COMMAND_SEND_RELIABLE"

definition insert_at :: "nat \<Rightarrow> 'a \<Rightarrow> 'a list \<Rightarrow> 'a list" where
  "insert_at n x xs = take n xs @ x # drop n xs"

text \<open>The words of the bitmap of received fragments.\<close>

definition fragment_words :: "u32 \<Rightarrow> nat" where
  "fragment_words fragmentCount = unat ((fragmentCount + 31) div 32)"

text \<open>The pointer returned: \<^verbatim>\<open>NULL\<close>, the static dummy, or the command with its address.\<close>

datatype incoming_result = IncomingNull | IncomingDummy | IncomingCommand nat

text \<open>The insertion of the new command and the dispatch at the end of the function.\<close>

definition incoming_insert :: "nat \<Rightarrow> nat \<Rightarrow> nat \<Rightarrow> ENetIncomingCommand \<Rightarrow> ENetHost \<Rightarrow> ENetHost" where
  "incoming_insert i c place ic h =
    (if reliable_queue_command (command_number (ic_command ic))
     then enet_peer_dispatch_incoming_reliable_commands i c
            (upd_peer i (upd_channel c (\<lambda>ch. ch\<lparr>ch_incomingReliableCommands :=
               insert_at place ic (ch_incomingReliableCommands ch)\<rparr>)) h)
     else enet_peer_dispatch_incoming_unreliable_commands i c
            (upd_peer i (upd_channel c (\<lambda>ch. ch\<lparr>ch_incomingUnreliableCommands :=
               insert_at place ic (ch_incomingUnreliableCommands ch)\<rparr>)) h))"

definition enet_peer_queue_incoming_command ::
  "nat \<Rightarrow> ENetProtocol \<Rightarrow> u8 list option \<Rightarrow> size_t \<Rightarrow> u32 \<Rightarrow> u32 \<Rightarrow> ENetHost \<Rightarrow> incoming_result \<times> ENetHost" where
  "enet_peer_queue_incoming_command i command data dataLength flags fragmentCount h =
    (let p = peer_at h i;
         c = unat (hd_channelID (pc_header command));
         discard = (if fragmentCount > 0 then IncomingNull else IncomingDummy)
     in if pr_state p = ENET_PEER_STATE_DISCONNECT_LATER then (discard, h)
        else if length (pr_channels p) \<le> c then (IncomingNull, set_ub h)
        else case incoming_place command (channel_at p c) of
          None \<Rightarrow> (discard, h)
        | Some (place, unreliable) \<Rightarrow>
           if pr_totalWaitingData p \<ge> ho_maximumWaitingData h then (IncomingNull, h)
           else let (packet, h) = enet_packet_create data dataLength flags h in
           case packet of
             None \<Rightarrow> (IncomingNull, h)
           | Some q \<Rightarrow>
              let (ok, h) = enet_malloc h in
              if \<not> ok then (IncomingNull, enet_packet_destroy (Some q) h)
              else
                let (ok, h) = (if fragmentCount = 0 then (True, h)
                               else if fragmentCount \<le> ENET_PROTOCOL_MAXIMUM_FRAGMENT_COUNT
                               then enet_malloc h else (False, h))
                in if \<not> ok then (IncomingNull, enet_packet_destroy (Some q) h)
                   else
                     let addr = env_nextAddr h;
                         ic = \<lparr>ic_addr = addr,
                               ic_reliableSequenceNumber = hd_reliableSequenceNumber (pc_header command),
                               ic_unreliableSequenceNumber = unreliable,
                               ic_command = command,
                               ic_fragmentCount = fragmentCount, ic_fragmentsRemaining = fragmentCount,
                               ic_fragments = (if fragmentCount = 0 then None
                                               else Some (replicate (fragment_words fragmentCount) 0)),
                               ic_packet = Some q\<rparr>;
                         h = packet_retain 1 q (h\<lparr>env_nextAddr := Suc addr\<rparr>);
                         h = upd_peer i (\<lambda>p. p\<lparr>pr_totalWaitingData := pr_totalWaitingData p + dataLength\<rparr>) h
                     in (IncomingCommand addr, incoming_insert i c place ic h))"

end
