(* ===== verification/ENet_Peer.thy ===== *)
theory ENet_Peer
  imports ENet_Queue
begin

text \<open>
  The operations on a peer, from \<^verbatim>\<open>peer.c\<close>: the packet throttle, sending (with fragmentation)
  and receiving packets, resetting, pings, timeouts and the three kinds of disconnection.
\<close>

section \<open>Commands that the peer sends of itself\<close>

definition peer_command :: "u8 \<Rightarrow> ENetProtocolBody \<Rightarrow> ENetProtocol" where
  "peer_command number body =
     \<lparr>pc_header = \<lparr>hd_command = number, hd_channelID = 0xFF, hd_reliableSequenceNumber = 0\<rparr>, pc_body = body\<rparr>"

definition enet_peer_throttle_configure :: "nat \<Rightarrow> u32 \<Rightarrow> u32 \<Rightarrow> u32 \<Rightarrow> ENetHost \<Rightarrow> ENetHost" where
  "enet_peer_throttle_configure i interval acceleration deceleration h =
    (let h = upd_peer i (\<lambda>p. p\<lparr>pr_packetThrottleInterval := interval,
               pr_packetThrottleAcceleration := acceleration,
               pr_packetThrottleDeceleration := deceleration\<rparr>) h;
         command = peer_command
           (ENET_PROTOCOL_COMMAND_THROTTLE_CONFIGURE OR ENET_PROTOCOL_COMMAND_FLAG_ACKNOWLEDGE)
           (BThrottleConfigure \<lparr>tc_packetThrottleInterval = ENET_HOST_TO_NET_32 interval,
              tc_packetThrottleAcceleration = ENET_HOST_TO_NET_32 acceleration,
              tc_packetThrottleDeceleration = ENET_HOST_TO_NET_32 deceleration\<rparr>)
     in snd (enet_peer_queue_outgoing_command i command None 0 0 h))"

definition enet_peer_throttle :: "u32 \<Rightarrow> ENetPeer \<Rightarrow> int \<times> ENetPeer" where
  "enet_peer_throttle rtt p =
    (if pr_lastRoundTripTime p \<le> pr_lastRoundTripTimeVariance p
     then (0, p\<lparr>pr_packetThrottle := pr_packetThrottleLimit p\<rparr>)
     else if rtt < pr_lastRoundTripTime p then
       let p = p\<lparr>pr_packetThrottle := pr_packetThrottle p + pr_packetThrottleAcceleration p\<rparr>;
           p = (if pr_packetThrottle p > pr_packetThrottleLimit p
                then p\<lparr>pr_packetThrottle := pr_packetThrottleLimit p\<rparr> else p)
       in (1, p)
     else if rtt > pr_lastRoundTripTime p + 2 * pr_lastRoundTripTimeVariance p then
       (-1, if pr_packetThrottle p > pr_packetThrottleDeceleration p
            then p\<lparr>pr_packetThrottle := pr_packetThrottle p - pr_packetThrottleDeceleration p\<rparr>
            else p\<lparr>pr_packetThrottle := 0\<rparr>)
     else (0, p))"

definition enet_peer_ping :: "nat \<Rightarrow> ENetHost \<Rightarrow> ENetHost" where
  "enet_peer_ping i h =
    (if pr_state (peer_at h i) \<noteq> ENET_PEER_STATE_CONNECTED then h
     else snd (enet_peer_queue_outgoing_command i
            (peer_command (ENET_PROTOCOL_COMMAND_PING OR ENET_PROTOCOL_COMMAND_FLAG_ACKNOWLEDGE) BPing)
            None 0 0 h))"

definition enet_peer_ping_interval :: "u32 \<Rightarrow> ENetPeer \<Rightarrow> ENetPeer" where
  "enet_peer_ping_interval pingInterval p =
     p\<lparr>pr_pingInterval := if pingInterval \<noteq> 0 then pingInterval else ENET_PEER_PING_INTERVAL\<rparr>"

definition enet_peer_timeout :: "u32 \<Rightarrow> u32 \<Rightarrow> u32 \<Rightarrow> ENetPeer \<Rightarrow> ENetPeer" where
  "enet_peer_timeout timeoutLimit timeoutMinimum timeoutMaximum p =
     p\<lparr>pr_timeoutLimit := if timeoutLimit \<noteq> 0 then timeoutLimit else ENET_PEER_TIMEOUT_LIMIT,
       pr_timeoutMinimum := if timeoutMinimum \<noteq> 0 then timeoutMinimum else ENET_PEER_TIMEOUT_MINIMUM,
       pr_timeoutMaximum := if timeoutMaximum \<noteq> 0 then timeoutMaximum else ENET_PEER_TIMEOUT_MAXIMUM\<rparr>"

section \<open>Sending\<close>

text \<open>The fragment length that the mtu leaves, with \<^verbatim>\<open>size_t\<close> arithmetic.\<close>

definition send_fragmentLength :: "ENetHost \<Rightarrow> ENetPeer \<Rightarrow> size_t" where
  "send_fragmentLength h p =
    (let l = (if ho_usingNewPacket h
              then ucast (pr_mtu p) - sizeof_ENetProtocolHeaderUbisoft - sizeof_ENetProtocolSendFragment
              else ucast (pr_mtu p) - sizeof_ENetProtocolHeader - sizeof_ENetProtocolSendFragment)
     in if ho_checksum h \<noteq> None then l - 4 else l)"

definition send_fragment :: "u8 \<Rightarrow> u8 \<Rightarrow> u16 \<Rightarrow> u32 \<Rightarrow> size_t \<Rightarrow> packet_ref \<Rightarrow> size_t \<Rightarrow> u32 \<Rightarrow> u32 \<Rightarrow> ENetOutgoingCommand" where
  "send_fragment commandNumber channelID startSequenceNumber fragmentCount dataLength packet
      fragmentLength fragmentNumber fragmentOffset =
     \<lparr>oc_reliableSequenceNumber = 0, oc_unreliableSequenceNumber = 0, oc_sentTime = 0,
      oc_roundTripTimeout = 0, oc_roundTripTimeoutLimit = 0,
      oc_fragmentOffset = fragmentOffset, oc_fragmentLength = ucast fragmentLength,
      oc_sendAttempts = 0,
      oc_command =
        \<lparr>pc_header = \<lparr>hd_command = commandNumber, hd_channelID = channelID, hd_reliableSequenceNumber = 0\<rparr>,
         pc_body = BSendFragment
          \<lparr>sf_startSequenceNumber = startSequenceNumber,
           sf_dataLength = ENET_HOST_TO_NET_16 (ucast fragmentLength),
           sf_fragmentCount = ENET_HOST_TO_NET_32 fragmentCount,
           sf_fragmentNumber = ENET_HOST_TO_NET_32 fragmentNumber,
           sf_totalLength = ENET_HOST_TO_NET_32 (ucast dataLength),
           sf_fragmentOffset = ENET_NET_TO_HOST_32 fragmentOffset\<rparr>\<rparr>,
      oc_packet = Some packet\<rparr>"

text \<open>
  The fragment loop may not end (the 32-bit offset wraps), so it is a partial function. Its
  result is the list of fragments, none when an allocation failed, with the last
  \<^verbatim>\<open>fragmentNumber\<close>.
\<close>

partial_function (option) send_fragments_loop ::
  "(size_t \<Rightarrow> u32 \<Rightarrow> u32 \<Rightarrow> ENetOutgoingCommand) \<Rightarrow> size_t \<Rightarrow> size_t \<Rightarrow> u32 \<Rightarrow> u32
    \<Rightarrow> ENetOutgoingCommand list \<Rightarrow> ENetHost \<Rightarrow> (ENetOutgoingCommand list option \<times> u32 \<times> ENetHost) option" where
  "send_fragments_loop mk dataLength fragmentLength fragmentNumber fragmentOffset fragments h =
    (if ucast fragmentOffset < dataLength then
       let fragmentLength = (if dataLength - ucast fragmentOffset < fragmentLength
                             then dataLength - ucast fragmentOffset else fragmentLength);
           (ok, h) = enet_malloc h
       in if \<not> ok then Some (None, fragmentNumber, h)
          else send_fragments_loop mk dataLength fragmentLength (fragmentNumber + 1)
                 (fragmentOffset + ucast fragmentLength)
                 (fragments @ [mk fragmentLength fragmentNumber fragmentOffset]) h
     else Some (Some fragments, fragmentNumber, h))"

definition send_fragmented :: "nat \<Rightarrow> u8 \<Rightarrow> packet_ref \<Rightarrow> ENetPacket \<Rightarrow> size_t \<Rightarrow> ENetHost \<Rightarrow> (int \<times> ENetHost) option" where
  "send_fragmented i channelID packet pk fragmentLength h =
    (let channel = channel_at (peer_at h i) (unat channelID);
         fragmentCount = ucast ((pk_dataLength pk + fragmentLength - 1) div fragmentLength) :: u32
     in if fragmentCount > ENET_PROTOCOL_MAXIMUM_FRAGMENT_COUNT then Some (-1, h)
        else
          let (commandNumber, startSequenceNumber) =
            (if pk_flags pk AND (ENET_PACKET_FLAG_RELIABLE OR ENET_PACKET_FLAG_UNRELIABLE_FRAGMENT)
                  = ENET_PACKET_FLAG_UNRELIABLE_FRAGMENT
                \<and> ch_outgoingUnreliableSequenceNumber channel < 0xFFFF
             then (ENET_PROTOCOL_COMMAND_SEND_UNRELIABLE_FRAGMENT,
                   ENET_HOST_TO_NET_16 (ch_outgoingUnreliableSequenceNumber channel + 1))
             else (ENET_PROTOCOL_COMMAND_SEND_FRAGMENT OR ENET_PROTOCOL_COMMAND_FLAG_ACKNOWLEDGE,
                   ENET_HOST_TO_NET_16 (ch_outgoingReliableSequenceNumber channel + 1)))
          in case send_fragments_loop
                 (send_fragment commandNumber channelID startSequenceNumber fragmentCount (pk_dataLength pk) packet)
                 (pk_dataLength pk) fragmentLength 0 0 [] h of
               None \<Rightarrow> None
             | Some (None, _, h) \<Rightarrow> Some (-1, h)
             | Some (Some fragments, fragmentNumber, h) \<Rightarrow>
                 Some (0, fold (enet_peer_setup_outgoing_command i) fragments
                            (packet_retain (ucast fragmentNumber) packet h)))"

definition send_single_command :: "u8 \<Rightarrow> ENetChannel \<Rightarrow> ENetPacket \<Rightarrow> ENetProtocol" where
  "send_single_command channelID channel pk =
    (let len = ENET_HOST_TO_NET_16 (ucast (pk_dataLength pk));
         mk = (\<lambda>number body. \<lparr>pc_header = \<lparr>hd_command = number, hd_channelID = channelID,
                    hd_reliableSequenceNumber = 0\<rparr>, pc_body = body\<rparr>)
     in if pk_flags pk AND (ENET_PACKET_FLAG_RELIABLE OR ENET_PACKET_FLAG_UNSEQUENCED)
            = ENET_PACKET_FLAG_UNSEQUENCED
        then mk (ENET_PROTOCOL_COMMAND_SEND_UNSEQUENCED OR ENET_PROTOCOL_COMMAND_FLAG_UNSEQUENCED)
               (BSendUnsequenced \<lparr>sq_unsequencedGroup = 0, sq_dataLength = len\<rparr>)
        else if pk_flags pk AND ENET_PACKET_FLAG_RELIABLE \<noteq> 0
                \<or> ch_outgoingUnreliableSequenceNumber channel \<ge> 0xFFFF
        then mk (ENET_PROTOCOL_COMMAND_SEND_RELIABLE OR ENET_PROTOCOL_COMMAND_FLAG_ACKNOWLEDGE)
               (BSendReliable \<lparr>sr_dataLength = len\<rparr>)
        else mk ENET_PROTOCOL_COMMAND_SEND_UNRELIABLE
               (BSendUnreliable \<lparr>su_unreliableSequenceNumber = 0, su_dataLength = len\<rparr>))"

text \<open>A fragment length of zero divides by zero.\<close>

definition enet_peer_send :: "nat \<Rightarrow> u8 \<Rightarrow> packet_ref \<Rightarrow> ENetHost \<Rightarrow> (int \<times> ENetHost) option" where
  "enet_peer_send i channelID packet h =
    (let p = peer_at h i in
     if pr_state p \<noteq> ENET_PEER_STATE_CONNECTED \<or> ucast channelID \<ge> pr_channelCount p then Some (-1, h)
     else case env_packets h packet of
       None \<Rightarrow> Some (-1, set_ub h)
     | Some pk \<Rightarrow>
        if pk_dataLength pk > ho_maximumPacketSize h then Some (-1, h)
        else
          let fragmentLength = send_fragmentLength h p in
          if pk_dataLength pk > fragmentLength then
            if fragmentLength = 0 then Some (-1, set_ub h)
            else send_fragmented i channelID packet pk fragmentLength h
          else
            let (ok, h) = enet_peer_queue_outgoing_command i
                  (send_single_command channelID (channel_at p (unat channelID)) pk)
                  (Some packet) 0 (ucast (pk_dataLength pk)) h
            in Some (if ok then 0 else -1, h))"

section \<open>Receiving\<close>

text \<open>The result is the packet and the channel of the command, none for \<^verbatim>\<open>NULL\<close>.\<close>

definition enet_peer_receive :: "nat \<Rightarrow> ENetHost \<Rightarrow> (packet_ref \<times> u8) option \<times> ENetHost" where
  "enet_peer_receive i h =
    (case pr_dispatchedCommands (peer_at h i) of
       [] \<Rightarrow> (None, h)
     | ic # cs \<Rightarrow>
        let h = upd_peer i (\<lambda>p. p\<lparr>pr_dispatchedCommands := cs\<rparr>) h in
        case ic_packet ic of
          None \<Rightarrow> (None, set_ub h)
        | Some q \<Rightarrow>
           let h = packet_drop q h;
               n = (case env_packets h q of None \<Rightarrow> 0 | Some pk \<Rightarrow> pk_dataLength pk)
           in (Some (q, hd_channelID (pc_header (ic_command ic))),
               upd_peer i (\<lambda>p. p\<lparr>pr_totalWaitingData := pr_totalWaitingData p - n\<rparr>) h))"

section \<open>Counting connected peers\<close>

definition peer_is_connected :: "ENetPeer \<Rightarrow> bool" where
  "peer_is_connected p \<longleftrightarrow>
     pr_state p = ENET_PEER_STATE_CONNECTED \<or> pr_state p = ENET_PEER_STATE_DISCONNECT_LATER"

definition enet_peer_on_connect :: "nat \<Rightarrow> ENetHost \<Rightarrow> ENetHost" where
  "enet_peer_on_connect i h =
    (if \<not> peer_is_connected (peer_at h i) then
       let h = (if pr_incomingBandwidth (peer_at h i) \<noteq> 0
                then h\<lparr>ho_bandwidthLimitedPeers := ho_bandwidthLimitedPeers h + 1\<rparr> else h)
       in h\<lparr>ho_connectedPeers := ho_connectedPeers h + 1\<rparr>
     else h)"

definition enet_peer_on_disconnect :: "nat \<Rightarrow> ENetHost \<Rightarrow> ENetHost" where
  "enet_peer_on_disconnect i h =
    (if peer_is_connected (peer_at h i) then
       let h = (if pr_incomingBandwidth (peer_at h i) \<noteq> 0
                then h\<lparr>ho_bandwidthLimitedPeers := ho_bandwidthLimitedPeers h - 1\<rparr> else h)
       in h\<lparr>ho_connectedPeers := ho_connectedPeers h - 1\<rparr>
     else h)"

section \<open>Resetting a peer\<close>

text \<open>The fields that \<^verbatim>\<open>enet_peer_reset\<close> assigns; \<open>hostMtu\<close> is \<^verbatim>\<open>peer -> host -> mtu\<close>.\<close>

definition reset_fields :: "u32 \<Rightarrow> ENetPeer \<Rightarrow> ENetPeer" where
  "reset_fields hostMtu p = p\<lparr>
     pr_outgoingPeerID := ENET_PROTOCOL_MAXIMUM_PEER_ID,
     pr_connectID := 0,
     pr_state := ENET_PEER_STATE_DISCONNECTED,
     pr_incomingBandwidth := 0,
     pr_outgoingBandwidth := 0,
     pr_incomingBandwidthThrottleEpoch := 0,
     pr_outgoingBandwidthThrottleEpoch := 0,
     pr_incomingDataTotal := 0,
     pr_outgoingDataTotal := 0,
     pr_lastSendTime := 0,
     pr_lastReceiveTime := 0,
     pr_nextTimeout := 0,
     pr_earliestTimeout := 0,
     pr_packetLossEpoch := 0,
     pr_packetsSent := 0,
     pr_packetsLost := 0,
     pr_packetLoss := 0,
     pr_packetLossVariance := 0,
     pr_packetThrottle := ENET_PEER_DEFAULT_PACKET_THROTTLE,
     pr_packetThrottleLimit := ENET_PEER_PACKET_THROTTLE_SCALE,
     pr_packetThrottleCounter := 0,
     pr_packetThrottleEpoch := 0,
     pr_packetThrottleAcceleration := ENET_PEER_PACKET_THROTTLE_ACCELERATION,
     pr_packetThrottleDeceleration := ENET_PEER_PACKET_THROTTLE_DECELERATION,
     pr_packetThrottleInterval := ENET_PEER_PACKET_THROTTLE_INTERVAL,
     pr_pingInterval := ENET_PEER_PING_INTERVAL,
     pr_timeoutLimit := ENET_PEER_TIMEOUT_LIMIT,
     pr_timeoutMinimum := ENET_PEER_TIMEOUT_MINIMUM,
     pr_timeoutMaximum := ENET_PEER_TIMEOUT_MAXIMUM,
     pr_lastRoundTripTime := ENET_PEER_DEFAULT_ROUND_TRIP_TIME,
     pr_lowestRoundTripTime := ENET_PEER_DEFAULT_ROUND_TRIP_TIME,
     pr_lastRoundTripTimeVariance := 0,
     pr_highestRoundTripTimeVariance := 0,
     pr_roundTripTime := ENET_PEER_DEFAULT_ROUND_TRIP_TIME,
     pr_roundTripTimeVariance := 0,
     pr_mtu := hostMtu,
     pr_reliableDataInTransit := 0,
     pr_outgoingReliableSequenceNumber := 0,
     pr_windowSize := ENET_PROTOCOL_MAXIMUM_WINDOW_SIZE,
     pr_incomingUnsequencedGroup := 0,
     pr_outgoingUnsequencedGroup := 0,
     pr_eventData := 0,
     pr_totalWaitingData := 0,
     pr_unsequencedWindow := replicate (unat (ENET_PEER_UNSEQUENCED_WINDOW_SIZE div 32)) 0\<rparr>"

definition enet_peer_reset :: "nat \<Rightarrow> ENetHost \<Rightarrow> ENetHost" where
  "enet_peer_reset i h =
    (let h = enet_peer_on_disconnect i h;
         h = upd_peer i (reset_fields (ho_mtu h)) h
     in enet_peer_reset_queues i h)"

section \<open>Disconnecting\<close>

text \<open>
  \<open>flush\<close> is \<^verbatim>\<open>enet_host_flush\<close>, of the sending side of \<^verbatim>\<open>protocol.c\<close>, which may not return.
\<close>

definition enet_peer_disconnect_now ::
  "(ENetHost \<Rightarrow> ENetHost option) \<Rightarrow> nat \<Rightarrow> u32 \<Rightarrow> ENetHost \<Rightarrow> ENetHost option" where
  "enet_peer_disconnect_now flush i data h =
    (if pr_state (peer_at h i) = ENET_PEER_STATE_DISCONNECTED then Some h
     else
       let flushed =
         (if pr_state (peer_at h i) \<noteq> ENET_PEER_STATE_ZOMBIE
             \<and> pr_state (peer_at h i) \<noteq> ENET_PEER_STATE_DISCONNECTING
          then
            let h = enet_peer_reset_queues i h;
                command = peer_command
                  (ENET_PROTOCOL_COMMAND_DISCONNECT OR ENET_PROTOCOL_COMMAND_FLAG_UNSEQUENCED)
                  (BDisconnect \<lparr>dc_data = ENET_HOST_TO_NET_32 data\<rparr>);
                (_, h) = enet_peer_queue_outgoing_command i command None 0 0 h
            in flush h
          else Some h)
       in case flushed of None \<Rightarrow> None | Some h \<Rightarrow> Some (enet_peer_reset i h))"

definition disconnect_command :: "ENetPeer \<Rightarrow> u32 \<Rightarrow> ENetProtocol" where
  "disconnect_command p data =
     peer_command
       (ENET_PROTOCOL_COMMAND_DISCONNECT OR
         (if peer_is_connected p then ENET_PROTOCOL_COMMAND_FLAG_ACKNOWLEDGE
          else ENET_PROTOCOL_COMMAND_FLAG_UNSEQUENCED))
       (BDisconnect \<lparr>dc_data = ENET_HOST_TO_NET_32 data\<rparr>)"

text \<open>
  The part of \<^verbatim>\<open>enet_peer_disconnect\<close> up to the queued command, and the whole of it for a
  connected peer, where it does not flush: \<^verbatim>\<open>protocol.c\<close> calls it only there.
\<close>

definition disconnect_queue :: "nat \<Rightarrow> u32 \<Rightarrow> ENetHost \<Rightarrow> ENetHost" where
  "disconnect_queue i data h =
    (let h = enet_peer_reset_queues i h
     in snd (enet_peer_queue_outgoing_command i (disconnect_command (peer_at h i) data) None 0 0 h))"

definition enet_peer_disconnect_connected :: "nat \<Rightarrow> u32 \<Rightarrow> ENetHost \<Rightarrow> ENetHost" where
  "enet_peer_disconnect_connected i data h =
    (let h = disconnect_queue i data h;
         h = enet_peer_on_disconnect i h
     in upd_peer i (\<lambda>p. p\<lparr>pr_state := ENET_PEER_STATE_DISCONNECTING\<rparr>) h)"

definition enet_peer_disconnect ::
  "(ENetHost \<Rightarrow> ENetHost option) \<Rightarrow> nat \<Rightarrow> u32 \<Rightarrow> ENetHost \<Rightarrow> ENetHost option" where
  "enet_peer_disconnect flush i data h =
    (if pr_state (peer_at h i) = ENET_PEER_STATE_DISCONNECTING
        \<or> pr_state (peer_at h i) = ENET_PEER_STATE_DISCONNECTED
        \<or> pr_state (peer_at h i) = ENET_PEER_STATE_ACKNOWLEDGING_DISCONNECT
        \<or> pr_state (peer_at h i) = ENET_PEER_STATE_ZOMBIE
     then Some h
     else if peer_is_connected (peer_at h i) then Some (enet_peer_disconnect_connected i data h)
     else
       case flush (disconnect_queue i data h) of
         None \<Rightarrow> None
       | Some h \<Rightarrow> Some (enet_peer_reset i h))"

definition enet_peer_disconnect_later ::
  "(ENetHost \<Rightarrow> ENetHost option) \<Rightarrow> nat \<Rightarrow> u32 \<Rightarrow> ENetHost \<Rightarrow> ENetHost option" where
  "enet_peer_disconnect_later flush i data h =
    (let p = peer_at h i in
     if peer_is_connected p
        \<and> \<not> (pr_outgoingReliableCommands p = [] \<and> pr_outgoingUnreliableCommands p = []
             \<and> pr_sentReliableCommands p = [])
     then Some (upd_peer i (\<lambda>p. p\<lparr>pr_state := ENET_PEER_STATE_DISCONNECT_LATER, pr_eventData := data\<rparr>) h)
     else enet_peer_disconnect flush i data h)"

end
