(* ===== verification/ENet_Notify.thy ===== *)
theory ENet_Notify
  imports ENet_Peer
begin

text \<open>
  State changes, events and acknowledged commands, from the first part of \<^verbatim>\<open>protocol.c\<close>. An
  event out-parameter is an \<^typ>\<open>ENetEvent option\<close>, \<open>None\<close> for \<^verbatim>\<open>NULL\<close>; functions that may
  write it return it.
\<close>

section \<open>State changes\<close>

definition enet_protocol_change_state :: "nat \<Rightarrow> ENetPeerState \<Rightarrow> ENetHost \<Rightarrow> ENetHost" where
  "enet_protocol_change_state i state h =
    (let h = (if state = ENET_PEER_STATE_CONNECTED \<or> state = ENET_PEER_STATE_DISCONNECT_LATER
              then enet_peer_on_connect i h else enet_peer_on_disconnect i h)
     in upd_peer i (\<lambda>p. p\<lparr>pr_state := state\<rparr>) h)"

definition enet_protocol_dispatch_state :: "nat \<Rightarrow> ENetPeerState \<Rightarrow> ENetHost \<Rightarrow> ENetHost" where
  "enet_protocol_dispatch_state i state h =
    need_dispatch i (enet_protocol_change_state i state h)"

section \<open>Taking events from the dispatch queue\<close>

text \<open>
  What the loop does with one peer taken from the queue: none to go on, or the event to
  return.
\<close>

definition dispatch_peer :: "nat \<Rightarrow> ENetEvent \<Rightarrow> ENetHost \<Rightarrow> ENetEvent option \<times> ENetHost" where
  "dispatch_peer i event h =
    (let h = upd_peer i (\<lambda>p. p\<lparr>pr_needsDispatch := False\<rparr>) h in
     case pr_state (peer_at h i) of
       ENET_PEER_STATE_CONNECTION_PENDING \<Rightarrow>
         let h = enet_protocol_change_state i ENET_PEER_STATE_CONNECTED h in
         (Some (event\<lparr>ev_type := ENET_EVENT_TYPE_CONNECT, ev_peer := Some i,
                 ev_data := pr_eventData (peer_at h i)\<rparr>), h)
     | ENET_PEER_STATE_CONNECTION_SUCCEEDED \<Rightarrow>
         let h = enet_protocol_change_state i ENET_PEER_STATE_CONNECTED h in
         (Some (event\<lparr>ev_type := ENET_EVENT_TYPE_CONNECT, ev_peer := Some i,
                 ev_data := pr_eventData (peer_at h i)\<rparr>), h)
     | ENET_PEER_STATE_ZOMBIE \<Rightarrow>
         let h = h\<lparr>ho_recalculateBandwidthLimits := True\<rparr>;
             event = event\<lparr>ev_type := ENET_EVENT_TYPE_DISCONNECT, ev_peer := Some i,
                      ev_data := pr_eventData (peer_at h i)\<rparr>;
             h = enet_peer_reset i h
         in (Some event, h)
     | ENET_PEER_STATE_CONNECTED \<Rightarrow>
         if pr_dispatchedCommands (peer_at h i) = [] then (None, h)
         else (case enet_peer_receive i h of
             (None, h) \<Rightarrow> (None, h)
           | (Some (packet, channelID), h) \<Rightarrow>
               let event = event\<lparr>ev_packet := Some packet, ev_channelID := channelID,
                             ev_type := ENET_EVENT_TYPE_RECEIVE, ev_peer := Some i\<rparr>;
                   h = (if pr_dispatchedCommands (peer_at h i) \<noteq> [] then
                          let h = upd_peer i (\<lambda>p. p\<lparr>pr_needsDispatch := True\<rparr>) h
                          in h\<lparr>ho_dispatchQueue := ho_dispatchQueue h @ [i]\<rparr>
                        else h)
               in (Some event, h))
     | _ \<Rightarrow> (None, h))"

text \<open>
  The loop takes one element off the queue in each round that goes on, so the length of the
  queue at the start is enough fuel: \<open>dispatch_loop\<close> recurses over it.
\<close>

fun dispatch_loop :: "nat \<Rightarrow> ENetEvent \<Rightarrow> ENetHost \<Rightarrow> int \<times> ENetEvent \<times> ENetHost" where
  "dispatch_loop 0 event h = (0, event, h)"
| "dispatch_loop (Suc n) event h =
    (case ho_dispatchQueue h of
       [] \<Rightarrow> (0, event, h)
     | i # queue \<Rightarrow>
        (case dispatch_peer i event (h\<lparr>ho_dispatchQueue := queue\<rparr>) of
           (Some event, h) \<Rightarrow> (1, event, h)
         | (None, h) \<Rightarrow> dispatch_loop n event h))"

definition enet_protocol_dispatch_incoming_commands :: "ENetEvent \<Rightarrow> ENetHost \<Rightarrow> int \<times> ENetEvent \<times> ENetHost" where
  "enet_protocol_dispatch_incoming_commands event h = dispatch_loop (length (ho_dispatchQueue h)) event h"

section \<open>Connections and disconnections\<close>

definition enet_protocol_notify_connect :: "nat \<Rightarrow> ENetEvent option \<Rightarrow> ENetHost \<Rightarrow> ENetEvent option \<times> ENetHost" where
  "enet_protocol_notify_connect i event h =
    (let h = h\<lparr>ho_recalculateBandwidthLimits := True\<rparr> in
     case event of
       Some ev \<Rightarrow>
         let h = enet_protocol_change_state i ENET_PEER_STATE_CONNECTED h
         in (Some (ev\<lparr>ev_type := ENET_EVENT_TYPE_CONNECT, ev_peer := Some i,
                      ev_data := pr_eventData (peer_at h i)\<rparr>), h)
     | None \<Rightarrow>
         (None, enet_protocol_dispatch_state i
            (if pr_state (peer_at h i) = ENET_PEER_STATE_CONNECTING
             then ENET_PEER_STATE_CONNECTION_SUCCEEDED else ENET_PEER_STATE_CONNECTION_PENDING) h))"

definition enet_protocol_notify_disconnect :: "nat \<Rightarrow> ENetEvent option \<Rightarrow> ENetHost \<Rightarrow> ENetEvent option \<times> ENetHost" where
  "enet_protocol_notify_disconnect i event h =
    (let h = (if pr_state (peer_at h i) \<ge> ENET_PEER_STATE_CONNECTION_PENDING
              then h\<lparr>ho_recalculateBandwidthLimits := True\<rparr> else h)
     in if pr_state (peer_at h i) \<noteq> ENET_PEER_STATE_CONNECTING
           \<and> pr_state (peer_at h i) < ENET_PEER_STATE_CONNECTION_SUCCEEDED
        then (event, enet_peer_reset i h)
        else case event of
          Some ev \<Rightarrow>
            (Some (ev\<lparr>ev_type := ENET_EVENT_TYPE_DISCONNECT, ev_peer := Some i, ev_data := 0\<rparr>),
             enet_peer_reset i h)
        | None \<Rightarrow>
            (None, enet_protocol_dispatch_state i ENET_PEER_STATE_ZOMBIE
                     (upd_peer i (\<lambda>p. p\<lparr>pr_eventData := 0\<rparr>) h)))"

section \<open>Removing sent commands\<close>

definition sent_release :: "ENetOutgoingCommand \<Rightarrow> ENetHost \<Rightarrow> ENetHost" where
  "sent_release oc h = (case oc_packet oc of None \<Rightarrow> h | Some q \<Rightarrow> packet_release ENET_PACKET_FLAG_SENT q h)"

definition outgoing_empty :: "ENetPeer \<Rightarrow> bool" where
  "outgoing_empty p \<longleftrightarrow> pr_outgoingReliableCommands p = [] \<and> pr_outgoingUnreliableCommands p = []
     \<and> pr_sentReliableCommands p = []"

definition enet_protocol_remove_sent_unreliable_commands :: "nat \<Rightarrow> ENetHost \<Rightarrow> ENetHost" where
  "enet_protocol_remove_sent_unreliable_commands i h =
    (let queue = pr_sentUnreliableCommands (peer_at h i) in
     if queue = [] then h
     else
       let h = fold sent_release queue (upd_peer i (\<lambda>p. p\<lparr>pr_sentUnreliableCommands := []\<rparr>) h);
           p = peer_at h i
       in if pr_state p = ENET_PEER_STATE_DISCONNECT_LATER \<and> outgoing_empty p
          then enet_peer_disconnect_connected i (pr_eventData p) h
          else h)"

definition outgoing_matches :: "u16 \<Rightarrow> u8 \<Rightarrow> ENetOutgoingCommand \<Rightarrow> bool" where
  "outgoing_matches reliableSequenceNumber channelID oc \<longleftrightarrow>
     oc_reliableSequenceNumber oc = reliableSequenceNumber
     \<and> hd_channelID (pc_header (oc_command oc)) = channelID"

fun find_sent :: "u16 \<Rightarrow> u8 \<Rightarrow> ENetOutgoingCommand list \<Rightarrow> nat option" where
  "find_sent n channelID [] = None"
| "find_sent n channelID (oc # ocs) =
    (if outgoing_matches n channelID oc then Some 0 else map_option Suc (find_sent n channelID ocs))"

text \<open>Among the queued commands only those sent before, which come first, are looked at.\<close>

fun find_resent :: "u16 \<Rightarrow> u8 \<Rightarrow> ENetOutgoingCommand list \<Rightarrow> nat option" where
  "find_resent n channelID [] = None"
| "find_resent n channelID (oc # ocs) =
    (if oc_sendAttempts oc < 1 then None
     else if outgoing_matches n channelID oc then Some 0
     else map_option Suc (find_resent n channelID ocs))"

definition remove_nth :: "nat \<Rightarrow> 'a list \<Rightarrow> 'a list" where
  "remove_nth n xs = take n xs @ drop (Suc n) xs"

definition release_reliable_window :: "u16 \<Rightarrow> ENetChannel \<Rightarrow> ENetChannel" where
  "release_reliable_window reliableSequenceNumber ch =
    (let w = unat (reliableSequenceNumber div ENET_PEER_RELIABLE_WINDOW_SIZE) in
     if ch_reliableWindows ch ! w > 0 then
       let ch = ch\<lparr>ch_reliableWindows := (ch_reliableWindows ch)[w := ch_reliableWindows ch ! w - 1]\<rparr>
       in if ch_reliableWindows ch ! w = 0
          then ch\<lparr>ch_usedReliableWindows := ch_usedReliableWindows ch AND NOT (push_bit w 1)\<rparr>
          else ch
     else ch)"

text \<open>The two searches: whether the command is among the sent ones, its place, and itself.\<close>

definition find_acknowledged :: "u16 \<Rightarrow> u8 \<Rightarrow> ENetPeer \<Rightarrow> (bool \<times> nat \<times> ENetOutgoingCommand) option" where
  "find_acknowledged reliableSequenceNumber channelID p =
    (case find_sent reliableSequenceNumber channelID (pr_sentReliableCommands p) of
       Some n \<Rightarrow> Some (True, n, pr_sentReliableCommands p ! n)
     | None \<Rightarrow>
        (case find_resent reliableSequenceNumber channelID (pr_outgoingReliableCommands p) of
           Some n \<Rightarrow> Some (False, n, pr_outgoingReliableCommands p ! n)
         | None \<Rightarrow> None))"

definition remove_acknowledged :: "nat \<Rightarrow> u16 \<Rightarrow> u8 \<Rightarrow> bool \<Rightarrow> nat \<Rightarrow> ENetOutgoingCommand \<Rightarrow> ENetHost \<Rightarrow> ENetHost" where
  "remove_acknowledged i reliableSequenceNumber channelID wasSent n oc h =
    (let h = (if ucast channelID < pr_channelCount (peer_at h i)
              then upd_peer i (upd_channel (unat channelID) (release_reliable_window reliableSequenceNumber)) h
              else h);
         h = upd_peer i (\<lambda>p. if wasSent
               then p\<lparr>pr_sentReliableCommands := remove_nth n (pr_sentReliableCommands p)\<rparr>
               else p\<lparr>pr_outgoingReliableCommands := remove_nth n (pr_outgoingReliableCommands p)\<rparr>) h
     in if oc_packet oc \<noteq> None then
          sent_release oc
            (if wasSent
             then upd_peer i (\<lambda>p. p\<lparr>pr_reliableDataInTransit :=
                    pr_reliableDataInTransit p - ucast (oc_fragmentLength oc)\<rparr>) h
             else h)
        else h)"

definition enet_protocol_remove_sent_reliable_command :: "nat \<Rightarrow> u16 \<Rightarrow> u8 \<Rightarrow> ENetHost \<Rightarrow> u8 \<times> ENetHost" where
  "enet_protocol_remove_sent_reliable_command i reliableSequenceNumber channelID h =
    (case find_acknowledged reliableSequenceNumber channelID (peer_at h i) of
       None \<Rightarrow> (ENET_PROTOCOL_COMMAND_NONE, h)
     | Some (wasSent, n, oc) \<Rightarrow>
        let h = remove_acknowledged i reliableSequenceNumber channelID wasSent n oc h
        in (command_number (oc_command oc),
            case pr_sentReliableCommands (peer_at h i) of
              [] \<Rightarrow> h
            | first # _ \<Rightarrow> upd_peer i (\<lambda>p. p\<lparr>pr_nextTimeout :=
                              oc_sentTime first + oc_roundTripTimeout first\<rparr>) h))"

end
