(* ===== verification/ENet_Handlers.thy ===== *)
theory ENet_Handlers
  imports ENet_Notify
begin

text \<open>
  The handlers of the protocol commands, from \<^verbatim>\<open>protocol.c\<close>. A handler that consumes data gets
  and returns the offset of \<^verbatim>\<open>* currentData\<close> in \<^verbatim>\<open>receivedData\<close>; on entry it lies just after
  the command's struct, so the payload starts there. \<^verbatim>\<open>command -> header.reliableSequenceNumber\<close>
  has been converted to host order before a handler runs.
\<close>

section \<open>Windows and limits shared by the handlers\<close>

definition clamp_windowSize :: "u32 \<Rightarrow> u32" where
  "clamp_windowSize w =
    (if w < ENET_PROTOCOL_MINIMUM_WINDOW_SIZE then ENET_PROTOCOL_MINIMUM_WINDOW_SIZE
     else if w > ENET_PROTOCOL_MAXIMUM_WINDOW_SIZE then ENET_PROTOCOL_MAXIMUM_WINDOW_SIZE
     else w)"

definition clamp_mtu :: "u32 \<Rightarrow> u32" where
  "clamp_mtu mtu =
    (if mtu < ENET_PROTOCOL_MINIMUM_MTU then ENET_PROTOCOL_MINIMUM_MTU
     else if mtu > ENET_PROTOCOL_MAXIMUM_MTU then ENET_PROTOCOL_MAXIMUM_MTU
     else mtu)"

text \<open>The window for the bandwidths of the two ends, before and after the limits.\<close>

definition bandwidth_windowSize :: "u32 \<Rightarrow> u32 \<Rightarrow> u32" where
  "bandwidth_windowSize a b =
    (if a = 0 \<and> b = 0 then ENET_PROTOCOL_MAXIMUM_WINDOW_SIZE
     else if a = 0 \<or> b = 0
     then (ENET_MAX a b div ENET_PEER_WINDOW_SIZE_SCALE) * ENET_PROTOCOL_MINIMUM_WINDOW_SIZE
     else (ENET_MIN a b div ENET_PEER_WINDOW_SIZE_SCALE) * ENET_PROTOCOL_MINIMUM_WINDOW_SIZE)"

definition fresh_channel :: ENetChannel where
  "fresh_channel =
     \<lparr>ch_outgoingReliableSequenceNumber = 0, ch_outgoingUnreliableSequenceNumber = 0,
      ch_usedReliableWindows = 0,
      ch_reliableWindows = replicate (unat ENET_PEER_RELIABLE_WINDOWS) 0,
      ch_incomingReliableSequenceNumber = 0, ch_incomingUnreliableSequenceNumber = 0,
      ch_incomingReliableCommands = [], ch_incomingUnreliableCommands = []\<rparr>"

section \<open>Connecting\<close>

text \<open>
  The search for a free peer: none when the connection already exists, otherwise the first
  disconnected peer, if any, and the number of peers at the same host.
\<close>

fun connect_scan :: "ENetAddress \<Rightarrow> u32 \<Rightarrow> nat \<Rightarrow> ENetPeer list \<Rightarrow> nat option \<Rightarrow> size_t \<Rightarrow> (nat option \<times> size_t) option" where
  "connect_scan address connectID k [] peer duplicatePeers = Some (peer, duplicatePeers)"
| "connect_scan address connectID k (p # ps) peer duplicatePeers =
    (if pr_state p = ENET_PEER_STATE_DISCONNECTED
     then connect_scan address connectID (Suc k) ps (if peer = None then Some k else peer) duplicatePeers
     else if pr_state p \<noteq> ENET_PEER_STATE_CONNECTING \<and> ad_host (pr_address p) = ad_host address
     then if ad_port (pr_address p) = ad_port address \<and> pr_connectID p = connectID then None
          else connect_scan address connectID (Suc k) ps peer (duplicatePeers + 1)
     else connect_scan address connectID (Suc k) ps peer duplicatePeers)"

definition session_next :: "u8 \<Rightarrow> u8" where
  "session_next n = ucast ((ucast n + 1) AND drop_bit ENET_PROTOCOL_HEADER_SESSION_SHIFT
                              ENET_PROTOCOL_HEADER_SESSION_MASK)"

text \<open>The session ID given to one direction: the next one, or the one after it when the peer
  had that one last.\<close>

definition session_choose :: "u8 \<Rightarrow> u8 \<Rightarrow> u8" where
  "session_choose offered last_used =
    (let n = session_next (if offered = 0xFF then last_used else offered)
     in if n = last_used then session_next n else n)"

definition connect_windowSize :: "ENetHost \<Rightarrow> u32 \<Rightarrow> u32" where
  "connect_windowSize h offered =
    (let w = (if ho_incomingBandwidth h = 0 then ENET_PROTOCOL_MAXIMUM_WINDOW_SIZE
              else (ho_incomingBandwidth h div ENET_PEER_WINDOW_SIZE_SCALE) * ENET_PROTOCOL_MINIMUM_WINDOW_SIZE);
         w = (if w > offered then offered else w)
     in clamp_windowSize w)"

definition connect_peer :: "ENetHost \<Rightarrow> ENetProtocolConnect \<Rightarrow> size_t \<Rightarrow> ENetPeer \<Rightarrow> ENetPeer" where
  "connect_peer h cn channelCount p =
    (let p = p\<lparr>
       pr_channels := replicate (unat channelCount) fresh_channel,
       pr_channelCount := channelCount,
       pr_state := ENET_PEER_STATE_ACKNOWLEDGING_CONNECT,
       pr_connectID := cn_connectID cn,
       pr_address := ho_receivedAddress h,
       pr_outgoingPeerID := ENET_NET_TO_HOST_16 (cn_outgoingPeerID cn),
       pr_incomingBandwidth := ENET_NET_TO_HOST_32 (cn_incomingBandwidth cn),
       pr_outgoingBandwidth := ENET_NET_TO_HOST_32 (cn_outgoingBandwidth cn),
       pr_packetThrottleInterval := ENET_NET_TO_HOST_32 (cn_packetThrottleInterval cn),
       pr_packetThrottleAcceleration := ENET_NET_TO_HOST_32 (cn_packetThrottleAcceleration cn),
       pr_packetThrottleDeceleration := ENET_NET_TO_HOST_32 (cn_packetThrottleDeceleration cn),
       pr_eventData := ENET_NET_TO_HOST_32 (cn_data cn)\<rparr>;
       p = p\<lparr>pr_outgoingSessionID := session_choose (cn_incomingSessionID cn) (pr_outgoingSessionID p)\<rparr>;
       p = p\<lparr>pr_incomingSessionID := session_choose (cn_outgoingSessionID cn) (pr_incomingSessionID p)\<rparr>
     in p\<lparr>pr_mtu := clamp_mtu (ENET_NET_TO_HOST_32 (cn_mtu cn)),
          pr_windowSize := clamp_windowSize (bandwidth_windowSize (ho_outgoingBandwidth h) (pr_incomingBandwidth p))\<rparr>)"

definition verify_command :: "ENetHost \<Rightarrow> ENetPeer \<Rightarrow> u32 \<Rightarrow> size_t \<Rightarrow> ENetProtocol" where
  "verify_command h p windowSize channelCount =
     peer_command (ENET_PROTOCOL_COMMAND_VERIFY_CONNECT OR ENET_PROTOCOL_COMMAND_FLAG_ACKNOWLEDGE)
       (BVerifyConnect \<lparr>
         vc_outgoingPeerID = ENET_HOST_TO_NET_16 (pr_incomingPeerID p),
         vc_incomingSessionID = pr_outgoingSessionID p,
         vc_outgoingSessionID = pr_incomingSessionID p,
         vc_mtu = ENET_HOST_TO_NET_32 (pr_mtu p),
         vc_windowSize = ENET_HOST_TO_NET_32 windowSize,
         vc_channelCount = ENET_HOST_TO_NET_32 (ucast channelCount),
         vc_incomingBandwidth = ENET_HOST_TO_NET_32 (ho_incomingBandwidth h),
         vc_outgoingBandwidth = ENET_HOST_TO_NET_32 (ho_outgoingBandwidth h),
         vc_packetThrottleInterval = ENET_HOST_TO_NET_32 (pr_packetThrottleInterval p),
         vc_packetThrottleAcceleration = ENET_HOST_TO_NET_32 (pr_packetThrottleAcceleration p),
         vc_packetThrottleDeceleration = ENET_HOST_TO_NET_32 (pr_packetThrottleDeceleration p),
         vc_connectID = pr_connectID p\<rparr>)"

definition enet_protocol_handle_connect :: "ENetProtocolConnect \<Rightarrow> ENetHost \<Rightarrow> nat option \<times> ENetHost" where
  "enet_protocol_handle_connect cn h =
    (let channelCount = ucast (ENET_NET_TO_HOST_32 (cn_channelCount cn)) :: size_t in
     if channelCount < ENET_PROTOCOL_MINIMUM_CHANNEL_COUNT \<or> channelCount > ENET_PROTOCOL_MAXIMUM_CHANNEL_COUNT
     then (None, h)
     else case connect_scan (ho_receivedAddress h) (cn_connectID cn) 0 (ho_peers h) None 0 of
       None \<Rightarrow> (None, h)
     | Some (None, _) \<Rightarrow> (None, h)
     | Some (Some i, duplicatePeers) \<Rightarrow>
        if duplicatePeers \<ge> ho_duplicatePeers h then (None, h)
        else
          let channelCount = (if channelCount > ho_channelLimit h then ho_channelLimit h else channelCount);
              (ok, h) = enet_malloc h
          in if \<not> ok then (None, upd_peer i (\<lambda>p. p\<lparr>pr_channels := []\<rparr>) h)
             else
               let h = upd_peer i (connect_peer h cn channelCount) h;
                   windowSize = connect_windowSize h (ENET_NET_TO_HOST_32 (cn_windowSize cn));
                   command = verify_command h (peer_at h i) windowSize channelCount
               in (Some i, snd (enet_peer_queue_outgoing_command i command None 0 0 h)))"

section \<open>Data\<close>

text \<open>The checks common to the handlers of data commands: the channel and the state.\<close>

definition data_refused :: "ENetPeer \<Rightarrow> ENetProtocol \<Rightarrow> bool" where
  "data_refused p command \<longleftrightarrow>
     ucast (hd_channelID (pc_header command)) \<ge> pr_channelCount p
     \<or> pr_state p \<noteq> ENET_PEER_STATE_CONNECTED \<and> pr_state p \<noteq> ENET_PEER_STATE_DISCONNECT_LATER"

definition data_overrun :: "ENetHost \<Rightarrow> size_t \<Rightarrow> nat \<Rightarrow> bool" where
  "data_overrun h dataLength cur \<longleftrightarrow>
     dataLength > ho_maximumPacketSize h \<or> cur > length (ho_receivedData h)"

definition enet_protocol_handle_send_reliable ::
  "nat \<Rightarrow> ENetProtocol \<Rightarrow> ENetProtocolSendReliable \<Rightarrow> nat \<Rightarrow> ENetHost \<Rightarrow> int \<times> nat \<times> ENetHost" where
  "enet_protocol_handle_send_reliable i command sr cur h =
    (if data_refused (peer_at h i) command then (-1, cur, h)
     else
       let dataLength = ucast (ENET_NET_TO_HOST_16 (sr_dataLength sr)) :: size_t;
           payload = drop cur (ho_receivedData h);
           cur = cur + unat dataLength
       in if data_overrun h dataLength cur then (-1, cur, h)
          else
            let (r, h) = enet_peer_queue_incoming_command i command (Some payload) dataLength
                           ENET_PACKET_FLAG_RELIABLE 0 h
            in (if r = IncomingNull then -1 else 0, cur, h))"

definition enet_protocol_handle_send_unreliable ::
  "nat \<Rightarrow> ENetProtocol \<Rightarrow> ENetProtocolSendUnreliable \<Rightarrow> nat \<Rightarrow> ENetHost \<Rightarrow> int \<times> nat \<times> ENetHost" where
  "enet_protocol_handle_send_unreliable i command su cur h =
    (if data_refused (peer_at h i) command then (-1, cur, h)
     else
       let dataLength = ucast (ENET_NET_TO_HOST_16 (su_dataLength su)) :: size_t;
           payload = drop cur (ho_receivedData h);
           cur = cur + unat dataLength
       in if data_overrun h dataLength cur then (-1, cur, h)
          else
            let (r, h) = enet_peer_queue_incoming_command i command (Some payload) dataLength 0 0 h
            in (if r = IncomingNull then -1 else 0, cur, h))"

definition unsequenced_seen :: "u32 list \<Rightarrow> u32 \<Rightarrow> bool" where
  "unsequenced_seen window index \<longleftrightarrow>
     window ! unat (index div 32) AND push_bit (unat (index mod 32)) 1 \<noteq> 0"

definition unsequenced_mark :: "u32 \<Rightarrow> u32 list \<Rightarrow> u32 list" where
  "unsequenced_mark index window =
     window[unat (index div 32) := window ! unat (index div 32) OR push_bit (unat (index mod 32)) 1]"

definition enet_protocol_handle_send_unsequenced ::
  "nat \<Rightarrow> ENetProtocol \<Rightarrow> ENetProtocolSendUnsequenced \<Rightarrow> nat \<Rightarrow> ENetHost \<Rightarrow> int \<times> nat \<times> ENetHost" where
  "enet_protocol_handle_send_unsequenced i command sq cur h =
    (if data_refused (peer_at h i) command then (-1, cur, h)
     else
       let dataLength = ucast (ENET_NET_TO_HOST_16 (sq_dataLength sq)) :: size_t;
           payload = drop cur (ho_receivedData h);
           cur = cur + unat dataLength
       in if data_overrun h dataLength cur then (-1, cur, h)
          else
            let p = peer_at h i;
                group = ucast (ENET_NET_TO_HOST_16 (sq_unsequencedGroup sq)) :: u32;
                index = group mod ENET_PEER_UNSEQUENCED_WINDOW_SIZE;
                group = (if group < ucast (pr_incomingUnsequencedGroup p) then group + 0x10000 else group)
            in if group \<ge> ucast (pr_incomingUnsequencedGroup p)
                         + ENET_PEER_FREE_UNSEQUENCED_WINDOWS * ENET_PEER_UNSEQUENCED_WINDOW_SIZE
               then (0, cur, h)
               else
                 let group = group AND 0xFFFF;
                     moved = group - index \<noteq> ucast (pr_incomingUnsequencedGroup p);
                     h = (if moved
                          then upd_peer i (\<lambda>p. p\<lparr>pr_incomingUnsequencedGroup := ucast (group - index),
                                 pr_unsequencedWindow := replicate (length (pr_unsequencedWindow p)) 0\<rparr>) h
                          else h)
                 in if \<not> moved \<and> unsequenced_seen (pr_unsequencedWindow p) index then (0, cur, h)
                    else
                      let (r, h) = enet_peer_queue_incoming_command i command (Some payload) dataLength
                                     ENET_PACKET_FLAG_UNSEQUENCED 0 h
                      in if r = IncomingNull then (-1, cur, h)
                         else (0, cur, upd_peer i (\<lambda>p. p\<lparr>pr_unsequencedWindow :=
                                unsequenced_mark index (pr_unsequencedWindow p)\<rparr>) h))"

section \<open>Fragments\<close>

text \<open>
  The search for the command whose first fragment has been seen. \<open>FragmentMismatch\<close> is the
  \<^verbatim>\<open>return -1\<close> inside the loop; the other results are \<^verbatim>\<open>startCommand\<close>, \<^verbatim>\<open>NULL\<close> or found.
\<close>

datatype fragment_search = FragmentNew | FragmentFound ENetIncomingCommand | FragmentMismatch

definition fragment_matches :: "ENetHost \<Rightarrow> u8 \<Rightarrow> u32 \<Rightarrow> u32 \<Rightarrow> ENetIncomingCommand \<Rightarrow> bool" where
  "fragment_matches h number totalLength fragmentCount c \<longleftrightarrow>
     command_number (ic_command c) = number
     \<and> (case ic_packet c of None \<Rightarrow> False
         | Some q \<Rightarrow> (case env_packets h q of None \<Rightarrow> False
                      | Some pk \<Rightarrow> ucast totalLength = pk_dataLength pk))
     \<and> fragmentCount = ic_fragmentCount c"

text \<open>The argument \<open>step\<close> is the code's chain of tests: to go on, to stop, or the command is
  the one with the same sequence number (\<open>Discard\<close> in the searches of \<^verbatim>\<open>peer.c\<close>).\<close>

fun fragment_search_back ::
  "(ENetIncomingCommand \<Rightarrow> search_step) \<Rightarrow> (ENetIncomingCommand \<Rightarrow> bool) \<Rightarrow> ENetIncomingCommand list \<Rightarrow> fragment_search" where
  "fragment_search_back step same [] = FragmentNew"
| "fragment_search_back step same (c # cs) =
    (case step c of
       Continue \<Rightarrow> fragment_search_back step same cs
     | Break \<Rightarrow> FragmentNew
     | Discard \<Rightarrow> if same c then FragmentFound c else FragmentMismatch)"

definition unreliable_fragment_step :: "u16 \<Rightarrow> u16 \<Rightarrow> u16 \<Rightarrow> ENetIncomingCommand \<Rightarrow> search_step" where
  "unreliable_fragment_step incoming reliable start c =
     unreliable_search_step ENET_PROTOCOL_COMMAND_SEND_UNRELIABLE_FRAGMENT incoming reliable start c"

text \<open>A pointer to an incoming command is followed in the channel's queues and in
  \<^verbatim>\<open>dispatchedCommands\<close>; a command that is in neither has been freed.\<close>

definition find_incoming :: "nat \<Rightarrow> ENetIncomingCommand list \<Rightarrow> ENetIncomingCommand option" where
  "find_incoming addr cs = find (\<lambda>c. ic_addr c = addr) cs"

definition update_incoming :: "nat \<Rightarrow> (ENetIncomingCommand \<Rightarrow> ENetIncomingCommand) \<Rightarrow> ENetIncomingCommand list \<Rightarrow> ENetIncomingCommand list" where
  "update_incoming addr f cs = map (\<lambda>c. if ic_addr c = addr then f c else c) cs"

definition incoming_commands :: "ENetPeer \<Rightarrow> nat \<Rightarrow> ENetIncomingCommand list" where
  "incoming_commands p c = ch_incomingReliableCommands (channel_at p c)
     @ ch_incomingUnreliableCommands (channel_at p c) @ pr_dispatchedCommands p"

definition upd_incoming :: "nat \<Rightarrow> nat \<Rightarrow> nat \<Rightarrow> (ENetIncomingCommand \<Rightarrow> ENetIncomingCommand) \<Rightarrow> ENetHost \<Rightarrow> ENetHost" where
  "upd_incoming i c addr f h =
     upd_peer i (\<lambda>p. upd_channel c (\<lambda>ch. ch\<lparr>
       ch_incomingReliableCommands := update_incoming addr f (ch_incomingReliableCommands ch),
       ch_incomingUnreliableCommands := update_incoming addr f (ch_incomingUnreliableCommands ch)\<rparr>)
       (p\<lparr>pr_dispatchedCommands := update_incoming addr f (pr_dispatchedCommands p)\<rparr>)) h"

definition fragment_seen :: "u32 list \<Rightarrow> u32 \<Rightarrow> bool" where
  "fragment_seen fragments n \<longleftrightarrow>
     fragments ! unat (n div 32) AND push_bit (unat (n mod 32)) 1 \<noteq> 0"

definition fragment_mark :: "u32 \<Rightarrow> u32 list \<Rightarrow> u32 list" where
  "fragment_mark n fragments =
     fragments[unat (n div 32) := fragments ! unat (n div 32) OR push_bit (unat (n mod 32)) 1]"

definition copy_into :: "nat \<Rightarrow> u8 list \<Rightarrow> u8 list \<Rightarrow> u8 list" where
  "copy_into off bs dest = take off dest @ bs @ drop (off + length bs) dest"

text \<open>
  The end of both fragment handlers: record the fragment, copy its data, dispatch when none
  remains. Following a pointer to a freed command, \<^verbatim>\<open>NULL\<close> bitmap or packet is undefined.
\<close>

definition fragment_store ::
  "(nat \<Rightarrow> nat \<Rightarrow> ENetHost \<Rightarrow> ENetHost) \<Rightarrow> nat \<Rightarrow> nat \<Rightarrow> nat \<Rightarrow> u32 \<Rightarrow> u32 \<Rightarrow> u32 \<Rightarrow> u8 list \<Rightarrow> ENetHost \<Rightarrow> ENetHost" where
  "fragment_store dispatch i c addr fragmentNumber fragmentOffset fragmentLength payload h =
    (case find_incoming addr (incoming_commands (peer_at h i) c) of
       None \<Rightarrow> set_ub h
     | Some ic \<Rightarrow>
       (case (ic_fragments ic, ic_packet ic) of
          (Some fragments, Some q) \<Rightarrow>
            if length fragments \<le> unat (fragmentNumber div 32) then set_ub h
            else if fragment_seen fragments fragmentNumber then h
            else (case env_packets h q of
                None \<Rightarrow> set_ub h
              | Some pk \<Rightarrow>
                 let h = upd_incoming i c addr (\<lambda>ic. ic\<lparr>
                           ic_fragmentsRemaining := ic_fragmentsRemaining ic - 1,
                           ic_fragments := Some (fragment_mark fragmentNumber fragments)\<rparr>) h;
                     fragmentLength = (if ucast (fragmentOffset + fragmentLength) > pk_dataLength pk
                                       then ucast (pk_dataLength pk - ucast fragmentOffset) else fragmentLength);
                     dest = (case pk_data pk of None \<Rightarrow> [] | Some d \<Rightarrow> d);
                     h = (if length payload < unat fragmentLength
                             \<or> length dest < unat fragmentOffset + unat fragmentLength then set_ub h else h);
                     h = h\<lparr>env_packets := (env_packets h)(q \<mapsto> pk\<lparr>pk_data :=
                           Some (copy_into (unat fragmentOffset) (take (unat fragmentLength) payload) dest)\<rparr>)\<rparr>
                 in if ic_fragmentsRemaining ic - 1 \<le> 0 then dispatch i c h else h)
        | _ \<Rightarrow> set_ub h))"

text \<open>The header fields of a fragment that both handlers reject.\<close>

definition fragment_invalid :: "ENetHost \<Rightarrow> u32 \<Rightarrow> u32 \<Rightarrow> u32 \<Rightarrow> u32 \<Rightarrow> u32 \<Rightarrow> bool" where
  "fragment_invalid h fragmentNumber fragmentCount fragmentOffset fragmentLength totalLength \<longleftrightarrow>
     fragmentCount > ENET_PROTOCOL_MAXIMUM_FRAGMENT_COUNT
     \<or> fragmentNumber \<ge> fragmentCount
     \<or> ucast totalLength > ho_maximumPacketSize h
     \<or> fragmentOffset \<ge> totalLength
     \<or> fragmentLength > totalLength - fragmentOffset"

definition enet_protocol_handle_send_fragment ::
  "nat \<Rightarrow> ENetProtocol \<Rightarrow> ENetProtocolSendFragment \<Rightarrow> nat \<Rightarrow> ENetHost \<Rightarrow> int \<times> nat \<times> ENetHost" where
  "enet_protocol_handle_send_fragment i command sf cur h =
    (if data_refused (peer_at h i) command then (-1, cur, h)
     else
       let fragmentLength = ucast (ENET_NET_TO_HOST_16 (sf_dataLength sf)) :: u32;
           payload = drop cur (ho_receivedData h);
           cur = cur + unat fragmentLength
       in if data_overrun h (ucast fragmentLength) cur then (-1, cur, h)
          else
            let c = unat (hd_channelID (pc_header command));
                channel = channel_at (peer_at h i) c;
                incoming = ch_incomingReliableSequenceNumber channel;
                startSequenceNumber = ENET_NET_TO_HOST_16 (sf_startSequenceNumber sf);
                startWindow = unat (reliable_window startSequenceNumber incoming);
                currentWindow = unat (incoming div ENET_PEER_RELIABLE_WINDOW_SIZE)
            in if startWindow < currentWindow
                  \<or> startWindow \<ge> currentWindow + unat ENET_PEER_FREE_RELIABLE_WINDOWS - 1
               then (0, cur, h)
               else
                 let fragmentNumber = ENET_NET_TO_HOST_32 (sf_fragmentNumber sf);
                     fragmentCount = ENET_NET_TO_HOST_32 (sf_fragmentCount sf);
                     fragmentOffset = ENET_NET_TO_HOST_32 (sf_fragmentOffset sf);
                     totalLength = ENET_NET_TO_HOST_32 (sf_totalLength sf)
                 in if fragment_invalid h fragmentNumber fragmentCount fragmentOffset fragmentLength totalLength
                    then (-1, cur, h)
                    else
                      let store = (\<lambda>addr h. (0, cur,
                            fragment_store enet_peer_dispatch_incoming_reliable_commands
                              i c addr fragmentNumber fragmentOffset fragmentLength payload h))
                      in case fragment_search_back (reliable_search_step incoming startSequenceNumber)
                             (fragment_matches h ENET_PROTOCOL_COMMAND_SEND_FRAGMENT totalLength fragmentCount)
                             (rev (ch_incomingReliableCommands channel)) of
                           FragmentMismatch \<Rightarrow> (-1, cur, h)
                         | FragmentFound ic \<Rightarrow> store (ic_addr ic) h
                         | FragmentNew \<Rightarrow>
                            (case enet_peer_queue_incoming_command i
                                   (set_reliableSequenceNumber startSequenceNumber command) None
                                   (ucast totalLength) ENET_PACKET_FLAG_RELIABLE fragmentCount h of
                               (IncomingNull, h) \<Rightarrow> (-1, cur, h)
                             | (IncomingDummy, h) \<Rightarrow> (0, cur, set_ub h)
                             | (IncomingCommand addr, h) \<Rightarrow> store addr h))"

definition enet_protocol_handle_send_unreliable_fragment ::
  "nat \<Rightarrow> ENetProtocol \<Rightarrow> ENetProtocolSendFragment \<Rightarrow> nat \<Rightarrow> ENetHost \<Rightarrow> int \<times> nat \<times> ENetHost" where
  "enet_protocol_handle_send_unreliable_fragment i command sf cur h =
    (if data_refused (peer_at h i) command then (-1, cur, h)
     else
       let fragmentLength = ucast (ENET_NET_TO_HOST_16 (sf_dataLength sf)) :: u32;
           payload = drop cur (ho_receivedData h);
           cur = cur + unat fragmentLength
       in if data_overrun h (ucast fragmentLength) cur then (-1, cur, h)
          else
            let c = unat (hd_channelID (pc_header command));
                channel = channel_at (peer_at h i) c;
                incoming = ch_incomingReliableSequenceNumber channel;
                reliableSequenceNumber = hd_reliableSequenceNumber (pc_header command);
                startSequenceNumber = ENET_NET_TO_HOST_16 (sf_startSequenceNumber sf);
                reliableWindow = unat (reliable_window reliableSequenceNumber incoming);
                currentWindow = unat (incoming div ENET_PEER_RELIABLE_WINDOW_SIZE)
            in if reliableWindow < currentWindow
                  \<or> reliableWindow \<ge> currentWindow + unat ENET_PEER_FREE_RELIABLE_WINDOWS - 1
               then (0, cur, h)
               else if reliableSequenceNumber = incoming
                       \<and> startSequenceNumber \<le> ch_incomingUnreliableSequenceNumber channel
               then (0, cur, h)
               else
                 let fragmentNumber = ENET_NET_TO_HOST_32 (sf_fragmentNumber sf);
                     fragmentCount = ENET_NET_TO_HOST_32 (sf_fragmentCount sf);
                     fragmentOffset = ENET_NET_TO_HOST_32 (sf_fragmentOffset sf);
                     totalLength = ENET_NET_TO_HOST_32 (sf_totalLength sf)
                 in if fragment_invalid h fragmentNumber fragmentCount fragmentOffset fragmentLength totalLength
                    then (-1, cur, h)
                    else
                      let store = (\<lambda>addr h. (0, cur,
                            fragment_store enet_peer_dispatch_incoming_unreliable_commands
                              i c addr fragmentNumber fragmentOffset fragmentLength payload h))
                      in case fragment_search_back
                             (unreliable_fragment_step incoming reliableSequenceNumber startSequenceNumber)
                             (fragment_matches h ENET_PROTOCOL_COMMAND_SEND_UNRELIABLE_FRAGMENT totalLength fragmentCount)
                             (rev (ch_incomingUnreliableCommands channel)) of
                           FragmentMismatch \<Rightarrow> (-1, cur, h)
                         | FragmentFound ic \<Rightarrow> store (ic_addr ic) h
                         | FragmentNew \<Rightarrow>
                            (case enet_peer_queue_incoming_command i command None
                                   (ucast totalLength) ENET_PACKET_FLAG_UNRELIABLE_FRAGMENT fragmentCount h of
                               (IncomingNull, h) \<Rightarrow> (-1, cur, h)
                             | (IncomingDummy, h) \<Rightarrow> (0, cur, set_ub h)
                             | (IncomingCommand addr, h) \<Rightarrow> store addr h))"

section \<open>Pings, limits, throttle, disconnection\<close>

definition enet_protocol_handle_ping :: "nat \<Rightarrow> ENetHost \<Rightarrow> int" where
  "enet_protocol_handle_ping i h =
    (if pr_state (peer_at h i) \<noteq> ENET_PEER_STATE_CONNECTED
        \<and> pr_state (peer_at h i) \<noteq> ENET_PEER_STATE_DISCONNECT_LATER then -1 else 0)"

definition enet_protocol_handle_bandwidth_limit :: "nat \<Rightarrow> ENetProtocolBandwidthLimit \<Rightarrow> ENetHost \<Rightarrow> int \<times> ENetHost" where
  "enet_protocol_handle_bandwidth_limit i bl h =
    (if pr_state (peer_at h i) \<noteq> ENET_PEER_STATE_CONNECTED
        \<and> pr_state (peer_at h i) \<noteq> ENET_PEER_STATE_DISCONNECT_LATER then (-1, h)
     else
       let h = (if pr_incomingBandwidth (peer_at h i) \<noteq> 0
                then h\<lparr>ho_bandwidthLimitedPeers := ho_bandwidthLimitedPeers h - 1\<rparr> else h);
           h = upd_peer i (\<lambda>p. p\<lparr>pr_incomingBandwidth := ENET_NET_TO_HOST_32 (bl_incomingBandwidth bl),
                               pr_outgoingBandwidth := ENET_NET_TO_HOST_32 (bl_outgoingBandwidth bl)\<rparr>) h;
           h = (if pr_incomingBandwidth (peer_at h i) \<noteq> 0
                then h\<lparr>ho_bandwidthLimitedPeers := ho_bandwidthLimitedPeers h + 1\<rparr> else h);
           h = upd_peer i (\<lambda>p. p\<lparr>pr_windowSize := clamp_windowSize
                 (bandwidth_windowSize (pr_incomingBandwidth p) (ho_outgoingBandwidth h))\<rparr>) h
       in (0, h))"

definition enet_protocol_handle_throttle_configure :: "nat \<Rightarrow> ENetProtocolThrottleConfigure \<Rightarrow> ENetHost \<Rightarrow> int \<times> ENetHost" where
  "enet_protocol_handle_throttle_configure i tc h =
    (if pr_state (peer_at h i) \<noteq> ENET_PEER_STATE_CONNECTED
        \<and> pr_state (peer_at h i) \<noteq> ENET_PEER_STATE_DISCONNECT_LATER then (-1, h)
     else (0, upd_peer i (\<lambda>p. p\<lparr>
            pr_packetThrottleInterval := ENET_NET_TO_HOST_32 (tc_packetThrottleInterval tc),
            pr_packetThrottleAcceleration := ENET_NET_TO_HOST_32 (tc_packetThrottleAcceleration tc),
            pr_packetThrottleDeceleration := ENET_NET_TO_HOST_32 (tc_packetThrottleDeceleration tc)\<rparr>) h))"

definition enet_protocol_handle_disconnect :: "nat \<Rightarrow> ENetProtocol \<Rightarrow> ENetProtocolDisconnect \<Rightarrow> ENetHost \<Rightarrow> int \<times> ENetHost" where
  "enet_protocol_handle_disconnect i command dc h =
    (if pr_state (peer_at h i) = ENET_PEER_STATE_DISCONNECTED
        \<or> pr_state (peer_at h i) = ENET_PEER_STATE_ZOMBIE
        \<or> pr_state (peer_at h i) = ENET_PEER_STATE_ACKNOWLEDGING_DISCONNECT
     then (0, h)
     else
       let h = enet_peer_reset_queues i h;
           state = pr_state (peer_at h i);
           h = (if state = ENET_PEER_STATE_CONNECTION_SUCCEEDED \<or> state = ENET_PEER_STATE_DISCONNECTING
                   \<or> state = ENET_PEER_STATE_CONNECTING
                then enet_protocol_dispatch_state i ENET_PEER_STATE_ZOMBIE h
                else if state \<noteq> ENET_PEER_STATE_CONNECTED \<and> state \<noteq> ENET_PEER_STATE_DISCONNECT_LATER
                then enet_peer_reset i
                       (if state = ENET_PEER_STATE_CONNECTION_PENDING
                        then h\<lparr>ho_recalculateBandwidthLimits := True\<rparr> else h)
                else if command_of command AND ENET_PROTOCOL_COMMAND_FLAG_ACKNOWLEDGE \<noteq> 0
                then enet_protocol_change_state i ENET_PEER_STATE_ACKNOWLEDGING_DISCONNECT h
                else enet_protocol_dispatch_state i ENET_PEER_STATE_ZOMBIE h)
       in (0, if pr_state (peer_at h i) \<noteq> ENET_PEER_STATE_DISCONNECTED
              then upd_peer i (\<lambda>p. p\<lparr>pr_eventData := ENET_NET_TO_HOST_32 (dc_data dc)\<rparr>) h
              else h))"

end
