(* ===== verification/ENet_Incoming.thy ===== *)
theory ENet_Incoming
  imports ENet_Handlers
begin

text \<open>
  Acknowledgements, the answer to a connect, and the reception of datagrams: the second half
  of the receiving side of \<^verbatim>\<open>protocol.c\<close>, up to \<^verbatim>\<open>enet_protocol_receive_incoming_commands\<close>.
\<close>

section \<open>Acknowledgements\<close>

text \<open>The 16-bit time of an acknowledgement, completed from the service time.\<close>

definition acknowledge_sentTime :: "u32 \<Rightarrow> u16 \<Rightarrow> u32" where
  "acknowledge_sentTime serviceTime received =
    (let t = ucast received OR (serviceTime AND 0xFFFF0000)
     in if t AND 0x8000 > serviceTime AND 0x8000 then t - 0x10000 else t)"

text \<open>The round trip statistics of a peer after an acknowledgement, from the throttle on.\<close>

definition acknowledge_peer :: "u32 \<Rightarrow> u32 \<Rightarrow> ENetPeer \<Rightarrow> ENetPeer" where
  "acknowledge_peer serviceTime rtt p =
    (let p = p\<lparr>pr_lastReceiveTime := serviceTime, pr_earliestTimeout := 0\<rparr>;
         p = snd (enet_peer_throttle rtt p);
         p = p\<lparr>pr_roundTripTimeVariance := pr_roundTripTimeVariance p - pr_roundTripTimeVariance p div 4\<rparr>;
         p = (if rtt \<ge> pr_roundTripTime p then
                let p = p\<lparr>pr_roundTripTime := pr_roundTripTime p + (rtt - pr_roundTripTime p) div 8\<rparr>
                in p\<lparr>pr_roundTripTimeVariance := pr_roundTripTimeVariance p + (rtt - pr_roundTripTime p) div 4\<rparr>
              else
                let p = p\<lparr>pr_roundTripTime := pr_roundTripTime p - (pr_roundTripTime p - rtt) div 8\<rparr>
                in p\<lparr>pr_roundTripTimeVariance := pr_roundTripTimeVariance p + (pr_roundTripTime p - rtt) div 4\<rparr>);
         p = (if pr_roundTripTime p < pr_lowestRoundTripTime p
              then p\<lparr>pr_lowestRoundTripTime := pr_roundTripTime p\<rparr> else p);
         p = (if pr_roundTripTimeVariance p > pr_highestRoundTripTimeVariance p
              then p\<lparr>pr_highestRoundTripTimeVariance := pr_roundTripTimeVariance p\<rparr> else p)
     in if pr_packetThrottleEpoch p = 0
           \<or> ENET_TIME_DIFFERENCE serviceTime (pr_packetThrottleEpoch p) \<ge> pr_packetThrottleInterval p
        then p\<lparr>pr_lastRoundTripTime := pr_lowestRoundTripTime p,
               pr_lastRoundTripTimeVariance := pr_highestRoundTripTimeVariance p,
               pr_lowestRoundTripTime := pr_roundTripTime p,
               pr_highestRoundTripTimeVariance := pr_roundTripTimeVariance p,
               pr_packetThrottleEpoch := serviceTime\<rparr>
        else p)"

definition enet_protocol_handle_acknowledge ::
  "nat \<Rightarrow> ENetProtocol \<Rightarrow> ENetProtocolAcknowledge \<Rightarrow> ENetEvent option \<Rightarrow> ENetHost \<Rightarrow> int \<times> ENetEvent option \<times> ENetHost" where
  "enet_protocol_handle_acknowledge i command ak event h =
    (if pr_state (peer_at h i) = ENET_PEER_STATE_DISCONNECTED
        \<or> pr_state (peer_at h i) = ENET_PEER_STATE_ZOMBIE
     then (0, event, h)
     else
       let receivedSentTime = acknowledge_sentTime (ho_serviceTime h) (ENET_NET_TO_HOST_16 (ak_receivedSentTime ak))
       in if ENET_TIME_LESS (ho_serviceTime h) receivedSentTime then (0, event, h)
          else
            let roundTripTime = ENET_TIME_DIFFERENCE (ho_serviceTime h) receivedSentTime;
                h = upd_peer i (acknowledge_peer (ho_serviceTime h) roundTripTime) h;
                (commandNumber, h) = enet_protocol_remove_sent_reliable_command i
                  (ENET_NET_TO_HOST_16 (ak_receivedReliableSequenceNumber ak)) (hd_channelID (pc_header command)) h;
                state = pr_state (peer_at h i)
            in if state = ENET_PEER_STATE_ACKNOWLEDGING_CONNECT then
                 if commandNumber \<noteq> ENET_PROTOCOL_COMMAND_VERIFY_CONNECT then (-1, event, h)
                 else (0, enet_protocol_notify_connect i event h)
               else if state = ENET_PEER_STATE_DISCONNECTING then
                 if commandNumber \<noteq> ENET_PROTOCOL_COMMAND_DISCONNECT then (-1, event, h)
                 else (0, enet_protocol_notify_disconnect i event h)
               else if state = ENET_PEER_STATE_DISCONNECT_LATER then
                 (0, event, if outgoing_empty (peer_at h i)
                            then enet_peer_disconnect_connected i (pr_eventData (peer_at h i)) h else h)
               else (0, event, h))"

section \<open>The answer to a connect\<close>

definition verify_mismatch :: "ENetProtocolVerifyConnect \<Rightarrow> ENetPeer \<Rightarrow> bool" where
  "verify_mismatch vc p \<longleftrightarrow>
     (ucast (ENET_NET_TO_HOST_32 (vc_channelCount vc)) :: size_t) < ENET_PROTOCOL_MINIMUM_CHANNEL_COUNT
     \<or> (ucast (ENET_NET_TO_HOST_32 (vc_channelCount vc)) :: size_t) > ENET_PROTOCOL_MAXIMUM_CHANNEL_COUNT
     \<or> ENET_NET_TO_HOST_32 (vc_packetThrottleInterval vc) \<noteq> pr_packetThrottleInterval p
     \<or> ENET_NET_TO_HOST_32 (vc_packetThrottleAcceleration vc) \<noteq> pr_packetThrottleAcceleration p
     \<or> ENET_NET_TO_HOST_32 (vc_packetThrottleDeceleration vc) \<noteq> pr_packetThrottleDeceleration p
     \<or> vc_connectID vc \<noteq> pr_connectID p"

definition verify_peer :: "ENetProtocolVerifyConnect \<Rightarrow> ENetPeer \<Rightarrow> ENetPeer" where
  "verify_peer vc p =
    (let channelCount = ucast (ENET_NET_TO_HOST_32 (vc_channelCount vc)) :: size_t;
         p = (if channelCount < pr_channelCount p then p\<lparr>pr_channelCount := channelCount\<rparr> else p);
         p = p\<lparr>pr_outgoingPeerID := ENET_NET_TO_HOST_16 (vc_outgoingPeerID vc),
               pr_incomingSessionID := vc_incomingSessionID vc,
               pr_outgoingSessionID := vc_outgoingSessionID vc\<rparr>;
         mtu = clamp_mtu (ENET_NET_TO_HOST_32 (vc_mtu vc));
         p = (if mtu < pr_mtu p then p\<lparr>pr_mtu := mtu\<rparr> else p);
         windowSize = clamp_windowSize (ENET_NET_TO_HOST_32 (vc_windowSize vc));
         p = (if windowSize < pr_windowSize p then p\<lparr>pr_windowSize := windowSize\<rparr> else p)
     in p\<lparr>pr_incomingBandwidth := ENET_NET_TO_HOST_32 (vc_incomingBandwidth vc),
          pr_outgoingBandwidth := ENET_NET_TO_HOST_32 (vc_outgoingBandwidth vc)\<rparr>)"

definition enet_protocol_handle_verify_connect ::
  "nat \<Rightarrow> ENetProtocolVerifyConnect \<Rightarrow> ENetEvent option \<Rightarrow> ENetHost \<Rightarrow> int \<times> ENetEvent option \<times> ENetHost" where
  "enet_protocol_handle_verify_connect i vc event h =
    (if pr_state (peer_at h i) \<noteq> ENET_PEER_STATE_CONNECTING then (0, event, h)
     else if verify_mismatch vc (peer_at h i) then
       (-1, event, enet_protocol_dispatch_state i ENET_PEER_STATE_ZOMBIE
                     (upd_peer i (\<lambda>p. p\<lparr>pr_eventData := 0\<rparr>) h))
     else
       let (_, h) = enet_protocol_remove_sent_reliable_command i 1 0xFF h;
           h = upd_peer i (verify_peer vc) h
       in (0, enet_protocol_notify_connect i event h))"

section \<open>The commands of a datagram\<close>

text \<open>
  The switch over the command number. The first component of the result is the jump to
  \<^verbatim>\<open>commandError\<close>; the peer may have been found by a connect, the offset moved by a handler.
\<close>

definition handle_command ::
  "nat option \<Rightarrow> ENetProtocol \<Rightarrow> nat \<Rightarrow> ENetEvent option \<Rightarrow> ENetHost
    \<Rightarrow> bool \<times> nat option \<times> nat \<times> ENetEvent option \<times> ENetHost" where
  "handle_command peer command cur event h =
    (case peer of
       None \<Rightarrow>
        (case pc_body command of
           BConnect cn \<Rightarrow> let (peer, h) = enet_protocol_handle_connect cn h in (peer = None, peer, cur, event, h)
         | _ \<Rightarrow> (True, None, cur, event, h))
     | Some i \<Rightarrow>
        (case pc_body command of
           BAcknowledge ak \<Rightarrow>
             let (r, event, h) = enet_protocol_handle_acknowledge i command ak event h
             in (r \<noteq> 0, peer, cur, event, h)
         | BConnect _ \<Rightarrow> (True, peer, cur, event, h)
         | BVerifyConnect vc \<Rightarrow>
             let (r, event, h) = enet_protocol_handle_verify_connect i vc event h
             in (r \<noteq> 0, peer, cur, event, h)
         | BDisconnect dc \<Rightarrow>
             let (r, h) = enet_protocol_handle_disconnect i command dc h
             in (r \<noteq> 0, peer, cur, event, h)
         | BPing \<Rightarrow> (enet_protocol_handle_ping i h \<noteq> 0, peer, cur, event, h)
         | BSendReliable sr \<Rightarrow>
             let (r, cur, h) = enet_protocol_handle_send_reliable i command sr cur h
             in (r \<noteq> 0, peer, cur, event, h)
         | BSendUnreliable su \<Rightarrow>
             let (r, cur, h) = enet_protocol_handle_send_unreliable i command su cur h
             in (r \<noteq> 0, peer, cur, event, h)
         | BSendUnsequenced sq \<Rightarrow>
             let (r, cur, h) = enet_protocol_handle_send_unsequenced i command sq cur h
             in (r \<noteq> 0, peer, cur, event, h)
         | BSendFragment sf \<Rightarrow>
             let (r, cur, h) =
               (if command_number command = ENET_PROTOCOL_COMMAND_SEND_FRAGMENT
                then enet_protocol_handle_send_fragment i command sf cur h
                else enet_protocol_handle_send_unreliable_fragment i command sf cur h)
             in (r \<noteq> 0, peer, cur, event, h)
         | BBandwidthLimit bl \<Rightarrow>
             let (r, h) = enet_protocol_handle_bandwidth_limit i bl h
             in (r \<noteq> 0, peer, cur, event, h)
         | BThrottleConfigure tc \<Rightarrow>
             let (r, h) = enet_protocol_handle_throttle_configure i tc h
             in (r \<noteq> 0, peer, cur, event, h)))"

text \<open>The acknowledgement after a command, for the state the peer is in then.\<close>

definition acknowledge_command :: "nat \<Rightarrow> ENetProtocol \<Rightarrow> u16 \<Rightarrow> ENetHost \<Rightarrow> ENetHost" where
  "acknowledge_command i command sentTime h =
    (case pr_state (peer_at h i) of
       ENET_PEER_STATE_DISCONNECTING \<Rightarrow> h
     | ENET_PEER_STATE_ACKNOWLEDGING_CONNECT \<Rightarrow> h
     | ENET_PEER_STATE_DISCONNECTED \<Rightarrow> h
     | ENET_PEER_STATE_ZOMBIE \<Rightarrow> h
     | ENET_PEER_STATE_ACKNOWLEDGING_DISCONNECT \<Rightarrow>
         if command_number command = ENET_PROTOCOL_COMMAND_DISCONNECT
         then snd (enet_peer_queue_acknowledgement i command sentTime h) else h
     | _ \<Rightarrow> snd (enet_peer_queue_acknowledgement i command sentTime h))"

lemma handler_offsets:
  "enet_protocol_handle_send_reliable i command sr cur h = (r, cur', h') \<Longrightarrow> cur \<le> cur'"
  "enet_protocol_handle_send_unreliable i command su cur h = (r, cur', h') \<Longrightarrow> cur \<le> cur'"
  "enet_protocol_handle_send_unsequenced i command sq cur h = (r, cur', h') \<Longrightarrow> cur \<le> cur'"
  "enet_protocol_handle_send_fragment i command sf cur h = (r, cur', h') \<Longrightarrow> cur \<le> cur'"
  "enet_protocol_handle_send_unreliable_fragment i command sf cur h = (r, cur', h') \<Longrightarrow> cur \<le> cur'"
  by (auto simp: enet_protocol_handle_send_reliable_def enet_protocol_handle_send_unreliable_def
      enet_protocol_handle_send_unsequenced_def enet_protocol_handle_send_fragment_def
      enet_protocol_handle_send_unreliable_fragment_def Let_def
      split: if_splits prod.splits fragment_search.splits incoming_result.splits)

lemma handle_command_offset:
  "handle_command peer command cur event h = (err, peer', cur', event', h') \<Longrightarrow> cur \<le> cur'"
  by (auto simp: handle_command_def Let_def dest: handler_offsets
      split: if_splits prod.splits option.splits ENetProtocolBody.splits)

text \<open>
  The loop over the commands. \<open>limit\<close> is \<^verbatim>\<open>receivedDataLength\<close>, \<open>cur\<close> the offset of
  \<^verbatim>\<open>currentData\<close>; it grows in every round.
\<close>

definition command_end :: "nat option \<Rightarrow> nat \<Rightarrow> nat \<Rightarrow> ENetHost \<Rightarrow> nat option" where
  "command_end peer limit cur h =
    (let data = drop cur (ho_receivedData h) in
     if cur \<ge> limit \<or> cur + unat sizeof_ENetProtocolCommandHeader > limit then None
     else
       let commandNumber = hd_command (header_at data) AND ENET_PROTOCOL_COMMAND_MASK in
       if commandNumber \<ge> ENET_PROTOCOL_COMMAND_COUNT then None
       else
         let commandSize = commandSizes ! unat commandNumber in
         if commandSize = 0 \<or> cur + unat commandSize > limit then None
         else if peer = None \<and> commandNumber \<noteq> ENET_PROTOCOL_COMMAND_CONNECT then None
         else Some (cur + unat commandSize))"

lemma command_end_bounds: "command_end peer limit cur h = Some cur' \<Longrightarrow> cur < cur' \<and> cur' \<le> limit \<and> cur < limit"
  by (auto simp: command_end_def Let_def unat_gt_0 split: if_splits)

function incoming_loop ::
  "u16 \<Rightarrow> nat \<Rightarrow> nat option \<Rightarrow> nat \<Rightarrow> ENetEvent option \<Rightarrow> ENetHost \<Rightarrow> ENetEvent option \<times> ENetHost" where
  "incoming_loop flags limit peer cur event h =
    (case command_end peer limit cur h of
       None \<Rightarrow> (event, h)
     | Some cur1 \<Rightarrow>
        let command = ENetProtocol_at (drop cur (ho_receivedData h));
            command = set_reliableSequenceNumber
              (ENET_NET_TO_HOST_16 (hd_reliableSequenceNumber (pc_header command))) command
        in case handle_command peer command cur1 event h of
             (err, peer, cur2, event, h) \<Rightarrow>
               if err then (event, h)
               else
                 (case peer of
                    Some i \<Rightarrow>
                      if command_of command AND ENET_PROTOCOL_COMMAND_FLAG_ACKNOWLEDGE \<noteq> 0 then
                        if flags AND ENET_PROTOCOL_HEADER_FLAG_SENT_TIME = 0 then (event, h)
                        else incoming_loop flags limit peer cur2 event
                               (acknowledge_command i command
                                  (ENET_NET_TO_HOST_16 (rd16 (drop 2 (ho_receivedData h)))) h)
                      else incoming_loop flags limit peer cur2 event h
                  | None \<Rightarrow> incoming_loop flags limit peer cur2 event h))"
  by pat_completeness auto
termination
  by (relation "measure (\<lambda>(_, limit, _, cur, _, _). limit - cur)")
    (auto dest!: command_end_bounds handle_command_offset [OF sym])

declare incoming_loop.simps [simp del]

section \<open>A datagram\<close>

definition sizeof_packetData :: size_t where
  "sizeof_packetData = ucast ENET_PROTOCOL_MAXIMUM_MTU"

text \<open>
  The sender of a datagram: none to ignore it, otherwise the peer, \<open>None\<close> for a datagram
  without one.
\<close>

definition incoming_peer :: "u16 \<Rightarrow> u8 \<Rightarrow> ENetHost \<Rightarrow> nat option option" where
  "incoming_peer peerID sessionID h =
    (if peerID = ENET_PROTOCOL_MAXIMUM_PEER_ID then Some None
     else if unat peerID \<ge> ho_peerCount h then None
     else
       let p = peer_at h (unat peerID) in
       if pr_state p = ENET_PEER_STATE_DISCONNECTED \<or> pr_state p = ENET_PEER_STATE_ZOMBIE
          \<or> (ad_host (ho_receivedAddress h) \<noteq> ad_host (pr_address p)
               \<or> ad_port (ho_receivedAddress h) \<noteq> ad_port (pr_address p))
             \<and> ad_host (pr_address p) \<noteq> ENET_HOST_BROADCAST
          \<or> pr_outgoingPeerID p < ENET_PROTOCOL_MAXIMUM_PEER_ID \<and> sessionID \<noteq> pr_incomingSessionID p
       then None else Some (Some (unat peerID)))"

text \<open>
  Decompression: none to ignore the datagram. A datagram shorter than its header makes the
  unsigned difference of the lengths wrap.
\<close>

definition incoming_decompress :: "nat \<Rightarrow> ENetHost \<Rightarrow> ENetHost option \<times> ENetHost" where
  "incoming_decompress headerSize h =
    (case ho_compressor h of
       None \<Rightarrow> (None, h)
     | Some compressor \<Rightarrow>
        (case cp_decompress compressor of
           None \<Rightarrow> (None, h)
         | Some decompress \<Rightarrow>
             if length (ho_receivedData h) < headerSize then (None, set_ub h)
             else
               let outLimit = sizeof_packetData - word_of_nat headerSize;
                   output = decompress (drop headerSize (ho_receivedData h)) outLimit
               in if output = [] \<or> length output > unat outLimit then (None, h)
                  else (Some (h\<lparr>ho_receivedData := take headerSize (ho_receivedData h) @ output\<rparr>), h)))"

text \<open>
  The checksum, computed with the sender's connect ID in its place, which is left in the
  received data.
\<close>

definition checksum_patch :: "nat \<Rightarrow> u32 \<Rightarrow> u8 list \<Rightarrow> u8 list" where
  "checksum_patch headerSize connectID data =
     take (headerSize - 4) data @ le32 connectID @ drop headerSize data"

definition incoming_checksum :: "nat option \<Rightarrow> nat \<Rightarrow> ENetHost \<Rightarrow> bool \<times> ENetHost" where
  "incoming_checksum peer headerSize h =
    (case ho_checksum h of
       None \<Rightarrow> (True, h)
     | Some checksum \<Rightarrow>
        if length (ho_receivedData h) < headerSize then (False, set_ub h)
        else
          let desiredChecksum = rd32 (drop (headerSize - 4) (ho_receivedData h));
              connectID = (case peer of None \<Rightarrow> 0 | Some i \<Rightarrow> pr_connectID (peer_at h i));
              h = h\<lparr>ho_receivedData := checksum_patch headerSize connectID (ho_receivedData h)\<rparr>
          in (checksum [ho_receivedData h] = desiredChecksum, h))"

definition incoming_account :: "nat option \<Rightarrow> ENetHost \<Rightarrow> ENetHost" where
  "incoming_account peer h =
    (case peer of
       None \<Rightarrow> h
     | Some i \<Rightarrow> upd_peer i (\<lambda>p. p\<lparr>pr_address := ho_receivedAddress h,
         pr_incomingDataTotal := pr_incomingDataTotal p + word_of_nat (length (ho_receivedData h))\<rparr>) h)"

definition header_size :: "u16 \<Rightarrow> ENetHost \<Rightarrow> nat" where
  "header_size flags h =
    (if flags AND ENET_PROTOCOL_HEADER_FLAG_SENT_TIME \<noteq> 0 then unat sizeof_ENetProtocolHeader else 2)
    + (if ho_checksum h \<noteq> None then 4 else 0)"

definition enet_protocol_handle_incoming_commands :: "ENetEvent option \<Rightarrow> ENetHost \<Rightarrow> int \<times> ENetEvent option \<times> ENetHost" where
  "enet_protocol_handle_incoming_commands event h =
    (if length (ho_receivedData h) < 2 then (0, event, h)
     else
       let field = ENET_NET_TO_HOST_16 (rd16 (ho_receivedData h));
           sessionID = ucast (drop_bit ENET_PROTOCOL_HEADER_SESSION_SHIFT
                               (field AND ENET_PROTOCOL_HEADER_SESSION_MASK)) :: u8;
           flags = field AND ENET_PROTOCOL_HEADER_FLAG_MASK;
           peerID = field AND NOT (ENET_PROTOCOL_HEADER_FLAG_MASK OR ENET_PROTOCOL_HEADER_SESSION_MASK);
           headerSize = header_size flags h
       in case incoming_peer peerID sessionID h of
            None \<Rightarrow> (0, event, h)
          | Some peer \<Rightarrow>
             (case (if flags AND ENET_PROTOCOL_HEADER_FLAG_COMPRESSED \<noteq> 0
                    then incoming_decompress headerSize h else (Some h, h)) of
                (None, h) \<Rightarrow> (0, event, h)
              | (Some h, _) \<Rightarrow>
                 (case incoming_checksum peer headerSize h of
                    (False, h) \<Rightarrow> (0, event, h)
                  | (True, h) \<Rightarrow>
                      let h = incoming_account peer h;
                          (event, h) = incoming_loop flags (length (ho_receivedData h)) peer headerSize event h
                      in case event of
                           None \<Rightarrow> (0, event, h)
                         | Some ev \<Rightarrow> (if ev_type ev \<noteq> ENET_EVENT_TYPE_NONE then 1 else 0, event, h))))"

section \<open>Receiving\<close>

text \<open>
  One call of \<^verbatim>\<open>enet_socket_receive\<close> with the buffer of \<^verbatim>\<open>packetData [0]\<close>: a negative or zero
  length, or the sender's address and the bytes.
\<close>

definition enet_socket_receive :: "ENetHost \<Rightarrow> received \<times> ENetHost" where
  "enet_socket_receive h =
    (case env_recv h of
       [] \<Rightarrow> (RecvNone, h)
     | r # rs \<Rightarrow>
        let h = h\<lparr>env_recv := rs\<rparr> in
        (case r of
           RecvData address bs \<Rightarrow>
             if bs = [] then (RecvNone, h\<lparr>ho_receivedAddress := address\<rparr>)
             else if length bs > unat sizeof_packetData then (RecvError, h)
             else (RecvData address bs, h\<lparr>ho_receivedAddress := address\<rparr>)
         | _ \<Rightarrow> (r, h)))"

type_synonym intercept = "ENetEvent option \<Rightarrow> ENetHost \<Rightarrow> int \<times> ENetEvent option \<times> ENetHost"

definition event_pending :: "ENetEvent option \<Rightarrow> bool" where
  "event_pending event = (case event of None \<Rightarrow> False | Some ev \<Rightarrow> ev_type ev \<noteq> ENET_EVENT_TYPE_NONE)"

text \<open>The argument counts the rounds left of the 256.\<close>

fun receive_loop :: "intercept option \<Rightarrow> nat \<Rightarrow> ENetEvent option \<Rightarrow> ENetHost \<Rightarrow> int \<times> ENetEvent option \<times> ENetHost" where
  "receive_loop intercept 0 event h = (-1, event, h)"
| "receive_loop intercept (Suc n) event h =
    (case enet_socket_receive h of
       (RecvError, h) \<Rightarrow> (-1, event, h)
     | (RecvNone, h) \<Rightarrow> (0, event, h)
     | (RecvData address bs, h) \<Rightarrow>
        let h = h\<lparr>ho_receivedData := bs,
                  ho_totalReceivedData := ho_totalReceivedData h + word_of_nat (length bs),
                  ho_totalReceivedPackets := ho_totalReceivedPackets h + 1\<rparr>;
            (verdict, event, h) = (case intercept of None \<Rightarrow> (0, event, h) | Some f \<Rightarrow> f event h)
        in if verdict = 1 then
             if event_pending event then (1, event, h) else receive_loop intercept n event h
           else if verdict = -1 then (-1, event, h)
           else
             let (r, event, h) = enet_protocol_handle_incoming_commands event h
             in if r = 1 then (1, event, h)
                else if r = -1 then (-1, event, h)
                else receive_loop intercept n event h)"

definition enet_protocol_receive_incoming_commands ::
  "intercept option \<Rightarrow> ENetEvent option \<Rightarrow> ENetHost \<Rightarrow> int \<times> ENetEvent option \<times> ENetHost" where
  "enet_protocol_receive_incoming_commands intercept event h = receive_loop intercept 256 event h"

end
