(* ===== verification/ENet_Outgoing.thy ===== *)
theory ENet_Outgoing
  imports ENet_Notify
begin

text \<open>
  The sending side of \<^verbatim>\<open>protocol.c\<close>: acknowledgements, reliable and unreliable commands are
  packed into a datagram, timeouts are checked, and the datagrams of all peers are sent.
\<close>

section \<open>Room in the datagram\<close>

definition buffers_full :: "ENetHost \<Rightarrow> nat \<Rightarrow> bool" where
  "buffers_full h extra \<longleftrightarrow>
     ho_commandCount h \<ge> ENET_PROTOCOL_MAXIMUM_PACKET_COMMANDS
     \<or> ho_bufferCount h + extra \<ge> ENET_BUFFER_MAXIMUM"

text \<open>\<^verbatim>\<open>peer -> mtu - host -> packetSize\<close>, a \<^verbatim>\<open>size_t\<close>.\<close>

definition mtu_left :: "nat \<Rightarrow> ENetHost \<Rightarrow> size_t" where
  "mtu_left i h = ucast (pr_mtu (peer_at h i)) - ho_packetSize h"

definition put_command :: "ENetProtocol \<Rightarrow> size_t \<Rightarrow> ENetHost \<Rightarrow> ENetHost" where
  "put_command command commandSize h = h\<lparr>ho_buffers := ho_buffers h @ [BufferCommand command],
     ho_commandCount := Suc (ho_commandCount h), ho_packetSize := ho_packetSize h + commandSize\<rparr>"

definition put_data :: "ENetOutgoingCommand \<Rightarrow> packet_ref \<Rightarrow> ENetHost \<Rightarrow> ENetHost" where
  "put_data oc q h = h\<lparr>ho_buffers := ho_buffers h @ [BufferData q (oc_fragmentOffset oc) (oc_fragmentLength oc)],
     ho_packetSize := ho_packetSize h + ucast (oc_fragmentLength oc)\<rparr>"

section \<open>Acknowledgements\<close>

definition acknowledge_wire :: "ENetAcknowledgement \<Rightarrow> ENetProtocol" where
  "acknowledge_wire aq =
    (let reliableSequenceNumber = ENET_HOST_TO_NET_16 (hd_reliableSequenceNumber (pc_header (aq_command aq)))
     in \<lparr>pc_header = \<lparr>hd_command = ENET_PROTOCOL_COMMAND_ACKNOWLEDGE,
                      hd_channelID = hd_channelID (pc_header (aq_command aq)),
                      hd_reliableSequenceNumber = reliableSequenceNumber\<rparr>,
         pc_body = BAcknowledge \<lparr>ak_receivedReliableSequenceNumber = reliableSequenceNumber,
                                 ak_receivedSentTime = ENET_HOST_TO_NET_16 (ucast (aq_sentTime aq))\<rparr>\<rparr>)"

fun send_acknowledgements_loop :: "nat \<Rightarrow> ENetAcknowledgement list \<Rightarrow> ENetHost \<Rightarrow> ENetHost" where
  "send_acknowledgements_loop i [] h = h"
| "send_acknowledgements_loop i (aq # aqs) h =
    (if buffers_full h 0 \<or> mtu_left i h < sizeof_ENetProtocolAcknowledge
     then h\<lparr>ho_continueSending := True\<rparr>
     else
       let h = put_command (acknowledge_wire aq) sizeof_ENetProtocolAcknowledge h;
           h = (if command_number (aq_command aq) = ENET_PROTOCOL_COMMAND_DISCONNECT
                then enet_protocol_dispatch_state i ENET_PEER_STATE_ZOMBIE h else h);
           h = upd_peer i (\<lambda>p. p\<lparr>pr_acknowledgements := aqs\<rparr>) h
       in send_acknowledgements_loop i aqs h)"

definition enet_protocol_send_acknowledgements :: "nat \<Rightarrow> ENetHost \<Rightarrow> ENetHost" where
  "enet_protocol_send_acknowledgements i h =
     send_acknowledgements_loop i (pr_acknowledgements (peer_at h i)) h"

section \<open>Unreliable commands\<close>

definition same_sequence :: "u16 \<Rightarrow> u16 \<Rightarrow> ENetOutgoingCommand \<Rightarrow> bool" where
  "same_sequence reliable unreliable oc \<longleftrightarrow>
     oc_reliableSequenceNumber oc = reliable \<and> oc_unreliableSequenceNumber oc = unreliable"

text \<open>A command dropped by the throttle; without a packet the code follows \<^verbatim>\<open>NULL\<close>.\<close>

definition throttle_release :: "ENetOutgoingCommand \<Rightarrow> ENetHost \<Rightarrow> ENetHost" where
  "throttle_release oc h = (case oc_packet oc of None \<Rightarrow> set_ub h | Some q \<Rightarrow> packet_release 0 q h)"

definition throttle_count :: "ENetPeer \<Rightarrow> ENetPeer" where
  "throttle_count p = p\<lparr>pr_packetThrottleCounter :=
     (pr_packetThrottleCounter p + ENET_PEER_PACKET_THROTTLE_COUNTER) mod ENET_PEER_PACKET_THROTTLE_SCALE\<rparr>"

definition unreliable_no_room :: "nat \<Rightarrow> ENetOutgoingCommand \<Rightarrow> ENetHost \<Rightarrow> bool" where
  "unreliable_no_room i oc h \<longleftrightarrow>
    (let commandSize = enet_protocol_command_size (command_of (oc_command oc)) in
     buffers_full h 1 \<or> mtu_left i h < commandSize
     \<or> oc_packet oc \<noteq> None \<and> mtu_left i h < commandSize + ucast (oc_fragmentLength oc))"

text \<open>The inner loop drops the command and those behind it with the same sequence numbers.\<close>

definition dropped_with :: "ENetOutgoingCommand \<Rightarrow> ENetOutgoingCommand \<Rightarrow> bool" where
  "dropped_with oc = same_sequence (oc_reliableSequenceNumber oc) (oc_unreliableSequenceNumber oc)"

definition drop_unreliable :: "nat \<Rightarrow> ENetOutgoingCommand \<Rightarrow> ENetOutgoingCommand list \<Rightarrow> ENetHost \<Rightarrow> ENetHost" where
  "drop_unreliable i oc ocs h =
     upd_peer i (\<lambda>p. p\<lparr>pr_outgoingUnreliableCommands := dropWhile (dropped_with oc) ocs\<rparr>)
       (fold throttle_release (oc # takeWhile (dropped_with oc) ocs) h)"

definition send_unreliable_command :: "nat \<Rightarrow> ENetOutgoingCommand \<Rightarrow> ENetOutgoingCommand list \<Rightarrow> ENetHost \<Rightarrow> ENetHost" where
  "send_unreliable_command i oc ocs h =
    (let h = put_command (oc_command oc) (enet_protocol_command_size (command_of (oc_command oc))) h;
         h = upd_peer i (\<lambda>p. p\<lparr>pr_outgoingUnreliableCommands := ocs\<rparr>) h
     in case oc_packet oc of
          None \<Rightarrow> h
        | Some q \<Rightarrow> upd_peer i (\<lambda>p. p\<lparr>pr_sentUnreliableCommands :=
                      pr_sentUnreliableCommands p @ [oc]\<rparr>) (put_data oc q h))"

text \<open>
  Every command that the loop passes leaves the queue, so the queue is what is left to do. The
  throttle counts the packets, at their first fragment, and drops some.
\<close>

function send_unreliable_loop :: "nat \<Rightarrow> ENetOutgoingCommand list \<Rightarrow> ENetHost \<Rightarrow> ENetHost" where
  "send_unreliable_loop i [] h = h"
| "send_unreliable_loop i (oc # ocs) h =
    (if unreliable_no_room i oc h then h\<lparr>ho_continueSending := True\<rparr>
     else if oc_packet oc \<noteq> None \<and> oc_fragmentOffset oc = 0 then
       let h = upd_peer i throttle_count h in
       if pr_packetThrottleCounter (peer_at h i) > pr_packetThrottle (peer_at h i)
       then send_unreliable_loop i (dropWhile (dropped_with oc) ocs) (drop_unreliable i oc ocs h)
       else send_unreliable_loop i ocs (send_unreliable_command i oc ocs h)
     else send_unreliable_loop i ocs (send_unreliable_command i oc ocs h))"
  by pat_completeness auto
termination
  by (relation "measure (\<lambda>(_, ocs, _). length ocs)") (auto simp: le_imp_less_Suc length_dropWhile_le)

declare send_unreliable_loop.simps(2) [simp del]

definition enet_protocol_send_unreliable_outgoing_commands :: "nat \<Rightarrow> ENetHost \<Rightarrow> ENetHost" where
  "enet_protocol_send_unreliable_outgoing_commands i h =
    (let h = send_unreliable_loop i (pr_outgoingUnreliableCommands (peer_at h i)) h;
         p = peer_at h i
     in if pr_state p = ENET_PEER_STATE_DISCONNECT_LATER \<and> outgoing_empty p
           \<and> pr_sentUnreliableCommands p = []
        then enet_peer_disconnect_connected i (pr_eventData p) h
        else h)"

section \<open>Timeouts\<close>

definition timeout_due :: "u32 \<Rightarrow> ENetPeer \<Rightarrow> ENetOutgoingCommand \<Rightarrow> bool" where
  "timeout_due serviceTime p oc \<longleftrightarrow>
     pr_earliestTimeout p \<noteq> 0
     \<and> (ENET_TIME_DIFFERENCE serviceTime (pr_earliestTimeout p) \<ge> pr_timeoutMaximum p
        \<or> oc_roundTripTimeout oc \<ge> oc_roundTripTimeoutLimit oc
          \<and> ENET_TIME_DIFFERENCE serviceTime (pr_earliestTimeout p) \<ge> pr_timeoutMinimum p)"

text \<open>
  \<open>kept\<close> are the sent commands passed over, \<open>moved\<close> how many have been put back before the
  commands that waited in \<^verbatim>\<open>outgoingReliableCommands\<close> at the start.
\<close>

fun check_timeouts_loop ::
  "nat \<Rightarrow> ENetOutgoingCommand list \<Rightarrow> nat \<Rightarrow> ENetOutgoingCommand list \<Rightarrow> ENetEvent option \<Rightarrow> ENetHost
    \<Rightarrow> int \<times> ENetEvent option \<times> ENetHost" where
  "check_timeouts_loop i kept moved [] event h = (0, event, h)"
| "check_timeouts_loop i kept moved (oc # ocs) event h =
    (if ENET_TIME_DIFFERENCE (ho_serviceTime h) (oc_sentTime oc) < oc_roundTripTimeout oc
     then check_timeouts_loop i (kept @ [oc]) moved ocs event h
     else
       let h = (if pr_earliestTimeout (peer_at h i) = 0
                   \<or> ENET_TIME_LESS (oc_sentTime oc) (pr_earliestTimeout (peer_at h i))
                then upd_peer i (\<lambda>p. p\<lparr>pr_earliestTimeout := oc_sentTime oc\<rparr>) h else h)
       in if timeout_due (ho_serviceTime h) (peer_at h i) oc
          then let (event, h) = enet_protocol_notify_disconnect i event h in (1, event, h)
          else
            let h = upd_peer i (\<lambda>p. p\<lparr>
                  pr_reliableDataInTransit :=
                    (if oc_packet oc \<noteq> None then pr_reliableDataInTransit p - ucast (oc_fragmentLength oc)
                     else pr_reliableDataInTransit p),
                  pr_packetsLost := pr_packetsLost p + 1,
                  pr_sentReliableCommands := kept @ ocs,
                  pr_outgoingReliableCommands := insert_at moved
                    (oc\<lparr>oc_roundTripTimeout := oc_roundTripTimeout oc * 2\<rparr>) (pr_outgoingReliableCommands p)\<rparr>) h;
                h = (case ocs of
                       [] \<Rightarrow> h
                     | next # _ \<Rightarrow>
                         if kept = [] then upd_peer i (\<lambda>p. p\<lparr>pr_nextTimeout :=
                              oc_sentTime next + oc_roundTripTimeout next\<rparr>) h
                         else h)
            in check_timeouts_loop i kept (Suc moved) ocs event h)"

definition enet_protocol_check_timeouts :: "nat \<Rightarrow> ENetEvent option \<Rightarrow> ENetHost \<Rightarrow> int \<times> ENetEvent option \<times> ENetHost" where
  "enet_protocol_check_timeouts i event h =
     check_timeouts_loop i [] 0 (pr_sentReliableCommands (peer_at h i)) event h"

section \<open>Reliable commands\<close>

text \<open>
  Whether a new window may be entered: the window before is full, or one of the eight windows
  from this one on is still in use. The shifts are of \<^verbatim>\<open>int\<close>.
\<close>

definition window_blocked :: "ENetChannel \<Rightarrow> u16 \<Rightarrow> bool" where
  "window_blocked ch reliableWindow \<longleftrightarrow>
     (let free = push_bit (unat ENET_PEER_FREE_RELIABLE_WINDOWS) 1 - 1 :: u32;
          w = unat reliableWindow;
          n = unat ENET_PEER_RELIABLE_WINDOWS
      in ch_reliableWindows ch ! ((w + n - 1) mod n) \<ge> ENET_PEER_RELIABLE_WINDOW_SIZE
         \<or> ucast (ch_usedReliableWindows ch) AND (push_bit w free OR drop_bit (n - w) free) \<noteq> 0)"

definition window_wraps :: "ENetPeer \<Rightarrow> ENetOutgoingCommand \<Rightarrow> bool" where
  "window_wraps p oc \<longleftrightarrow>
     oc_sendAttempts oc < 1
     \<and> oc_reliableSequenceNumber oc mod ENET_PEER_RELIABLE_WINDOW_SIZE = 0
     \<and> window_blocked (channel_at p (unat (hd_channelID (pc_header (oc_command oc)))))
         (oc_reliableSequenceNumber oc div ENET_PEER_RELIABLE_WINDOW_SIZE)"

definition window_exceeds :: "ENetPeer \<Rightarrow> ENetOutgoingCommand \<Rightarrow> bool" where
  "window_exceeds p oc \<longleftrightarrow>
     (let windowSize = (pr_packetThrottle p * pr_windowSize p) div ENET_PEER_PACKET_THROTTLE_SCALE
      in pr_reliableDataInTransit p + ucast (oc_fragmentLength oc) > ENET_MAX windowSize (pr_mtu p))"

definition use_reliable_window :: "u16 \<Rightarrow> ENetChannel \<Rightarrow> ENetChannel" where
  "use_reliable_window reliableWindow ch =
    (let w = unat reliableWindow in
     ch\<lparr>ch_usedReliableWindows := ch_usedReliableWindows ch OR push_bit w 1,
        ch_reliableWindows := (ch_reliableWindows ch)[w := ch_reliableWindows ch ! w + 1]\<rparr>)"

definition reliable_no_room :: "nat \<Rightarrow> ENetOutgoingCommand \<Rightarrow> size_t \<Rightarrow> ENetHost \<Rightarrow> bool" where
  "reliable_no_room i oc commandSize h \<longleftrightarrow>
     buffers_full h 1 \<or> mtu_left i h < commandSize
     \<or> oc_packet oc \<noteq> None
       \<and> (ucast (mtu_left i h) :: u16) < ucast (commandSize + ucast (oc_fragmentLength oc))"

text \<open>The fields of the command that sending it sets.\<close>

definition sent_command :: "u32 \<Rightarrow> ENetPeer \<Rightarrow> ENetOutgoingCommand \<Rightarrow> ENetOutgoingCommand" where
  "sent_command serviceTime p oc =
    (let oc = oc\<lparr>oc_sendAttempts := oc_sendAttempts oc + 1\<rparr>;
         oc = (if oc_roundTripTimeout oc = 0 then
                 let t = pr_roundTripTime p + 4 * pr_roundTripTimeVariance p
                 in oc\<lparr>oc_roundTripTimeout := t, oc_roundTripTimeoutLimit := pr_timeoutLimit p * t\<rparr>
               else oc)
     in oc\<lparr>oc_sentTime := serviceTime\<rparr>)"

text \<open>One command goes into the datagram; \<open>skipped\<close> and \<open>ocs\<close> remain in the queue.\<close>

definition enter_window :: "nat \<Rightarrow> ENetOutgoingCommand \<Rightarrow> ENetHost \<Rightarrow> ENetHost" where
  "enter_window i oc h =
    (let channelID = hd_channelID (pc_header (oc_command oc)) in
     if ucast channelID < pr_channelCount (peer_at h i) \<and> oc_sendAttempts oc < 1
     then upd_peer i (upd_channel (unat channelID) (use_reliable_window
            (oc_reliableSequenceNumber oc div ENET_PEER_RELIABLE_WINDOW_SIZE))) h
     else h)"

definition requeue_sent :: "nat \<Rightarrow> ENetOutgoingCommand list \<Rightarrow> ENetOutgoingCommand \<Rightarrow> ENetHost \<Rightarrow> ENetHost" where
  "requeue_sent i remaining oc h =
    upd_peer i (\<lambda>p. p\<lparr>
      pr_nextTimeout := (if pr_sentReliableCommands p = [] then ho_serviceTime h + oc_roundTripTimeout oc
                         else pr_nextTimeout p),
      pr_outgoingReliableCommands := remaining,
      pr_sentReliableCommands := pr_sentReliableCommands p @ [oc]\<rparr>) h"

definition put_reliable :: "nat \<Rightarrow> ENetOutgoingCommand \<Rightarrow> ENetHost \<Rightarrow> ENetHost" where
  "put_reliable i oc h =
    (let h = put_command (oc_command oc) (enet_protocol_command_size (command_of (oc_command oc))) h;
         h = h\<lparr>ho_headerFlags := ho_headerFlags h OR ENET_PROTOCOL_HEADER_FLAG_SENT_TIME\<rparr>
     in case oc_packet oc of
          None \<Rightarrow> h
        | Some q \<Rightarrow> upd_peer i (\<lambda>p. p\<lparr>pr_reliableDataInTransit :=
                      pr_reliableDataInTransit p + ucast (oc_fragmentLength oc)\<rparr>) (put_data oc q h))"

definition send_reliable_command ::
  "nat \<Rightarrow> ENetOutgoingCommand list \<Rightarrow> ENetOutgoingCommand \<Rightarrow> ENetOutgoingCommand list \<Rightarrow> ENetHost \<Rightarrow> ENetHost" where
  "send_reliable_command i skipped oc ocs h =
    (let sent = sent_command (ho_serviceTime h) (peer_at h i) oc;
         h = enter_window i oc h;
         h = requeue_sent i (skipped @ ocs) sent h;
         h = put_reliable i sent h
     in upd_peer i (\<lambda>p. p\<lparr>pr_packetsSent := pr_packetsSent p + 1\<rparr>) h)"

fun send_reliable_loop ::
  "nat \<Rightarrow> ENetOutgoingCommand list \<Rightarrow> ENetOutgoingCommand list \<Rightarrow> bool \<Rightarrow> bool \<Rightarrow> bool \<Rightarrow> ENetHost \<Rightarrow> bool \<times> ENetHost" where
  "send_reliable_loop i skipped [] windowExceeded windowWrap canPing h = (canPing, h)"
| "send_reliable_loop i skipped (oc # ocs) windowExceeded windowWrap canPing h =
    (let p = peer_at h i;
         hasChannel = (ucast (hd_channelID (pc_header (oc_command oc))) < pr_channelCount p);
         windowWrap = (windowWrap \<or> hasChannel \<and> window_wraps p oc)
     in if hasChannel \<and> windowWrap
        then send_reliable_loop i (skipped @ [oc]) ocs windowExceeded windowWrap canPing h
        else
          let windowExceeded = (windowExceeded \<or> oc_packet oc \<noteq> None \<and> window_exceeds p oc)
          in if oc_packet oc \<noteq> None \<and> windowExceeded
             then send_reliable_loop i (skipped @ [oc]) ocs windowExceeded windowWrap canPing h
             else if reliable_no_room i oc (enet_protocol_command_size (command_of (oc_command oc))) h
             then (False, h\<lparr>ho_continueSending := True\<rparr>)
             else send_reliable_loop i skipped ocs windowExceeded windowWrap False
                    (send_reliable_command i skipped oc ocs h))"

text \<open>The result is \<^verbatim>\<open>canPing\<close>.\<close>

definition enet_protocol_send_reliable_outgoing_commands :: "nat \<Rightarrow> ENetHost \<Rightarrow> bool \<times> ENetHost" where
  "enet_protocol_send_reliable_outgoing_commands i h =
     send_reliable_loop i [] (pr_outgoingReliableCommands (peer_at h i)) False False True h"

section \<open>The datagram\<close>

text \<open>The packet loss statistics of a peer that has commands to send.\<close>

definition packet_loss_update :: "u32 \<Rightarrow> ENetPeer \<Rightarrow> ENetPeer" where
  "packet_loss_update serviceTime p =
    (if pr_packetLossEpoch p = 0 then p\<lparr>pr_packetLossEpoch := serviceTime\<rparr>
     else if ENET_TIME_DIFFERENCE serviceTime (pr_packetLossEpoch p) \<ge> ENET_PEER_PACKET_LOSS_INTERVAL
             \<and> pr_packetsSent p > 0
     then
       let packetLoss = pr_packetsLost p * ENET_PEER_PACKET_LOSS_SCALE div pr_packetsSent p;
           p = p\<lparr>pr_packetLossVariance := pr_packetLossVariance p - pr_packetLossVariance p div 4\<rparr>;
           p = (if packetLoss \<ge> pr_packetLoss p then
                  let p = p\<lparr>pr_packetLoss := pr_packetLoss p + (packetLoss - pr_packetLoss p) div 8\<rparr>
                  in p\<lparr>pr_packetLossVariance := pr_packetLossVariance p + (packetLoss - pr_packetLoss p) div 4\<rparr>
                else
                  let p = p\<lparr>pr_packetLoss := pr_packetLoss p - (pr_packetLoss p - packetLoss) div 8\<rparr>
                  in p\<lparr>pr_packetLossVariance := pr_packetLossVariance p + (pr_packetLoss p - packetLoss) div 4\<rparr>)
       in p\<lparr>pr_packetLossEpoch := serviceTime, pr_packetsSent := 0, pr_packetsLost := 0\<rparr>
     else p)"

text \<open>The bytes of the gather array after the header; none when a slice is not in memory.\<close>

fun buffer_bytes :: "ENetHost \<Rightarrow> ENetBuffer \<Rightarrow> u8 list option" where
  "buffer_bytes h (BufferCommand c) = Some (ENetProtocol_bytes c)"
| "buffer_bytes h (BufferData q off len) =
    (case env_packets h q of
       None \<Rightarrow> None
     | Some pk \<Rightarrow>
        let data = (case pk_data pk of None \<Rightarrow> [] | Some d \<Rightarrow> d)
        in if unat off + unat len \<le> length data then Some (take (unat len) (drop (unat off) data)) else None)"

definition gather_bytes :: "ENetHost \<Rightarrow> u8 list list" where
  "gather_bytes h = map (\<lambda>b. case buffer_bytes h b of None \<Rightarrow> [] | Some bs \<Rightarrow> bs) (ho_buffers h)"

definition gather_ub :: "ENetHost \<Rightarrow> bool" where
  "gather_ub h \<longleftrightarrow> (\<exists>b \<in> set (ho_buffers h). buffer_bytes h b = None)"

text \<open>Compression of the commands: the flags and what is sent in their place, if shorter.\<close>

definition compress_commands :: "ENetHost \<Rightarrow> u16 \<times> u8 list option" where
  "compress_commands h =
    (case ho_compressor h of
       None \<Rightarrow> (ho_headerFlags h, None)
     | Some compressor \<Rightarrow>
        (case cp_compress compressor of
           None \<Rightarrow> (ho_headerFlags h, None)
         | Some compress \<Rightarrow>
            let originalSize = ho_packetSize h - sizeof_ENetProtocolHeader;
                output = compress (gather_bytes h) originalSize originalSize
            in if output \<noteq> [] \<and> length output < unat originalSize
               then (ho_headerFlags h OR ENET_PROTOCOL_HEADER_FLAG_COMPRESSED, Some output)
               else (ho_headerFlags h, None)))"

definition session_flags :: "ENetPeer \<Rightarrow> u16 \<Rightarrow> u16" where
  "session_flags p flags =
    (if pr_outgoingPeerID p < ENET_PROTOCOL_MAXIMUM_PEER_ID
     then flags OR push_bit ENET_PROTOCOL_HEADER_SESSION_SHIFT (ucast (pr_outgoingSessionID p)) else flags)"

text \<open>
  The header: \<open>prefix\<close> holds the integrity words of the Ubisoft header, and is empty otherwise;
  the sent time is there when a reliable command is.
\<close>

definition datagram_header :: "u8 list \<Rightarrow> ENetHost \<Rightarrow> ENetPeer \<Rightarrow> u16 \<Rightarrow> u8 list" where
  "datagram_header prefix h p flags =
     prefix @ le16 (ENET_HOST_TO_NET_16 (pr_outgoingPeerID p OR flags))
     @ (if ho_headerFlags h AND ENET_PROTOCOL_HEADER_FLAG_SENT_TIME \<noteq> 0
        then le16 (ENET_HOST_TO_NET_16 (ucast (ho_serviceTime h AND 0xFFFF))) else [])"

definition datagram_checksum :: "ENetHost \<Rightarrow> ENetPeer \<Rightarrow> u8 list \<Rightarrow> u8 list" where
  "datagram_checksum h p header =
    (case ho_checksum h of
       None \<Rightarrow> header
     | Some checksum \<Rightarrow>
        let seed = (if pr_outgoingPeerID p < ENET_PROTOCOL_MAXIMUM_PEER_ID then pr_connectID p else 0)
        in header @ le32 (checksum ((header @ le32 seed) # gather_bytes h)))"

definition datagram_bytes :: "u8 list \<Rightarrow> nat \<Rightarrow> ENetHost \<Rightarrow> u16 \<times> u8 list" where
  "datagram_bytes prefix i h =
    (let p = peer_at h i;
         (flags, compressed) = compress_commands h;
         flags = session_flags p flags;
         header = datagram_checksum h p (datagram_header prefix h p flags)
     in (flags, header @ (case compressed of Some output \<Rightarrow> output | None \<Rightarrow> concat (gather_bytes h))))"

text \<open>\<^verbatim>\<open>enet_socket_send\<close>: the length sent, or a negative result.\<close>

definition enet_socket_send :: "ENetAddress \<Rightarrow> u8 list \<Rightarrow> ENetHost \<Rightarrow> int \<times> ENetHost" where
  "enet_socket_send address bytes h =
    (let h = h\<lparr>env_sent := env_sent h @ [(address, bytes)]\<rparr> in
     case env_sendResults h of
       [] \<Rightarrow> (int (length bytes), h)
     | r # rs \<Rightarrow> (r, h\<lparr>env_sendResults := rs\<rparr>))"

definition send_datagram :: "u8 list \<Rightarrow> nat \<Rightarrow> ENetHost \<Rightarrow> int \<times> ENetHost" where
  "send_datagram prefix i h =
    (let h = upd_peer i (packet_loss_update (ho_serviceTime h)) h;
         h = (if gather_ub h then set_ub h else h);
         (flags, bytes) = datagram_bytes prefix i h;
         h = upd_peer i (\<lambda>p. p\<lparr>pr_lastSendTime := ho_serviceTime h\<rparr>) (h\<lparr>ho_headerFlags := flags\<rparr>);
         (sentLength, h) = enet_socket_send (pr_address (peer_at h i)) bytes h
     in (sentLength, enet_protocol_remove_sent_unreliable_commands i h))"

section \<open>All peers\<close>

text \<open>
  The body of the loop over the peers up to the datagram: none when the code goes on with the
  next peer, with the result 1 when it returns with an event.
\<close>

definition send_peer_commands :: "nat \<Rightarrow> ENetHost \<Rightarrow> ENetHost" where
  "send_peer_commands i h =
    (let (canPing, h) = (if pr_outgoingReliableCommands (peer_at h i) = [] then (True, h)
                         else enet_protocol_send_reliable_outgoing_commands i h);
         p = peer_at h i;
         h = (if canPing \<and> pr_sentReliableCommands p = []
                 \<and> ENET_TIME_DIFFERENCE (ho_serviceTime h) (pr_lastReceiveTime p) \<ge> pr_pingInterval p
                 \<and> mtu_left i h \<ge> sizeof_ENetProtocolPing
              then snd (enet_protocol_send_reliable_outgoing_commands i (enet_peer_ping i h))
              else h)
     in if pr_outgoingUnreliableCommands (peer_at h i) \<noteq> []
        then enet_protocol_send_unreliable_outgoing_commands i h else h)"

definition begin_datagram :: "size_t \<Rightarrow> ENetHost \<Rightarrow> ENetHost" where
  "begin_datagram packetSize h =
     h\<lparr>ho_headerFlags := 0, ho_commandCount := 0, ho_buffers := [], ho_packetSize := packetSize\<rparr>"

datatype peer_sent = NextPeer | ReturnWith int

definition send_peer ::
  "size_t \<Rightarrow> u8 list \<Rightarrow> bool \<Rightarrow> nat \<Rightarrow> ENetEvent option \<Rightarrow> ENetHost \<Rightarrow> peer_sent \<times> ENetEvent option \<times> ENetHost" where
  "send_peer packetSize prefix checkForTimeouts i event h =
    (if pr_state (peer_at h i) = ENET_PEER_STATE_DISCONNECTED
        \<or> pr_state (peer_at h i) = ENET_PEER_STATE_ZOMBIE
     then (NextPeer, event, h)
     else
       let h = begin_datagram packetSize h;
           h = (if pr_acknowledgements (peer_at h i) \<noteq> [] then enet_protocol_send_acknowledgements i h else h);
           (timedOut, event, h) =
             (if checkForTimeouts \<and> pr_sentReliableCommands (peer_at h i) \<noteq> []
                 \<and> ENET_TIME_GREATER_EQUAL (ho_serviceTime h) (pr_nextTimeout (peer_at h i))
              then enet_protocol_check_timeouts i event h else (0, event, h))
       in if timedOut = 1 then
            (case event of
               Some ev \<Rightarrow> (if ev_type ev \<noteq> ENET_EVENT_TYPE_NONE then ReturnWith 1 else NextPeer, event, h)
             | None \<Rightarrow> (NextPeer, event, h))
          else
            let h = send_peer_commands i h in
            if ho_commandCount h = 0 then (NextPeer, event, h)
            else
              let (sentLength, h) = send_datagram prefix i h in
              if sentLength < 0 then (ReturnWith (-1), event, h)
              else (NextPeer, event, h\<lparr>ho_totalSentData := ho_totalSentData h + word_of_int sentLength,
                                       ho_totalSentPackets := ho_totalSentPackets h + 1\<rparr>))"

fun send_peers ::
  "size_t \<Rightarrow> u8 list \<Rightarrow> bool \<Rightarrow> nat list \<Rightarrow> ENetEvent option \<Rightarrow> ENetHost \<Rightarrow> peer_sent \<times> ENetEvent option \<times> ENetHost" where
  "send_peers packetSize prefix checkForTimeouts [] event h = (NextPeer, event, h)"
| "send_peers packetSize prefix checkForTimeouts (i # is) event h =
    (case send_peer packetSize prefix checkForTimeouts i event h of
       (NextPeer, event, h) \<Rightarrow> send_peers packetSize prefix checkForTimeouts is event h
     | (ReturnWith r, event, h) \<Rightarrow> (ReturnWith r, event, h))"

text \<open>The rounds over the peers, as long as one of them has more than a datagram holds.\<close>

partial_function (option) send_rounds ::
  "size_t \<Rightarrow> u8 list \<Rightarrow> bool \<Rightarrow> ENetEvent option \<Rightarrow> ENetHost \<Rightarrow> (int \<times> ENetEvent option \<times> ENetHost) option" where
  "send_rounds packetSize prefix checkForTimeouts event h =
    (if \<not> ho_continueSending h then Some (0, event, h)
     else
       case send_peers packetSize prefix checkForTimeouts [0..<ho_peerCount h] event
              (h\<lparr>ho_continueSending := False\<rparr>) of
         (ReturnWith r, event, h) \<Rightarrow> Some (r, event, h)
       | (NextPeer, event, h) \<Rightarrow> send_rounds packetSize prefix checkForTimeouts event h)"

text \<open>\<^verbatim>\<open>rand ()\<close>, and the integrity words of the Ubisoft header that use it.\<close>

definition c_rand :: "ENetHost \<Rightarrow> u32 \<times> ENetHost" where
  "c_rand h = (case env_rand h of [] \<Rightarrow> (0, h) | r # rs \<Rightarrow> (r, h\<lparr>env_rand := rs\<rparr>))"

definition integrity_words :: "u16 \<Rightarrow> u32 \<Rightarrow> u32 \<Rightarrow> u8 list" where
  "integrity_words port r1 r2 =
    (let rand1 = ucast (r1 mod (ucast port + 1)) :: u16;
         rand2 = ucast r2 :: u16
     in le16 (ENET_HOST_TO_NET_16 rand1) @ le16 (ENET_HOST_TO_NET_16 (rand1 XOR port))
        @ le16 (ENET_NET_TO_HOST_16 ((rand2 AND 0xF7DF) OR 0x9005)))"

definition integrity_prefix :: "ENetHost \<Rightarrow> u8 list \<times> ENetHost" where
  "integrity_prefix h =
    (if \<not> ho_usingNewPacket h then ([], h)
     else if ho_peers h = [] then ([], set_ub h)
     else
       let port = ad_port (pr_address (peer_at h 0));
           (r1, h) = c_rand h;
           (r2, h) = c_rand h
       in (integrity_words port r1 r2, h))"

definition enet_protocol_send_outgoing_commands ::
  "ENetEvent option \<Rightarrow> bool \<Rightarrow> ENetHost \<Rightarrow> (int \<times> ENetEvent option \<times> ENetHost) option" where
  "enet_protocol_send_outgoing_commands event checkForTimeouts h =
    (let packetSize = (if ho_usingNewPacket h then sizeof_ENetProtocolHeaderUbisoft else sizeof_ENetProtocolHeader);
         (prefix, h) = integrity_prefix h
     in send_rounds packetSize prefix checkForTimeouts event (h\<lparr>ho_continueSending := True\<rparr>))"

definition enet_time_get :: "ENetHost \<Rightarrow> u32 \<times> ENetHost" where
  "enet_time_get h = (case env_clock h of
      [] \<Rightarrow> (env_now h, h)
    | t # ts \<Rightarrow> (t, h\<lparr>env_now := t, env_clock := ts\<rparr>))"

definition update_serviceTime :: "ENetHost \<Rightarrow> ENetHost" where
  "update_serviceTime h = (let (t, h) = enet_time_get h in h\<lparr>ho_serviceTime := t\<rparr>)"

definition enet_host_flush :: "ENetHost \<Rightarrow> ENetHost option" where
  "enet_host_flush h =
     map_option (\<lambda>(_, _, h). h) (enet_protocol_send_outgoing_commands None False (update_serviceTime h))"

end
