(* ===== verification/ENet_Host.thy ===== *)
theory ENet_Host
  imports ENet_Incoming ENet_Outgoing
begin

text \<open>
  The host, from \<^verbatim>\<open>host.c\<close>: creation and destruction, connecting, broadcasting, limits and the
  bandwidth throttle; and the functions at the end of \<^verbatim>\<open>protocol.c\<close> that drive a host.
\<close>

section \<open>Creation and destruction\<close>

text \<open>
  What the operating system contributes to a new host: the socket (none for
  \<^verbatim>\<open>ENET_SOCKET_NULL\<close>), whether it could be bound, the address it got, and the random seed with
  the host's address added.
\<close>

record host_resources =
  hr_socket :: "nat option"
  hr_bound :: bool
  hr_address :: "ENetAddress option"
  hr_seed :: u32

definition zero_address :: ENetAddress where
  "zero_address = \<lparr>ad_host = 0, ad_port = 0\<rparr>"

definition zero_peer :: ENetPeer where
  "zero_peer = \<lparr>pr_outgoingPeerID = 0, pr_incomingPeerID = 0, pr_connectID = 0,
     pr_outgoingSessionID = 0, pr_incomingSessionID = 0, pr_address = zero_address, pr_data = 0,
     pr_state = ENET_PEER_STATE_DISCONNECTED, pr_channels = [], pr_channelCount = 0,
     pr_incomingBandwidth = 0, pr_outgoingBandwidth = 0, pr_incomingBandwidthThrottleEpoch = 0,
     pr_outgoingBandwidthThrottleEpoch = 0, pr_incomingDataTotal = 0, pr_outgoingDataTotal = 0,
     pr_lastSendTime = 0, pr_lastReceiveTime = 0, pr_nextTimeout = 0, pr_earliestTimeout = 0,
     pr_packetLossEpoch = 0, pr_packetsSent = 0, pr_packetsLost = 0, pr_packetLoss = 0,
     pr_packetLossVariance = 0, pr_packetThrottle = 0, pr_packetThrottleLimit = 0,
     pr_packetThrottleCounter = 0, pr_packetThrottleEpoch = 0, pr_packetThrottleAcceleration = 0,
     pr_packetThrottleDeceleration = 0, pr_packetThrottleInterval = 0, pr_pingInterval = 0,
     pr_timeoutLimit = 0, pr_timeoutMinimum = 0, pr_timeoutMaximum = 0, pr_lastRoundTripTime = 0,
     pr_lowestRoundTripTime = 0, pr_lastRoundTripTimeVariance = 0, pr_highestRoundTripTimeVariance = 0,
     pr_roundTripTime = 0, pr_roundTripTimeVariance = 0, pr_mtu = 0, pr_windowSize = 0,
     pr_reliableDataInTransit = 0, pr_outgoingReliableSequenceNumber = 0, pr_acknowledgements = [],
     pr_sentReliableCommands = [], pr_sentUnreliableCommands = [], pr_outgoingReliableCommands = [],
     pr_outgoingUnreliableCommands = [], pr_dispatchedCommands = [], pr_needsDispatch = False,
     pr_incomingUnsequencedGroup = 0, pr_outgoingUnsequencedGroup = 0,
     pr_unsequencedWindow = replicate (unat (ENET_PEER_UNSEQUENCED_WINDOW_SIZE div 32)) 0,
     pr_eventData = 0, pr_totalWaitingData = 0\<rparr>"

definition zero_host :: "enet_env \<Rightarrow> ENetHost" where
  "zero_host e = \<lparr>env_packets = env_packets e, env_nextAddr = env_nextAddr e, env_allocs = env_allocs e,
     env_noMemory = env_noMemory e, env_junk = env_junk e, env_callbackLog = env_callbackLog e,
     env_destroyed = env_destroyed e, env_ub = env_ub e, env_now = env_now e, env_clock = env_clock e,
     env_recv = env_recv e, env_sendResults = env_sendResults e, env_sent = env_sent e,
     env_waits = env_waits e, env_rand = env_rand e,
     ho_socket = 0, ho_address = zero_address, ho_incomingBandwidth = 0, ho_outgoingBandwidth = 0,
     ho_bandwidthThrottleEpoch = 0, ho_mtu = 0, ho_randomSeed = 0, ho_recalculateBandwidthLimits = False,
     ho_peers = [], ho_channelLimit = 0, ho_serviceTime = 0, ho_dispatchQueue = [],
     ho_continueSending = False, ho_packetSize = 0, ho_headerFlags = 0, ho_commandCount = 0,
     ho_buffers = [], ho_checksum = None, ho_compressor = None, ho_receivedAddress = zero_address,
     ho_receivedData = [], ho_totalSentData = 0, ho_totalSentPackets = 0, ho_totalReceivedData = 0,
     ho_totalReceivedPackets = 0, ho_connectedPeers = 0, ho_bandwidthLimitedPeers = 0,
     ho_duplicatePeers = 0, ho_maximumPacketSize = 0, ho_maximumWaitingData = 0,
     ho_usingNewPacket = False\<rparr>"

definition channel_limit_of :: "size_t \<Rightarrow> size_t" where
  "channel_limit_of channelLimit =
    (if channelLimit = 0 \<or> channelLimit > ENET_PROTOCOL_MAXIMUM_CHANNEL_COUNT
     then ENET_PROTOCOL_MAXIMUM_CHANNEL_COUNT
     else if channelLimit < ENET_PROTOCOL_MINIMUM_CHANNEL_COUNT then ENET_PROTOCOL_MINIMUM_CHANNEL_COUNT
     else channelLimit)"

definition create_peer :: "nat \<Rightarrow> ENetHost \<Rightarrow> ENetHost" where
  "create_peer i h = enet_peer_reset i (upd_peer i (\<lambda>p. p\<lparr>pr_incomingPeerID := word_of_nat i,
      pr_outgoingSessionID := 0xFF, pr_incomingSessionID := 0xFF, pr_data := 0\<rparr>) h)"

definition enet_host_create ::
  "host_resources \<Rightarrow> ENetAddress option \<Rightarrow> size_t \<Rightarrow> size_t \<Rightarrow> u32 \<Rightarrow> u32 \<Rightarrow> enet_env \<Rightarrow> ENetHost option \<times> enet_env" where
  "enet_host_create resources address peerCount channelLimit incomingBandwidth outgoingBandwidth e =
    (if peerCount > ucast ENET_PROTOCOL_MAXIMUM_PEER_ID then (None, e)
     else
       let (ok, e) = enet_malloc e in
       if \<not> ok then (None, e)
       else
         let (ok, e) = enet_malloc e in
         if \<not> ok then (None, e)
         else case hr_socket resources of
           None \<Rightarrow> (None, e)
         | Some socket \<Rightarrow>
             if address \<noteq> None \<and> \<not> hr_bound resources then (None, e)
             else
               let seed = hr_seed resources;
                   h = (zero_host e)\<lparr>
                     ho_socket := socket,
                     ho_peers := replicate (unat peerCount) zero_peer,
                     ho_address := (case address of
                         None \<Rightarrow> zero_address
                       | Some a \<Rightarrow> (case hr_address resources of Some b \<Rightarrow> b | None \<Rightarrow> a)),
                     ho_randomSeed := push_bit 16 seed OR drop_bit 16 seed,
                     ho_channelLimit := channel_limit_of channelLimit,
                     ho_incomingBandwidth := incomingBandwidth,
                     ho_outgoingBandwidth := outgoingBandwidth,
                     ho_mtu := ENET_HOST_DEFAULT_MTU,
                     ho_receivedAddress := \<lparr>ad_host = ENET_HOST_ANY, ad_port = 0\<rparr>,
                     ho_duplicatePeers := ucast ENET_PROTOCOL_MAXIMUM_PEER_ID,
                     ho_maximumPacketSize := ENET_HOST_DEFAULT_MAXIMUM_PACKET_SIZE,
                     ho_maximumWaitingData := ENET_HOST_DEFAULT_MAXIMUM_WAITING_DATA\<rparr>
               in (Some (fold create_peer [0..<unat peerCount] h), e))"

definition compressor_destroy :: "ENetHost \<Rightarrow> ENetHost" where
  "compressor_destroy h = (case ho_compressor h of
      None \<Rightarrow> h
    | Some c \<Rightarrow> (case cp_destroy c of None \<Rightarrow> h
                  | Some d \<Rightarrow> h\<lparr>env_destroyed := env_destroyed h @ [d]\<rparr>))"

text \<open>The host itself is freed: what is left of the result is the environment.\<close>

definition enet_host_destroy :: "ENetHost option \<Rightarrow> ENetHost option" where
  "enet_host_destroy host =
     map_option (\<lambda>h. compressor_destroy (fold enet_peer_reset [0..<ho_peerCount h] h)) host"

definition enet_host_compress :: "ENetCompressor option \<Rightarrow> ENetHost \<Rightarrow> ENetHost" where
  "enet_host_compress compressor h = (compressor_destroy h)\<lparr>ho_compressor := compressor\<rparr>"

definition enet_host_channel_limit :: "size_t \<Rightarrow> ENetHost \<Rightarrow> ENetHost" where
  "enet_host_channel_limit channelLimit h = h\<lparr>ho_channelLimit := channel_limit_of channelLimit\<rparr>"

definition enet_host_bandwidth_limit :: "u32 \<Rightarrow> u32 \<Rightarrow> ENetHost \<Rightarrow> ENetHost" where
  "enet_host_bandwidth_limit incomingBandwidth outgoingBandwidth h =
     h\<lparr>ho_incomingBandwidth := incomingBandwidth, ho_outgoingBandwidth := outgoingBandwidth,
       ho_recalculateBandwidthLimits := True\<rparr>"

section \<open>Connecting and broadcasting\<close>

fun first_disconnected :: "ENetPeer list \<Rightarrow> nat option" where
  "first_disconnected [] = None"
| "first_disconnected (p # ps) =
    (if pr_state p = ENET_PEER_STATE_DISCONNECTED then Some 0 else map_option Suc (first_disconnected ps))"

definition host_connect_peer :: "ENetHost \<Rightarrow> ENetAddress \<Rightarrow> size_t \<Rightarrow> ENetPeer \<Rightarrow> ENetPeer" where
  "host_connect_peer h address channelCount p = p\<lparr>
     pr_channels := replicate (unat channelCount) fresh_channel,
     pr_channelCount := channelCount,
     pr_state := ENET_PEER_STATE_CONNECTING,
     pr_address := address,
     pr_connectID := ho_randomSeed h,
     pr_windowSize := clamp_windowSize
       (if ho_outgoingBandwidth h = 0 then ENET_PROTOCOL_MAXIMUM_WINDOW_SIZE
        else (ho_outgoingBandwidth h div ENET_PEER_WINDOW_SIZE_SCALE) * ENET_PROTOCOL_MINIMUM_WINDOW_SIZE)\<rparr>"

definition connect_command :: "ENetHost \<Rightarrow> ENetPeer \<Rightarrow> size_t \<Rightarrow> u32 \<Rightarrow> ENetProtocol" where
  "connect_command h p channelCount data =
     peer_command (ENET_PROTOCOL_COMMAND_CONNECT OR ENET_PROTOCOL_COMMAND_FLAG_ACKNOWLEDGE)
       (BConnect \<lparr>
         cn_outgoingPeerID = ENET_HOST_TO_NET_16 (pr_incomingPeerID p),
         cn_incomingSessionID = pr_incomingSessionID p,
         cn_outgoingSessionID = pr_outgoingSessionID p,
         cn_mtu = ENET_HOST_TO_NET_32 (pr_mtu p),
         cn_windowSize = ENET_HOST_TO_NET_32 (pr_windowSize p),
         cn_channelCount = ENET_HOST_TO_NET_32 (ucast channelCount),
         cn_incomingBandwidth = ENET_HOST_TO_NET_32 (ho_incomingBandwidth h),
         cn_outgoingBandwidth = ENET_HOST_TO_NET_32 (ho_outgoingBandwidth h),
         cn_packetThrottleInterval = ENET_HOST_TO_NET_32 (pr_packetThrottleInterval p),
         cn_packetThrottleAcceleration = ENET_HOST_TO_NET_32 (pr_packetThrottleAcceleration p),
         cn_packetThrottleDeceleration = ENET_HOST_TO_NET_32 (pr_packetThrottleDeceleration p),
         cn_connectID = pr_connectID p,
         cn_data = ENET_HOST_TO_NET_32 data\<rparr>)"

definition enet_host_connect :: "ENetAddress \<Rightarrow> size_t \<Rightarrow> u32 \<Rightarrow> ENetHost \<Rightarrow> nat option \<times> ENetHost" where
  "enet_host_connect address channelCount data h =
    (let channelCount =
      (if channelCount < ENET_PROTOCOL_MINIMUM_CHANNEL_COUNT then ENET_PROTOCOL_MINIMUM_CHANNEL_COUNT
       else if channelCount > ENET_PROTOCOL_MAXIMUM_CHANNEL_COUNT then ENET_PROTOCOL_MAXIMUM_CHANNEL_COUNT
       else channelCount)
     in case first_disconnected (ho_peers h) of
          None \<Rightarrow> (None, h)
        | Some i \<Rightarrow>
           let (ok, h) = enet_malloc h in
           if \<not> ok then (None, upd_peer i (\<lambda>p. p\<lparr>pr_channels := []\<rparr>) h)
           else
             let h = h\<lparr>ho_randomSeed := ho_randomSeed h + 1\<rparr>;
                 h = upd_peer i (host_connect_peer h address channelCount) h;
                 command = connect_command h (peer_at h i) channelCount data
             in (Some i, snd (enet_peer_queue_outgoing_command i command None 0 0 h)))"

text \<open>A send that does not return keeps the broadcast from returning.\<close>

fun broadcast_loop :: "u8 \<Rightarrow> packet_ref \<Rightarrow> nat list \<Rightarrow> ENetHost \<Rightarrow> ENetHost option" where
  "broadcast_loop channelID packet [] h = Some h"
| "broadcast_loop channelID packet (i # is) h =
    (if pr_state (peer_at h i) \<noteq> ENET_PEER_STATE_CONNECTED then broadcast_loop channelID packet is h
     else case enet_peer_send i channelID packet h of
       None \<Rightarrow> None
     | Some (_, h) \<Rightarrow> broadcast_loop channelID packet is h)"

definition enet_host_broadcast :: "u8 \<Rightarrow> packet_ref \<Rightarrow> ENetHost \<Rightarrow> ENetHost option" where
  "enet_host_broadcast channelID packet h =
    (case broadcast_loop channelID packet [0..<ho_peerCount h] h of
       None \<Rightarrow> None
     | Some h \<Rightarrow>
        Some (case env_packets h packet of
                None \<Rightarrow> set_ub h
              | Some pk \<Rightarrow> if pk_referenceCount pk = 0 then enet_packet_destroy (Some packet) h else h))"

section \<open>The bandwidth throttle\<close>

text \<open>The variables that a pass over the peers changes.\<close>

record throttle_scan =
  ts_needsAdjustment :: bool
  ts_peersRemaining :: u32
  ts_bandwidth :: u32
  ts_dataTotal :: u32

definition throttle_of :: "throttle_scan \<Rightarrow> u32" where
  "throttle_of ts =
    (if ts_dataTotal ts \<le> ts_bandwidth ts then ENET_PEER_PACKET_THROTTLE_SCALE
     else (ts_bandwidth ts * ENET_PEER_PACKET_THROTTLE_SCALE) div ts_dataTotal ts)"

text \<open>The part of \<^verbatim>\<open>outgoingBandwidth\<close> that a peer gets: its own limit is below its share.\<close>

definition throttle_peer :: "u32 \<Rightarrow> u32 \<Rightarrow> ENetPeer \<Rightarrow> ENetPeer" where
  "throttle_peer timeCurrent peerBandwidth p =
    (let limit = (peerBandwidth * ENET_PEER_PACKET_THROTTLE_SCALE) div pr_outgoingDataTotal p;
         limit = (if limit = 0 then 1 else limit)
     in p\<lparr>pr_packetThrottleLimit := limit,
          pr_packetThrottle := (if pr_packetThrottle p > limit then limit else pr_packetThrottle p),
          pr_outgoingBandwidthThrottleEpoch := timeCurrent,
          pr_incomingDataTotal := 0, pr_outgoingDataTotal := 0\<rparr>)"

definition throttle_skips :: "u32 \<Rightarrow> u32 \<Rightarrow> u32 \<Rightarrow> ENetPeer \<Rightarrow> bool" where
  "throttle_skips timeCurrent elapsedTime throttle p \<longleftrightarrow>
     \<not> peer_is_connected p \<or> pr_incomingBandwidth p = 0
     \<or> pr_outgoingBandwidthThrottleEpoch p = timeCurrent
     \<or> (throttle * pr_outgoingDataTotal p) div ENET_PEER_PACKET_THROTTLE_SCALE
         \<le> (pr_incomingBandwidth p * elapsedTime) div 1000"

fun throttle_pass :: "u32 \<Rightarrow> u32 \<Rightarrow> u32 \<Rightarrow> ENetPeer list \<Rightarrow> throttle_scan \<Rightarrow> ENetPeer list \<times> throttle_scan" where
  "throttle_pass timeCurrent elapsedTime throttle [] ts = ([], ts)"
| "throttle_pass timeCurrent elapsedTime throttle (p # ps) ts =
    (if throttle_skips timeCurrent elapsedTime throttle p then
       let (ps, ts) = throttle_pass timeCurrent elapsedTime throttle ps ts in (p # ps, ts)
     else
       let peerBandwidth = (pr_incomingBandwidth p * elapsedTime) div 1000;
           ts = ts\<lparr>ts_needsAdjustment := True, ts_peersRemaining := ts_peersRemaining ts - 1,
                   ts_bandwidth := ts_bandwidth ts - peerBandwidth,
                   ts_dataTotal := ts_dataTotal ts - peerBandwidth\<rparr>;
           (ps, ts) = throttle_pass timeCurrent elapsedTime throttle ps ts
       in (throttle_peer timeCurrent peerBandwidth p # ps, ts))"

definition unadjusted :: "u32 \<Rightarrow> ENetPeer list \<Rightarrow> nat" where
  "unadjusted timeCurrent ps = length (filter (\<lambda>p. pr_outgoingBandwidthThrottleEpoch p \<noteq> timeCurrent) ps)"

lemma throttle_pass_unadjusted:
  "throttle_pass t e th ps ts = (ps', ts') \<Longrightarrow>
     unadjusted t ps' \<le> unadjusted t ps
     \<and> (ts_needsAdjustment ts' \<longrightarrow> ts_needsAdjustment ts \<or> unadjusted t ps' < unadjusted t ps)"
proof (induction ps arbitrary: ts ps' ts')
  case Nil
  then show ?case by simp
next
  case (Cons p ps)
  show ?case
  proof (cases "throttle_skips t e th p")
    case True
    then obtain qs where "throttle_pass t e th ps ts = (qs, ts')" "ps' = p # qs"
      using Cons.prems by (auto split: prod.splits)
    then show ?thesis using Cons.IH [of ts qs ts'] by (auto simp: unadjusted_def)
  next
    case False
    then obtain qs q s where q: "throttle_pass t e th ps s = (qs, ts')" "ps' = q # qs"
        "pr_outgoingBandwidthThrottleEpoch q = t" "pr_outgoingBandwidthThrottleEpoch p \<noteq> t"
      using Cons.prems by (auto simp: Let_def throttle_skips_def throttle_peer_def split: prod.splits)
    then show ?thesis using Cons.IH [of s qs ts'] by (auto simp: unadjusted_def)
  qed
qed

text \<open>Each round but the last marks a peer with the current time, so the rounds end.\<close>

function throttle_rounds :: "u32 \<Rightarrow> u32 \<Rightarrow> ENetPeer list \<Rightarrow> throttle_scan \<Rightarrow> ENetPeer list \<times> throttle_scan" where
  "throttle_rounds timeCurrent elapsedTime ps ts =
    (if ts_peersRemaining ts > 0 \<and> ts_needsAdjustment ts then
       case throttle_pass timeCurrent elapsedTime (throttle_of ts) ps (ts\<lparr>ts_needsAdjustment := False\<rparr>) of
         (ps, ts) \<Rightarrow> throttle_rounds timeCurrent elapsedTime ps ts
     else (ps, ts))"
  by pat_completeness auto
termination
  by (relation "measure (\<lambda>(t, e, ps, ts). 2 * unadjusted t ps + (if ts_needsAdjustment ts then 1 else 0))")
    (auto split: prod.split dest!: throttle_pass_unadjusted)

declare throttle_rounds.simps [simp del]

text \<open>The peers that did not have to be limited get the common throttle.\<close>

definition throttle_rest :: "u32 \<Rightarrow> u32 \<Rightarrow> ENetPeer \<Rightarrow> ENetPeer" where
  "throttle_rest timeCurrent throttle p =
    (if \<not> peer_is_connected p \<or> pr_outgoingBandwidthThrottleEpoch p = timeCurrent then p
     else p\<lparr>pr_packetThrottleLimit := throttle,
            pr_packetThrottle := (if pr_packetThrottle p > throttle then throttle else pr_packetThrottle p),
            pr_incomingDataTotal := 0, pr_outgoingDataTotal := 0\<rparr>)"

definition throttle_outgoing :: "u32 \<Rightarrow> u32 \<Rightarrow> ENetHost \<Rightarrow> ENetHost" where
  "throttle_outgoing timeCurrent elapsedTime h =
    (let ts = \<lparr>ts_needsAdjustment = ho_bandwidthLimitedPeers h > 0,
               ts_peersRemaining = ucast (ho_connectedPeers h),
               ts_bandwidth = (if ho_outgoingBandwidth h \<noteq> 0
                               then (ho_outgoingBandwidth h * elapsedTime) div 1000 else 0xFFFFFFFF),
               ts_dataTotal = (if ho_outgoingBandwidth h \<noteq> 0
                               then sum_list (map pr_outgoingDataTotal (filter peer_is_connected (ho_peers h)))
                               else 0xFFFFFFFF)\<rparr>;
         (ps, ts) = throttle_rounds timeCurrent elapsedTime (ho_peers h) ts;
         ps = (if ts_peersRemaining ts > 0 then map (throttle_rest timeCurrent (throttle_of ts)) ps else ps)
     in h\<lparr>ho_peers := ps\<rparr>)"

text \<open>
  The shares of \<^verbatim>\<open>incomingBandwidth\<close>: in each round the peers that ask for less than the equal
  share are marked with the current time and their bandwidth is set aside.
\<close>

record limit_scan =
  ls_needsAdjustment :: bool
  ls_peersRemaining :: u32
  ls_bandwidth :: u32

definition limit_skips :: "u32 \<Rightarrow> u32 \<Rightarrow> ENetPeer \<Rightarrow> bool" where
  "limit_skips timeCurrent bandwidthLimit p \<longleftrightarrow>
     \<not> peer_is_connected p \<or> pr_incomingBandwidthThrottleEpoch p = timeCurrent
     \<or> pr_outgoingBandwidth p > 0 \<and> pr_outgoingBandwidth p \<ge> bandwidthLimit"

fun limit_pass :: "u32 \<Rightarrow> u32 \<Rightarrow> ENetPeer list \<Rightarrow> limit_scan \<Rightarrow> ENetPeer list \<times> limit_scan" where
  "limit_pass timeCurrent bandwidthLimit [] ls = ([], ls)"
| "limit_pass timeCurrent bandwidthLimit (p # ps) ls =
    (if limit_skips timeCurrent bandwidthLimit p then
       let (ps, ls) = limit_pass timeCurrent bandwidthLimit ps ls in (p # ps, ls)
     else
       let ls = ls\<lparr>ls_needsAdjustment := True, ls_peersRemaining := ls_peersRemaining ls - 1,
                   ls_bandwidth := ls_bandwidth ls - pr_outgoingBandwidth p\<rparr>;
           (ps, ls) = limit_pass timeCurrent bandwidthLimit ps ls
       in (p\<lparr>pr_incomingBandwidthThrottleEpoch := timeCurrent\<rparr> # ps, ls))"

definition unlimited :: "u32 \<Rightarrow> ENetPeer list \<Rightarrow> nat" where
  "unlimited timeCurrent ps = length (filter (\<lambda>p. pr_incomingBandwidthThrottleEpoch p \<noteq> timeCurrent) ps)"

lemma limit_pass_unlimited:
  "limit_pass t b ps ls = (ps', ls') \<Longrightarrow>
     unlimited t ps' \<le> unlimited t ps
     \<and> (ls_needsAdjustment ls' \<longrightarrow> ls_needsAdjustment ls \<or> unlimited t ps' < unlimited t ps)"
proof (induction ps arbitrary: ls ps' ls')
  case Nil
  then show ?case by simp
next
  case (Cons p ps)
  show ?case
  proof (cases "limit_skips t b p")
    case True
    then obtain qs where "limit_pass t b ps ls = (qs, ls')" "ps' = p # qs"
      using Cons.prems by (auto split: prod.splits)
    then show ?thesis using Cons.IH [of ls qs ls'] by (auto simp: unlimited_def)
  next
    case False
    then obtain qs q s where q: "limit_pass t b ps s = (qs, ls')" "ps' = q # qs"
        "pr_incomingBandwidthThrottleEpoch q = t" "pr_incomingBandwidthThrottleEpoch p \<noteq> t"
      using Cons.prems by (auto simp: Let_def limit_skips_def split: prod.splits)
    then show ?thesis using Cons.IH [of s qs ls'] by (auto simp: unlimited_def)
  qed
qed

text \<open>The result is the peers and \<^verbatim>\<open>bandwidthLimit\<close>.\<close>

function limit_rounds :: "u32 \<Rightarrow> u32 \<Rightarrow> ENetPeer list \<Rightarrow> limit_scan \<Rightarrow> ENetPeer list \<times> u32" where
  "limit_rounds timeCurrent bandwidthLimit ps ls =
    (if ls_peersRemaining ls > 0 \<and> ls_needsAdjustment ls then
       let bandwidthLimit = ls_bandwidth ls div ls_peersRemaining ls in
       case limit_pass timeCurrent bandwidthLimit ps (ls\<lparr>ls_needsAdjustment := False\<rparr>) of
         (ps, ls) \<Rightarrow> limit_rounds timeCurrent bandwidthLimit ps ls
     else (ps, bandwidthLimit))"
  by pat_completeness auto
termination
  by (relation "measure (\<lambda>(t, b, ps, ls). 2 * unlimited t ps + (if ls_needsAdjustment ls then 1 else 0))")
    (auto simp: Let_def split: prod.split dest!: limit_pass_unlimited)

declare limit_rounds.simps [simp del]

definition bandwidth_limit_command :: "u32 \<Rightarrow> u32 \<Rightarrow> ENetHost \<Rightarrow> ENetPeer \<Rightarrow> ENetProtocol" where
  "bandwidth_limit_command timeCurrent bandwidthLimit h p =
     peer_command (ENET_PROTOCOL_COMMAND_BANDWIDTH_LIMIT OR ENET_PROTOCOL_COMMAND_FLAG_ACKNOWLEDGE)
       (BBandwidthLimit \<lparr>
          bl_incomingBandwidth = ENET_HOST_TO_NET_32
            (if pr_incomingBandwidthThrottleEpoch p = timeCurrent then pr_outgoingBandwidth p
             else bandwidthLimit),
          bl_outgoingBandwidth = ENET_HOST_TO_NET_32 (ho_outgoingBandwidth h)\<rparr>)"

definition send_bandwidth_limit :: "u32 \<Rightarrow> u32 \<Rightarrow> nat \<Rightarrow> ENetHost \<Rightarrow> ENetHost" where
  "send_bandwidth_limit timeCurrent bandwidthLimit i h =
    (if \<not> peer_is_connected (peer_at h i) then h
     else snd (enet_peer_queue_outgoing_command i
            (bandwidth_limit_command timeCurrent bandwidthLimit h (peer_at h i)) None 0 0 h))"

definition recalculate_limits :: "u32 \<Rightarrow> ENetHost \<Rightarrow> ENetHost" where
  "recalculate_limits timeCurrent h =
    (let h = h\<lparr>ho_recalculateBandwidthLimits := False\<rparr>;
         (ps, bandwidthLimit) =
           (if ho_incomingBandwidth h = 0 then (ho_peers h, 0)
            else limit_rounds timeCurrent 0 (ho_peers h)
                   \<lparr>ls_needsAdjustment = True, ls_peersRemaining = ucast (ho_connectedPeers h),
                    ls_bandwidth = ho_incomingBandwidth h\<rparr>);
         h = h\<lparr>ho_peers := ps\<rparr>
     in fold (send_bandwidth_limit timeCurrent bandwidthLimit) [0..<ho_peerCount h] h)"

definition enet_host_bandwidth_throttle :: "ENetHost \<Rightarrow> ENetHost" where
  "enet_host_bandwidth_throttle h =
    (let (timeCurrent, h) = enet_time_get h;
         elapsedTime = timeCurrent - ho_bandwidthThrottleEpoch h
     in if elapsedTime < ENET_HOST_BANDWIDTH_THROTTLE_INTERVAL then h
        else
          let h = h\<lparr>ho_bandwidthThrottleEpoch := timeCurrent\<rparr> in
          if (ucast (ho_connectedPeers h) :: u32) = 0 then h
          else
            let h = throttle_outgoing timeCurrent elapsedTime h
            in if ho_recalculateBandwidthLimits h then recalculate_limits timeCurrent h else h)"

section \<open>Driving a host\<close>

definition fresh_event :: "ENetEvent \<Rightarrow> ENetEvent" where
  "fresh_event event = event\<lparr>ev_type := ENET_EVENT_TYPE_NONE, ev_peer := None, ev_packet := None\<rparr>"

definition enet_host_check_events :: "ENetEvent option \<Rightarrow> ENetHost \<Rightarrow> int \<times> ENetEvent option \<times> ENetHost" where
  "enet_host_check_events event h =
    (case event of
       None \<Rightarrow> (-1, None, h)
     | Some ev \<Rightarrow>
         let (r, ev, h) = enet_protocol_dispatch_incoming_commands (fresh_event ev) h in (r, Some ev, h))"

definition ENET_SOCKET_WAIT_RECEIVE :: u32 where "ENET_SOCKET_WAIT_RECEIVE = 2"
definition ENET_SOCKET_WAIT_INTERRUPT :: u32 where "ENET_SOCKET_WAIT_INTERRUPT = 4"

text \<open>
  The inner loop: wait again after an interrupt. A call of \<^verbatim>\<open>enet_socket_wait\<close> takes its
  return code and the condition met from \<open>env_waits\<close> (nothing is met when that is empty), so the
  loop ends. The result is the value to return or the condition met.
\<close>

datatype waited = WaitReturn int | WaitCondition u32

function wait_loop :: "u32 \<Rightarrow> ENetHost \<Rightarrow> waited \<times> ENetHost" where
  "wait_loop timeout h =
    (let h = update_serviceTime h in
     if ENET_TIME_GREATER_EQUAL (ho_serviceTime h) timeout then (WaitReturn 0, h)
     else case env_waits h of
       [] \<Rightarrow> (WaitCondition 0, h)
     | (r, condition) # ws \<Rightarrow>
        let h = h\<lparr>env_waits := ws\<rparr> in
        if r \<noteq> 0 then (WaitReturn (-1), h)
        else if condition AND ENET_SOCKET_WAIT_INTERRUPT \<noteq> 0 then wait_loop timeout h
        else (WaitCondition condition, h))"
  by pat_completeness auto
termination
  by (relation "measure (\<lambda>(_, h). length (env_waits h))")
    (auto simp: update_serviceTime_def enet_time_get_def Let_def split: list.splits)

declare wait_loop.simps [simp del]

text \<open>
  One round of sending, receiving, sending and dispatching: the value to return, none to go on.
\<close>

definition service_round ::
  "intercept option \<Rightarrow> ENetEvent option \<Rightarrow> ENetHost \<Rightarrow> (int option \<times> ENetEvent option \<times> ENetHost) option" where
  "service_round intercept event h =
    (let h = (if ENET_TIME_DIFFERENCE (ho_serviceTime h) (ho_bandwidthThrottleEpoch h)
                   \<ge> ENET_HOST_BANDWIDTH_THROTTLE_INTERVAL
              then enet_host_bandwidth_throttle h else h)
     in case enet_protocol_send_outgoing_commands event True h of
          None \<Rightarrow> None
        | Some (r, event, h) \<Rightarrow>
          if r = 1 \<or> r = -1 then Some (Some r, event, h)
          else
            let (r, event, h) = enet_protocol_receive_incoming_commands intercept event h in
            if r = 1 \<or> r = -1 then Some (Some r, event, h)
            else (case enet_protocol_send_outgoing_commands event True h of
                None \<Rightarrow> None
              | Some (r, event, h) \<Rightarrow>
                if r = 1 \<or> r = -1 then Some (Some r, event, h)
                else (case event of
                    None \<Rightarrow> Some (None, None, h)
                  | Some ev \<Rightarrow>
                     let (r, ev, h) = enet_protocol_dispatch_incoming_commands ev h in
                     if r = 1 \<or> r = -1 then Some (Some r, Some ev, h)
                     else Some (None, Some ev, h))))"

partial_function (option) service_loop ::
  "intercept option \<Rightarrow> u32 \<Rightarrow> ENetEvent option \<Rightarrow> ENetHost \<Rightarrow> (int \<times> ENetEvent option \<times> ENetHost) option" where
  "service_loop intercept timeout event h =
    (case service_round intercept event h of
       None \<Rightarrow> None
     | Some (Some r, event, h) \<Rightarrow> Some (r, event, h)
     | Some (None, event, h) \<Rightarrow>
        if ENET_TIME_GREATER_EQUAL (ho_serviceTime h) timeout then Some (0, event, h)
        else (case wait_loop timeout h of
            (WaitReturn r, h) \<Rightarrow> Some (r, event, h)
          | (WaitCondition condition, h) \<Rightarrow>
              if condition AND ENET_SOCKET_WAIT_RECEIVE \<noteq> 0
              then service_loop intercept timeout event (update_serviceTime h)
              else Some (0, event, update_serviceTime h)))"

definition enet_host_service ::
  "intercept option \<Rightarrow> u32 \<Rightarrow> ENetEvent option \<Rightarrow> ENetHost \<Rightarrow> (int \<times> ENetEvent option \<times> ENetHost) option" where
  "enet_host_service intercept timeout event h =
    (let (r, event, h) =
       (case event of
          None \<Rightarrow> (0, None, h)
        | Some ev \<Rightarrow>
           let (r, ev, h) = enet_protocol_dispatch_incoming_commands (fresh_event ev) h in (r, Some ev, h))
     in if r = 1 \<or> r = -1 then Some (r, event, h)
        else
          let h = update_serviceTime h
          in service_loop intercept (timeout + ho_serviceTime h) event h)"

end
