(* ===== verification/ENet_Frame.thy ===== *)
theory ENet_Frame
  imports ENet_Host
begin

text \<open>
  What the operations leave alone. Memory operations keep everything of the host but its
  environment; an operation on one peer keeps the others. The facts are the collection
  \<open>frame_simps\<close> and simplification rules.
\<close>

section \<open>Memory operations keep the host\<close>

text \<open>The fields of a host are the extension of its environment.\<close>

lemma more_malloc [simp]: "enet_env.more (snd (enet_malloc s)) = enet_env.more s"
  by (auto simp: enet_malloc_def split: list.splits bool.splits)

lemma more_set_ub [simp]: "enet_env.more (set_ub s) = enet_env.more s"
  by (simp add: set_ub_def)

lemma more_destroy [simp]: "enet_env.more (enet_packet_destroy p s) = enet_env.more s"
  by (auto simp: enet_packet_destroy_def Let_def split: option.splits)

lemma more_retain [simp]: "enet_env.more (packet_retain n p s) = enet_env.more s"
  by (auto simp: packet_retain_def split: option.splits)

lemma more_drop [simp]: "enet_env.more (packet_drop p s) = enet_env.more s"
  by (auto simp: packet_drop_def split: option.splits)

lemma more_release [simp]: "enet_env.more (packet_release m p s) = enet_env.more s"
  by (auto simp: packet_release_def Let_def split: option.splits)

lemma more_create [simp]: "enet_env.more (snd (enet_packet_create d n f s)) = enet_env.more s"
proof -
  obtain ok t where t: "enet_malloc s = (ok, t)" by fastforce
  obtain ok' t' where t': "enet_malloc t = (ok', t')" by fastforce
  have "enet_env.more t = enet_env.more s" "enet_env.more t' = enet_env.more t"
    using more_malloc [of s] more_malloc [of t] by (simp_all add: t t')
  then show ?thesis
    by (auto simp: enet_packet_create_def t t' Let_def split: option.splits)
qed

lemma more_outgoing_release [simp]: "enet_env.more (outgoing_release oc h) = enet_env.more h"
  by (simp add: outgoing_release_def split: option.splits)

lemma more_incoming_release [simp]: "enet_env.more (incoming_release ic h) = enet_env.more h"
  by (simp add: incoming_release_def split: option.splits)

lemma more_sent_release [simp]: "enet_env.more (sent_release oc h) = enet_env.more h"
  by (simp add: sent_release_def split: option.splits)

lemma more_throttle_release [simp]: "enet_env.more (throttle_release oc h) = enet_env.more h"
  by (simp add: throttle_release_def split: option.splits)

lemma more_fold: "(\<And>x s. enet_env.more (f x s) = enet_env.more s) \<Longrightarrow> enet_env.more (fold f xs s) = enet_env.more s"
  by (induction xs arbitrary: s) simp_all

lemma more_reset_outgoing [simp]: "enet_env.more (enet_peer_reset_outgoing_commands q h) = enet_env.more h"
  by (simp add: enet_peer_reset_outgoing_commands_def more_fold)

lemma more_remove_incoming [simp]: "enet_env.more (enet_peer_remove_incoming_commands q h) = enet_env.more h"
  by (simp add: enet_peer_remove_incoming_commands_def more_fold)

lemma more_reset_incoming [simp]: "enet_env.more (enet_peer_reset_incoming_commands q h) = enet_env.more h"
  by (simp add: enet_peer_reset_incoming_commands_def)

lemma more_reset_channel [simp]: "enet_env.more (reset_channel ch h) = enet_env.more h"
  by (simp add: reset_channel_def)

text \<open>Equal extensions are equal fields.\<close>

lemma more_fields:
  fixes h h' :: ENetHost
  assumes "enet_env.more h' = enet_env.more h"
  shows "ho_peers h' = ho_peers h" "ho_dispatchQueue h' = ho_dispatchQueue h"
    "ho_connectedPeers h' = ho_connectedPeers h" "ho_bandwidthLimitedPeers h' = ho_bandwidthLimitedPeers h"
    "ho_mtu h' = ho_mtu h" "ho_serviceTime h' = ho_serviceTime h" "ho_receivedData h' = ho_receivedData h"
    "ho_buffers h' = ho_buffers h" "ho_commandCount h' = ho_commandCount h"
    "ho_packetSize h' = ho_packetSize h" "ho_headerFlags h' = ho_headerFlags h"
    "ho_incomingBandwidth h' = ho_incomingBandwidth h" "ho_outgoingBandwidth h' = ho_outgoingBandwidth h"
    "ho_maximumWaitingData h' = ho_maximumWaitingData h" "ho_maximumPacketSize h' = ho_maximumPacketSize h"
    "ho_compressor h' = ho_compressor h" "ho_checksum h' = ho_checksum h"
  using assms by (simp_all only: ENetHost.select_defs enet_env.select_defs comp_apply id_apply)

lemma more_peer_at: "enet_env.more h' = enet_env.more h \<Longrightarrow> peer_at h' i = peer_at h i"
  by (drule more_fields(1)) (simp only: peer_at_def)

lemmas release_fields [simp] =
  more_fields [OF more_fold [OF more_outgoing_release]]
  more_fields [OF more_fold [OF more_incoming_release]]
  more_fields [OF more_fold [OF more_sent_release]]
  more_fields [OF more_fold [OF more_throttle_release]]
  more_fields [OF more_fold [OF more_reset_channel]]
  more_fields [OF more_reset_outgoing] more_fields [OF more_reset_incoming]
  more_fields [OF more_remove_incoming] more_fields [OF more_release] more_fields [OF more_retain]
  more_fields [OF more_drop] more_fields [OF more_destroy] more_fields [OF more_malloc]
  more_fields [OF more_create] more_fields [OF more_set_ub]
  more_fields [OF more_outgoing_release] more_fields [OF more_incoming_release]
  more_fields [OF more_sent_release] more_fields [OF more_throttle_release]
  more_fields [OF more_reset_channel]

lemmas release_peer_at [simp] =
  more_peer_at [OF more_fold [OF more_outgoing_release]]
  more_peer_at [OF more_fold [OF more_incoming_release]]
  more_peer_at [OF more_fold [OF more_sent_release]]
  more_peer_at [OF more_fold [OF more_throttle_release]]
  more_peer_at [OF more_fold [OF more_reset_channel]]
  more_peer_at [OF more_reset_outgoing] more_peer_at [OF more_reset_incoming]
  more_peer_at [OF more_remove_incoming] more_peer_at [OF more_release] more_peer_at [OF more_retain]
  more_peer_at [OF more_drop] more_peer_at [OF more_destroy] more_peer_at [OF more_malloc]
  more_peer_at [OF more_create] more_peer_at [OF more_set_ub]
  more_peer_at [OF more_outgoing_release] more_peer_at [OF more_incoming_release]
  more_peer_at [OF more_sent_release] more_peer_at [OF more_throttle_release]
  more_peer_at [OF more_reset_channel]

section \<open>An operation on a peer keeps the rest of the host\<close>

lemma upd_peer_fields [simp]:
  "ho_dispatchQueue (upd_peer i f h) = ho_dispatchQueue h"
  "ho_connectedPeers (upd_peer i f h) = ho_connectedPeers h"
  "ho_bandwidthLimitedPeers (upd_peer i f h) = ho_bandwidthLimitedPeers h"
  "ho_mtu (upd_peer i f h) = ho_mtu h" "ho_serviceTime (upd_peer i f h) = ho_serviceTime h"
  "ho_receivedData (upd_peer i f h) = ho_receivedData h" "ho_receivedAddress (upd_peer i f h) = ho_receivedAddress h"
  "ho_buffers (upd_peer i f h) = ho_buffers h" "ho_commandCount (upd_peer i f h) = ho_commandCount h"
  "ho_packetSize (upd_peer i f h) = ho_packetSize h" "ho_headerFlags (upd_peer i f h) = ho_headerFlags h"
  "ho_incomingBandwidth (upd_peer i f h) = ho_incomingBandwidth h"
  "ho_outgoingBandwidth (upd_peer i f h) = ho_outgoingBandwidth h"
  "env_packets (upd_peer i f h) = env_packets h" "env_ub (upd_peer i f h) = env_ub h"
  "env_allocs (upd_peer i f h) = env_allocs h" "env_nextAddr (upd_peer i f h) = env_nextAddr h"
  by (simp_all add: upd_peer_def)

end
