(* ===== verification/ENet_Accounting.thy ===== *)
theory ENet_Accounting
  imports ENet_Frame
begin

text \<open>
  The bookkeeping that the host keeps about its peers: the number of connected peers, the number
  of those with limited bandwidth, and the dispatch queue, which holds exactly the peers marked
  \<^verbatim>\<open>needsDispatch\<close>, each once. Every operation keeps it.
\<close>

section \<open>The invariant\<close>

definition peer_is_limited :: "ENetPeer \<Rightarrow> bool" where
  "peer_is_limited p \<longleftrightarrow> peer_is_connected p \<and> pr_incomingBandwidth p \<noteq> 0"

definition connected_count :: "ENetHost \<Rightarrow> nat" where
  "connected_count h = length (filter peer_is_connected (ho_peers h))"

definition limited_count :: "ENetHost \<Rightarrow> nat" where
  "limited_count h = length (filter peer_is_limited (ho_peers h))"

definition queue_ok :: "ENetHost \<Rightarrow> bool" where
  "queue_ok h \<longleftrightarrow> distinct (ho_dispatchQueue h)
     \<and> set (ho_dispatchQueue h) = {i. i < length (ho_peers h) \<and> pr_needsDispatch (peer_at h i)}"

definition host_ok :: "ENetHost \<Rightarrow> bool" where
  "host_ok h \<longleftrightarrow> length (ho_peers h) \<le> unat ENET_PROTOCOL_MAXIMUM_PEER_ID
     \<and> unat (ho_connectedPeers h) = connected_count h
     \<and> unat (ho_bandwidthLimitedPeers h) = limited_count h
     \<and> queue_ok h"

text \<open>What the invariant depends on.\<close>

definition contribution :: "ENetPeer \<Rightarrow> bool \<times> bool \<times> bool" where
  "contribution p = (peer_is_connected p, peer_is_limited p, pr_needsDispatch p)"

definition host_view :: "ENetHost \<Rightarrow> (bool \<times> bool \<times> bool) list \<times> nat list \<times> size_t \<times> size_t" where
  "host_view h = (map contribution (ho_peers h), ho_dispatchQueue h, ho_connectedPeers h, ho_bandwidthLimitedPeers h)"

lemma count_view:
  "length (filter peer_is_connected ps) = length (filter fst (map contribution ps))"
  "length (filter peer_is_limited ps) = length (filter (fst \<circ> snd) (map contribution ps))"
  by (simp_all add: filter_map comp_def contribution_def)

lemma view_length: "host_view h' = host_view h \<Longrightarrow> length (ho_peers h') = length (ho_peers h)"
  unfolding host_view_def by (metis length_map prod.inject)

lemma view_ok:
  assumes v: "host_view h' = host_view h" and ok: "host_ok h"
  shows "host_ok h'"
proof -
  have m: "map contribution (ho_peers h') = map contribution (ho_peers h)" and l: "length (ho_peers h') = length (ho_peers h)"
    and f: "ho_dispatchQueue h' = ho_dispatchQueue h" "ho_connectedPeers h' = ho_connectedPeers h"
      "ho_bandwidthLimitedPeers h' = ho_bandwidthLimitedPeers h"
    using v view_length [OF v] by (simp_all add: host_view_def)
  have c: "connected_count h' = connected_count h" "limited_count h' = limited_count h"
    by (simp_all only: connected_count_def limited_count_def count_view m)
  have "pr_needsDispatch (peer_at h' i) = pr_needsDispatch (peer_at h i)" if "i < length (ho_peers h)" for i
    using that l arg_cong [OF m, of "\<lambda>xs. snd (snd (xs ! i))"] by (simp add: contribution_def peer_at_def)
  then have "{i. i < length (ho_peers h') \<and> pr_needsDispatch (peer_at h' i)}
      = {i. i < length (ho_peers h) \<and> pr_needsDispatch (peer_at h i)}"
    using l by auto
  then show ?thesis using ok c f l by (simp add: host_ok_def queue_ok_def)
qed

section \<open>Keeping the invariant\<close>

text \<open>An operation keeps the invariant and the number of peers.\<close>

definition keeps :: "ENetHost \<Rightarrow> ENetHost \<Rightarrow> bool" where
  "keeps h h' \<longleftrightarrow> (host_ok h \<longrightarrow> host_ok h') \<and> length (ho_peers h') = length (ho_peers h)"

lemma keeps_refl [simp, intro]: "keeps h h"
  by (simp add: keeps_def)

lemma keeps_trans [trans]: "keeps h h' \<Longrightarrow> keeps h' h'' \<Longrightarrow> keeps h h''"
  by (simp add: keeps_def)

lemma keeps_view: "host_view h' = host_view h \<Longrightarrow> keeps h h'"
  unfolding keeps_def by (blast intro: view_ok view_length)

lemma keeps_length: "keeps h h' \<Longrightarrow> length (ho_peers h') = length (ho_peers h)"
  by (simp add: keeps_def)

lemma view_more: "enet_env.more h' = enet_env.more h \<Longrightarrow> host_view h' = host_view h"
  unfolding host_view_def by (frule more_fields(1), frule more_fields(2), frule more_fields(3), drule more_fields(4)) (simp only:)

lemma keeps_more: "enet_env.more h' = enet_env.more h \<Longrightarrow> keeps h h'"
  by (rule keeps_view) (rule view_more)

text \<open>The value of one peer's part in the counts.\<close>

lemma length_filter_update:
  assumes "i < length xs"
  shows "length (filter P (xs[i := x])) + (if P (xs ! i) then 1 else 0)
    = length (filter P xs) + (if P x then 1 else 0)"
proof -
  have "length (filter P (take i xs @ y # drop (Suc i) xs))
      = length (filter P (take i xs)) + length (filter P (drop (Suc i) xs)) + (if P y then 1 else 0)" for y
    by simp
  from this [of x] this [of "xs ! i"] show ?thesis
    using assms by (simp only: upd_conv_take_nth_drop id_take_nth_drop [symmetric])
qed

lemma length_filter_same:
  "i < length xs \<Longrightarrow> P x = P (xs ! i) \<Longrightarrow> length (filter P (xs[i := x])) = length (filter P xs)"
  using length_filter_update [of i xs P x] by (auto split: if_splits)

lemma map_contribution_update:
  assumes "contribution (f (ho_peers h ! i)) = contribution (ho_peers h ! i)"
  shows "map contribution ((ho_peers h)[i := f (ho_peers h ! i)]) = map contribution (ho_peers h)"
  by (simp only: map_update assms) (simp only: map_update [symmetric] list_update_id)

lemma view_upd_peer:
  "contribution (f (peer_at h i)) = contribution (peer_at h i) \<Longrightarrow> host_view (upd_peer i f h) = host_view h"
  by (simp add: host_view_def upd_peer_def map_contribution_update peer_at_def)

lemma keeps_upd_peer [intro]:
  "contribution (f (peer_at h i)) = contribution (peer_at h i) \<Longrightarrow> keeps h (upd_peer i f h)"
  by (rule keeps_view) (rule view_upd_peer)

section \<open>Operations that change the counts\<close>

definition bit_of :: "bool \<Rightarrow> size_t" where
  "bit_of b = (if b then 1 else 0)"

lemma unat_count_change:
  fixes x :: size_t
  assumes "unat x = n" "n \<le> 0xFFF" "n' + (if b then 1 else 0) = n + (if b' then 1 else 0)"
  shows "unat (x + bit_of b' - bit_of b) = n'"
proof -
  have x: "x = word_of_nat n" by (simp flip: assms(1))
  have "x + bit_of b' - bit_of b = word_of_nat n'"
  proof (cases b; cases b')
    assume "b" "\<not> b'"
    then have "n = Suc n'" using assms(3) by simp
    then show ?thesis using \<open>b\<close> \<open>\<not> b'\<close> by (simp add: x bit_of_def)
  next
    assume "\<not> b" "b'"
    then have "n' = Suc n" using assms(3) by simp
    then show ?thesis using \<open>\<not> b\<close> \<open>b'\<close> by (simp add: x bit_of_def)
  qed (use assms(3) in \<open>simp_all add: x bit_of_def\<close>)
  moreover have "n' < 2 ^ 64" using assms(2,3) by (simp split: if_splits)
  ultimately show ?thesis by (simp add: unat_of_nat take_bit_nat_eq_self)
qed

lemma peer_at_upd [simp]: "i < length (ho_peers h) \<Longrightarrow> peer_at (upd_peer i f h) i = f (peer_at h i)"
  by simp

lemma queue_ok_upd_peer:
  assumes "i < length (ho_peers h)" "pr_needsDispatch (f (peer_at h i)) = pr_needsDispatch (peer_at h i)"
    "ho_peers h' = ho_peers (upd_peer i f h)" "ho_dispatchQueue h' = ho_dispatchQueue h"
  shows "queue_ok h' = queue_ok h"
proof -
  have "peer_at h' j = peer_at (upd_peer i f h) j" for j using assms(3) by (simp add: peer_at_def)
  then have "j < length (ho_peers h) \<and> pr_needsDispatch (peer_at h' j)
      \<longleftrightarrow> j < length (ho_peers h) \<and> pr_needsDispatch (peer_at h j)" for j
    using assms(1,2) by auto
  then show ?thesis using assms by (simp add: queue_ok_def upd_peer_def)
qed

lemma keeps_counts:
  assumes i: "i < length (ho_peers h)"
    and nd: "pr_needsDispatch (f (peer_at h i)) = pr_needsDispatch (peer_at h i)"
    and h': "ho_peers h' = ho_peers (upd_peer i f h)" "ho_dispatchQueue h' = ho_dispatchQueue h"
    and c: "ho_connectedPeers h' = ho_connectedPeers h
      + bit_of (peer_is_connected (f (peer_at h i))) - bit_of (peer_is_connected (peer_at h i))"
    and l: "ho_bandwidthLimitedPeers h' = ho_bandwidthLimitedPeers h
      + bit_of (peer_is_limited (f (peer_at h i))) - bit_of (peer_is_limited (peer_at h i))"
  shows "keeps h h'"
  unfolding keeps_def
proof (intro conjI impI)
  show len: "length (ho_peers h') = length (ho_peers h)" using h' by simp
  assume ok: "host_ok h"
  have n: "connected_count h \<le> 0xFFF" "limited_count h \<le> 0xFFF"
    using ok by (auto simp: host_ok_def connected_count_def limited_count_def protocol_limit_defs
        intro: order_trans [OF length_filter_le])
  have "ho_peers h' = (ho_peers h)[i := f (peer_at h i)]"
    using h' by (simp add: upd_peer_def peer_at_def)
  then have cc: "connected_count h' + (if peer_is_connected (peer_at h i) then 1 else 0)
      = connected_count h + (if peer_is_connected (f (peer_at h i)) then 1 else 0)"
    and ll: "limited_count h' + (if peer_is_limited (peer_at h i) then 1 else 0)
      = limited_count h + (if peer_is_limited (f (peer_at h i)) then 1 else 0)"
    using length_filter_update [OF i, of _ "f (peer_at h i)"]
    by (simp_all add: connected_count_def limited_count_def peer_at_def)
  have u: "unat (ho_connectedPeers h) = connected_count h" "unat (ho_bandwidthLimitedPeers h) = limited_count h"
    using ok by (simp_all add: host_ok_def)
  show "host_ok h'"
    using ok len queue_ok_upd_peer [OF i nd h'] unat_count_change [OF u(1) n(1) cc] unat_count_change [OF u(2) n(2) ll]
    by (simp add: host_ok_def c l)
qed

text \<open>Putting a peer in the dispatch queue and taking it out.\<close>

lemma keeps_need_dispatch: "i < length (ho_peers h) \<Longrightarrow> keeps h (need_dispatch i h)"
proof (cases "pr_needsDispatch (peer_at h i)")
  case True
  then show ?thesis by (simp add: need_dispatch_def)
next
  case False
  assume i: "i < length (ho_peers h)"
  define h' where "h' = need_dispatch i h"
  have ps: "ho_peers h' = (ho_peers h)[i := (peer_at h i)\<lparr>pr_needsDispatch := True\<rparr>]"
    and q: "ho_dispatchQueue h' = ho_dispatchQueue h @ [i]"
    and cl: "ho_connectedPeers h' = ho_connectedPeers h" "ho_bandwidthLimitedPeers h' = ho_bandwidthLimitedPeers h"
    using False by (simp_all add: h'_def need_dispatch_def upd_peer_def peer_at_def)
  have c: "connected_count h' = connected_count h" "limited_count h' = limited_count h"
    using i by (simp_all add: connected_count_def limited_count_def ps length_filter_same
        peer_is_limited_def peer_is_connected_def peer_at_def)
  have "pr_needsDispatch (peer_at h' j) \<longleftrightarrow> j = i \<or> pr_needsDispatch (peer_at h j)" if "j < length (ho_peers h)" for j
    using i that by (simp add: peer_at_def ps nth_list_update_if)
  then have "queue_ok h \<Longrightarrow> queue_ok h'"
    using i False by (auto simp: queue_ok_def q ps)
  then show ?thesis
    unfolding h'_def [symmetric] by (auto simp: keeps_def host_ok_def c cl ps)
qed

definition undispatch :: "nat \<Rightarrow> ENetHost \<Rightarrow> ENetHost" where
  "undispatch i h = upd_peer i (\<lambda>p. p\<lparr>pr_needsDispatch := False\<rparr>)
     (h\<lparr>ho_dispatchQueue := remove1 i (ho_dispatchQueue h)\<rparr>)"

lemma keeps_undispatch:
  assumes i: "i < length (ho_peers h)"
  shows "keeps h (undispatch i h)"
proof -
  define h' where "h' = undispatch i h"
  have ps: "ho_peers h' = (ho_peers h)[i := (peer_at h i)\<lparr>pr_needsDispatch := False\<rparr>]"
    and q: "ho_dispatchQueue h' = remove1 i (ho_dispatchQueue h)"
    and cl: "ho_connectedPeers h' = ho_connectedPeers h" "ho_bandwidthLimitedPeers h' = ho_bandwidthLimitedPeers h"
    by (simp_all add: h'_def undispatch_def upd_peer_def peer_at_def)
  have c: "connected_count h' = connected_count h" "limited_count h' = limited_count h"
    using i by (simp_all add: connected_count_def limited_count_def ps length_filter_same
        peer_is_limited_def peer_is_connected_def peer_at_def)
  have "pr_needsDispatch (peer_at h' j) \<longleftrightarrow> j \<noteq> i \<and> pr_needsDispatch (peer_at h j)" if "j < length (ho_peers h)" for j
    using i that by (simp add: peer_at_def ps nth_list_update_if)
  then have "queue_ok h \<Longrightarrow> queue_ok h'"
    using i by (auto simp: queue_ok_def q ps set_remove1_eq)
  then show ?thesis
    unfolding h'_def [symmetric] by (auto simp: keeps_def host_ok_def c cl ps)
qed

section \<open>A concrete host\<close>

text \<open>A host with a connected and a free peer, on which the witnesses instantiate properties.\<close>

definition example_env :: enet_env where
  "example_env = \<lparr>env_packets = (\<lambda>_. None), env_nextAddr = 1, env_allocs = [], env_noMemory = 0,
     env_junk = (\<lambda>_. 0), env_callbackLog = [], env_destroyed = [], env_ub = False, env_now = 0,
     env_clock = [], env_recv = [], env_sendResults = [], env_sent = [], env_waits = [], env_rand = []\<rparr>"

definition example_peer :: ENetPeer where
  "example_peer = (reset_fields 1400 zero_peer)\<lparr>pr_state := ENET_PEER_STATE_CONNECTED,
     pr_outgoingPeerID := 0, pr_channels := [fresh_channel], pr_channelCount := 1\<rparr>"

definition example_host :: ENetHost where
  "example_host = (zero_host example_env)\<lparr>ho_peers := [example_peer, reset_fields 1400 zero_peer],
     ho_mtu := 1400, ho_channelLimit := 255, ho_connectedPeers := 1, ho_duplicatePeers := 4095,
     ho_maximumPacketSize := 33554432, ho_maximumWaitingData := 33554432\<rparr>"

lemma example_host_fields [simp]:
  "ho_peers example_host = [example_peer, reset_fields 1400 zero_peer]"
  "ho_connectedPeers example_host = 1" "ho_bandwidthLimitedPeers example_host = 0"
  "ho_dispatchQueue example_host = []"
  "ho_maximumPacketSize example_host = 33554432" "ho_maximumWaitingData example_host = 33554432"
  "ho_usingNewPacket example_host = False" "ho_checksum example_host = None"
  "env_allocs example_host = []" "env_packets example_host = (\<lambda>_. None)" "env_ub example_host = False"
  by (simp_all add: example_host_def zero_host_def example_env_def)

lemma example_peer_fields [simp]:
  "pr_state example_peer = ENET_PEER_STATE_CONNECTED" "pr_incomingBandwidth example_peer = 0"
  "pr_needsDispatch example_peer = False" "pr_mtu example_peer = 1400"
  "pr_channels example_peer = [fresh_channel]" "pr_channelCount example_peer = 1"
  by (simp_all add: example_peer_def reset_fields_def zero_peer_def)

definition spare_peer :: ENetPeer where
  "spare_peer = reset_fields 1400 zero_peer"

lemma spare_peer_fields [simp]:
  "pr_state spare_peer = ENET_PEER_STATE_DISCONNECTED" "pr_incomingBandwidth spare_peer = 0"
  "pr_needsDispatch spare_peer = False"
  by (simp_all add: spare_peer_def reset_fields_def zero_peer_def)

lemma example_peer_at [simp]:
  "peer_at example_host 0 = example_peer" "peer_at example_host (Suc 0) = spare_peer"
  by (simp_all add: peer_at_def spare_peer_def)

lemma example_host_ok: "host_ok example_host"
proof -
  have 1: "ho_peers example_host = [example_peer, spare_peer]" by (simp add: spare_peer_def)
  have "\<not> pr_needsDispatch (peer_at example_host i)" if "i < 2" for i
    using that by (cases i) (auto simp: less_Suc_eq numeral_2_eq_2)
  then have "queue_ok example_host"
    by (auto simp: queue_ok_def numeral_2_eq_2)
  then show ?thesis
    by (simp add: host_ok_def connected_count_def limited_count_def 1 peer_is_connected_def
        peer_is_limited_def protocol_limit_defs del: example_host_fields(1))
qed

end
