(* ===== verification/ENet_Preservation.thy ===== *)
theory ENet_Preservation
  imports ENet_Accounting
begin

text \<open>
  Every operation of \<^verbatim>\<open>peer.c\<close>, \<^verbatim>\<open>protocol.c\<close> and \<^verbatim>\<open>host.c\<close> keeps the bookkeeping of theory
  \<^verbatim>\<open>ENet_Accounting\<close>, from the queues of a peer up to \<^verbatim>\<open>enet_host_service\<close>.
\<close>

named_theorems keep_intros \<open>operations that keep the bookkeeping\<close>

lemmas contribution_defs = contribution_def peer_is_limited_def peer_is_connected_def

lemma keeps_pair: "keeps h (snd x) \<Longrightarrow> x = (a, h') \<Longrightarrow> keeps h h'"
  by simp

section \<open>Queues\<close>

lemma contribution_upd_channel [simp]: "contribution (upd_channel c f p) = contribution p"
  by (simp add: contribution_defs upd_channel_def)

lemma contribution_setup_outgoing [simp]: "contribution (setup_outgoing oc p) = contribution p"
  by (simp add: setup_outgoing_def outgoing_sequence_def Let_def contribution_defs upd_channel_def)

lemma keeps_set_ub [keep_intros]: "keeps h (set_ub h)"
  by (rule keeps_more) simp

lemma keeps_malloc [keep_intros]: "keeps h (snd (enet_malloc h))"
  by (rule keeps_more) simp

lemma keeps_setup_outgoing [keep_intros]: "keeps h (enet_peer_setup_outgoing_command i oc h)"
  unfolding enet_peer_setup_outgoing_command_def
  by (auto intro: keep_intros)

lemma keeps_fold: "(\<And>x s. keeps s (f x s)) \<Longrightarrow> keeps h (fold f xs h)"
  by (induction xs arbitrary: h) (auto intro: keeps_trans)

lemma keeps_queue_outgoing [keep_intros]:
  "keeps h (snd (enet_peer_queue_outgoing_command i command packet off len h))"
proof -
  obtain ok h1 where m: "enet_malloc h = (ok, h1)" by fastforce
  have "keeps h h1" using keeps_malloc [of h] by (simp add: m)
  moreover have "keeps h1 (case packet of None \<Rightarrow> h1 | Some q \<Rightarrow> packet_retain 1 q h1)"
    by (rule keeps_more) (simp split: option.split)
  ultimately show ?thesis
    by (auto simp: enet_peer_queue_outgoing_command_def m Let_def intro: keeps_trans keep_intros)
qed

lemma keeps_queue_acknowledgement [keep_intros]:
  "keeps h (snd (enet_peer_queue_acknowledgement i command t h))"
proof -
  obtain ok h1 where m: "enet_malloc h = (ok, h1)" by fastforce
  have "keeps h h1" using keeps_malloc [of h] by (simp add: m)
  moreover have "keeps h1 (upd_peer i (\<lambda>p. p\<lparr>
      pr_outgoingDataTotal := pr_outgoingDataTotal p + ucast sizeof_ENetProtocolAcknowledge,
      pr_acknowledgements := pr_acknowledgements p @ [\<lparr>aq_sentTime = ucast t, aq_command = command\<rparr>]\<rparr>) h1)"
    by (rule keeps_upd_peer) (simp add: contribution_defs)
  ultimately show ?thesis
    by (auto simp: enet_peer_queue_acknowledgement_def m Let_def intro: keeps_trans)
qed

lemma keeps_reset_queues [keep_intros]:
  assumes i: "i < length (ho_peers h)" shows "keeps h (enet_peer_reset_queues i h)"
proof -
  define h1 where "h1 = (if pr_needsDispatch (peer_at h i) then undispatch i h else h)"
  have "keeps h h1" using i by (simp add: h1_def keeps_undispatch)
  moreover have "keeps h1 (enet_peer_reset_queues i h)"
  proof -
    define g where "g = enet_peer_reset_outgoing_commands (pr_outgoingUnreliableCommands (peer_at h1 i))
      (enet_peer_reset_outgoing_commands (pr_outgoingReliableCommands (peer_at h1 i))
        (enet_peer_reset_outgoing_commands (pr_sentUnreliableCommands (peer_at h1 i))
          (enet_peer_reset_outgoing_commands (pr_sentReliableCommands (peer_at h1 i)) h1)))"
    define g' where "g' = fold reset_channel (take (unat (pr_channelCount (peer_at h1 i))) (pr_channels (peer_at h1 i)))
      (enet_peer_reset_incoming_commands (pr_dispatchedCommands (peer_at h1 i)) g)"
    have "enet_env.more g' = enet_env.more h1" by (simp add: g_def g'_def more_fold)
    then have "keeps h1 g'" by (rule keeps_more)
    moreover have "keeps g' (enet_peer_reset_queues i h)"
      unfolding enet_peer_reset_queues_def Let_def undispatch_def [symmetric] h1_def [symmetric]
        g_def [symmetric] g'_def [symmetric]
      by (rule keeps_upd_peer) (simp add: contribution_defs)
    ultimately show ?thesis by (rule keeps_trans)
  qed
  ultimately show ?thesis by (rule keeps_trans)
qed

section \<open>Dispatching and queueing incoming commands\<close>

lemma keeps_then:
  "keeps h g \<Longrightarrow> i < length (ho_peers h) \<Longrightarrow> (i < length (ho_peers g) \<Longrightarrow> keeps g k) \<Longrightarrow> keeps h k"
  by (auto simp: keeps_length intro: keeps_trans)

declare keeps_need_dispatch [keep_intros]

lemma keeps_remove_incoming [keep_intros]: "keeps h (enet_peer_remove_incoming_commands cs h)"
  by (rule keeps_more) simp

lemma keeps_upd_channel [keep_intros]: "keeps h (upd_peer i (upd_channel c f) h)"
  by (rule keeps_upd_peer) simp

lemma keeps_dispatch_unreliable [keep_intros]:
  assumes i: "i < length (ho_peers h)"
  shows "keeps h (enet_peer_dispatch_incoming_unreliable_commands i c h)"
proof -
  define us where "us = dispatch_unreliable_scan (channel_at (peer_at h i) c)"
  define g where "g = upd_peer i (\<lambda>p. p\<lparr>pr_dispatchedCommands := pr_dispatchedCommands p @ us_moved us\<rparr>) h"
  define k where "k = (if us_moved us \<noteq> [] then need_dispatch i g else g)"
  have "keeps h g" unfolding g_def by (rule keeps_upd_peer) (simp add: contribution_defs)
  then have "keeps h k" using i by (rule keeps_then) (auto simp: k_def intro: keep_intros)
  then show ?thesis
    unfolding enet_peer_dispatch_incoming_unreliable_commands_def Let_def us_def [symmetric] g_def [symmetric] k_def [symmetric]
    by (rule keeps_trans) (rule keeps_trans [OF keeps_upd_channel keeps_remove_incoming])
qed

lemma keeps_dispatch_reliable [keep_intros]:
  assumes i: "i < length (ho_peers h)"
  shows "keeps h (enet_peer_dispatch_incoming_reliable_commands i c h)"
proof -
  obtain n ready rest where l: "dispatch_reliable_loop (ch_incomingReliableSequenceNumber (channel_at (peer_at h i) c))
      (ch_incomingReliableCommands (channel_at (peer_at h i) c)) = (n, ready, rest)"
    using prod_cases3 by blast
  define g where "g = upd_peer i (upd_channel c (\<lambda>ch. ch\<lparr>ch_incomingReliableSequenceNumber := n\<rparr>)) h"
  define k where "k = upd_peer i (\<lambda>p. upd_channel c (\<lambda>ch. ch\<lparr>
      ch_incomingUnreliableSequenceNumber := 0, ch_incomingReliableCommands := rest\<rparr>)
      (p\<lparr>pr_dispatchedCommands := pr_dispatchedCommands p @ ready\<rparr>)) g"
  have g: "keeps h g" unfolding g_def by (rule keeps_upd_channel)
  moreover have "keeps g k" unfolding k_def by (rule keeps_upd_peer) (simp add: contribution_defs upd_channel_def)
  ultimately have k: "keeps h (need_dispatch i k)"
    using i by (blast intro: keeps_then keeps_trans keeps_need_dispatch)
  show ?thesis
    using g k i by (auto simp: enet_peer_dispatch_incoming_reliable_commands_def l Let_def g_def [symmetric] k_def [symmetric]
        intro: keeps_then keep_intros)
qed

lemma keeps_incoming_insert [keep_intros]:
  assumes i: "i < length (ho_peers h)" shows "keeps h (incoming_insert i c place ic h)"
  using i unfolding incoming_insert_def
  by (auto intro: keeps_then [OF keeps_upd_channel] keep_intros)

lemma keeps_queue_incoming [keep_intros]:
  assumes i: "i < length (ho_peers h)"
  shows "keeps h (snd (enet_peer_queue_incoming_command i command data n flags k h))"
proof -
  obtain packet h1 where c: "enet_packet_create data n flags h = (packet, h1)" by fastforce
  obtain ok h2 where m: "enet_malloc h1 = (ok, h2)" by fastforce
  obtain ok' h3 where m': "enet_malloc h2 = (ok', h3)" by fastforce
  have more: "enet_env.more h1 = enet_env.more h" "enet_env.more h2 = enet_env.more h" "enet_env.more h3 = enet_env.more h"
    using more_create [of data n flags h] more_malloc [of h1] more_malloc [of h2] by (simp_all add: c m m')
  have insert: "keeps h (incoming_insert i ch place ic (upd_peer i (\<lambda>p. p\<lparr>pr_totalWaitingData := pr_totalWaitingData p + n\<rparr>)
      (packet_retain 1 q (g\<lparr>env_nextAddr := a\<rparr>))))" if "enet_env.more g = enet_env.more h" for g q a ch place ic
  proof -
    have "enet_env.more (packet_retain 1 q (g\<lparr>env_nextAddr := a\<rparr>)) = enet_env.more h" using that by simp
    then have "keeps h (packet_retain 1 q (g\<lparr>env_nextAddr := a\<rparr>))" by (rule keeps_more)
    moreover have "keeps s (upd_peer i (\<lambda>p. p\<lparr>pr_totalWaitingData := pr_totalWaitingData p + n\<rparr>) s)" for s
      by (rule keeps_upd_peer) (simp add: contribution_defs)
    ultimately have "keeps h (upd_peer i (\<lambda>p. p\<lparr>pr_totalWaitingData := pr_totalWaitingData p + n\<rparr>)
        (packet_retain 1 q (g\<lparr>env_nextAddr := a\<rparr>)))" by (rule keeps_trans)
    then show ?thesis using i by (rule keeps_then) (rule keeps_incoming_insert)
  qed
  have d: "keeps h (enet_packet_destroy q g)" if "enet_env.more g = enet_env.more h" for q g
    using that by (intro keeps_more) simp
  show ?thesis
    using more keeps_more [OF more(1)] keeps_set_ub
    by (auto simp: enet_peer_queue_incoming_command_def c m m' Let_def intro: insert d split: option.splits)
qed

section \<open>States\<close>

lemma keeps_change_state [keep_intros]:
  assumes i: "i < length (ho_peers h)" shows "keeps h (enet_protocol_change_state i state h)"
  by (rule keeps_counts [where f = "\<lambda>p. p\<lparr>pr_state := state\<rparr>", OF i])
    (simp_all add: enet_protocol_change_state_def enet_peer_on_connect_def enet_peer_on_disconnect_def
      upd_peer_def bit_of_def peer_is_limited_def peer_is_connected_def peer_at_def)

lemma keeps_dispatch_state [keep_intros]:
  assumes i: "i < length (ho_peers h)" shows "keeps h (enet_protocol_dispatch_state i state h)"
  unfolding enet_protocol_dispatch_state_def
  using i by (auto intro: keeps_then [OF keeps_change_state] keep_intros)

lemma keeps_reset [keep_intros]:
  assumes i: "i < length (ho_peers h)" shows "keeps h (enet_peer_reset i h)"
proof -
  have "keeps h (upd_peer i (reset_fields (ho_mtu (enet_peer_on_disconnect i h))) (enet_peer_on_disconnect i h))"
    by (rule keeps_counts [where f = "reset_fields (ho_mtu (enet_peer_on_disconnect i h))", OF i])
      (simp_all add: enet_peer_on_disconnect_def upd_peer_def bit_of_def peer_is_limited_def
        peer_is_connected_def peer_at_def reset_fields_def)
  then show ?thesis
    using i unfolding enet_peer_reset_def Let_def by (rule keeps_then) (rule keeps_reset_queues)
qed

lemma keeps_disconnect_queue [keep_intros]:
  assumes i: "i < length (ho_peers h)" shows "keeps h (disconnect_queue i data h)"
  unfolding disconnect_queue_def Let_def
  by (rule keeps_trans [OF keeps_reset_queues [OF i] keeps_queue_outgoing])

lemma disconnect_connected_change_state:
  "enet_peer_disconnect_connected i data h
     = enet_protocol_change_state i ENET_PEER_STATE_DISCONNECTING (disconnect_queue i data h)"
  by (simp add: enet_peer_disconnect_connected_def enet_protocol_change_state_def Let_def)

lemma keeps_disconnect_connected [keep_intros]:
  assumes i: "i < length (ho_peers h)" shows "keeps h (enet_peer_disconnect_connected i data h)"
  unfolding disconnect_connected_change_state
  by (rule keeps_then [OF keeps_disconnect_queue [OF i] i]) (rule keeps_change_state)

section \<open>The operations of a peer\<close>

lemma keeps_throttle_configure [keep_intros]: "keeps h (enet_peer_throttle_configure i a b c h)"
  unfolding enet_peer_throttle_configure_def Let_def
  by (rule keeps_trans [OF keeps_upd_peer keeps_queue_outgoing]) (simp add: contribution_defs)

lemma keeps_ping [keep_intros]: "keeps h (enet_peer_ping i h)"
  by (auto simp: enet_peer_ping_def intro: keep_intros)

lemma send_fragments_more:
  "send_fragments_loop mk n l k off fs h = Some y \<Longrightarrow> enet_env.more (snd (snd y)) = enet_env.more h"
proof (induction rule: send_fragments_loop.raw_induct [rotated, consumes 1])
  case (1 loop mk n l k off fs h y)
  obtain ok h1 where m: "enet_malloc h = (ok, h1)" by fastforce
  have "enet_env.more h1 = enet_env.more h" using more_malloc [of h] by (simp add: m)
  then show ?case
    using 1 by (auto simp: m Let_def split: if_splits)
qed

lemma send_fragmented_result:
  assumes "send_fragmented i channelID packet pk l h = Some (r, h')"
  obtains "h' = h" | mk fs m where "send_fragments_loop mk (pk_dataLength pk) l 0 0 [] h = Some (fs, m, h')"
  | mk fs cs m g where "send_fragments_loop mk (pk_dataLength pk) l 0 0 [] h = Some (fs, m, g)"
      "h' = fold (enet_peer_setup_outgoing_command i) cs (packet_retain (ucast m) packet g)"
  using assms by (auto simp: send_fragmented_def Let_def split: if_splits option.splits prod.splits)

lemma keeps_send [keep_intros]:
  assumes s: "enet_peer_send i channelID packet h = Some (r, h')"
  shows "keeps h h'"
proof -
  have fragments: "keeps h h'" if f: "send_fragmented i channelID packet pk l h = Some (r, h')" for pk l
    using f
  proof (rule send_fragmented_result)
    fix mk fs m
    assume "send_fragments_loop mk (pk_dataLength pk) l 0 0 [] h = Some (fs, m, h')"
    then show ?thesis using send_fragments_more by (fastforce intro: keeps_more)
  next
    fix mk fs cs m g
    assume "send_fragments_loop mk (pk_dataLength pk) l 0 0 [] h = Some (fs, m, g)"
      and h': "h' = fold (enet_peer_setup_outgoing_command i) cs (packet_retain (ucast m) packet g)"
    then have "keeps h (packet_retain (ucast m) packet g)" using send_fragments_more by (fastforce intro: keeps_more)
    also have "keeps \<dots> h'" unfolding h' by (rule keeps_fold) (rule keeps_setup_outgoing)
    finally show ?thesis .
  qed auto
  show ?thesis
    using s by (auto simp: enet_peer_send_def Let_def split: if_splits option.splits prod.splits
        dest: keeps_pair [OF keeps_queue_outgoing] fragments intro: keeps_set_ub)
qed

lemma keeps_receive [keep_intros]: "keeps h (snd (enet_peer_receive i h))"
proof -
  have d: "keeps s (upd_peer i (\<lambda>p. p\<lparr>pr_dispatchedCommands := cs\<rparr>) s)"
    and w: "keeps s (upd_peer i (\<lambda>p. p\<lparr>pr_totalWaitingData := pr_totalWaitingData p - n\<rparr>) s)" for s n cs
    by (rule keeps_upd_peer; simp add: contribution_defs)+
  have q: "keeps s (packet_drop q s)" for s q by (rule keeps_more) simp
  show ?thesis
  proof (cases "pr_dispatchedCommands (peer_at h i)")
    case Nil
    then show ?thesis by (simp add: enet_peer_receive_def)
  next
    case (Cons ic cs)
    show ?thesis
    proof (cases "ic_packet ic")
      case None
      then show ?thesis by (simp add: enet_peer_receive_def Cons keeps_trans [OF d keeps_set_ub])
    next
      case (Some q)
      show ?thesis
        by (simp add: enet_peer_receive_def Cons Some Let_def keeps_trans [OF keeps_trans [OF d q] w])
    qed
  qed
qed

lemma keeps_disconnect_now:
  assumes flush: "\<And>g g'. flush g = Some g' \<Longrightarrow> keeps g g'"
    and i: "i < length (ho_peers h)" and s: "enet_peer_disconnect_now flush i data h = Some h'"
  shows "keeps h h'"
proof -
  have "keeps g (snd (enet_peer_queue_outgoing_command i c None 0 0 (enet_peer_reset_queues i g)))"
    if "i < length (ho_peers g)" for g c
    by (rule keeps_trans [OF keeps_reset_queues [OF that] keeps_queue_outgoing])
  then have q: "keeps h k" if "enet_peer_queue_outgoing_command i c None 0 0 (enet_peer_reset_queues i h) = (b, g)"
      "flush g = Some k" for c b g k
    using i that flush by (metis keeps_trans snd_conv)
  have r: "keeps h (enet_peer_reset i k)" if "keeps h k" for k
    by (rule keeps_then [OF that i]) (rule keeps_reset)
  show ?thesis
    using s by (auto simp: enet_peer_disconnect_now_def Let_def intro: r keeps_reset [OF i] q
        split: if_splits option.splits prod.splits)
qed

lemma keeps_disconnect:
  assumes flush: "\<And>g g'. flush g = Some g' \<Longrightarrow> keeps g g'"
    and i: "i < length (ho_peers h)" and s: "enet_peer_disconnect flush i data h = Some h'"
  shows "keeps h h'"
proof -
  have "keeps h (enet_peer_reset i k)" if "flush (disconnect_queue i data h) = Some k" for k
    by (rule keeps_then [OF keeps_trans [OF keeps_disconnect_queue [OF i] flush [OF that]] i]) (rule keeps_reset)
  then show ?thesis
    using s by (auto simp: enet_peer_disconnect_def intro: keeps_disconnect_connected [OF i]
        split: if_splits option.splits)
qed

lemma keeps_disconnect_later:
  assumes flush: "\<And>g g'. flush g = Some g' \<Longrightarrow> keeps g g'"
    and i: "i < length (ho_peers h)" and s: "enet_peer_disconnect_later flush i data h = Some h'"
  shows "keeps h h'"
  using s keeps_disconnect [OF flush i]
  by (auto simp: enet_peer_disconnect_later_def Let_def contribution_defs intro!: keeps_upd_peer split: if_splits)

section \<open>Events\<close>

lemma keeps_fields:
  "ho_peers h' = ho_peers h \<Longrightarrow> ho_dispatchQueue h' = ho_dispatchQueue h \<Longrightarrow>
   ho_connectedPeers h' = ho_connectedPeers h \<Longrightarrow> ho_bandwidthLimitedPeers h' = ho_bandwidthLimitedPeers h \<Longrightarrow>
   keeps h h'"
  by (rule keeps_view) (simp add: host_view_def)

lemma keeps_fields_then:
  assumes "keeps h g" "ho_peers h' = ho_peers g" "ho_dispatchQueue h' = ho_dispatchQueue g"
    "ho_connectedPeers h' = ho_connectedPeers g" "ho_bandwidthLimitedPeers h' = ho_bandwidthLimitedPeers g"
  shows "keeps h h'"
  using assms(1) keeps_fields [OF assms(2-5)] by (rule keeps_trans)

lemma keeps_eventData [keep_intros]: "keeps h (upd_peer i (\<lambda>p. p\<lparr>pr_eventData := d\<rparr>) h)"
  by (rule keeps_upd_peer) (simp add: contribution_defs)

lemma keeps_recalculate [keep_intros]: "keeps h (h\<lparr>ho_recalculateBandwidthLimits := b\<rparr>)"
  by (rule keeps_fields) simp_all

lemma host_ok_queue_less: "host_ok h \<Longrightarrow> i \<in> set (ho_dispatchQueue h) \<Longrightarrow> i < length (ho_peers h)"
  by (auto simp: host_ok_def queue_ok_def)

lemma undispatch_head:
  "ho_dispatchQueue h = i # queue \<Longrightarrow>
     upd_peer i (\<lambda>p. p\<lparr>pr_needsDispatch := False\<rparr>) (h\<lparr>ho_dispatchQueue := queue\<rparr>) = undispatch i h"
  by (simp add: undispatch_def)

lemma need_dispatch_after:
  "\<not> pr_needsDispatch (peer_at h i) \<Longrightarrow>
     (upd_peer i (\<lambda>p. p\<lparr>pr_needsDispatch := True\<rparr>) h)\<lparr>ho_dispatchQueue := ho_dispatchQueue h @ [i]\<rparr> = need_dispatch i h"
  by (simp add: need_dispatch_def upd_peer_def)

lemma receive_needsDispatch [simp]:
  assumes "i < length (ho_peers h)"
  shows "pr_needsDispatch (peer_at (snd (enet_peer_receive i h)) i) = pr_needsDispatch (peer_at h i)"
  using assms by (auto simp: enet_peer_receive_def Let_def split: list.split option.split)

lemma keeps_dispatch_peer:
  assumes i: "i < length (ho_peers h)" and q: "ho_dispatchQueue h = i # queue"
    and s: "dispatch_peer i event (h\<lparr>ho_dispatchQueue := queue\<rparr>) = (r, h')"
  shows "keeps h h'"
proof -
  define g where "g = undispatch i h"
  have g: "keeps h g" unfolding g_def using i by (rule keeps_undispatch)
  then have ig: "i < length (ho_peers g)" using i by (simp add: keeps_length)
  have nd: "\<not> pr_needsDispatch (peer_at g i)" using i by (simp add: g_def undispatch_def)
  have change: "keeps h (enet_protocol_change_state i state g)" for state
    using g keeps_change_state [OF ig] by (rule keeps_trans)
  have reset: "keeps h (enet_peer_reset i (g\<lparr>ho_recalculateBandwidthLimits := True\<rparr>))"
    using keeps_trans [OF g keeps_recalculate] i by (rule keeps_then) (rule keeps_reset)
  have receive: "keeps h k" if "enet_peer_receive i g = (x, k)" for x k
    using g keeps_pair [OF keeps_receive that] by (rule keeps_trans)
  have again: "keeps h ((upd_peer i (\<lambda>p. p\<lparr>pr_needsDispatch := True\<rparr>) k)\<lparr>ho_dispatchQueue := ho_dispatchQueue k @ [i]\<rparr>)"
    if "enet_peer_receive i g = (x, k)" for x k
  proof -
    have "\<not> pr_needsDispatch (peer_at k i)" using receive_needsDispatch [OF ig] nd by (simp add: that)
    then show ?thesis
      using keeps_then [OF receive [OF that] i keeps_need_dispatch] by (simp only: need_dispatch_after simp_thms)
  qed
  show ?thesis
    using s g unfolding dispatch_peer_def undispatch_head [OF q] g_def [symmetric] Let_def
    by (auto intro: change reset dest: receive again
        split: ENetPeerState.splits prod.splits option.splits if_splits)
qed

lemma keeps_dispatch_loop:
  "host_ok h \<Longrightarrow> dispatch_loop n event h = (r, event', h') \<Longrightarrow> keeps h h'"
proof (induction n arbitrary: event h)
  case 0
  then show ?case by simp
next
  case (Suc n)
  show ?case
  proof (cases "ho_dispatchQueue h")
    case Nil
    then show ?thesis using Suc.prems by simp
  next
    case (Cons i queue)
    then have i: "i < length (ho_peers h)" using host_ok_queue_less [OF Suc.prems(1)] by simp
    obtain e g where g: "dispatch_peer i event (h\<lparr>ho_dispatchQueue := queue\<rparr>) = (e, g)" by fastforce
    then have k: "keeps h g" by (rule keeps_dispatch_peer [OF i Cons])
    then have "host_ok g" using Suc.prems(1) by (simp add: keeps_def)
    then show ?thesis
      using Suc.prems(2) Suc.IH [of g event] k
      by (cases e) (auto simp: Cons g intro: keeps_trans)
  qed
qed

lemma keeps_dispatch_incoming:
  "host_ok h \<Longrightarrow> enet_protocol_dispatch_incoming_commands event h = (r, event', h') \<Longrightarrow> keeps h h'"
  unfolding enet_protocol_dispatch_incoming_commands_def by (rule keeps_dispatch_loop)

lemma keeps_notify_connect [keep_intros]:
  assumes i: "i < length (ho_peers h)" shows "keeps h (snd (enet_protocol_notify_connect i event h))"
proof -
  have "i < length (ho_peers (h\<lparr>ho_recalculateBandwidthLimits := True\<rparr>))" using i by simp
  from keeps_trans [OF keeps_recalculate keeps_change_state [OF this]]
    keeps_trans [OF keeps_recalculate keeps_dispatch_state [OF this]]
  show ?thesis by (simp add: enet_protocol_notify_connect_def Let_def split: option.split)
qed

lemma keeps_notify_disconnect [keep_intros]:
  assumes i: "i < length (ho_peers h)" shows "keeps h (snd (enet_protocol_notify_disconnect i event h))"
proof -
  define g where "g = (if pr_state (peer_at h i) \<ge> ENET_PEER_STATE_CONNECTION_PENDING
      then h\<lparr>ho_recalculateBandwidthLimits := True\<rparr> else h)"
  have g: "keeps h g" by (simp add: g_def keeps_recalculate)
  have reset: "keeps h (enet_peer_reset i g)" by (rule keeps_then [OF g i]) (rule keeps_reset)
  have zombie: "keeps h (enet_protocol_dispatch_state i ENET_PEER_STATE_ZOMBIE (upd_peer i (\<lambda>p. p\<lparr>pr_eventData := 0\<rparr>) g))"
    by (rule keeps_then [OF keeps_trans [OF g keeps_eventData] i]) (rule keeps_dispatch_state)
  show ?thesis
    unfolding enet_protocol_notify_disconnect_def Let_def g_def [symmetric]
    using reset zombie by (auto split: option.split)
qed

lemma keeps_remove_sent_unreliable [keep_intros]:
  assumes i: "i < length (ho_peers h)" shows "keeps h (enet_protocol_remove_sent_unreliable_commands i h)"
proof -
  define g where "g = fold sent_release (pr_sentUnreliableCommands (peer_at h i))
    (upd_peer i (\<lambda>p. p\<lparr>pr_sentUnreliableCommands := []\<rparr>) h)"
  have "keeps h (upd_peer i (\<lambda>p. p\<lparr>pr_sentUnreliableCommands := []\<rparr>) h)"
    by (rule keeps_upd_peer) (simp add: contribution_defs)
  also have "keeps \<dots> g" unfolding g_def by (rule keeps_more) (simp add: more_fold)
  finally have g: "keeps h g" .
  have "keeps h (enet_peer_disconnect_connected i d g)" for d
    by (rule keeps_then [OF g i]) (rule keeps_disconnect_connected)
  then show ?thesis
    using g by (simp add: enet_protocol_remove_sent_unreliable_commands_def Let_def g_def [symmetric])
qed

lemma keeps_remove_acknowledged [keep_intros]: "keeps h (remove_acknowledged i n channelID wasSent k oc h)"
proof -
  define h1 where "h1 = (if ucast channelID < pr_channelCount (peer_at h i)
    then upd_peer i (upd_channel (unat channelID) (release_reliable_window n)) h else h)"
  define h2 where "h2 = upd_peer i (\<lambda>p. if wasSent
    then p\<lparr>pr_sentReliableCommands := remove_nth k (pr_sentReliableCommands p)\<rparr>
    else p\<lparr>pr_outgoingReliableCommands := remove_nth k (pr_outgoingReliableCommands p)\<rparr>) h1"
  define h3 where "h3 = (if wasSent then upd_peer i (\<lambda>p. p\<lparr>pr_reliableDataInTransit :=
    pr_reliableDataInTransit p - ucast (oc_fragmentLength oc)\<rparr>) h2 else h2)"
  have "keeps h h1" by (simp add: h1_def keeps_upd_channel)
  also have "keeps h1 h2" unfolding h2_def by (rule keeps_upd_peer) (simp add: contribution_defs)
  finally have h2: "keeps h h2" .
  also have "keeps h2 h3" by (auto simp: h3_def contribution_defs)
  also have "keeps h3 (sent_release oc h3)" by (rule keeps_more) simp
  finally show ?thesis
    using h2 unfolding remove_acknowledged_def Let_def h1_def [symmetric] h2_def [symmetric] h3_def [symmetric] by simp
qed

lemma keeps_remove_sent_reliable [keep_intros]:
  "keeps h (snd (enet_protocol_remove_sent_reliable_command i n channelID h))"
proof -
  have "keeps s (upd_peer i (\<lambda>p. p\<lparr>pr_nextTimeout := t\<rparr>) s)" for s t
    by (rule keeps_upd_peer) (simp add: contribution_defs)
  then show ?thesis
    by (auto simp: enet_protocol_remove_sent_reliable_command_def Let_def
        split: option.split prod.split list.split intro: keeps_remove_acknowledged keeps_trans [OF keeps_remove_acknowledged])
qed

section \<open>The handlers\<close>

lemma connect_scan_sound:
  "connect_scan a c k ps q d = Some (Some i, d') \<Longrightarrow>
     q = Some i \<or> k \<le> i \<and> i < k + length ps \<and> pr_state (ps ! (i - k)) = ENET_PEER_STATE_DISCONNECTED"
proof (induction a c k ps q d rule: connect_scan.induct)
  case (2 a c k p ps q d)
  then show ?case by (fastforce simp: nth_Cons' split: if_splits)
qed simp

lemma keeps_handle_connect:
  assumes s: "enet_protocol_handle_connect cn h = (r, h')" shows "keeps h h' \<and> (\<forall>i. r = Some i \<longrightarrow> i < length (ho_peers h))"
proof (cases "connect_scan (ho_receivedAddress h) (cn_connectID cn) 0 (ho_peers h) None 0")
  case None
  then show ?thesis using s by (auto simp: enet_protocol_handle_connect_def Let_def split: if_splits)
next
  case (Some x)
  obtain q d where x: "x = (q, d)" by fastforce
  show ?thesis
  proof (cases q)
    case None
    then show ?thesis using s Some by (auto simp: enet_protocol_handle_connect_def x Let_def split: if_splits)
  next
    case (Some i)
    have i: "i < length (ho_peers h)" "pr_state (peer_at h i) = ENET_PEER_STATE_DISCONNECTED"
      using connect_scan_sound [of "ho_receivedAddress h" "cn_connectID cn" 0 "ho_peers h" None 0 i d]
        \<open>connect_scan _ _ _ _ _ _ = Some x\<close> by (simp_all add: x Some peer_at_def)
    obtain ok g where m: "enet_malloc h = (ok, g)" by fastforce
    have more: "enet_env.more g = enet_env.more h" using more_malloc [of h] by (simp add: m)
    then have g: "keeps h g" by (rule keeps_more)
    have "keeps g (upd_peer i (connect_peer g cn n) g)" for n
      by (rule keeps_upd_peer)
        (use i more_peer_at [OF more, of i] in \<open>simp add: contribution_defs connect_peer_def Let_def\<close>)
    then have connect: "keeps h k" if "enet_peer_queue_outgoing_command i c None 0 0 (upd_peer i (connect_peer g cn n) g) = (b, k)" for b c k n
      using keeps_trans [OF g] keeps_trans keeps_pair [OF keeps_queue_outgoing that] by blast
    have "keeps g (upd_peer i (\<lambda>p. p\<lparr>pr_channels := []\<rparr>) g)"
      by (rule keeps_upd_peer) (simp add: contribution_defs)
    then have "keeps h (upd_peer i (\<lambda>p. p\<lparr>pr_channels := []\<rparr>) g)" using g by (blast intro: keeps_trans)
    then show ?thesis
      using s i connect \<open>connect_scan _ _ _ _ _ _ = Some x\<close>
      by (auto simp: enet_protocol_handle_connect_def x Some Let_def m prod.case_eq_if split: if_splits)
        (metis prod.collapse)+
  qed
qed

lemma keeps_upd_incoming [keep_intros]: "keeps h (upd_incoming i c addr f h)"
  unfolding upd_incoming_def by (rule keeps_upd_peer) (simp add: contribution_defs upd_channel_def)

lemma keeps_set_packets: "keeps h (h\<lparr>env_packets := x\<rparr>)"
  by (rule keeps_fields) simp_all

lemma keeps_fragment_store:
  assumes i: "i < length (ho_peers h)"
    and d: "\<And>g. i < length (ho_peers g) \<Longrightarrow> keeps g (dispatch i c g)"
  shows "keeps h (fragment_store dispatch i c addr n off len payload h)"
proof -
  have m: "keeps h ((if b then set_ub (upd_incoming i c addr f h) else upd_incoming i c addr f h)\<lparr>env_packets := x\<rparr>)" for b f x
    by (simp add: keeps_trans [OF keeps_trans [OF keeps_upd_incoming keeps_set_ub] keeps_set_packets]
        keeps_trans [OF keeps_upd_incoming keeps_set_packets])
  have "keeps h (dispatch i c ((if b then set_ub (upd_incoming i c addr f h) else upd_incoming i c addr f h)\<lparr>env_packets := x\<rparr>))" for b f x
    by (rule keeps_then [OF m i]) (rule d)
  then show ?thesis
    using m keeps_set_ub unfolding fragment_store_def Let_def
    by (simp split: option.split prod.split)
qed

lemma keeps_send_reliable:
  assumes i: "i < length (ho_peers h)" and s: "enet_protocol_handle_send_reliable i command sr cur h = (r, cur', h')"
  shows "keeps h h'"
  using s keeps_queue_incoming [OF i]
  by (auto simp: enet_protocol_handle_send_reliable_def Let_def prod.case_eq_if split: if_splits)

lemma keeps_send_unreliable:
  assumes i: "i < length (ho_peers h)" and s: "enet_protocol_handle_send_unreliable i command sr cur h = (r, cur', h')"
  shows "keeps h h'"
  using s keeps_queue_incoming [OF i]
  by (auto simp: enet_protocol_handle_send_unreliable_def Let_def prod.case_eq_if split: if_splits)

lemma keeps_send_unsequenced:
  assumes i: "i < length (ho_peers h)" and s: "enet_protocol_handle_send_unsequenced i command sq cur h = (r, cur', h')"
  shows "keeps h h'"
proof -
  define g where "g b x = (if b then upd_peer i (\<lambda>p. p\<lparr>pr_incomingUnsequencedGroup := x,
      pr_unsequencedWindow := replicate (length (pr_unsequencedWindow p)) 0\<rparr>) h else h)" for b x
  have g: "keeps h (g b x)" for b x by (auto simp: g_def contribution_defs)
  have q: "keeps h (snd (enet_peer_queue_incoming_command i a b c d e (g f x)))" for a b c d e f x
    by (rule keeps_then [OF g i]) (rule keeps_queue_incoming)
  have "keeps k (upd_peer i (\<lambda>p. p\<lparr>pr_unsequencedWindow := w p\<rparr>) k)" for w k
    by (rule keeps_upd_peer) (simp add: contribution_defs)
  then have w: "keeps h (upd_peer i (\<lambda>p. p\<lparr>pr_unsequencedWindow := w p\<rparr>)
      (snd (enet_peer_queue_incoming_command i a b c d e (g f x))))" for w a b c d e f x
    using q by (blast intro: keeps_trans)
  show ?thesis
    using s q w g
    by (auto simp: enet_protocol_handle_send_unsequenced_def Let_def prod.case_eq_if g_def [symmetric] split: if_splits)
qed

lemma keeps_fragment_new:
  assumes i: "i < length (ho_peers h)" and d: "\<And>g. i < length (ho_peers g) \<Longrightarrow> keeps g (dispatch i c g)"
  shows "keeps h (fragment_store dispatch i c addr n off len payload
    (snd (enet_peer_queue_incoming_command i command data l flags k h)))"
  by (rule keeps_then [OF keeps_queue_incoming [OF i] i]) (rule keeps_fragment_store, assumption, rule d)

lemma keeps_send_fragment:
  assumes i: "i < length (ho_peers h)" and s: "enet_protocol_handle_send_fragment i command sf cur h = (r, cur', h')"
  shows "keeps h h'"
proof -
  have ub: "keeps h (set_ub (snd (enet_peer_queue_incoming_command i a b c d e h)))" for a b c d e
    by (rule keeps_trans [OF keeps_queue_incoming [OF i] keeps_set_ub])
  show ?thesis
    using s ub keeps_queue_incoming [OF i]
      keeps_fragment_store [where dispatch = enet_peer_dispatch_incoming_reliable_commands, OF i keeps_dispatch_reliable]
      keeps_fragment_new [where dispatch = enet_peer_dispatch_incoming_reliable_commands, OF i keeps_dispatch_reliable]
    by (auto simp: enet_protocol_handle_send_fragment_def Let_def prod.case_eq_if
        split: if_splits fragment_search.splits incoming_result.splits)
qed

lemma keeps_send_unreliable_fragment:
  assumes i: "i < length (ho_peers h)" and s: "enet_protocol_handle_send_unreliable_fragment i command sf cur h = (r, cur', h')"
  shows "keeps h h'"
proof -
  have ub: "keeps h (set_ub (snd (enet_peer_queue_incoming_command i a b c d e h)))" for a b c d e
    by (rule keeps_trans [OF keeps_queue_incoming [OF i] keeps_set_ub])
  show ?thesis
    using s ub keeps_queue_incoming [OF i]
      keeps_fragment_store [where dispatch = enet_peer_dispatch_incoming_unreliable_commands, OF i keeps_dispatch_unreliable]
      keeps_fragment_new [where dispatch = enet_peer_dispatch_incoming_unreliable_commands, OF i keeps_dispatch_unreliable]
    by (auto simp: enet_protocol_handle_send_unreliable_fragment_def Let_def prod.case_eq_if
        split: if_splits fragment_search.splits incoming_result.splits)
qed

lemma keeps_bandwidth_limit:
  assumes i: "i < length (ho_peers h)" and s: "enet_protocol_handle_bandwidth_limit i bl h = (r, h')"
  shows "keeps h h'"
proof (cases "peer_is_connected (peer_at h i)")
  case False
  then show ?thesis using s by (simp add: enet_protocol_handle_bandwidth_limit_def peer_is_connected_def)
next
  case True
  define w where "w (p :: ENetPeer) = clamp_windowSize (bandwidth_windowSize (pr_incomingBandwidth p) (ho_outgoingBandwidth h))" for p
  define f :: "ENetPeer \<Rightarrow> ENetPeer" where "f p = (let p = p\<lparr>pr_incomingBandwidth := ENET_NET_TO_HOST_32 (bl_incomingBandwidth bl),
      pr_outgoingBandwidth := ENET_NET_TO_HOST_32 (bl_outgoingBandwidth bl)\<rparr> in p\<lparr>pr_windowSize := w p\<rparr>)" for p
  show ?thesis
    by (rule keeps_counts [where f = f, OF i])
      (use i True s in \<open>auto simp: enet_protocol_handle_bandwidth_limit_def upd_peer_def bit_of_def
        peer_is_limited_def peer_is_connected_def peer_at_def f_def w_def Let_def\<close>)
qed

lemma keeps_throttle_configure_handler:
  "enet_protocol_handle_throttle_configure i tc h = (r, h') \<Longrightarrow> keeps h h'"
  by (auto simp: enet_protocol_handle_throttle_configure_def contribution_defs split: if_splits)

lemma keeps_handle_disconnect:
  assumes i: "i < length (ho_peers h)" and s: "enet_protocol_handle_disconnect i command dc h = (r, h')"
  shows "keeps h h'"
proof -
  define g where "g = enet_peer_reset_queues i h"
  have g: "keeps h g" unfolding g_def using i by (rule keeps_reset_queues)
  have "keeps h (enet_protocol_dispatch_state i st g)" "keeps h (enet_protocol_change_state i st g)"
    "keeps h (enet_peer_reset i g)" for st
    by (rule keeps_then [OF g i]; rule keep_intros; assumption)+
  moreover have "keeps h (enet_peer_reset i (g\<lparr>ho_recalculateBandwidthLimits := True\<rparr>))"
    by (rule keeps_then [OF keeps_trans [OF g keeps_recalculate] i]) (rule keeps_reset)
  moreover have "keeps h (upd_peer i (\<lambda>p. p\<lparr>pr_eventData := d\<rparr>) k)" if "keeps h k" for d k
    using that keeps_eventData by (rule keeps_trans)
  ultimately show ?thesis
    using s unfolding enet_protocol_handle_disconnect_def Let_def g_def [symmetric]
    by (auto split: if_splits)
qed

lemma throttle_fields [simp]:
  "pr_state (snd (enet_peer_throttle rtt p)) = pr_state p"
  "pr_incomingBandwidth (snd (enet_peer_throttle rtt p)) = pr_incomingBandwidth p"
  "pr_needsDispatch (snd (enet_peer_throttle rtt p)) = pr_needsDispatch p"
  by (simp_all add: enet_peer_throttle_def Let_def)

lemma acknowledge_fields [simp]:
  "pr_state (acknowledge_peer t rtt p) = pr_state p"
  "pr_incomingBandwidth (acknowledge_peer t rtt p) = pr_incomingBandwidth p"
  "pr_needsDispatch (acknowledge_peer t rtt p) = pr_needsDispatch p"
  by (simp_all add: acknowledge_peer_def Let_def)

lemma contribution_acknowledge [simp]: "contribution (acknowledge_peer t rtt p) = contribution p"
  by (simp add: contribution_defs)

lemma keeps_acknowledge:
  assumes i: "i < length (ho_peers h)" and s: "enet_protocol_handle_acknowledge i command ak event h = (r, event', h')"
  shows "keeps h h'"
proof -
  define t where "t = ENET_TIME_DIFFERENCE (ho_serviceTime h)
    (acknowledge_sentTime (ho_serviceTime h) (ENET_NET_TO_HOST_16 (ak_receivedSentTime ak)))"
  obtain n g where g: "enet_protocol_remove_sent_reliable_command i
      (ENET_NET_TO_HOST_16 (ak_receivedReliableSequenceNumber ak)) (hd_channelID (pc_header command))
      (upd_peer i (acknowledge_peer (ho_serviceTime h) t) h) = (n, g)" by fastforce
  have "keeps h (upd_peer i (acknowledge_peer (ho_serviceTime h) t) h)" by (rule keeps_upd_peer) simp
  then have k: "keeps h g" using keeps_pair [OF keeps_remove_sent_reliable g] by (rule keeps_trans)
  have "keeps h (snd (enet_protocol_notify_connect i event g))" "keeps h (snd (enet_protocol_notify_disconnect i event g))"
    "keeps h (enet_peer_disconnect_connected i d g)" for d
    by (rule keeps_then [OF k i]; rule keep_intros; assumption)+
  moreover have "keeps h h'" if "(0, enet_protocol_notify_connect i event g) = (r, event', h')"
      "keeps h (snd (enet_protocol_notify_connect i event g))"
    using that by (metis snd_conv)
  moreover have "keeps h h'" if "(0, enet_protocol_notify_disconnect i event g) = (r, event', h')"
      "keeps h (snd (enet_protocol_notify_disconnect i event g))"
    using that by (metis snd_conv)
  ultimately show ?thesis
    using s k unfolding enet_protocol_handle_acknowledge_def Let_def t_def [symmetric] g
    by (auto split: if_splits)
qed

lemma keeps_verify_connect:
  assumes i: "i < length (ho_peers h)" and s: "enet_protocol_handle_verify_connect i vc event h = (r, event', h')"
  shows "keeps h h'"
proof (cases "pr_state (peer_at h i) \<noteq> ENET_PEER_STATE_CONNECTING \<or> verify_mismatch vc (peer_at h i)")
  case True
  have "keeps h (enet_protocol_dispatch_state i ENET_PEER_STATE_ZOMBIE (upd_peer i (\<lambda>p. p\<lparr>pr_eventData := 0\<rparr>) h))"
    by (rule keeps_then [OF keeps_eventData i]) (rule keeps_dispatch_state)
  then show ?thesis using True s by (auto simp: enet_protocol_handle_verify_connect_def split: if_splits)
next
  case False
  obtain n g where g: "enet_protocol_remove_sent_reliable_command i 1 0xFF h = (n, g)" by fastforce
  have "pr_state (peer_at g i) = pr_state (peer_at h i)"
    using i g by (auto simp: enet_protocol_remove_sent_reliable_command_def remove_acknowledged_def Let_def upd_channel_def
        split: option.splits prod.splits list.splits if_splits)
  then have "\<not> peer_is_connected (peer_at g i)" using False by (simp add: peer_is_connected_def)
  then have "keeps g (upd_peer i (verify_peer vc) g)"
    by (intro keeps_upd_peer) (simp add: contribution_defs verify_peer_def Let_def)
  with keeps_pair [OF keeps_remove_sent_reliable g] have "keeps h (upd_peer i (verify_peer vc) g)" by (rule keeps_trans)
  then have "keeps h (snd (enet_protocol_notify_connect i event (upd_peer i (verify_peer vc) g)))"
    using i by (rule keeps_then) (rule keeps_notify_connect)
  then show ?thesis
    using s False by (simp add: enet_protocol_handle_verify_connect_def g Let_def)
qed

end
