(* ===== verification/ENet_Loops.thy ===== *)
theory ENet_Loops
  imports ENet_Host
begin

text \<open>
  The loops of \<^verbatim>\<open>protocol.c\<close> as clients of the operations they call. The locale
  \<open>host_invariant\<close> is the contract of those operations with the loops: a property of the host
  (and of the peer a datagram has been attributed to) that every operation keeps. Its lemmas
  carry the property through a datagram, the reception of datagrams, the rounds of sending and
  \<^verbatim>\<open>enet_host_service\<close>. Invariants of the host are interpretations of it.
\<close>

locale host_invariant =
  fixes I :: "nat option \<Rightarrow> ENetHost \<Rightarrow> bool"
  assumes command: "I peer h \<Longrightarrow> handle_command peer cmd cur event h = (err, peer', cur', event', h') \<Longrightarrow> I peer' h'"
    and acknowledge: "I (Some i) h \<Longrightarrow> I (Some i) (acknowledge_command i cmd sent h)"
    and account: "I peer h \<Longrightarrow> I peer (incoming_account peer h)"
    and ub: "I peer h \<Longrightarrow> I peer (set_ub h)"
    and select: "I None h \<Longrightarrow> i < ho_peerCount h \<Longrightarrow> I (Some i) h"
    and release: "I peer h \<Longrightarrow> I None h"
    and send: "I None h \<Longrightarrow> i < ho_peerCount h \<Longrightarrow> send_peer n prefix check i event h = (r, event', h') \<Longrightarrow>
      I None h' \<and> ho_peerCount h' = ho_peerCount h"
    and dispatch: "I None h \<Longrightarrow> enet_protocol_dispatch_incoming_commands ev h = (k, ev', h') \<Longrightarrow> I None h'"
    and throttle: "I None h \<Longrightarrow> I None (enet_host_bandwidth_throttle h)"
    and received: "I peer h \<Longrightarrow> I peer (h\<lparr>ho_receivedData := bs\<rparr>)"
    and statistics: "I peer h \<Longrightarrow> I peer (h\<lparr>ho_totalReceivedData := a, ho_totalReceivedPackets := b\<rparr>)"
    and sender: "I peer h \<Longrightarrow> I peer (h\<lparr>ho_receivedAddress := address\<rparr>)"
    and io: "I peer h \<Longrightarrow> I peer (h\<lparr>env_recv := rs\<rparr>)" "I peer h \<Longrightarrow> I peer (h\<lparr>env_waits := ws\<rparr>)"
      "I peer h \<Longrightarrow> I peer (h\<lparr>env_rand := ns\<rparr>)" "I peer h \<Longrightarrow> I peer (h\<lparr>env_now := t, env_clock := ts\<rparr>)"
      "I peer h \<Longrightarrow> I peer (h\<lparr>ho_serviceTime := t\<rparr>)"
    and continue: "I peer h \<Longrightarrow> I peer (h\<lparr>ho_continueSending := c\<rparr>)"
begin

text \<open>The commands of a datagram.\<close>

lemma incoming_loop:
  "I peer h \<Longrightarrow> incoming_loop flags limit peer cur event h = (event', h') \<Longrightarrow> I None h'"
proof (induction "limit - cur" arbitrary: peer cur event h rule: less_induct)
  case less
  show ?case
  proof (cases "command_end peer limit cur h")
    case None
    then have "h' = h" using less.prems(2) by (subst (asm) incoming_loop.simps) simp
    then show ?thesis using less.prems(1) release by simp
  next
    case (Some cur1)
    define cmd where "cmd = set_reliableSequenceNumber (ENET_NET_TO_HOST_16
      (hd_reliableSequenceNumber (pc_header (ENetProtocol_at (drop cur (ho_receivedData h))))))
      (ENetProtocol_at (drop cur (ho_receivedData h)))"
    obtain err q cur2 e g where c: "handle_command peer cmd cur1 event h = (err, q, cur2, e, g)"
      by (metis prod_cases5)
    then have g: "I q g" using command less.prems(1) by blast
    have "limit - cur2 < limit - cur"
      using command_end_bounds [OF Some] handle_command_offset [OF c] by linarith
    then have rec: "I q k \<Longrightarrow> incoming_loop flags limit q cur2 e k = (event', h') \<Longrightarrow> I None h'" for k
      by (rule less.hyps)
    have step: "incoming_loop flags limit peer cur event h =
      (if err then (e, g)
       else case q of
         Some i \<Rightarrow>
           if command_of cmd AND ENET_PROTOCOL_COMMAND_FLAG_ACKNOWLEDGE \<noteq> 0 then
             if flags AND ENET_PROTOCOL_HEADER_FLAG_SENT_TIME = 0 then (e, g)
             else incoming_loop flags limit q cur2 e
                    (acknowledge_command i cmd (ENET_NET_TO_HOST_16 (rd16 (drop 2 (ho_receivedData g)))) g)
           else incoming_loop flags limit q cur2 e g
       | None \<Rightarrow> incoming_loop flags limit q cur2 e g)"
      by (subst incoming_loop.simps) (simp only: Some option.case Let_def cmd_def [symmetric] c prod.case)
    have ack: "I None h'" if "q = Some i"
        "incoming_loop flags limit (Some i) cur2 e (acknowledge_command i cmd t g) = (event', h')" for i t
      using rec [of "acknowledge_command i cmd t g"] acknowledge [of i g cmd t] g that by simp
    show ?thesis
      using less.prems(2) release [OF g] rec [OF g]
      by (auto simp: step split: if_splits option.splits dest: ack)
  qed
qed

lemma incoming_peer_select: "I None h \<Longrightarrow> incoming_peer a b h = Some peer \<Longrightarrow> I peer h"
  by (auto simp: incoming_peer_def Let_def split: if_splits intro: select)

lemma handle_incoming:
  assumes I: "I None h" and s: "enet_protocol_handle_incoming_commands event h = (r, event', h')"
  shows "I None h'"
proof (cases "length (ho_receivedData h) < 2")
  case True
  then show ?thesis using s I by (simp add: enet_protocol_handle_incoming_commands_def)
next
  case False
  define field where "field = ENET_NET_TO_HOST_16 (rd16 (ho_receivedData h))"
  define flags where "flags = field AND ENET_PROTOCOL_HEADER_FLAG_MASK"
  define n where "n = header_size flags h"
  define found where "found = incoming_peer (field AND NOT (ENET_PROTOCOL_HEADER_FLAG_MASK OR ENET_PROTOCOL_HEADER_SESSION_MASK))
    (ucast (drop_bit ENET_PROTOCOL_HEADER_SESSION_SHIFT (field AND ENET_PROTOCOL_HEADER_SESSION_MASK))) h"
  define unpacked where "unpacked = (if flags AND ENET_PROTOCOL_HEADER_FLAG_COMPRESSED \<noteq> 0
    then incoming_decompress n h else (Some h, h))"
  have s': "(case found of
      None \<Rightarrow> (0, event, h)
    | Some peer \<Rightarrow>
       (case unpacked of
          (None, h) \<Rightarrow> (0, event, h)
        | (Some h, _) \<Rightarrow>
           (case incoming_checksum peer n h of
              (False, h) \<Rightarrow> (0, event, h)
            | (True, h) \<Rightarrow>
                let h = incoming_account peer h;
                    (event, h) = incoming_loop flags (length (ho_receivedData h)) peer n event h
                in case event of
                     None \<Rightarrow> (0, event, h)
                   | Some ev \<Rightarrow> (if ev_type ev \<noteq> ENET_EVENT_TYPE_NONE then 1 else 0, event, h)))) = (r, event', h')"
    using s False unfolding enet_protocol_handle_incoming_commands_def Let_def
      field_def [symmetric] flags_def [symmetric] n_def [symmetric] found_def [symmetric] unpacked_def [symmetric]
    by simp
  show ?thesis
  proof (cases found)
    case None
    then show ?thesis using s' I by simp
  next
    case (Some peer)
    then have p: "I peer h" using I unfolding found_def by (blast intro: incoming_peer_select)
    obtain k k' where u: "unpacked = (k, k')" by fastforce
    have k': "I None k'" and k: "\<And>g. k = Some g \<Longrightarrow> I peer g"
      using u I p by (auto simp: unpacked_def incoming_decompress_def Let_def
          split: if_splits option.splits intro: ub received)
    show ?thesis
    proof (cases k)
      case None
      then show ?thesis using s' k' Some u by simp
    next
      case (Some g)
      then have g: "I peer g" by (rule k)
      obtain ok g1 where c: "incoming_checksum peer n g = (ok, g1)" by fastforce
      then have g1: "I peer g1"
        using g by (auto simp: incoming_checksum_def Let_def split: if_splits option.splits intro: ub received)
      obtain e g2 where l: "incoming_loop flags (length (ho_receivedData (incoming_account peer g1))) peer n event
          (incoming_account peer g1) = (e, g2)" by fastforce
      have "I None g2" using account [OF g1] l by (rule incoming_loop)
      then show ?thesis
        using s' release [OF g1] Some u \<open>found = Some peer\<close> c l by (cases ok) (auto split: option.splits)
    qed
  qed
qed

text \<open>Receiving.\<close>

lemma socket_receive: "I peer h \<Longrightarrow> enet_socket_receive h = (r, h') \<Longrightarrow> I peer h'"
  by (auto simp: enet_socket_receive_def Let_def split: list.splits received.splits if_splits intro: io sender)

lemma received_datagram:
  assumes "I peer h"
  shows "I peer (h\<lparr>ho_receivedData := bs, ho_totalReceivedData := a, ho_totalReceivedPackets := b\<rparr>)"
  using statistics [OF received [OF assms]] by simp

lemma receive_loop:
  assumes intercept: "\<And>f ev g v ev' g'. intercept = Some f \<Longrightarrow> I None g \<Longrightarrow> f ev g = (v, ev', g') \<Longrightarrow> I None g'"
  shows "I None h \<Longrightarrow> receive_loop intercept n event h = (r, event', h') \<Longrightarrow> I None h'"
proof (induction n arbitrary: event h)
  case 0
  then show ?case by simp
next
  case (Suc n)
  obtain x g where r: "enet_socket_receive h = (x, g)" by fastforce
  have g: "I None g" using Suc.prems(1) r by (rule socket_receive)
  show ?case
  proof (cases x)
    case (RecvData address bs)
    define k where "k = g\<lparr>ho_receivedData := bs,
      ho_totalReceivedData := ho_totalReceivedData g + word_of_nat (length bs),
      ho_totalReceivedPackets := ho_totalReceivedPackets g + 1\<rparr>"
    have k: "I None k" unfolding k_def using g by (rule received_datagram)
    obtain v e l where i: "(case intercept of None \<Rightarrow> (0, event, k) | Some f \<Rightarrow> f event k) = (v, e, l)"
      using prod_cases3 by blast
    have l: "I None l" using i k by (auto split: option.splits intro: intercept)
    obtain q e' m where q: "enet_protocol_handle_incoming_commands e l = (q, e', m)" using prod_cases3 by blast
    have m: "I None m" using l q by (rule handle_incoming)
    show ?thesis
      using Suc.prems(2) l m Suc.IH
      by (simp add: r RecvData k_def [symmetric] i q split: if_splits)
  qed (use Suc.prems(2) g in \<open>simp_all add: r\<close>)
qed

text \<open>Sending.\<close>

lemma send_peers:
  "I None h \<Longrightarrow> (\<And>i. i \<in> set is \<Longrightarrow> i < ho_peerCount h) \<Longrightarrow>
     send_peers n prefix check is event h = (r, event', h') \<Longrightarrow> I None h'"
proof (induction "is" arbitrary: event h)
  case Nil
  then show ?case by simp
next
  case (Cons i "is")
  obtain x e g where s: "send_peer n prefix check i event h = (x, e, g)" using prod_cases3 by blast
  have g: "I None g \<and> ho_peerCount g = ho_peerCount h" using send [OF Cons.prems(1) _ s] Cons.prems(2) by simp
  then show ?case using Cons by (cases x) (auto simp: s)
qed

lemma send_rounds:
  "send_rounds n prefix check event h = Some y \<Longrightarrow> I None h \<Longrightarrow> I None (snd (snd y))"
proof (induction rule: send_rounds.raw_induct [rotated, consumes 1])
  case (1 rounds n prefix check event h y)
  obtain x e g where s: "send_peers n prefix check [0..<ho_peerCount h] event (h\<lparr>ho_continueSending := False\<rparr>) = (x, e, g)"
    using prod_cases3 by blast
  have "ho_peerCount (h\<lparr>ho_continueSending := False\<rparr>) = ho_peerCount h" by (simp add: ho_peerCount_def)
  then have "I None g" using send_peers [OF continue [OF "1.prems"] _ s] by simp
  then show ?case
    using 1 by (auto simp: s split: if_splits peer_sent.splits)
qed

lemma integrity: "I None h \<Longrightarrow> integrity_prefix h = (x, h') \<Longrightarrow> I None h'"
  by (auto simp: integrity_prefix_def c_rand_def Let_def split: if_splits list.splits prod.splits intro: io ub)

lemma send_outgoing:
  assumes "I None h" "enet_protocol_send_outgoing_commands event check h = Some (r, event', h')"
  shows "I None h'"
proof -
  obtain x g where x: "integrity_prefix h = (x, g)" by fastforce
  then have "I None (g\<lparr>ho_continueSending := True\<rparr>)" using assms(1) by (blast intro: integrity continue)
  from send_rounds [OF _ this] show ?thesis
    using assms(2) by (fastforce simp: enet_protocol_send_outgoing_commands_def x Let_def)
qed

lemma service_time: "I peer h \<Longrightarrow> I peer (update_serviceTime h)"
  by (auto simp: update_serviceTime_def enet_time_get_def Let_def split: list.splits intro: io)

lemma flush: "I None h \<Longrightarrow> enet_host_flush h = Some h' \<Longrightarrow> I None h'"
  by (auto simp: enet_host_flush_def intro: send_outgoing [OF service_time])

text \<open>The service loop.\<close>

lemma wait_loop: "I None h \<Longrightarrow> wait_loop timeout h = (w, h') \<Longrightarrow> I None h'"
proof (induction timeout h rule: wait_loop.induct)
  case (1 timeout h)
  have t: "I None (update_serviceTime h)" using "1.prems"(1) by (rule service_time)
  then have w: "\<And>ws. I None (update_serviceTime h\<lparr>env_waits := ws\<rparr>)" by (rule io)
  show ?case
    using "1.prems"(2) t w "1.IH" [OF refl _ _ refl refl]
    by (subst (asm) wait_loop.simps) (auto simp: Let_def split: if_splits list.splits prod.splits)
qed

lemma service_round:
  assumes intercept: "\<And>f ev g v ev' g'. intercept = Some f \<Longrightarrow> I None g \<Longrightarrow> f ev g = (v, ev', g') \<Longrightarrow> I None g'"
    and I: "I None h" and s: "service_round intercept event h = Some (r, event', h')"
  shows "I None h'"
proof -
  define k where "k = (if ENET_TIME_DIFFERENCE (ho_serviceTime h) (ho_bandwidthThrottleEpoch h)
    \<ge> ENET_HOST_BANDWIDTH_THROTTLE_INTERVAL then enet_host_bandwidth_throttle h else h)"
  have k: "I None k" using I throttle by (simp add: k_def)
  obtain r1 e1 h1 where s1: "enet_protocol_send_outgoing_commands event True k = Some (r1, e1, h1)"
    using s by (auto simp: service_round_def k_def [symmetric] Let_def split: option.splits)
  have h1: "I None h1" using k s1 by (rule send_outgoing)
  obtain r2 e2 h2 where s2: "enet_protocol_receive_incoming_commands intercept e1 h1 = (r2, e2, h2)"
    using prod_cases3 by blast
  have h2: "I None h2" using receive_loop [OF intercept h1] s2
    by (simp add: enet_protocol_receive_incoming_commands_def)
  show ?thesis
    using s h1 h2
    by (auto simp: service_round_def k_def [symmetric] s1 s2 Let_def split: if_splits option.splits prod.splits
        dest: send_outgoing [OF h2] dispatch)
qed

lemma service_loop:
  "service_loop intercept timeout event h = Some y \<Longrightarrow>
     (\<And>f ev g v ev' g'. intercept = Some f \<Longrightarrow> I None g \<Longrightarrow> f ev g = (v, ev', g') \<Longrightarrow> I None g') \<Longrightarrow>
     I None h \<Longrightarrow> I None (snd (snd y))"
proof (induction rule: service_loop.raw_induct [rotated, consumes 1])
  case (1 loop intercept timeout event h y)
  obtain r e g where s: "service_round intercept event h = Some (r, e, g)"
    using "1.hyps" by (auto split: option.splits)
  have g: "I None g" using "1.prems" s by (rule service_round)
  show ?case
  proof (cases "r = None \<and> \<not> ENET_TIME_GREATER_EQUAL (ho_serviceTime g) timeout")
    case False
    then have "y = (case r of None \<Rightarrow> 0 | Some r \<Rightarrow> r, e, g)"
      using "1.hyps" by (auto simp: s split: option.splits if_splits)
    then show ?thesis using g by simp
  next
    case True
    obtain w k where w: "wait_loop timeout g = (w, k)" by fastforce
    have "I None k" using g w by (rule wait_loop)
    then show ?thesis
      using "1.hyps" "1.IH" "1.prems"(1) True service_time [of None k]
      by (auto simp: s w split: waited.splits if_splits)
  qed
qed

lemma service:
  assumes intercept: "\<And>f ev g v ev' g'. intercept = Some f \<Longrightarrow> I None g \<Longrightarrow> f ev g = (v, ev', g') \<Longrightarrow> I None g'"
    and I: "I None h" and s: "enet_host_service intercept timeout event h = Some (r, event', h')"
  shows "I None h'"
proof -
  obtain q e g where d: "(case event of None \<Rightarrow> (0, None, h)
     | Some ev \<Rightarrow> let (r, ev, h) = enet_protocol_dispatch_incoming_commands (fresh_event ev) h in (r, Some ev, h)) = (q, e, g)"
    using prod_cases3 by blast
  have g: "I None g" using d I by (auto split: option.splits prod.splits intro: dispatch)
  have "I None h'" if "service_loop intercept t e (update_serviceTime g) = Some (r, event', h')" for t
    using service_loop [OF that intercept service_time [OF g]] by simp
  then show ?thesis
    using s g unfolding enet_host_service_def d by (auto simp: Let_def split: if_splits)
qed

end

end
