(* ===== verification/ENet_Invariant.thy ===== *)
theory ENet_Invariant
  imports ENet_Preservation ENet_Loops
begin

text \<open>
  The bookkeeping invariant through the whole host: the remaining operations keep it, so it is
  an interpretation of \<open>host_invariant\<close>, and the properties at the end state it for the
  functions that a program calls.
\<close>

section \<open>Commands\<close>

lemma keeps_handle_command:
  assumes p: "\<And>i. peer = Some i \<Longrightarrow> i < length (ho_peers h)"
    and s: "handle_command peer command cur event h = (err, peer', cur', event', h')"
  shows "keeps h h' \<and> (\<forall>i. peer' = Some i \<longrightarrow> i < length (ho_peers h'))"
proof (cases peer)
  case None
  then show ?thesis
    using s by (auto simp: handle_command_def keeps_length dest!: keeps_handle_connect
        split: ENetProtocolBody.splits prod.splits)
next
  case (Some i)
  then have i: "i < length (ho_peers h)" by (rule p)
  have "keeps h h' \<and> peer' = Some i"
    using s Some
    by (auto simp: handle_command_def Let_def split: ENetProtocolBody.splits prod.splits if_splits
        dest: keeps_acknowledge [OF i] keeps_verify_connect [OF i] keeps_handle_disconnect [OF i]
          keeps_send_reliable [OF i] keeps_send_unreliable [OF i] keeps_send_unsequenced [OF i]
          keeps_send_fragment [OF i] keeps_send_unreliable_fragment [OF i]
          keeps_bandwidth_limit [OF i] keeps_throttle_configure_handler)
  then show ?thesis using i by (auto simp: keeps_length)
qed

lemma keeps_acknowledge_command: "keeps h (acknowledge_command i command t h)"
  unfolding acknowledge_command_def
  by (auto split: ENetPeerState.split intro: keeps_queue_acknowledgement)

lemma keeps_incoming_account: "keeps h (incoming_account peer h)"
  by (auto simp: incoming_account_def contribution_defs split: option.split)

section \<open>Sending\<close>

lemma keeps_put_command [keep_intros]: "keeps h (put_command c n h)"
  by (rule keeps_fields) (simp_all add: put_command_def)

lemma keeps_put_data [keep_intros]: "keeps h (put_data oc q h)"
  by (rule keeps_fields) (simp_all add: put_data_def)

lemma keeps_continue [keep_intros]: "keeps h (h\<lparr>ho_continueSending := b\<rparr>)"
  by (rule keeps_fields) simp_all

lemma keeps_acknowledgements_loop:
  "i < length (ho_peers h) \<Longrightarrow> keeps h (send_acknowledgements_loop i aqs h)"
proof (induction aqs arbitrary: h)
  case Nil
  then show ?case by simp
next
  case (Cons aq aqs)
  define g where "g = put_command (acknowledge_wire aq) sizeof_ENetProtocolAcknowledge h"
  define k where "k = (if command_number (aq_command aq) = ENET_PROTOCOL_COMMAND_DISCONNECT
    then enet_protocol_dispatch_state i ENET_PEER_STATE_ZOMBIE g else g)"
  define l where "l = upd_peer i (\<lambda>p. p\<lparr>pr_acknowledgements := aqs\<rparr>) k"
  have g: "keeps h g" unfolding g_def by (rule keeps_put_command)
  have "keeps h k" by (rule keeps_then [OF g Cons.prems]) (simp add: k_def keeps_dispatch_state)
  moreover have "keeps k l" unfolding l_def by (rule keeps_upd_peer) (simp add: contribution_defs)
  ultimately have "keeps h l" by (rule keeps_trans)
  then have "keeps h (send_acknowledgements_loop i aqs l)" using Cons.prems by (rule keeps_then) (rule Cons.IH)
  then show ?case
    by (simp add: Let_def g_def [symmetric] k_def [symmetric] l_def [symmetric] keeps_continue)
qed

lemma keeps_queues [keep_intros]:
  "keeps h (upd_peer i (\<lambda>p. p\<lparr>pr_outgoingUnreliableCommands := x p\<rparr>) h)"
  "keeps h (upd_peer i (\<lambda>p. p\<lparr>pr_sentUnreliableCommands := x p\<rparr>) h)"
  "keeps h (upd_peer i throttle_count h)"
  by (rule keeps_upd_peer; simp add: contribution_defs throttle_count_def)+

lemma keeps_drop_unreliable [keep_intros]: "keeps h (drop_unreliable i oc ocs h)"
  unfolding drop_unreliable_def by (rule keeps_trans [OF keeps_more keeps_queues(1)]) (simp add: more_fold)

lemma keeps_unreliable_command [keep_intros]: "keeps h (send_unreliable_command i oc ocs h)"
proof -
  define g where "g = upd_peer i (\<lambda>p. p\<lparr>pr_outgoingUnreliableCommands := ocs\<rparr>)
    (put_command (oc_command oc) (enet_protocol_command_size (command_of (oc_command oc))) h)"
  have g: "keeps h g" unfolding g_def by (rule keeps_trans [OF keeps_put_command keeps_queues(1)])
  have "keeps g (upd_peer i (\<lambda>p. p\<lparr>pr_sentUnreliableCommands := pr_sentUnreliableCommands p @ [oc]\<rparr>) (put_data oc q g))" for q
    by (rule keeps_trans [OF keeps_put_data keeps_queues(2)])
  with g show ?thesis
    unfolding send_unreliable_command_def Let_def g_def [symmetric]
    by (auto split: option.split intro: keeps_trans)
qed

lemma keeps_unreliable_loop: "keeps h (send_unreliable_loop i ocs h)"
proof (induction i ocs h rule: send_unreliable_loop.induct)
  case (1 i h)
  then show ?case by simp
next
  case (2 i oc ocs h)
  have d: "keeps h (drop_unreliable i oc ocs (upd_peer i throttle_count h))"
    by (rule keeps_trans [OF keeps_queues(3) keeps_drop_unreliable])
  have s: "keeps h (send_unreliable_command i oc ocs (upd_peer i throttle_count h))"
    by (rule keeps_trans [OF keeps_queues(3) keeps_unreliable_command])
  show ?case
    unfolding send_unreliable_loop.simps(2) [of i oc ocs h] Let_def
    by (auto intro: keeps_continue keeps_trans [OF d "2.IH"(1)] keeps_trans [OF s "2.IH"(2)]
        keeps_trans [OF keeps_unreliable_command "2.IH"(3)])
qed

lemma keeps_send_unreliable_commands [keep_intros]:
  assumes i: "i < length (ho_peers h)" shows "keeps h (enet_protocol_send_unreliable_outgoing_commands i h)"
proof -
  define g where "g = send_unreliable_loop i (pr_outgoingUnreliableCommands (peer_at h i)) h"
  have g: "keeps h g" unfolding g_def by (rule keeps_unreliable_loop)
  have "keeps h (enet_peer_disconnect_connected i d g)" for d
    by (rule keeps_then [OF g i]) (rule keeps_disconnect_connected)
  then show ?thesis
    using g by (simp add: enet_protocol_send_unreliable_outgoing_commands_def Let_def g_def [symmetric])
qed

lemma keeps_timeouts_loop:
  "i < length (ho_peers h) \<Longrightarrow> check_timeouts_loop i kept moved ocs event h = (r, event', h') \<Longrightarrow> keeps h h'"
proof (induction i kept moved ocs event h arbitrary: r event' h' rule: check_timeouts_loop.induct)
  case (1 i kept moved event h)
  then show ?case by simp
next
  case (2 i kept moved oc ocs event h)
  define g where "g = (if pr_earliestTimeout (peer_at h i) = 0
      \<or> ENET_TIME_LESS (oc_sentTime oc) (pr_earliestTimeout (peer_at h i))
    then upd_peer i (\<lambda>p. p\<lparr>pr_earliestTimeout := oc_sentTime oc\<rparr>) h else h)"
  define k where "k = upd_peer i (\<lambda>p. p\<lparr>
      pr_reliableDataInTransit := (if oc_packet oc \<noteq> None then pr_reliableDataInTransit p - ucast (oc_fragmentLength oc)
        else pr_reliableDataInTransit p),
      pr_packetsLost := pr_packetsLost p + 1, pr_sentReliableCommands := kept @ ocs,
      pr_outgoingReliableCommands := insert_at moved (oc\<lparr>oc_roundTripTimeout := oc_roundTripTimeout oc * 2\<rparr>)
        (pr_outgoingReliableCommands p)\<rparr>) g"
  define l where "l = (case ocs of [] \<Rightarrow> k
    | next # _ \<Rightarrow> if kept = [] then upd_peer i (\<lambda>p. p\<lparr>pr_nextTimeout := oc_sentTime next + oc_roundTripTimeout next\<rparr>) k else k)"
  have g: "keeps h g" by (auto simp: g_def contribution_defs)
  have gk: "keeps g k" unfolding k_def by (rule keeps_upd_peer) (simp add: contribution_defs)
  have "keeps k (upd_peer i (\<lambda>p. p\<lparr>pr_nextTimeout := t\<rparr>) k)" for t
    by (rule keeps_upd_peer) (simp add: contribution_defs)
  then have l: "keeps h l" using keeps_trans [OF g gk] by (auto simp: l_def split: list.split intro: keeps_trans)
  have out: "keeps h h'" if "enet_protocol_notify_disconnect i event g = (event', h')"
    using keeps_then [OF g "2.prems"(1) keeps_notify_disconnect [of i g event]] that by simp
  have "i < length (ho_peers l)" using l "2.prems"(1) by (simp add: keeps_length)
  then show ?case
    using "2.prems" "2.IH"(1) "2.IH"(2) [OF _ g_def _ k_def l_def] keeps_trans [OF l] out
    unfolding check_timeouts_loop.simps Let_def g_def [symmetric] k_def [symmetric] l_def [symmetric]
    by (auto split: if_splits prod.splits)
qed

lemma keeps_check_timeouts:
  "i < length (ho_peers h) \<Longrightarrow> enet_protocol_check_timeouts i event h = (r, event', h') \<Longrightarrow> keeps h h'"
  unfolding enet_protocol_check_timeouts_def by (rule keeps_timeouts_loop)

lemma keeps_put_reliable [keep_intros]: "keeps h (put_reliable i oc h)"
proof -
  define g where "g = put_command (oc_command oc) (enet_protocol_command_size (command_of (oc_command oc))) h"
  define k where "k = g\<lparr>ho_headerFlags := ho_headerFlags g OR ENET_PROTOCOL_HEADER_FLAG_SENT_TIME\<rparr>"
  have k: "keeps h k" by (rule keeps_fields) (simp_all add: k_def g_def put_command_def)
  have "keeps k (upd_peer i (\<lambda>p. p\<lparr>pr_reliableDataInTransit := f p\<rparr>) (put_data oc q k))" for f q
    by (rule keeps_trans [OF keeps_put_data keeps_upd_peer]) (simp add: contribution_defs)
  with k show ?thesis
    unfolding put_reliable_def Let_def g_def [symmetric] k_def [symmetric]
    by (auto split: option.split intro: keeps_trans)
qed

lemma keeps_reliable_command [keep_intros]: "keeps h (send_reliable_command i skipped oc ocs h)"
proof -
  have w: "keeps h (enter_window i oc h)"
    by (simp add: enter_window_def Let_def keeps_upd_channel)
  have q: "keeps k (requeue_sent i r c k)" for k r c
    unfolding requeue_sent_def by (rule keeps_upd_peer) (simp add: contribution_defs)
  have s: "keeps k (upd_peer i (\<lambda>p. p\<lparr>pr_packetsSent := pr_packetsSent p + 1\<rparr>) k)" for k
    by (rule keeps_upd_peer) (simp add: contribution_defs)
  show ?thesis
    unfolding send_reliable_command_def Let_def
    by (rule keeps_trans [OF w keeps_trans [OF q keeps_trans [OF keeps_put_reliable s]]])
qed

lemma keeps_reliable_loop:
  "keeps h (snd (send_reliable_loop i skipped ocs exceeded wrap canPing h))"
proof (induction ocs arbitrary: skipped exceeded wrap canPing h)
  case Nil
  then show ?case by simp
next
  case (Cons oc ocs)
  show ?case
    by (auto simp: Let_def intro: keeps_continue Cons.IH keeps_trans [OF keeps_reliable_command Cons.IH])
qed

lemma keeps_send_reliable_commands [keep_intros]:
  "keeps h (snd (enet_protocol_send_reliable_outgoing_commands i h))"
  unfolding enet_protocol_send_reliable_outgoing_commands_def by (rule keeps_reliable_loop)

lemma keeps_send_peer_commands:
  assumes i: "i < length (ho_peers h)" shows "keeps h (send_peer_commands i h)"
proof -
  obtain b g where g: "(if pr_outgoingReliableCommands (peer_at h i) = [] then (True, h)
      else enet_protocol_send_reliable_outgoing_commands i h) = (b, g)" by fastforce
  have hg: "keeps h g"
    using g keeps_send_reliable_commands [of h i] by (auto split: if_splits)
  define k where "k = (if b \<and> pr_sentReliableCommands (peer_at g i) = []
      \<and> ENET_TIME_DIFFERENCE (ho_serviceTime g) (pr_lastReceiveTime (peer_at g i)) \<ge> pr_pingInterval (peer_at g i)
      \<and> mtu_left i g \<ge> sizeof_ENetProtocolPing
    then snd (enet_protocol_send_reliable_outgoing_commands i (enet_peer_ping i g)) else g)"
  have k: "keeps h k"
    using hg keeps_trans [OF keeps_ping keeps_send_reliable_commands] by (auto simp: k_def intro: keeps_trans)
  have "keeps h (enet_protocol_send_unreliable_outgoing_commands i k)"
    by (rule keeps_then [OF k i]) (rule keeps_send_unreliable_commands)
  then show ?thesis
    using k unfolding send_peer_commands_def Let_def g prod.case k_def [symmetric] by simp
qed

lemma keeps_send_datagram:
  assumes i: "i < length (ho_peers h)" and s: "send_datagram prefix i h = (r, h')" shows "keeps h h'"
proof -
  define g where "g = upd_peer i (packet_loss_update (ho_serviceTime h)) h"
  define k where "k = (if gather_ub g then set_ub g else g)"
  obtain flags bytes where b: "datagram_bytes prefix i k = (flags, bytes)" by fastforce
  define l where "l = upd_peer i (\<lambda>p. p\<lparr>pr_lastSendTime := ho_serviceTime k\<rparr>) (k\<lparr>ho_headerFlags := flags\<rparr>)"
  obtain n m where m: "enet_socket_send (pr_address (peer_at l i)) bytes l = (n, m)" by fastforce
  have "keeps h g" unfolding g_def
    by (rule keeps_upd_peer) (simp add: contribution_defs packet_loss_update_def Let_def)
  also have "keeps g k" by (simp add: k_def keeps_set_ub)
  also have "keeps k (k\<lparr>ho_headerFlags := flags\<rparr>)" by (rule keeps_fields) simp_all
  also have "keeps (k\<lparr>ho_headerFlags := flags\<rparr>) l"
    unfolding l_def by (rule keeps_upd_peer) (simp add: contribution_defs)
  also have "keeps l m"
    by (rule keeps_fields) (use m in \<open>auto simp: enet_socket_send_def Let_def split: list.splits\<close>)
  finally have "keeps h m" .
  then have "keeps h (enet_protocol_remove_sent_unreliable_commands i m)"
    using i by (rule keeps_then) (rule keeps_remove_sent_unreliable)
  then show ?thesis
    using s unfolding send_datagram_def Let_def g_def [symmetric] k_def [symmetric] b prod.case l_def [symmetric] m
    by simp
qed

lemma keeps_send_acknowledgements:
  "i < length (ho_peers h) \<Longrightarrow> keeps h (enet_protocol_send_acknowledgements i h)"
  unfolding enet_protocol_send_acknowledgements_def by (rule keeps_acknowledgements_loop)

lemma keeps_send_peer:
  assumes i: "i < length (ho_peers h)" and s: "send_peer n prefix check i event h = (r, event', h')"
  shows "keeps h h'"
proof (cases "pr_state (peer_at h i) = ENET_PEER_STATE_DISCONNECTED \<or> pr_state (peer_at h i) = ENET_PEER_STATE_ZOMBIE")
  case True
  then show ?thesis using s by (simp add: send_peer_def)
next
  case False
  define g where "g = begin_datagram n h"
  define k where "k = (if pr_acknowledgements (peer_at g i) \<noteq> [] then enet_protocol_send_acknowledgements i g else g)"
  obtain q e l where l: "(if check \<and> pr_sentReliableCommands (peer_at k i) \<noteq> []
      \<and> ENET_TIME_GREATER_EQUAL (ho_serviceTime k) (pr_nextTimeout (peer_at k i))
    then enet_protocol_check_timeouts i event k else (0, event, k)) = (q, e, l)"
    using prod_cases3 by blast
  have g: "keeps h g" by (rule keeps_fields) (simp_all add: g_def begin_datagram_def)
  have k: "keeps h k" by (rule keeps_then [OF g i]) (simp add: k_def keeps_send_acknowledgements)
  have hl: "keeps h l"
    by (rule keeps_then [OF k i]) (use l in \<open>auto split: if_splits intro: keeps_check_timeouts\<close>)
  define m where "m = send_peer_commands i l"
  have m: "keeps h m" unfolding m_def by (rule keeps_then [OF hl i]) (rule keeps_send_peer_commands)
  obtain z d where d: "send_datagram prefix i m = (z, d)" by fastforce
  have hd: "keeps h d" by (rule keeps_then [OF m i]) (rule keeps_send_datagram [OF _ d])
  have "keeps h (d\<lparr>ho_totalSentData := a, ho_totalSentPackets := b\<rparr>)" for a b
    by (rule keeps_fields_then [OF hd]) simp_all
  then show ?thesis
    using s False hl m hd unfolding send_peer_def Let_def g_def [symmetric] k_def [symmetric] l prod.case m_def [symmetric] d
    by (auto split: if_splits option.splits)
qed

section \<open>The host\<close>

lemma first_disconnected_sound:
  "first_disconnected ps = Some i \<Longrightarrow> i < length ps \<and> pr_state (ps ! i) = ENET_PEER_STATE_DISCONNECTED"
  by (induction ps arbitrary: i) (auto split: if_splits)

lemma keeps_host_connect:
  assumes s: "enet_host_connect address n data h = (r, h')" shows "keeps h h'"
proof (cases "first_disconnected (ho_peers h)")
  case None
  then show ?thesis using s by (simp add: enet_host_connect_def)
next
  case (Some i)
  then have i: "i < length (ho_peers h)" "pr_state (peer_at h i) = ENET_PEER_STATE_DISCONNECTED"
    using first_disconnected_sound by (auto simp: peer_at_def)
  obtain ok g where m: "enet_malloc h = (ok, g)" by fastforce
  have more: "enet_env.more g = enet_env.more h" using more_malloc [of h] by (simp add: m)
  then have g: "keeps h g" by (rule keeps_more)
  have none: "keeps h (upd_peer i (\<lambda>p. p\<lparr>pr_channels := []\<rparr>) g)"
    by (rule keeps_trans [OF g keeps_upd_peer]) (simp add: contribution_defs)
  define k where "k = g\<lparr>ho_randomSeed := ho_randomSeed g + 1\<rparr>"
  have k: "keeps h k" by (rule keeps_fields_then [OF g]) (simp_all add: k_def)
  have pk: "peer_at k i = peer_at h i" using more_peer_at [OF more, of i] by (simp add: k_def peer_at_def)
  have connect: "keeps h (upd_peer i (host_connect_peer k address c) k)" for c
    by (rule keeps_trans [OF k keeps_upd_peer]) (use i pk in \<open>simp add: contribution_defs host_connect_peer_def\<close>)
  have "keeps h (snd (enet_peer_queue_outgoing_command i cmd None 0 0 (upd_peer i (host_connect_peer k address c) k)))" for c cmd
    by (rule keeps_trans [OF connect keeps_queue_outgoing])
  then show ?thesis
    using s none by (auto simp: enet_host_connect_def Some m Let_def k_def [symmetric] split: if_splits)
qed

lemma keeps_broadcast:
  assumes s: "enet_host_broadcast channelID packet h = Some h'" shows "keeps h h'"
proof -
  have loop: "broadcast_loop channelID packet is g = Some k \<Longrightarrow> keeps g k" for "is" g k
    by (induction "is" arbitrary: g) (auto split: if_splits option.splits intro: keeps_trans keeps_send)
  obtain k where k: "broadcast_loop channelID packet [0..<ho_peerCount h] h = Some k"
    using s by (auto simp: enet_host_broadcast_def split: option.splits)
  have "keeps k (enet_packet_destroy q k)" for q by (rule keeps_more) simp
  then show ?thesis
    using s loop [OF k] by (auto simp: enet_host_broadcast_def k intro: keeps_trans keeps_set_ub split: option.splits if_splits)
qed

lemma contributions_throttle_pass:
  "throttle_pass t e th ps ts = (ps', ts') \<Longrightarrow> map contribution ps' = map contribution ps"
  by (induction ps arbitrary: ts ps' ts')
    (auto simp: Let_def throttle_peer_def contribution_defs split: if_splits prod.splits)

lemma contributions_throttle_rounds:
  "map contribution (fst (throttle_rounds t e ps ts)) = map contribution ps"
proof (induction t e ps ts rule: throttle_rounds.induct)
  case (1 t e ps ts)
  obtain qs us where q: "throttle_pass t e (throttle_of ts) ps (ts\<lparr>ts_needsAdjustment := False\<rparr>) = (qs, us)" by fastforce
  show ?case
    using "1.IH" [OF _ q [symmetric]] contributions_throttle_pass [OF q]
    by (subst throttle_rounds.simps) (simp add: q)
qed

lemma contributions_limit_pass:
  "limit_pass t b ps ls = (ps', ls') \<Longrightarrow> map contribution ps' = map contribution ps"
  by (induction ps arbitrary: ls ps' ls') (auto simp: Let_def contribution_defs split: if_splits prod.splits)

lemma contributions_limit_rounds:
  "map contribution (fst (limit_rounds t b ps ls)) = map contribution ps"
proof (induction t b ps ls rule: limit_rounds.induct)
  case (1 t b ps ls)
  obtain qs us where q: "limit_pass t (ls_bandwidth ls div ls_peersRemaining ls) ps (ls\<lparr>ls_needsAdjustment := False\<rparr>) = (qs, us)"
    by fastforce
  show ?case
    using "1.IH" [OF _ refl q [symmetric]] contributions_limit_pass [OF q]
    by (subst limit_rounds.simps) (simp add: q Let_def)
qed

lemma keeps_set_peers: "map contribution ps = map contribution (ho_peers h) \<Longrightarrow> keeps h (h\<lparr>ho_peers := ps\<rparr>)"
  by (rule keeps_view) (simp add: host_view_def)

lemma keeps_throttle_outgoing: "keeps h (throttle_outgoing t e h)"
proof -
  have "map contribution (map (throttle_rest t th) ps) = map contribution ps" for th ps
    by (simp add: throttle_rest_def contribution_defs)
  then show ?thesis
    using contributions_throttle_rounds
    by (auto simp: throttle_outgoing_def Let_def prod.case_eq_if simp del: map_map intro!: keeps_set_peers)
qed

lemma keeps_send_bandwidth_limit: "keeps h (send_bandwidth_limit t b i h)"
  by (simp add: send_bandwidth_limit_def keeps_queue_outgoing)

lemma keeps_recalculate_limits: "keeps h (recalculate_limits t h)"
proof -
  define g where "g = h\<lparr>ho_recalculateBandwidthLimits := False\<rparr>"
  obtain ps b where p: "(if ho_incomingBandwidth g = 0 then (ho_peers g, 0)
      else limit_rounds t 0 (ho_peers g) \<lparr>ls_needsAdjustment = True,
        ls_peersRemaining = ucast (ho_connectedPeers g), ls_bandwidth = ho_incomingBandwidth g\<rparr>) = (ps, b)" by fastforce
  have "ps = fst (if ho_incomingBandwidth g = 0 then (ho_peers g, 0)
      else limit_rounds t 0 (ho_peers g) \<lparr>ls_needsAdjustment = True,
        ls_peersRemaining = ucast (ho_connectedPeers g), ls_bandwidth = ho_incomingBandwidth g\<rparr>)"
    by (simp only: p fst_conv)
  then have m: "map contribution ps = map contribution (ho_peers g)"
    by (simp add: contributions_limit_rounds)
  have "keeps h g" unfolding g_def by (rule keeps_recalculate)
  also have "keeps g (g\<lparr>ho_peers := ps\<rparr>)" using m by (rule keeps_set_peers)
  also have "keeps (g\<lparr>ho_peers := ps\<rparr>) (recalculate_limits t h)"
    unfolding recalculate_limits_def Let_def g_def [symmetric] p prod.case
    by (rule keeps_fold) (rule keeps_send_bandwidth_limit)
  finally show ?thesis .
qed

lemma keeps_bandwidth_throttle: "keeps h (enet_host_bandwidth_throttle h)"
proof -
  obtain t g where t: "enet_time_get h = (t, g)" by fastforce
  have g: "keeps h g"
    by (rule keeps_fields) (use t in \<open>auto simp: enet_time_get_def split: list.splits\<close>)
  have e: "keeps h (g\<lparr>ho_bandwidthThrottleEpoch := t\<rparr>)" by (rule keeps_fields_then [OF g]) simp_all
  have o: "keeps h (throttle_outgoing t x (g\<lparr>ho_bandwidthThrottleEpoch := t\<rparr>))" for x
    by (rule keeps_trans [OF e keeps_throttle_outgoing])
  have "keeps h (recalculate_limits t (throttle_outgoing t x (g\<lparr>ho_bandwidthThrottleEpoch := t\<rparr>)))" for x
    by (rule keeps_trans [OF o keeps_recalculate_limits])
  then show ?thesis
    using g e o by (simp add: enet_host_bandwidth_throttle_def t Let_def)
qed

section \<open>The invariant of a host\<close>

definition accounted :: "nat \<Rightarrow> nat option \<Rightarrow> ENetHost \<Rightarrow> bool" where
  "accounted n peer h \<longleftrightarrow> host_ok h \<and> length (ho_peers h) = n \<and> (\<forall>i. peer = Some i \<longrightarrow> i < n)"

lemma accounted_keeps: "accounted n peer h \<Longrightarrow> keeps h h' \<Longrightarrow> accounted n peer h'"
  by (auto simp: accounted_def keeps_def)

interpretation accounting: host_invariant "accounted n" for n
proof
  show "accounted n peer' h'" if "accounted n peer h" "handle_command peer cmd cur event h = (err, peer', cur', event', h')"
    for peer h cmd cur event err peer' cur' event' h'
  proof -
    have "\<And>i. peer = Some i \<Longrightarrow> i < length (ho_peers h)" using that(1) by (simp add: accounted_def)
    from keeps_handle_command [OF this that(2)] show ?thesis
      using that(1) by (auto simp: accounted_def keeps_def)
  qed
  show "accounted n None h' \<and> ho_peerCount h' = ho_peerCount h"
    if "accounted n None h" "i < ho_peerCount h" "send_peer m prefix check i event h = (r, event', h')"
    for h i m prefix check event r event' h'
  proof -
    have "keeps h h'" using keeps_send_peer [OF _ that(3)] that(2) by (simp add: ho_peerCount_def)
    then show ?thesis using accounted_keeps [OF that(1)] by (simp add: keeps_length ho_peerCount_def)
  qed
  show "accounted n None h'" if "accounted n None h" "enet_protocol_dispatch_incoming_commands ev h = (k, ev', h')"
    for h ev k ev' h'
    by (rule accounted_keeps [OF that(1) keeps_dispatch_incoming [OF _ that(2)]])
      (use that(1) in \<open>simp add: accounted_def\<close>)
  show "accounted n peer (incoming_account peer h)" if "accounted n peer h" for peer h
    using that keeps_incoming_account by (rule accounted_keeps)
  show "accounted n (Some i) (acknowledge_command i cmd sent h)" if "accounted n (Some i) h" for i cmd sent h
    using that keeps_acknowledge_command by (rule accounted_keeps)
  show "accounted n peer (set_ub h)" if "accounted n peer h" for peer h
    using that keeps_set_ub by (rule accounted_keeps)
  show "accounted n None (enet_host_bandwidth_throttle h)" if "accounted n None h" for h
    using that keeps_bandwidth_throttle by (rule accounted_keeps)
qed ((rule accounted_keeps, assumption, rule keeps_fields; simp)
    | (auto simp: accounted_def ho_peerCount_def)[1])+

section \<open>The properties\<close>

lemma keeps_create_peer:
  assumes "i < length (ho_peers h)" shows "keeps h (create_peer i h)"
proof -
  have 1: "keeps h (upd_peer i (\<lambda>p. p\<lparr>pr_incomingPeerID := of_nat i, pr_outgoingSessionID := 0xFF,
      pr_incomingSessionID := 0xFF, pr_data := 0\<rparr>) h)" (is "keeps h ?g")
    by (rule keeps_upd_peer) (simp add: contribution_defs)
  have "keeps ?g (enet_peer_reset i ?g)"
    using keeps_length [OF 1] assms by (intro keeps_reset) simp
  with 1 show ?thesis by (simp add: create_peer_def keeps_trans [OF 1])
qed

lemma keeps_create_peers:
  "(\<And>i. i \<in> set is \<Longrightarrow> i < length (ho_peers h)) \<Longrightarrow> keeps h (fold create_peer is h)"
proof (induction "is" arbitrary: h)
  case (Cons i "is")
  have 1: "keeps h (create_peer i h)" using Cons.prems by (intro keeps_create_peer) simp
  have "keeps (create_peer i h) (fold create_peer is (create_peer i h))"
    using Cons.prems keeps_length [OF 1] by (intro Cons.IH) simp
  then show ?case by (simp add: keeps_trans [OF 1])
qed simp

lemma zero_host_ok:
  assumes "n \<le> 0xFFF" "ho_peers h = replicate n zero_peer" "ho_dispatchQueue h = []"
    "ho_connectedPeers h = 0" "ho_bandwidthLimitedPeers h = 0"
  shows "host_ok h"
  using assms
  by (auto simp: host_ok_def connected_count_def limited_count_def queue_ok_def peer_is_connected_def
      peer_is_limited_def peer_at_def zero_peer_def protocol_limit_defs)

text \<open>
  C23: Every host that \<^verbatim>\<open>enet_host_create\<close> returns has the peers asked for, with the books in
  order: no peer is counted as connected or limited and the dispatch queue is empty.
\<close>

theorem host_create_accounted:
  "case fst (enet_host_create resources address peerCount channelLimit inBandwidth outBandwidth e) of
     None \<Rightarrow> True
   | Some h \<Rightarrow> host_ok h \<and> ho_peerCount h = unat peerCount"
proof (cases "fst (enet_host_create resources address peerCount channelLimit inBandwidth outBandwidth e)")
  case None
  then show ?thesis by simp
next
  case (Some h)
  then have n: "unat peerCount \<le> 0xFFF"
    by (auto simp: enet_host_create_def protocol_limit_defs not_less word_le_nat_alt split: if_splits)
  obtain g where h: "h = fold create_peer [0..<unat peerCount] g"
    and g: "ho_peers g = replicate (unat peerCount) zero_peer" "ho_dispatchQueue g = []"
      "ho_connectedPeers g = 0" "ho_bandwidthLimitedPeers g = 0"
    using Some by (auto simp: enet_host_create_def Let_def zero_host_def split: if_splits option.splits prod.splits)
  have "keeps g h" unfolding h by (rule keeps_create_peers) (simp add: g)
  then show ?thesis
    using zero_host_ok [OF n g] Some by (simp add: keeps_def ho_peerCount_def g)
qed

text \<open>
  C1: \<^verbatim>\<open>enet_host_service\<close> keeps the books: whatever datagrams arrive, whatever is sent,
  acknowledged, timed out or dispatched, afterwards \<^verbatim>\<open>connectedPeers\<close> is the number of peers that
  are connected, \<^verbatim>\<open>bandwidthLimitedPeers\<close> that of those with a bandwidth limit, and the dispatch
  queue holds each peer marked \<^verbatim>\<open>needsDispatch\<close> exactly once.
\<close>

theorem host_service_accounted:
  assumes "host_ok h"
  shows "case enet_host_service None timeout event h of
      None \<Rightarrow> True
    | Some (r, event', h') \<Rightarrow> host_ok h' \<and> ho_peerCount h' = ho_peerCount h"
proof (cases "enet_host_service None timeout event h")
  case (Some y)
  obtain r e h' where y: "y = (r, e, h')" using prod_cases3 by blast
  have "accounted (ho_peerCount h) None h" using assms by (simp add: accounted_def ho_peerCount_def)
  from accounting.service [OF _ this, of None] Some
  have "accounted (ho_peerCount h) None h'" by (simp add: y)
  then show ?thesis using Some by (simp add: y accounted_def ho_peerCount_def)
qed simp

theorem host_service_accounted_witness:
  "case enet_host_service None 10 None example_host of
     None \<Rightarrow> True
   | Some (r, event', h') \<Rightarrow> host_ok h' \<and> ho_peerCount h' = ho_peerCount example_host"
  by (rule host_service_accounted [OF example_host_ok])

lemma keeps_flush:
  assumes "host_ok g" "enet_host_flush g = Some g'" shows "host_ok g' \<and> length (ho_peers g') = length (ho_peers g)"
proof -
  have "accounted (length (ho_peers g)) None g" using assms(1) by (simp add: accounted_def)
  from accounting.flush [OF this assms(2)] show ?thesis by (simp add: accounted_def)
qed

end
