(* ===== verification/ENet_Delivery.thy ===== *)
theory ENet_Delivery
  imports ENet_Accounting "HOL-Library.Multiset"
begin

text \<open>
  The order in which reliable commands are delivered: the place that
  \<^verbatim>\<open>enet_peer_queue_incoming_command\<close> finds keeps the channel's queue sorted by distance from the
  last delivered number, and \<^verbatim>\<open>enet_peer_dispatch_incoming_reliable_commands\<close> delivers the longest
  run of consecutive complete commands at its front.
\<close>

section \<open>Distance from the last delivered sequence number\<close>

text \<open>Sequence numbers wrap, so they are compared by how far they lie ahead.\<close>

definition ahead :: "u16 \<Rightarrow> u16 \<Rightarrow> nat" where
  "ahead incoming n = unat (n - incoming)"

definition queue_sorted :: "u16 \<Rightarrow> ENetIncomingCommand list \<Rightarrow> bool" where
  "queue_sorted incoming cs \<longleftrightarrow>
     sorted_wrt (<) (map (\<lambda>c. ahead incoming (ic_reliableSequenceNumber c)) cs)"

lemma ahead_eq: "ahead incoming a = ahead incoming b \<longleftrightarrow> a = b"
  by (simp add: ahead_def word_unat_eq_iff [symmetric] del: word_unat_eq_iff)

lemma ahead_cases:
  "ahead incoming n = (if incoming \<le> n then unat n - unat incoming else 65536 + unat n - unat incoming)"
proof (cases "incoming \<le> n")
  case True
  then show ?thesis by (simp add: ahead_def unat_sub)
next
  case False
  then have "unat n < unat incoming" by (simp add: word_le_nat_alt)
  moreover have "unat incoming < 65536" using unsigned_less [of incoming] by simp
  ultimately show ?thesis
    using False by (simp add: ahead_def unat_sub_if')
qed

lemma ahead_less:
  "ahead incoming a < ahead incoming b \<longleftrightarrow>
     (if incoming \<le> a \<and> b < incoming then True
      else if a < incoming \<and> incoming \<le> b then False else a < b)"
proof -
  have "unat a < 65536" "unat b < 65536" "unat incoming < 65536"
    using unsigned_less [of a] unsigned_less [of b] unsigned_less [of incoming] by simp_all
  then show ?thesis
    by (auto simp: ahead_cases word_le_nat_alt word_less_nat_alt)
qed

lemma reliable_search_step_ahead:
  "reliable_search_step incoming n c =
    (if ahead incoming n < ahead incoming (ic_reliableSequenceNumber c) then Continue
     else if ahead incoming (ic_reliableSequenceNumber c) < ahead incoming n then Break else Discard)"
  by (auto simp: reliable_search_step_def ahead_less)

section \<open>Insertion\<close>

text \<open>The search over the reversed queue, as positions of the queue itself.\<close>

lemma search_back_place:
  assumes "queue_sorted incoming cs"
  shows "(case search_back (reliable_search_step incoming n) (rev cs) of
      None \<Rightarrow> n \<in> ic_reliableSequenceNumber ` set cs
    | Some k \<Rightarrow> k \<le> length cs
        \<and> (\<forall>c \<in> set (take k cs). ahead incoming (ic_reliableSequenceNumber c) < ahead incoming n)
        \<and> (\<forall>c \<in> set (drop k cs). ahead incoming n < ahead incoming (ic_reliableSequenceNumber c)))"
  using assms
proof (induction cs rule: rev_induct)
  case (snoc c cs)
  have s: "queue_sorted incoming cs"
    and less: "\<forall>d \<in> set cs. ahead incoming (ic_reliableSequenceNumber d) < ahead incoming (ic_reliableSequenceNumber c)"
    using snoc.prems by (auto simp: queue_sorted_def sorted_wrt_append)
  consider "ahead incoming n < ahead incoming (ic_reliableSequenceNumber c)"
    | "ahead incoming (ic_reliableSequenceNumber c) < ahead incoming n"
    | "n = ic_reliableSequenceNumber c"
    using ahead_eq [of incoming n "ic_reliableSequenceNumber c"] by linarith
  then show ?case
  proof cases
    case 1
    then show ?thesis
      using snoc.IH [OF s] by (auto simp: reliable_search_step_ahead split: option.splits)
  next
    case 2
    then show ?thesis
      using less by (auto simp: reliable_search_step_ahead)
  next
    case 3
    then show ?thesis by (simp add: reliable_search_step_ahead)
  qed
qed simp

lemma queue_sorted_insert:
  assumes "queue_sorted incoming cs"
    "\<forall>d \<in> set (take k cs). ahead incoming (ic_reliableSequenceNumber d) < ahead incoming (ic_reliableSequenceNumber c)"
    "\<forall>d \<in> set (drop k cs). ahead incoming (ic_reliableSequenceNumber c) < ahead incoming (ic_reliableSequenceNumber d)"
  shows "queue_sorted incoming (insert_at k c cs)"
proof -
  have "queue_sorted incoming (take k cs @ drop k cs)" using assms(1) by simp
  then show ?thesis
    using assms(2,3) by (fastforce simp: queue_sorted_def insert_at_def sorted_wrt_append simp del: append_take_drop_id)
qed

lemma insert_at_mset: "mset (insert_at k x xs) = add_mset x (mset xs)"
  proof -
  have "mset xs = mset (take k xs) + mset (drop k xs)" by (simp flip: mset_append)
  then show ?thesis by (simp add: insert_at_def)
qed

definition reliable_number :: "ENetProtocol \<Rightarrow> u16" where
  "reliable_number command = hd_reliableSequenceNumber (pc_header command)"

section \<open>Concrete reliable commands\<close>

definition example_reliable :: "u16 \<Rightarrow> ENetProtocol" where
  "example_reliable n = \<lparr>pc_header = \<lparr>hd_command = ENET_PROTOCOL_COMMAND_SEND_RELIABLE, hd_channelID = 0,
     hd_reliableSequenceNumber = n\<rparr>, pc_body = BSendReliable \<lparr>sr_dataLength = 0\<rparr>\<rparr>"

definition example_incoming :: "u16 \<Rightarrow> ENetIncomingCommand" where
  "example_incoming n = \<lparr>ic_addr = unat n, ic_reliableSequenceNumber = n, ic_unreliableSequenceNumber = 0,
     ic_command = example_reliable n, ic_fragmentCount = 0, ic_fragmentsRemaining = 0, ic_fragments = None,
     ic_packet = None\<rparr>"

lemma example_reliable_fields [simp]:
  "command_number (example_reliable n) = 6" "hd_reliableSequenceNumber (pc_header (example_reliable n)) = n"
  "reliable_number (example_reliable n) = n"
  by (simp_all add: example_reliable_def command_number_def command_of_def command_defs reliable_number_def)

lemma example_incoming_fields [simp]:
  "ic_reliableSequenceNumber (example_incoming n) = n" "ic_fragmentsRemaining (example_incoming n) = 0"
  "ic_fragmentCount (example_incoming n) = 0" "ic_packet (example_incoming n) = None"
  "ic_command (example_incoming n) = example_reliable n"
  by (simp_all add: example_incoming_def)

text \<open>The numbers 65535 and 2 are queued after 65533 was delivered.\<close>

definition example_channel :: ENetChannel where
  "example_channel = fresh_channel\<lparr>ch_incomingReliableSequenceNumber := 65533,
     ch_incomingReliableCommands := [example_incoming 65535, example_incoming 2]\<rparr>"


lemma example_channel_fields [simp]:
  "ch_incomingReliableSequenceNumber example_channel = 65533"
  "ch_incomingReliableCommands example_channel = [example_incoming 65535, example_incoming 2]"
  by (simp_all add: example_channel_def)


section \<open>Delivery\<close>

text \<open>The last sequence number that a command covers: a group of fragments has one for each.\<close>

definition last_number :: "ENetIncomingCommand \<Rightarrow> u16" where
  "last_number c = ic_reliableSequenceNumber c
     + (if ic_fragmentCount c > 0 then ucast (ic_fragmentCount c - 1) else 0)"

definition is_next :: "u16 \<Rightarrow> ENetIncomingCommand \<Rightarrow> bool" where
  "is_next incoming c \<longleftrightarrow> ic_fragmentsRemaining c = 0 \<and> ic_reliableSequenceNumber c = incoming + 1"

fun in_sequence :: "u16 \<Rightarrow> ENetIncomingCommand list \<Rightarrow> bool" where
  "in_sequence incoming [] \<longleftrightarrow> True"
| "in_sequence incoming (c # cs) \<longleftrightarrow> is_next incoming c \<and> in_sequence (last_number c) cs"

fun end_number :: "u16 \<Rightarrow> ENetIncomingCommand list \<Rightarrow> u16" where
  "end_number incoming [] = incoming"
| "end_number incoming (c # cs) = end_number (last_number c) cs"

lemma dispatch_reliable_loop_run:
  "dispatch_reliable_loop incoming cs = (n, ready, rest) \<Longrightarrow>
     cs = ready @ rest \<and> in_sequence incoming ready \<and> n = end_number incoming ready
     \<and> (rest = [] \<or> \<not> is_next n (hd rest))"
proof (induction cs arbitrary: incoming n ready rest)
  case (Cons c cs)
  show ?case
  proof (cases "is_next incoming c")
    case True
    then obtain ready' where r: "dispatch_reliable_loop (last_number c) cs = (n, ready', rest)" "ready = c # ready'"
      using Cons.prems by (auto simp: is_next_def last_number_def Let_def split: prod.splits if_splits)
    then show ?thesis using Cons.IH [OF r(1)] True by auto
  next
    case False
    then show ?thesis using Cons.prems by (auto simp: is_next_def word_neq_0_conv split: if_splits)
  qed
qed simp

lemma need_dispatch_peer:
  assumes "i < length (ho_peers h)"
  shows "peer_at (need_dispatch i h) i = (peer_at h i)\<lparr>pr_needsDispatch := True\<rparr>"
    "length (ho_peers (need_dispatch i h)) = length (ho_peers h)"
proof -
  have "p = p\<lparr>pr_needsDispatch := True\<rparr>" if "pr_needsDispatch p" for p :: ENetPeer
    using that by simp
  then show "peer_at (need_dispatch i h) i = (peer_at h i)\<lparr>pr_needsDispatch := True\<rparr>"
    using assms by (auto simp: need_dispatch_def peer_at_def upd_peer_def)
  show "length (ho_peers (need_dispatch i h)) = length (ho_peers h)"
    by (simp add: need_dispatch_def upd_peer_def)
qed

text \<open>The unreliable dispatch appends to the delivered commands and leaves the reliable queue alone.\<close>

lemma dispatch_unreliable_peer:
  fixes h
  assumes i: "i < length (ho_peers h)" and c: "c < length (pr_channels (peer_at h i))"
  defines "h' \<equiv> enet_peer_dispatch_incoming_unreliable_commands i c h"
  shows "\<exists>moved. pr_dispatchedCommands (peer_at h' i) = pr_dispatchedCommands (peer_at h i) @ moved"
    "ch_incomingReliableCommands (channel_at (peer_at h' i) c) = ch_incomingReliableCommands (channel_at (peer_at h i) c)"
    "ch_incomingReliableSequenceNumber (channel_at (peer_at h' i) c)
       = ch_incomingReliableSequenceNumber (channel_at (peer_at h i) c)"
    "pr_needsDispatch (peer_at h i) \<Longrightarrow> pr_needsDispatch (peer_at h' i)"
  using i c by (auto simp: h'_def enet_peer_dispatch_incoming_unreliable_commands_def Let_def
      need_dispatch_peer upd_channel_def channel_at_def)

text \<open>
  C13: \<^verbatim>\<open>enet_peer_dispatch_incoming_reliable_commands\<close> delivers exactly the longest run of complete
  commands at the front of the queue whose numbers continue the last one delivered: the run is
  appended, in order, to the commands ready for the application, the rest stays queued, the
  channel's counter moves to the last number of the run, and the peer is marked for dispatch when
  anything was delivered.
\<close>

theorem reliable_dispatch_in_order:
  assumes "i < length (ho_peers h)" "c < length (pr_channels (peer_at h i))"
    and "h' = enet_peer_dispatch_incoming_reliable_commands i c h"
  shows "\<exists>ready rest unreliable.
      ch_incomingReliableCommands (channel_at (peer_at h i) c) = ready @ rest
    \<and> in_sequence (ch_incomingReliableSequenceNumber (channel_at (peer_at h i) c)) ready
    \<and> (rest = [] \<or> \<not> is_next (ch_incomingReliableSequenceNumber (channel_at (peer_at h' i) c)) (hd rest))
    \<and> ch_incomingReliableSequenceNumber (channel_at (peer_at h' i) c)
        = end_number (ch_incomingReliableSequenceNumber (channel_at (peer_at h i) c)) ready
    \<and> ch_incomingReliableCommands (channel_at (peer_at h' i) c) = rest
    \<and> pr_dispatchedCommands (peer_at h' i) = pr_dispatchedCommands (peer_at h i) @ ready @ unreliable
    \<and> (ready \<noteq> [] \<longrightarrow> pr_needsDispatch (peer_at h' i)) \<and> (ready = [] \<longrightarrow> unreliable = [])"
proof -
  let ?ch = "channel_at (peer_at h i) c"
  obtain n ready rest where l: "dispatch_reliable_loop (ch_incomingReliableSequenceNumber ?ch)
      (ch_incomingReliableCommands ?ch) = (n, ready, rest)" by (metis prod_cases3)
  note run = dispatch_reliable_loop_run [OF l]
  define h1 where "h1 = upd_peer i (upd_channel c (\<lambda>ch. ch\<lparr>ch_incomingReliableSequenceNumber := n\<rparr>)) h"
  define h2 where "h2 = need_dispatch i (upd_peer i (\<lambda>p. upd_channel c (\<lambda>ch. ch\<lparr>
      ch_incomingUnreliableSequenceNumber := 0, ch_incomingReliableCommands := rest\<rparr>)
      (p\<lparr>pr_dispatchedCommands := pr_dispatchedCommands p @ ready\<rparr>)) h1)"
  have h': "h' = (if ready = [] then h1 else if ch_incomingUnreliableCommands (channel_at (peer_at h2 i) c) \<noteq> []
      then enet_peer_dispatch_incoming_unreliable_commands i c h2 else h2)"
    by (simp add: assms(3) enet_peer_dispatch_incoming_reliable_commands_def l h1_def h2_def)
  have p1: "peer_at h1 i = upd_channel c (\<lambda>ch. ch\<lparr>ch_incomingReliableSequenceNumber := n\<rparr>) (peer_at h i)"
    using assms(1) by (simp add: h1_def)
  have p2: "pr_dispatchedCommands (peer_at h2 i) = pr_dispatchedCommands (peer_at h i) @ ready"
    "ch_incomingReliableCommands (channel_at (peer_at h2 i) c) = rest"
    "ch_incomingReliableSequenceNumber (channel_at (peer_at h2 i) c) = n"
    "pr_needsDispatch (peer_at h2 i)" "i < length (ho_peers h2)" "c < length (pr_channels (peer_at h2 i))"
    using assms(1,2) by (simp_all add: h2_def need_dispatch_peer p1 h1_def upd_channel_def channel_at_def)
  show ?thesis
  proof (cases "ready = []")
    case True
    then show ?thesis
      using run assms(2) by (auto simp: h' p1 upd_channel_def channel_at_def)
  next
    case False
    then show ?thesis
      using run p2 dispatch_unreliable_peer [OF p2(5,6)] unfolding h' by auto
  qed
qed

text \<open>A peer whose channel has three commands to deliver, after 65533, and one to keep.\<close>

definition delivery_host :: ENetHost where
  "delivery_host = upd_peer 0 (\<lambda>p. p\<lparr>pr_channels := [example_channel\<lparr>ch_incomingReliableCommands :=
     map example_incoming [65534, 65535, 0, 2]\<rparr>]\<rparr>) example_host"

theorem reliable_dispatch_in_order_witness:
  "\<exists>ready rest unreliable. map example_incoming [65534, 65535, 0, 2] = ready @ rest
    \<and> in_sequence 65533 ready
    \<and> ch_incomingReliableCommands (channel_at (peer_at
        (enet_peer_dispatch_incoming_reliable_commands 0 0 delivery_host) 0) 0) = rest
    \<and> pr_dispatchedCommands (peer_at (enet_peer_dispatch_incoming_reliable_commands 0 0 delivery_host) 0)
        = ready @ unreliable"
proof -
  have i: "0 < length (ho_peers delivery_host)" "0 < length (pr_channels (peer_at delivery_host 0))"
    by (simp_all add: delivery_host_def)
  have q: "ch_incomingReliableCommands (channel_at (peer_at delivery_host 0) 0) = map example_incoming [65534, 65535, 0, 2]"
    "ch_incomingReliableSequenceNumber (channel_at (peer_at delivery_host 0) 0) = 65533"
    "pr_dispatchedCommands (peer_at delivery_host 0) = []"
    by (simp_all add: delivery_host_def channel_at_def example_channel_def example_peer_def reset_fields_def zero_peer_def)
  show ?thesis using reliable_dispatch_in_order [OF i refl] by (auto simp only: q append_Nil)
qed

end
