(* ===== verification/ENet_Fragments.thy ===== *)
theory ENet_Fragments
  imports ENet_Delivery
begin

text \<open>
  Large packets: \<^verbatim>\<open>enet_peer_send\<close> cuts them into fragments that tile the data, the receiving
  handler puts them together in whatever order they arrive.
\<close>

section \<open>The tiling\<close>

definition frag_count :: "nat \<Rightarrow> nat \<Rightarrow> nat" where
  "frag_count D F = (D + F - 1) div F"

definition frag_len :: "nat \<Rightarrow> nat \<Rightarrow> nat \<Rightarrow> nat" where
  "frag_len D F k = min F (D - k * F)"

definition frag_slice :: "u8 list \<Rightarrow> nat \<Rightarrow> nat \<Rightarrow> u8 list" where
  "frag_slice bytes F k = take (frag_len (length bytes) F k) (drop (k * F) bytes)"

lemma frag_count_less: "0 < F \<Longrightarrow> k < frag_count D F \<longleftrightarrow> k * F < D"
proof -
  assume F: "0 < F"
  have "k < frag_count D F \<longleftrightarrow> Suc k * F \<le> D + F - 1"
    using F by (simp add: frag_count_def less_eq_div_iff_mult_less_eq Suc_le_eq [symmetric] del: mult_Suc)
  also have "\<dots> \<longleftrightarrow> k * F < D" using F by auto
  finally show ?thesis .
qed

lemma frag_end: "0 < F \<Longrightarrow> k < frag_count D F \<Longrightarrow> k * F + frag_len D F k = min (Suc k * F) D"
  by (auto simp: frag_count_less frag_len_def)

lemma frag_len_pos: "0 < F \<Longrightarrow> k < frag_count D F \<Longrightarrow> 0 < frag_len D F k"
  by (auto simp: frag_count_less frag_len_def)

text \<open>Data that agrees with \<open>bytes\<close> on every tile is \<open>bytes\<close>.\<close>

lemma tiles_cover:
  assumes F: "0 < F" and len: "length d = length bytes"
    and same: "\<And>k. k < frag_count (length bytes) F \<Longrightarrow> frag_slice d F k = frag_slice bytes F k"
  shows "d = bytes"
proof (rule nth_equalityI)
  fix n assume n: "n < length d"
  obtain k j where nk: "n = k * F + j" "j < F"
    using F by (metis div_mult_mod_eq mod_less_divisor)
  then have c: "k < frag_count (length bytes) F" using F len n by (simp add: frag_count_less)
  have j: "j < frag_len (length bytes) F k" using nk n len by (auto simp: frag_len_def)
  have "frag_slice d F k ! j = frag_slice bytes F k ! j" using same [OF c] by simp
  then show "d ! n = bytes ! n" using j nk n len by (simp add: frag_slice_def)
qed (rule len)

section \<open>Cutting a packet\<close>

text \<open>Fragment \<open>k\<close> as the sender writes it: \<open>start\<close> is in network order.\<close>

definition fragment_body :: "u16 \<Rightarrow> nat \<Rightarrow> nat \<Rightarrow> nat \<Rightarrow> ENetProtocolSendFragment" where
  "fragment_body start D F k =
     \<lparr>sf_startSequenceNumber = start,
      sf_dataLength = ENET_HOST_TO_NET_16 (of_nat (frag_len D F k)),
      sf_fragmentCount = ENET_HOST_TO_NET_32 (of_nat (frag_count D F)),
      sf_fragmentNumber = ENET_HOST_TO_NET_32 (of_nat k),
      sf_totalLength = ENET_HOST_TO_NET_32 (of_nat D),
      sf_fragmentOffset = ENET_HOST_TO_NET_32 (of_nat (k * F))\<rparr>"

lemma unat_of_nat_small [simp]: "n < 2 ^ LENGTH('a) \<Longrightarrow> unat (of_nat n :: 'a::len word) = n"
  by (simp add: unat_of_nat take_bit_nat_eq_self)

lemma ucast_of_nat_size [simp]: "n < 2 ^ 32 \<Longrightarrow> (ucast (of_nat n :: u32) :: size_t) = of_nat n"
  by (rule word_unat_eq_iff [THEN iffD2]) (simp add: unsigned_ucast_eq take_bit_nat_eq_self)

lemma send_fragments_loop_tiles:
  assumes F: "0 < F" "F < 2 ^ 32" and D: "D < 2 ^ 32" and fl: "k * F < D \<Longrightarrow> fl = of_nat F"
  shows "\<exists>r n h'. send_fragments_loop mk (of_nat D) fl (of_nat k) (of_nat (min (k * F) D)) fs h = Some (r, n, h')
    \<and> enet_env.more h' = enet_env.more h
    \<and> (env_allocs h = [] \<longrightarrow> h' = h \<and> n = of_nat (max k (frag_count D F))
        \<and> r = Some (fs @ map (\<lambda>k. mk (of_nat (frag_len D F k)) (of_nat k) (of_nat (k * F))) [k..<frag_count D F]))"
  using fl
proof (induction "frag_count D F - k" arbitrary: k fl fs h)
  case 0
  then have k: "frag_count D F \<le> k" "\<not> k * F < D" using frag_count_less [OF F(1), of k D] by simp_all
  then have m: "min (k * F) D = D" by simp
  have "\<not> (ucast (of_nat D :: u32) :: size_t) < of_nat D"
    using D by (simp only: ucast_of_nat_size)
  then show ?case using k by (simp add: m send_fragments_loop.simps max_absorb1)
next
  case (Suc x)
  then have k: "k < frag_count D F" by simp
  then have lt: "k * F < D" using frag_count_less [OF F(1)] by simp
  then have fl: "fl = of_nat F" by (rule Suc.prems)
  have m: "min (k * F) D = k * F" using lt by simp
  have u: "(ucast (of_nat (k * F) :: u32) :: size_t) = of_nat (k * F)"
    using lt D by (intro ucast_of_nat_size) simp
  have less: "(of_nat (k * F) :: size_t) < of_nat D"
    using lt D by (simp add: word_less_nat_alt unat_of_nat take_bit_nat_eq_self del: of_nat_mult)
  have sub: "(of_nat D - of_nat (k * F) :: size_t) = of_nat (D - k * F)"
    using lt by (simp only: of_nat_diff less_imp_le)
  have trim: "(if (of_nat (D - k * F) :: size_t) < of_nat F then of_nat (D - k * F) else of_nat F)
      = (of_nat (frag_len D F k) :: size_t)"
    using D F by (simp add: word_less_nat_alt unat_of_nat take_bit_nat_eq_self frag_len_def min_def)
  have l32: "ucast (of_nat (frag_len D F k) :: size_t) = (of_nat (frag_len D F k) :: u32)"
    by (rule word_unat_eq_iff [THEN iffD2]) (use F in \<open>simp add: unsigned_ucast_eq take_bit_nat_eq_self frag_len_def min_def\<close>)
  have off: "(of_nat (k * F) + of_nat (frag_len D F k) :: u32) = of_nat (min (Suc k * F) D)"
    using frag_end [OF F(1) k] by (metis of_nat_add)
  obtain ok g where ok: "enet_malloc h = (ok, g)" by fastforce
  then have mo: "enet_env.more g = enet_env.more h" "env_allocs h = [] \<Longrightarrow> ok \<and> g = h"
    using more_malloc [of h] by (auto simp: enet_malloc_def)
  let ?f = "mk (of_nat (frag_len D F k)) (of_nat k) (of_nat (k * F))"
  have step: "send_fragments_loop mk (of_nat D) fl (of_nat k) (of_nat (min (k * F) D)) fs h =
    (if \<not> ok then Some (None, of_nat k, g)
     else send_fragments_loop mk (of_nat D) (of_nat (frag_len D F k)) (of_nat (Suc k))
            (of_nat (min (Suc k * F) D)) (fs @ [?f]) g)"
    by (subst send_fragments_loop.simps)
      (simp only: m u less sub trim fl ok Let_def prod.case if_True l32 off of_nat_Suc add.commute [of 1])
  show ?case
  proof (cases ok)
    case False
    then show ?thesis using mo unfolding step by auto
  next
    case True
    have "Suc k * F < D \<Longrightarrow> (of_nat (frag_len D F k) :: size_t) = of_nat F" by (simp add: frag_len_def)
    moreover have "x = frag_count D F - Suc k" using Suc.hyps(2) by simp
    ultimately obtain r n h' where IH: "send_fragments_loop mk (of_nat D) (of_nat (frag_len D F k))
        (of_nat (Suc k)) (of_nat (min (Suc k * F) D)) (fs @ [?f]) g = Some (r, n, h')"
      "enet_env.more h' = enet_env.more g"
      "env_allocs g = [] \<Longrightarrow> h' = g \<and> n = of_nat (max (Suc k) (frag_count D F))
        \<and> r = Some ((fs @ [?f]) @ map (\<lambda>k. mk (of_nat (frag_len D F k)) (of_nat k) (of_nat (k * F)))
            [Suc k..<frag_count D F])"
      using Suc.hyps(1) by blast
    have "[k..<frag_count D F] = k # [Suc k..<frag_count D F]" using k by (rule upt_conv_Cons)
    then show ?thesis
      using True k mo IH unfolding step by (auto simp del: of_nat_mult of_nat_Suc mult_Suc simp: max_absorb2)
  qed
qed

text \<open>What \<^verbatim>\<open>enet_peer_setup_outgoing_command\<close> makes of a reliable fragment.\<close>

definition numbered_fragment :: "u16 \<Rightarrow> ENetOutgoingCommand \<Rightarrow> ENetOutgoingCommand" where
  "numbered_fragment n oc = oc\<lparr>oc_reliableSequenceNumber := n, oc_unreliableSequenceNumber := 0,
     oc_sendAttempts := 0, oc_sentTime := 0, oc_roundTripTimeout := 0, oc_roundTripTimeoutLimit := 0,
     oc_command := set_reliableSequenceNumber (ENET_HOST_TO_NET_16 n) (oc_command oc)\<rparr>"

fun numbered_fragments :: "u16 \<Rightarrow> ENetOutgoingCommand list \<Rightarrow> ENetOutgoingCommand list" where
  "numbered_fragments n [] = []"
| "numbered_fragments n (oc # ocs) = numbered_fragment (n + 1) oc # numbered_fragments (n + 1) ocs"

lemma numbered_fragments_map:
  "numbered_fragments n (map g [k..<m]) = map (\<lambda>j. numbered_fragment (n + 1 + of_nat (j - k)) (g j)) [k..<m]"
proof (induction "m - k" arbitrary: n k)
  case (Suc x)
  then have u: "[k..<m] = k # [Suc k..<m]" by (intro upt_conv_Cons) simp
  have "x = m - Suc k" using Suc.hyps(2) by simp
  note IH = Suc.hyps(1) [OF this, of "n + 1"]
  have "numbered_fragment (n + 1 + 1 + of_nat (j - Suc k)) oc = numbered_fragment (n + 1 + of_nat (j - k)) oc"
    if "j \<in> set [Suc k..<m]" for j oc
  proof -
    have "j - k = Suc (j - Suc k)" using that by auto
    then show ?thesis by (simp only: of_nat_Suc ac_simps)
  qed
  then have "map (\<lambda>j. numbered_fragment (n + 1 + 1 + of_nat (j - Suc k)) (g j)) [Suc k..<m]
      = map (\<lambda>j. numbered_fragment (n + 1 + of_nat (j - k)) (g j)) [Suc k..<m]"
    by (intro map_cong refl)
  with IH show ?case by (simp add: u del: upt_Suc)
qed simp

definition reliable_fragment :: "u8 \<Rightarrow> ENetOutgoingCommand \<Rightarrow> bool" where
  "reliable_fragment channelID oc \<longleftrightarrow>
     command_of (oc_command oc) = ENET_PROTOCOL_COMMAND_SEND_FRAGMENT OR ENET_PROTOCOL_COMMAND_FLAG_ACKNOWLEDGE
     \<and> hd_channelID (pc_header (oc_command oc)) = channelID"

lemma setup_reliable_fragment:
  assumes "reliable_fragment channelID oc" "channelID \<noteq> 0xFF" "unat channelID < length (pr_channels p)"
  defines "n \<equiv> ch_outgoingReliableSequenceNumber (channel_at p (unat channelID)) + 1"
  shows "pr_outgoingReliableCommands (setup_outgoing oc p) = pr_outgoingReliableCommands p @ [numbered_fragment n oc]"
    "ch_outgoingReliableSequenceNumber (channel_at (setup_outgoing oc p) (unat channelID)) = n"
    "length (pr_channels (setup_outgoing oc p)) = length (pr_channels p)"
    "pr_state (setup_outgoing oc p) = pr_state p"
proof -
  have c: "hd_command (pc_header (oc_command oc)) = 136" "hd_channelID (pc_header (oc_command oc)) = channelID"
    "command_of (oc_command oc) = 136" "command_number (oc_command oc) = 8"
    using assms(1) by (simp_all add: reliable_fragment_def command_of_def command_number_def command_defs command_flag_defs)
  have n8: "command_number (set_reliableSequenceNumber m (oc_command oc)) = 8"
    "command_of (set_reliableSequenceNumber m (oc_command oc)) = 136" for m
    using c by (simp_all add: command_number_def command_of_def set_reliableSequenceNumber_def)
  show "pr_outgoingReliableCommands (setup_outgoing oc p) = pr_outgoingReliableCommands p @ [numbered_fragment n oc]"
    "ch_outgoingReliableSequenceNumber (channel_at (setup_outgoing oc p) (unat channelID)) = n"
    "length (pr_channels (setup_outgoing oc p)) = length (pr_channels p)"
    "pr_state (setup_outgoing oc p) = pr_state p"
    using assms(2,3)
    by (simp_all add: setup_outgoing_def outgoing_sequence_def Let_def c n8 command_flag_defs command_defs
        outgoing_numbered_def numbered_fragment_def n_def upd_channel_def channel_at_def)
qed

lemma setup_reliable_fragments:
  assumes "i < length (ho_peers h)" "channelID \<noteq> 0xFF" "unat channelID < length (pr_channels (peer_at h i))"
    and "\<And>oc. oc \<in> set fs \<Longrightarrow> reliable_fragment channelID oc"
  defines "h' \<equiv> fold (enet_peer_setup_outgoing_command i) fs h"
    and "n \<equiv> ch_outgoingReliableSequenceNumber (channel_at (peer_at h i) (unat channelID))"
  shows "pr_outgoingReliableCommands (peer_at h' i) = pr_outgoingReliableCommands (peer_at h i) @ numbered_fragments n fs"
    and "ch_outgoingReliableSequenceNumber (channel_at (peer_at h' i) (unat channelID)) = n + of_nat (length fs)"
    and "env_packets h' = env_packets h" and "env_ub h' = env_ub h"
proof -
  have "pr_outgoingReliableCommands (peer_at (fold (enet_peer_setup_outgoing_command i) fs h) i)
      = pr_outgoingReliableCommands (peer_at h i)
          @ numbered_fragments (ch_outgoingReliableSequenceNumber (channel_at (peer_at h i) (unat channelID))) fs
    \<and> ch_outgoingReliableSequenceNumber (channel_at (peer_at
          (fold (enet_peer_setup_outgoing_command i) fs h) i) (unat channelID))
      = ch_outgoingReliableSequenceNumber (channel_at (peer_at h i) (unat channelID)) + of_nat (length fs)
    \<and> env_packets (fold (enet_peer_setup_outgoing_command i) fs h) = env_packets h
    \<and> env_ub (fold (enet_peer_setup_outgoing_command i) fs h) = env_ub h"
    using assms(1,3,4)
  proof (induction fs arbitrary: h)
    case (Cons oc fs)
    note s = setup_reliable_fragment [OF Cons.prems(3) [OF list.set_intros(1)] assms(2) Cons.prems(2)]
    define g where "g = enet_peer_setup_outgoing_command i oc h"
    have "hd_channelID (pc_header (oc_command oc)) = channelID"
      using Cons.prems(3) [of oc] by (simp add: reliable_fragment_def)
    then have g: "g = upd_peer i (setup_outgoing oc) h"
      using Cons.prems(2) by (simp add: g_def enet_peer_setup_outgoing_command_def channel_missing_def)
    have p: "peer_at g i = setup_outgoing oc (peer_at h i)" using Cons.prems(1) by (simp add: g)
    have "i < length (ho_peers g)" "unat channelID < length (pr_channels (peer_at g i))"
      using Cons.prems by (simp_all add: g s)
    from Cons.IH [OF this Cons.prems(3)] show ?case
      unfolding fold_simps g_def [symmetric] by (simp add: p s) (simp add: g add.assoc)
  qed simp
  then show "pr_outgoingReliableCommands (peer_at h' i) = pr_outgoingReliableCommands (peer_at h i) @ numbered_fragments n fs"
    and "ch_outgoingReliableSequenceNumber (channel_at (peer_at h' i) (unat channelID)) = n + of_nat (length fs)"
    and "env_packets h' = env_packets h" and "env_ub h' = env_ub h"
    by (simp_all add: h'_def n_def)
qed

lemma tiles_take:
  assumes "0 < F" "k \<le> frag_count (length bytes) F"
  shows "concat (map (frag_slice bytes F) [0..<k]) = take (k * F) bytes"
  using assms(2)
proof (induction k)
  case (Suc k)
  then have "k < frag_count (length bytes) F" by simp
  have "k * F < length bytes"
    using frag_count_less [OF assms(1)] Suc.prems by (simp add: Suc_le_eq)
  then have "frag_slice bytes F k = take F (drop (k * F) bytes)"
    by (auto simp: frag_slice_def frag_len_def min_def)
  moreover have "take (Suc k * F) bytes = take (k * F) bytes @ take F (drop (k * F) bytes)"
    by (metis add.commute mult_Suc take_add)
  ultimately show ?case using Suc by simp
qed simp

lemma tiles_concat:
  assumes "0 < F" shows "concat (map (frag_slice bytes F) [0..<frag_count (length bytes) F]) = bytes"
proof -
  have "\<not> frag_count (length bytes) F * F < length bytes"
    using frag_count_less [OF assms, of "frag_count (length bytes) F" "length bytes"] by simp
  then show ?thesis using tiles_take [OF assms order_refl, of bytes] by simp
qed

text \<open>The fragments of a reliable packet as they stand in the queue, from the number \<open>n\<close> on.\<close>

definition queued_fragment :: "u16 \<Rightarrow> u8 \<Rightarrow> packet_ref \<Rightarrow> nat \<Rightarrow> nat \<Rightarrow> nat \<Rightarrow> ENetOutgoingCommand" where
  "queued_fragment n channelID q D F k =
     \<lparr>oc_reliableSequenceNumber = n + of_nat k, oc_unreliableSequenceNumber = 0, oc_sentTime = 0,
      oc_roundTripTimeout = 0, oc_roundTripTimeoutLimit = 0, oc_fragmentOffset = of_nat (k * F),
      oc_fragmentLength = of_nat (frag_len D F k), oc_sendAttempts = 0,
      oc_command = \<lparr>pc_header = \<lparr>hd_command = ENET_PROTOCOL_COMMAND_SEND_FRAGMENT OR ENET_PROTOCOL_COMMAND_FLAG_ACKNOWLEDGE,
          hd_channelID = channelID, hd_reliableSequenceNumber = ENET_HOST_TO_NET_16 (n + of_nat k)\<rparr>,
        pc_body = BSendFragment (fragment_body (ENET_HOST_TO_NET_16 n) D F k)\<rparr>,
      oc_packet = Some q\<rparr>"

lemma ucast_of_nat_down [simp]: "n < 2 ^ 32 \<Longrightarrow> (ucast (of_nat n :: size_t) :: u32) = of_nat n"
  by (rule word_unat_eq_iff [THEN iffD2]) (simp add: unsigned_ucast_eq take_bit_nat_eq_self)

lemma ucast_of_nat_u16 [simp]: "n < 2 ^ 16 \<Longrightarrow> (ucast (of_nat n :: size_t) :: u16) = of_nat n"
  by (rule word_unat_eq_iff [THEN iffD2]) (simp add: unsigned_ucast_eq take_bit_nat_eq_self)

lemma numbered_send_fragment:
  assumes "D < 2 ^ 32" "F < 2 ^ 16"
  shows "numbered_fragment (n + of_nat k) (send_fragment
      (ENET_PROTOCOL_COMMAND_SEND_FRAGMENT OR ENET_PROTOCOL_COMMAND_FLAG_ACKNOWLEDGE) channelID (ENET_HOST_TO_NET_16 n)
      (of_nat (frag_count D F)) (of_nat D) q (of_nat (frag_len D F k)) (of_nat k) (of_nat (k * F)))
    = queued_fragment n channelID q D F k"
proof -
  have "frag_len D F k < 2 ^ 16" using assms(2) by (simp add: frag_len_def)
  then have l: "(ucast (of_nat (frag_len D F k) :: size_t) :: u16) = of_nat (frag_len D F k)" by simp
  show ?thesis
    using assms(1) by (simp add: numbered_fragment_def send_fragment_def queued_fragment_def
        set_reliableSequenceNumber_def fragment_body_def l del: of_nat_mult)
qed

lemma frag_count_word:
  assumes F: "0 < F" "F < 2 ^ 16" and D: "D < 2 ^ 32"
  shows "ucast ((of_nat D + of_nat F - 1 :: size_t) div of_nat F) = (of_nat (frag_count D F) :: u32)"
proof -
  have s: "(of_nat D + of_nat F - 1 :: size_t) = of_nat (D + F - 1)" using F by (simp add: of_nat_diff)
  have b: "D + F - 1 < 2 ^ 64" using F D by simp
  have u: "unat (of_nat (D + F - 1) :: size_t) = D + F - 1" "unat (of_nat F :: size_t) = F"
    by (rule unat_of_nat_small, use b F in simp)+
  have "unat (of_nat (frag_count D F) :: size_t) = frag_count D F"
    by (rule unat_of_nat_small) (use b in \<open>simp add: frag_count_def le_less_trans [OF div_le_dividend]\<close>)
  then have "(of_nat (D + F - 1) :: size_t) div of_nat F = of_nat (frag_count D F)"
    by (simp only: word_unat_eq_iff unat_div u frag_count_def)
  moreover have "frag_count D F < 2 ^ 32"
  proof -
    have "\<not> D < frag_count D F" using F by (simp add: frag_count_less)
    then show ?thesis using D by simp
  qed
  ultimately show ?thesis by (simp add: s)
qed

text \<open>The call of \<^verbatim>\<open>enet_peer_send\<close> for a packet that needs fragments, up to the queueing of these.\<close>

definition raw_fragments :: "u16 \<Rightarrow> u8 \<Rightarrow> packet_ref \<Rightarrow> nat \<Rightarrow> nat \<Rightarrow> ENetOutgoingCommand list" where
  "raw_fragments n channelID q D F = map (\<lambda>k. send_fragment
      (ENET_PROTOCOL_COMMAND_SEND_FRAGMENT OR ENET_PROTOCOL_COMMAND_FLAG_ACKNOWLEDGE) channelID (ENET_HOST_TO_NET_16 n)
      (of_nat (frag_count D F)) (of_nat D) q (of_nat (frag_len D F k)) (of_nat k) (of_nat (k * F))) [0..<frag_count D F]"

lemma send_fragmented_raw:
  fixes h :: ENetHost
  assumes "pk_flags pk = ENET_PACKET_FLAG_RELIABLE" "pk_dataLength pk = of_nat D" "D < 2 ^ 32"
    and "0 < F" "F < 2 ^ 16" "frag_count D F \<le> 1048576" "env_allocs h = []"
    and n: "n = ch_outgoingReliableSequenceNumber (channel_at (peer_at h i) (unat channelID)) + 1"
  shows "send_fragmented i channelID q pk (of_nat F) h = Some (0,
      fold (enet_peer_setup_outgoing_command i) (raw_fragments n channelID q D F)
        (packet_retain (of_nat (frag_count D F)) q h))"
proof -
  let ?count = "frag_count D F"
  let ?mk = "send_fragment (ENET_PROTOCOL_COMMAND_SEND_FRAGMENT OR ENET_PROTOCOL_COMMAND_FLAG_ACKNOWLEDGE) channelID
      (ENET_HOST_TO_NET_16 n) (of_nat ?count) (of_nat D) q"
  have loop: "send_fragments_loop ?mk (of_nat D) (of_nat F) 0 0 [] h
      = Some (Some (raw_fragments n channelID q D F), of_nat ?count, h)"
    using send_fragments_loop_tiles [OF assms(4) _ assms(3), where k = 0 and fl = "of_nat F" and fs = "[]" and h = h and mk = ?mk]
      assms(5,7) by (auto simp: raw_fragments_def)
  have small: "\<not> (1048576 :: u32) < of_nat ?count"
  proof -
    have "unat (of_nat ?count :: u32) = ?count" using assms(6) by (intro unat_of_nat_small) simp
    then show ?thesis using assms(6) by (simp add: word_less_nat_alt)
  qed
  have flags: "ENET_PACKET_FLAG_RELIABLE AND (ENET_PACKET_FLAG_RELIABLE OR ENET_PACKET_FLAG_UNRELIABLE_FRAGMENT)
      \<noteq> ENET_PACKET_FLAG_UNRELIABLE_FRAGMENT"
    by (simp add: packet_flag_defs)
  have count: "(ucast ((pk_dataLength pk + of_nat F - 1) div of_nat F) :: u32) = of_nat ?count"
    using frag_count_word [OF assms(4,5,3)] by (simp only: assms(2))
  have uc: "(ucast (of_nat ?count :: u32) :: size_t) = of_nat ?count"
    using assms(6) by (intro ucast_of_nat_size) simp
  have lim: "ENET_PROTOCOL_MAXIMUM_FRAGMENT_COUNT = 1048576" by (simp add: protocol_limit_defs)
  show ?thesis
    unfolding send_fragmented_def Let_def count
    using flags small by (simp only: assms(1,2) lim if_False prod.case n [symmetric] simp_thms loop option.case uc)
qed

lemma send_large_packet:
  fixes h :: ENetHost
  assumes "pr_state (peer_at h i) = ENET_PEER_STATE_CONNECTED" "ucast channelID < pr_channelCount (peer_at h i)"
    and "env_packets h q = Some pk" "pk_dataLength pk \<le> ho_maximumPacketSize h"
    and "pk_dataLength pk = of_nat D" "D < 2 ^ 32" "0 < F" "F < D"
    and "send_fragmentLength h (peer_at h i) = of_nat F"
  shows "enet_peer_send i channelID q h = send_fragmented i channelID q pk (of_nat F) h"
proof -
  have u: "unat (of_nat F :: size_t) = F" "unat (of_nat D :: size_t) = D"
    using assms(6,8) by (intro unat_of_nat_small, simp)+
  have "(of_nat F :: size_t) < of_nat D" using assms(8) by (simp only: word_less_nat_alt u)
  moreover have "(of_nat F :: size_t) \<noteq> 0" using assms(7) u(1) by (metis less_irrefl unat_0)
  moreover have "\<not> (pr_state (peer_at h i) \<noteq> ENET_PEER_STATE_CONNECTED \<or> ucast channelID \<ge> pr_channelCount (peer_at h i))"
    "\<not> pk_dataLength pk > ho_maximumPacketSize h"
    using assms(1,2,4) by auto
  ultimately show ?thesis
    unfolding enet_peer_send_def Let_def assms(3,9) option.case by (simp only: if_False if_True assms(5))
qed

lemma queued_fragments:
  assumes "D < 2 ^ 32" "F < 2 ^ 16"
  shows "numbered_fragments (n - 1) (raw_fragments n channelID q D F)
    = map (queued_fragment n channelID q D F) [0..<frag_count D F]"
  unfolding raw_fragments_def numbered_fragments_map using numbered_send_fragment [OF assms] by simp

lemma queued_slices:
  assumes "length bytes < 2 ^ 32" "0 < F" "F < 2 ^ 16"
  shows "map (\<lambda>oc. take (unat (oc_fragmentLength oc)) (drop (unat (oc_fragmentOffset oc)) bytes))
      (map (queued_fragment n channelID q (length bytes) F) [0..<frag_count (length bytes) F])
    = map (frag_slice bytes F) [0..<frag_count (length bytes) F]"
proof -
  have "take (unat (of_nat (frag_len (length bytes) F k) :: u16)) (drop (unat (of_nat (k * F) :: u32)) bytes)
      = frag_slice bytes F k" if "k < frag_count (length bytes) F" for k
  proof -
    have "k * F < 2 ^ 32" "frag_len (length bytes) F k < 2 ^ 16"
      using that assms by (auto simp: frag_count_less frag_len_def)
    then show ?thesis by (simp add: frag_slice_def unat_of_nat_small del: of_nat_mult)
  qed
  then show ?thesis by (simp add: queued_fragment_def del: of_nat_mult)
qed


text \<open>A packet of 1500 bytes on the example peer, whose datagrams hold 1400.\<close>

definition large_packet :: ENetPacket where
  "large_packet = \<lparr>pk_referenceCount = 0, pk_flags = ENET_PACKET_FLAG_RELIABLE, pk_data = Some (replicate 1500 7),
     pk_dataLength = 1500, pk_freeCallback = None, pk_userData = 0\<rparr>"

definition large_host :: ENetHost where
  "large_host = example_host\<lparr>env_packets := [5 \<mapsto> large_packet]\<rparr>"


end
