(* ===== verification/ENet_Reassembly.thy ===== *)
theory ENet_Reassembly
  imports ENet_Fragments
begin

text \<open>
  The receiving side of fragmented packets: the bitmaps of what has arrived, and the fragment
  handler, which rebuilds the sender's data whatever the order and number of its fragments.
\<close>

section \<open>Bitmaps\<close>

text \<open>
  What the handlers rely on when they record what has been received: marking an index of the
  bitmap makes it seen and changes no other.
\<close>

locale bitmap =
  fixes seen :: "'b \<Rightarrow> 'i \<Rightarrow> bool" and mark :: "'i \<Rightarrow> 'b \<Rightarrow> 'b" and within :: "'i \<Rightarrow> 'b \<Rightarrow> bool"
  assumes seen_mark: "within n b \<Longrightarrow> within m b \<Longrightarrow> seen (mark n b) m \<longleftrightarrow> m = n \<or> seen b m"
    and within_mark: "within m (mark n b) \<longleftrightarrow> within m b"
begin

lemma within_fold: "within m (fold mark ns b) \<longleftrightarrow> within m b"
  by (induction ns arbitrary: b) (simp_all add: within_mark)

lemma seen_fold:
  "(\<And>n. n \<in> set ns \<Longrightarrow> within n b) \<Longrightarrow> within m b \<Longrightarrow> seen (fold mark ns b) m \<longleftrightarrow> m \<in> set ns \<or> seen b m"
  by (induction ns arbitrary: b) (auto simp: within_mark seen_mark)

lemma mark_again: "within n b \<Longrightarrow> within m b \<Longrightarrow> seen (mark n (mark n b)) m \<longleftrightarrow> seen (mark n b) m"
  by (simp add: within_mark seen_mark)

end

definition bitmap_within :: "u32 \<Rightarrow> u32 list \<Rightarrow> bool" where
  "bitmap_within n b \<longleftrightarrow> unat n div 32 < length b"

lemma u32_div_32: "unat (n div 32 :: u32) = unat n div 32" "unat (n mod 32 :: u32) = unat n mod 32"
  by (simp_all add: unat_div unat_mod)

lemma u32_div_mod_eq: "unat m div 32 = unat n div 32 \<Longrightarrow> unat m mod 32 = unat n mod 32 \<Longrightarrow> m = (n :: u32)"
  by (metis div_mult_mod_eq word_unat_eq_iff)

lemma bitmap_bit: "(w :: u32) AND push_bit (unat n mod 32) 1 \<noteq> 0 \<longleftrightarrow> bit w (unat (n :: u32) mod 32)"
  by (rule and_push_bit_1) simp

lemma bitmap_or: "k < 32 \<Longrightarrow> bit ((w :: u32) OR push_bit j 1) k \<longleftrightarrow> k = j \<or> bit w k"
  by (auto simp: bit_simps)

lemma fragment_seen_bit: "fragment_seen b n \<longleftrightarrow> bit (b ! (unat n div 32)) (unat n mod 32)"
  unfolding fragment_seen_def u32_div_32 bitmap_bit ..

lemma unsequenced_seen_bit: "unsequenced_seen b n \<longleftrightarrow> bit (b ! (unat n div 32)) (unat n mod 32)"
  unfolding unsequenced_seen_def u32_div_32 bitmap_bit ..

lemma bitmap_set_bit:
  assumes "unat n div 32 < length b"
  shows "bit (b[unat n div 32 := b ! (unat n div 32) OR push_bit (unat n mod 32) 1] ! (unat m div 32)) (unat (m :: u32) mod 32)
    \<longleftrightarrow> m = n \<or> bit ((b :: u32 list) ! (unat m div 32)) (unat m mod 32)"
proof (cases "unat m div 32 = unat n div 32")
  case True
  have "unat m mod 32 < 32" by simp
  from bitmap_or [OF this] show ?thesis
    using True assms u32_div_mod_eq [OF True] by (auto simp only: nth_list_update_eq)
next
  case False
  then show ?thesis by (auto simp: nth_list_update_neq)
qed

interpretation fragment_bitmap: bitmap fragment_seen fragment_mark bitmap_within
proof
  fix n m :: u32 and b :: "u32 list"
  assume "bitmap_within n b" "bitmap_within m b"
  then show "fragment_seen (fragment_mark n b) m \<longleftrightarrow> m = n \<or> fragment_seen b m"
    unfolding fragment_seen_bit fragment_mark_def u32_div_32 bitmap_within_def by (intro bitmap_set_bit)
qed (simp add: bitmap_within_def fragment_mark_def)

interpretation unsequenced_bitmap: bitmap unsequenced_seen unsequenced_mark bitmap_within
proof
  fix n m :: u32 and b :: "u32 list"
  assume "bitmap_within n b" "bitmap_within m b"
  then show "unsequenced_seen (unsequenced_mark n b) m \<longleftrightarrow> m = n \<or> unsequenced_seen b m"
    unfolding unsequenced_seen_bit unsequenced_mark_def u32_div_32 bitmap_within_def by (intro bitmap_set_bit)
qed (simp add: bitmap_within_def unsequenced_mark_def)

section \<open>A group of fragments under way\<close>

text \<open>
  The host \<open>h\<close> has received the fragments \<open>S\<close> of \<open>bytes\<close>: channel \<open>c\<close> of peer \<open>i\<close> holds the
  group, whose packet agrees with \<open>bytes\<close> on the tiles of \<open>S\<close>.
\<close>

definition group_ok :: "u16 \<Rightarrow> u8 list \<Rightarrow> nat \<Rightarrow> nat set \<Rightarrow> ENetIncomingCommand \<Rightarrow> bool" where
  "group_ok start bytes F S ic \<longleftrightarrow>
     ic_reliableSequenceNumber ic = start \<and> command_number (ic_command ic) = ENET_PROTOCOL_COMMAND_SEND_FRAGMENT
     \<and> ic_fragmentCount ic = of_nat (frag_count (length bytes) F)
     \<and> ic_fragmentsRemaining ic = of_nat (frag_count (length bytes) F - card S)
     \<and> S \<subseteq> {..<frag_count (length bytes) F}
     \<and> (\<exists>fr. ic_fragments ic = Some fr \<and> length fr = fragment_words (of_nat (frag_count (length bytes) F))
          \<and> (\<forall>k < frag_count (length bytes) F. fragment_seen fr (of_nat k) \<longleftrightarrow> k \<in> S))"

definition data_ok :: "u8 list \<Rightarrow> nat \<Rightarrow> nat set \<Rightarrow> ENetPacket \<Rightarrow> bool" where
  "data_ok bytes F S pk \<longleftrightarrow> pk_dataLength pk = of_nat (length bytes)
     \<and> (\<exists>d. pk_data pk = Some d \<and> length d = length bytes \<and> (\<forall>k \<in> S. frag_slice d F k = frag_slice bytes F k))"

text \<open>Peer \<open>i\<close> can take the packet whose first fragment has the number \<open>n\<close> next.\<close>

definition receiving :: "nat \<Rightarrow> u8 \<Rightarrow> u16 \<Rightarrow> nat \<Rightarrow> ENetIncomingCommand list \<Rightarrow> ENetHost \<Rightarrow> bool" where
  "receiving i channelID n D ready h \<longleftrightarrow>
     i < length (ho_peers h) \<and> ucast channelID < pr_channelCount (peer_at h i)
     \<and> unat channelID < length (pr_channels (peer_at h i))
     \<and> pr_state (peer_at h i) = ENET_PEER_STATE_CONNECTED
     \<and> of_nat D \<le> ho_maximumPacketSize h
     \<and> ch_incomingReliableSequenceNumber (channel_at (peer_at h i) (unat channelID)) + 1 = n
     \<and> ch_incomingUnreliableCommands (channel_at (peer_at h i) (unat channelID)) = []
     \<and> pr_dispatchedCommands (peer_at h i) = ready"

definition assembling :: "nat \<Rightarrow> u8 \<Rightarrow> u16 \<Rightarrow> u8 list \<Rightarrow> nat \<Rightarrow> nat set \<Rightarrow> ENetIncomingCommand list \<Rightarrow>
    ENetIncomingCommand \<Rightarrow> packet_ref \<Rightarrow> ENetPacket \<Rightarrow> ENetHost \<Rightarrow> bool" where
  "assembling i channelID n bytes F S ready ic q pk h \<longleftrightarrow>
     receiving i channelID n (length bytes) ready h
     \<and> ch_incomingReliableCommands (channel_at (peer_at h i) (unat channelID)) = [ic] \<and> group_ok n bytes F S ic
     \<and> (\<forall>d \<in> set ready. ic_addr d \<noteq> ic_addr ic)
     \<and> ic_packet ic = Some q \<and> env_packets h q = Some pk \<and> data_ok bytes F S pk"

definition assembled :: "nat \<Rightarrow> u8 \<Rightarrow> u16 \<Rightarrow> u8 list \<Rightarrow> ENetIncomingCommand list \<Rightarrow> ENetHost \<Rightarrow> bool" where
  "assembled i channelID n bytes ready h \<longleftrightarrow>
     (\<exists>ic q pk. pr_dispatchedCommands (peer_at h i) = ready @ [ic] \<and> ic_reliableSequenceNumber ic = n
        \<and> ic_packet ic = Some q \<and> env_packets h q = Some pk
        \<and> pk_data pk = Some bytes \<and> pk_dataLength pk = of_nat (length bytes))"

text \<open>Writing a tile makes the data agree there and keeps the other tiles.\<close>

lemma frag_slice_write:
  assumes "0 < F" "length d = length bytes" "j < frag_count (length bytes) F" "k < frag_count (length bytes) F"
  shows "frag_slice (copy_into (j * F) (frag_slice bytes F j) d) F k
    = (if k = j then frag_slice bytes F k else frag_slice d F k)"
proof -
  define w where "w = copy_into (j * F) (frag_slice bytes F j) d"
  have j: "j * F < length bytes" and k: "k * F < length bytes" using assms by (simp_all add: frag_count_less)
  have l: "length (frag_slice bytes F j) = frag_len (length bytes) F j"
    using j by (simp add: frag_slice_def frag_len_def)
  have w: "length w = length bytes" using j assms(2) l by (auto simp: w_def copy_into_def frag_len_def)
  have nth: "w ! n = (if j * F \<le> n \<and> n < j * F + frag_len (length bytes) F j then bytes ! n else d ! n)"
    if "n < length bytes" for n
    using that j assms(2) l by (auto simp: w_def copy_into_def nth_append frag_slice_def not_less)
  have other: "\<not> (j * F \<le> n \<and> n < j * F + frag_len (length bytes) F j)"
    if kj: "k \<noteq> j" and "k * F \<le> n" "n < k * F + F" for n
  proof -
    consider "Suc k \<le> j" | "Suc j \<le> k" using kj by (meson nat_neq_iff Suc_leI)
    then show ?thesis
    proof cases
      case 1
      then have "Suc k * F \<le> j * F" by (rule mult_le_mono1)
      then show ?thesis using that by simp
    next
      case 2
      then have "Suc j * F \<le> k * F" by (rule mult_le_mono1)
      then show ?thesis using that by (simp add: frag_len_def)
    qed
  qed
  have "frag_slice w F k = (if k = j then frag_slice bytes F k else frag_slice d F k)"
  proof (rule nth_equalityI)
    show "length (frag_slice w F k) = length (if k = j then frag_slice bytes F k else frag_slice d F k)"
      by (simp add: frag_slice_def w assms(2))
    fix m assume "m < length (frag_slice w F k)"
    then have m: "m < frag_len (length bytes) F k" "k * F + m < length bytes" using k by (auto simp: frag_slice_def w frag_len_def)
    then have "frag_slice w F k ! m = w ! (k * F + m)" by (simp add: frag_slice_def w)
    also have "\<dots> = (if k = j then bytes ! (k * F + m) else d ! (k * F + m))"
      using nth [OF m(2)] other [of "k * F + m"] m(1) by (auto simp: frag_len_def)
    finally show "frag_slice w F k ! m = (if k = j then frag_slice bytes F k else frag_slice d F k) ! m"
      using m assms(2) by (cases "k = j") (simp_all add: frag_slice_def)
  qed
  then show ?thesis by (simp only: w_def)
qed

section \<open>One fragment\<close>

text \<open>Fragment \<open>k\<close> arrives: \<open>n\<close> is the number of fragment 0, the header's number is in host order by now.\<close>

definition arriving_command :: "u16 \<Rightarrow> u8 \<Rightarrow> nat \<Rightarrow> nat \<Rightarrow> nat \<Rightarrow> ENetProtocol" where
  "arriving_command n channelID D F k =
     set_reliableSequenceNumber (n + of_nat k) (oc_command (queued_fragment n channelID 0 D F k))"

definition receive_fragment :: "nat \<Rightarrow> u16 \<Rightarrow> u8 \<Rightarrow> u8 list \<Rightarrow> nat \<Rightarrow> u8 list \<times> nat \<times> u8 list \<Rightarrow> ENetHost \<Rightarrow> int \<times> nat \<times> ENetHost" where
  "receive_fragment i n channelID bytes F = (\<lambda>(pre, k, post) h.
     enet_protocol_handle_send_fragment i (arriving_command n channelID (length bytes) F k)
       (fragment_body (ENET_HOST_TO_NET_16 n) (length bytes) F k) (length pre)
       (h\<lparr>ho_receivedData := pre @ frag_slice bytes F k @ post\<rparr>))"

lemma next_window:
  "unat ((incoming :: u16) div ENET_PEER_RELIABLE_WINDOW_SIZE) \<le> unat (reliable_window (incoming + 1) incoming)"
  "unat (reliable_window (incoming + 1) incoming) \<le> Suc (unat (incoming div ENET_PEER_RELIABLE_WINDOW_SIZE))"
proof -
  have i: "unat incoming < 65536" using unsigned_less [of incoming] by simp
  have d: "unat (x div 0x1000 :: u16) = unat x div 4096" for x by (simp add: unat_div)
  show "unat ((incoming :: u16) div ENET_PEER_RELIABLE_WINDOW_SIZE) \<le> unat (reliable_window (incoming + 1) incoming)"
    "unat (reliable_window (incoming + 1) incoming) \<le> Suc (unat (incoming div ENET_PEER_RELIABLE_WINDOW_SIZE))"
  proof (atomize (full), cases "unat incoming = 65535")
    case True
    then have "incoming = 65535" by (simp add: word_unat_eq_iff)
    then show "unat (incoming div ENET_PEER_RELIABLE_WINDOW_SIZE) \<le> unat (reliable_window (incoming + 1) incoming)
      \<and> unat (reliable_window (incoming + 1) incoming) \<le> Suc (unat (incoming div ENET_PEER_RELIABLE_WINDOW_SIZE))"
      by (simp add: reliable_window_def window_const_defs)
  next
    case False
    then have u: "unat (incoming + 1) = Suc (unat incoming)" using i by (subst unat_add_lem [THEN iffD1]) simp_all
    then have "\<not> incoming + 1 < incoming" by (simp add: word_less_nat_alt)
    then show "unat (incoming div ENET_PEER_RELIABLE_WINDOW_SIZE) \<le> unat (reliable_window (incoming + 1) incoming)
      \<and> unat (reliable_window (incoming + 1) incoming) \<le> Suc (unat (incoming div ENET_PEER_RELIABLE_WINDOW_SIZE))"
      by (simp add: reliable_window_def window_const_defs d u)
  qed
qed

definition fragmentable :: "nat \<Rightarrow> nat \<Rightarrow> bool" where
  "fragmentable D F \<longleftrightarrow> 0 < F \<and> F < 2 ^ 16 \<and> D < 2 ^ 32 \<and> frag_count D F \<le> 1048576"

lemma fragmentable_unat:
  assumes "fragmentable D F" "k < frag_count D F"
  shows "unat (of_nat k :: u32) = k" "unat (of_nat (k * F) :: u32) = k * F"
    "unat (of_nat (frag_len D F k) :: u32) = frag_len D F k" "unat (of_nat (frag_len D F k) :: u16) = frag_len D F k"
    "unat (of_nat D :: u32) = D" "unat (of_nat D :: size_t) = D" "unat (of_nat (frag_count D F) :: u32) = frag_count D F"
    "k * F + frag_len D F k \<le> D" "k * F < D"
proof -
  have k: "k * F < D" using assms by (simp add: fragmentable_def frag_count_less)
  show "unat (of_nat k :: u32) = k" "unat (of_nat (k * F) :: u32) = k * F"
    "unat (of_nat (frag_len D F k) :: u32) = frag_len D F k" "unat (of_nat (frag_len D F k) :: u16) = frag_len D F k"
    "unat (of_nat D :: u32) = D" "unat (of_nat D :: size_t) = D" "unat (of_nat (frag_count D F) :: u32) = frag_count D F"
    using assms k by (auto simp: fragmentable_def frag_len_def intro!: unat_of_nat_small simp del: of_nat_mult)
  show "k * F + frag_len D F k \<le> D" "k * F < D" using k by (simp_all add: frag_len_def)
qed

lemma arriving_fields [simp]:
  "command_number (arriving_command n channelID D F k) = ENET_PROTOCOL_COMMAND_SEND_FRAGMENT"
  "hd_channelID (pc_header (arriving_command n channelID D F k)) = channelID"
  "hd_channelID (pc_header (set_reliableSequenceNumber m (arriving_command n channelID D F k))) = channelID"
  "hd_reliableSequenceNumber (pc_header (set_reliableSequenceNumber m c)) = m"
  "command_number (set_reliableSequenceNumber m c) = command_number c"
  by (simp_all add: arriving_command_def queued_fragment_def set_reliableSequenceNumber_def command_number_def
      command_of_def command_defs command_flag_defs)

lemma fragment_body_fields [simp]:
  "sf_startSequenceNumber (fragment_body m D F k) = m"
  "sf_dataLength (fragment_body m D F k) = ENET_HOST_TO_NET_16 (of_nat (frag_len D F k))"
  "sf_fragmentCount (fragment_body m D F k) = ENET_HOST_TO_NET_32 (of_nat (frag_count D F))"
  "sf_fragmentNumber (fragment_body m D F k) = ENET_HOST_TO_NET_32 (of_nat k)"
  "sf_totalLength (fragment_body m D F k) = ENET_HOST_TO_NET_32 (of_nat D)"
  "sf_fragmentOffset (fragment_body m D F k) = ENET_HOST_TO_NET_32 (of_nat (k * F))"
  by (simp_all add: fragment_body_def)

text \<open>The tests at the head of the handler let the fragment through.\<close>

lemma fragment_accepted:
  fixes h :: ENetHost and pre post :: "u8 list"
  assumes sizes: "fragmentable (length bytes) F" "k < frag_count (length bytes) F"
    and r: "receiving i channelID n (length bytes) ready h"
  defines "g \<equiv> h\<lparr>ho_receivedData := pre @ frag_slice bytes F k @ post\<rparr>"
    and "cur \<equiv> length pre + frag_len (length bytes) F k"
    and "cs \<equiv> ch_incomingReliableCommands (channel_at (peer_at h i) (unat channelID))"
    and "store \<equiv> \<lambda>addr. fragment_store enet_peer_dispatch_incoming_reliable_commands i (unat channelID) addr (of_nat k)
      (of_nat (k * F)) (of_nat (frag_len (length bytes) F k)) (frag_slice bytes F k @ post)"
  shows "receive_fragment i n channelID bytes F (pre, k, post) h =
    (case fragment_search_back (reliable_search_step (n - 1) n) (fragment_matches g
        ENET_PROTOCOL_COMMAND_SEND_FRAGMENT (of_nat (length bytes)) (of_nat (frag_count (length bytes) F))) (rev cs) of
       FragmentMismatch \<Rightarrow> (-1, cur, g)
     | FragmentFound ic \<Rightarrow> (0, cur, store (ic_addr ic) g)
     | FragmentNew \<Rightarrow>
        (case enet_peer_queue_incoming_command i (set_reliableSequenceNumber n (arriving_command n channelID (length bytes) F k))
            None (of_nat (length bytes)) ENET_PACKET_FLAG_RELIABLE (of_nat (frag_count (length bytes) F)) g of
           (IncomingNull, h) \<Rightarrow> (-1, cur, h)
         | (IncomingDummy, h) \<Rightarrow> (0, cur, set_ub h)
         | (IncomingCommand addr, h) \<Rightarrow> (0, cur, store addr h)))"
proof -
  let ?D = "length bytes"
  note u = fragmentable_unat [OF sizes]
  have p: "peer_at g i = peer_at h i" by (simp add: g_def peer_at_def)
  have inc: "ch_incomingReliableSequenceNumber (channel_at (peer_at h i) (unat channelID)) = n - 1"
    using r by (auto simp: receiving_def)
  have refused: "\<not> data_refused (peer_at g i) (arriving_command n channelID ?D F k)"
    using r by (simp add: data_refused_def p receiving_def not_le)
  have small: "frag_len ?D F k < 2 ^ 32" using sizes by (auto simp: fragmentable_def frag_len_def)
  have fl: "ucast (of_nat (frag_len ?D F k) :: u16) = (of_nat (frag_len ?D F k) :: u32)"
    by (rule word_unat_eq_iff [THEN iffD2]) (use u small in \<open>simp add: unsigned_ucast_eq take_bit_nat_eq_self\<close>)
  have max: "ucast (of_nat ?D :: u32) \<le> ho_maximumPacketSize g"
    using r sizes by (simp add: receiving_def g_def fragmentable_def)
  from small have flsz: "(ucast (of_nat (frag_len ?D F k) :: u32) :: size_t) = of_nat (frag_len ?D F k)" by (rule ucast_of_nat_size)
  have le: "(of_nat (frag_len ?D F k) :: size_t) \<le> of_nat ?D"
  proof -
    have "frag_len ?D F k \<le> ?D" "?D < 2 ^ 64" using u(8) sizes by (simp_all add: fragmentable_def)
    then show ?thesis by (simp add: word_le_nat_alt)
  qed
  have overrun: "\<not> data_overrun g (ucast (of_nat (frag_len ?D F k) :: u32)) (length pre + unat (of_nat (frag_len ?D F k) :: u32))"
  proof -
    have "ho_receivedData g = pre @ frag_slice bytes F k @ post" by (simp add: g_def)
    moreover have "length (frag_slice bytes F k) = frag_len ?D F k" using u(8) by (simp add: frag_slice_def)
    ultimately show ?thesis
      using le max sizes unfolding data_overrun_def flsz u(3) by (auto simp: fragmentable_def not_less)
  qed
  have payload: "drop (length pre) (ho_receivedData g) = frag_slice bytes F k @ post" by (simp add: g_def)
  have "n - 1 + 1 = n" by simp
  then have window: "\<not> (unat (reliable_window n (n - 1)) < unat ((n - 1) div ENET_PEER_RELIABLE_WINDOW_SIZE)
      \<or> unat (reliable_window n (n - 1)) \<ge> unat ((n - 1) div ENET_PEER_RELIABLE_WINDOW_SIZE) + unat ENET_PEER_FREE_RELIABLE_WINDOWS - 1)"
    using next_window [of "n - 1"] by (auto simp: ENET_PEER_FREE_RELIABLE_WINDOWS_def)
  have lim: "\<not> (of_nat (frag_count ?D F) :: u32) > ENET_PROTOCOL_MAXIMUM_FRAGMENT_COUNT"
    using sizes u(7) by (simp add: protocol_limit_defs word_less_nat_alt fragmentable_def)
  have valid: "\<not> fragment_invalid g (of_nat k) (of_nat (frag_count ?D F)) (of_nat (k * F)) (of_nat (frag_len ?D F k)) (of_nat ?D)"
    using lim max sizes(2) u unfolding fragment_invalid_def
    by (simp add: word_le_nat_alt word_less_nat_alt unat_sub_if' del: of_nat_mult)
  have uD: "(ucast (of_nat ?D :: u32) :: size_t) = of_nat ?D" using sizes by (simp add: fragmentable_def)
  show ?thesis
    unfolding receive_fragment_def prod.case enet_protocol_handle_send_fragment_def Let_def
    by (simp only: g_def [symmetric] refused if_False arriving_fields fragment_body_fields bswap16_bswap16 bswap32_bswap32
        fl overrun [unfolded u(3)] p inc window valid payload cs_def [symmetric] store_def cur_def u(3) uD refused [unfolded p])
qed

lemma fragment_words_of_nat:
  assumes "m \<le> 1048576" shows "fragment_words (of_nat m) = (m + 31) div 32"
proof -
  have 1: "m + 31 < 2 ^ LENGTH(32)" using assms by simp
  have 2: "(of_nat m + 31 :: u32) = of_nat (m + 31)" by (simp only: of_nat_add of_nat_numeral)
  have 3: "unat (32 :: u32) = 32" by simp
  show ?thesis unfolding fragment_words_def unat_div 2 3 unat_of_nat_small [OF 1] ..
qed

lemma fragment_words_within:
  assumes "fragmentable D F" "k < frag_count D F" "length b = fragment_words (of_nat (frag_count D F))"
  shows "bitmap_within (of_nat k) b"
proof -
  have "frag_count D F \<le> 1048576" using assms(1) by (simp add: fragmentable_def)
  from fragment_words_of_nat [OF this] have l: "length b = (frag_count D F + 31) div 32" using assms(3) by simp
  have "k div 32 < (m + 31) div 32" if "k < m" for m using that by linarith
  from this [OF assms(2)] show ?thesis
    unfolding bitmap_within_def fragmentable_unat(1) [OF assms(1,2)] l .
qed

definition with_fragment :: "nat \<Rightarrow> ENetIncomingCommand \<Rightarrow> ENetIncomingCommand" where
  "with_fragment k ic = ic\<lparr>ic_fragmentsRemaining := ic_fragmentsRemaining ic - 1,
     ic_fragments := map_option (fragment_mark (of_nat k)) (ic_fragments ic)\<rparr>"

definition with_slice :: "u8 list \<Rightarrow> nat \<Rightarrow> nat \<Rightarrow> ENetPacket \<Rightarrow> ENetPacket" where
  "with_slice bytes F k pk = pk\<lparr>pk_data :=
     map_option (copy_into (k * F) (frag_slice bytes F k)) (pk_data pk)\<rparr>"

lemma of_nat_u32_eq: "a < 2 ^ 32 \<Longrightarrow> b < 2 ^ 32 \<Longrightarrow> (of_nat a :: u32) = of_nat b \<longleftrightarrow> a = b"
  by (simp add: word_of_nat_eq_iff take_bit_nat_eq_self)

lemma group_ok_with_fragment:
  assumes sizes: "fragmentable (length bytes) F" "k < frag_count (length bytes) F"
    and "group_ok n bytes F S ic" "k \<notin> S"
  shows "group_ok n bytes F (insert k S) (with_fragment k ic)"
proof -
  let ?count = "frag_count (length bytes) F"
  obtain fr where fr: "ic_fragments ic = Some fr" "length fr = fragment_words (of_nat ?count)"
    "\<And>j. j < ?count \<Longrightarrow> fragment_seen fr (of_nat j) \<longleftrightarrow> j \<in> S"
    using assms(3) by (auto simp: group_ok_def)
  have S: "S \<subseteq> {..<?count}" using assms(3) by (simp add: group_ok_def)
  then have fin: "finite S" by (rule finite_subset) simp
  have "insert k S \<subseteq> {..<?count}" using S sizes(2) by simp
  from card_mono [OF _ this] have "Suc (card S) \<le> ?count" using fin assms(4) by simp
  then have "(of_nat (?count - card S) - 1 :: u32) = of_nat (?count - card (insert k S))"
    using fin assms(4) by (simp add: of_nat_diff)
  moreover have "fragment_seen (fragment_mark (of_nat k) fr) (of_nat j) \<longleftrightarrow> j \<in> insert k S" if "j < ?count" for j
  proof -
    have "j < 2 ^ 32" "k < 2 ^ 32" using that sizes by (simp_all add: fragmentable_def)
    then show ?thesis
      using fragment_bitmap.seen_mark [OF fragment_words_within [OF sizes fr(2)] fragment_words_within [OF sizes(1) that fr(2)]]
        fr(3) [OF that] of_nat_u32_eq by auto
  qed
  moreover have "length (fragment_mark (of_nat k) fr) = length fr" by (simp add: fragment_mark_def)
  ultimately show ?thesis
    using assms(3) fr S sizes(2) by (simp add: group_ok_def with_fragment_def)
qed

lemma data_ok_with_slice:
  assumes "fragmentable (length bytes) F" "k < frag_count (length bytes) F" "data_ok bytes F S pk"
    and "S \<subseteq> {..<frag_count (length bytes) F}"
  shows "data_ok bytes F (insert k S) (with_slice bytes F k pk)"
proof -
  obtain d where d: "pk_data pk = Some d" "length d = length bytes" "\<And>j. j \<in> S \<Longrightarrow> frag_slice d F j = frag_slice bytes F j"
    using assms(3) by (auto simp: data_ok_def)
  have F: "0 < F" using assms(1) by (simp add: fragmentable_def)
  have "length (copy_into (k * F) (frag_slice bytes F k) d) = length bytes"
    using fragmentable_unat(8) [OF assms(1,2)] d(2) by (simp add: copy_into_def frag_slice_def)
  moreover have "frag_slice (copy_into (k * F) (frag_slice bytes F k) d) F j = frag_slice bytes F j"
    if "j \<in> insert k S" for j
    using frag_slice_write [OF F d(2) assms(2), of j] that assms(2,4) d(3) by auto
  ultimately show ?thesis
    using assms(3) d(1) by (simp add: data_ok_def with_slice_def)
qed

lemma group_complete:
  assumes "fragmentable (length bytes) F" "group_ok n bytes F S ic"
  shows "ic_fragmentsRemaining ic \<le> 0 \<longleftrightarrow> S = {..<frag_count (length bytes) F}"
proof -
  let ?count = "frag_count (length bytes) F"
  have S: "S \<subseteq> {..<?count}" using assms(2) by (simp add: group_ok_def)
  have b: "?count - card S < 2 ^ LENGTH(32)" using assms(1) by (auto simp: fragmentable_def)
  have "ic_fragmentsRemaining ic \<le> 0 \<longleftrightarrow> unat (of_nat (?count - card S) :: u32) = 0"
    using assms(2) by (simp add: group_ok_def word_le_nat_alt del: of_nat_diff)
  also have "\<dots> \<longleftrightarrow> ?count \<le> card S" unfolding unat_of_nat_small [OF b] by simp
  also have "\<dots> \<longleftrightarrow> S = {..<?count}"
    using card_seteq [OF finite_lessThan S] by auto
  finally show ?thesis .
qed

text \<open>The effect of storing fragment \<open>k\<close>, before the dispatch that follows the last one.\<close>

lemma fragment_store_step:
  fixes h :: ENetHost and post :: "u8 list" and dispatch :: "nat \<Rightarrow> nat \<Rightarrow> ENetHost \<Rightarrow> ENetHost"
  assumes sizes: "fragmentable (length bytes) F" "k < frag_count (length bytes) F"
    and a: "assembling i channelID n bytes F S ready ic q pk h"
  defines "store \<equiv> fragment_store dispatch i (unat channelID) (ic_addr ic) (of_nat k)
      (of_nat (k * F)) (of_nat (frag_len (length bytes) F k)) (frag_slice bytes F k @ post)"
  shows "k \<in> S \<Longrightarrow> store h = h"
    and "k \<notin> S \<Longrightarrow> \<exists>g. store h = (if insert k S = {..<frag_count (length bytes) F}
             then dispatch i (unat channelID) g else g)
         \<and> assembling i channelID n bytes F (insert k S) ready (with_fragment k ic) q (with_slice bytes F k pk) g
         \<and> env_ub g = env_ub h \<and> env_allocs g = env_allocs h"
proof -
  let ?D = "length bytes" let ?count = "frag_count ?D F" and ?c = "unat channelID"
  note u = fragmentable_unat [OF sizes]
  have r: "receiving i channelID n ?D ready h" and grp: "group_ok n bytes F S ic" and dok: "data_ok bytes F S pk"
    and q: "ic_packet ic = Some q" "env_packets h q = Some pk"
    and cs: "ch_incomingReliableCommands (channel_at (peer_at h i) ?c) = [ic]"
    and fresh: "\<forall>d \<in> set ready. ic_addr d \<noteq> ic_addr ic"
    using a by (simp_all add: assembling_def)
  have S: "S \<subseteq> {..<?count}" using grp by (simp add: group_ok_def)
  obtain fr where fr: "ic_fragments ic = Some fr" "length fr = fragment_words (of_nat ?count)"
    "fragment_seen fr (of_nat k) \<longleftrightarrow> k \<in> S"
    using grp sizes(2) by (auto simp: group_ok_def)
  obtain d where d: "pk_data pk = Some d" "length d = ?D" "pk_dataLength pk = of_nat ?D"
    using dok by (auto simp: data_ok_def)
  have find: "find_incoming (ic_addr ic) (incoming_commands (peer_at h i) ?c) = Some ic"
    by (simp add: find_incoming_def incoming_commands_def cs)
  have within: "\<not> length fr \<le> unat (of_nat k div 32 :: u32)"
    using fragment_words_within [OF sizes fr(2)] by (simp add: bitmap_within_def u32_div_32)
  show "store h = h" if "k \<in> S"
    using that within fr(3) by (simp add: store_def fragment_store_def find fr(1) q)
  assume k: "k \<notin> S"
  define g where "g = (upd_incoming i ?c (ic_addr ic) (with_fragment k) h)
      \<lparr>env_packets := (env_packets h)(q \<mapsto> with_slice bytes F k pk)\<rparr>"
  have trim: "\<not> ucast (of_nat (k * F) + of_nat (frag_len ?D F k) :: u32) > (of_nat ?D :: size_t)"
  proof -
    have "(of_nat (k * F) + of_nat (frag_len ?D F k) :: u32) = of_nat (k * F + frag_len ?D F k)" by simp
    moreover have "k * F + frag_len ?D F k < 2 ^ 32" using u(8) sizes(1) by (simp add: fragmentable_def)
    ultimately have "(ucast (of_nat (k * F) + of_nat (frag_len ?D F k) :: u32) :: size_t) = of_nat (k * F + frag_len ?D F k)"
      by (simp only: ucast_of_nat_size)
    moreover have "unat (of_nat (k * F + frag_len ?D F k) :: size_t) = k * F + frag_len ?D F k"
      using u(8) sizes(1) by (intro unat_of_nat_small) (simp add: fragmentable_def)
    ultimately show ?thesis using u(6,8) by (simp only: word_less_nat_alt)
  qed
  have len: "length (frag_slice bytes F k) = frag_len ?D F k" using u(8) by (simp add: frag_slice_def)
  have unrel: "ch_incomingUnreliableCommands (channel_at (peer_at h i) ?c) = []"
    and disp: "pr_dispatchedCommands (peer_at h i) = ready" and i: "i < length (ho_peers h)"
    and c: "?c < length (pr_channels (peer_at h i))"
    using r by (simp_all add: receiving_def)
  have keep: "update_incoming (ic_addr ic) f ready = ready" for f
    using fresh by (simp add: update_incoming_def map_idI)
  have same_p: "(ho_peers h ! i)\<lparr>pr_dispatchedCommands := ready\<rparr> = ho_peers h ! i"
    by (rule ENetPeer.equality) (use disp in \<open>simp_all add: peer_at_def\<close>)
  have same_ch: "ch\<lparr>ch_incomingReliableCommands := x, ch_incomingUnreliableCommands := []\<rparr>
      = ch\<lparr>ch_incomingReliableCommands := x\<rparr>" if "ch_incomingUnreliableCommands ch = []" for x and ch :: ENetChannel
    by (rule ENetChannel.equality) (simp_all add: that)
  have upd: "upd_incoming i ?c (ic_addr ic) f h = upd_peer i (upd_channel ?c (\<lambda>ch. ch\<lparr>ch_incomingReliableCommands := [f ic]\<rparr>)) h" for f
    using cs unrel disp keep
    by (simp add: upd_incoming_def upd_peer_def upd_channel_def peer_at_def channel_at_def update_incoming_def same_p same_ch)
  have g_alt: "g = (upd_peer i (upd_channel ?c (\<lambda>ch. ch\<lparr>ch_incomingReliableCommands := [with_fragment k ic]\<rparr>)) h)
      \<lparr>env_packets := (env_packets h)(q \<mapsto> with_slice bytes F k pk)\<rparr>"
    by (simp add: g_def upd)
  have with_k: "ic\<lparr>ic_fragmentsRemaining := ic_fragmentsRemaining ic - 1, ic_fragments := Some (fragment_mark (of_nat k) fr)\<rparr>
      = with_fragment k ic"
    by (simp add: with_fragment_def fr(1))
  have enough: "\<not> (length (frag_slice bytes F k @ post) < frag_len ?D F k \<or> length d < k * F + frag_len ?D F k)"
    using u(8) d(2) len by simp
  have pk': "pk\<lparr>pk_data := Some (copy_into (k * F) (take (frag_len ?D F k) (frag_slice bytes F k @ post)) d)\<rparr> = with_slice bytes F k pk"
    by (simp add: with_slice_def d(1) len)
  have "store h = (if ic_fragmentsRemaining ic - 1 \<le> 0 then dispatch i ?c g else g)"
    unfolding store_def fragment_store_def find option.case fr(1) q prod.case Let_def
    using within fr(3) k trim enough
    by (simp only: if_False d u upd with_k pk' g_alt[symmetric] option.case simp_thms upd_peer_fields)
  moreover have "ic_fragmentsRemaining ic - 1 \<le> 0 \<longleftrightarrow> insert k S = {..<?count}"
    using group_complete [OF sizes(1) group_ok_with_fragment [OF sizes grp k]] by (simp add: with_fragment_def)
  moreover have "assembling i channelID n bytes F (insert k S) ready (with_fragment k ic) q (with_slice bytes F k pk) g"
  proof -
    have p: "peer_at g i = upd_channel ?c (\<lambda>ch. ch\<lparr>ch_incomingReliableCommands := [with_fragment k ic]\<rparr>) (peer_at h i)"
      and "length (ho_peers g) = length (ho_peers h)" "ho_maximumPacketSize g = ho_maximumPacketSize h"
      "env_packets g q = Some (with_slice bytes F k pk)"
      using i by (simp_all add: g_alt peer_at_def upd_peer_def)
    then show ?thesis
      using r c fresh q(1) group_ok_with_fragment [OF sizes grp k] data_ok_with_slice [OF sizes dok S]
      unfolding assembling_def receiving_def p
      by (simp add: upd_channel_def channel_at_def) (simp add: with_fragment_def)
  qed
  ultimately show "\<exists>g. store h = (if insert k S = {..<?count} then dispatch i ?c g else g)
         \<and> assembling i channelID n bytes F (insert k S) ready (with_fragment k ic) q (with_slice bytes F k pk) g
         \<and> env_ub g = env_ub h \<and> env_allocs g = env_allocs h"
    by (intro exI [of _ g]) (simp add: g_alt)
qed

text \<open>The dispatch after the last fragment delivers the packet.\<close>

lemma dispatch_assembled:
  fixes h :: ENetHost
  assumes sizes: "fragmentable (length bytes) F" "0 < length bytes"
    and a: "assembling i channelID n bytes F {..<frag_count (length bytes) F} ready ic q pk h"
  defines "g \<equiv> enet_peer_dispatch_incoming_reliable_commands i (unat channelID) h"
  shows "assembled i channelID n bytes ready g" "env_ub g = env_ub h"
    "ch_incomingReliableSequenceNumber (channel_at (peer_at g i) (unat channelID))
       = n + of_nat (frag_count (length bytes) F - 1)"
    "ch_incomingReliableCommands (channel_at (peer_at g i) (unat channelID)) = []"
proof -
  let ?D = "length bytes" let ?count = "frag_count ?D F" and ?c = "unat channelID"
  have r: "receiving i channelID n ?D ready h" and grp: "group_ok n bytes F {..<?count} ic"
    and dok: "data_ok bytes F {..<?count} pk"
    and q: "ic_packet ic = Some q" "env_packets h q = Some pk"
    and cs: "ch_incomingReliableCommands (channel_at (peer_at h i) ?c) = [ic]"
    using a by (simp_all add: assembling_def)
  have F: "0 < F" using sizes(1) by (simp add: fragmentable_def)
  have pos: "0 < ?count" using frag_count_less [OF F, of 0] sizes(2) by simp
  have rem: "\<not> ic_fragmentsRemaining ic > 0" using group_complete [OF sizes(1) grp] by (simp add: not_less)
  have num: "ic_reliableSequenceNumber ic = n" "ic_fragmentCount ic = of_nat ?count" using grp by (simp_all add: group_ok_def)
  have inc: "ch_incomingReliableSequenceNumber (channel_at (peer_at h i) ?c) = n - 1" using r by (auto simp: receiving_def)
  have u: "unat (of_nat ?count :: u32) = ?count" using sizes(1) by (intro unat_of_nat_small) (simp add: fragmentable_def)
  have gt: "(of_nat ?count :: u32) > 0" using u pos by (simp add: word_less_nat_alt)
  have last: "ucast (of_nat ?count - 1 :: u32) = (of_nat (?count - 1) :: u16)"
  proof -
    have "(of_nat ?count - 1 :: u32) = of_nat (?count - 1)" using pos by (simp add: of_nat_diff)
    then show ?thesis
      by (simp only:) (rule bit_word_eqI, auto simp: bit_simps)
  qed
  have loop: "dispatch_reliable_loop (n - 1) [ic] = (n + of_nat (?count - 1), [ic], [])"
    using rem num gt last by (simp add: Let_def)
  define h1 where "h1 = upd_peer i (\<lambda>p. upd_channel ?c (\<lambda>ch. ch\<lparr>
      ch_incomingUnreliableSequenceNumber := 0, ch_incomingReliableCommands := []\<rparr>)
      (p\<lparr>pr_dispatchedCommands := pr_dispatchedCommands p @ [ic]\<rparr>))
    (upd_peer i (upd_channel ?c (\<lambda>ch. ch\<lparr>ch_incomingReliableSequenceNumber := n + of_nat (?count - 1)\<rparr>)) h)"
  have i: "i < length (ho_peers h)" and c: "?c < length (pr_channels (peer_at h i))" using r by (simp_all add: receiving_def)
  have p1: "peer_at h1 i = upd_channel ?c (\<lambda>ch. ch\<lparr>ch_incomingReliableSequenceNumber := n + of_nat (?count - 1),
      ch_incomingUnreliableSequenceNumber := 0, ch_incomingReliableCommands := []\<rparr>)
      ((peer_at h i)\<lparr>pr_dispatchedCommands := ready @ [ic]\<rparr>)"
    using i r c by (simp add: h1_def upd_channel_def receiving_def)
  have i1: "i < length (ho_peers h1)" using i by (simp add: h1_def)
  have unrel: "ch_incomingUnreliableCommands (channel_at (peer_at (need_dispatch i h1) i) ?c) = []"
    using r c by (simp add: need_dispatch_peer [OF i1] p1) (simp add: channel_at_def upd_channel_def receiving_def)
  have g: "g = need_dispatch i h1"
    unfolding g_def enet_peer_dispatch_incoming_reliable_commands_def Let_def cs inc loop prod.case h1_def [symmetric]
    using unrel by simp
  have d: "pk_data pk = Some bytes" "pk_dataLength pk = of_nat ?D"
    using dok tiles_cover [OF F] by (auto simp: data_ok_def)
  have env: "env_packets g = env_packets h" "env_ub g = env_ub h"
    by (simp_all add: g need_dispatch_def h1_def)
  show "assembled i channelID n bytes ready g"
    using q d num env by (simp add: assembled_def g need_dispatch_peer [OF i1] p1) (simp add: upd_channel_def)
  show "env_ub g = env_ub h" by (fact env)
  show "ch_incomingReliableSequenceNumber (channel_at (peer_at g i) ?c) = n + of_nat (?count - 1)"
    "ch_incomingReliableCommands (channel_at (peer_at g i) ?c) = []"
    using c by (simp_all add: g need_dispatch_peer [OF i1] p1) (simp_all add: channel_at_def upd_channel_def)
qed

lemma upd_peer_maximumPacketSize [simp]: "ho_maximumPacketSize (upd_peer i f h) = ho_maximumPacketSize h"
  by (simp add: upd_peer_def)

text \<open>The first fragment to arrive opens the group.\<close>

definition can_open :: "nat \<Rightarrow> u8 \<Rightarrow> ENetIncomingCommand list \<Rightarrow> ENetHost \<Rightarrow> bool" where
  "can_open i channelID ready h \<longleftrightarrow>
     ch_incomingReliableCommands (channel_at (peer_at h i) (unat channelID)) = [] \<and> env_allocs h = []
     \<and> pr_totalWaitingData (peer_at h i) < ho_maximumWaitingData h
     \<and> (\<forall>d \<in> set ready. ic_addr d < env_nextAddr h)"

lemma open_group:
  fixes h :: ENetHost
  assumes sizes: "fragmentable (length bytes) F" "0 < length bytes"
    and r: "receiving i channelID n (length bytes) ready h" and o: "can_open i channelID ready h"
  shows "\<exists>ic q pk g. enet_peer_queue_incoming_command i
      (set_reliableSequenceNumber n (arriving_command n channelID (length bytes) F k)) None (of_nat (length bytes))
      ENET_PACKET_FLAG_RELIABLE (of_nat (frag_count (length bytes) F)) h = (IncomingCommand (ic_addr ic), g)
    \<and> assembling i channelID n bytes F {} ready ic q pk g \<and> env_ub g = env_ub h \<and> env_allocs g = []"
proof -
  let ?D = "length bytes" let ?count = "frag_count ?D F" and ?c = "unat channelID"
  let ?cmd = "set_reliableSequenceNumber n (arriving_command n channelID ?D F k)"
  have F: "0 < F" using sizes(1) by (simp add: fragmentable_def)
  have pos: "0 < ?count" using frag_count_less [OF F, of 0] sizes(2) by simp
  have u: "unat (of_nat ?count :: u32) = ?count" using sizes(1) by (intro unat_of_nat_small) (simp add: fragmentable_def)
  have uD: "unat (of_nat ?D :: size_t) = ?D" using sizes(1) by (intro unat_of_nat_small) (simp add: fragmentable_def)
  have count: "of_nat ?count > (0 :: u32)" "of_nat ?count \<noteq> (0 :: u32)"
    using u pos by (auto simp: word_less_nat_alt)
  have lim: "(of_nat ?count :: u32) \<le> ENET_PROTOCOL_MAXIMUM_FRAGMENT_COUNT"
    using sizes(1) u by (simp add: protocol_limit_defs word_le_nat_alt fragmentable_def)
  have D: "\<not> (of_nat ?D :: size_t) \<le> 0" using uD sizes(2) by (simp add: word_le_nat_alt)
  define ch where "ch = channel_at (peer_at h i) ?c"
  have st: "pr_state (peer_at h i) \<noteq> ENET_PEER_STATE_DISCONNECT_LATER" and c: "?c < length (pr_channels (peer_at h i))"
    and i: "i < length (ho_peers h)"
    and inc: "ch_incomingReliableSequenceNumber ch = n - 1" and no_commands: "ch_incomingReliableCommands ch = []"
    and mem: "env_allocs h = []" "\<not> pr_totalWaitingData (peer_at h i) \<ge> ho_maximumWaitingData h"
    using r o by (auto simp: receiving_def can_open_def ch_def)
  have "n - 1 + 1 = n" by simp
  then have window: "\<not> (unat (reliable_window n (n - 1)) < unat ((n - 1) div ENET_PEER_RELIABLE_WINDOW_SIZE)
      \<or> unat (reliable_window n (n - 1)) \<ge> unat ((n - 1) div ENET_PEER_RELIABLE_WINDOW_SIZE) + unat ENET_PEER_FREE_RELIABLE_WINDOWS - 1)"
    using next_window [of "n - 1"] by (auto simp: ENET_PEER_FREE_RELIABLE_WINDOWS_def)
  have ne: "n \<noteq> n - 1" by (simp add: eq_diff_eq)
  have place: "incoming_place ?cmd ch = Some (0, 0)"
    using window ne by (simp add: incoming_place_def Let_def inc no_commands command_defs)
  define q where "q = env_nextAddr h"
  define pk where "pk = \<lparr>pk_referenceCount = 1, pk_flags = ENET_PACKET_FLAG_RELIABLE, pk_data = Some (map (env_junk h) [0..<?D]),
    pk_dataLength = of_nat ?D, pk_freeCallback = None, pk_userData = 0\<rparr>"
  define ic where "ic = \<lparr>ic_addr = Suc q, ic_reliableSequenceNumber = n, ic_unreliableSequenceNumber = 0,
    ic_command = ?cmd, ic_fragmentCount = of_nat ?count, ic_fragmentsRemaining = of_nat ?count,
    ic_fragments = Some (replicate (fragment_words (of_nat ?count)) 0), ic_packet = Some q\<rparr>"
  define h1 where "h1 = upd_peer i (\<lambda>p. p\<lparr>pr_totalWaitingData := pr_totalWaitingData p + of_nat ?D\<rparr>)
    (h\<lparr>env_packets := (env_packets h)(q \<mapsto> pk), env_nextAddr := Suc (Suc q)\<rparr>)"
  define g where "g = incoming_insert i ?c 0 ic h1"
  have create: "enet_packet_create None (of_nat ?D) ENET_PACKET_FLAG_RELIABLE h
    = (Some q, h\<lparr>env_packets := (env_packets h)(q \<mapsto> pk\<lparr>pk_referenceCount := 0\<rparr>), env_nextAddr := Suc q\<rparr>)"
    using D mem(1) by (simp add: enet_packet_create_def enet_malloc_def packet_flag_defs pk_def q_def uD)
  have retain: "packet_retain 1 q (h\<lparr>env_packets := (env_packets h)(q \<mapsto> pk\<lparr>pk_referenceCount := 0\<rparr>), env_nextAddr := Suc (Suc q)\<rparr>)
    = h\<lparr>env_packets := (env_packets h)(q \<mapsto> pk), env_nextAddr := Suc (Suc q)\<rparr>"
    by (simp add: packet_retain_def pk_def)
  have queue: "enet_peer_queue_incoming_command i ?cmd None (of_nat ?D) ENET_PACKET_FLAG_RELIABLE (of_nat ?count) h
      = (IncomingCommand (ic_addr ic), g)"
    unfolding enet_peer_queue_incoming_command_def Let_def
    using st c mem lim count
    by (simp add: place [unfolded ch_def] create enet_malloc_def retain g_def h1_def ic_def q_def [symmetric] not_le)
  have p1: "peer_at h1 i = (peer_at h i)\<lparr>pr_totalWaitingData := pr_totalWaitingData (peer_at h i) + of_nat ?D\<rparr>"
    and l1: "length (ho_peers h1) = length (ho_peers h)"
    and env1: "env_packets h1 q = Some pk" "env_ub h1 = env_ub h" "env_allocs h1 = []" "ho_maximumPacketSize h1 = ho_maximumPacketSize h"
    using i mem by (simp_all add: h1_def peer_at_def upd_peer_def)
  define h2 where "h2 = upd_peer i (upd_channel ?c (\<lambda>ch. ch\<lparr>ch_incomingReliableCommands := [ic]\<rparr>)) h1"
  have p2: "peer_at h2 i = upd_channel ?c (\<lambda>ch. ch\<lparr>ch_incomingReliableCommands := [ic]\<rparr>) (peer_at h1 i)"
    using i l1 by (simp add: h2_def)
  have loop: "dispatch_reliable_loop (n - 1) [ic] = (n - 1, [], [ic])" using count by (simp add: ic_def)
  have number: "command_number (ic_command ic) = ENET_PROTOCOL_COMMAND_SEND_FRAGMENT" by (simp add: ic_def)
  have insert: "upd_peer i (upd_channel ?c (\<lambda>ch. ch\<lparr>ch_incomingReliableCommands :=
      insert_at 0 ic (ch_incomingReliableCommands ch)\<rparr>)) h1 = h2"
    using no_commands by (simp add: h2_def upd_peer_def upd_channel_def insert_at_def p1 [unfolded peer_at_def] ch_def peer_at_def channel_at_def)
  have same: "ch_incomingReliableSequenceNumber (channel_at (peer_at h2 i) ?c) = n - 1"
    "ch_incomingReliableCommands (channel_at (peer_at h2 i) ?c) = [ic]"
    using inc c by (simp_all add: p2 p1 ch_def upd_channel_def channel_at_def)
  have g: "g = upd_peer i (upd_channel ?c (\<lambda>ch. ch\<lparr>ch_incomingReliableSequenceNumber := n - 1\<rparr>)) h2"
    unfolding g_def incoming_insert_def number insert reliable_queue_command_def
      enet_peer_dispatch_incoming_reliable_commands_def Let_def same loop prod.case by simp
  have "data_ok bytes F {} pk" by (simp add: data_ok_def pk_def)
  moreover have "group_ok n bytes F {} ic"
  proof -
    have "\<not> fragment_seen (replicate (fragment_words (of_nat ?count)) 0) (of_nat k)" if "k < ?count" for k
      using fragment_words_within [OF sizes(1) that, of "replicate (fragment_words (of_nat ?count)) 0"]
      by (simp add: bitmap_within_def fragment_seen_bit)
    then show ?thesis by (simp add: group_ok_def ic_def number [unfolded ic_def, simplified])
  qed
  moreover have "receiving i channelID n ?D ready g"
    using r c i l1 by (simp add: receiving_def g p2 p1 h2_def env1 upd_channel_def channel_at_def)
  moreover have "ch_incomingReliableCommands (channel_at (peer_at g i) ?c) = [ic]"
    using c i l1 by (simp add: g h2_def p1)
  moreover have "\<forall>d \<in> set ready. ic_addr d \<noteq> ic_addr ic"
    using o by (auto simp: can_open_def ic_def q_def)
  moreover have "ic_packet ic = Some q" "env_packets g q = Some pk" "env_ub g = env_ub h" "env_allocs g = []"
    using env1 by (simp_all add: ic_def g h2_def)
  ultimately show ?thesis using queue by (auto simp: assembling_def)
qed

section \<open>All fragments\<close>

text \<open>The fragments one after the other, as long as the handler accepts them.\<close>

fun receive_fragments :: "nat \<Rightarrow> u16 \<Rightarrow> u8 \<Rightarrow> u8 list \<Rightarrow> nat \<Rightarrow> (u8 list \<times> nat \<times> u8 list) list \<Rightarrow> ENetHost \<Rightarrow> ENetHost option" where
  "receive_fragments i n channelID bytes F [] h = Some h"
| "receive_fragments i n channelID bytes F (f # fs) h =
    (case receive_fragment i n channelID bytes F f h of
       (r, cur, h) \<Rightarrow> if r = 0 then receive_fragments i n channelID bytes F fs h else None)"

definition delivered :: "nat \<Rightarrow> u8 \<Rightarrow> u16 \<Rightarrow> u8 list \<Rightarrow> nat \<Rightarrow> ENetIncomingCommand list \<Rightarrow> ENetHost \<Rightarrow> bool" where
  "delivered i channelID n bytes F ready g \<longleftrightarrow> assembled i channelID n bytes ready g
     \<and> ch_incomingReliableSequenceNumber (channel_at (peer_at g i) (unat channelID))
         = n + of_nat (frag_count (length bytes) F - 1)
     \<and> ch_incomingReliableCommands (channel_at (peer_at g i) (unat channelID)) = []"

lemma receive_known_fragment:
  fixes h :: ENetHost and pre post :: "u8 list"
  assumes sizes: "fragmentable (length bytes) F" "k < frag_count (length bytes) F" and pos: "0 < length bytes"
    and a: "assembling i channelID n bytes F S ready ic q pk h" and more: "S \<noteq> {..<frag_count (length bytes) F}"
  shows "\<exists>cur g ic' pk'. receive_fragment i n channelID bytes F (pre, k, post) h = (0, cur, g) \<and> env_ub g = env_ub h
    \<and> (if insert k S = {..<frag_count (length bytes) F} then delivered i channelID n bytes F ready g
       else assembling i channelID n bytes F (insert k S) ready ic' q pk' g)"
proof -
  let ?D = "length bytes" let ?count = "frag_count ?D F" and ?c = "unat channelID"
  define h0 where "h0 = h\<lparr>ho_receivedData := pre @ frag_slice bytes F k @ post\<rparr>"
  have a0: "assembling i channelID n bytes F S ready ic q pk h0" and ub: "env_ub h0 = env_ub h"
    using a by (simp_all add: h0_def assembling_def receiving_def peer_at_def)
  have r: "receiving i channelID n ?D ready h" and grp: "group_ok n bytes F S ic" and dok: "data_ok bytes F S pk"
    and q: "ic_packet ic = Some q" "env_packets h q = Some pk"
    and cs: "ch_incomingReliableCommands (channel_at (peer_at h i) ?c) = [ic]"
    using a by (simp_all add: assembling_def)
  have "reliable_search_step (n - 1) n ic = Discard" using grp by (auto simp: group_ok_def reliable_search_step_def)
  moreover have "fragment_matches h0 ENET_PROTOCOL_COMMAND_SEND_FRAGMENT (of_nat ?D) (of_nat ?count) ic"
    using grp q dok sizes(1) by (simp add: fragment_matches_def group_ok_def h0_def data_ok_def fragmentable_def)
  ultimately have "fragment_search_back (reliable_search_step (n - 1) n)
      (fragment_matches h0 ENET_PROTOCOL_COMMAND_SEND_FRAGMENT (of_nat ?D) (of_nat ?count)) (rev [ic]) = FragmentFound ic"
    by simp
  then obtain cur where rf: "receive_fragment i n channelID bytes F (pre, k, post) h = (0, cur,
      fragment_store enet_peer_dispatch_incoming_reliable_commands i ?c (ic_addr ic) (of_nat k)
        (of_nat (k * F)) (of_nat (frag_len ?D F k)) (frag_slice bytes F k @ post) h0)"
    using fragment_accepted [OF sizes r, of pre post] by (simp add: cs h0_def del: of_nat_mult)
  note store = fragment_store_step [OF sizes a0, where post = post
      and dispatch = enet_peer_dispatch_incoming_reliable_commands]
  show ?thesis
  proof (cases "k \<in> S")
    case True
    then show ?thesis using rf store(1) a0 ub more by (auto simp: insert_absorb)
  next
    case False
    then obtain g where g: "fragment_store enet_peer_dispatch_incoming_reliable_commands i ?c (ic_addr ic) (of_nat k)
        (of_nat (k * F)) (of_nat (frag_len ?D F k)) (frag_slice bytes F k @ post) h0
        = (if insert k S = {..<?count} then enet_peer_dispatch_incoming_reliable_commands i ?c g else g)"
      "assembling i channelID n bytes F (insert k S) ready (with_fragment k ic) q (with_slice bytes F k pk) g"
      "env_ub g = env_ub h0"
      using store(2) by blast
    show ?thesis
    proof (cases "insert k S = {..<?count}")
      case True
      note d = dispatch_assembled [OF sizes(1) pos g(2) [unfolded True]]
      show ?thesis using rf g True d ub by (auto simp: delivered_def)
    next
      case False
      then show ?thesis using rf g ub by auto
    qed
  qed
qed

lemma receive_first_fragment:
  fixes h :: ENetHost and pre post :: "u8 list"
  assumes sizes: "fragmentable (length bytes) F" "k < frag_count (length bytes) F" and pos: "0 < length bytes"
    and r: "receiving i channelID n (length bytes) ready h" and o: "can_open i channelID ready h"
  shows "\<exists>cur g ic q pk. receive_fragment i n channelID bytes F (pre, k, post) h = (0, cur, g) \<and> env_ub g = env_ub h
    \<and> (if {k} = {..<frag_count (length bytes) F} then delivered i channelID n bytes F ready g
       else assembling i channelID n bytes F {k} ready ic q pk g)"
proof -
  let ?D = "length bytes" let ?count = "frag_count ?D F" and ?c = "unat channelID"
  define h0 where "h0 = h\<lparr>ho_receivedData := pre @ frag_slice bytes F k @ post\<rparr>"
  have r0: "receiving i channelID n ?D ready h0" and o0: "can_open i channelID ready h0" and ub: "env_ub h0 = env_ub h"
    using r o by (simp_all add: h0_def receiving_def can_open_def peer_at_def)
  obtain ic q pk g0 where g0: "enet_peer_queue_incoming_command i
      (set_reliableSequenceNumber n (arriving_command n channelID ?D F k)) None (of_nat ?D)
      ENET_PACKET_FLAG_RELIABLE (of_nat ?count) h0 = (IncomingCommand (ic_addr ic), g0)"
    and a: "assembling i channelID n bytes F {} ready ic q pk g0" and ub0: "env_ub g0 = env_ub h0"
    using open_group [OF sizes(1) pos r0 o0, of k] by blast
  have "ch_incomingReliableCommands (channel_at (peer_at h i) ?c) = []" using o by (simp add: can_open_def)
  then obtain cur where rf: "receive_fragment i n channelID bytes F (pre, k, post) h = (0, cur,
      fragment_store enet_peer_dispatch_incoming_reliable_commands i ?c (ic_addr ic) (of_nat k)
        (of_nat (k * F)) (of_nat (frag_len ?D F k)) (frag_slice bytes F k @ post) g0)"
    using fragment_accepted [OF sizes r, of pre post] g0 by (simp add: h0_def del: of_nat_mult)
  obtain g where g: "fragment_store enet_peer_dispatch_incoming_reliable_commands i ?c (ic_addr ic) (of_nat k)
      (of_nat (k * F)) (of_nat (frag_len ?D F k)) (frag_slice bytes F k @ post) g0
      = (if {k} = {..<?count} then enet_peer_dispatch_incoming_reliable_commands i ?c g else g)"
    "assembling i channelID n bytes F {k} ready (with_fragment k ic) q (with_slice bytes F k pk) g"
    "env_ub g = env_ub g0"
    using fragment_store_step(2) [OF sizes a, where post = post
      and dispatch = enet_peer_dispatch_incoming_reliable_commands] by blast
  show ?thesis
  proof (cases "{k} = {..<?count}")
    case True
    note d = dispatch_assembled [OF sizes(1) pos g(2) [unfolded True]]
    show ?thesis using rf g True d ub ub0 by (auto simp: delivered_def)
  next
    case False
    then show ?thesis using rf g ub ub0 by auto
  qed
qed

lemma butlast_indices:
  "(\<And>f. f \<in> set fs \<Longrightarrow> fst (snd f) < m) \<Longrightarrow> fst ` snd ` set (butlast fs) \<subseteq> {..<m :: nat}"
  by (auto dest!: in_set_butlastD)

lemma receive_rest:
  fixes h :: ENetHost
  assumes sizes: "fragmentable (length bytes) F" and pos: "0 < length bytes"
    and "assembling i channelID n bytes F S ready ic q pk h"
    and "\<And>f. f \<in> set fs \<Longrightarrow> fst (snd f) < frag_count (length bytes) F"
    and "S \<union> fst ` snd ` set (butlast fs) \<noteq> {..<frag_count (length bytes) F}"
    and "S \<union> fst ` snd ` set fs = {..<frag_count (length bytes) F}"
  shows "\<exists>g. receive_fragments i n channelID bytes F fs h = Some g \<and> delivered i channelID n bytes F ready g
    \<and> env_ub g = env_ub h"
  using assms(3-)
proof (induction fs arbitrary: S ic pk h)
  case (Cons f fs)
  let ?all = "{..<frag_count (length bytes) F}"
  obtain pre k post where f: "f = (pre, k, post)" by (cases f)
  have k: "k < frag_count (length bytes) F" using Cons.prems(2) [of f] by (simp add: f)
  have sub: "S \<subseteq> ?all" using Cons.prems(4) by blast
  then have more: "S \<noteq> ?all" using butlast_indices [of "f # fs", OF Cons.prems(2)] Cons.prems(3) by blast
  obtain cur g ic' pk' where g: "receive_fragment i n channelID bytes F f h = (0, cur, g)" "env_ub g = env_ub h"
    "if insert k S = ?all then delivered i channelID n bytes F ready g
     else assembling i channelID n bytes F (insert k S) ready ic' q pk' g"
    unfolding f using receive_known_fragment [OF sizes k pos Cons.prems(1) more] by blast
  show ?case
  proof (cases "fs = []")
    case True
    then show ?thesis using g Cons.prems(4) by (auto simp: f)
  next
    case False
    have "insert k S \<union> fst ` snd ` set (butlast fs) \<noteq> ?all" "insert k S \<union> fst ` snd ` set fs = ?all"
      using Cons.prems(3,4) False by (simp_all add: f)
    moreover from this(1) have "insert k S \<noteq> ?all"
      using butlast_indices [of fs "frag_count (length bytes) F"] Cons.prems(2) by auto
    ultimately show ?thesis
      using Cons.IH [of "insert k S" ic' pk' g] g Cons.prems(2) by auto
  qed
qed simp

text \<open>
  C2: The fragments that \<^verbatim>\<open>enet_peer_send\<close> makes of a packet are put together again by
  \<^verbatim>\<open>enet_protocol_handle_send_fragment\<close> whatever the order in which they arrive, however many
  duplicates come before the last missing one, and whatever surrounds them in their datagrams:
  every one is accepted, the packet that is then delivered has exactly the sender's bytes, the
  channel's counter stands at the number of the last fragment, and no access out of bounds occurs.
\<close>

theorem fragments_reassemble:
  fixes h :: ENetHost
  assumes "fragmentable (length bytes) F" "0 < length bytes"
    and "receiving i channelID n (length bytes) ready h" "can_open i channelID ready h"
    and "\<forall>f \<in> set fs. fst (snd f) < frag_count (length bytes) F"
    and "fst ` snd ` set (butlast fs) \<noteq> {..<frag_count (length bytes) F}"
    and "fst ` snd ` set fs = {..<frag_count (length bytes) F}"
  shows "\<exists>g ic q pk. receive_fragments i n channelID bytes F fs h = Some g
    \<and> pr_dispatchedCommands (peer_at g i) = ready @ [ic] \<and> ic_reliableSequenceNumber ic = n
    \<and> ic_packet ic = Some q \<and> env_packets g q = Some pk
    \<and> pk_data pk = Some bytes \<and> pk_dataLength pk = of_nat (length bytes)
    \<and> ch_incomingReliableSequenceNumber (channel_at (peer_at g i) (unat channelID))
        = n + of_nat (frag_count (length bytes) F - 1)
    \<and> env_ub g = env_ub h"
proof -
  let ?all = "{..<frag_count (length bytes) F}"
  have "0 < frag_count (length bytes) F"
    using assms(1,2) frag_count_less [of F 0 "length bytes"] by (simp add: fragmentable_def)
  then have "fs \<noteq> []" using assms(7) by force
  then obtain pre k post fs' where fs: "fs = (pre, k, post) # fs'" by (cases fs) auto
  have k: "k < frag_count (length bytes) F" using assms(5) by (simp add: fs)
  obtain cur g ic q pk where g: "receive_fragment i n channelID bytes F (pre, k, post) h = (0, cur, g)" "env_ub g = env_ub h"
    "if {k} = ?all then delivered i channelID n bytes F ready g else assembling i channelID n bytes F {k} ready ic q pk g"
    using receive_first_fragment [OF assms(1) k assms(2,3,4)] by blast
  have "\<exists>g. receive_fragments i n channelID bytes F fs h = Some g \<and> delivered i channelID n bytes F ready g \<and> env_ub g = env_ub h"
  proof (cases "fs' = []")
    case True
    then show ?thesis using g assms(7) by (simp add: fs)
  next
    case False
    have u: "{k} \<union> fst ` snd ` set (butlast fs') \<noteq> ?all" "{k} \<union> fst ` snd ` set fs' = ?all"
      using assms(6,7) False by (simp_all add: fs)
    moreover from u have "{k} \<noteq> ?all"
      using butlast_indices [of fs' "frag_count (length bytes) F"] assms(5) by (auto simp: fs)
    ultimately show ?thesis
      using receive_rest [OF assms(1,2), of i channelID n "{k}" ready ic q pk g fs'] g assms(5) by (auto simp: fs)
  qed
  then show ?thesis by (auto simp: delivered_def assembled_def)
qed

text \<open>Five bytes in three fragments, which arrive as 2, 0, 0, 1.\<close>

theorem fragments_reassemble_witness:
  "\<exists>g ic q pk. receive_fragments 0 1 0 [1, 2, 3, 4, 5] 2 [([], 2, []), ([9], 0, [7]), ([], 0, []), ([], 1, [])] example_host = Some g
    \<and> pr_dispatchedCommands (peer_at g 0) = [ic] \<and> ic_packet ic = Some q \<and> env_packets g q = Some pk
    \<and> pk_data pk = Some [1, 2, 3, 4, 5] \<and> env_ub g = False"
proof -
  let ?fs = "[([], 2, []), ([9], 0, [7]), ([], 0, []), ([], 1, [])] :: (u8 list \<times> nat \<times> u8 list) list"
  have count: "frag_count 5 2 = 3" by (simp add: frag_count_def)
  have len: "length [1, 2, 3, 4, 5 :: u8] = 5" by simp
  have f: "fragmentable (length [1, 2, 3, 4, 5 :: u8]) 2" "0 < length [1, 2, 3, 4, 5 :: u8]"
    by (simp_all only: len, simp_all add: fragmentable_def count)
  have r: "receiving 0 0 1 (length [1, 2, 3, 4, 5 :: u8]) [] example_host"
    by (simp add: receiving_def channel_at_def fresh_channel_def)
      (simp add: example_peer_def reset_fields_def zero_peer_def)
  have o: "can_open 0 0 [] example_host"
    by (simp add: can_open_def channel_at_def fresh_channel_def)
      (simp add: example_peer_def reset_fields_def zero_peer_def)
  have all: "{..<frag_count (length [1, 2, 3, 4, 5 :: u8]) 2} = {0, 1, 2}"
    by (simp only: len count) auto
  have k: "\<forall>f \<in> set ?fs. fst (snd f) < frag_count (length [1, 2, 3, 4, 5 :: u8]) 2"
    by (simp only: len count) simp
  have b: "fst ` snd ` set (butlast ?fs) \<noteq> {..<frag_count (length [1, 2, 3, 4, 5 :: u8]) 2}" unfolding all by auto
  have s: "fst ` snd ` set ?fs = {..<frag_count (length [1, 2, 3, 4, 5 :: u8]) 2}" unfolding all by auto
  show ?thesis
    using fragments_reassemble [OF f r o k b s] unfolding append_Nil example_host_fields
    by (elim exE conjE, intro exI conjI) assumption+
qed

end
