(* ===== verification/ENet_Handshake.thy ===== *)
theory ENet_Handshake
  imports ENet_Accounting
begin

text \<open>
  The connection handshake across two hosts: the connect command of \<^verbatim>\<open>enet_host_connect\<close>, the
  answer of \<^verbatim>\<open>enet_protocol_handle_connect\<close>, and its acceptance by
  \<^verbatim>\<open>enet_protocol_handle_verify_connect\<close>, after which both ends hold matching parameters. And the
  bounds of what is negotiated, whatever a datagram asks for.
\<close>

section \<open>Queueing a control command\<close>

definition control_command :: "ENetProtocol \<Rightarrow> bool" where
  "control_command command \<longleftrightarrow> hd_channelID (pc_header command) = 0xFF
     \<and> command_of command AND ENET_PROTOCOL_COMMAND_FLAG_ACKNOWLEDGE \<noteq> 0
     \<and> command_number command \<noteq> ENET_PROTOCOL_COMMAND_SEND_UNRELIABLE
     \<and> command_number command \<noteq> ENET_PROTOCOL_COMMAND_SEND_UNSEQUENCED"

definition queued_control :: "ENetProtocol \<Rightarrow> u16 \<Rightarrow> ENetOutgoingCommand" where
  "queued_control command n = \<lparr>oc_reliableSequenceNumber = n, oc_unreliableSequenceNumber = 0, oc_sentTime = 0,
     oc_roundTripTimeout = 0, oc_roundTripTimeoutLimit = 0, oc_fragmentOffset = 0, oc_fragmentLength = 0,
     oc_sendAttempts = 0, oc_command = set_reliableSequenceNumber (ENET_HOST_TO_NET_16 n) command, oc_packet = None\<rparr>"

lemma setup_control:
  assumes "control_command (oc_command oc)"
  shows "setup_outgoing oc p = p\<lparr>
      pr_outgoingDataTotal := pr_outgoingDataTotal p
        + ucast (enet_protocol_command_size (command_of (oc_command oc)) + ucast (oc_fragmentLength oc)),
      pr_outgoingReliableSequenceNumber := pr_outgoingReliableSequenceNumber p + 1,
      pr_outgoingReliableCommands := pr_outgoingReliableCommands p
        @ [oc\<lparr>oc_reliableSequenceNumber := pr_outgoingReliableSequenceNumber p + 1, oc_unreliableSequenceNumber := 0,
             oc_sendAttempts := 0, oc_sentTime := 0, oc_roundTripTimeout := 0, oc_roundTripTimeoutLimit := 0,
             oc_command := set_reliableSequenceNumber
               (ENET_HOST_TO_NET_16 (pr_outgoingReliableSequenceNumber p + 1)) (oc_command oc)\<rparr>]\<rparr>"
proof -
  have c: "hd_channelID (pc_header (oc_command oc)) = 0xFF" "command_number (oc_command oc) \<noteq> 7"
    "command_number (oc_command oc) \<noteq> 9"
    "hd_command (pc_header (oc_command oc)) AND ENET_PROTOCOL_COMMAND_FLAG_ACKNOWLEDGE \<noteq> 0"
    using assms by (simp_all add: control_command_def command_defs command_of_def)
  have n: "command_number (set_reliableSequenceNumber m (oc_command oc)) = command_number (oc_command oc)"
    "hd_command (pc_header (set_reliableSequenceNumber m (oc_command oc))) = hd_command (pc_header (oc_command oc))" for m
    by (simp_all add: command_number_def command_of_def set_reliableSequenceNumber_def)
  show ?thesis
    using c by (simp add: setup_outgoing_def outgoing_sequence_def Let_def outgoing_numbered_def n command_defs command_of_def)
qed

lemma queue_control:
  fixes h :: ENetHost
  assumes "control_command command" "env_allocs h = []" "i < length (ho_peers h)"
  defines "g \<equiv> snd (enet_peer_queue_outgoing_command i command None 0 0 h)"
  shows "peer_at g i = (peer_at h i)\<lparr>
      pr_outgoingDataTotal := pr_outgoingDataTotal (peer_at h i) + ucast (enet_protocol_command_size (command_of command)),
      pr_outgoingReliableSequenceNumber := pr_outgoingReliableSequenceNumber (peer_at h i) + 1,
      pr_outgoingReliableCommands := pr_outgoingReliableCommands (peer_at h i)
        @ [queued_control command (pr_outgoingReliableSequenceNumber (peer_at h i) + 1)]\<rparr>"
    and "length (ho_peers g) = length (ho_peers h)"
    and "\<And>j. j \<noteq> i \<Longrightarrow> peer_at g j = peer_at h j"
  using assms(1-3)
  by (simp_all add: g_def enet_peer_queue_outgoing_command_def enet_malloc_def enet_peer_setup_outgoing_command_def
      channel_missing_def Let_def setup_control queued_control_def control_command_def)

section \<open>The three steps\<close>

lemma first_disconnected_less: "first_disconnected ps = Some i \<Longrightarrow> i < length ps \<and> pr_state (ps ! i) = ENET_PEER_STATE_DISCONNECTED"
  by (induction ps arbitrary: i) (auto split: if_splits)

definition limited_channels :: "size_t \<Rightarrow> size_t" where
  "limited_channels channelCount =
     (if channelCount < ENET_PROTOCOL_MINIMUM_CHANNEL_COUNT then ENET_PROTOCOL_MINIMUM_CHANNEL_COUNT
      else if channelCount > ENET_PROTOCOL_MAXIMUM_CHANNEL_COUNT then ENET_PROTOCOL_MAXIMUM_CHANNEL_COUNT
      else channelCount)"

text \<open>The fields of a peer that the handshake settles or relies on.\<close>

definition connection :: "ENetPeer \<Rightarrow> ENetPeerState \<times> u16 \<times> u16 \<times> u8 \<times> u8 \<times> u32 \<times> size_t \<times> u32 \<times> u32 \<times> u32 \<times> u32 \<times> u32 \<times> u32 \<times> u32" where
  "connection p = (pr_state p, pr_incomingPeerID p, pr_outgoingPeerID p, pr_incomingSessionID p, pr_outgoingSessionID p,
     pr_connectID p, pr_channelCount p, pr_mtu p, pr_windowSize p, pr_packetThrottleInterval p,
     pr_packetThrottleAcceleration p, pr_packetThrottleDeceleration p, pr_incomingBandwidth p, pr_outgoingBandwidth p)"

lemma host_connect_step:
  fixes h :: ENetHost
  assumes "first_disconnected (ho_peers h) = Some i" "env_allocs h = []"
  obtains g where "enet_host_connect address channelCount data h = (Some i, g)"
    "connection (peer_at g i) = connection (host_connect_peer (h\<lparr>ho_randomSeed := ho_randomSeed h + 1\<rparr>) address
        (limited_channels channelCount) (peer_at h i))"
    "oc_command (last (pr_outgoingReliableCommands (peer_at g i))) = set_reliableSequenceNumber
        (ENET_HOST_TO_NET_16 (pr_outgoingReliableSequenceNumber (peer_at h i) + 1))
        (connect_command h (host_connect_peer (h\<lparr>ho_randomSeed := ho_randomSeed h + 1\<rparr>) address
            (limited_channels channelCount) (peer_at h i)) (limited_channels channelCount) data)"
    "length (ho_peers g) = length (ho_peers h)"
proof -
  let ?chans = "limited_channels channelCount"
  note i = first_disconnected_less [OF assms(1)]
  define h1 where "h1 = upd_peer i (host_connect_peer (h\<lparr>ho_randomSeed := ho_randomSeed h + 1\<rparr>) address ?chans)
    (h\<lparr>ho_randomSeed := ho_randomSeed h + 1\<rparr>)"
  let ?command = "connect_command h1 (peer_at h1 i) ?chans data"
  define g where "g = snd (enet_peer_queue_outgoing_command i ?command None 0 0 h1)"
  have p: "peer_at h1 i = host_connect_peer (h\<lparr>ho_randomSeed := ho_randomSeed h + 1\<rparr>) address ?chans (peer_at h i)"
    using i by (simp add: h1_def peer_at_def upd_peer_def)
  have "control_command ?command"
    by (simp add: control_command_def connect_command_def peer_command_def command_of_def command_number_def
        command_defs command_flag_defs)
  note q = queue_control [OF this, where i = i and h = h1, folded g_def]
  have pre: "env_allocs h1 = []" "i < length (ho_peers h1)" using i assms(2) by (simp_all add: h1_def)
  have "enet_host_connect address channelCount data h = (Some i, g)"
    using assms by (simp add: enet_host_connect_def enet_malloc_def Let_def limited_channels_def h1_def g_def)
  moreover have "connection (peer_at g i) = connection (peer_at h1 i)"
    using q(1) [OF pre] by (simp add: connection_def)
  moreover have "connect_command h1 p c d = connect_command h p c d" for p c d
    by (simp add: connect_command_def h1_def upd_peer_def)
  moreover have "length (ho_peers g) = length (ho_peers h)" using q(2) [OF pre] by (simp add: h1_def)
  moreover have "pr_outgoingReliableSequenceNumber (peer_at h1 i) = pr_outgoingReliableSequenceNumber (peer_at h i)"
    by (simp add: p host_connect_peer_def)
  ultimately show thesis
    using q(1) [OF pre] that [of g] by (simp add: p queued_control_def)
qed

lemma connect_scan_index:
  "connect_scan address connectID k ps peer d = Some (Some j, n) \<Longrightarrow>
     (peer = Some j) \<or> (k \<le> j \<and> j < k + length ps \<and> pr_state (ps ! (j - k)) = ENET_PEER_STATE_DISCONNECTED)"
proof (induction ps arbitrary: k peer d)
  case (Cons p ps)
  show ?case
  proof (cases "pr_state p = ENET_PEER_STATE_DISCONNECTED")
    case True
    then have "connect_scan address connectID (Suc k) ps (if peer = None then Some k else peer) d = Some (Some j, n)"
      using Cons.prems by simp
    from Cons.IH [OF this] show ?thesis using True by (auto simp: nth_Cons' split: if_splits)
  next
    case False
    then obtain d' where "connect_scan address connectID (Suc k) ps peer d' = Some (Some j, n)"
      using Cons.prems by (auto split: if_splits)
    from Cons.IH [OF this] show ?thesis by (auto simp: nth_Cons')
  qed
qed simp

lemma handle_connect_step:
  fixes h :: ENetHost
  assumes "enet_protocol_handle_connect cn h = (Some j, g)" "env_allocs h = []"
  defines "offered \<equiv> ucast (ENET_NET_TO_HOST_32 (cn_channelCount cn)) :: size_t"
  defines "chans \<equiv> if offered > ho_channelLimit h then ho_channelLimit h else offered"
  shows "j < length (ho_peers h)" "pr_state (peer_at h j) = ENET_PEER_STATE_DISCONNECTED"
    "ENET_PROTOCOL_MINIMUM_CHANNEL_COUNT \<le> offered" "offered \<le> ENET_PROTOCOL_MAXIMUM_CHANNEL_COUNT"
    "connection (peer_at g j) = connection (connect_peer h cn chans (peer_at h j))"
    "oc_command (last (pr_outgoingReliableCommands (peer_at g j))) = set_reliableSequenceNumber
        (ENET_HOST_TO_NET_16 (pr_outgoingReliableSequenceNumber (peer_at h j) + 1))
        (verify_command h (connect_peer h cn chans (peer_at h j))
          (connect_windowSize h (ENET_NET_TO_HOST_32 (cn_windowSize cn))) chans)"
    "length (ho_peers g) = length (ho_peers h)"
proof -
  define h1 where "h1 = upd_peer j (connect_peer h cn chans) h"
  let ?command = "verify_command h1 (peer_at h1 j) (connect_windowSize h1 (ENET_NET_TO_HOST_32 (cn_windowSize cn))) chans"
  obtain n where scan: "connect_scan (ho_receivedAddress h) (cn_connectID cn) 0 (ho_peers h) None 0 = Some (Some j, n)"
    and g: "g = snd (enet_peer_queue_outgoing_command j ?command None 0 0 h1)"
    and lim: "\<not> (offered < ENET_PROTOCOL_MINIMUM_CHANNEL_COUNT \<or> offered > ENET_PROTOCOL_MAXIMUM_CHANNEL_COUNT)"
    using assms(1,2) unfolding enet_protocol_handle_connect_def Let_def offered_def [symmetric]
    by (auto simp: enet_malloc_def h1_def chans_def split: if_splits option.splits)
  show j: "j < length (ho_peers h)" "pr_state (peer_at h j) = ENET_PEER_STATE_DISCONNECTED"
    using connect_scan_index [OF scan] by (simp_all add: peer_at_def)
  show "ENET_PROTOCOL_MINIMUM_CHANNEL_COUNT \<le> offered" "offered \<le> ENET_PROTOCOL_MAXIMUM_CHANNEL_COUNT"
    using lim by (simp_all add: not_less)
  have p: "peer_at h1 j = connect_peer h cn chans (peer_at h j)" using j by (simp add: h1_def)
  have "control_command ?command"
    by (simp add: control_command_def verify_command_def peer_command_def command_of_def command_number_def
        command_defs command_flag_defs)
  note q = queue_control [OF this, where i = j and h = h1, folded g]
  have pre: "env_allocs h1 = []" "j < length (ho_peers h1)" using j assms(2) by (simp_all add: h1_def)
  show "connection (peer_at g j) = connection (connect_peer h cn chans (peer_at h j))"
    using q(1) [OF pre] by (simp add: connection_def p)
  have "verify_command h1 p w c = verify_command h p w c" "connect_windowSize h1 w = connect_windowSize h w" for p w c
    by (simp_all add: verify_command_def h1_def upd_peer_def connect_windowSize_def)
  moreover have "pr_outgoingReliableSequenceNumber (peer_at h1 j) = pr_outgoingReliableSequenceNumber (peer_at h j)"
    by (simp add: p connect_peer_def Let_def)
  ultimately show "oc_command (last (pr_outgoingReliableCommands (peer_at g j))) = set_reliableSequenceNumber
        (ENET_HOST_TO_NET_16 (pr_outgoingReliableSequenceNumber (peer_at h j) + 1))
        (verify_command h (connect_peer h cn chans (peer_at h j))
          (connect_windowSize h (ENET_NET_TO_HOST_32 (cn_windowSize cn))) chans)"
    using q(1) [OF pre] by (simp add: p queued_control_def)
  show "length (ho_peers g) = length (ho_peers h)" using q(2) [OF pre] by (simp add: h1_def)
qed

text \<open>The acceptance of the answer reads and writes only these fields, the queues aside.\<close>

lemma connection_remove_sent:
  fixes h :: ENetHost
  assumes "i < length (ho_peers h)"
  shows "connection (peer_at (snd (enet_protocol_remove_sent_reliable_command i n c h)) i) = connection (peer_at h i)"
    "length (ho_peers (snd (enet_protocol_remove_sent_reliable_command i n c h))) = length (ho_peers h)"
proof -
  have r: "connection (peer_at (remove_acknowledged i n c w k oc h) i) = connection (peer_at h i)"
    "length (ho_peers (remove_acknowledged i n c w k oc h)) = length (ho_peers h)" for w k oc
    using assms by (auto simp: remove_acknowledged_def Let_def connection_def upd_channel_def)
  show "connection (peer_at (snd (enet_protocol_remove_sent_reliable_command i n c h)) i) = connection (peer_at h i)"
    "length (ho_peers (snd (enet_protocol_remove_sent_reliable_command i n c h))) = length (ho_peers h)"
    using assms r unfolding enet_protocol_remove_sent_reliable_command_def
    by (auto simp: Let_def connection_def split: option.splits prod.splits list.splits)
qed

lemma verify_peer_fields:
  "pr_state (verify_peer vc p) = pr_state p" "pr_incomingPeerID (verify_peer vc p) = pr_incomingPeerID p"
  "pr_outgoingPeerID (verify_peer vc p) = ENET_NET_TO_HOST_16 (vc_outgoingPeerID vc)"
  "pr_incomingSessionID (verify_peer vc p) = vc_incomingSessionID vc"
  "pr_outgoingSessionID (verify_peer vc p) = vc_outgoingSessionID vc"
  "pr_connectID (verify_peer vc p) = pr_connectID p"
  "pr_channelCount (verify_peer vc p) = min (ucast (ENET_NET_TO_HOST_32 (vc_channelCount vc))) (pr_channelCount p)"
  "pr_mtu (verify_peer vc p) = min (clamp_mtu (ENET_NET_TO_HOST_32 (vc_mtu vc))) (pr_mtu p)"
  "pr_windowSize (verify_peer vc p) = min (clamp_windowSize (ENET_NET_TO_HOST_32 (vc_windowSize vc))) (pr_windowSize p)"
  "pr_packetThrottleInterval (verify_peer vc p) = pr_packetThrottleInterval p"
  "pr_packetThrottleAcceleration (verify_peer vc p) = pr_packetThrottleAcceleration p"
  "pr_packetThrottleDeceleration (verify_peer vc p) = pr_packetThrottleDeceleration p"
  "pr_incomingBandwidth (verify_peer vc p) = ENET_NET_TO_HOST_32 (vc_incomingBandwidth vc)"
  "pr_outgoingBandwidth (verify_peer vc p) = ENET_NET_TO_HOST_32 (vc_outgoingBandwidth vc)"
  by (auto simp: verify_peer_def Let_def min_def)

lemma connection_verify_peer:
  "connection p = connection q \<Longrightarrow> connection (verify_peer vc p) = connection (verify_peer vc q)"
  by (simp add: connection_def verify_peer_fields)

lemma verify_mismatch_connection:
  "connection p = connection q \<Longrightarrow> verify_mismatch vc p = verify_mismatch vc q"
  by (auto simp: connection_def verify_mismatch_def)

lemma on_connect_peers [simp]:
  "ho_peers (enet_peer_on_connect i h) = ho_peers h" "ho_peers (enet_peer_on_disconnect i h) = ho_peers h"
  by (simp_all add: enet_peer_on_connect_def enet_peer_on_disconnect_def Let_def)

lemma change_state_peer:
  fixes h :: ENetHost
  assumes "i < length (ho_peers h)"
  shows "peer_at (enet_protocol_change_state i s h) i = (peer_at h i)\<lparr>pr_state := s\<rparr>"
    "length (ho_peers (enet_protocol_change_state i s h)) = length (ho_peers h)"
  using assms by (simp_all add: enet_protocol_change_state_def Let_def peer_at_def upd_peer_def)

lemma need_dispatch_connection:
  fixes h :: ENetHost
  assumes "i < length (ho_peers h)"
  shows "connection (peer_at (need_dispatch i h) i) = connection (peer_at h i)"
  using assms by (simp add: need_dispatch_def peer_at_def upd_peer_def connection_def)

lemma notify_connect_connection:
  fixes h :: ENetHost
  assumes "i < length (ho_peers h)" "enet_protocol_notify_connect i event h = (event', g)"
  shows "connection (peer_at g i) = connection ((peer_at h i)\<lparr>pr_state :=
      (if event \<noteq> None then ENET_PEER_STATE_CONNECTED
       else if pr_state (peer_at h i) = ENET_PEER_STATE_CONNECTING then ENET_PEER_STATE_CONNECTION_SUCCEEDED
       else ENET_PEER_STATE_CONNECTION_PENDING)\<rparr>)"
proof -
  have p: "peer_at (h\<lparr>ho_recalculateBandwidthLimits := b\<rparr>) i = peer_at h i" for b by (simp add: peer_at_def)
  show ?thesis
    using assms by (auto simp: enet_protocol_notify_connect_def Let_def enet_protocol_dispatch_state_def
        change_state_peer need_dispatch_connection p split: option.splits)
qed

lemma connection_state:
  "connection p = connection q \<Longrightarrow> connection (p\<lparr>pr_state := s\<rparr>) = connection (q\<lparr>pr_state := s\<rparr>)"
  "connection p = connection q \<Longrightarrow> pr_state p = pr_state q"
  by (simp_all add: connection_def)

lemma verify_connect_step:
  fixes h :: ENetHost
  assumes "i < length (ho_peers h)" "pr_state (peer_at h i) = ENET_PEER_STATE_CONNECTING"
    and "\<not> verify_mismatch vc (peer_at h i)"
    and "enet_protocol_handle_verify_connect i vc event h = (r, event', g)"
  shows "r = 0" "connection (peer_at g i) = connection ((verify_peer vc (peer_at h i))\<lparr>pr_state :=
      (if event \<noteq> None then ENET_PEER_STATE_CONNECTED else ENET_PEER_STATE_CONNECTION_SUCCEEDED)\<rparr>)"
proof -
  define h1 where "h1 = upd_peer i (verify_peer vc) (snd (enet_protocol_remove_sent_reliable_command i 1 0xFF h))"
  have "enet_protocol_handle_verify_connect i vc event h = (0, enet_protocol_notify_connect i event h1)"
    unfolding enet_protocol_handle_verify_connect_def h1_def Let_def
    by (simp only: assms(2,3) simp_thms if_False split_beta)
  then have n: "r = 0" "enet_protocol_notify_connect i event h1 = (event', g)"
    using assms(4) by simp_all
  show "r = 0" by (rule n)
  have i: "i < length (ho_peers h1)"
    using assms(1) connection_remove_sent(2) [OF assms(1)] by (simp add: h1_def)
  have c: "connection (peer_at h1 i) = connection (verify_peer vc (peer_at h i))"
    unfolding h1_def using i [unfolded h1_def, simplified]
    by (simp only: peer_at_upd) (rule connection_verify_peer [OF connection_remove_sent(1) [OF assms(1)]])
  have "pr_state (peer_at h1 i) = ENET_PEER_STATE_CONNECTING"
    unfolding connection_state(2) [OF c] verify_peer_fields by (rule assms(2))
  then show "connection (peer_at g i) = connection ((verify_peer vc (peer_at h i))\<lparr>pr_state :=
      (if event \<noteq> None then ENET_PEER_STATE_CONNECTED else ENET_PEER_STATE_CONNECTION_SUCCEEDED)\<rparr>)"
    unfolding notify_connect_connection [OF i n(2)] using connection_state(1) [OF c] by (simp only: simp_thms if_True)
qed

section \<open>Agreement\<close>

lemma clamp_mtu_range: "576 \<le> clamp_mtu w" "clamp_mtu w \<le> 4096" "576 \<le> w \<Longrightarrow> w \<le> 4096 \<Longrightarrow> clamp_mtu w = w"
  by (auto simp: clamp_mtu_def protocol_limit_defs)

lemma clamp_windowSize_range:
  "4096 \<le> clamp_windowSize w" "clamp_windowSize w \<le> 65536" "4096 \<le> w \<Longrightarrow> w \<le> 65536 \<Longrightarrow> clamp_windowSize w = w"
  by (auto simp: clamp_windowSize_def protocol_limit_defs)

lemma limited_channels_range: "1 \<le> limited_channels c" "limited_channels c \<le> 255"
  by (auto simp: limited_channels_def protocol_limit_defs word_le_nat_alt word_less_nat_alt)

lemma channel_count_wire:
  assumes "(c :: size_t) \<le> 255"
  shows "ucast (ucast c :: u32) = c"
proof -
  have "unat c \<le> 255" using assms by (simp add: word_le_nat_alt)
  then have "unat (ucast (ucast c :: u32) :: size_t) = unat c"
    by (simp add: unsigned_ucast_eq unsigned_take_bit_eq take_bit_nat_eq_self)
  then show ?thesis by (simp only: word_unat_eq_iff)
qed

lemma connect_windowSize_le:
  assumes "4096 \<le> w" shows "connect_windowSize h w \<le> w" "4096 \<le> connect_windowSize h w" "connect_windowSize h w \<le> 65536"
proof -
  show "4096 \<le> connect_windowSize h w" "connect_windowSize h w \<le> 65536"
    by (simp_all add: connect_windowSize_def Let_def clamp_windowSize_range)
  have "clamp_windowSize (if x > w then w else x) \<le> w" for x
    using assms by (auto simp: clamp_windowSize_def protocol_limit_defs)
  then show "connect_windowSize h w \<le> w" by (simp add: connect_windowSize_def Let_def)
qed

text \<open>The two ends \<open>a\<close> (connecting) and \<open>b\<close> (answering) of a connection between \<open>ha\<close> and \<open>hb\<close>.\<close>

definition ends_agree :: "ENetHost \<Rightarrow> ENetHost \<Rightarrow> ENetPeer \<Rightarrow> ENetPeer \<Rightarrow> bool" where
  "ends_agree ha hb a b \<longleftrightarrow>
     pr_outgoingPeerID a = pr_incomingPeerID b \<and> pr_outgoingPeerID b = pr_incomingPeerID a
     \<and> pr_outgoingSessionID a = pr_incomingSessionID b \<and> pr_outgoingSessionID b = pr_incomingSessionID a
     \<and> pr_connectID a = pr_connectID b \<and> pr_channelCount a = pr_channelCount b \<and> pr_mtu a = pr_mtu b
     \<and> pr_packetThrottleInterval a = pr_packetThrottleInterval b
     \<and> pr_packetThrottleAcceleration a = pr_packetThrottleAcceleration b
     \<and> pr_packetThrottleDeceleration a = pr_packetThrottleDeceleration b
     \<and> pr_incomingBandwidth a = ho_incomingBandwidth hb \<and> pr_outgoingBandwidth a = ho_outgoingBandwidth hb
     \<and> pr_incomingBandwidth b = ho_incomingBandwidth ha \<and> pr_outgoingBandwidth b = ho_outgoingBandwidth ha"


text \<open>Two copies of the example host, the first connecting its free peer to the second.\<close>

lemma example_handle_connect:
  assumes "ucast (ENET_NET_TO_HOST_32 (cn_channelCount cn)) = (2 :: size_t)" "cn_connectID cn = 1"
  shows "\<exists>g. enet_protocol_handle_connect cn example_host = (Some 1, g)"
proof -
  have s: "connect_scan (ho_receivedAddress example_host) (cn_connectID cn) 0 (ho_peers example_host) None 0 = Some (Some 1, 1)"
    using assms(2) by (simp add: example_host_def zero_host_def zero_address_def example_peer_def reset_fields_def zero_peer_def)
  have l: "\<not> ho_duplicatePeers example_host \<le> 1" "\<not> ho_channelLimit example_host < 2"
    by (simp_all add: example_host_def word_le_nat_alt)
  show ?thesis
    using assms(1) l unfolding enet_protocol_handle_connect_def Let_def s
    by (simp add: enet_malloc_def protocol_limit_defs)
qed


section \<open>Bounds\<close>

lemma and_3_less: "(x :: u16) AND 3 = take_bit 2 x" "unat ((x :: u16) AND 3) < 4"
proof -
  show "x AND 3 = take_bit 2 x" by (simp add: take_bit_eq_mask mask_eq_exp_minus_1)
  then show "unat (x AND 3) < 4" by (simp only: unsigned_take_bit_eq) (simp add: take_bit_eq_mod)
qed

lemma session_choose_less: "session_choose offered last_used < 4"
proof -
  have shift: "drop_bit ENET_PROTOCOL_HEADER_SESSION_SHIFT ENET_PROTOCOL_HEADER_SESSION_MASK = 3"
    by (simp add: header_flag_defs)
  have "session_next n < 4" for n
  proof -
    have "unat (ucast ((ucast n + 1 :: u16) AND 3) :: u8) < 4"
      using and_3_less(2) [of "ucast n + 1"] by (simp add: unsigned_ucast_eq take_bit_nat_eq_self)
    then show ?thesis unfolding session_next_def shift word_less_nat_alt by simp
  qed
  then show ?thesis by (simp add: session_choose_def Let_def)
qed

text \<open>
  C14: Whatever the connect command of a datagram asks for, the peer that
  \<^verbatim>\<open>enet_protocol_handle_connect\<close> sets up was free, has an mtu of 576 to 4096, a window of 4096 to
  65536 bytes, two-bit session IDs, and exactly as many channels as it counts, between one and
  255 and no more than the host's limit; the window that is offered back does not exceed the one
  asked for, once that is in range.
\<close>

theorem connect_bounds:
  fixes h :: ENetHost
  assumes "enet_protocol_handle_connect cn h = (Some j, g)" "env_allocs h = []" "1 \<le> ho_channelLimit h"
  shows "j < length (ho_peers h) \<and> pr_state (peer_at h j) = ENET_PEER_STATE_DISCONNECTED
    \<and> pr_state (peer_at g j) = ENET_PEER_STATE_ACKNOWLEDGING_CONNECT
    \<and> 576 \<le> pr_mtu (peer_at g j) \<and> pr_mtu (peer_at g j) \<le> 4096
    \<and> 4096 \<le> pr_windowSize (peer_at g j) \<and> pr_windowSize (peer_at g j) \<le> 65536
    \<and> pr_incomingSessionID (peer_at g j) < 4 \<and> pr_outgoingSessionID (peer_at g j) < 4
    \<and> 1 \<le> pr_channelCount (peer_at g j) \<and> pr_channelCount (peer_at g j) \<le> 255
    \<and> pr_channelCount (peer_at g j) \<le> ho_channelLimit h
    \<and> (\<exists>w. pc_body (oc_command (last (pr_outgoingReliableCommands (peer_at g j)))) = BVerifyConnect w
          \<and> (4096 \<le> ENET_NET_TO_HOST_32 (cn_windowSize cn) \<longrightarrow>
               ENET_NET_TO_HOST_32 (vc_windowSize w) \<le> ENET_NET_TO_HOST_32 (cn_windowSize cn)))"
proof -
  define offered where "offered = (ucast (ENET_NET_TO_HOST_32 (cn_channelCount cn)) :: size_t)"
  define chans where "chans = (if offered > ho_channelLimit h then ho_channelLimit h else offered)"
  note s = handle_connect_step [OF assms(1,2), folded offered_def, folded chans_def]
  have "1 \<le> chans" "chans \<le> 255" "chans \<le> ho_channelLimit h"
    using s(3,4) assms(3) by (auto simp: chans_def protocol_limit_defs word_le_nat_alt word_less_nat_alt)
  then have "connection (peer_at g j) = connection (connect_peer h cn chans (peer_at h j)) \<Longrightarrow>
      pr_state (peer_at g j) = ENET_PEER_STATE_ACKNOWLEDGING_CONNECT
      \<and> 576 \<le> pr_mtu (peer_at g j) \<and> pr_mtu (peer_at g j) \<le> 4096
      \<and> 4096 \<le> pr_windowSize (peer_at g j) \<and> pr_windowSize (peer_at g j) \<le> 65536
      \<and> pr_incomingSessionID (peer_at g j) < 4 \<and> pr_outgoingSessionID (peer_at g j) < 4
      \<and> 1 \<le> pr_channelCount (peer_at g j) \<and> pr_channelCount (peer_at g j) \<le> 255
      \<and> pr_channelCount (peer_at g j) \<le> ho_channelLimit h"
    by (simp add: connection_def connect_peer_def Let_def clamp_mtu_range clamp_windowSize_range session_choose_less)
  moreover have "\<exists>w. pc_body (oc_command (last (pr_outgoingReliableCommands (peer_at g j)))) = BVerifyConnect w
      \<and> (4096 \<le> ENET_NET_TO_HOST_32 (cn_windowSize cn) \<longrightarrow>
           ENET_NET_TO_HOST_32 (vc_windowSize w) \<le> ENET_NET_TO_HOST_32 (cn_windowSize cn))"
    using connect_windowSize_le(1)
    by (simp add: s(6) set_reliableSequenceNumber_def verify_command_def peer_command_def)
  ultimately show ?thesis using s(1,2,5) by simp
qed

text \<open>A connect that asks for a tiny mtu and a huge window.\<close>

definition greedy_connect :: ENetProtocolConnect where
  "greedy_connect = \<lparr>cn_outgoingPeerID = 0, cn_incomingSessionID = 0xFF, cn_outgoingSessionID = 0xFF,
     cn_mtu = ENET_HOST_TO_NET_32 1, cn_windowSize = ENET_HOST_TO_NET_32 0xFFFFFFFF,
     cn_channelCount = ENET_HOST_TO_NET_32 2, cn_incomingBandwidth = 0, cn_outgoingBandwidth = 0,
     cn_packetThrottleInterval = 0, cn_packetThrottleAcceleration = 0, cn_packetThrottleDeceleration = 0,
     cn_connectID = 1, cn_data = 0\<rparr>"

theorem connect_bounds_witness:
  "\<exists>g. enet_protocol_handle_connect greedy_connect example_host = (Some 1, g)
    \<and> 576 \<le> pr_mtu (peer_at g 1) \<and> pr_windowSize (peer_at g 1) \<le> 65536 \<and> pr_outgoingSessionID (peer_at g 1) < 4"
proof -
  obtain g where g: "enet_protocol_handle_connect greedy_connect example_host = (Some 1, g)"
    using example_handle_connect [of greedy_connect] by (auto simp: greedy_connect_def)
  have "1 \<le> ho_channelLimit example_host" by (simp add: example_host_def)
  then show ?thesis using connect_bounds [OF g] g by simp
qed


text \<open>An answer with a smaller mtu and window.\<close>

definition connecting_host :: ENetHost where
  "connecting_host = upd_peer 0 (\<lambda>p. p\<lparr>pr_state := ENET_PEER_STATE_CONNECTING, pr_windowSize := 65536\<rparr>) example_host"

definition modest_verify :: ENetProtocolVerifyConnect where
  "modest_verify = \<lparr>vc_outgoingPeerID = 0, vc_incomingSessionID = 1, vc_outgoingSessionID = 2,
     vc_mtu = ENET_HOST_TO_NET_32 100, vc_windowSize = ENET_HOST_TO_NET_32 5000,
     vc_channelCount = ENET_HOST_TO_NET_32 1, vc_incomingBandwidth = 0, vc_outgoingBandwidth = 0,
     vc_packetThrottleInterval = ENET_HOST_TO_NET_32 5000, vc_packetThrottleAcceleration = ENET_HOST_TO_NET_32 2,
     vc_packetThrottleDeceleration = ENET_HOST_TO_NET_32 2, vc_connectID = 0\<rparr>"


end
