(* ===== verification/ENet_Datagram.thy ===== *)
theory ENet_Datagram
  imports ENet_Handshake
begin

text \<open>
  What the sending side puts into one datagram: the acknowledgements and commands that are
  packed keep within the limits on commands, buffers and size that the gather array and the
  peer's mtu set, and the size that is counted is the size of what is sent.
\<close>

section \<open>The datagram under construction\<close>

fun buffer_size :: "ENetBuffer \<Rightarrow> nat" where
  "buffer_size (BufferCommand c) = unat (enet_protocol_command_size (command_of c))"
| "buffer_size (BufferData q off len) = unat len"

fun buffer_is_command :: "ENetBuffer \<Rightarrow> bool" where
  "buffer_is_command (BufferCommand c) = True"
| "buffer_is_command (BufferData q off len) = False"

fun buffer_wf :: "ENetBuffer \<Rightarrow> bool" where
  "buffer_wf (BufferCommand c) = well_formed_command c"
| "buffer_wf (BufferData q off len) = True"

definition packing_ok :: "nat \<Rightarrow> nat \<Rightarrow> ENetHost \<Rightarrow> bool" where
  "packing_ok base i h \<longleftrightarrow>
     i < length (ho_peers h)
     \<and> unat (ho_packetSize h) = base + sum_list (map buffer_size (ho_buffers h))
     \<and> unat (ho_packetSize h) \<le> unat (pr_mtu (peer_at h i))
     \<and> ho_commandCount h = length (filter buffer_is_command (ho_buffers h))
     \<and> ho_commandCount h \<le> ENET_PROTOCOL_MAXIMUM_PACKET_COMMANDS \<and> ho_bufferCount h \<le> ENET_BUFFER_MAXIMUM
     \<and> list_all buffer_wf (ho_buffers h)"

text \<open>The fields of the host that only the packing changes.\<close>

definition packing_view :: "nat \<Rightarrow> ENetHost \<Rightarrow> size_t \<times> nat \<times> ENetBuffer list \<times> u32 \<times> nat" where
  "packing_view i h = (ho_packetSize h, ho_commandCount h, ho_buffers h, pr_mtu (peer_at h i), length (ho_peers h))"

lemma packing_view_ok: "packing_view i h' = packing_view i h \<Longrightarrow> packing_ok base i h' = packing_ok base i h"
  by (simp add: packing_view_def packing_ok_def ho_bufferCount_def)

lemma packing_view_upd_peer [simp]:
  "(\<And>p. pr_mtu (f p) = pr_mtu p) \<Longrightarrow> packing_view i (upd_peer j f h) = packing_view i h"
  by (cases "j < length (ho_peers h)") (auto simp: packing_view_def upd_peer_def peer_at_def nth_list_update list_update_beyond)

lemma packing_view_fields [simp]:
  "packing_view i (h\<lparr>ho_continueSending := b\<rparr>) = packing_view i h"
  "packing_view i (h\<lparr>ho_headerFlags := f\<rparr>) = packing_view i h"
  "packing_view i (h\<lparr>ho_connectedPeers := n\<rparr>) = packing_view i h"
  "packing_view i (h\<lparr>ho_bandwidthLimitedPeers := n\<rparr>) = packing_view i h"
  "packing_view i (h\<lparr>ho_dispatchQueue := q\<rparr>) = packing_view i h"
  by (simp_all add: packing_view_def peer_at_def)

lemma packing_view_more: "enet_env.more h' = enet_env.more h \<Longrightarrow> packing_view i h' = packing_view i h"
  unfolding packing_view_def
  by (frule more_fields(10), frule more_fields(9), frule more_fields(8), frule more_fields(1), drule more_peer_at [where i = i]) (simp only:)

lemmas release_packing [simp] =
  packing_view_more [OF more_sent_release] packing_view_more [OF more_throttle_release]
  packing_view_more [OF more_fold [OF more_throttle_release]] packing_view_more [OF more_fold [OF more_sent_release]]
  packing_view_more [OF more_set_ub] packing_view_more [OF more_malloc] packing_view_more [OF more_retain]
  packing_view_more [OF more_reset_outgoing] packing_view_more [OF more_reset_incoming]
  packing_view_more [OF more_fold [OF more_reset_channel]]

section \<open>Room\<close>

lemma mtu_left_unat:
  assumes "packing_ok base i h"
  shows "unat (mtu_left i h) = unat (pr_mtu (peer_at h i)) - unat (ho_packetSize h)"
proof -
  have u: "unat (ucast (pr_mtu (peer_at h i)) :: size_t) = unat (pr_mtu (peer_at h i))"
    by (simp add: unsigned_ucast_eq take_bit_nat_eq_self less_le_trans [OF unsigned_less])
  then have "ho_packetSize h \<le> ucast (pr_mtu (peer_at h i))"
    using assms by (simp add: packing_ok_def word_le_nat_alt)
  then show ?thesis by (simp add: mtu_left_def unat_sub u)
qed

lemma put_command_ok:
  assumes ok: "packing_ok base i h" and "well_formed_command c" "\<not> buffers_full h extra"
    and room: "\<not> mtu_left i h < enet_protocol_command_size (command_of c)"
  shows "packing_ok base i (put_command c (enet_protocol_command_size (command_of c)) h)"
proof -
  let ?s = "enet_protocol_command_size (command_of c)"
  have "unat ?s \<le> unat (pr_mtu (peer_at h i)) - unat (ho_packetSize h)"
    using room mtu_left_unat [OF ok] by (simp add: word_less_nat_alt not_less)
  moreover have "unat (ho_packetSize h) \<le> unat (pr_mtu (peer_at h i))" using ok by (simp add: packing_ok_def)
  ultimately have le: "unat (ho_packetSize h) + unat ?s \<le> unat (pr_mtu (peer_at h i))" by linarith
  have "unat (pr_mtu (peer_at h i)) < 2 ^ 64"
    by (rule less_trans [OF unsigned_less]) simp
  then have sum: "unat (ho_packetSize h + ?s) = unat (ho_packetSize h) + unat ?s"
    using le by (subst unat_add_lem [THEN iffD1]) simp_all
  then show ?thesis
    using ok assms(2,3) le
    by (auto simp: packing_ok_def put_command_def buffers_full_def ho_bufferCount_def peer_at_def)
qed

lemma put_data_ok:
  assumes ok: "packing_ok base i h" and "ho_bufferCount h < ENET_BUFFER_MAXIMUM"
    and room: "unat (ho_packetSize h) + unat (oc_fragmentLength oc) \<le> unat (pr_mtu (peer_at h i))"
  shows "packing_ok base i (put_data oc q h)"
proof -
  have u: "unat (ucast (oc_fragmentLength oc) :: size_t) = unat (oc_fragmentLength oc)"
    by (simp add: unsigned_ucast_eq take_bit_nat_eq_self less_le_trans [OF unsigned_less])
  have "unat (pr_mtu (peer_at h i)) < 2 ^ 64"
    by (rule less_trans [OF unsigned_less]) simp
  then have sum: "unat (ho_packetSize h + ucast (oc_fragmentLength oc)) = unat (ho_packetSize h) + unat (oc_fragmentLength oc)"
    using room u by (subst unat_add_lem [THEN iffD1]) simp_all
  then show ?thesis
    using ok assms(2) room by (auto simp: packing_ok_def put_data_def ho_bufferCount_def peer_at_def)
qed

lemma command_size_le:
  assumes "well_formed_command c" shows "unat (enet_protocol_command_size (command_of c)) \<le> 48"
  using assms unfolding well_formed_command_def enet_protocol_command_size_def command_number_def command_of_def
  by (cases "pc_body c") (auto simp: command_defs commandSizes_def sizeof_defs)

lemma sizes_of_command:
  assumes "packing_ok base i h" and "\<not> mtu_left i h < enet_protocol_command_size (command_of c)"
  shows "unat (ho_packetSize (put_command c (enet_protocol_command_size (command_of c)) h))
      = unat (ho_packetSize h) + unat (enet_protocol_command_size (command_of c))"
proof -
  let ?s = "enet_protocol_command_size (command_of c)"
  have "unat ?s \<le> unat (pr_mtu (peer_at h i)) - unat (ho_packetSize h)"
    using assms(2) mtu_left_unat [OF assms(1)] by (simp add: word_less_nat_alt not_less)
  moreover have "unat (ho_packetSize h) \<le> unat (pr_mtu (peer_at h i))" using assms(1) by (simp add: packing_ok_def)
  moreover have "unat (pr_mtu (peer_at h i)) < 2 ^ 64"
    by (rule less_trans [OF unsigned_less]) simp
  ultimately show ?thesis
    unfolding put_command_def by simp (subst unat_add_lem [THEN iffD1], simp_all)
qed

text \<open>A command and its data, when there is room for both.\<close>

lemma put_both_ok:
  assumes "packing_ok base i h" "well_formed_command c" "\<not> buffers_full h 1"
    and c: "\<not> mtu_left i h < enet_protocol_command_size (command_of c)"
    and room: "unat (enet_protocol_command_size (command_of c)) + unat (oc_fragmentLength oc) \<le> unat (mtu_left i h)"
  shows "packing_ok base i (put_data oc q (put_command c (enet_protocol_command_size (command_of c)) h))"
proof (rule put_data_ok)
  let ?s = "enet_protocol_command_size (command_of c)"
  show "packing_ok base i (put_command c ?s h)" by (rule put_command_ok [OF assms(1-3) c])
  show "ho_bufferCount (put_command c ?s h) < ENET_BUFFER_MAXIMUM"
    using assms(3) by (simp add: buffers_full_def ho_bufferCount_def put_command_def)
  have "peer_at (put_command c ?s h) i = peer_at h i" by (simp add: put_command_def peer_at_def)
  moreover have "unat (ho_packetSize h) \<le> unat (pr_mtu (peer_at h i))" using assms(1) by (simp add: packing_ok_def)
  ultimately show "unat (ho_packetSize (put_command c ?s h)) + unat (oc_fragmentLength oc)
      \<le> unat (pr_mtu (peer_at (put_command c ?s h) i))"
    using room sizes_of_command [OF assms(1) c] mtu_left_unat [OF assms(1)] by simp
qed

section \<open>Acknowledgements\<close>

lemma acknowledge_wire_wf:
  "well_formed_command (acknowledge_wire aq)"
  "enet_protocol_command_size (command_of (acknowledge_wire aq)) = sizeof_ENetProtocolAcknowledge"
  by (simp_all add: acknowledge_wire_def Let_def well_formed_command_def command_number_def command_of_def
      command_defs enet_protocol_command_size_def commandSizes_def)

lemma packing_view_dispatch_state [simp]:
  "packing_view i (enet_protocol_dispatch_state j s h) = packing_view i h"
  by (simp add: enet_protocol_dispatch_state_def enet_protocol_change_state_def need_dispatch_def Let_def
      enet_peer_on_connect_def enet_peer_on_disconnect_def)

lemma send_acknowledgements_ok:
  "packing_ok base i h \<Longrightarrow> packing_ok base i (send_acknowledgements_loop i aqs h)"
proof (induction aqs arbitrary: h)
  case (Cons aq aqs)
  show ?case
  proof (cases "buffers_full h 0 \<or> mtu_left i h < sizeof_ENetProtocolAcknowledge")
    case True
    then show ?thesis using Cons.prems packing_view_ok [OF packing_view_fields(1)] by simp
  next
    case False
    define h1 where "h1 = put_command (acknowledge_wire aq) sizeof_ENetProtocolAcknowledge h"
    define h2 where "h2 = upd_peer i (\<lambda>p. p\<lparr>pr_acknowledgements := aqs\<rparr>)
      (if command_number (aq_command aq) = ENET_PROTOCOL_COMMAND_DISCONNECT
       then enet_protocol_dispatch_state i ENET_PEER_STATE_ZOMBIE h1 else h1)"
    have "packing_ok base i h1"
      using put_command_ok [OF Cons.prems acknowledge_wire_wf(1), of 0 aq] False
      by (simp add: h1_def acknowledge_wire_wf(2))
    moreover have "packing_view i h2 = packing_view i h1" by (simp add: h2_def)
    ultimately have "packing_ok base i h2" using packing_view_ok by blast
    then have "packing_ok base i (send_acknowledgements_loop i aqs h2)" by (rule Cons.IH)
    moreover have "send_acknowledgements_loop i (aq # aqs) h = send_acknowledgements_loop i aqs h2"
      using False by (simp add: h1_def h2_def Let_def)
    ultimately show ?thesis by simp
  qed
qed simp

section \<open>Reliable commands\<close>

text \<open>A queued command whose union member fits its number and whose length does not overflow 16 bits.\<close>

definition outgoing_fits :: "ENetOutgoingCommand \<Rightarrow> bool" where
  "outgoing_fits oc \<longleftrightarrow> well_formed_command (oc_command oc) \<and> unat (oc_fragmentLength oc) \<le> 65487"

lemma outgoing_fits_size:
  assumes "outgoing_fits oc"
  shows "unat (enet_protocol_command_size (command_of (oc_command oc))) + unat (oc_fragmentLength oc) < 65536"
  using assms command_size_le [of "oc_command oc"] by (simp add: outgoing_fits_def)

lemma sent_command_fields [simp]:
  "oc_command (sent_command t p oc) = oc_command oc" "oc_packet (sent_command t p oc) = oc_packet oc"
  "oc_fragmentLength (sent_command t p oc) = oc_fragmentLength oc"
  by (simp_all add: sent_command_def Let_def)

lemma reliable_room:
  assumes ok: "packing_ok base i h" and mtu: "unat (pr_mtu (peer_at h i)) < 65536" and "outgoing_fits oc"
    and "\<not> reliable_no_room i oc (enet_protocol_command_size (command_of (oc_command oc))) h" and q: "oc_packet oc \<noteq> None"
  shows "unat (enet_protocol_command_size (command_of (oc_command oc))) + unat (oc_fragmentLength oc) \<le> unat (mtu_left i h)"
proof -
  let ?s = "enet_protocol_command_size (command_of (oc_command oc))"
  have left: "unat (ucast (mtu_left i h) :: u16) = unat (mtu_left i h)"
    using mtu_left_unat [OF ok] mtu by (simp add: unsigned_ucast_eq take_bit_nat_eq_self)
  have u: "unat (ucast (oc_fragmentLength oc) :: size_t) = unat (oc_fragmentLength oc)"
    by (simp add: unsigned_ucast_eq take_bit_nat_eq_self less_le_trans [OF unsigned_less])
  have "unat (?s + ucast (oc_fragmentLength oc)) = unat ?s + unat (oc_fragmentLength oc)"
    using outgoing_fits_size [OF assms(3)] u by (subst unat_add_lem [THEN iffD1]) simp_all
  then have "unat (ucast (?s + ucast (oc_fragmentLength oc)) :: u16) = unat ?s + unat (oc_fragmentLength oc)"
    using outgoing_fits_size [OF assms(3)] by (simp add: unsigned_ucast_eq take_bit_nat_eq_self)
  then show ?thesis
    using assms(4) q left by (simp add: reliable_no_room_def word_less_nat_alt not_less)
qed

lemma packing_view_enter [simp]:
  "packing_view i (enter_window j oc h) = packing_view i h"
  "packing_view i (requeue_sent j r oc h) = packing_view i h"
  by (simp_all add: enter_window_def Let_def requeue_sent_def upd_channel_def)

lemma packing_mtu: "packing_view i h' = packing_view i h \<Longrightarrow> pr_mtu (peer_at h' i) = pr_mtu (peer_at h i)"
  by (simp add: packing_view_def)

lemma put_mtu [simp]:
  "peer_at (put_command c s h) i = peer_at h i" "peer_at (put_data oc q h) i = peer_at h i"
  by (simp_all add: put_command_def put_data_def peer_at_def)

lemma send_reliable_command_ok:
  assumes ok: "packing_ok base i h" and mtu: "unat (pr_mtu (peer_at h i)) < 65536" and fits: "outgoing_fits oc"
    and room: "\<not> reliable_no_room i oc (enet_protocol_command_size (command_of (oc_command oc))) h"
  shows "packing_ok base i (send_reliable_command i skipped oc ocs h)"
    "pr_mtu (peer_at (send_reliable_command i skipped oc ocs h) i) = pr_mtu (peer_at h i)"
proof -
  let ?sent = "sent_command (ho_serviceTime h) (peer_at h i) oc" and ?c = "oc_command oc"
  let ?s = "enet_protocol_command_size (command_of ?c)"
  define h1 where "h1 = requeue_sent i (skipped @ ocs) ?sent (enter_window i oc h)"
  have v: "packing_view i h1 = packing_view i h" by (simp add: h1_def)
  then have ok1: "packing_ok base i h1" using ok packing_view_ok by blast
  have left: "mtu_left i h1 = mtu_left i h" "buffers_full h1 e = buffers_full h e" for e
    using v by (simp_all add: mtu_left_def packing_view_def buffers_full_def ho_bufferCount_def)
  have wf: "well_formed_command ?c" using fits by (simp add: outgoing_fits_def)
  have full: "\<not> buffers_full h1 1" "\<not> mtu_left i h1 < ?s" using room by (simp_all add: reliable_no_room_def left)
  define h2 where "h2 = (put_command ?c ?s h1)\<lparr>ho_headerFlags := ho_headerFlags (put_command ?c ?s h1) OR ENET_PROTOCOL_HEADER_FLAG_SENT_TIME\<rparr>"
  have ok2: "packing_ok base i (put_command ?c ?s h1)" by (rule put_command_ok [OF ok1 wf full])
  have res: "packing_ok base i (put_reliable i ?sent h1) \<and> pr_mtu (peer_at (put_reliable i ?sent h1) i) = pr_mtu (peer_at h1 i)"
  proof (cases "oc_packet oc")
    case None
    then have "put_reliable i ?sent h1 = h2" by (simp add: put_reliable_def Let_def h2_def)
    moreover have "packing_view i h2 = packing_view i (put_command ?c ?s h1)" by (simp add: h2_def)
    ultimately show ?thesis using ok2 packing_view_ok packing_mtu by (metis put_mtu(1))
  next
    case (Some q)
    have "packing_ok base i (put_data ?sent q (put_command ?c ?s h1))"
      using put_both_ok [OF ok1 wf full, of ?sent q] reliable_room [OF ok mtu fits room] Some by (simp add: left)
    moreover have "packing_view i (put_reliable i ?sent h1) = packing_view i (put_data ?sent q (put_command ?c ?s h1))"
      using Some by (simp add: put_reliable_def Let_def) (simp add: put_data_def packing_view_def peer_at_def)
    ultimately show ?thesis using packing_view_ok packing_mtu by (metis put_mtu)
  qed
  define h3 where "h3 = send_reliable_command i skipped oc ocs h"
  have "packing_view i h3 = packing_view i (put_reliable i ?sent h1)"
    by (simp add: h3_def send_reliable_command_def Let_def h1_def)
  then show "packing_ok base i (send_reliable_command i skipped oc ocs h)"
    "pr_mtu (peer_at (send_reliable_command i skipped oc ocs h) i) = pr_mtu (peer_at h i)"
    using res packing_view_ok packing_mtu v unfolding h3_def by metis+
qed

lemma send_reliable_loop_ok:
  "packing_ok base i h \<Longrightarrow> unat (pr_mtu (peer_at h i)) < 65536 \<Longrightarrow> list_all outgoing_fits ocs \<Longrightarrow>
     packing_ok base i (snd (send_reliable_loop i skipped ocs e w c h))
     \<and> pr_mtu (peer_at (snd (send_reliable_loop i skipped ocs e w c h)) i) = pr_mtu (peer_at h i)"
proof (induction ocs arbitrary: skipped e w c h)
  case (Cons oc ocs)
  note ok = send_reliable_command_ok [OF Cons.prems(1,2), of oc skipped ocs]
  show ?case
    using Cons.prems Cons.IH ok packing_view_ok [OF packing_view_fields(1)] packing_mtu [OF packing_view_fields(1)]
    by (simp add: Let_def del: packing_view_fields)
qed simp

section \<open>Unreliable commands\<close>

lemma unreliable_room:
  assumes ok: "packing_ok base i h" and fits: "outgoing_fits oc"
    and "\<not> unreliable_no_room i oc h" and q: "oc_packet oc \<noteq> None"
  shows "unat (enet_protocol_command_size (command_of (oc_command oc))) + unat (oc_fragmentLength oc) \<le> unat (mtu_left i h)"
proof -
  let ?s = "enet_protocol_command_size (command_of (oc_command oc))"
  have u: "unat (ucast (oc_fragmentLength oc) :: size_t) = unat (oc_fragmentLength oc)"
    by (simp add: unsigned_ucast_eq take_bit_nat_eq_self less_le_trans [OF unsigned_less])
  have "unat (?s + ucast (oc_fragmentLength oc)) = unat ?s + unat (oc_fragmentLength oc)"
    using outgoing_fits_size [OF fits] u by (subst unat_add_lem [THEN iffD1]) simp_all
  then show ?thesis
    using assms(3) q by (simp add: unreliable_no_room_def Let_def word_less_nat_alt not_less)
qed

lemma send_unreliable_command_ok:
  assumes ok: "packing_ok base i h" and fits: "outgoing_fits oc" and room: "\<not> unreliable_no_room i oc h"
  shows "packing_ok base i (send_unreliable_command i oc ocs h)"
proof -
  let ?c = "oc_command oc"
  let ?s = "enet_protocol_command_size (command_of ?c)"
  have wf: "well_formed_command ?c" using fits by (simp add: outgoing_fits_def)
  have full: "\<not> buffers_full h 1" "\<not> mtu_left i h < ?s" using room by (simp_all add: unreliable_no_room_def Let_def)
  have ok1: "packing_ok base i (put_command ?c ?s h)" by (rule put_command_ok [OF ok wf full])
  show ?thesis
  proof (cases "oc_packet oc")
    case None
    then have "packing_view i (send_unreliable_command i oc ocs h) = packing_view i (put_command ?c ?s h)"
      by (simp add: send_unreliable_command_def Let_def)
    then show ?thesis using ok1 packing_view_ok by blast
  next
    case (Some q)
    have "packing_ok base i (put_data oc q (put_command ?c ?s h))"
      using put_both_ok [OF ok wf full, of oc q] unreliable_room [OF ok fits room] Some by simp
    moreover have "packing_view i (send_unreliable_command i oc ocs h) = packing_view i (put_data oc q (put_command ?c ?s h))"
    proof -
      have "put_data oc q (upd_peer i f g) = upd_peer i f (put_data oc q g)" for f g
        by (simp add: put_data_def upd_peer_def)
      then show ?thesis using Some by (simp add: send_unreliable_command_def Let_def)
    qed
    ultimately show ?thesis using packing_view_ok by blast
  qed
qed

lemma list_all_dropWhile: "list_all P xs \<Longrightarrow> list_all P (dropWhile Q xs)"
  by (induction xs) auto

lemma send_unreliable_loop_ok:
  "packing_ok base i h \<Longrightarrow> list_all outgoing_fits ocs \<Longrightarrow> packing_ok base i (send_unreliable_loop i ocs h)"
proof (induction i ocs h rule: send_unreliable_loop.induct)
  case (2 i oc ocs h)
  define h1 where "h1 = upd_peer i throttle_count h"
  have v: "packing_view i h1 = packing_view i h" by (simp add: h1_def throttle_count_def)
  then have ok1: "packing_ok base i h1" using 2(4) packing_view_ok by blast
  have left: "unreliable_no_room i oc h1 = unreliable_no_room i oc h"
    using v by (simp add: unreliable_no_room_def Let_def mtu_left_def packing_view_def buffers_full_def ho_bufferCount_def)
  have fits: "outgoing_fits oc" "list_all outgoing_fits ocs" using 2(5) by simp_all
  have stop: "packing_ok base i (h\<lparr>ho_continueSending := True\<rparr>)"
    using 2(4) packing_view_ok [OF packing_view_fields(1)] by blast
  have "packing_view i (drop_unreliable i oc ocs h1) = packing_view i h1"
    by (simp add: drop_unreliable_def)
  then have drop: "packing_ok base i (drop_unreliable i oc ocs h1)" using ok1 packing_view_ok by blast
  show ?case
    using 2(1-3) stop drop send_unreliable_command_ok [OF ok1 fits(1)] send_unreliable_command_ok [OF 2(4) fits(1)]
      fits(2) list_all_dropWhile [OF fits(2)] left
    by (subst send_unreliable_loop.simps) (simp add: Let_def h1_def [symmetric])
qed simp

lemma packing_view_setup [simp]: "packing_view i (upd_peer j (setup_outgoing oc) h) = packing_view i h"
proof (rule packing_view_upd_peer)
  fix p show "pr_mtu (setup_outgoing oc p) = pr_mtu p"
    by (simp add: setup_outgoing_def outgoing_sequence_def Let_def upd_channel_def split: prod.splits)
qed

lemma packing_view_setup_command [simp]:
  "packing_view i (enet_peer_setup_outgoing_command j oc h) = packing_view i h"
  by (simp add: enet_peer_setup_outgoing_command_def)

lemma packing_view_queue_outgoing [simp]:
  "packing_view i (snd (enet_peer_queue_outgoing_command j c q off len h)) = packing_view i h"
proof -
  have r: "packing_view i (case q of None \<Rightarrow> g | Some q \<Rightarrow> packet_retain 1 q g) = packing_view i g" for g :: ENetHost
    by (cases q) simp_all
  have m: "packing_view i (snd (enet_malloc h)) = packing_view i h" by simp
  show ?thesis
    unfolding enet_peer_queue_outgoing_command_def Let_def split_beta by (simp add: r m)
qed

lemma packing_view_disconnect [simp]: "packing_view i (enet_peer_disconnect_connected j data h) = packing_view i h"
proof -
  have "packing_view i (enet_peer_reset_queues j g) = packing_view i g" for g
    by (simp add: enet_peer_reset_queues_def Let_def)
  moreover have "packing_view i (enet_peer_on_disconnect j g) = packing_view i g" for g
    by (simp add: enet_peer_on_disconnect_def Let_def)
  ultimately show ?thesis by (simp add: enet_peer_disconnect_connected_def disconnect_queue_def Let_def)
qed

lemma send_unreliable_outgoing_ok:
  assumes "packing_ok base i h" "list_all outgoing_fits (pr_outgoingUnreliableCommands (peer_at h i))"
  shows "packing_ok base i (enet_protocol_send_unreliable_outgoing_commands i h)"
  using send_unreliable_loop_ok [OF assms] packing_view_ok [OF packing_view_disconnect]
  by (simp add: enet_protocol_send_unreliable_outgoing_commands_def Let_def)

section \<open>The queues before the datagram\<close>

definition queues_fit :: "nat \<Rightarrow> ENetHost \<Rightarrow> bool" where
  "queues_fit i h \<longleftrightarrow> list_all outgoing_fits (pr_outgoingReliableCommands (peer_at h i))
     \<and> list_all outgoing_fits (pr_outgoingUnreliableCommands (peer_at h i))
     \<and> list_all outgoing_fits (pr_sentReliableCommands (peer_at h i))"

definition queue_view :: "nat \<Rightarrow> ENetHost \<Rightarrow> ENetOutgoingCommand list \<times> ENetOutgoingCommand list \<times> ENetOutgoingCommand list" where
  "queue_view i h = (pr_outgoingReliableCommands (peer_at h i), pr_outgoingUnreliableCommands (peer_at h i),
     pr_sentReliableCommands (peer_at h i))"

lemma queue_view_fit: "queue_view i h' = queue_view i h \<Longrightarrow> queues_fit i h' = queues_fit i h"
  by (simp add: queue_view_def queues_fit_def)

lemma queue_view_upd_peer [simp]:
  "(\<And>p. pr_outgoingReliableCommands (f p) = pr_outgoingReliableCommands p) \<Longrightarrow>
   (\<And>p. pr_outgoingUnreliableCommands (f p) = pr_outgoingUnreliableCommands p) \<Longrightarrow>
   (\<And>p. pr_sentReliableCommands (f p) = pr_sentReliableCommands p) \<Longrightarrow> queue_view i (upd_peer j f h) = queue_view i h"
  by (cases "j < length (ho_peers h)")
    (auto simp: queue_view_def upd_peer_def peer_at_def nth_list_update list_update_beyond)

lemma queue_view_fields [simp]:
  "queue_view i (h\<lparr>ho_connectedPeers := n\<rparr>) = queue_view i h"
  "queue_view i (h\<lparr>ho_bandwidthLimitedPeers := n\<rparr>) = queue_view i h"
  "queue_view i (h\<lparr>ho_dispatchQueue := q\<rparr>) = queue_view i h"
  "queue_view i (h\<lparr>ho_continueSending := b\<rparr>) = queue_view i h"
  "queue_view i (put_command c s h) = queue_view i h"
  "queue_view i (begin_datagram ps h) = queue_view i h"
  by (simp_all add: queue_view_def peer_at_def put_command_def begin_datagram_def)

lemma queue_view_acknowledgements: "queue_view i (send_acknowledgements_loop i aqs h) = queue_view i h"
proof (induction aqs arbitrary: h)
  case (Cons aq aqs)
  have "queue_view i (enet_protocol_dispatch_state i s g) = queue_view i g" for s g
    by (simp add: enet_protocol_dispatch_state_def enet_protocol_change_state_def need_dispatch_def Let_def
        enet_peer_on_connect_def enet_peer_on_disconnect_def)
  then show ?case using Cons.IH by (simp add: Let_def)
qed simp

lemma outgoing_fits_timeout [simp]: "outgoing_fits (oc\<lparr>oc_roundTripTimeout := t\<rparr>) = outgoing_fits oc"
  by (simp add: outgoing_fits_def)

lemma list_all_insert_at: "list_all P (insert_at n x xs) \<longleftrightarrow> P x \<and> list_all P xs"
proof -
  have "list_all P xs \<longleftrightarrow> list_all P (take n xs @ drop n xs)" by simp
  then show ?thesis by (auto simp: insert_at_def simp del: append_take_drop_id)
qed

text \<open>Without a disconnection the timeouts only move commands back to the outgoing queue.\<close>

lemma check_timeouts_ok:
  "check_timeouts_loop i kept moved ocs event h = (0, event', h') \<Longrightarrow> i < length (ho_peers h) \<Longrightarrow>
   list_all outgoing_fits kept \<Longrightarrow> list_all outgoing_fits ocs \<Longrightarrow> queues_fit i h \<Longrightarrow>
     queues_fit i h' \<and> packing_view i h' = packing_view i h"
proof (induction ocs arbitrary: kept moved event h)
  case (Cons oc ocs)
  show ?case
  proof (cases "ENET_TIME_DIFFERENCE (ho_serviceTime h) (oc_sentTime oc) < oc_roundTripTimeout oc")
    case True
    then show ?thesis using Cons.prems Cons.IH [of "kept @ [oc]" moved event h] by simp
  next
    case False
    define h1 where "h1 = (if pr_earliestTimeout (peer_at h i) = 0
        \<or> ENET_TIME_LESS (oc_sentTime oc) (pr_earliestTimeout (peer_at h i))
      then upd_peer i (\<lambda>p. p\<lparr>pr_earliestTimeout := oc_sentTime oc\<rparr>) h else h)"
    have v1: "packing_view i h1 = packing_view i h" "queue_view i h1 = queue_view i h" "length (ho_peers h1) = length (ho_peers h)"
      by (simp_all add: h1_def)
    have q1: "queues_fit i h1" using queue_view_fit [OF v1(2)] Cons.prems(5) by blast
    define h2 where "h2 = upd_peer i (\<lambda>p. p\<lparr>
        pr_reliableDataInTransit :=
          (if oc_packet oc \<noteq> None then pr_reliableDataInTransit p - ucast (oc_fragmentLength oc)
           else pr_reliableDataInTransit p),
        pr_packetsLost := pr_packetsLost p + 1,
        pr_sentReliableCommands := kept @ ocs,
        pr_outgoingReliableCommands := insert_at moved
          (oc\<lparr>oc_roundTripTimeout := oc_roundTripTimeout oc * 2\<rparr>) (pr_outgoingReliableCommands p)\<rparr>) h1"
    define h3 where "h3 = (case ocs of [] \<Rightarrow> h2 | next # _ \<Rightarrow>
        if kept = [] then upd_peer i (\<lambda>p. p\<lparr>pr_nextTimeout := oc_sentTime next + oc_roundTripTimeout next\<rparr>) h2 else h2)"
    have step: "check_timeouts_loop i kept moved (oc # ocs) event h =
        (if timeout_due (ho_serviceTime h1) (peer_at h1 i) oc
         then let (event, h) = enet_protocol_notify_disconnect i event h1 in (1, event, h)
         else check_timeouts_loop i kept (Suc moved) ocs event h3)"
      using False by (simp only: check_timeouts_loop.simps Let_def h1_def [symmetric] h2_def [symmetric] h3_def [symmetric] if_False)
    then have nd: "\<not> timeout_due (ho_serviceTime h1) (peer_at h1 i) oc"
      using Cons.prems(1) by (auto simp: Let_def split: prod.splits)
    have i: "i < length (ho_peers h1)" using v1(3) Cons.prems(2) by simp
    have v3: "packing_view i h3 = packing_view i h1" "queue_view i h3 = queue_view i h2" "length (ho_peers h3) = length (ho_peers h1)"
      by (simp_all add: h3_def h2_def split: list.split)
    have "queues_fit i h2"
      using q1 i Cons.prems(3,4) by (simp add: queues_fit_def h2_def list_all_insert_at)
    then have "queues_fit i h3" using queue_view_fit [OF v3(2)] by blast
    then show ?thesis
      using Cons.IH [of kept "Suc moved" event h3] step nd Cons.prems v1 v3 by simp
  qed
qed simp

section \<open>The commands of a peer\<close>

lemma send_reliable_loop_unsent:
  "send_reliable_loop i skipped ocs e w c h = (True, h') \<Longrightarrow> h' = h"
proof -
  have "\<not> fst (send_reliable_loop i skipped ocs e w False h)" for skipped ocs e w h
    by (induction ocs arbitrary: skipped e w h) (simp_all add: Let_def)
  then show "send_reliable_loop i skipped ocs e w c h = (True, h') \<Longrightarrow> h' = h"
    by (induction ocs arbitrary: skipped e w c) (auto simp: Let_def split: if_splits dest: arg_cong [of _ _ fst])
qed

definition unreliable_view :: "nat \<Rightarrow> ENetHost \<Rightarrow> ENetOutgoingCommand list \<times> nat" where
  "unreliable_view i h = (pr_outgoingUnreliableCommands (peer_at h i), length (ho_peers h))"

lemma unreliable_view_upd_peer [simp]:
  "(\<And>p. pr_outgoingUnreliableCommands (f p) = pr_outgoingUnreliableCommands p) \<Longrightarrow>
     unreliable_view i (upd_peer j f h) = unreliable_view i h"
  by (cases "j < length (ho_peers h)")
    (auto simp: unreliable_view_def upd_peer_def peer_at_def nth_list_update list_update_beyond)

lemma unreliable_view_fields [simp]:
  "unreliable_view i (h\<lparr>ho_continueSending := b\<rparr>) = unreliable_view i h"
  "unreliable_view i (h\<lparr>ho_headerFlags := f\<rparr>) = unreliable_view i h"
  "unreliable_view i (put_command c s h) = unreliable_view i h"
  "unreliable_view i (put_data oc q h) = unreliable_view i h"
  by (simp_all add: unreliable_view_def peer_at_def put_command_def put_data_def)

lemma unreliable_queue_reliable:
  "unreliable_view i (snd (send_reliable_loop j skipped ocs e w c h)) = unreliable_view i h"
proof (induction ocs arbitrary: skipped e w c h)
  case (Cons oc ocs)
  have "unreliable_view i (send_reliable_command j skipped oc ocs h) = unreliable_view i h"
    by (simp add: send_reliable_command_def Let_def put_reliable_def enter_window_def requeue_sent_def
        upd_channel_def split: option.split)
  then show ?case using Cons.IH by (simp add: Let_def)
qed simp

definition ping_command :: ENetProtocol where
  "ping_command = peer_command (ENET_PROTOCOL_COMMAND_PING OR ENET_PROTOCOL_COMMAND_FLAG_ACKNOWLEDGE) BPing"

lemma ping_command_control: "control_command ping_command"
  "well_formed_command (set_reliableSequenceNumber n ping_command)"
  by (simp_all add: ping_command_def control_command_def peer_command_def command_of_def command_number_def command_defs
      command_flag_defs well_formed_command_def set_reliableSequenceNumber_def)

lemma setup_ping:
  assumes "oc_command oc = ping_command" "oc_fragmentLength oc = 0"
  shows "\<exists>n. pr_outgoingReliableCommands (setup_outgoing oc p) = pr_outgoingReliableCommands p @ [n] \<and> outgoing_fits n"
    "pr_outgoingUnreliableCommands (setup_outgoing oc p) = pr_outgoingUnreliableCommands p"
    "pr_sentReliableCommands (setup_outgoing oc p) = pr_sentReliableCommands p"
  using assms ping_command_control by (simp_all add: setup_control outgoing_fits_def)

lemma upd_peer_out_of_range: "\<not> j < length (ho_peers h) \<Longrightarrow> upd_peer j f h = h"
  by (simp add: upd_peer_def list_update_beyond)

lemma ping_setup_fits:
  assumes "queues_fit i h" "oc_command oc = ping_command" "oc_fragmentLength oc = 0"
  shows "queues_fit i (enet_peer_setup_outgoing_command i oc h)"
proof -
  have "hd_channelID (pc_header (oc_command oc)) = 0xFF"
    using ping_command_control assms(2) by (simp add: control_command_def)
  then have e: "enet_peer_setup_outgoing_command i oc h = upd_peer i (setup_outgoing oc) h"
    by (simp add: enet_peer_setup_outgoing_command_def channel_missing_def)
  show ?thesis
  proof (cases "i < length (ho_peers h)")
    case True
    then show ?thesis
      using assms(1) setup_ping [OF assms(2,3), of "peer_at h i"] by (auto simp: e queues_fit_def)
  next
    case False
    then show ?thesis using assms(1) upd_peer_out_of_range [OF False] by (simp add: e)
  qed
qed

lemma ping_fits:
  assumes "queues_fit i h" shows "queues_fit i (enet_peer_ping i h)" "packing_view i (enet_peer_ping i h) = packing_view i h"
proof -
  have "queue_view i (snd (enet_malloc h)) = queue_view i h" by (simp add: queue_view_def)
  then have "queues_fit i (snd (enet_malloc h))" using assms queue_view_fit by blast
  then show "queues_fit i (enet_peer_ping i h)"
    using assms ping_setup_fits unfolding enet_peer_ping_def enet_peer_queue_outgoing_command_def Let_def split_beta
      ping_command_def [symmetric] by simp
  show "packing_view i (enet_peer_ping i h) = packing_view i h"
    by (simp add: enet_peer_ping_def)
qed

lemma send_peer_commands_ok:
  assumes ok: "packing_ok base i h" and mtu: "unat (pr_mtu (peer_at h i)) < 65536" and q: "queues_fit i h"
  shows "packing_ok base i (send_peer_commands i h)"
proof -
  define r where "r = (if pr_outgoingReliableCommands (peer_at h i) = [] then (True, h)
    else enet_protocol_send_reliable_outgoing_commands i h)"
  define g where "g = snd r"
  have rel: "packing_ok base i (snd (enet_protocol_send_reliable_outgoing_commands i h))
      \<and> unreliable_view i (snd (enet_protocol_send_reliable_outgoing_commands i h)) = unreliable_view i h"
    if "packing_ok base i h" "unat (pr_mtu (peer_at h i)) < 65536" "queues_fit i h" for h
    using send_reliable_loop_ok [OF that(1,2)] that(3) unreliable_queue_reliable
    by (simp add: enet_protocol_send_reliable_outgoing_commands_def queues_fit_def)
  have unsent: "g = h" if "fst r"
    using that send_reliable_loop_unsent unfolding g_def r_def enet_protocol_send_reliable_outgoing_commands_def
    by (cases r) (auto simp: r_def enet_protocol_send_reliable_outgoing_commands_def split: if_splits)
  have g: "packing_ok base i g" "unreliable_view i g = unreliable_view i h"
    using rel [OF ok mtu q] ok by (simp_all add: g_def r_def)
  define ping where "ping \<longleftrightarrow> fst r \<and> pr_sentReliableCommands (peer_at g i) = []
    \<and> ENET_TIME_DIFFERENCE (ho_serviceTime g) (pr_lastReceiveTime (peer_at g i)) \<ge> pr_pingInterval (peer_at g i)
    \<and> mtu_left i g \<ge> sizeof_ENetProtocolPing"
  define g2 where "g2 = (if ping then snd (enet_protocol_send_reliable_outgoing_commands i (enet_peer_ping i g)) else g)"
  have "packing_ok base i g2 \<and> unreliable_view i g2 = unreliable_view i (enet_peer_ping i h) \<or> packing_ok base i g2 \<and> unreliable_view i g2 = unreliable_view i h"
  proof (cases ping)
    case True
    then have "g = h" using unsent by (simp add: ping_def)
    moreover have "packing_ok base i (enet_peer_ping i h)" using ping_fits(2) [OF q] ok packing_view_ok by blast
    moreover have "unat (pr_mtu (peer_at (enet_peer_ping i h) i)) < 65536" using packing_mtu [OF ping_fits(2) [OF q]] mtu by simp
    ultimately show ?thesis using rel [OF _ _ ping_fits(1) [OF q]] True by (simp add: g2_def)
  next
    case False
    then show ?thesis using g by (simp add: g2_def)
  qed
  then have g2: "packing_ok base i g2" "list_all outgoing_fits (pr_outgoingUnreliableCommands (peer_at g2 i))"
    using ping_fits(1) [OF q] q by (auto simp: unreliable_view_def queues_fit_def)
  have "send_peer_commands i h = (if pr_outgoingUnreliableCommands (peer_at g2 i) \<noteq> []
      then enet_protocol_send_unreliable_outgoing_commands i g2 else g2)"
    unfolding send_peer_commands_def r_def [symmetric] Let_def split_beta g_def [symmetric] ping_def [symmetric] g2_def [symmetric] ..
  then show ?thesis using g2 send_unreliable_outgoing_ok by simp
qed

section \<open>The bytes of the datagram\<close>

lemma buffer_bytes_length:
  assumes "buffer_wf b"
  shows "length (case buffer_bytes h b of None \<Rightarrow> [] | Some bs \<Rightarrow> bs) \<le> buffer_size b"
  using assms by (cases b) (auto simp: length_ENetProtocol_bytes split: option.splits)

lemma gather_length:
  assumes "list_all buffer_wf bs"
  shows "length (concat (map (\<lambda>b. case buffer_bytes h b of None \<Rightarrow> [] | Some bs \<Rightarrow> bs) bs)) \<le> sum_list (map buffer_size bs)"
  using assms by (induction bs) (auto intro: add_mono buffer_bytes_length)

lemma datagram_length:
  assumes "packing_ok (4 + length prefix) i h" and "prefix = [] \<or> ho_compressor h = None"
  shows "length (snd (datagram_bytes prefix i h)) \<le> unat (pr_mtu (peer_at h i)) + (if ho_checksum h = None then 0 else 4)"
proof -
  have len: "unat (ho_packetSize h) = 4 + length prefix + sum_list (map buffer_size (ho_buffers h))"
    "unat (ho_packetSize h) \<le> unat (pr_mtu (peer_at h i))" "list_all buffer_wf (ho_buffers h)"
    using assms(1) by (simp_all add: packing_ok_def)
  have head: "length (datagram_checksum h p (datagram_header prefix h p f)) \<le> 4 + length prefix + (if ho_checksum h = None then 0 else 4)" for p f
    by (simp add: datagram_checksum_def datagram_header_def Let_def split: option.split)
  obtain f c where c: "compress_commands h = (f, c)" by fastforce
  have body: "length (case c of Some output \<Rightarrow> output | None \<Rightarrow> concat (gather_bytes h)) \<le> sum_list (map buffer_size (ho_buffers h))"
  proof (cases c)
    case None
    then show ?thesis using gather_length [OF len(3), of h] by (simp add: gather_bytes_def)
  next
    case (Some out)
    then have p: "prefix = []" and o: "length out < unat (ho_packetSize h - sizeof_ENetProtocolHeader)"
      using c assms(2) by (auto simp: compress_commands_def Let_def split: option.splits if_splits)
    have "4 \<le> unat (ho_packetSize h)" using len(1) by simp
    then have "unat (ho_packetSize h - sizeof_ENetProtocolHeader) = unat (ho_packetSize h) - 4"
      by (simp add: sizeof_defs unat_sub word_le_nat_alt)
    then show ?thesis using Some o len(1) p by simp
  qed
  have "snd (datagram_bytes prefix i h) = datagram_checksum h (peer_at h i) (datagram_header prefix h (peer_at h i) (session_flags (peer_at h i) f))
      @ (case c of Some output \<Rightarrow> output | None \<Rightarrow> concat (gather_bytes h))"
    by (simp add: datagram_bytes_def c Let_def)
  then show ?thesis
    using head [of "peer_at h i" "session_flags (peer_at h i) f"] body len by simp
qed

lemma begin_datagram_ok:
  assumes "i < length (ho_peers h)" "unat packetSize = base" "base \<le> unat (pr_mtu (peer_at h i))"
  shows "packing_ok base i (begin_datagram packetSize h)"
  using assms by (simp add: packing_ok_def begin_datagram_def peer_at_def ho_bufferCount_def ENET_BUFFER_MAXIMUM_def)

text \<open>
  C7: One datagram never exceeds its limits: after the acknowledgements, the timeouts and the
  commands of a peer have been packed, there are at most 32 commands in at most 65 buffers, the
  size counted in \<^verbatim>\<open>packetSize\<close> is exactly the size of the header and the buffers and is at most the
  peer's mtu, and the bytes given to the socket are at most the mtu, plus four when there is a
  checksum, which \<^verbatim>\<open>packetSize\<close> does not count.
\<close>

theorem datagram_bounds:
  fixes h :: ENetHost
  assumes "i < length (ho_peers h)" "unat packetSize = 4 + length prefix"
    and "4 + length prefix \<le> unat (pr_mtu (peer_at h i))" "unat (pr_mtu (peer_at h i)) < 65536"
    and "queues_fit i h" "prefix = [] \<or> ho_compressor h3 = None"
    and "h1 = enet_protocol_send_acknowledgements i (begin_datagram packetSize h)"
    and "h2 = h1 \<or> enet_protocol_check_timeouts i event h1 = (0, event', h2)"
    and "h3 = send_peer_commands i h2"
  shows "ho_commandCount h3 \<le> 32 \<and> ho_bufferCount h3 \<le> 65
    \<and> unat (ho_packetSize h3) = 4 + length prefix + sum_list (map buffer_size (ho_buffers h3))
    \<and> unat (ho_packetSize h3) \<le> unat (pr_mtu (peer_at h3 i))
    \<and> length (snd (datagram_bytes prefix i h3)) \<le> unat (pr_mtu (peer_at h3 i)) + (if ho_checksum h3 = None then 0 else 4)"
proof -
  let ?base = "4 + length prefix"
  have mtu0: "pr_mtu (peer_at (begin_datagram packetSize h) i) = pr_mtu (peer_at h i)" by (simp add: begin_datagram_def peer_at_def)
  have ok0: "packing_ok ?base i (begin_datagram packetSize h)" by (rule begin_datagram_ok [OF assms(1,2,3)])
  have ok1: "packing_ok ?base i h1"
    unfolding assms(7) enet_protocol_send_acknowledgements_def by (rule send_acknowledgements_ok [OF ok0])
  have q1: "queues_fit i h1"
    using queue_view_fit [OF queue_view_acknowledgements] queue_view_fit [OF queue_view_fields(6)] assms(5)
    unfolding assms(7) enet_protocol_send_acknowledgements_def by blast
  have "pr_mtu (peer_at (send_acknowledgements_loop i aqs g) i) = pr_mtu (peer_at g i)" for aqs g
  proof (induction aqs arbitrary: g)
    case (Cons aq aqs)
    have "pr_mtu (peer_at (g\<lparr>ho_continueSending := True\<rparr>) i) = pr_mtu (peer_at g i)" by (simp add: peer_at_def)
    moreover have "pr_mtu (peer_at (upd_peer i (\<lambda>p. p\<lparr>pr_acknowledgements := aqs\<rparr>) g) i) = pr_mtu (peer_at g i)" for g
      using packing_mtu [OF packing_view_upd_peer] by simp
    ultimately show ?case
      using Cons.IH packing_mtu [OF packing_view_dispatch_state] by (simp add: Let_def)
  qed simp
  then have mtu1: "unat (pr_mtu (peer_at h1 i)) < 65536"
    using mtu0 assms(4) by (simp add: assms(7) enet_protocol_send_acknowledgements_def)
  have "queues_fit i h2 \<and> packing_view i h2 = packing_view i h1"
  proof (cases "h2 = h1")
    case False
    have "i < length (ho_peers h1)" using ok1 by (simp add: packing_ok_def)
    then show ?thesis
      using check_timeouts_ok [of i "[]" 0 _ event h1 event' h2] assms(8) False q1
      by (simp add: enet_protocol_check_timeouts_def queues_fit_def)
  qed (simp add: q1)
  then have h2: "queues_fit i h2" "packing_ok ?base i h2" "unat (pr_mtu (peer_at h2 i)) < 65536"
    using packing_view_ok ok1 packing_mtu mtu1 by metis+
  have "packing_ok ?base i h3" unfolding assms(9) by (rule send_peer_commands_ok [OF h2(2,3,1)])
  then show ?thesis
    using datagram_length [of prefix i h3] assms(6)
    by (simp add: packing_ok_def ENET_BUFFER_MAXIMUM_def protocol_limit_defs ENET_PROTOCOL_MAXIMUM_PACKET_COMMANDS_def)
qed

theorem datagram_bounds_witness:
  "\<exists>h3. h3 = send_peer_commands 0 (enet_protocol_send_acknowledgements 0 (begin_datagram 4 example_host))
    \<and> ho_commandCount h3 \<le> 32 \<and> unat (ho_packetSize h3) \<le> unat (pr_mtu (peer_at h3 0))"
proof -
  have "queues_fit 0 example_host"
    by (simp add: queues_fit_def) (simp add: example_peer_def reset_fields_def zero_peer_def)
  from datagram_bounds [OF _ _ _ _ this _ refl disjI1 [OF refl] refl, where packetSize = 4 and prefix = "[]"] show ?thesis
    by simp
qed

end
