(* ===== verification/ENet_Termination.thy ===== *)
theory ENet_Termination
  imports ENet_Fragments ENet_Datagram
begin

text \<open>
  The loops of the sending side come to an end: cutting a packet into fragments, and flushing a
  host, which sends datagrams until no peer has more to send than one datagram holds.
\<close>

section \<open>Cutting a packet\<close>

text \<open>
  C16: \<^verbatim>\<open>enet_peer_send\<close> returns, whatever allocations fail, when the host's limit on packets is
  below 4 GB and the mtu leaves room for a fragment: the 32-bit offset of its loop does not wrap.
\<close>

theorem peer_send_returns:
  fixes h :: ENetHost
  assumes "ho_maximumPacketSize h < 2 ^ 32" "send_fragmentLength h (peer_at h i) < 2 ^ 32"
  shows "\<exists>r h'. enet_peer_send i channelID q h = Some (r, h')"
proof (cases "env_packets h q")
  case None
  then show ?thesis by (simp add: enet_peer_send_def Let_def)
next
  case (Some pk)
  define D where "D = unat (pk_dataLength pk)"
  define F where "F = unat (send_fragmentLength h (peer_at h i))"
  have D: "pk_dataLength pk = of_nat D" and F: "send_fragmentLength h (peer_at h i) = of_nat F"
    by (simp_all add: D_def F_def)
  have F32: "F < 2 ^ 32" using assms(2) by (simp add: F_def word_less_nat_alt)
  show ?thesis
  proof (cases "pk_dataLength pk > ho_maximumPacketSize h \<or> send_fragmentLength h (peer_at h i) = 0
      \<or> \<not> pk_dataLength pk > send_fragmentLength h (peer_at h i)")
    case True
    then show ?thesis by (auto simp: enet_peer_send_def Let_def Some split: prod.splits)
  next
    case False
    have D32: "D < 2 ^ 32"
      using False assms(1) by (simp add: D_def word_less_nat_alt word_le_nat_alt not_less)
    have F0: "0 < F" using False by (simp add: F_def unat_gt_0)
    have "\<exists>r h'. send_fragmented i channelID q pk (send_fragmentLength h (peer_at h i)) h = Some (r, h')"
    proof -
      have l: "\<exists>r n h'. send_fragments_loop mk (pk_dataLength pk) (send_fragmentLength h (peer_at h i)) 0 0 [] h = Some (r, n, h')" for mk
        using send_fragments_loop_tiles [OF F0 F32 D32, where k = 0 and fl = "of_nat F" and fs = "[]" and h = h and mk = mk]
        unfolding D F by auto
      show ?thesis
        unfolding send_fragmented_def Let_def using l by (auto split: prod.splits option.splits) (metis option.simps(3))+
    qed
    then show ?thesis using False by (auto simp: enet_peer_send_def Let_def Some)
  qed
qed

section \<open>The work of a peer\<close>

text \<open>
  What a peer has left to send. An acknowledgement counts twice, so that a ping that is queued
  and not sent is made up for by the acknowledgements that filled the datagram; a disconnection
  that is due and a ping that may be sent count one.
\<close>

definition work :: "ENetPeer \<Rightarrow> nat" where
  "work p = 2 * length (pr_acknowledgements p) + length (pr_outgoingReliableCommands p)
     + length (pr_outgoingUnreliableCommands p)
     + (if pr_state p = ENET_PEER_STATE_DISCONNECT_LATER then 1 else 0)
     + (if pr_sentReliableCommands p = [] then 1 else 0)"

text \<open>A command that fits in a datagram of its own, after a header of \<open>base\<close> bytes.\<close>

definition fits_alone :: "nat \<Rightarrow> nat \<Rightarrow> ENetOutgoingCommand \<Rightarrow> bool" where
  "fits_alone base mtu oc \<longleftrightarrow> outgoing_fits oc
     \<and> base + unat (enet_protocol_command_size (command_of (oc_command oc))) + unat (oc_fragmentLength oc) \<le> mtu"

definition roomy :: "nat \<Rightarrow> ENetPeer \<Rightarrow> bool" where
  "roomy base p \<longleftrightarrow> base + 48 \<le> unat (pr_mtu p) \<and> unat (pr_mtu p) < 65536 \<and> pr_channelCount p \<le> 255
     \<and> list_all (fits_alone base (unat (pr_mtu p))) (pr_outgoingReliableCommands p)
     \<and> list_all (fits_alone base (unat (pr_mtu p))) (pr_outgoingUnreliableCommands p)"

text \<open>The datagram in progress, with at most one data buffer for each command.\<close>

definition packing :: "nat \<Rightarrow> nat \<Rightarrow> ENetHost \<Rightarrow> bool" where
  "packing base i h \<longleftrightarrow> packing_ok base i h \<and> length (ho_buffers h) \<le> 2 * ho_commandCount h
     \<and> roomy base (peer_at h i)"

text \<open>The peers other than \<open>i\<close>.\<close>

definition others :: "nat \<Rightarrow> ENetHost \<Rightarrow> ENetPeer list" where
  "others i h = (ho_peers h)[i := zero_peer]"

lemma others_upd_peer [simp]: "others i (upd_peer i f h) = others i h"
  by (simp add: others_def upd_peer_def)

lemma others_fields [simp]:
  "others i (h\<lparr>ho_continueSending := b\<rparr>) = others i h" "others i (h\<lparr>ho_headerFlags := f\<rparr>) = others i h"
  "others i (put_command c s h) = others i h" "others i (put_data oc q h) = others i h"
  "others i (h\<lparr>ho_connectedPeers := n\<rparr>) = others i h" "others i (h\<lparr>ho_bandwidthLimitedPeers := n\<rparr>) = others i h"
  "others i (h\<lparr>ho_dispatchQueue := q'\<rparr>) = others i h" "others i (begin_datagram ps h) = others i h"
  by (simp_all add: others_def put_command_def put_data_def begin_datagram_def)

lemma others_more: "enet_env.more h' = enet_env.more h \<Longrightarrow> others i h' = others i h"
  unfolding others_def by (drule more_fields(1)) (simp only:)

text \<open>In an empty datagram there is room.\<close>

lemma empty_room:
  assumes "packing base i h" "ho_commandCount h = 0" "extra \<le> 1"
  shows "\<not> buffers_full h extra" "unat (mtu_left i h) = unat (pr_mtu (peer_at h i)) - base"
proof -
  have b: "ho_buffers h = []" using assms(1,2) by (simp add: packing_def)
  then show "\<not> buffers_full h extra"
    using assms(2,3) by (simp add: buffers_full_def ho_bufferCount_def ENET_BUFFER_MAXIMUM_def protocol_limit_defs)
  show "unat (mtu_left i h) = unat (pr_mtu (peer_at h i)) - base"
    using assms(1) mtu_left_unat [of base i h] b by (simp add: packing_def packing_ok_def)
qed

lemma reliable_room_alone:
  assumes "packing base i h" "ho_commandCount h = 0" "fits_alone base (unat (pr_mtu (peer_at h i))) oc"
  shows "\<not> reliable_no_room i oc (enet_protocol_command_size (command_of (oc_command oc))) h"
    "\<not> unreliable_no_room i oc h"
proof -
  let ?s = "enet_protocol_command_size (command_of (oc_command oc))"
  note room = empty_room [OF assms(1,2), of 1]
  have fits: "outgoing_fits oc" "unat ?s + unat (oc_fragmentLength oc) \<le> unat (mtu_left i h)"
    using assms(3) room(2) by (auto simp: fits_alone_def)
  have left: "unat (mtu_left i h) < 65536"
    using assms(1) room(2) by (auto simp: packing_def roomy_def)
  have u: "unat (ucast (oc_fragmentLength oc) :: size_t) = unat (oc_fragmentLength oc)"
    by (simp add: unsigned_ucast_eq take_bit_nat_eq_self less_le_trans [OF unsigned_less])
  have sum: "unat (?s + ucast (oc_fragmentLength oc)) = unat ?s + unat (oc_fragmentLength oc)"
    using outgoing_fits_size [OF fits(1)] u by (subst unat_add_lem [THEN iffD1]) simp_all
  then have "unat (ucast (?s + ucast (oc_fragmentLength oc)) :: u16) = unat ?s + unat (oc_fragmentLength oc)"
    "unat (ucast (mtu_left i h) :: u16) = unat (mtu_left i h)"
    using outgoing_fits_size [OF fits(1)] left by (simp_all add: unsigned_ucast_eq take_bit_nat_eq_self)
  then show "\<not> reliable_no_room i oc ?s h"
    using room(1) fits(2) by (simp add: reliable_no_room_def word_less_nat_alt)
  show "\<not> unreliable_no_room i oc h"
    using room(1) fits(2) sum by (simp add: unreliable_no_room_def Let_def word_less_nat_alt)
qed

section \<open>Acknowledgements\<close>

text \<open>The progress from \<open>h\<close> to \<open>h'\<close>: \<open>w\<close> is what each command put in the datagram takes off the work.\<close>

definition progress :: "nat \<Rightarrow> nat \<Rightarrow> nat \<Rightarrow> ENetHost \<Rightarrow> ENetHost \<Rightarrow> bool" where
  "progress w base i h h' \<longleftrightarrow> packing base i h' \<and> others i h' = others i h \<and> length (ho_peers h') = length (ho_peers h)
     \<and> ho_commandCount h \<le> ho_commandCount h'
     \<and> work (peer_at h' i) + w * (ho_commandCount h' - ho_commandCount h) \<le> work (peer_at h i)
     \<and> (ho_continueSending h' \<longrightarrow> ho_continueSending h \<or> 1 \<le> ho_commandCount h')"

lemma progress_refl: "packing base i h \<Longrightarrow> progress w base i h h"
  by (simp add: progress_def)

lemma progress_trans: "progress w base i h h' \<Longrightarrow> progress w base i h' h'' \<Longrightarrow> progress w base i h h''"
proof -
  assume a: "progress w base i h h'" "progress w base i h' h''"
  let ?a = "ho_commandCount h" and ?b = "ho_commandCount h'" and ?c = "ho_commandCount h''"
  have "w * (?c - ?a) = w * (?b - ?a) + w * (?c - ?b)"
    using a by (simp add: progress_def flip: add_mult_distrib2)
  then show ?thesis using a by (auto simp: progress_def)
qed

lemma progress_stop:
  assumes "packing base i h" "1 \<le> ho_commandCount h"
  shows "progress w base i h (h\<lparr>ho_continueSending := True\<rparr>)"
proof -
  have p: "peer_at (h\<lparr>ho_continueSending := True\<rparr>) i = peer_at h i" by (simp add: peer_at_def)
  have "packing_ok base i (h\<lparr>ho_continueSending := True\<rparr>)"
    using assms(1) packing_view_ok [OF packing_view_fields(1)] unfolding packing_def by blast
  then show ?thesis using assms by (simp add: progress_def packing_def p)
qed

lemma dispatch_state_peer:
  assumes "i < length (ho_peers h)"
  shows "peer_at (enet_protocol_dispatch_state i s h) i = (peer_at h i)\<lparr>pr_state := s, pr_needsDispatch := True\<rparr>"
    "length (ho_peers (enet_protocol_dispatch_state i s h)) = length (ho_peers h)"
  using assms by (simp_all add: enet_protocol_dispatch_state_def need_dispatch_peer change_state_peer)

lemma dispatch_state_frame [simp]:
  "others i (enet_protocol_dispatch_state i s h) = others i h"
  "ho_continueSending (enet_protocol_dispatch_state i s h) = ho_continueSending h"
  "ho_commandCount (enet_protocol_dispatch_state i s h) = ho_commandCount h"
  "ho_buffers (enet_protocol_dispatch_state i s h) = ho_buffers h"
  by (simp_all add: enet_protocol_dispatch_state_def enet_protocol_change_state_def need_dispatch_def Let_def
      enet_peer_on_connect_def enet_peer_on_disconnect_def upd_peer_def others_def)

text \<open>An update of the peer and of fields outside the datagram.\<close>

lemma progress_peer:
  assumes "packing base i h" "packing_view i h' = packing_view i h" "others i h' = others i h"
    and "ho_continueSending h' \<longrightarrow> ho_continueSending h"
    and "roomy base (peer_at h' i)" "work (peer_at h' i) \<le> work (peer_at h i)"
  shows "progress w base i h h'"
  using assms packing_view_ok [OF assms(2)]
  by (auto simp: progress_def packing_def packing_view_def)

lemma progress_put:
  assumes "packing base i h" "well_formed_command c" "\<not> buffers_full h e"
    and "\<not> mtu_left i h < enet_protocol_command_size (command_of c)"
    and "packing_view i h' = packing_view i (put_command c (enet_protocol_command_size (command_of c)) h)"
    and "others i h' = others i h" "ho_continueSending h' \<longrightarrow> ho_continueSending h"
    and "roomy base (peer_at h' i)" "work (peer_at h' i) + w \<le> work (peer_at h i)"
  shows "progress w base i h h'"
proof -
  have "packing_ok base i (put_command c (enet_protocol_command_size (command_of c)) h)"
    using put_command_ok assms(1-4) by (simp add: packing_def)
  then have "packing_ok base i h'" using packing_view_ok [OF assms(5)] by simp
  then show ?thesis
    using assms by (auto simp: progress_def packing_def packing_view_def put_command_def)
qed

lemma send_acknowledgements_progress:
  "packing base i h \<Longrightarrow> pr_acknowledgements (peer_at h i) = aqs \<Longrightarrow>
     progress 2 base i h (send_acknowledgements_loop i aqs h)"
proof (induction aqs arbitrary: h)
  case Nil
  then show ?case by (simp add: progress_refl)
next
  case (Cons aq aqs)
  have i: "i < length (ho_peers h)" using Cons.prems(1) by (simp add: packing_def packing_ok_def)
  show ?case
  proof (cases "buffers_full h 0 \<or> mtu_left i h < sizeof_ENetProtocolAcknowledge")
    case True
    have "1 \<le> ho_commandCount h"
    proof (rule ccontr)
      assume "\<not> 1 \<le> ho_commandCount h"
      then have z: "ho_commandCount h = 0" by simp
      have "48 \<le> unat (mtu_left i h)"
        using empty_room(2) [OF Cons.prems(1) z, of 0] Cons.prems(1) by (auto simp: packing_def roomy_def)
      then show False
        using True empty_room(1) [OF Cons.prems(1) z, of 0] by (simp add: sizeof_defs word_less_nat_alt)
    qed
    then show ?thesis using True progress_stop [OF Cons.prems(1)] by simp
  next
    case False
    define h1 where "h1 = put_command (acknowledge_wire aq) sizeof_ENetProtocolAcknowledge h"
    define h2 where "h2 = upd_peer i (\<lambda>p. p\<lparr>pr_acknowledgements := aqs\<rparr>)
      (if command_number (aq_command aq) = ENET_PROTOCOL_COMMAND_DISCONNECT
       then enet_protocol_dispatch_state i ENET_PEER_STATE_ZOMBIE h1 else h1)"
    have i1: "i < length (ho_peers h1)" "peer_at h1 i = peer_at h i" using i by (simp_all add: h1_def put_command_def peer_at_def)
    have p: "peer_at h2 i = (peer_at h i)\<lparr>pr_acknowledgements := aqs\<rparr>
      \<or> peer_at h2 i = (peer_at h i)\<lparr>pr_state := ENET_PEER_STATE_ZOMBIE, pr_needsDispatch := True, pr_acknowledgements := aqs\<rparr>"
      using i1 by (simp add: h2_def dispatch_state_peer)
    have "progress 2 base i h h2"
    proof (rule progress_put [OF Cons.prems(1) acknowledge_wire_wf(1)])
      show "\<not> buffers_full h 0" "\<not> mtu_left i h < enet_protocol_command_size (command_of (acknowledge_wire aq))"
        using False by (simp_all add: acknowledge_wire_wf(2))
      show "packing_view i h2 = packing_view i (put_command (acknowledge_wire aq)
          (enet_protocol_command_size (command_of (acknowledge_wire aq))) h)"
        by (simp add: h2_def h1_def acknowledge_wire_wf(2))
      show "others i h2 = others i h" by (simp add: h2_def h1_def)
      show "ho_continueSending h2 \<longrightarrow> ho_continueSending h" by (simp add: h2_def h1_def put_command_def upd_peer_def)
      show "roomy base (peer_at h2 i)" using Cons.prems(1) p by (auto simp: packing_def roomy_def)
      show "work (peer_at h2 i) + 2 \<le> work (peer_at h i)" using Cons.prems(2) p by (auto simp: work_def)
    qed
    moreover from this have "progress 2 base i h2 (send_acknowledgements_loop i aqs h2)"
      using Cons.IH [of h2] p by (auto simp: progress_def)
    moreover have "send_acknowledgements_loop i (aq # aqs) h = send_acknowledgements_loop i aqs h2"
      using False by (simp add: h1_def h2_def Let_def)
    ultimately show ?thesis using progress_trans by metis
  qed
qed

section \<open>Reliable commands\<close>

lemma put_peers [simp]:
  "length (ho_peers (put_command c s h)) = length (ho_peers h)" "length (ho_peers (put_data oc q h)) = length (ho_peers h)"
  "peer_at (h\<lparr>ho_headerFlags := f\<rparr>) i = peer_at h i" "peer_at (h\<lparr>ho_continueSending := b\<rparr>) i = peer_at h i"
  by (simp_all add: put_command_def put_data_def peer_at_def)

definition after_reliable :: "ENetOutgoingCommand list \<Rightarrow> ENetPeer \<Rightarrow> ENetPeer \<Rightarrow> bool" where
  "after_reliable remaining p q \<longleftrightarrow> pr_acknowledgements q = pr_acknowledgements p
     \<and> pr_outgoingReliableCommands q = remaining
     \<and> pr_outgoingUnreliableCommands q = pr_outgoingUnreliableCommands p \<and> pr_state q = pr_state p
     \<and> pr_sentReliableCommands q \<noteq> [] \<and> pr_mtu q = pr_mtu p \<and> pr_channelCount q = pr_channelCount p"

lemma send_reliable_command_peer:
  assumes "i < length (ho_peers h)"
  shows "after_reliable (skipped @ ocs) (peer_at h i) (peer_at (send_reliable_command i skipped oc ocs h) i)"
    "others i (send_reliable_command i skipped oc ocs h) = others i h"
    "ho_continueSending (send_reliable_command i skipped oc ocs h) = ho_continueSending h"
    "ho_commandCount (send_reliable_command i skipped oc ocs h) = Suc (ho_commandCount h)"
    "length (ho_buffers (send_reliable_command i skipped oc ocs h)) \<le> Suc (Suc (length (ho_buffers h)))"
proof -
  have l: "length (ho_peers (put_reliable i oc g)) = length (ho_peers g)" for g oc
    by (simp add: put_reliable_def Let_def split: option.split)
  define g where "g = requeue_sent i (skipped @ ocs) (sent_command (ho_serviceTime h) (peer_at h i) oc) (enter_window i oc h)"
  have g: "after_reliable (skipped @ ocs) (peer_at h i) (peer_at g i)" "length (ho_peers g) = length (ho_peers h)"
    using assms by (simp_all add: g_def requeue_sent_def enter_window_def Let_def after_reliable_def upd_channel_def)
  have "after_reliable (skipped @ ocs) (peer_at h i) (peer_at (put_reliable i oc' g) i)" for oc'
    using g assms by (simp add: put_reliable_def Let_def split: option.split) (simp add: after_reliable_def)
  then show "after_reliable (skipped @ ocs) (peer_at h i) (peer_at (send_reliable_command i skipped oc ocs h) i)"
    using g(2) assms l by (simp add: send_reliable_command_def Let_def g_def [symmetric]) (simp add: after_reliable_def)
  show "others i (send_reliable_command i skipped oc ocs h) = others i h"
    by (simp add: send_reliable_command_def Let_def put_reliable_def requeue_sent_def enter_window_def split: option.split)
  show "ho_continueSending (send_reliable_command i skipped oc ocs h) = ho_continueSending h"
    "ho_commandCount (send_reliable_command i skipped oc ocs h) = Suc (ho_commandCount h)"
    "length (ho_buffers (send_reliable_command i skipped oc ocs h)) \<le> Suc (Suc (length (ho_buffers h)))"
    by (simp_all add: send_reliable_command_def Let_def put_reliable_def requeue_sent_def enter_window_def
        put_command_def put_data_def upd_peer_def split: option.split)
qed

lemma send_reliable_progress:
  assumes "packing base i h" "pr_outgoingReliableCommands (peer_at h i) = skipped @ oc # ocs"
    and "\<not> reliable_no_room i oc (enet_protocol_command_size (command_of (oc_command oc))) h"
  defines "g \<equiv> send_reliable_command i skipped oc ocs h"
  shows "progress 1 base i h g" "pr_sentReliableCommands (peer_at g i) \<noteq> []"
    "pr_outgoingReliableCommands (peer_at g i) = skipped @ ocs"
    "pr_channelCount (peer_at g i) = pr_channelCount (peer_at h i)"
    "pr_sentReliableCommands (peer_at h i) = [] \<Longrightarrow> work (peer_at g i) + (ho_commandCount g - ho_commandCount h) + 1 \<le> work (peer_at h i)"
proof -
  have i: "i < length (ho_peers h)" and mtu: "unat (pr_mtu (peer_at h i)) < 65536" and fits: "outgoing_fits oc"
    using assms(1,2) by (auto simp: packing_def packing_ok_def roomy_def fits_alone_def)
  note a = send_reliable_command_peer [OF i, where skipped = skipped and ocs = ocs and oc = oc, folded g_def]
  have ok: "packing_ok base i g"
    using send_reliable_command_ok(1) [OF _ mtu fits assms(3)] assms(1) by (simp add: packing_def g_def)
  have work: "work (peer_at g i) + 1 + (if pr_sentReliableCommands (peer_at h i) = [] then 1 else 0) \<le> work (peer_at h i)"
    using a(1) assms(2) by (simp add: work_def after_reliable_def)
  have "roomy base (peer_at g i)"
    using assms(1,2) a(1) by (simp add: roomy_def packing_def after_reliable_def)
  moreover have "length (ho_peers g) = length (ho_peers h)"
    using a(2) by (metis length_list_update others_def)
  ultimately show "progress 1 base i h g"
    using ok a work assms(1) by (simp add: progress_def packing_def)
  show "pr_sentReliableCommands (peer_at g i) \<noteq> []" "pr_outgoingReliableCommands (peer_at g i) = skipped @ ocs"
    "pr_channelCount (peer_at g i) = pr_channelCount (peer_at h i)"
    using a(1) by (simp_all add: after_reliable_def)
  show "pr_sentReliableCommands (peer_at h i) = [] \<Longrightarrow> work (peer_at g i) + (ho_commandCount g - ho_commandCount h) + 1 \<le> work (peer_at h i)"
    using work a(4) by simp
qed

text \<open>A command that no window can hold back.\<close>

definition never_skipped :: "ENetPeer \<Rightarrow> ENetOutgoingCommand \<Rightarrow> bool" where
  "never_skipped p oc \<longleftrightarrow> oc_packet oc = None \<and> \<not> ucast (hd_channelID (pc_header (oc_command oc))) < pr_channelCount p"

lemma send_reliable_loop_progress:
  fixes e w c :: bool
  assumes "packing base i h" "pr_outgoingReliableCommands (peer_at h i) = skipped @ ocs"
  defines "g \<equiv> snd (send_reliable_loop i skipped ocs e w c h)"
  shows "g = h \<and> (\<forall>oc \<in> set ocs. \<not> never_skipped (peer_at h i) oc)
    \<or> g = h\<lparr>ho_continueSending := True\<rparr> \<and> 1 \<le> ho_commandCount h
    \<or> progress 1 base i h g \<and> pr_sentReliableCommands (peer_at g i) \<noteq> []
      \<and> (pr_sentReliableCommands (peer_at h i) = [] \<longrightarrow>
           work (peer_at g i) + (ho_commandCount g - ho_commandCount h) + 1 \<le> work (peer_at h i))"
  using assms(1,2) unfolding g_def
proof (induction ocs arbitrary: skipped e w c h)
  case (Cons oc ocs)
  let ?size = "enet_protocol_command_size (command_of (oc_command oc))"
  define p where "p = peer_at h i"
  define hasChannel where "hasChannel \<longleftrightarrow> ucast (hd_channelID (pc_header (oc_command oc))) < pr_channelCount p"
  define w' where "w' \<longleftrightarrow> w \<or> hasChannel \<and> window_wraps p oc"
  define e' where "e' \<longleftrightarrow> e \<or> oc_packet oc \<noteq> None \<and> window_exceeds p oc"
  have step: "send_reliable_loop i skipped (oc # ocs) e w c h =
    (if hasChannel \<and> w' then send_reliable_loop i (skipped @ [oc]) ocs e w' c h
     else if oc_packet oc \<noteq> None \<and> e' then send_reliable_loop i (skipped @ [oc]) ocs e' w' c h
     else if reliable_no_room i oc ?size h then (False, h\<lparr>ho_continueSending := True\<rparr>)
     else send_reliable_loop i skipped ocs e' w' False (send_reliable_command i skipped oc ocs h))"
    by (simp only: send_reliable_loop.simps Let_def p_def hasChannel_def w'_def e'_def)
  consider "hasChannel \<and> w'" | "\<not> (hasChannel \<and> w')" "oc_packet oc \<noteq> None \<and> e'"
    | "\<not> (hasChannel \<and> w')" "\<not> (oc_packet oc \<noteq> None \<and> e')" "reliable_no_room i oc ?size h"
    | "\<not> (hasChannel \<and> w')" "\<not> (oc_packet oc \<noteq> None \<and> e')" "\<not> reliable_no_room i oc ?size h"
    by blast
  then show ?case
  proof cases
    case 1
    then have "\<not> never_skipped (peer_at h i) oc" by (simp add: never_skipped_def hasChannel_def p_def)
    then show ?thesis using Cons.IH [of h "skipped @ [oc]" e w' c] Cons.prems 1 step by simp
  next
    case 2
    then have "\<not> never_skipped (peer_at h i) oc" by (simp add: never_skipped_def)
    moreover have "send_reliable_loop i skipped (oc # ocs) e w c h = send_reliable_loop i (skipped @ [oc]) ocs e' w' c h"
      unfolding step using 2 by (simp only: if_False if_True simp_thms)
    ultimately show ?thesis using Cons.IH [of h "skipped @ [oc]" e' w' c] Cons.prems by simp
  next
    case 3
    have "fits_alone base (unat (pr_mtu (peer_at h i))) oc"
      using Cons.prems by (simp add: packing_def roomy_def)
    then have "ho_commandCount h \<noteq> 0" using 3(3) reliable_room_alone(1) [OF Cons.prems(1)] by blast
    moreover have "send_reliable_loop i skipped (oc # ocs) e w c h = (False, h\<lparr>ho_continueSending := True\<rparr>)"
      unfolding step using 3 by (simp only: if_False if_True simp_thms)
    ultimately show ?thesis by simp
  next
    case 4
    define h1 where "h1 = send_reliable_command i skipped oc ocs h"
    note s = send_reliable_progress [OF Cons.prems(1) Cons.prems(2) 4(3), folded h1_def]
    have e: "send_reliable_loop i skipped (oc # ocs) e w c h = send_reliable_loop i skipped ocs e' w' False h1"
      unfolding step h1_def using 4 by (simp only: if_False if_True simp_thms)
    have k1: "packing base i h1" using s(1) by (simp add: progress_def)
    define g where "g = snd (send_reliable_loop i skipped ocs e' w' False h1)"
    have "progress 1 base i h1 g \<and> pr_sentReliableCommands (peer_at g i) \<noteq> []"
      using Cons.IH [OF k1 s(3), of e' w' False] progress_refl [OF k1] progress_stop [OF k1] s(2)
      unfolding g_def [symmetric] by auto
    moreover from this have "progress 1 base i h g" using progress_trans [OF s(1)] by blast
    moreover have "pr_sentReliableCommands (peer_at h i) = [] \<longrightarrow>
        work (peer_at g i) + (ho_commandCount g - ho_commandCount h) + 1 \<le> work (peer_at h i)"
      using calculation s(1,5) by (auto simp: progress_def)
    ultimately show ?thesis unfolding e g_def [symmetric] by blast
  qed
qed simp

section \<open>Unreliable commands\<close>

definition after_unreliable :: "ENetOutgoingCommand list \<Rightarrow> ENetPeer \<Rightarrow> ENetPeer \<Rightarrow> bool" where
  "after_unreliable remaining p q \<longleftrightarrow> pr_acknowledgements q = pr_acknowledgements p
     \<and> pr_outgoingReliableCommands q = pr_outgoingReliableCommands p
     \<and> pr_outgoingUnreliableCommands q = remaining \<and> pr_state q = pr_state p
     \<and> pr_sentReliableCommands q = pr_sentReliableCommands p \<and> pr_mtu q = pr_mtu p \<and> pr_channelCount q = pr_channelCount p"

lemma send_unreliable_command_peer:
  assumes "i < length (ho_peers h)"
  shows "after_unreliable ocs (peer_at h i) (peer_at (send_unreliable_command i oc ocs h) i)"
    "others i (send_unreliable_command i oc ocs h) = others i h"
    "ho_continueSending (send_unreliable_command i oc ocs h) = ho_continueSending h"
    "ho_commandCount (send_unreliable_command i oc ocs h) = Suc (ho_commandCount h)"
    "length (ho_buffers (send_unreliable_command i oc ocs h)) \<le> Suc (Suc (length (ho_buffers h)))"
proof -
  show "after_unreliable ocs (peer_at h i) (peer_at (send_unreliable_command i oc ocs h) i)"
    using assms by (simp add: send_unreliable_command_def Let_def after_unreliable_def split: option.split)
  show "others i (send_unreliable_command i oc ocs h) = others i h"
    by (simp add: send_unreliable_command_def Let_def split: option.split)
  show "ho_continueSending (send_unreliable_command i oc ocs h) = ho_continueSending h"
    "ho_commandCount (send_unreliable_command i oc ocs h) = Suc (ho_commandCount h)"
    "length (ho_buffers (send_unreliable_command i oc ocs h)) \<le> Suc (Suc (length (ho_buffers h)))"
    by (simp_all add: send_unreliable_command_def Let_def put_command_def put_data_def upd_peer_def split: option.split)
qed

lemma send_unreliable_progress:
  assumes "packing base i h" "pr_outgoingUnreliableCommands (peer_at h i) = oc # ocs" "\<not> unreliable_no_room i oc h"
  defines "g \<equiv> send_unreliable_command i oc ocs h"
  shows "progress 1 base i h g" "pr_outgoingUnreliableCommands (peer_at g i) = ocs"
proof -
  have i: "i < length (ho_peers h)" and fits: "outgoing_fits oc"
    using assms(1,2) by (auto simp: packing_def packing_ok_def roomy_def fits_alone_def)
  note a = send_unreliable_command_peer [OF i, where ocs = ocs and oc = oc, folded g_def]
  have ok: "packing_ok base i g"
    using send_unreliable_command_ok [OF _ fits assms(3)] assms(1) by (simp add: packing_def g_def)
  have "work (peer_at g i) + 1 \<le> work (peer_at h i)" using a(1) assms(2) by (simp add: work_def after_unreliable_def)
  moreover have "roomy base (peer_at g i)" using assms(1,2) a(1) by (simp add: roomy_def packing_def after_unreliable_def)
  moreover have "length (ho_peers g) = length (ho_peers h)" using a(2) by (metis length_list_update others_def)
  ultimately show "progress 1 base i h g" using ok a assms(1) by (simp add: progress_def packing_def)
  show "pr_outgoingUnreliableCommands (peer_at g i) = ocs" using a(1) by (simp add: after_unreliable_def)
qed

lemma others_release [simp]: "others i (fold throttle_release ocs h) = others i h" "others i (throttle_release oc h) = others i h"
  by (rule others_more, simp add: more_fold)+

lemma more_continue: "enet_env.more h' = enet_env.more h \<Longrightarrow> ho_continueSending h' = ho_continueSending h" for h h' :: ENetHost
  by (simp only: ENetHost.select_defs enet_env.select_defs comp_apply id_apply)

lemma drop_unreliable_progress:
  assumes "packing base i h" "pr_outgoingUnreliableCommands (peer_at h i) = oc # ocs"
  defines "g \<equiv> drop_unreliable i oc ocs (upd_peer i throttle_count h)"
  shows "progress 1 base i h g" "pr_outgoingUnreliableCommands (peer_at g i) = dropWhile (dropped_with oc) ocs"
proof -
  have i: "i < length (ho_peers h)" using assms(1) by (simp add: packing_def packing_ok_def)
  define h1 where "h1 = fold throttle_release (oc # takeWhile (dropped_with oc) ocs) (upd_peer i throttle_count h)"
  have m: "enet_env.more h1 = enet_env.more (upd_peer i throttle_count h)"
    unfolding h1_def by (rule more_fold) simp
  have p1: "peer_at h1 i = throttle_count (peer_at h i)" "length (ho_peers h1) = length (ho_peers h)"
    using more_peer_at [OF m] more_fields(1) [OF m] i by simp_all
  have g: "g = upd_peer i (\<lambda>p. p\<lparr>pr_outgoingUnreliableCommands := dropWhile (dropped_with oc) ocs\<rparr>) h1"
    by (simp add: g_def drop_unreliable_def h1_def)
  have p: "after_unreliable (dropWhile (dropped_with oc) ocs) (peer_at h i) (peer_at g i)"
    using i by (simp add: g p1 after_unreliable_def throttle_count_def)
  show "pr_outgoingUnreliableCommands (peer_at g i) = dropWhile (dropped_with oc) ocs" using p by (simp add: after_unreliable_def)
  show "progress 1 base i h g"
  proof (rule progress_peer [OF assms(1)])
    have "packing_view i g = packing_view i h1" by (simp add: g)
    also have "\<dots> = packing_view i (upd_peer i throttle_count h)" by (rule packing_view_more [OF m])
    finally show "packing_view i g = packing_view i h" by (simp add: throttle_count_def)
    show "others i g = others i h" using others_more [OF m] by (simp add: g)
    show "ho_continueSending g \<longrightarrow> ho_continueSending h" using more_continue [OF m] by (simp add: g upd_peer_def)
    show "roomy base (peer_at g i)"
      using assms(1,2) p by (simp add: roomy_def packing_def after_unreliable_def list_all_dropWhile)
    show "work (peer_at g i) \<le> work (peer_at h i)"
      using p assms(2) length_dropWhile_le [of "dropped_with oc" ocs] by (simp add: work_def after_unreliable_def)
  qed
qed

lemma continue_upd_peer [simp]: "ho_continueSending (upd_peer i f h) = ho_continueSending h"
  by (simp add: upd_peer_def)

lemma throttle_count_progress:
  assumes "packing base i h" shows "progress 1 base i h (upd_peer i throttle_count h)"
    "pr_outgoingUnreliableCommands (peer_at (upd_peer i throttle_count h) i) = pr_outgoingUnreliableCommands (peer_at h i)"
proof -
  have i: "i < length (ho_peers h)" using assms(1) by (simp add: packing_def packing_ok_def)
  show "progress 1 base i h (upd_peer i throttle_count h)"
    using assms i by (intro progress_peer) (simp_all add: throttle_count_def packing_def roomy_def work_def)
  show "pr_outgoingUnreliableCommands (peer_at (upd_peer i throttle_count h) i) = pr_outgoingUnreliableCommands (peer_at h i)"
    using i by (simp add: throttle_count_def)
qed

lemma send_unreliable_loop_progress:
  "packing base i h \<Longrightarrow> pr_outgoingUnreliableCommands (peer_at h i) = ocs \<Longrightarrow>
     progress 1 base i h (send_unreliable_loop i ocs h)"
proof (induction i ocs h rule: send_unreliable_loop.induct)
  case (2 i oc ocs h)
  define h1 where "h1 = upd_peer i throttle_count h"
  note t = throttle_count_progress [OF 2(4), folded h1_def]
  have k1: "packing base i h1" using t(1) by (simp add: progress_def)
  have q1: "pr_outgoingUnreliableCommands (peer_at h1 i) = oc # ocs" using t(2) 2(5) by simp
  have fits: "fits_alone base (unat (pr_mtu (peer_at h i))) oc" using 2(4,5) by (simp add: packing_def roomy_def)
  have v: "packing_view i h1 = packing_view i h" by (simp add: h1_def throttle_count_def)
  then have left: "unreliable_no_room i oc h1 = unreliable_no_room i oc h"
    by (simp add: unreliable_no_room_def Let_def mtu_left_def packing_view_def buffers_full_def ho_bufferCount_def)
  show ?case
  proof (cases "unreliable_no_room i oc h")
    case True
    then have "1 \<le> ho_commandCount h" using reliable_room_alone(2) [OF 2(4) _ fits] by (cases "ho_commandCount h") auto
    then show ?thesis using True progress_stop [OF 2(4)] by (simp add: send_unreliable_loop.simps(2))
  next
    case False
    note s = send_unreliable_progress [OF 2(4,5) False]
    note s1 = send_unreliable_progress [OF k1 q1, unfolded left, OF False]
    note d = drop_unreliable_progress [OF 2(4,5), folded h1_def]
    have sent: "progress 1 base i h (send_unreliable_loop i ocs (send_unreliable_command i oc ocs g))"
      if "progress 1 base i h g" "progress 1 base i g (send_unreliable_command i oc ocs g)"
        "progress 1 base i (send_unreliable_command i oc ocs g) (send_unreliable_loop i ocs (send_unreliable_command i oc ocs g))" for g
      using that progress_trans by blast
    consider (drop) "oc_packet oc \<noteq> None \<and> oc_fragmentOffset oc = 0"
        "pr_packetThrottleCounter (peer_at h1 i) > pr_packetThrottle (peer_at h1 i)"
      | (count) "oc_packet oc \<noteq> None \<and> oc_fragmentOffset oc = 0"
        "\<not> pr_packetThrottleCounter (peer_at h1 i) > pr_packetThrottle (peer_at h1 i)"
      | (plain) "\<not> (oc_packet oc \<noteq> None \<and> oc_fragmentOffset oc = 0)" by blast
    then show ?thesis
    proof cases
      case drop
      have "packing base i (drop_unreliable i oc ocs h1)" using d(1) by (simp add: progress_def)
      with 2(1) [OF False drop(1) h1_def drop(2)] d(2)
      have "progress 1 base i (drop_unreliable i oc ocs h1) (send_unreliable_loop i (dropWhile (dropped_with oc) ocs) (drop_unreliable i oc ocs h1))"
        by blast
      moreover have "send_unreliable_loop i (oc # ocs) h = send_unreliable_loop i (dropWhile (dropped_with oc) ocs) (drop_unreliable i oc ocs h1)"
        using False drop by (simp add: send_unreliable_loop.simps(2) h1_def Let_def)
      ultimately show ?thesis using progress_trans [OF d(1)] by simp
    next
      case count
      have "packing base i (send_unreliable_command i oc ocs h1)" using s1(1) by (simp add: progress_def)
      with 2(2) [OF False count(1) h1_def count(2)] s1(2)
      have "progress 1 base i (send_unreliable_command i oc ocs h1) (send_unreliable_loop i ocs (send_unreliable_command i oc ocs h1))"
        by blast
      moreover have "send_unreliable_loop i (oc # ocs) h = send_unreliable_loop i ocs (send_unreliable_command i oc ocs h1)"
        using False count by (simp add: send_unreliable_loop.simps(2) h1_def Let_def)
      ultimately show ?thesis using sent [OF t(1) s1(1)] by simp
    next
      case plain
      have "packing base i (send_unreliable_command i oc ocs h)" using s(1) by (simp add: progress_def)
      with 2(3) [OF False plain] s(2)
      have "progress 1 base i (send_unreliable_command i oc ocs h) (send_unreliable_loop i ocs (send_unreliable_command i oc ocs h))"
        by blast
      moreover have "send_unreliable_loop i (oc # ocs) h = send_unreliable_loop i ocs (send_unreliable_command i oc ocs h)"
        unfolding send_unreliable_loop.simps(2) using False plain by (simp only: if_False)
      ultimately show ?thesis using sent [OF progress_refl [OF 2(4)] s(1)] by simp
    qed
  qed
qed (simp add: progress_refl)

section \<open>Disconnecting later\<close>

lemma reset_queues_peer:
  assumes "i < length (ho_peers h)"
  defines "g \<equiv> enet_peer_reset_queues i h"
  shows "pr_acknowledgements (peer_at g i) = []" "pr_outgoingReliableCommands (peer_at g i) = []"
    "pr_outgoingUnreliableCommands (peer_at g i) = []" "pr_sentReliableCommands (peer_at g i) = []"
    "pr_state (peer_at g i) = pr_state (peer_at h i)" "pr_mtu (peer_at g i) = pr_mtu (peer_at h i)"
    "pr_channelCount (peer_at g i) = 0" "others i g = others i h" "ho_continueSending g = ho_continueSending h"
    "length (ho_peers g) = length (ho_peers h)" "packing_view i g = packing_view i h"
proof -
  define h1 where "h1 = (if pr_needsDispatch (peer_at h i)
    then upd_peer i (\<lambda>p. p\<lparr>pr_needsDispatch := False\<rparr>) (h\<lparr>ho_dispatchQueue := remove1 i (ho_dispatchQueue h)\<rparr>) else h)"
  define p where "p = peer_at h1 i"
  define h2 where "h2 = fold reset_channel (take (unat (pr_channelCount p)) (pr_channels p))
    (enet_peer_reset_incoming_commands (pr_dispatchedCommands p)
      (enet_peer_reset_outgoing_commands (pr_outgoingUnreliableCommands p)
        (enet_peer_reset_outgoing_commands (pr_outgoingReliableCommands p)
          (enet_peer_reset_outgoing_commands (pr_sentUnreliableCommands p)
            (enet_peer_reset_outgoing_commands (pr_sentReliableCommands p) h1)))))"
  define f where "f = (\<lambda>p :: ENetPeer. p\<lparr>
          pr_acknowledgements := [], pr_sentReliableCommands := [], pr_sentUnreliableCommands := [],
          pr_outgoingReliableCommands := [], pr_outgoingUnreliableCommands := [],
          pr_dispatchedCommands := [], pr_channels := [], pr_channelCount := 0\<rparr>)"
  have g: "g = upd_peer i f h2"
    by (simp add: g_def enet_peer_reset_queues_def Let_def h1_def [symmetric] p_def [symmetric] h2_def f_def)
  have m: "enet_env.more h2 = enet_env.more h1" by (simp add: h2_def more_fold)
  have p1: "pr_state (peer_at h1 i) = pr_state (peer_at h i)" "pr_mtu (peer_at h1 i) = pr_mtu (peer_at h i)"
    "others i h1 = others i h" "ho_continueSending h1 = ho_continueSending h" "length (ho_peers h1) = length (ho_peers h)"
    "packing_view i h1 = packing_view i h"
    using assms(1) by (simp_all add: h1_def) (simp_all add: peer_at_def upd_peer_def)
  have p2: "peer_at h2 i = peer_at h1 i" "length (ho_peers h2) = length (ho_peers h1)" "others i h2 = others i h1"
    "ho_continueSending h2 = ho_continueSending h1" "packing_view i h2 = packing_view i h1"
    using more_peer_at [OF m] more_fields(1) [OF m] others_more [OF m] more_continue [OF m] packing_view_more [OF m] by simp_all
  have pg: "peer_at g i = f (peer_at h1 i)" using assms(1) p1 p2 by (simp add: g)
  show "pr_acknowledgements (peer_at g i) = []" "pr_outgoingReliableCommands (peer_at g i) = []"
    "pr_outgoingUnreliableCommands (peer_at g i) = []" "pr_sentReliableCommands (peer_at g i) = []"
    "pr_state (peer_at g i) = pr_state (peer_at h i)" "pr_mtu (peer_at g i) = pr_mtu (peer_at h i)"
    "pr_channelCount (peer_at g i) = 0"
    by (simp_all add: pg f_def p1)
  show "others i g = others i h" "ho_continueSending g = ho_continueSending h"
    "length (ho_peers g) = length (ho_peers h)" "packing_view i g = packing_view i h"
    using p1 p2 by (simp_all add: g f_def)
qed

text \<open>A control command is queued, or there is no memory for it.\<close>

definition with_command :: "ENetProtocol \<Rightarrow> ENetPeer \<Rightarrow> ENetPeer \<Rightarrow> bool" where
  "with_command command p q \<longleftrightarrow> pr_acknowledgements q = pr_acknowledgements p
     \<and> pr_outgoingReliableCommands q = pr_outgoingReliableCommands p
         @ [queued_control command (pr_outgoingReliableSequenceNumber p + 1)]
     \<and> pr_outgoingUnreliableCommands q = pr_outgoingUnreliableCommands p \<and> pr_state q = pr_state p
     \<and> pr_sentReliableCommands q = pr_sentReliableCommands p \<and> pr_mtu q = pr_mtu p \<and> pr_channelCount q = pr_channelCount p"

lemma queue_control_frame:
  fixes h :: ENetHost
  assumes "control_command command" "i < length (ho_peers h)"
  defines "g \<equiv> snd (enet_peer_queue_outgoing_command i command None 0 0 h)"
  shows "peer_at g i = peer_at h i \<or> with_command command (peer_at h i) (peer_at g i)"
    "others i g = others i h" "ho_continueSending g = ho_continueSending h" "length (ho_peers g) = length (ho_peers h)"
proof -
  define h1 where "h1 = snd (enet_malloc h)"
  let ?oc = "\<lparr>oc_reliableSequenceNumber = 0, oc_unreliableSequenceNumber = 0, oc_sentTime = 0,
       oc_roundTripTimeout = 0, oc_roundTripTimeoutLimit = 0, oc_fragmentOffset = 0,
       oc_fragmentLength = 0, oc_sendAttempts = 0, oc_command = command, oc_packet = None\<rparr>"
  have m: "enet_env.more h1 = enet_env.more h" by (simp add: h1_def)
  have g: "g = (if fst (enet_malloc h) then upd_peer i (setup_outgoing ?oc) h1 else h1)"
    using assms(1) by (simp add: g_def enet_peer_queue_outgoing_command_def Let_def split_beta h1_def
        enet_peer_setup_outgoing_command_def channel_missing_def control_command_def)
  note f = more_peer_at [OF m, of i] more_fields(1) [OF m] others_more [OF m, of i] more_continue [OF m]
  have "with_command command p (setup_outgoing ?oc p)" for p
    using assms(1) by (simp add: with_command_def setup_control queued_control_def)
  then show "peer_at g i = peer_at h i \<or> with_command command (peer_at h i) (peer_at g i)"
    using f assms(2) by (simp add: g)
  show "others i g = others i h" "ho_continueSending g = ho_continueSending h" "length (ho_peers g) = length (ho_peers h)"
    using f by (simp_all add: g)
qed

lemma queued_control_fits:
  assumes "well_formed_command command" "base + 48 \<le> mtu"
  shows "fits_alone base mtu (queued_control command n)"
proof -
  have "well_formed_command (set_reliableSequenceNumber m command)" for m
    using assms(1) by (simp add: well_formed_command_def set_reliableSequenceNumber_def command_number_def command_of_def)
  then show ?thesis
    using command_size_le [of "set_reliableSequenceNumber (ENET_HOST_TO_NET_16 n) command"] assms(2)
    by (simp add: fits_alone_def outgoing_fits_def queued_control_def)
qed

lemma disconnect_progress:
  assumes "packing base i h" "pr_state (peer_at h i) = ENET_PEER_STATE_DISCONNECT_LATER"
    and "pr_sentReliableCommands (peer_at h i) = []"
  shows "progress w base i h (enet_peer_disconnect_connected i data h)"
proof -
  have i: "i < length (ho_peers h)" using assms(1) by (simp add: packing_def packing_ok_def)
  define h1 where "h1 = enet_peer_reset_queues i h"
  note r = reset_queues_peer [OF i, folded h1_def]
  let ?command = "disconnect_command (peer_at h1 i) data"
  have c: "control_command ?command" "well_formed_command ?command"
    using r(5) assms(2) by (simp_all add: disconnect_command_def peer_is_connected_def control_command_def
        well_formed_command_def peer_command_def command_of_def command_number_def command_defs command_flag_defs)
  define h2 where "h2 = snd (enet_peer_queue_outgoing_command i ?command None 0 0 h1)"
  have i1: "i < length (ho_peers h1)" using i r(10) by simp
  note q = queue_control_frame [OF c(1) i1, folded h2_def]
  define g where "g = enet_peer_disconnect_connected i data h"
  have g: "g = upd_peer i (\<lambda>p. p\<lparr>pr_state := ENET_PEER_STATE_DISCONNECTING\<rparr>) (enet_peer_on_disconnect i h2)"
    by (simp add: g_def enet_peer_disconnect_connected_def disconnect_queue_def Let_def h1_def h2_def)
  have on: "others i (enet_peer_on_disconnect i x) = others i x"
    "ho_continueSending (enet_peer_on_disconnect i x) = ho_continueSending x"
    "peer_at (enet_peer_on_disconnect i x) i = peer_at x i" for x
    by (simp_all add: enet_peer_on_disconnect_def Let_def) (simp_all add: peer_at_def)
  have p: "peer_at g i = (peer_at h2 i)\<lparr>pr_state := ENET_PEER_STATE_DISCONNECTING\<rparr>"
    using q(4) i1 on by (simp add: g)
  have base: "base + 48 \<le> unat (pr_mtu (peer_at h i))" "unat (pr_mtu (peer_at h i)) < 65536"
    using assms(1) by (simp_all add: packing_def roomy_def)
  have fits: "fits_alone base (unat (pr_mtu (peer_at h i))) (queued_control ?command n)" for n
    by (rule queued_control_fits [OF c(2) base(1)])
  show ?thesis
    unfolding g_def [symmetric]
  proof (rule progress_peer [OF assms(1)])
    show "packing_view i g = packing_view i h" by (simp add: g_def)
    show "others i g = others i h" using q(2) r(8) on by (simp add: g)
    show "ho_continueSending g \<longrightarrow> ho_continueSending h" using q(3) r(9) on by (simp add: g)
    show "roomy base (peer_at g i)"
      using q(1) r p base fits by (auto simp: roomy_def with_command_def)
    show "work (peer_at g i) \<le> work (peer_at h i)"
      using q(1) r p assms(2,3) by (auto simp: work_def with_command_def)
  qed
qed

lemma send_unreliable_outgoing_progress:
  assumes "packing base i h"
  shows "progress 1 base i h (enet_protocol_send_unreliable_outgoing_commands i h)"
proof -
  define g where "g = send_unreliable_loop i (pr_outgoingUnreliableCommands (peer_at h i)) h"
  have p: "progress 1 base i h g" unfolding g_def by (rule send_unreliable_loop_progress [OF assms refl])
  then have "packing base i g" by (simp add: progress_def)
  then show ?thesis
    using p disconnect_progress progress_trans [OF p]
    by (simp add: enet_protocol_send_unreliable_outgoing_commands_def Let_def g_def [symmetric] outgoing_empty_def)
qed

section \<open>One peer\<close>

text \<open>As \<open>progress\<close>, with a ping that may have been queued and not sent.\<close>

definition progress_ping :: "nat \<Rightarrow> nat \<Rightarrow> ENetHost \<Rightarrow> ENetHost \<Rightarrow> bool" where
  "progress_ping base i h g \<longleftrightarrow> packing base i g \<and> others i g = others i h \<and> length (ho_peers g) = length (ho_peers h)
     \<and> ho_commandCount h \<le> ho_commandCount g
     \<and> work (peer_at g i) + (ho_commandCount g - ho_commandCount h) \<le> work (peer_at h i) + (if 1 \<le> ho_commandCount h then 1 else 0)
     \<and> (ho_continueSending g \<longrightarrow> ho_continueSending h \<or> 1 \<le> ho_commandCount g)"

lemma progress_pingI: "progress 1 base i h g \<Longrightarrow> progress_ping base i h g"
  by (auto simp: progress_def progress_ping_def)

lemma progress_ping_trans: "progress_ping base i h g \<Longrightarrow> progress 1 base i g g' \<Longrightarrow> progress_ping base i h g'"
  by (auto simp: progress_def progress_ping_def)

lemma reliable_pass_progress:
  assumes "packing base i h"
  shows "progress 1 base i h (snd (enet_protocol_send_reliable_outgoing_commands i h))"
  using send_reliable_loop_progress [OF assms, of "[]" _ False False True] progress_refl [OF assms] progress_stop [OF assms]
  unfolding enet_protocol_send_reliable_outgoing_commands_def by auto

lemma ping_pass_progress:
  assumes k: "packing base i h" and s: "pr_sentReliableCommands (peer_at h i) = []"
  shows "progress_ping base i h (snd (enet_protocol_send_reliable_outgoing_commands i (enet_peer_ping i h)))"
proof (cases "enet_peer_ping i h = h \<or> peer_at (enet_peer_ping i h) i = peer_at h i")
  case True
  define hp where "hp = enet_peer_ping i h"
  have i: "i < length (ho_peers h)" using k by (simp add: packing_def packing_ok_def)
  note q = queue_control_frame [OF ping_command_control(1) i]
  have "progress 1 base i h hp"
  proof (cases "pr_state (peer_at h i) = ENET_PEER_STATE_CONNECTED")
    case conn: True
    then have e: "hp = snd (enet_peer_queue_outgoing_command i ping_command None 0 0 h)"
      by (simp add: hp_def enet_peer_ping_def ping_command_def)
    have "peer_at hp i = peer_at h i" using True by (auto simp: hp_def)
    then show ?thesis
      using q k unfolding e [symmetric] by (intro progress_peer) (simp_all add: packing_def, simp add: e)
  qed (simp add: hp_def enet_peer_ping_def progress_refl k)
  moreover from this have "packing base i hp" by (simp add: progress_def)
  ultimately show ?thesis
    using progress_trans reliable_pass_progress progress_pingI unfolding hp_def by blast
next
  case False
  define hp where "hp = enet_peer_ping i h"
  have i: "i < length (ho_peers h)" using k by (simp add: packing_def packing_ok_def)
  have e: "hp = snd (enet_peer_queue_outgoing_command i ping_command None 0 0 h)"
    using False by (simp add: hp_def enet_peer_ping_def ping_command_def split: if_splits)
  note q = queue_control_frame [OF ping_command_control(1) i, folded e]
  have w: "with_command ping_command (peer_at h i) (peer_at hp i)" using q(1) False by (simp add: hp_def)
  have view: "packing_view i hp = packing_view i h" by (simp add: e)
  have base: "base + 48 \<le> unat (pr_mtu (peer_at h i))" using k by (simp add: packing_def roomy_def)
  have wf: "well_formed_command ping_command"
    by (simp add: ping_command_def well_formed_command_def peer_command_def command_number_def command_of_def
        command_defs command_flag_defs)
  have fits: "fits_alone base (unat (pr_mtu (peer_at h i))) (queued_control ping_command n)" for n
    by (rule queued_control_fits [OF wf base])
  have roomy: "roomy base (peer_at hp i)" using k w fits by (simp add: packing_def roomy_def with_command_def)
  have kp: "packing base i hp"
    using k packing_view_ok [OF view] view roomy by (simp add: packing_def packing_view_def)
  have work: "work (peer_at hp i) = work (peer_at h i) + 1" using w by (simp add: work_def with_command_def)
  have cc: "ho_commandCount hp = ho_commandCount h" using view by (simp add: packing_view_def)
  let ?n = "queued_control ping_command (pr_outgoingReliableSequenceNumber (peer_at h i) + 1)"
  have count: "pr_channelCount (peer_at hp i) \<le> 255" using roomy by (simp add: roomy_def)
  have "never_skipped (peer_at hp i) ?n"
  proof -
    have "hd_channelID (pc_header (oc_command ?n)) = 0xFF"
      by (simp add: queued_control_def set_reliableSequenceNumber_def ping_command_def peer_command_def)
    then show ?thesis using count by (simp add: never_skipped_def queued_control_def not_less)
  qed
  then have never: "\<not> (\<forall>oc \<in> set (pr_outgoingReliableCommands (peer_at hp i)). \<not> never_skipped (peer_at hp i) oc)"
    using w by (simp add: with_command_def)
  define g where "g = snd (enet_protocol_send_reliable_outgoing_commands i hp)"
  have "g = hp\<lparr>ho_continueSending := True\<rparr> \<and> 1 \<le> ho_commandCount hp
    \<or> progress 1 base i hp g \<and> work (peer_at g i) + (ho_commandCount g - ho_commandCount hp) + 1 \<le> work (peer_at hp i)"
    using send_reliable_loop_progress [OF kp, of "[]" _ False False True] never s w
    unfolding enet_protocol_send_reliable_outgoing_commands_def g_def by (auto simp: with_command_def)
  then have "progress_ping base i h g"
  proof
    assume a: "g = hp\<lparr>ho_continueSending := True\<rparr> \<and> 1 \<le> ho_commandCount hp"
    then have "packing base i g" using progress_stop [OF kp] by (simp add: progress_def)
    then show ?thesis using a q(2,4) work cc by (simp add: progress_ping_def)
  next
    assume "progress 1 base i hp g \<and> work (peer_at g i) + (ho_commandCount g - ho_commandCount hp) + 1 \<le> work (peer_at hp i)"
    then show ?thesis using q(2-4) work cc by (auto simp: progress_ping_def progress_def)
  qed
  then show ?thesis by (simp add: g_def hp_def)
qed

lemma send_peer_commands_progress:
  assumes k: "packing base i h"
  shows "progress_ping base i h (send_peer_commands i h)"
proof -
  define r where "r = (if pr_outgoingReliableCommands (peer_at h i) = [] then (True, h)
    else enet_protocol_send_reliable_outgoing_commands i h)"
  define g where "g = snd r"
  define ping where "ping \<longleftrightarrow> fst r \<and> pr_sentReliableCommands (peer_at g i) = []
    \<and> ENET_TIME_DIFFERENCE (ho_serviceTime g) (pr_lastReceiveTime (peer_at g i)) \<ge> pr_pingInterval (peer_at g i)
    \<and> mtu_left i g \<ge> sizeof_ENetProtocolPing"
  define g2 where "g2 = (if ping then snd (enet_protocol_send_reliable_outgoing_commands i (enet_peer_ping i g)) else g)"
  have g: "progress 1 base i h g" using reliable_pass_progress [OF k] progress_refl [OF k] by (simp add: g_def r_def)
  have unsent: "g = h" if "fst r"
    using that send_reliable_loop_unsent unfolding g_def r_def enet_protocol_send_reliable_outgoing_commands_def
    by (cases r) (auto simp: r_def enet_protocol_send_reliable_outgoing_commands_def split: if_splits)
  have g2: "progress_ping base i h g2"
  proof (cases ping)
    case True
    then show ?thesis using unsent ping_pass_progress [OF k] by (simp add: ping_def g2_def)
  next
    case False
    then show ?thesis using progress_pingI [OF g] by (simp add: g2_def)
  qed
  then have "packing base i g2" by (simp add: progress_ping_def)
  note u = send_unreliable_outgoing_progress [OF this]
  have "send_peer_commands i h = (if pr_outgoingUnreliableCommands (peer_at g2 i) \<noteq> []
      then enet_protocol_send_unreliable_outgoing_commands i g2 else g2)"
    unfolding send_peer_commands_def r_def [symmetric] Let_def split_beta g_def [symmetric] ping_def [symmetric] g2_def [symmetric] ..
  then show ?thesis using g2 progress_ping_trans [OF g2 u] by simp
qed

lemma progress_more:
  assumes "packing base i h" "enet_env.more h' = enet_env.more h"
  shows "progress w base i h h'"
  using assms(1) packing_view_more [OF assms(2)] others_more [OF assms(2)] more_continue [OF assms(2)] more_peer_at [OF assms(2), of i]
  by (intro progress_peer) (simp_all add: packing_def)

lemma packet_loss_update_fields [simp]:
  "pr_acknowledgements (packet_loss_update t p) = pr_acknowledgements p"
  "pr_outgoingReliableCommands (packet_loss_update t p) = pr_outgoingReliableCommands p"
  "pr_outgoingUnreliableCommands (packet_loss_update t p) = pr_outgoingUnreliableCommands p"
  "pr_sentReliableCommands (packet_loss_update t p) = pr_sentReliableCommands p"
  "pr_state (packet_loss_update t p) = pr_state p" "pr_mtu (packet_loss_update t p) = pr_mtu p"
  "pr_channelCount (packet_loss_update t p) = pr_channelCount p"
  by (simp_all add: packet_loss_update_def Let_def)

lemma remove_sent_unreliable_progress:
  assumes k: "packing base i h"
  shows "progress w base i h (enet_protocol_remove_sent_unreliable_commands i h)"
proof -
  have i: "i < length (ho_peers h)" using k by (simp add: packing_def packing_ok_def)
  define h1 where "h1 = upd_peer i (\<lambda>p. p\<lparr>pr_sentUnreliableCommands := []\<rparr>) h"
  define g where "g = fold sent_release (pr_sentUnreliableCommands (peer_at h i)) h1"
  have "progress w base i h h1"
    using k i by (intro progress_peer) (simp_all add: h1_def packing_def roomy_def work_def)
  moreover from this have "packing base i h1" by (simp add: progress_def)
  moreover from this have "progress w base i h1 g" by (rule progress_more) (simp add: g_def more_fold)
  ultimately have g: "progress w base i h g" by (metis progress_trans)
  then have kg: "packing base i g" by (simp add: progress_def)
  define later where "later \<longleftrightarrow> pr_state (peer_at g i) = ENET_PEER_STATE_DISCONNECT_LATER \<and> outgoing_empty (peer_at g i)"
  have e: "enet_protocol_remove_sent_unreliable_commands i h = (if pr_sentUnreliableCommands (peer_at h i) = [] then h
      else if later then enet_peer_disconnect_connected i (pr_eventData (peer_at g i)) g else g)"
    unfolding enet_protocol_remove_sent_unreliable_commands_def Let_def h1_def [symmetric] g_def [symmetric] later_def ..
  have "progress w base i h (enet_peer_disconnect_connected i (pr_eventData (peer_at g i)) g)" if later
    using that by (intro progress_trans [OF g] disconnect_progress kg) (simp_all add: later_def outgoing_empty_def)
  then show ?thesis using g progress_refl [OF k] by (simp add: e)
qed

lemma send_datagram_progress:
  assumes k: "packing base i h"
  shows "progress 1 base i h (snd (send_datagram prefix i h))"
proof -
  define a where "a = upd_peer i (packet_loss_update (ho_serviceTime h)) h"
  define b where "b = (if gather_ub a then set_ub a else a)"
  define flags where "flags = fst (datagram_bytes prefix i b)"
  define c where "c = upd_peer i (\<lambda>p. p\<lparr>pr_lastSendTime := ho_serviceTime b\<rparr>) (b\<lparr>ho_headerFlags := flags\<rparr>)"
  define d where "d = snd (enet_socket_send (pr_address (peer_at c i)) (snd (datagram_bytes prefix i b)) c)"
  have e: "snd (send_datagram prefix i h) = enet_protocol_remove_sent_unreliable_commands i d"
    unfolding send_datagram_def Let_def split_beta a_def [symmetric] b_def [symmetric]
      flags_def [symmetric] c_def [symmetric] d_def [symmetric] snd_conv ..
  have i: "i < length (ho_peers h)" using k by (simp add: packing_def packing_ok_def)
  have 1: "progress 1 base i h a"
    using k i by (intro progress_peer) (simp_all add: a_def packing_def roomy_def work_def)
  then have ka: "packing base i a" by (simp add: progress_def)
  have 2: "progress 1 base i a b" by (rule progress_more [OF ka]) (simp add: b_def)
  then have kb: "packing base i b" by (simp add: progress_def)
  then have ib: "i < length (ho_peers b)" by (simp add: packing_def packing_ok_def)
  have 3: "progress 1 base i b c"
    using kb ib by (intro progress_peer) (simp_all add: c_def packing_def roomy_def work_def)
  then have kc: "packing base i c" by (simp add: progress_def)
  have 4: "progress 1 base i c d"
    by (rule progress_more [OF kc]) (simp add: d_def enet_socket_send_def Let_def split: list.split)
  then have kd: "packing base i d" by (simp add: progress_def)
  show ?thesis
    unfolding e by (rule progress_trans [OF 1 progress_trans [OF 2 progress_trans [OF 3 progress_trans [OF 4
          remove_sent_unreliable_progress [OF kd]]]]])
qed

text \<open>What a pass over peer \<open>i\<close> does to the host.\<close>

definition peer_step :: "nat \<Rightarrow> nat \<Rightarrow> ENetHost \<Rightarrow> ENetHost \<Rightarrow> bool" where
  "peer_step base i h g \<longleftrightarrow> others i g = others i h \<and> length (ho_peers g) = length (ho_peers h) \<and> roomy base (peer_at g i)
     \<and> work (peer_at g i) \<le> work (peer_at h i)
     \<and> (ho_continueSending g \<longrightarrow> ho_continueSending h \<or> work (peer_at g i) < work (peer_at h i))"

lemma send_peer_step:
  assumes "i < length (ho_peers h)" "roomy (unat packetSize) (peer_at h i)"
    and "send_peer packetSize prefix False i event h = (r, event', g)"
  shows "peer_step (unat packetSize) i h g"
proof (cases "pr_state (peer_at h i) = ENET_PEER_STATE_DISCONNECTED \<or> pr_state (peer_at h i) = ENET_PEER_STATE_ZOMBIE")
  case True
  then show ?thesis using assms by (simp add: send_peer_def peer_step_def)
next
  case False
  let ?base = "unat packetSize"
  define h0 where "h0 = begin_datagram packetSize h"
  define h1 where "h1 = (if pr_acknowledgements (peer_at h0 i) \<noteq> [] then enet_protocol_send_acknowledgements i h0 else h0)"
  define h2 where "h2 = send_peer_commands i h1"
  have p0: "peer_at h0 i = peer_at h i" by (simp add: h0_def begin_datagram_def peer_at_def)
  have ok: "packing_ok ?base i h0"
    unfolding h0_def using assms(1,2) by (intro begin_datagram_ok) (auto simp: roomy_def)
  have "ho_buffers h0 = []" by (simp add: h0_def begin_datagram_def)
  then have k0: "packing ?base i h0" using assms(2) ok by (simp add: packing_def p0)
  have a: "progress 2 ?base i h0 h1"
    using send_acknowledgements_progress [OF k0 refl] progress_refl [OF k0] by (simp add: h1_def enet_protocol_send_acknowledgements_def)
  then have k1: "packing ?base i h1" by (simp add: progress_def)
  note c = send_peer_commands_progress [OF k1, folded h2_def]
  have z: "ho_commandCount h0 = 0" "ho_continueSending h0 = ho_continueSending h" "others i h0 = others i h" "length (ho_peers h0) = length (ho_peers h)"
    by (simp_all add: h0_def begin_datagram_def others_def)
  have w: "work (peer_at h2 i) + ho_commandCount h2 \<le> work (peer_at h i)"
    using a c z p0 by (auto simp: progress_def progress_ping_def split: if_splits)
  have s2: "peer_step ?base i h h2"
    using a c z w p0 by (auto simp: progress_def progress_ping_def peer_step_def packing_def)
  have k2: "packing ?base i h2" using c by (simp add: progress_ping_def)
  show ?thesis
  proof (cases "ho_commandCount h2 = 0")
    case True
    then have "g = h2" using assms(3) False by (simp add: send_peer_def Let_def h0_def [symmetric] h1_def [symmetric] h2_def [symmetric])
    then show ?thesis using s2 by simp
  next
    case nz: False
    define d where "d = snd (send_datagram prefix i h2)"
    have d: "progress 1 ?base i h2 d" unfolding d_def by (rule send_datagram_progress [OF k2])
    have v: "ho_peers g = ho_peers d \<and> ho_continueSending g = ho_continueSending d"
      using assms(3) False nz
      by (auto simp: send_peer_def Let_def h0_def [symmetric] h1_def [symmetric] h2_def [symmetric] d_def split: prod.splits if_splits)
    then have vp: "peer_at g i = peer_at d i" "others i g = others i d" by (simp_all add: peer_at_def others_def)
    have "work (peer_at d i) < work (peer_at h i)" using d w nz by (simp add: progress_def)
    then show ?thesis
      using d s2 v vp by (auto simp: progress_def peer_step_def packing_def)
  qed
qed

section \<open>All peers, all rounds\<close>

definition total_work :: "ENetHost \<Rightarrow> nat" where
  "total_work h = sum_list (map work (ho_peers h))"

definition all_roomy :: "nat \<Rightarrow> ENetHost \<Rightarrow> bool" where
  "all_roomy base h \<longleftrightarrow> (\<forall>i < length (ho_peers h). roomy base (peer_at h i))"

lemma sum_list_update_work:
  "i < length ps \<Longrightarrow> sum_list (map work (ps[i := q])) + work (ps ! i) = sum_list (map work ps) + work q"
  by (induction ps arbitrary: i) (auto simp: nth_Cons' split: nat.split)

lemma peer_step_total:
  assumes "i < length (ho_peers h)" "all_roomy base h" "peer_step base i h g"
  shows "all_roomy base g" "length (ho_peers g) = length (ho_peers h)" "total_work g \<le> total_work h"
    "ho_continueSending g \<Longrightarrow> ho_continueSending h \<or> total_work g < total_work h"
proof -
  have s: "others i g = others i h" "length (ho_peers g) = length (ho_peers h)" "roomy base (peer_at g i)"
    "work (peer_at g i) \<le> work (peer_at h i)"
    "ho_continueSending g \<Longrightarrow> ho_continueSending h \<or> work (peer_at g i) < work (peer_at h i)"
    using assms(3) by (simp_all add: peer_step_def)
  have nth: "ho_peers g ! j = (if j = i then peer_at g i else ho_peers h ! j)" if "j < length (ho_peers h)" for j
    using arg_cong [OF s(1), of "\<lambda>ps. ps ! j"] that s(2)
    by (cases "j = i") (simp_all add: others_def peer_at_def)
  then have ps: "ho_peers g = (ho_peers h)[i := peer_at g i]"
    using s(2) assms(1) nth by (intro nth_equalityI) (simp_all add: nth_list_update)
  have "roomy base (peer_at g j)" if "j < length (ho_peers h)" for j
    using assms(2) s(3) nth [OF that] that by (cases "j = i") (simp_all add: all_roomy_def peer_at_def)
  then show "all_roomy base g" using s(2) by (simp add: all_roomy_def)
  show "length (ho_peers g) = length (ho_peers h)" by (rule s(2))
  have "total_work g + work (peer_at h i) = total_work h + work (peer_at g i)"
    using sum_list_update_work [OF assms(1), of "peer_at g i"] unfolding total_work_def ps [symmetric] peer_at_def [of h] .
  then show "total_work g \<le> total_work h"
    "ho_continueSending g \<Longrightarrow> ho_continueSending h \<or> total_work g < total_work h"
    using s(4,5) by auto
qed

lemma send_peers_total:
  "send_peers packetSize prefix False is event h = (r, event', g) \<Longrightarrow> set is \<subseteq> {..<length (ho_peers h)} \<Longrightarrow>
   all_roomy (unat packetSize) h \<Longrightarrow>
     all_roomy (unat packetSize) g \<and> length (ho_peers g) = length (ho_peers h) \<and> total_work g \<le> total_work h
     \<and> (ho_continueSending g \<longrightarrow> ho_continueSending h \<or> total_work g < total_work h)"
proof (induction "is" arbitrary: event h)
  case (Cons i "is")
  obtain r1 ev1 h1 where s: "send_peer packetSize prefix False i event h = (r1, ev1, h1)" by (metis prod_cases3)
  have i: "i < length (ho_peers h)" using Cons.prems(2) by simp
  have "peer_step (unat packetSize) i h h1"
    using send_peer_step [OF i _ s] Cons.prems(3) i by (simp add: all_roomy_def)
  note t = peer_step_total [OF i Cons.prems(3) this]
  show ?case
  proof (cases r1)
    case NextPeer
    then have "send_peers packetSize prefix False is ev1 h1 = (r, event', g)" using Cons.prems(1) s by simp
    from Cons.IH [OF this] show ?thesis using t Cons.prems(2) by auto
  next
    case (ReturnWith n)
    then show ?thesis using Cons.prems(1) s t by simp
  qed
qed simp

lemma send_rounds_return:
  "all_roomy (unat packetSize) h \<Longrightarrow> \<exists>r event' g. send_rounds packetSize prefix False event h = Some (r, event', g)"
proof (induction "total_work h" arbitrary: h event rule: less_induct)
  case less
  show ?case
  proof (cases "ho_continueSending h")
    case True
    define h0 where "h0 = h\<lparr>ho_continueSending := False\<rparr>"
    have h0: "all_roomy (unat packetSize) h0" "total_work h0 = total_work h" "ho_peerCount h = length (ho_peers h0)"
      using less.prems by (simp_all add: h0_def all_roomy_def peer_at_def total_work_def ho_peerCount_def)
    obtain r ev g where s: "send_peers packetSize prefix False [0..<ho_peerCount h] event h0 = (r, ev, g)" by (metis prod_cases3)
    have "set [0..<ho_peerCount h] \<subseteq> {..<length (ho_peers h0)}" using h0(3) by auto
    note total = send_peers_total [OF s this h0(1)]
    have "\<not> ho_continueSending h0" by (simp add: h0_def)
    then have g: "all_roomy (unat packetSize) g" "ho_continueSending g \<Longrightarrow> total_work g < total_work h"
      using total by (simp_all add: h0(2))
    have step: "send_rounds packetSize prefix False event h = (case r of ReturnWith r \<Rightarrow> Some (r, ev, g)
        | NextPeer \<Rightarrow> send_rounds packetSize prefix False ev g)"
      using True s by (subst send_rounds.simps) (simp add: h0_def split: peer_sent.split)
    show ?thesis
    proof (cases r)
      case NextPeer
      show ?thesis
      proof (cases "ho_continueSending g")
        case True
        then show ?thesis using less.hyps [OF g(2) g(1)] step NextPeer by simp
      next
        case False
        then show ?thesis using step NextPeer by (simp add: send_rounds.simps [of _ _ _ _ g])
      qed
    qed (simp add: step)
  qed (simp add: send_rounds.simps)
qed



theorem peer_send_returns_witness: "\<exists>r h'. enet_peer_send 0 0 5 large_host = Some (r, h')"
proof (rule peer_send_returns)
  show "ho_maximumPacketSize large_host < 2 ^ 32" by (simp add: large_host_def word_less_nat_alt)
  have "peer_at large_host 0 = example_peer" by (simp add: large_host_def peer_at_def)
  then show "send_fragmentLength large_host (peer_at large_host 0) < 2 ^ 32"
    by (simp add: send_fragmentLength_def large_host_def sizeof_defs word_less_nat_alt)
qed

end
