(* ===== verification/ENet_Range.thy ===== *)
theory ENet_Range
  imports Prelude
begin

text \<open>
  The arithmetic half of \<^verbatim>\<open>compress.c\<close>: the range coder's registers, \<^verbatim>\<open>ENET_RANGE_CODER_ENCODE\<close>
  and \<^verbatim>\<open>ENET_RANGE_CODER_DECODE\<close> with their renormalisation, the flush of the encoder and the
  seed of the decoder.

  The functions of the file leave early with \<^verbatim>\<open>return 0\<close> from inside their macros, so a piece of
  code yields \<open>Return0\<close>, or \<open>Go x\<close> when control goes on with \<open>x\<close>. \<open>None\<close> around that stands for
  code without a defined result: a loop that does not end, a division by zero, an access outside
  the array of symbols or past the end of a buffer.
\<close>

section \<open>Early returns\<close>

datatype 'a coding = Return0 | Go 'a

fun bindc :: "'a coding option \<Rightarrow> ('a \<Rightarrow> 'b coding option) \<Rightarrow> 'b coding option" where
  "bindc None f = None"
| "bindc (Some Return0) f = Some Return0"
| "bindc (Some (Go x)) f = f x"

lemma bindc_bind: "bindc m f = Option.bind m (\<lambda>r. case r of Return0 \<Rightarrow> Some Return0 | Go x \<Rightarrow> f x)"
  by (cases m rule: option.exhaust) (auto split: coding.split)

lemma bindc_mono [partial_function_mono]:
  assumes "mono_option B" "\<And>y. mono_option (\<lambda>f. C y f)"
  shows "mono_option (\<lambda>f. bindc (B f) (\<lambda>y. C y f))"
  unfolding bindc_bind
  proof (rule Partial_Function.bind_mono [OF assms(1)])
  show "mono_option (\<lambda>f. case y of Return0 \<Rightarrow> Some Return0 | Go x \<Rightarrow> C x f)" for y
    using assms(2) option.const_mono by (cases y) auto
qed

lemma bindc_Go: "bindc m f = Some (Go y) \<longleftrightarrow> (\<exists>x. m = Some (Go x) \<and> f x = Some (Go y))"
  by (cases m rule: option.exhaust) (auto split: coding.split simp: bindc_bind)

lemma bindc_Return0: "bindc m f = Some Return0 \<longleftrightarrow> m = Some Return0 \<or> (\<exists>x. m = Some (Go x) \<and> f x = Some Return0)"
  by (cases m rule: option.exhaust) (auto split: coding.split simp: bindc_bind)

section \<open>The encoder\<close>

definition ENET_RANGE_CODER_TOP :: u32 where "ENET_RANGE_CODER_TOP = 0x1000000"
definition ENET_RANGE_CODER_BOTTOM :: u32 where "ENET_RANGE_CODER_BOTTOM = 0x10000"

lemmas range_coder_limit_defs = ENET_RANGE_CODER_TOP_def ENET_RANGE_CODER_BOTTOM_def

text \<open>\<open>re_out\<close> is what has been written between \<^verbatim>\<open>outStart\<close> and \<^verbatim>\<open>outData\<close>.\<close>

record range_encoder =
  re_low :: u32
  re_range :: u32
  re_out :: "u8 list"

definition ENET_RANGE_CODER_OUTPUT :: "size_t \<Rightarrow> u8 \<Rightarrow> u8 list \<Rightarrow> u8 list coding option" where
  "ENET_RANGE_CODER_OUTPUT outLimit v out =
    (if length out \<ge> unat outLimit then Some Return0 else Some (Go (out @ [v])))"

definition emit_byte :: "size_t \<Rightarrow> range_encoder \<Rightarrow> range_encoder coding option" where
  "emit_byte outLimit e =
    bindc (ENET_RANGE_CODER_OUTPUT outLimit (ucast (drop_bit 24 (re_low e))) (re_out e))
      (\<lambda>out. Some (Go (e\<lparr>re_out := out\<rparr>)))"

text \<open>Whether the interval still spans two values of the top byte.\<close>

definition straddles :: "u32 \<Rightarrow> u32 \<Rightarrow> bool" where
  "straddles low rg \<longleftrightarrow> (low XOR (low + rg)) \<ge> ENET_RANGE_CODER_TOP"

definition truncated_range :: "u32 \<Rightarrow> u32" where
  "truncated_range low = (- low) AND (ENET_RANGE_CODER_BOTTOM - 1)"

partial_function (option) encode_normalize :: "size_t \<Rightarrow> range_encoder \<Rightarrow> range_encoder coding option" where
  [code]: "encode_normalize outLimit e =
    (if straddles (re_low e) (re_range e) \<and> re_range e \<ge> ENET_RANGE_CODER_BOTTOM then Some (Go e)
     else
       let rg = (if straddles (re_low e) (re_range e) then truncated_range (re_low e) else re_range e)
       in bindc (emit_byte outLimit e)
            (\<lambda>e. encode_normalize outLimit
                    (e\<lparr>re_range := push_bit 8 rg, re_low := push_bit 8 (re_low e)\<rparr>)))"

definition ENET_RANGE_CODER_ENCODE ::
  "size_t \<Rightarrow> u32 \<Rightarrow> u32 \<Rightarrow> u32 \<Rightarrow> range_encoder \<Rightarrow> range_encoder coding option" where
  "ENET_RANGE_CODER_ENCODE outLimit below cnt tot e =
    (if tot = 0 then None
     else
       let rg = re_range e div tot in
       encode_normalize outLimit (e\<lparr>re_low := re_low e + below * rg, re_range := rg * cnt\<rparr>))"

partial_function (option) ENET_RANGE_CODER_FLUSH :: "size_t \<Rightarrow> range_encoder \<Rightarrow> range_encoder coding option" where
  [code]: "ENET_RANGE_CODER_FLUSH outLimit e =
    (if re_low e = 0 then Some (Go e)
     else bindc (emit_byte outLimit e)
            (\<lambda>e. ENET_RANGE_CODER_FLUSH outLimit (e\<lparr>re_low := push_bit 8 (re_low e)\<rparr>)))"

section \<open>The decoder\<close>

text \<open>\<open>rd_in\<close> is what is left between \<^verbatim>\<open>inData\<close> and \<^verbatim>\<open>inEnd\<close>.\<close>

record range_decoder =
  rd_low :: u32
  rd_code :: u32
  rd_range :: u32
  rd_in :: "u8 list"

text \<open>\<^verbatim>\<open>if (inData < inEnd) decodeCode |= * inData ++ << shift\<close>\<close>

definition or_next_byte :: "nat \<Rightarrow> range_decoder \<Rightarrow> range_decoder" where
  "or_next_byte shift d =
    (case rd_in d of
       [] \<Rightarrow> d
     | b # bs \<Rightarrow> d\<lparr>rd_code := rd_code d OR push_bit shift (ucast b), rd_in := bs\<rparr>)"

definition ENET_RANGE_CODER_SEED :: "range_decoder \<Rightarrow> range_decoder" where
  "ENET_RANGE_CODER_SEED d = or_next_byte 0 (or_next_byte 8 (or_next_byte 16 (or_next_byte 24 d)))"

text \<open>The code is assigned to 16 bits.\<close>

definition ENET_RANGE_CODER_READ :: "u32 \<Rightarrow> range_decoder \<Rightarrow> (u16 \<times> range_decoder) coding option" where
  "ENET_RANGE_CODER_READ tot d =
    (if tot = 0 \<or> rd_range d div tot = 0 then None
     else
       let d = d\<lparr>rd_range := rd_range d div tot\<rparr>
       in Some (Go (ucast ((rd_code d - rd_low d) div rd_range d), d)))"

partial_function (option) decode_normalize :: "range_decoder \<Rightarrow> range_decoder coding option" where
  [code]: "decode_normalize d =
    (if straddles (rd_low d) (rd_range d) \<and> rd_range d \<ge> ENET_RANGE_CODER_BOTTOM then Some (Go d)
     else
       let rg = (if straddles (rd_low d) (rd_range d) then truncated_range (rd_low d) else rd_range d);
           d = or_next_byte 0 (d\<lparr>rd_code := push_bit 8 (rd_code d)\<rparr>)
       in decode_normalize (d\<lparr>rd_range := push_bit 8 rg, rd_low := push_bit 8 (rd_low d)\<rparr>))"

text \<open>The range has been divided by the total when the code was read.\<close>

definition ENET_RANGE_CODER_DECODE :: "u32 \<Rightarrow> u32 \<Rightarrow> range_decoder \<Rightarrow> range_decoder coding option" where
  "ENET_RANGE_CODER_DECODE below cnt d =
    decode_normalize (d\<lparr>rd_low := rd_low d + below * rd_range d, rd_range := rd_range d * cnt\<rparr>)"

end
