(* ===== verification/ENet_Compress.thy ===== *)
theory ENet_Compress
  imports ENet_Range ENet_Host
begin

text \<open>
  The modelling half of \<^verbatim>\<open>compress.c\<close>: the symbols of the adaptive order-2 contexts, kept as binary
  indexed trees in the array \<^verbatim>\<open>symbols[4096]\<close>, and the two entry points
  \<^verbatim>\<open>enet_range_coder_compress\<close> and \<^verbatim>\<open>enet_range_coder_decompress\<close>. Context exclusion is
  switched off in the source (\<^verbatim>\<open>#undef ENET_CONTEXT_EXCLUSION\<close>) and not modelled.

  A pointer into the array is its index; \<^verbatim>\<open>root\<close> always is index 0. The array is a function whose
  values from 4096 on are never read: every access is guarded and has no defined result there.
\<close>

section \<open>Symbols\<close>

record ENetSymbol =
  sy_value :: u8
  sy_count :: u8
  sy_under :: u16
  sy_left :: u16
  sy_right :: u16
  sy_symbols :: u16
  sy_escapes :: u16
  sy_total :: u16
  sy_parent :: u16

definition ENET_RANGE_CODER_SYMBOLS :: nat where "ENET_RANGE_CODER_SYMBOLS = 4096"

definition ENET_CONTEXT_SYMBOL_DELTA :: u8 where "ENET_CONTEXT_SYMBOL_DELTA = 3"
definition ENET_CONTEXT_SYMBOL_MINIMUM :: u16 where "ENET_CONTEXT_SYMBOL_MINIMUM = 1"
definition ENET_CONTEXT_ESCAPE_MINIMUM :: u16 where "ENET_CONTEXT_ESCAPE_MINIMUM = 1"
definition ENET_SUBCONTEXT_ORDER :: nat where "ENET_SUBCONTEXT_ORDER = 2"
definition ENET_SUBCONTEXT_SYMBOL_DELTA :: u8 where "ENET_SUBCONTEXT_SYMBOL_DELTA = 2"
definition ENET_SUBCONTEXT_ESCAPE_DELTA :: u16 where "ENET_SUBCONTEXT_ESCAPE_DELTA = 5"

lemmas context_const_defs = ENET_RANGE_CODER_SYMBOLS_def ENET_CONTEXT_SYMBOL_DELTA_def
  ENET_CONTEXT_SYMBOL_MINIMUM_def ENET_CONTEXT_ESCAPE_MINIMUM_def ENET_SUBCONTEXT_ORDER_def
  ENET_SUBCONTEXT_SYMBOL_DELTA_def ENET_SUBCONTEXT_ESCAPE_DELTA_def

text \<open>
  The array of the coder and the locals \<^verbatim>\<open>nextSymbol\<close>, \<^verbatim>\<open>predicted\<close> and \<^verbatim>\<open>order\<close>, which the
  compressor and the decompressor both have.
\<close>

type_synonym symbol_array = "nat \<Rightarrow> ENetSymbol"

record ENetRangeCoder =
  rc_symbols :: symbol_array
  rc_nextSymbol :: nat
  rc_predicted :: u16
  rc_order :: nat

definition sym_at :: "ENetRangeCoder \<Rightarrow> nat \<Rightarrow> ENetSymbol" where
  "sym_at c k = rc_symbols c k"

definition upd_sym :: "nat \<Rightarrow> (ENetSymbol \<Rightarrow> ENetSymbol) \<Rightarrow> ENetRangeCoder \<Rightarrow> ENetRangeCoder" where
  "upd_sym k f c = c\<lparr>rc_symbols := (rc_symbols c)(k := f (rc_symbols c k))\<rparr>"

definition fresh_symbol :: "u8 \<Rightarrow> u8 \<Rightarrow> ENetSymbol" where
  "fresh_symbol v cnt = \<lparr>sy_value = v, sy_count = cnt, sy_under = ucast cnt, sy_left = 0, sy_right = 0,
     sy_symbols = 0, sy_escapes = 0, sy_total = 0, sy_parent = 0\<rparr>"

definition ENET_SYMBOL_CREATE :: "u8 \<Rightarrow> u8 \<Rightarrow> ENetRangeCoder \<Rightarrow> (nat \<times> ENetRangeCoder) coding option" where
  "ENET_SYMBOL_CREATE v cnt c =
    (let k = rc_nextSymbol c in
     if k \<ge> ENET_RANGE_CODER_SYMBOLS then None
     else Some (Go (k, upd_sym k (\<lambda>_. fresh_symbol v cnt) (c\<lparr>rc_nextSymbol := k + 1\<rparr>))))"

definition ENET_CONTEXT_CREATE :: "u16 \<Rightarrow> u16 \<Rightarrow> ENetRangeCoder \<Rightarrow> (nat \<times> ENetRangeCoder) coding option" where
  "ENET_CONTEXT_CREATE escapes minimum c =
    bindc (ENET_SYMBOL_CREATE 0 0 c)
      (\<lambda>(k, c). Some (Go (k, upd_sym k (\<lambda>s. s\<lparr>sy_escapes := escapes, sy_total := escapes + 256 * minimum,
                                              sy_symbols := 0\<rparr>) c)))"

section \<open>Rescaling\<close>

text \<open>
  The recursion into the left subtree and the loop along the right children, with the running
  \<^verbatim>\<open>total\<close> of the loop.
\<close>

partial_function (option) enet_symbol_rescale ::
  "nat \<Rightarrow> u16 \<Rightarrow> ENetRangeCoder \<Rightarrow> (u16 \<times> ENetRangeCoder) coding option" where
  [code]: "enet_symbol_rescale k tot c =
    (if k \<ge> ENET_RANGE_CODER_SYMBOLS then None
     else
       let s = sym_at c k;
           cnt = sy_count s - drop_bit 1 (sy_count s);
           c = upd_sym k (\<lambda>s. s\<lparr>sy_count := cnt, sy_under := ucast cnt\<rparr>) c
       in bindc (if sy_left s \<noteq> 0 then enet_symbol_rescale (k + unat (sy_left s)) 0 c else Some (Go (0, c)))
            (\<lambda>(t, c).
              let c = upd_sym k (\<lambda>s. s\<lparr>sy_under := sy_under s + t\<rparr>) c;
                  tot = tot + sy_under (sym_at c k);
                  right = sy_right (sym_at c k)
              in if right = 0 then Some (Go (tot, c))
                 else enet_symbol_rescale (k + unat right) tot c))"

definition ENET_CONTEXT_RESCALE :: "nat \<Rightarrow> u16 \<Rightarrow> ENetRangeCoder \<Rightarrow> ENetRangeCoder coding option" where
  "ENET_CONTEXT_RESCALE k minimum c =
    bindc (if sy_symbols (sym_at c k) \<noteq> 0
           then enet_symbol_rescale (k + unat (sy_symbols (sym_at c k))) 0 c else Some (Go (0, c)))
      (\<lambda>(t, c). Some (Go (upd_sym k (\<lambda>s.
         let escapes = sy_escapes s - drop_bit 1 (sy_escapes s)
         in s\<lparr>sy_escapes := escapes, sy_total := t + escapes + 256 * minimum\<rparr>) c)))"

section \<open>Counting a value in a context\<close>

text \<open>
  The search of \<^verbatim>\<open>ENET_CONTEXT_ENCODE\<close> from a node of the tree: the symbol, what is counted below
  it and its count before the update.
\<close>

partial_function (option) context_encode_from ::
  "nat \<Rightarrow> u8 \<Rightarrow> u8 \<Rightarrow> u16 \<Rightarrow> u16 \<Rightarrow> ENetRangeCoder \<Rightarrow> (nat \<times> u16 \<times> u16 \<times> ENetRangeCoder) coding option" where
  [code]: "context_encode_from k v update below cnt c =
    (if k \<ge> ENET_RANGE_CODER_SYMBOLS then None
     else
       let n = sym_at c k in
       if v < sy_value n then
         let c = upd_sym k (\<lambda>n. n\<lparr>sy_under := sy_under n + ucast update\<rparr>) c in
         if sy_left n \<noteq> 0 then context_encode_from (k + unat (sy_left n)) v update below cnt c
         else bindc (ENET_SYMBOL_CREATE v update c)
                (\<lambda>(s, c). Some (Go (s, below, cnt, upd_sym k (\<lambda>n. n\<lparr>sy_left := of_nat s - of_nat k\<rparr>) c)))
       else if v > sy_value n then
         let below = below + sy_under n in
         if sy_right n \<noteq> 0 then context_encode_from (k + unat (sy_right n)) v update below cnt c
         else bindc (ENET_SYMBOL_CREATE v update c)
                (\<lambda>(s, c). Some (Go (s, below, cnt, upd_sym k (\<lambda>n. n\<lparr>sy_right := of_nat s - of_nat k\<rparr>) c)))
       else
         Some (Go (k, below + (sy_under n - ucast (sy_count n)), cnt + ucast (sy_count n),
                   upd_sym k (\<lambda>n. n\<lparr>sy_under := sy_under n + ucast update, sy_count := sy_count n + update\<rparr>) c)))"

definition ENET_CONTEXT_ENCODE ::
  "nat \<Rightarrow> u8 \<Rightarrow> u8 \<Rightarrow> u16 \<Rightarrow> ENetRangeCoder \<Rightarrow> (nat \<times> u16 \<times> u16 \<times> ENetRangeCoder) coding option" where
  "ENET_CONTEXT_ENCODE context v update minimum c =
    (let below = ucast v * minimum; cnt = minimum in
     if sy_symbols (sym_at c context) = 0 then
       bindc (ENET_SYMBOL_CREATE v update c)
         (\<lambda>(s, c). Some (Go (s, below, cnt, upd_sym context (\<lambda>n. n\<lparr>sy_symbols := of_nat s - of_nat context\<rparr>) c)))
     else context_encode_from (context + unat (sy_symbols (sym_at c context))) v update below cnt c)"

text \<open>\<^verbatim>\<open>* parent\<close>: where the index of the next symbol goes.\<close>

datatype parent_ref = ParentPredicted | ParentOf nat

fun set_parent :: "parent_ref \<Rightarrow> nat \<Rightarrow> ENetRangeCoder \<Rightarrow> ENetRangeCoder" where
  "set_parent ParentPredicted s c = c\<lparr>rc_predicted := of_nat s\<rparr>"
| "set_parent (ParentOf k) s c = upd_sym k (\<lambda>n. n\<lparr>sy_parent := of_nat s\<rparr>) c"

text \<open>The symbols are dropped when a further value might not find room; then the order starts anew.\<close>

definition ENET_RANGE_CODER_FREE_SYMBOLS :: "ENetRangeCoder \<Rightarrow> ENetRangeCoder coding option" where
  "ENET_RANGE_CODER_FREE_SYMBOLS c =
    (if rc_nextSymbol c \<ge> ENET_RANGE_CODER_SYMBOLS - ENET_SUBCONTEXT_ORDER then
       bindc (ENET_CONTEXT_CREATE ENET_CONTEXT_ESCAPE_MINIMUM ENET_CONTEXT_SYMBOL_MINIMUM (c\<lparr>rc_nextSymbol := 0\<rparr>))
         (\<lambda>(root, c). Some (Go (c\<lparr>rc_predicted := 0, rc_order := 0\<rparr>)))
     else Some (Go c))"

text \<open>The end of a round of either loop: the context of the next value.\<close>

definition next_input :: "ENetRangeCoder \<Rightarrow> ENetRangeCoder coding option" where
  "next_input c =
    ENET_RANGE_CODER_FREE_SYMBOLS
      (if rc_order c \<ge> ENET_SUBCONTEXT_ORDER
       then c\<lparr>rc_predicted := sy_parent (sym_at c (unat (rc_predicted c)))\<rparr>
       else c\<lparr>rc_order := rc_order c + 1\<rparr>)"

text \<open>The state of the locals before the first value; the array is whatever the allocator returned.\<close>

definition start_coder :: "symbol_array \<Rightarrow> ENetRangeCoder coding option" where
  "start_coder mem =
    bindc (ENET_CONTEXT_CREATE ENET_CONTEXT_ESCAPE_MINIMUM ENET_CONTEXT_SYMBOL_MINIMUM
            \<lparr>rc_symbols = mem, rc_nextSymbol = 0, rc_predicted = 0, rc_order = 0\<rparr>)
      (\<lambda>(root, c). Some (Go c))"

text \<open>The counts after a symbol of a context other than the root has been coded.\<close>

definition rescale_context :: "nat \<Rightarrow> u16 \<Rightarrow> ENetRangeCoder \<Rightarrow> ENetRangeCoder coding option" where
  "rescale_context k cnt c =
    (let c = upd_sym k (\<lambda>s. s\<lparr>sy_total := sy_total s + ucast ENET_SUBCONTEXT_SYMBOL_DELTA\<rparr>) c in
     if cnt > 0xFF - 2 * ucast ENET_SUBCONTEXT_SYMBOL_DELTA
        \<or> sy_total (sym_at c k) > ucast (ENET_RANGE_CODER_BOTTOM - 0x100)
     then ENET_CONTEXT_RESCALE k 0 c else Some (Go c))"

definition rescale_root :: "u16 \<Rightarrow> ENetRangeCoder \<Rightarrow> ENetRangeCoder coding option" where
  "rescale_root cnt c =
    (let c = upd_sym 0 (\<lambda>s. s\<lparr>sy_total := sy_total s + ucast ENET_CONTEXT_SYMBOL_DELTA\<rparr>) c in
     if cnt > 0xFF - 2 * ucast ENET_CONTEXT_SYMBOL_DELTA + ENET_CONTEXT_SYMBOL_MINIMUM
        \<or> sy_total (sym_at c 0) > ucast (ENET_RANGE_CODER_BOTTOM - 0x100)
     then ENET_CONTEXT_RESCALE 0 ENET_CONTEXT_SYMBOL_MINIMUM c else Some (Go c))"

definition count_escape :: "nat \<Rightarrow> ENetRangeCoder \<Rightarrow> ENetRangeCoder" where
  "count_escape k = upd_sym k (\<lambda>s. s\<lparr>sy_escapes := sy_escapes s + ENET_SUBCONTEXT_ESCAPE_DELTA,
                                   sy_total := sy_total s + ENET_SUBCONTEXT_ESCAPE_DELTA\<rparr>)"

section \<open>The compressor\<close>

text \<open>
  The loop over the contexts of the predicted symbol, up to the root: whether the value was known
  to one of them, and where the next symbol's index goes.
\<close>

partial_function (option) encode_subcontexts ::
  "size_t \<Rightarrow> u8 \<Rightarrow> nat \<Rightarrow> parent_ref \<Rightarrow> ENetRangeCoder \<Rightarrow> range_encoder
    \<Rightarrow> (bool \<times> parent_ref \<times> ENetRangeCoder \<times> range_encoder) coding option" where
  [code]: "encode_subcontexts outLimit v k parent c e =
    (if k = 0 then Some (Go (False, parent, c, e))
     else if k \<ge> ENET_RANGE_CODER_SYMBOLS then None
     else
       bindc (ENET_CONTEXT_ENCODE k v ENET_SUBCONTEXT_SYMBOL_DELTA 0 c) (\<lambda>(symbol, below, cnt, c).
         let c = set_parent parent symbol c;
             escapes = sy_escapes (sym_at c k);
             tot = sy_total (sym_at c k)
         in if cnt > 0 then
              bindc (ENET_RANGE_CODER_ENCODE outLimit (ucast escapes + ucast below) (ucast cnt) (ucast tot) e) (\<lambda>e.
                bindc (rescale_context k cnt c) (\<lambda>c. Some (Go (True, ParentOf symbol, c, e))))
            else
              bindc (if escapes > 0 \<and> escapes < tot
                     then ENET_RANGE_CODER_ENCODE outLimit 0 (ucast escapes) (ucast tot) e else Some (Go e)) (\<lambda>e.
                bindc (rescale_context k cnt (count_escape k c)) (\<lambda>c.
                  encode_subcontexts outLimit v (unat (sy_parent (sym_at c k))) (ParentOf symbol) c e))))"

definition encode_root ::
  "size_t \<Rightarrow> u8 \<Rightarrow> parent_ref \<Rightarrow> ENetRangeCoder \<Rightarrow> range_encoder \<Rightarrow> (ENetRangeCoder \<times> range_encoder) coding option" where
  "encode_root outLimit v parent c e =
    bindc (ENET_CONTEXT_ENCODE 0 v ENET_CONTEXT_SYMBOL_DELTA ENET_CONTEXT_SYMBOL_MINIMUM c) (\<lambda>(symbol, below, cnt, c).
      let c = set_parent parent symbol c;
          escapes = sy_escapes (sym_at c 0);
          tot = sy_total (sym_at c 0)
      in bindc (ENET_RANGE_CODER_ENCODE outLimit (ucast escapes + ucast below) (ucast cnt) (ucast tot) e) (\<lambda>e.
           bindc (rescale_root cnt c) (\<lambda>c. Some (Go (c, e)))))"

text \<open>One value of the input.\<close>

definition encode_value ::
  "size_t \<Rightarrow> u8 \<Rightarrow> ENetRangeCoder \<Rightarrow> range_encoder \<Rightarrow> (ENetRangeCoder \<times> range_encoder) coding option" where
  "encode_value outLimit v c e =
    bindc (encode_subcontexts outLimit v (unat (rc_predicted c)) ParentPredicted c e) (\<lambda>(known, parent, c, e).
      bindc (if known then Some (Go (c, e)) else encode_root outLimit v parent c e) (\<lambda>(c, e).
        bindc (next_input c) (\<lambda>c. Some (Go (c, e)))))"

text \<open>
  The input: what is left of the current buffer, and the buffers after it. After a buffer has been
  taken up its first byte is read, even where it has none.
\<close>

partial_function (option) compress_loop ::
  "size_t \<Rightarrow> u8 list \<Rightarrow> u8 list list \<Rightarrow> ENetRangeCoder \<Rightarrow> range_encoder \<Rightarrow> range_encoder coding option" where
  [code]: "compress_loop outLimit inData inBuffers c e =
    (case inData of
       v # inData \<Rightarrow> bindc (encode_value outLimit v c e) (\<lambda>(c, e). compress_loop outLimit inData inBuffers c e)
     | [] \<Rightarrow>
        (case inBuffers of
           [] \<Rightarrow> Some (Go e)
         | [] # _ \<Rightarrow> None
         | (v # inData) # inBuffers \<Rightarrow>
             bindc (encode_value outLimit v c e) (\<lambda>(c, e). compress_loop outLimit inData inBuffers c e)))"

text \<open>
  The bytes written, none when the function returns 0. The context is the array of symbols, absent
  when the pointer is null.
\<close>

definition enet_range_coder_compress ::
  "symbol_array option \<Rightarrow> u8 list list \<Rightarrow> size_t \<Rightarrow> size_t \<Rightarrow> u8 list option" where
  "enet_range_coder_compress rangeCoder inBuffers inLimit outLimit =
    (case rangeCoder of
       None \<Rightarrow> Some []
     | Some mem \<Rightarrow>
        if inBuffers = [] \<or> inLimit \<le> 0 then Some []
        else
          (case bindc (start_coder mem) (\<lambda>c.
                  bindc (compress_loop outLimit (hd inBuffers) (tl inBuffers) c
                          \<lparr>re_low = 0, re_range = - 1, re_out = []\<rparr>)
                    (ENET_RANGE_CODER_FLUSH outLimit)) of
             None \<Rightarrow> None
           | Some Return0 \<Rightarrow> Some []
           | Some (Go e) \<Rightarrow> Some (re_out e)))"

section \<open>The decompressor\<close>

text \<open>
  \<^verbatim>\<open>ENET_CONTEXT_DECODE\<close> from a node: the symbol, its value, what is counted below it and its
  count. In a context other than the root (\<open>creating\<close> false, \<^verbatim>\<open>ENET_CONTEXT_TRY_DECODE\<close>) a code
  without a symbol makes the decompressor return 0; in the root the value follows from the gap of
  the tree the code falls into. The comparison \<^verbatim>\<open>code < after - before\<close> is one of ints.
\<close>

partial_function (option) context_decode_from ::
  "bool \<Rightarrow> nat \<Rightarrow> u16 \<Rightarrow> u8 \<Rightarrow> u16 \<Rightarrow> u16 \<Rightarrow> u16 \<Rightarrow> ENetRangeCoder
    \<Rightarrow> (nat \<times> u8 \<times> u16 \<times> u16 \<times> ENetRangeCoder) coding option" where
  [code]: "context_decode_from creating k code update minimum below cnt c =
    (if k \<ge> ENET_RANGE_CODER_SYMBOLS then None
     else
       let n = sym_at c k;
           after = below + sy_under n + (ucast (sy_value n) + 1) * minimum;
           own = ucast (sy_count n) + minimum
       in if code \<ge> after then
            let below = below + sy_under n in
            if sy_right n \<noteq> 0
            then context_decode_from creating (k + unat (sy_right n)) code update minimum below cnt c
            else if \<not> creating then Some Return0
            else
              let v = ucast (ucast (sy_value n) + 1 + (code - after) div minimum);
                  below = code - (code - after) mod minimum
              in bindc (ENET_SYMBOL_CREATE v update c)
                   (\<lambda>(s, c). Some (Go (s, v, below, cnt, upd_sym k (\<lambda>n. n\<lparr>sy_right := of_nat s - of_nat k\<rparr>) c)))
          else if uint code < uint after - uint own then
            let c = upd_sym k (\<lambda>n. n\<lparr>sy_under := sy_under n + ucast update\<rparr>) c in
            if sy_left n \<noteq> 0
            then context_decode_from creating (k + unat (sy_left n)) code update minimum below cnt c
            else if \<not> creating then Some Return0
            else
              let gap = after - own - code - 1;
                  v = ucast (ucast (sy_value n) - 1 - gap div minimum);
                  below = code - gap mod minimum
              in bindc (ENET_SYMBOL_CREATE v update c)
                   (\<lambda>(s, c). Some (Go (s, v, below, cnt, upd_sym k (\<lambda>n. n\<lparr>sy_left := of_nat s - of_nat k\<rparr>) c)))
          else
            Some (Go (k, sy_value n, after - own, cnt + ucast (sy_count n),
                      upd_sym k (\<lambda>n. n\<lparr>sy_under := sy_under n + ucast update, sy_count := sy_count n + update\<rparr>) c)))"

definition ENET_CONTEXT_DECODE ::
  "bool \<Rightarrow> nat \<Rightarrow> u16 \<Rightarrow> u8 \<Rightarrow> u16 \<Rightarrow> ENetRangeCoder \<Rightarrow> (nat \<times> u8 \<times> u16 \<times> u16 \<times> ENetRangeCoder) coding option" where
  "ENET_CONTEXT_DECODE creating context code update minimum c =
    (let below = 0; cnt = minimum in
     if sy_symbols (sym_at c context) = 0 then
       if \<not> creating then Some Return0
       else
         let v = ucast (code div minimum); below = code - code mod minimum
         in bindc (ENET_SYMBOL_CREATE v update c)
              (\<lambda>(s, c). Some (Go (s, v, below, cnt, upd_sym context (\<lambda>n. n\<lparr>sy_symbols := of_nat s - of_nat context\<rparr>) c)))
     else context_decode_from creating (context + unat (sy_symbols (sym_at c context))) code update minimum below cnt c)"

text \<open>
  The loop over the contexts of the predicted symbol: the context that knew the value with its
  symbol and the value, or none when the root is reached.
\<close>

partial_function (option) decode_subcontexts ::
  "nat \<Rightarrow> ENetRangeCoder \<Rightarrow> range_decoder
    \<Rightarrow> ((nat \<times> nat \<times> u8) option \<times> ENetRangeCoder \<times> range_decoder) coding option" where
  [code]: "decode_subcontexts k c d =
    (if k = 0 then Some (Go (None, c, d))
     else if k \<ge> ENET_RANGE_CODER_SYMBOLS then None
     else
       let escapes = sy_escapes (sym_at c k);
           tot = sy_total (sym_at c k);
           up = unat (sy_parent (sym_at c k))
       in if escapes \<le> 0 \<or> escapes \<ge> tot then decode_subcontexts up c d
          else
            bindc (ENET_RANGE_CODER_READ (ucast tot) d) (\<lambda>(code, d).
              if code < escapes
              then bindc (ENET_RANGE_CODER_DECODE 0 (ucast escapes) d) (\<lambda>d. decode_subcontexts up c d)
              else
                bindc (ENET_CONTEXT_DECODE False k (code - escapes) ENET_SUBCONTEXT_SYMBOL_DELTA 0 c)
                  (\<lambda>(symbol, v, below, cnt, c).
                    bindc (ENET_RANGE_CODER_DECODE (ucast (sy_escapes (sym_at c k)) + ucast below) (ucast cnt) d) (\<lambda>d.
                      bindc (rescale_context k cnt c) (\<lambda>c. Some (Go (Some (k, symbol, v), c, d)))))))"

text \<open>The root: none when the code is its escape, which ends the data.\<close>

definition decode_root ::
  "ENetRangeCoder \<Rightarrow> range_decoder \<Rightarrow> ((nat \<times> nat \<times> u8) option \<times> ENetRangeCoder \<times> range_decoder) coding option" where
  "decode_root c d =
    (let escapes = sy_escapes (sym_at c 0) in
     bindc (ENET_RANGE_CODER_READ (ucast (sy_total (sym_at c 0))) d) (\<lambda>(code, d).
       if code < escapes
       then bindc (ENET_RANGE_CODER_DECODE 0 (ucast escapes) d) (\<lambda>d. Some (Go (None, c, d)))
       else
         bindc (ENET_CONTEXT_DECODE True 0 (code - escapes) ENET_CONTEXT_SYMBOL_DELTA ENET_CONTEXT_SYMBOL_MINIMUM c)
           (\<lambda>(symbol, v, below, cnt, c).
             bindc (ENET_RANGE_CODER_DECODE (ucast (sy_escapes (sym_at c 0)) + ucast below) (ucast cnt) d) (\<lambda>d.
               bindc (rescale_root cnt c) (\<lambda>c. Some (Go (Some (0, symbol, v), c, d)))))))"

text \<open>The contexts that did not know the value learn it, from the predicted one up to \<open>stop\<close>.\<close>

partial_function (option) patch_contexts ::
  "nat \<Rightarrow> u8 \<Rightarrow> nat \<Rightarrow> parent_ref \<Rightarrow> ENetRangeCoder \<Rightarrow> (parent_ref \<times> ENetRangeCoder) coding option" where
  [code]: "patch_contexts stop v k parent c =
    (if k = stop then Some (Go (parent, c))
     else if k \<ge> ENET_RANGE_CODER_SYMBOLS then None
     else
       bindc (ENET_CONTEXT_ENCODE k v ENET_SUBCONTEXT_SYMBOL_DELTA 0 c) (\<lambda>(symbol, below, cnt, c).
         let c = set_parent parent symbol c;
             c = (if cnt \<le> 0 then count_escape k c else c)
         in bindc (rescale_context k cnt c) (\<lambda>c.
              patch_contexts stop v (unat (sy_parent (sym_at c k))) (ParentOf symbol) c)))"

text \<open>One round: none when the data has ended.\<close>

definition decode_value ::
  "size_t \<Rightarrow> ENetRangeCoder \<Rightarrow> range_decoder \<Rightarrow> u8 list
    \<Rightarrow> (ENetRangeCoder \<times> range_decoder \<times> u8 list) option coding option" where
  "decode_value outLimit c d out =
    bindc (decode_subcontexts (unat (rc_predicted c)) c d) (\<lambda>(found, c, d).
      bindc (if found = None then decode_root c d else Some (Go (found, c, d))) (\<lambda>(found, c, d).
        case found of
          None \<Rightarrow> Some (Go None)
        | Some (subcontext, bottom, v) \<Rightarrow>
            bindc (patch_contexts subcontext v (unat (rc_predicted c)) ParentPredicted c) (\<lambda>(parent, c).
              bindc (ENET_RANGE_CODER_OUTPUT outLimit v out) (\<lambda>out.
                bindc (next_input (set_parent parent bottom c)) (\<lambda>c. Some (Go (Some (c, d, out))))))))"

partial_function (option) decompress_loop ::
  "size_t \<Rightarrow> ENetRangeCoder \<Rightarrow> range_decoder \<Rightarrow> u8 list \<Rightarrow> u8 list coding option" where
  [code]: "decompress_loop outLimit c d out =
    bindc (decode_value outLimit c d out) (\<lambda>r.
      case r of None \<Rightarrow> Some (Go out) | Some (c, d, out) \<Rightarrow> decompress_loop outLimit c d out)"

definition enet_range_coder_decompress ::
  "symbol_array option \<Rightarrow> u8 list \<Rightarrow> size_t \<Rightarrow> u8 list option" where
  "enet_range_coder_decompress rangeCoder inData outLimit =
    (case rangeCoder of
       None \<Rightarrow> Some []
     | Some mem \<Rightarrow>
        if inData = [] then Some []
        else
          (case bindc (start_coder mem) (\<lambda>c.
                  decompress_loop outLimit c
                    (ENET_RANGE_CODER_SEED \<lparr>rd_low = 0, rd_code = 0, rd_range = - 1, rd_in = inData\<rparr>) []) of
             None \<Rightarrow> None
           | Some Return0 \<Rightarrow> Some []
           | Some (Go out) \<Rightarrow> Some out))"

section \<open>The coder as a host's compressor\<close>

text \<open>
  The array \<^verbatim>\<open>enet_malloc\<close> returns is not initialised: its contents is an argument. Data without
  a defined result makes the compressor of the model yield nothing.
\<close>

definition enet_range_coder_create :: "symbol_array \<Rightarrow> 'a enet_env_scheme \<Rightarrow> symbol_array option \<times> 'a enet_env_scheme" where
  "enet_range_coder_create mem s = (let (ok, s) = enet_malloc s in (if ok then Some mem else None, s))"

definition range_coder_compressor :: "symbol_array \<Rightarrow> nat \<Rightarrow> ENetCompressor" where
  "range_coder_compressor mem destroy =
    \<lparr>cp_compress = Some (\<lambda>inBuffers inLimit outLimit.
        case enet_range_coder_compress (Some mem) inBuffers inLimit outLimit of None \<Rightarrow> [] | Some out \<Rightarrow> out),
     cp_decompress = Some (\<lambda>inData outLimit.
        case enet_range_coder_decompress (Some mem) inData outLimit of None \<Rightarrow> [] | Some out \<Rightarrow> out),
     cp_destroy = Some destroy\<rparr>"

definition enet_host_compress_with_range_coder :: "symbol_array \<Rightarrow> nat \<Rightarrow> ENetHost \<Rightarrow> int \<times> ENetHost" where
  "enet_host_compress_with_range_coder mem destroy h =
    (let (context, h) = enet_range_coder_create mem h in
     case context of
       None \<Rightarrow> (-1, h)
     | Some mem \<Rightarrow> (0, enet_host_compress (Some (range_coder_compressor mem destroy)) h))"

end
