(* ===== verification/ENet_Contexts.thy ===== *)
theory ENet_Contexts
  imports ENet_Compress
begin

text \<open>
  The contexts of the range coder without their pointers: the binary indexed tree of a context as
  a datatype, how it lies in the array of symbols, and that counting a value and rescaling do on
  the array what they do on the tree.
\<close>

section \<open>Trees\<close>

text \<open>Left subtree, value, count, count of the value and the left subtree, right subtree.\<close>

datatype ctx_tree = Tip | Bin ctx_tree u8 u8 u16 ctx_tree

fun tree_values :: "ctx_tree \<Rightarrow> u8 set" where
  "tree_values Tip = {}"
| "tree_values (Bin l v n u r) = insert v (tree_values l \<union> tree_values r)"

fun tree_sorted :: "ctx_tree \<Rightarrow> bool" where
  "tree_sorted Tip \<longleftrightarrow> True"
| "tree_sorted (Bin l v n u r) \<longleftrightarrow> tree_sorted l \<and> tree_sorted r \<and> (\<forall>x \<in> tree_values l. x < v) \<and> (\<forall>x \<in> tree_values r. v < x)"

fun tree_count :: "u8 \<Rightarrow> u8 \<Rightarrow> u16 \<Rightarrow> u16 \<Rightarrow> ctx_tree \<Rightarrow> u16 \<times> u16 \<times> ctx_tree" where
  "tree_count v update below cnt Tip = (below, cnt, Bin Tip v update (ucast update) Tip)"
| "tree_count v update below cnt (Bin l w n u r) =
    (if v < w then (case tree_count v update below cnt l of (b, k, l') \<Rightarrow> (b, k, Bin l' w n (u + ucast update) r))
     else if v > w then (case tree_count v update (below + u) cnt r of (b, k, r') \<Rightarrow> (b, k, Bin l w n u r'))
     else (below + (u - ucast n), cnt + ucast n, Bin l w (n + update) (u + ucast update) r))"

fun tree_rescale :: "ctx_tree \<Rightarrow> u16 \<times> ctx_tree" where
  "tree_rescale Tip = (0, Tip)"
| "tree_rescale (Bin l w n u r) =
    (let n' = n - drop_bit 1 n; (a, l') = tree_rescale l; u' = ucast n' + a; (b, r') = tree_rescale r
     in (u' + b, Bin l' w n' u' r'))"

section \<open>Trees in the array\<close>

text \<open>\<open>f\<close> gives the index of the symbol of each value.\<close>

fun linked :: "nat \<Rightarrow> u16 \<Rightarrow> (u8 \<Rightarrow> nat) \<Rightarrow> ctx_tree \<Rightarrow> bool" where
  "linked k off f Tip \<longleftrightarrow> off = 0"
| "linked k off f (Bin l v n u r) \<longleftrightarrow> off \<noteq> 0 \<and> k + unat off = f v"

fun tree_rep :: "symbol_array \<Rightarrow> (u8 \<Rightarrow> nat) \<Rightarrow> ctx_tree \<Rightarrow> bool" where
  "tree_rep S f Tip \<longleftrightarrow> True"
| "tree_rep S f (Bin l v n u r) \<longleftrightarrow> f v < ENET_RANGE_CODER_SYMBOLS
     \<and> sy_value (S (f v)) = v \<and> sy_count (S (f v)) = n \<and> sy_under (S (f v)) = u
     \<and> linked (f v) (sy_left (S (f v))) f l \<and> linked (f v) (sy_right (S (f v))) f r
     \<and> tree_rep S f l \<and> tree_rep S f r"

lemma tree_link_cong: "(\<And>v. v \<in> tree_values t \<Longrightarrow> f v = g v) \<Longrightarrow> linked k off f t = linked k off g t"
  by (cases t) auto

lemma tree_rep_cong:
  "(\<And>v. v \<in> tree_values t \<Longrightarrow> f v = g v \<and> S (f v) = S' (g v)) \<Longrightarrow> tree_rep S f t = tree_rep S' g t"
proof (induction t)
  case (Bin l v n u r)
  have "linked k off f l = linked k off g l" "linked k off f r = linked k off g r" for k off
    by (rule tree_link_cong; use Bin.prems in simp)+
  moreover have "tree_rep S f l = tree_rep S' g l" by (rule Bin.IH(1), rule Bin.prems, simp)
  moreover have "tree_rep S f r = tree_rep S' g r" by (rule Bin.IH(2), rule Bin.prems, simp)
  moreover have "f v = g v" "S (g v) = S' (g v)" using Bin.prems [of v] by auto
  ultimately show ?case by simp
qed simp

text \<open>The fields of a symbol that belong to the context it defines.\<close>

definition context_part :: "ENetSymbol \<Rightarrow> u8 \<times> u16 \<times> u16 \<times> u16 \<times> u16" where
  "context_part s = (sy_value s, sy_symbols s, sy_escapes s, sy_total s, sy_parent s)"

lemma upd_sym_fields [simp]:
  "rc_nextSymbol (upd_sym k g c) = rc_nextSymbol c" "rc_predicted (upd_sym k g c) = rc_predicted c"
  "rc_order (upd_sym k g c) = rc_order c" "rc_symbols (upd_sym k g c) = (rc_symbols c)(k := g (rc_symbols c k))"
  by (simp_all add: upd_sym_def)

text \<open>
  What counting \<open>v\<close> in the tree at \<open>f\<close> may change: the nodes of the tree, in the fields that
  belong to the tree, and the next free symbol if \<open>v\<close> is new.
\<close>

definition tree_frame :: "(u8 \<Rightarrow> nat) \<Rightarrow> u8 set \<Rightarrow> ENetRangeCoder \<Rightarrow> ENetRangeCoder \<Rightarrow> bool" where
  "tree_frame f V c c' \<longleftrightarrow> rc_predicted c' = rc_predicted c \<and> rc_order c' = rc_order c
     \<and> (\<forall>j. j \<notin> f ` V \<longrightarrow> j \<noteq> rc_nextSymbol c \<longrightarrow> rc_symbols c' j = rc_symbols c j)
     \<and> (\<forall>j. j \<noteq> rc_nextSymbol c \<longrightarrow> context_part (rc_symbols c' j) = context_part (rc_symbols c j))"

definition grown :: "(u8 \<Rightarrow> nat) \<Rightarrow> u8 \<Rightarrow> ctx_tree \<Rightarrow> ENetRangeCoder \<Rightarrow> ENetRangeCoder \<Rightarrow> bool" where
  "grown f v t c c' \<longleftrightarrow> tree_frame f (tree_values t) c c' \<and>
     (if v \<in> tree_values t
      then rc_nextSymbol c' = rc_nextSymbol c \<and> rc_symbols c' (rc_nextSymbol c) = rc_symbols c (rc_nextSymbol c)
      else rc_nextSymbol c' = rc_nextSymbol c + 1 \<and> context_part (rc_symbols c' (rc_nextSymbol c)) = (v, 0, 0, 0, 0))"

text \<open>The index map once \<open>v\<close> is in the tree.\<close>

definition with_value :: "(u8 \<Rightarrow> nat) \<Rightarrow> u8 \<Rightarrow> ctx_tree \<Rightarrow> nat \<Rightarrow> u8 \<Rightarrow> nat" where
  "with_value f v t k = (if v \<in> tree_values t then f else f(v := k))"

definition room_for :: "(u8 \<Rightarrow> nat) \<Rightarrow> u8 \<Rightarrow> ctx_tree \<Rightarrow> ENetRangeCoder \<Rightarrow> bool" where
  "room_for f v t c \<longleftrightarrow> inj_on f (tree_values t) \<and> (\<forall>x \<in> tree_values t. f x < rc_nextSymbol c)
     \<and> (v \<notin> tree_values t \<longrightarrow> rc_nextSymbol c < ENET_RANGE_CODER_SYMBOLS)"

lemma with_value_old: "x \<in> tree_values t \<Longrightarrow> with_value f v t k x = f x"
  by (auto simp: with_value_def)

lemma new_link: "k < s \<Longrightarrow> s < ENET_RANGE_CODER_SYMBOLS \<Longrightarrow>
    (of_nat s - of_nat k :: u16) \<noteq> 0 \<and> k + unat (of_nat s - of_nat k :: u16) = s"
proof -
  assume a: "k < s" "s < ENET_RANGE_CODER_SYMBOLS"
  then have e: "(of_nat s - of_nat k :: u16) = of_nat (s - k)" by (simp add: of_nat_diff)
  have "unat (of_nat (s - k) :: u16) = s - k"
    using a by (simp add: ENET_RANGE_CODER_SYMBOLS_def unsigned_of_nat take_bit_nat_eq_self del: of_nat_diff)
  then show ?thesis using a unfolding e by (metis le_add_diff_inverse less_imp_le less_not_refl2 unsigned_0 zero_less_diff)
qed

lemma symbol_create:
  "rc_nextSymbol c < ENET_RANGE_CODER_SYMBOLS \<Longrightarrow> ENET_SYMBOL_CREATE v n c =
     Some (Go (rc_nextSymbol c, upd_sym (rc_nextSymbol c) (\<lambda>_. fresh_symbol v n) (c\<lparr>rc_nextSymbol := rc_nextSymbol c + 1\<rparr>)))"
  by (simp add: ENET_SYMBOL_CREATE_def Let_def)

text \<open>The tree grows below the node \<open>k\<close>: the frame of the subtree is a frame of the whole.\<close>

lemma tree_frame_widen:
  "tree_frame f V c1 c' \<Longrightarrow> V \<subseteq> W \<Longrightarrow> k \<in> f ` W \<Longrightarrow>
   c1 = upd_sym k g c \<Longrightarrow> (\<And>s. context_part (g s) = context_part s) \<Longrightarrow> tree_frame f W c c'"
  unfolding tree_frame_def by (auto simp: fun_upd_def image_iff split: if_splits) blast+

lemma room_forD:
  "room_for f v t c \<Longrightarrow> x \<in> tree_values t \<Longrightarrow> f x < rc_nextSymbol c"
  "room_for f v t c \<Longrightarrow> x \<in> tree_values t \<Longrightarrow> y \<in> tree_values t \<Longrightarrow> f x = f y \<longleftrightarrow> x = y"
  by (auto simp: room_for_def dest: inj_onD)

lemma room_for_subtree:
  assumes "room_for f v t c" "tree_values t' \<subseteq> tree_values t" "v \<in> tree_values t' \<longleftrightarrow> v \<in> tree_values t"
  shows "room_for f v t' (upd_sym k g c)"
  using assms by (auto simp: room_for_def intro: inj_on_subset)

fun top_value :: "ctx_tree \<Rightarrow> u8" where
  "top_value (Bin l v n u r) = v"
| "top_value Tip = 0"

text \<open>The node at \<open>k\<close> after the value has been counted below it.\<close>

definition counted_below :: "(u8 \<Rightarrow> nat) \<Rightarrow> ctx_tree \<Rightarrow> nat \<Rightarrow> u8 \<Rightarrow> ENetRangeCoder \<Rightarrow> ENetRangeCoder \<Rightarrow> bool" where
  "counted_below f t k v c c' \<longleftrightarrow> rc_predicted c' = rc_predicted c \<and> rc_order c' = rc_order c
     \<and> (\<forall>j. j \<notin> f ` tree_values t \<longrightarrow> j \<noteq> rc_nextSymbol c \<longrightarrow> j \<noteq> k \<longrightarrow> rc_symbols c' j = rc_symbols c j)
     \<and> (\<forall>j. j \<noteq> rc_nextSymbol c \<longrightarrow> context_part (rc_symbols c' j) = context_part (rc_symbols c j))
     \<and> (if v \<in> tree_values t
        then rc_nextSymbol c' = rc_nextSymbol c \<and> rc_symbols c' (rc_nextSymbol c) = rc_symbols c (rc_nextSymbol c)
        else rc_nextSymbol c' = rc_nextSymbol c + 1 \<and> context_part (rc_symbols c' (rc_nextSymbol c)) = (v, 0, 0, 0, 0))"

lemma grown_counted_below:
  "grown f v t (upd_sym k g c) c' \<Longrightarrow> (\<And>s. context_part (g s) = context_part s) \<Longrightarrow> k \<noteq> rc_nextSymbol c \<Longrightarrow>
   counted_below f t k v c c'"
  by (auto simp: grown_def tree_frame_def counted_below_def)

lemma created_counted_below:
  assumes "k < rc_nextSymbol c" "\<And>s. context_part (g s) = context_part s" "\<And>s. context_part (h s) = context_part s"
  shows "counted_below f Tip k v c (upd_sym k h (upd_sym (rc_nextSymbol c) (\<lambda>_. fresh_symbol v n)
    (upd_sym k g c\<lparr>rc_nextSymbol := rc_nextSymbol c + 1\<rparr>)))"
  using assms by (auto simp: counted_below_def) (simp_all add: context_part_def fresh_symbol_def)

lemma counted_below_grown:
  assumes "counted_below f t k v c c'" "tree_values t \<subseteq> tree_values t'" "k \<in> f ` tree_values t'"
    and "v \<in> tree_values t \<longleftrightarrow> v \<in> tree_values t'"
  shows "grown f v t' c c'"
  using assms unfolding counted_below_def grown_def tree_frame_def by (simp; blast)

lemma context_encode_from_less:
  assumes "k < ENET_RANGE_CODER_SYMBOLS" "v < sy_value (rc_symbols c k)"
  shows "context_encode_from k v update below cnt c =
    (let c1 = upd_sym k (\<lambda>n. n\<lparr>sy_under := sy_under n + ucast update\<rparr>) c
     in if sy_left (rc_symbols c k) \<noteq> 0 then context_encode_from (k + unat (sy_left (rc_symbols c k))) v update below cnt c1
        else bindc (ENET_SYMBOL_CREATE v update c1)
               (\<lambda>(s, c). Some (Go (s, below, cnt, upd_sym k (\<lambda>n. n\<lparr>sy_left := of_nat s - of_nat k\<rparr>) c))))"
  using assms by (subst context_encode_from.simps) (simp add: sym_at_def Let_def)

lemma context_encode_from_greater:
  assumes "k < ENET_RANGE_CODER_SYMBOLS" "sy_value (rc_symbols c k) < v"
  shows "context_encode_from k v update below cnt c =
    (let below = below + sy_under (rc_symbols c k)
     in if sy_right (rc_symbols c k) \<noteq> 0 then context_encode_from (k + unat (sy_right (rc_symbols c k))) v update below cnt c
        else bindc (ENET_SYMBOL_CREATE v update c)
               (\<lambda>(s, c). Some (Go (s, below, cnt, upd_sym k (\<lambda>n. n\<lparr>sy_right := of_nat s - of_nat k\<rparr>) c))))"
  using assms by (subst context_encode_from.simps) (auto simp: sym_at_def Let_def)

lemma context_encode_from_equal:
  assumes "k < ENET_RANGE_CODER_SYMBOLS" "sy_value (rc_symbols c k) = v"
  shows "context_encode_from k v update below cnt c =
    Some (Go (k, below + (sy_under (rc_symbols c k) - ucast (sy_count (rc_symbols c k))), cnt + ucast (sy_count (rc_symbols c k)),
      upd_sym k (\<lambda>n. n\<lparr>sy_under := sy_under n + ucast update, sy_count := sy_count n + update\<rparr>) c))"
  using assms by (subst context_encode_from.simps) (simp add: sym_at_def Let_def)

text \<open>Counting \<open>v\<close> from a node: what is required, and what results.\<close>

definition encode_pre :: "(u8 \<Rightarrow> nat) \<Rightarrow> u8 \<Rightarrow> ctx_tree \<Rightarrow> ENetRangeCoder \<Rightarrow> bool" where
  "encode_pre f v t c \<longleftrightarrow> tree_rep (rc_symbols c) f t \<and> tree_sorted t \<and> room_for f v t c"

definition encode_post ::
  "(u8 \<Rightarrow> nat) \<Rightarrow> u8 \<Rightarrow> u8 \<Rightarrow> u16 \<Rightarrow> u16 \<Rightarrow> ctx_tree \<Rightarrow> nat \<Rightarrow> ENetRangeCoder \<Rightarrow> bool" where
  "encode_post f v update below cnt t k c \<longleftrightarrow> (\<exists>c'.
     (case tree_count v update below cnt t of (b, m, t') \<Rightarrow>
        context_encode_from k v update below cnt c = Some (Go (with_value f v t (rc_nextSymbol c) v, b, m, c'))
        \<and> tree_rep (rc_symbols c') (with_value f v t (rc_nextSymbol c)) t' \<and> top_value t' = top_value t)
     \<and> grown f v t c c')"

text \<open>As \<open>encode_post\<close>, for the subtree below the node \<open>k\<close> that \<open>g\<close> and the new link change.\<close>

definition child_post ::
  "(u8 \<Rightarrow> nat) \<Rightarrow> u8 \<Rightarrow> u8 \<Rightarrow> u16 \<Rightarrow> u16 \<Rightarrow> ctx_tree \<Rightarrow> nat \<Rightarrow> (u16 \<Rightarrow> ENetSymbol)
    \<Rightarrow> (nat \<times> u16 \<times> u16 \<times> ENetRangeCoder) coding option \<Rightarrow> ENetRangeCoder \<Rightarrow> bool" where
  "child_post f v update below cnt t k node r c \<longleftrightarrow> (\<exists>c' off.
     (case tree_count v update below cnt t of (b, m, t') \<Rightarrow>
        r = Some (Go (with_value f v t (rc_nextSymbol c) v, b, m, c'))
        \<and> tree_rep (rc_symbols c') (with_value f v t (rc_nextSymbol c)) t'
        \<and> linked k off (with_value f v t (rc_nextSymbol c)) t')
     \<and> rc_symbols c' k = node off \<and> counted_below f t k v c c')"

lemma child_postE:
  assumes "child_post f v update below cnt t k node r c"
  obtains b m t' c' off where "tree_count v update below cnt t = (b, m, t')"
    "r = Some (Go (with_value f v t (rc_nextSymbol c) v, b, m, c'))"
    "tree_rep (rc_symbols c') (with_value f v t (rc_nextSymbol c)) t'" "linked k off (with_value f v t (rc_nextSymbol c)) t'"
    "rc_symbols c' k = node off" "counted_below f t k v c c'"
proof -
  obtain b m t' where t': "tree_count v update below cnt t = (b, m, t')" by (metis prod_cases3)
  with assms show ?thesis by (auto simp: child_post_def intro: that)
qed

lemma upd_sym_id [simp]: "upd_sym k (\<lambda>n. n) c = c"
  by (simp add: upd_sym_def)

lemma child_created:
  assumes new: "rc_nextSymbol c < ENET_RANGE_CODER_SYMBOLS" "k < rc_nextSymbol c"
    and g: "\<And>s. context_part (g s) = context_part s" "\<And>x s. context_part (h x s) = context_part s"
  shows "child_post f v update below cnt Tip k (\<lambda>off. h off (g (rc_symbols c k)))
    (bindc (ENET_SYMBOL_CREATE v update (upd_sym k g c))
       (\<lambda>(s, c). Some (Go (s, below, cnt, upd_sym k (h (of_nat s - of_nat k)) c)))) c"
proof -
  let ?new = "rc_nextSymbol c"
  define off :: u16 where "off = of_nat ?new - of_nat k"
  define c' where "c' = upd_sym k (h off) (upd_sym ?new (\<lambda>_. fresh_symbol v update) (upd_sym k g c\<lparr>rc_nextSymbol := ?new + 1\<rparr>))"
  have "bindc (ENET_SYMBOL_CREATE v update (upd_sym k g c))
       (\<lambda>(s, c). Some (Go (s, below, cnt, upd_sym k (h (of_nat s - of_nat k)) c))) = Some (Go (?new, below, cnt, c'))"
    using new by (simp add: symbol_create c'_def off_def)
  moreover have "rc_symbols c' k = h off (g (rc_symbols c k))" using new by (simp add: c'_def)
  moreover have "tree_rep (rc_symbols c') (with_value f v Tip ?new) (Bin Tip v update (ucast update) Tip)"
    "linked k off (with_value f v Tip ?new) (Bin Tip v update (ucast update) Tip)"
    using new new_link [OF new(2,1)] by (simp_all add: c'_def fresh_symbol_def off_def with_value_def)
  moreover have "counted_below f Tip k v c c'" unfolding c'_def
    by (rule created_counted_below) (simp_all add: new g)
  moreover have "with_value f v Tip ?new v = ?new" by (simp add: with_value_def)
  ultimately show ?thesis unfolding child_post_def by auto
qed

lemma child_counted:
  assumes post: "encode_post f v update below cnt t (f (top_value t)) (upd_sym k g c)"
    and link: "off \<noteq> 0" "k + unat off = f (top_value t)" and t: "t \<noteq> Tip" "k \<notin> f ` tree_values t" "k < rc_nextSymbol c"
    and g: "\<And>s. context_part (g s) = context_part s" "h off (g (rc_symbols c k)) = g (rc_symbols c k)"
  shows "child_post f v update below cnt t k (\<lambda>off. h off (g (rc_symbols c k)))
    (context_encode_from (k + unat off) v update below cnt (upd_sym k g c)) c"
proof -
  obtain b m t' where t': "tree_count v update below cnt t = (b, m, t')" by (metis prod_cases3)
  let ?f = "with_value f v t (rc_nextSymbol c)"
  obtain c' where c': "context_encode_from (f (top_value t)) v update below cnt (upd_sym k g c) = Some (Go (?f v, b, m, c'))"
    "tree_rep (rc_symbols c') ?f t'" "top_value t' = top_value t" "grown f v t (upd_sym k g c) c'"
    using post t' by (auto simp: encode_post_def)
  have "t' \<noteq> Tip" "top_value t \<in> tree_values t" using t' t(1) by (cases t; auto split: if_splits prod.splits)+
  then have "linked k off ?f t'" using link c'(3) with_value_old [of "top_value t" t f v] by (cases t') auto
  moreover have "counted_below f t k v c c'"
    by (rule grown_counted_below [OF c'(4) g(1)]) (use t(3) in simp)
  moreover have "rc_symbols c' k = g (rc_symbols c k)" using c'(4) t by (simp add: grown_def tree_frame_def)
  ultimately show ?thesis using c' link(2) t' g(2) unfolding child_post_def by auto
qed

text \<open>The facts of a node \<open>w\<close> with its subtrees.\<close>

lemma encode_preD:
  assumes "encode_pre f v (Bin l w n u r) c"
  shows "f w < ENET_RANGE_CODER_SYMBOLS" "f w < rc_nextSymbol c" "sy_value (rc_symbols c (f w)) = w"
    "sy_count (rc_symbols c (f w)) = n" "sy_under (rc_symbols c (f w)) = u"
    "linked (f w) (sy_left (rc_symbols c (f w))) f l" "linked (f w) (sy_right (rc_symbols c (f w))) f r"
    "tree_rep (rc_symbols c) f l" "tree_rep (rc_symbols c) f r"
    "f w \<notin> f ` tree_values l" "f w \<notin> f ` tree_values r" "f ` tree_values l \<inter> f ` tree_values r = {}"
    "\<And>x. x \<in> tree_values l \<union> tree_values r \<Longrightarrow> f x < rc_nextSymbol c"
proof -
  have S: "tree_sorted (Bin l w n u r)" and R: "room_for f v (Bin l w n u r) c" using assms by (simp_all add: encode_pre_def)
  note room = room_forD [OF R]
  show "f w < ENET_RANGE_CODER_SYMBOLS" "sy_value (rc_symbols c (f w)) = w"
    "sy_count (rc_symbols c (f w)) = n" "sy_under (rc_symbols c (f w)) = u"
    "linked (f w) (sy_left (rc_symbols c (f w))) f l" "linked (f w) (sy_right (rc_symbols c (f w))) f r"
    "tree_rep (rc_symbols c) f l" "tree_rep (rc_symbols c) f r" "f w < rc_nextSymbol c"
    using assms room(1) [of w] by (simp_all add: encode_pre_def)
  show "f x < rc_nextSymbol c" if "x \<in> tree_values l \<union> tree_values r" for x using room(1) [of x] that by simp
  have "w \<notin> tree_values l" "w \<notin> tree_values r" using S by auto
  then show "f w \<notin> f ` tree_values l" "f w \<notin> f ` tree_values r" using room(2) [of w] by (auto simp: image_iff)
  show "f ` tree_values l \<inter> f ` tree_values r = {}"
  proof (rule ccontr)
    assume "f ` tree_values l \<inter> f ` tree_values r \<noteq> {}"
    then obtain x y where xy: "x \<in> tree_values l" "y \<in> tree_values r" "f x = f y" by auto
    then have "x = y" using room(2) [of x y] by simp
    then have "x < w" "w < x" using S xy by auto
    then show False by simp
  qed
qed

lemma encode_pre_child:
  assumes pre: "encode_pre f v (Bin l w n u r) c" and t: "t = l \<and> v < w \<or> t = r \<and> w < v"
  shows "encode_pre f v t (upd_sym (f w) g c)" "v \<in> tree_values t \<longleftrightarrow> v \<in> tree_values (Bin l w n u r)"
proof -
  note p = encode_preD [OF pre]
  have S: "tree_sorted (Bin l w n u r)" and R: "room_for f v (Bin l w n u r) c" using pre by (simp_all add: encode_pre_def)
  show v: "v \<in> tree_values t \<longleftrightarrow> v \<in> tree_values (Bin l w n u r)" using t S by auto
  have "room_for f v t (upd_sym (f w) g c)" by (rule room_for_subtree [OF R _ v]) (use t in auto)
  moreover have "tree_rep ((rc_symbols c)(f w := g (rc_symbols c (f w)))) f t = tree_rep (rc_symbols c) f t"
    by (rule tree_rep_cong) (use p(10,11) t in \<open>auto simp: image_iff\<close>)
  ultimately show "encode_pre f v t (upd_sym (f w) g c)" using t S p(8,9) by (auto simp: encode_pre_def)
qed

text \<open>The subtree that is not searched is as before.\<close>

lemma other_child:
  assumes below: "counted_below f t k v c c'" and "f ` tree_values t \<inter> f ` tree_values s = {}" "k \<notin> f ` tree_values s"
    and "\<And>x. x \<in> tree_values s \<Longrightarrow> f x < rc_nextSymbol c" and f': "\<And>x. x \<in> tree_values s \<Longrightarrow> f' x = f x"
  shows "tree_rep (rc_symbols c') f' s = tree_rep (rc_symbols c) f s" "linked j off f' s = linked j off f s"
proof -
  show "tree_rep (rc_symbols c') f' s = tree_rep (rc_symbols c) f s"
  proof (rule tree_rep_cong)
    fix x assume x: "x \<in> tree_values s"
    then have "f x \<notin> f ` tree_values t" "f x \<noteq> k" "f x \<noteq> rc_nextSymbol c" using assms(2,3) assms(4) [OF x] by (auto simp: image_iff)
    then show "f' x = f x \<and> rc_symbols c' (f' x) = rc_symbols c (f x)" using below f' [OF x] by (simp add: counted_below_def)
  qed
  show "linked j off f' s = linked j off f s" by (rule tree_link_cong) (rule f')
qed

lemma encode_left:
  assumes pre: "encode_pre f v (Bin l w n u r) c" and v: "v < w"
    and IH: "\<And>c. l \<noteq> Tip \<Longrightarrow> encode_pre f v l c \<Longrightarrow> encode_post f v update below cnt l (f (top_value l)) c"
  shows "encode_post f v update below cnt (Bin l w n u r) (f w) c"
proof -
  note p = encode_preD [OF pre]
  let ?t = "Bin l w n u r"
  define g :: "ENetSymbol \<Rightarrow> ENetSymbol" where "g = (\<lambda>n. n\<lparr>sy_under := sy_under n + ucast update\<rparr>)"
  define h :: "u16 \<Rightarrow> ENetSymbol \<Rightarrow> ENetSymbol" where "h = (\<lambda>off n. n\<lparr>sy_left := off\<rparr>)"
  have gh: "context_part (g s) = context_part s" "context_part (h x s) = context_part s" for x s
    by (simp_all add: g_def h_def context_part_def)
  have vl: "v \<in> tree_values l \<longleftrightarrow> v \<in> tree_values ?t" by (rule encode_pre_child(2) [OF pre]) (use v in simp)
  have e: "context_encode_from (f w) v update below cnt c =
     (if sy_left (rc_symbols c (f w)) \<noteq> 0 then context_encode_from (f w + unat (sy_left (rc_symbols c (f w)))) v update below cnt (upd_sym (f w) g c)
      else bindc (ENET_SYMBOL_CREATE v update (upd_sym (f w) g c))
             (\<lambda>(s, c). Some (Go (s, below, cnt, upd_sym (f w) (h (of_nat s - of_nat (f w))) c))))"
    using p v by (subst context_encode_from_less) (simp_all add: Let_def g_def h_def)
  have "child_post f v update below cnt l (f w) (\<lambda>off. h off (g (rc_symbols c (f w))))
      (context_encode_from (f w) v update below cnt c) c"
  proof (cases "l = Tip")
    case True
    moreover have "sy_left (rc_symbols c (f w)) = 0" using p(6) True by simp
    moreover have "rc_nextSymbol c < ENET_RANGE_CODER_SYMBOLS" using pre vl True by (simp add: encode_pre_def room_for_def)
    ultimately show ?thesis unfolding e using child_created [of c "f w" g h] gh p(2) by simp
  next
    case False
    then have link: "sy_left (rc_symbols c (f w)) \<noteq> 0" "f w + unat (sy_left (rc_symbols c (f w))) = f (top_value l)"
      using p(6) by (cases l; simp)+
    have "encode_post f v update below cnt l (f (top_value l)) (upd_sym (f w) g c)"
      by (rule IH [OF False encode_pre_child(1) [OF pre]]) (use v in simp)
    from child_counted [OF this link False p(10,2) gh(1), of h]
    show ?thesis unfolding e using link(1) by (simp add: g_def h_def)
  qed
  then obtain b m l' c' off where c': "tree_count v update below cnt l = (b, m, l')"
    "context_encode_from (f w) v update below cnt c = Some (Go (with_value f v l (rc_nextSymbol c) v, b, m, c'))"
    "tree_rep (rc_symbols c') (with_value f v l (rc_nextSymbol c)) l'" "linked (f w) off (with_value f v l (rc_nextSymbol c)) l'"
    "rc_symbols c' (f w) = h off (g (rc_symbols c (f w)))" "counted_below f l (f w) v c c'"
    by (rule child_postE)
  define f' where "f' = with_value f v ?t (rc_nextSymbol c)"
  have f': "with_value f v l (rc_nextSymbol c) = f'" using vl by (simp add: f'_def with_value_def)
  have old: "x \<in> tree_values ?t \<Longrightarrow> f' x = f x" for x by (simp only: f'_def with_value_old)
  note other = other_child [OF c'(6) p(12,11), of f']
  have "tree_rep (rc_symbols c') f' (Bin l' w n (u + ucast update) r)"
    using c'(3-5) p old [of w] other old by (simp add: f' g_def h_def)
  moreover have "grown f v ?t c c'" by (rule counted_below_grown [OF c'(6) _ _ vl]) auto
  ultimately show ?thesis
    using c'(1,2) v f' by (auto simp: encode_post_def f'_def)
qed

lemma encode_right:
  assumes pre: "encode_pre f v (Bin l w n u r) c" and v: "w < v"
    and IH: "\<And>c. r \<noteq> Tip \<Longrightarrow> encode_pre f v r c \<Longrightarrow> encode_post f v update (below + u) cnt r (f (top_value r)) c"
  shows "encode_post f v update below cnt (Bin l w n u r) (f w) c"
proof -
  note p = encode_preD [OF pre]
  let ?t = "Bin l w n u r"
  define g :: "ENetSymbol \<Rightarrow> ENetSymbol" where "g = (\<lambda>n. n)"
  define h :: "u16 \<Rightarrow> ENetSymbol \<Rightarrow> ENetSymbol" where "h = (\<lambda>off n. n\<lparr>sy_right := off\<rparr>)"
  have gh: "context_part (g s) = context_part s" "context_part (h x s) = context_part s" for x s
    by (simp_all add: g_def h_def context_part_def)
  have vr: "v \<in> tree_values r \<longleftrightarrow> v \<in> tree_values ?t" by (rule encode_pre_child(2) [OF pre]) (use v in simp)
  have e: "context_encode_from (f w) v update below cnt c =
     (if sy_right (rc_symbols c (f w)) \<noteq> 0 then context_encode_from (f w + unat (sy_right (rc_symbols c (f w)))) v update (below + u) cnt (upd_sym (f w) g c)
      else bindc (ENET_SYMBOL_CREATE v update (upd_sym (f w) g c))
             (\<lambda>(s, c). Some (Go (s, below + u, cnt, upd_sym (f w) (h (of_nat s - of_nat (f w))) c))))"
    using p v by (subst context_encode_from_greater) (simp_all add: Let_def g_def h_def)
  have "child_post f v update (below + u) cnt r (f w) (\<lambda>off. h off (g (rc_symbols c (f w))))
      (context_encode_from (f w) v update below cnt c) c"
  proof (cases "r = Tip")
    case True
    moreover have "sy_right (rc_symbols c (f w)) = 0" using p(7) True by simp
    moreover have "rc_nextSymbol c < ENET_RANGE_CODER_SYMBOLS" using pre vr True by (simp add: encode_pre_def room_for_def)
    ultimately show ?thesis unfolding e using child_created [of c "f w" g h] gh p(2) by simp
  next
    case False
    then have link: "sy_right (rc_symbols c (f w)) \<noteq> 0" "f w + unat (sy_right (rc_symbols c (f w))) = f (top_value r)"
      using p(7) by (cases r; simp)+
    have "encode_post f v update (below + u) cnt r (f (top_value r)) (upd_sym (f w) g c)"
      by (rule IH [OF False encode_pre_child(1) [OF pre]]) (use v in simp)
    from child_counted [OF this link False p(11,2) gh(1), of h]
    show ?thesis unfolding e using link(1) by (simp add: g_def h_def)
  qed
  then obtain b m r' c' off where c': "tree_count v update (below + u) cnt r = (b, m, r')"
    "context_encode_from (f w) v update below cnt c = Some (Go (with_value f v r (rc_nextSymbol c) v, b, m, c'))"
    "tree_rep (rc_symbols c') (with_value f v r (rc_nextSymbol c)) r'" "linked (f w) off (with_value f v r (rc_nextSymbol c)) r'"
    "rc_symbols c' (f w) = h off (g (rc_symbols c (f w)))" "counted_below f r (f w) v c c'"
    by (rule child_postE)
  define f' where "f' = with_value f v ?t (rc_nextSymbol c)"
  have f': "with_value f v r (rc_nextSymbol c) = f'" using vr by (simp add: f'_def with_value_def)
  have old: "x \<in> tree_values ?t \<Longrightarrow> f' x = f x" for x by (simp only: f'_def with_value_old)
  note other = other_child [OF c'(6) _ p(10), of f', unfolded Int_commute [of "f ` tree_values r"], OF p(12)]
  have "tree_rep (rc_symbols c') f' (Bin l w n u r')"
    using c'(3-5) p old [of w] other old by (simp add: f' g_def h_def)
  moreover have "grown f v ?t c c'" by (rule counted_below_grown [OF c'(6) _ _ vr]) auto
  ultimately show ?thesis
    using c'(1,2) v f' by (auto simp: encode_post_def f'_def)
qed

lemma encode_equal:
  assumes pre: "encode_pre f w (Bin l w n u r) c"
  shows "encode_post f w update below cnt (Bin l w n u r) (f w) c"
proof -
  note p = encode_preD [OF pre]
  define g :: "ENetSymbol \<Rightarrow> ENetSymbol" where
    "g = (\<lambda>n. n\<lparr>sy_under := sy_under n + ucast update, sy_count := sy_count n + update\<rparr>)"
  have g: "context_part (g s) = context_part s" for s by (simp add: g_def context_part_def)
  have "context_encode_from (f w) w update below cnt c =
      Some (Go (f w, below + (u - ucast n), cnt + ucast n, upd_sym (f w) g c))"
    using p by (subst context_encode_from_equal) (simp_all add: g_def)
  moreover have "tree_rep ((rc_symbols c)(f w := g (rc_symbols c (f w)))) f l = tree_rep (rc_symbols c) f l"
    "tree_rep ((rc_symbols c)(f w := g (rc_symbols c (f w)))) f r = tree_rep (rc_symbols c) f r"
    using p(10,11) by (intro tree_rep_cong; auto simp: image_iff)+
  moreover have "grown f w (Bin l w n u r) c (upd_sym (f w) g c)"
    using p(2) g by (auto simp: grown_def tree_frame_def)
  ultimately show ?thesis using p by (auto simp: encode_post_def with_value_def g_def)
qed

lemma context_encode_from_spec:
  "encode_pre f v t c \<Longrightarrow> t \<noteq> Tip \<Longrightarrow> encode_post f v update below cnt t (f (top_value t)) c"
proof (induction t arbitrary: c below)
  case (Bin l w n u r)
  show ?case
    using encode_left [OF Bin.prems(1) _ Bin.IH(1)] encode_right [OF Bin.prems(1) _ Bin.IH(2)] encode_equal [of f v l n u r c] Bin.prems(1)
    by (cases v w rule: linorder_cases) auto
qed simp

section \<open>A whole context\<close>

text \<open>The tree of the context at \<open>k\<close>.\<close>

definition context_rep :: "ENetRangeCoder \<Rightarrow> nat \<Rightarrow> (u8 \<Rightarrow> nat) \<Rightarrow> ctx_tree \<Rightarrow> bool" where
  "context_rep c k f t \<longleftrightarrow> linked k (sy_symbols (rc_symbols c k)) f t \<and> tree_rep (rc_symbols c) f t"

text \<open>
  Counting a value in the context at \<open>k\<close> leaves alone what does not belong to its tree, except for
  the link to a first node.
\<close>

definition context_grown :: "nat \<Rightarrow> (u8 \<Rightarrow> nat) \<Rightarrow> u8 \<Rightarrow> ctx_tree \<Rightarrow> ENetRangeCoder \<Rightarrow> ENetRangeCoder \<Rightarrow> bool" where
  "context_grown k f v t c c' \<longleftrightarrow> rc_predicted c' = rc_predicted c \<and> rc_order c' = rc_order c
     \<and> (\<forall>j. j \<notin> f ` tree_values t \<longrightarrow> j \<noteq> rc_nextSymbol c \<longrightarrow> j \<noteq> k \<longrightarrow> rc_symbols c' j = rc_symbols c j)
     \<and> (\<forall>j. j \<noteq> rc_nextSymbol c \<longrightarrow> j \<noteq> k \<longrightarrow> context_part (rc_symbols c' j) = context_part (rc_symbols c j))
     \<and> (\<exists>x. rc_symbols c' k = (rc_symbols c k)\<lparr>sy_symbols := x\<rparr>)
     \<and> (if v \<in> tree_values t then rc_nextSymbol c' = rc_nextSymbol c
        else rc_nextSymbol c' = rc_nextSymbol c + 1 \<and> context_part (rc_symbols c' (rc_nextSymbol c)) = (v, 0, 0, 0, 0))"

lemma context_encode_spec:
  assumes rep: "context_rep c k f t" and t: "tree_sorted t" "room_for f v t c"
    and k: "k \<notin> f ` tree_values t" "k < rc_nextSymbol c" and b: "tree_count v update (ucast v * minimum) minimum t = (b, m, t')"
  shows "\<exists>c'. ENET_CONTEXT_ENCODE k v update minimum c = Some (Go (with_value f v t (rc_nextSymbol c) v, b, m, c'))
    \<and> context_rep c' k (with_value f v t (rc_nextSymbol c)) t' \<and> context_grown k f v t c c'"
proof (cases "t = Tip")
  case True
  let ?new = "rc_nextSymbol c"
  define off :: u16 where "off = of_nat ?new - of_nat k"
  define c' where "c' = upd_sym k (\<lambda>n. n\<lparr>sy_symbols := off\<rparr>)
    (upd_sym ?new (\<lambda>_. fresh_symbol v update) (c\<lparr>rc_nextSymbol := ?new + 1\<rparr>))"
  have s0: "sy_symbols (rc_symbols c k) = 0" using rep True by (simp add: context_rep_def)
  have new: "?new < ENET_RANGE_CODER_SYMBOLS" using t(2) True by (simp add: room_for_def)
  note off = new_link [OF k(2) new, folded off_def]
  have "ENET_CONTEXT_ENCODE k v update minimum c = Some (Go (?new, b, m, c'))"
    using s0 new b True by (auto simp: ENET_CONTEXT_ENCODE_def Let_def sym_at_def symbol_create c'_def off_def)
  moreover have "context_rep c' k (with_value f v t ?new) t'"
    using off new b True k by (auto simp: context_rep_def c'_def with_value_def fresh_symbol_def)
  moreover have "context_grown k f v t c c'"
    unfolding context_grown_def True using k by (auto simp: c'_def) (simp_all add: context_part_def fresh_symbol_def)
  moreover have "with_value f v t ?new v = ?new" using True by (simp add: with_value_def)
  ultimately show ?thesis by metis
next
  case False
  then have link: "sy_symbols (rc_symbols c k) \<noteq> 0" "k + unat (sy_symbols (rc_symbols c k)) = f (top_value t)"
    using rep by (cases t; simp add: context_rep_def)+
  have "encode_pre f v t c" using rep t by (simp add: encode_pre_def context_rep_def)
  from context_encode_from_spec [OF this False, of update "ucast v * minimum" minimum] b
  obtain c' where c': "context_encode_from (f (top_value t)) v update (ucast v * minimum) minimum c =
      Some (Go (with_value f v t (rc_nextSymbol c) v, b, m, c'))"
    "tree_rep (rc_symbols c') (with_value f v t (rc_nextSymbol c)) t'" "top_value t' = top_value t" "grown f v t c c'"
    by (auto simp: encode_post_def)
  have kk: "rc_symbols c' k = rc_symbols c k" using c'(4) k by (simp add: grown_def tree_frame_def)
  have "t' \<noteq> Tip" "top_value t \<in> tree_values t" using b False by (cases t; auto split: if_splits prod.splits)+
  then have "linked k (sy_symbols (rc_symbols c' k)) (with_value f v t (rc_nextSymbol c)) t'"
    using link c'(3) kk with_value_old [of "top_value t" t f v] by (cases t') auto
  moreover have "context_grown k f v t c c'"
    using c'(4) kk unfolding context_grown_def grown_def tree_frame_def by (auto intro: exI [of _ "sy_symbols (rc_symbols c k)"])
  moreover have "ENET_CONTEXT_ENCODE k v update minimum c = context_encode_from (f (top_value t)) v update (ucast v * minimum) minimum c"
    using link by (simp add: ENET_CONTEXT_ENCODE_def Let_def sym_at_def)
  ultimately show ?thesis using c'(1,2) unfolding context_rep_def by (intro exI [of _ c']) simp
qed

section \<open>Rescaling\<close>

definition rescale_frame :: "(u8 \<Rightarrow> nat) \<Rightarrow> u8 set \<Rightarrow> ENetRangeCoder \<Rightarrow> ENetRangeCoder \<Rightarrow> bool" where
  "rescale_frame f V c c' \<longleftrightarrow> rc_nextSymbol c' = rc_nextSymbol c \<and> rc_predicted c' = rc_predicted c \<and> rc_order c' = rc_order c
     \<and> (\<forall>j. j \<notin> f ` V \<longrightarrow> rc_symbols c' j = rc_symbols c j)
     \<and> (\<forall>j. context_part (rc_symbols c' j) = context_part (rc_symbols c j))"

lemma rescale_frame_trans:
  "rescale_frame f V c c' \<Longrightarrow> rescale_frame f W c' c'' \<Longrightarrow> rescale_frame f (V \<union> W) c c''"
  unfolding rescale_frame_def image_Un Un_iff by metis

lemma rescale_frame_refl: "rescale_frame f V c c"
  by (simp add: rescale_frame_def)

lemma rescale_frame_upd:
  "k \<in> f ` V \<Longrightarrow> (\<And>s. context_part (g s) = context_part s) \<Longrightarrow> rescale_frame f V c (upd_sym k g c)"
  by (auto simp: rescale_frame_def)

lemma rescale_frame_rep:
  assumes "rescale_frame f V c c'" "f ` V \<inter> f ` tree_values t = {}"
  shows "tree_rep (rc_symbols c') f t = tree_rep (rc_symbols c) f t"
proof (rule tree_rep_cong)
  fix x assume "x \<in> tree_values t"
  then have "f x \<notin> f ` V" using assms(2) by blast
  then show "f x = f x \<and> rc_symbols c' (f x) = rc_symbols c (f x)" using assms(1) by (simp add: rescale_frame_def)
qed

definition rescale_post :: "(u8 \<Rightarrow> nat) \<Rightarrow> ctx_tree \<Rightarrow> (u16 \<times> ENetRangeCoder) coding option \<Rightarrow> u16 \<Rightarrow> ENetRangeCoder \<Rightarrow> bool" where
  "rescale_post f t r tot c \<longleftrightarrow> (\<exists>c'. r = Some (Go (tot + fst (tree_rescale t), c'))
     \<and> tree_rep (rc_symbols c') f (snd (tree_rescale t)) \<and> rescale_frame f (tree_values t) c c')"

lemma top_value_rescale: "top_value (snd (tree_rescale t)) = top_value t" "snd (tree_rescale t) = Tip \<longleftrightarrow> t = Tip"
  by (cases t; simp add: Let_def split_beta)+

lemma linked_rescale [simp]: "linked k off f (snd (tree_rescale t)) = linked k off f t"
  by (cases t) (simp_all add: Let_def split_beta)

lemma tree_values_rescale [simp]: "tree_values (snd (tree_rescale t)) = tree_values t"
  by (induction t) (simp_all add: Let_def split_beta)

lemma tree_sorted_rescale: "tree_sorted t \<Longrightarrow> tree_sorted (snd (tree_rescale t))"
  by (induction t) (simp_all add: Let_def split_beta)

lemma linked_top: "linked k off f t \<Longrightarrow> t \<noteq> Tip \<Longrightarrow> off \<noteq> 0 \<and> k + unat off = f (top_value t)"
  by (cases t) auto

lemma top_value_in: "t \<noteq> Tip \<Longrightarrow> top_value t \<in> tree_values t"
  by (cases t) auto

lemma encode_pre_subtree:
  assumes pre: "encode_pre f v (Bin l w n u r) c" and t: "t = l \<or> t = r" "t \<noteq> Tip"
  shows "encode_pre f (top_value t) t (upd_sym (f w) g c)"
proof -
  note p = encode_preD [OF pre]
  have "tree_rep ((rc_symbols c)(f w := g (rc_symbols c (f w)))) f t = tree_rep (rc_symbols c) f t"
    by (rule tree_rep_cong) (use p(10,11) t in \<open>auto simp: image_iff\<close>)
  moreover have "inj_on f (tree_values t)"
    using pre t(1) unfolding encode_pre_def room_for_def by (elim conjE, elim inj_on_subset) auto
  moreover have "f x < rc_nextSymbol c" if "x \<in> tree_values t" for x using p(13) [of x] that t by auto
  ultimately show ?thesis using t pre p(8,9) top_value_in [of t] by (auto simp: encode_pre_def room_for_def)
qed

lemma symbol_rescale_step:
  fixes c :: ENetRangeCoder
  assumes "k < ENET_RANGE_CODER_SYMBOLS" "n' = sy_count (rc_symbols c k) - drop_bit 1 (sy_count (rc_symbols c k))"
    and "c1 = upd_sym k (\<lambda>s. s\<lparr>sy_count := n', sy_under := ucast n'\<rparr>) c"
    and left: "(if sy_left (rc_symbols c k) \<noteq> 0 then enet_symbol_rescale (k + unat (sy_left (rc_symbols c k))) 0 c1
         else Some (Go (0, c1))) = Some (Go (t, c2))"
    and "c3 = upd_sym k (\<lambda>s. s\<lparr>sy_under := sy_under s + t\<rparr>) c2"
  shows "enet_symbol_rescale k tot c =
    (if sy_right (rc_symbols c3 k) = 0 then Some (Go (tot + sy_under (rc_symbols c3 k), c3))
     else enet_symbol_rescale (k + unat (sy_right (rc_symbols c3 k))) (tot + sy_under (rc_symbols c3 k)) c3)"
proof -
  have "\<not> k \<ge> ENET_RANGE_CODER_SYMBOLS" using assms(1) by simp
  then show ?thesis
    by (subst enet_symbol_rescale.simps)
      (simp only: if_False Let_def sym_at_def assms(2) [symmetric] assms(3) [symmetric] left bindc.simps prod.case assms(5) [symmetric])
qed

lemma rescale_tip: "rescale_post f Tip (Some (Go (tot, c))) tot c"
  by (simp add: rescale_post_def rescale_frame_refl)

lemma symbol_rescale_spec:
  "encode_pre f (top_value t) t c \<Longrightarrow> t \<noteq> Tip \<Longrightarrow> rescale_post f t (enet_symbol_rescale (f (top_value t)) tot c) tot c"
proof (induction t arbitrary: c tot)
  case (Bin l w n u r)
  note pre = Bin.prems(1)
  note p = encode_preD [OF pre]
  define n' where "n' = n - drop_bit 1 n"
  define c1 where "c1 = upd_sym (f w) (\<lambda>s. s\<lparr>sy_count := n', sy_under := ucast n'\<rparr>) c"
  have f1: "rescale_frame f {w} c c1"
    unfolding c1_def by (rule rescale_frame_upd) (simp_all add: context_part_def)
  have "rescale_post f l (if sy_left (rc_symbols c (f w)) \<noteq> 0
      then enet_symbol_rescale (f w + unat (sy_left (rc_symbols c (f w)))) 0 c1 else Some (Go (0, c1))) 0 c1"
  proof (cases "l = Tip")
    case True
    then show ?thesis using p(6) rescale_tip by simp
  next
    case False
    have "encode_pre f (top_value l) l c1" unfolding c1_def by (rule encode_pre_subtree [OF pre]) (simp_all add: False)
    from Bin.IH(1) [OF this False] linked_top [OF p(6) False] show ?thesis by simp
  qed
  then obtain c2 where c2: "(if sy_left (rc_symbols c (f w)) \<noteq> 0
      then enet_symbol_rescale (f w + unat (sy_left (rc_symbols c (f w)))) 0 c1 else Some (Go (0, c1))) = Some (Go (fst (tree_rescale l), c2))"
    "tree_rep (rc_symbols c2) f (snd (tree_rescale l))" "rescale_frame f (tree_values l) c1 c2"
    by (auto simp: rescale_post_def)
  have w2: "rc_symbols c2 (f w) = (rc_symbols c (f w))\<lparr>sy_count := n', sy_under := ucast n'\<rparr>"
    using c2(3) p(10) by (simp add: rescale_frame_def c1_def)
  define c3 where "c3 = upd_sym (f w) (\<lambda>s. s\<lparr>sy_under := sy_under s + fst (tree_rescale l)\<rparr>) c2"
  have f23: "rescale_frame f {w} c2 c3"
    unfolding c3_def by (rule rescale_frame_upd) (simp_all add: context_part_def)
  then have f3: "rescale_frame f (insert w (tree_values l)) c c3"
    using rescale_frame_trans [OF rescale_frame_trans [OF f1 c2(3)], of "{w}" c3] by simp
  have w3: "rc_symbols c3 (f w) = (rc_symbols c (f w))\<lparr>sy_count := n', sy_under := ucast n' + fst (tree_rescale l)\<rparr>"
    by (simp add: c3_def w2)
  define tot3 where "tot3 = tot + (ucast n' + fst (tree_rescale l))"
  have "rescale_post f r (if sy_right (rc_symbols c (f w)) = 0 then Some (Go (tot3, c3))
      else enet_symbol_rescale (f w + unat (sy_right (rc_symbols c (f w)))) tot3 c3) tot3 c3"
  proof (cases "r = Tip")
    case True
    then show ?thesis using p(7) rescale_tip by simp
  next
    case False
    have "tree_rep (rc_symbols c3) f r"
      using rescale_frame_rep [OF f3, of r] p(9,11,12) by auto
    then have "encode_pre f (top_value r) r c3"
      using encode_pre_subtree [OF pre, of r "\<lambda>n. n"] False f3 by (simp add: encode_pre_def room_for_def rescale_frame_def)
    from Bin.IH(2) [OF this False] linked_top [OF p(7) False] show ?thesis by simp
  qed
  then obtain c4 where c4: "(if sy_right (rc_symbols c (f w)) = 0 then Some (Go (tot3, c3))
      else enet_symbol_rescale (f w + unat (sy_right (rc_symbols c (f w)))) tot3 c3) = Some (Go (tot3 + fst (tree_rescale r), c4))"
    "tree_rep (rc_symbols c4) f (snd (tree_rescale r))" "rescale_frame f (tree_values r) c3 c4"
    by (auto simp: rescale_post_def)
  have "enet_symbol_rescale (f w) tot c = Some (Go (tot3 + fst (tree_rescale r), c4))"
  proof -
    have "tot + sy_under (rc_symbols c3 (f w)) = tot3" "sy_right (rc_symbols c3 (f w)) = sy_right (rc_symbols c (f w))"
      by (simp_all add: w3 tot3_def)
    then show ?thesis
      unfolding symbol_rescale_step [OF p(1) n'_def [folded p(4)] c1_def c2(1) c3_def] by (simp only: c4(1))
  qed
  moreover have "tot3 + fst (tree_rescale r) = tot + fst (tree_rescale (Bin l w n u r))"
    by (simp add: tot3_def Let_def split_beta n'_def add.assoc)
  moreover have w4: "rc_symbols c4 (f w) = rc_symbols c3 (f w)" using c4(3) p(11) by (simp add: rescale_frame_def)
  have "tree_rep (rc_symbols c4) f (snd (tree_rescale l))"
    using c2(2) rescale_frame_rep [OF c4(3), of "snd (tree_rescale l)"] rescale_frame_rep [of f "{w}" c2 c3 "snd (tree_rescale l)"]
      p(10,12) f23 by (auto simp: image_iff)
  then have "tree_rep (rc_symbols c4) f (snd (tree_rescale (Bin l w n u r)))"
    using c4(2) p w3 w4 by (simp add: Let_def split_beta n'_def)
  moreover have "rescale_frame f (tree_values (Bin l w n u r)) c c4"
    using rescale_frame_trans [OF f3 c4(3)] by simp
  ultimately show ?case unfolding rescale_post_def by auto
qed simp

text \<open>The context at \<open>k\<close> after rescaling.\<close>

definition rescaled_symbol :: "ctx_tree \<Rightarrow> u16 \<Rightarrow> ENetSymbol \<Rightarrow> ENetSymbol" where
  "rescaled_symbol t minimum s =
    (let escapes = sy_escapes s - drop_bit 1 (sy_escapes s)
     in s\<lparr>sy_escapes := escapes, sy_total := fst (tree_rescale t) + escapes + 256 * minimum\<rparr>)"

definition context_rescaled :: "nat \<Rightarrow> (u8 \<Rightarrow> nat) \<Rightarrow> ctx_tree \<Rightarrow> u16 \<Rightarrow> ENetRangeCoder \<Rightarrow> ENetRangeCoder \<Rightarrow> bool" where
  "context_rescaled k f t minimum c c' \<longleftrightarrow> rc_nextSymbol c' = rc_nextSymbol c \<and> rc_predicted c' = rc_predicted c
     \<and> rc_order c' = rc_order c
     \<and> (\<forall>j. j \<notin> f ` tree_values t \<longrightarrow> j \<noteq> k \<longrightarrow> rc_symbols c' j = rc_symbols c j)
     \<and> (\<forall>j. j \<noteq> k \<longrightarrow> context_part (rc_symbols c' j) = context_part (rc_symbols c j))
     \<and> rc_symbols c' k = rescaled_symbol t minimum (rc_symbols c k)"

lemma context_rescale_spec:
  assumes rep: "context_rep c k f t" and t: "tree_sorted t" "inj_on f (tree_values t)" "\<forall>x \<in> tree_values t. f x < rc_nextSymbol c"
    and k: "k \<notin> f ` tree_values t"
  shows "\<exists>c'. ENET_CONTEXT_RESCALE k minimum c = Some (Go c') \<and> context_rep c' k f (snd (tree_rescale t))
    \<and> context_rescaled k f t minimum c c'"
proof -
  let ?from = "if sy_symbols (rc_symbols c k) \<noteq> 0 then enet_symbol_rescale (k + unat (sy_symbols (rc_symbols c k))) 0 c
      else Some (Go (0, c))"
  have "rescale_post f t ?from 0 c"
  proof (cases "t = Tip")
    case True
    then show ?thesis using rep rescale_tip by (simp add: context_rep_def)
  next
    case False
    then have "encode_pre f (top_value t) t c" using rep t top_value_in by (simp add: encode_pre_def context_rep_def room_for_def)
    moreover have "linked k (sy_symbols (rc_symbols c k)) f t" using rep by (simp add: context_rep_def)
    ultimately show ?thesis using symbol_rescale_spec [OF _ False, of f c 0] linked_top [OF _ False, of k _ f] by auto
  qed
  then obtain c1 where c1: "?from = Some (Go (fst (tree_rescale t), c1))" "tree_rep (rc_symbols c1) f (snd (tree_rescale t))"
    "rescale_frame f (tree_values t) c c1"
    by (auto simp: rescale_post_def)
  define c' where "c' = upd_sym k (\<lambda>s. rescaled_symbol t minimum s) c1"
  have "rc_symbols c1 k = rc_symbols c k" using c1(3) k by (simp add: rescale_frame_def)
  then have ck: "rc_symbols c' k = rescaled_symbol t minimum (rc_symbols c k)" by (simp add: c'_def)
  have "ENET_CONTEXT_RESCALE k minimum c = Some (Go c')"
    unfolding ENET_CONTEXT_RESCALE_def sym_at_def c1(1) bindc.simps prod.case by (simp add: c'_def rescaled_symbol_def)
  moreover have "tree_rep (rc_symbols c') f (snd (tree_rescale t)) = tree_rep (rc_symbols c1) f (snd (tree_rescale t))"
    by (rule tree_rep_cong) (use k in \<open>auto simp: c'_def\<close>)
  then have "context_rep c' k f (snd (tree_rescale t))"
    using c1(2) rep ck by (simp add: context_rep_def rescaled_symbol_def Let_def)
  moreover have "context_rescaled k f t minimum c c'"
    using c1(3) ck unfolding context_rescaled_def rescale_frame_def by (simp add: c'_def)
  ultimately show ?thesis by blast
qed

end
