(* ===== verification/ENet_Weights.thy ===== *)
theory ENet_Weights
  imports ENet_Contexts
begin

text \<open>
  What the trees count: the weight of the values below a value, which the coder's intervals are
  made of, how counting and rescaling change it, and that decoding a code that falls among the
  counts of a value takes the same way through the tree as counting that value.
\<close>

section \<open>Weights\<close>

fun weight :: "ctx_tree \<Rightarrow> nat" where
  "weight Tip = 0"
| "weight (Bin l v n u r) = weight l + unat n + weight r"

fun weight_below :: "u8 \<Rightarrow> ctx_tree \<Rightarrow> nat" where
  "weight_below v Tip = 0"
| "weight_below v (Bin l w n u r) = weight_below v l + (if w < v then unat n else 0) + weight_below v r"

fun weight_of :: "u8 \<Rightarrow> ctx_tree \<Rightarrow> nat" where
  "weight_of v Tip = 0"
| "weight_of v (Bin l w n u r) = weight_of v l + (if w = v then unat n else 0) + weight_of v r"

fun counted :: "ctx_tree \<Rightarrow> bool" where
  "counted Tip \<longleftrightarrow> True"
| "counted (Bin l v n u r) \<longleftrightarrow> counted l \<and> counted r \<and> 1 \<le> unat n \<and> unat u = weight l + unat n"

lemma weight_outside: "v \<notin> tree_values t \<Longrightarrow> weight_of v t = 0"
  by (induction t) auto

lemma weight_positive: "counted t \<Longrightarrow> v \<in> tree_values t \<Longrightarrow> 1 \<le> weight_of v t"
  by (induction t) auto

lemma weight_below_all: "\<forall>x \<in> tree_values t. x < v \<Longrightarrow> weight_below v t = weight t"
  by (induction t) auto

lemma weight_below_none: "\<forall>x \<in> tree_values t. v < x \<Longrightarrow> weight_below v t = 0"
  by (induction t) (auto dest: less_asym)

lemma weight_split: "weight_below v t + weight_of v t \<le> weight t"
  by (induction t) auto

lemma weight_node:
  assumes "tree_sorted (Bin l w n u r)"
  shows "v < w \<Longrightarrow> weight_below v (Bin l w n u r) = weight_below v l \<and> weight_of v (Bin l w n u r) = weight_of v l"
    and "w < v \<Longrightarrow> weight_below v (Bin l w n u r) = weight l + unat n + weight_below v r \<and> weight_of v (Bin l w n u r) = weight_of v r"
    and "weight_below w (Bin l w n u r) = weight l \<and> weight_of w (Bin l w n u r) = unat n"
proof -
  have l: "\<forall>x \<in> tree_values l. x < w" and r: "\<forall>x \<in> tree_values r. w < x" using assms by simp_all
  show "v < w \<Longrightarrow> weight_below v (Bin l w n u r) = weight_below v l \<and> weight_of v (Bin l w n u r) = weight_of v l"
    using r weight_below_none [of r v] weight_outside [of v r] by (force dest: less_trans)
  show "w < v \<Longrightarrow> weight_below v (Bin l w n u r) = weight l + unat n + weight_below v r \<and> weight_of v (Bin l w n u r) = weight_of v r"
    using l weight_below_all [of l v] weight_outside [of v l] by (force dest: less_trans)
  show "weight_below w (Bin l w n u r) = weight l \<and> weight_of w (Bin l w n u r) = unat n"
    using l r weight_below_all [of l w] weight_below_none [of r w] weight_outside [of w l] weight_outside [of w r] by force
qed

lemma u8_below: "unat (x :: u8) < 256"
  using unsigned_less [of x] by simp

lemma u16_below: "unat (x :: u16) < 65536"
  using unsigned_less [of x] by simp

lemma u16_add: "unat (a :: u16) + unat b < 65536 \<Longrightarrow> unat (a + b) = unat a + unat b"
  by (simp add: unat_word_ariths)

lemma u8_add: "unat (a :: u8) + unat b < 256 \<Longrightarrow> unat (a + b) = unat a + unat b"
  by (simp add: unat_word_ariths)

lemma u16_of_u8 [simp]: "unat (ucast (x :: u8) :: u16) = unat x"
  using u8_below [of x] by (simp add: unsigned_ucast_eq take_bit_nat_eq_self)

lemma u16_sub: "unat b \<le> unat a \<Longrightarrow> unat (a - b :: u16) = unat a - unat b"
  by (simp add: unat_sub word_le_nat_alt)

text \<open>What counting a value yields, and what it does to the tree.\<close>

lemma tree_count_value:
  "tree_sorted t \<Longrightarrow> counted t \<Longrightarrow> unat below + weight t < 65536 \<Longrightarrow> unat cnt \<le> 1 \<Longrightarrow>
   tree_count v update below cnt t = (b, m, t') \<Longrightarrow>
     unat b = unat below + weight_below v t \<and> unat m = unat cnt + weight_of v t"
proof (induction t arbitrary: below b m t')
  case (Bin l w n u r)
  note node = weight_node [OF Bin.prems(1)]
  have u: "unat u = weight l + unat n" using Bin.prems(2) by simp
  show ?case
  proof (cases v w rule: linorder_cases)
    case less
    then show ?thesis using Bin.IH(1) [of below b m] Bin.prems node(1) [OF less] less by (auto split: prod.splits)
  next
    case equal
    have "unat (below + (u - ucast n)) = unat below + weight l"
      using u Bin.prems(3) by (subst u16_add) (simp_all add: u16_sub)
    moreover have "unat (cnt + ucast n) = unat cnt + unat n"
      using Bin.prems(4) u8_below [of n] by (subst u16_add) simp_all
    ultimately show ?thesis using Bin.prems(5) node(3) equal by auto
  next
    case greater
    have "unat (below + u) = unat below + weight l + unat n" using u Bin.prems(3) by (subst u16_add) simp_all
    moreover have "\<not> v < w" using greater by simp
    ultimately show ?thesis using Bin.IH(2) [of "below + u" b m] Bin.prems node(2) [OF greater] greater by (auto split: prod.splits)
  qed
qed auto

definition counted_once_more :: "u8 \<Rightarrow> nat \<Rightarrow> ctx_tree \<Rightarrow> ctx_tree \<Rightarrow> bool" where
  "counted_once_more v k t t' \<longleftrightarrow> tree_values t' = insert v (tree_values t) \<and> tree_sorted t' \<and> counted t'
     \<and> weight t' = weight t + k \<and> (\<forall>x. weight_of x t' = weight_of x t + (if x = v then k else 0))"

lemma tree_count_tree:
  "tree_sorted t \<Longrightarrow> counted t \<Longrightarrow> weight_of v t + unat update < 256 \<Longrightarrow> weight t + unat update < 65536 \<Longrightarrow> 1 \<le> unat update \<Longrightarrow>
   counted_once_more v (unat update) t (snd (snd (tree_count v update below cnt t)))"
proof (induction t arbitrary: below)
  case (Bin l w n u r)
  note node = weight_node [OF Bin.prems(1)]
  have u: "unat u = weight l + unat n" using Bin.prems(2) by simp
  have uu: "unat (u + ucast update) = unat u + unat update" using u Bin.prems(4) by (subst u16_add) simp_all
  show ?case
  proof (cases v w rule: linorder_cases)
    case less
    define l' where "l' = snd (snd (tree_count v update below cnt l))"
    have "counted_once_more v (unat update) l l'"
      unfolding l'_def by (rule Bin.IH(1)) (use Bin.prems node(1) [OF less] in auto)
    moreover have "snd (snd (tree_count v update below cnt (Bin l w n u r))) = Bin l' w n (u + ucast update) r"
      using less by (simp add: l'_def split: prod.split)
    ultimately show ?thesis using less Bin.prems(1,2) u uu by (auto simp: counted_once_more_def)
  next
    case equal
    have "unat (n + update) = unat n + unat update" using Bin.prems(3) node(3) equal by (subst u8_add) simp_all
    then show ?thesis using Bin.prems equal u uu by (auto simp: counted_once_more_def)
  next
    case greater
    define r' where "r' = snd (snd (tree_count v update (below + u) cnt r))"
    have "counted_once_more v (unat update) r r'"
      unfolding r'_def by (rule Bin.IH(2)) (use Bin.prems node(2) [OF greater] in auto)
    moreover have "snd (snd (tree_count v update below cnt (Bin l w n u r))) = Bin l w n u r'"
      using greater by (auto simp: r'_def split: prod.split)
    ultimately show ?thesis using greater Bin.prems(1,2) u by (auto simp: counted_once_more_def)
  qed
qed (auto simp: counted_once_more_def)

fun nodes :: "ctx_tree \<Rightarrow> nat" where
  "nodes Tip = 0"
| "nodes (Bin l v n u r) = nodes l + 1 + nodes r"

lemma finite_tree_values [simp]: "finite (tree_values t)"
  by (induction t) auto

lemma nodes_card: "tree_sorted t \<Longrightarrow> nodes t = card (tree_values t)"
proof (induction t)
  case (Bin l v n u r)
  then have "v \<notin> tree_values l \<union> tree_values r" "tree_values l \<inter> tree_values r = {}" by (auto dest: less_asym)
  then show ?case using Bin by (simp add: card_Un_disjoint)
qed simp

lemma nodes_le: "tree_sorted t \<Longrightarrow> nodes t \<le> 256"
  using card_mono [of "UNIV :: u8 set" "tree_values t"] nodes_card [of t] by (simp add: card_word)

lemma nodes_weight: "counted t \<Longrightarrow> nodes t \<le> weight t"
  by (induction t) auto

lemma half_count: "unat (n - drop_bit 1 n :: u8) = unat n - unat n div 2"
proof -
  have h: "unat (drop_bit 1 n) = unat n div 2" unfolding unat_drop_bit_eq by (simp add: drop_bit_eq_div)
  then have "drop_bit 1 n \<le> n" unfolding word_le_nat_alt by simp
  then show ?thesis using h unat_sub by metis
qed

lemma tree_rescale_weight:
  "tree_sorted t \<Longrightarrow> counted t \<Longrightarrow> weight t < 65536 \<Longrightarrow> tree_sorted (snd (tree_rescale t)) \<and> counted (snd (tree_rescale t))
    \<and> unat (fst (tree_rescale t)) = weight (snd (tree_rescale t))
    \<and> 2 * weight (snd (tree_rescale t)) \<le> weight t + nodes t
    \<and> (\<forall>v. 2 * weight_of v (snd (tree_rescale t)) \<le> weight_of v t + 1)"
proof (induction t)
  case (Bin l w n u r)
  define n' where "n' = n - drop_bit 1 n"
  have n': "unat n' = unat n - unat n div 2" unfolding n'_def by (rule half_count)
  have IH: "tree_sorted (snd (tree_rescale l))" "counted (snd (tree_rescale l))" "unat (fst (tree_rescale l)) = weight (snd (tree_rescale l))"
    "2 * weight (snd (tree_rescale l)) \<le> weight l + nodes l"
    "tree_sorted (snd (tree_rescale r))" "counted (snd (tree_rescale r))" "unat (fst (tree_rescale r)) = weight (snd (tree_rescale r))"
    "2 * weight (snd (tree_rescale r)) \<le> weight r + nodes r"
    "\<And>v. 2 * weight_of v (snd (tree_rescale l)) \<le> weight_of v l + 1" "\<And>v. 2 * weight_of v (snd (tree_rescale r)) \<le> weight_of v r + 1"
    using Bin by auto
  have small: "weight (snd (tree_rescale l)) \<le> weight l" "weight (snd (tree_rescale r)) \<le> weight r"
    using IH(4,8) nodes_weight [of l] nodes_weight [of r] Bin.prems(2) by auto
  have W: "weight l + unat n + weight r < 65536" using Bin.prems(3) by simp
  have u': "unat (ucast n' + fst (tree_rescale l)) = unat n' + weight (snd (tree_rescale l))"
    using small W IH(3) n' by (subst u16_add) simp_all
  have tot: "unat (ucast n' + fst (tree_rescale l) + fst (tree_rescale r)) =
      weight (snd (tree_rescale l)) + unat n' + weight (snd (tree_rescale r))"
    using small W IH(7) n' u' by (subst u16_add) simp_all
  define t' where "t' = Bin (snd (tree_rescale l)) w n' (ucast n' + fst (tree_rescale l)) (snd (tree_rescale r))"
  have t': "tree_rescale (Bin l w n u r) = (ucast n' + fst (tree_rescale l) + fst (tree_rescale r), t')"
    by (simp add: t'_def n'_def Let_def split_beta)
  have sorted: "tree_sorted t'" using IH(1,5) Bin.prems(1) by (simp add: t'_def)
  moreover have "1 \<le> unat n'" unfolding n' using Bin.prems(2) by simp linarith
  then have "counted t'" using IH(2,6) u' by (simp add: t'_def)
  moreover have "unat (fst (tree_rescale (Bin l w n u r))) = weight t'" unfolding t' fst_conv tot by (simp add: t'_def)
  moreover have "2 * weight t' \<le> weight (Bin l w n u r) + nodes (Bin l w n u r)"
    using IH(4,8) n' by (simp add: t'_def)
  moreover have "2 * weight_of v t' \<le> weight_of v (Bin l w n u r) + 1" for v
  proof (cases v w rule: linorder_cases)
    case less
    have "weight_of v (Bin l w n u r) = weight_of v l" "weight_of v t' = weight_of v (snd (tree_rescale l))"
      using weight_node(1) [OF Bin.prems(1) less] weight_node(1) [OF sorted [unfolded t'_def] less] unfolding t'_def by blast+
    then show ?thesis using IH(9) [of v] by presburger
  next
    case equal
    have "weight_of v (Bin l w n u r) = unat n" "weight_of v t' = unat n'"
      using weight_node(3) [OF Bin.prems(1)] weight_node(3) [OF sorted [unfolded t'_def]] unfolding t'_def equal by blast+
    then show ?thesis using n' by linarith
  next
    case greater
    have "weight_of v (Bin l w n u r) = weight_of v r" "weight_of v t' = weight_of v (snd (tree_rescale r))"
      using weight_node(2) [OF Bin.prems(1) greater] weight_node(2) [OF sorted [unfolded t'_def] greater] unfolding t'_def by blast+
    then show ?thesis using IH(10) [of v] by presburger
  qed
  ultimately show ?case unfolding t' fst_conv snd_conv by blast
qed simp

section \<open>Decoding\<close>

text \<open>
  A code among the counts of \<open>v\<close>: the decoder takes the way \<open>v\<close> takes, and finds \<open>v\<close> at its end.
  Where the symbol is created the code is in a gap of the root's tree, whose values count one each.
\<close>

definition among :: "u16 \<Rightarrow> u16 \<Rightarrow> u16 \<Rightarrow> bool" where
  "among code b m \<longleftrightarrow> unat b \<le> unat code \<and> unat code < unat b + unat m"

definition with_value_decoded :: "u8 \<Rightarrow> (nat \<times> u16 \<times> u16 \<times> ENetRangeCoder) coding option
    \<Rightarrow> (nat \<times> u8 \<times> u16 \<times> u16 \<times> ENetRangeCoder) coding option" where
  "with_value_decoded v r = bindc r (\<lambda>(s, b, m, c). Some (Go (s, v, b, m, c)))"

lemma decode_from_right:
  assumes "k < ENET_RANGE_CODER_SYMBOLS" "n = rc_symbols c k"
    and "code \<ge> below + sy_under n + (ucast (sy_value n) + 1) * minimum"
  shows "context_decode_from creating k code update minimum below cnt c =
    (if sy_right n \<noteq> 0
     then context_decode_from creating (k + unat (sy_right n)) code update minimum (below + sy_under n) cnt c
     else if \<not> creating then Some Return0
     else
       let after = below + sy_under n + (ucast (sy_value n) + 1) * minimum;
           v = ucast (ucast (sy_value n) + 1 + (code - after) div minimum);
           b = code - (code - after) mod minimum
       in bindc (ENET_SYMBOL_CREATE v update c)
            (\<lambda>(s, c). Some (Go (s, v, b, cnt, upd_sym k (\<lambda>n. n\<lparr>sy_right := of_nat s - of_nat k\<rparr>) c))))"
  using assms by (subst context_decode_from.simps) (simp add: sym_at_def Let_def)

lemma decode_from_left:
  assumes "k < ENET_RANGE_CODER_SYMBOLS" "n = rc_symbols c k"
    and "after = below + sy_under n + (ucast (sy_value n) + 1) * minimum" "own = ucast (sy_count n) + minimum"
    and "\<not> code \<ge> after" "uint code < uint after - uint own"
    and "c1 = upd_sym k (\<lambda>n. n\<lparr>sy_under := sy_under n + ucast update\<rparr>) c"
  shows "context_decode_from creating k code update minimum below cnt c =
    (if sy_left n \<noteq> 0
     then context_decode_from creating (k + unat (sy_left n)) code update minimum below cnt c1
     else if \<not> creating then Some Return0
     else
       let gap = after - own - code - 1;
           v = ucast (ucast (sy_value n) - 1 - gap div minimum);
           b = code - gap mod minimum
       in bindc (ENET_SYMBOL_CREATE v update c1)
            (\<lambda>(s, c). Some (Go (s, v, b, cnt, upd_sym k (\<lambda>n. n\<lparr>sy_left := of_nat s - of_nat k\<rparr>) c))))"
  using assms by (subst context_decode_from.simps) (simp add: sym_at_def Let_def)

lemma decode_from_here:
  assumes "k < ENET_RANGE_CODER_SYMBOLS" "n = rc_symbols c k"
    and "after = below + sy_under n + (ucast (sy_value n) + 1) * minimum" "own = ucast (sy_count n) + minimum"
    and "\<not> code \<ge> after" "\<not> uint code < uint after - uint own"
  shows "context_decode_from creating k code update minimum below cnt c =
    Some (Go (k, sy_value n, after - own, cnt + ucast (sy_count n),
       upd_sym k (\<lambda>n. n\<lparr>sy_under := sy_under n + ucast update, sy_count := sy_count n + update\<rparr>) c))"
  using assms by (subst context_decode_from.simps) (simp add: sym_at_def Let_def)

lemma zero_or_one: "unat (x :: u16) \<le> 1 \<Longrightarrow> x = 0 \<or> x = 1"
  by (metis le_less_Suc_eq less_one less_Suc_eq_le One_nat_def order_le_less unsigned_eq_0_iff unsigned_1 word_unat_eq_iff)

text \<open>The bounds of the node \<open>w\<close> in the decoder, in \<open>nat\<close>.\<close>

lemma decode_node_bounds:
  fixes minimum below :: u16
  assumes "counted (Bin l w n u r)" "unat below + weight (Bin l w n u r) + 256 * unat minimum < 65536" "unat minimum \<le> 1"
  shows "unat (below + u + (ucast w + 1) * minimum) = unat below + weight l + unat n + (unat w + 1) * unat minimum"
    and "unat (ucast n + minimum) = unat n + unat minimum"
    and "unat (below + ucast v * minimum) = unat below + unat (v :: u8) * unat minimum"
    and "unat (below + u) = unat below + weight l + unat n"
proof -
  have u: "unat u = weight l + unat n" using assms(1) by simp
  have minimum: "minimum = 0 \<or> minimum = 1" by (rule zero_or_one [OF assms(3)])
  have w1: "unat (ucast w + 1 :: u16) = unat w + 1" using u8_below [of w] by (subst u16_add) simp_all
  show bu: "unat (below + u) = unat below + weight l + unat n" using u assms(2) by (subst u16_add) simp_all
  show "unat (below + u + (ucast w + 1) * minimum) = unat below + weight l + unat n + (unat w + 1) * unat minimum"
    using minimum assms(2) u8_below [of w] bu w1 by (subst u16_add) auto
  show "unat (ucast n + minimum) = unat n + unat minimum"
    using assms(3) u8_below [of n] by (subst u16_add) simp_all
  show "unat (below + ucast v * minimum) = unat below + unat v * unat minimum"
    using minimum assms(2) u8_below [of v] by (subst u16_add) auto
qed

text \<open>Where the code of \<open>v\<close> lies, seen from the node \<open>w\<close>.\<close>

lemma decode_node_side:
  fixes minimum below code :: u16
  assumes t: "tree_sorted (Bin l w n u r)" "counted (Bin l w n u r)"
    and small: "unat below + weight (Bin l w n u r) + 256 * unat minimum < 65536" "unat minimum \<le> 1"
    and count: "tree_count v update (below + ucast v * minimum) minimum (Bin l w n u r) = (b, m, t')" and code: "among code b m"
  defines "after \<equiv> below + u + (ucast w + 1) * minimum" and "own \<equiv> ucast n + minimum"
  shows "w < v \<Longrightarrow> code \<ge> after"
    and "v < w \<Longrightarrow> \<not> code \<ge> after \<and> uint code < uint after - uint own"
    and "v = w \<Longrightarrow> \<not> code \<ge> after \<and> \<not> uint code < uint after - uint own"
proof -
  note nat = decode_node_bounds [OF t(2) small]
  have v: "unat v * unat minimum \<le> 255 * unat minimum" using u8_below [of v] by (intro mult_le_mono1) simp
  have "unat (below + ucast v * minimum) + weight (Bin l w n u r) < 65536"
    unfolding nat(3) using v small by linarith
  note b = tree_count_value [OF t this small(2) count]
  have bm: "unat b = unat below + unat v * unat minimum + weight_below v (Bin l w n u r)"
    "unat m = unat minimum + weight_of v (Bin l w n u r)"
    using b by (simp_all only: nat(3))
  have c: "unat b \<le> unat code" "unat code < unat b + unat m" using code by (simp_all add: among_def)
  have after: "unat after = unat below + weight l + unat n + (unat w + 1) * unat minimum" unfolding after_def by (rule nat(1))
  have own: "unat own = unat n + unat minimum" unfolding own_def by (rule nat(2))
  have ints: "uint code < uint after - uint own \<longleftrightarrow> unat code + unat own < unat after"
    by (simp only: uint_nat) linarith
  show "code \<ge> after" if "w < v"
  proof -
    have "unat w + 1 \<le> unat v" using that by (simp add: word_less_nat_alt)
    then have "(unat w + 1) * unat minimum \<le> unat v * unat minimum" by (rule mult_le_mono1)
    then show ?thesis
      unfolding word_le_nat_alt after using c bm weight_node(2) [OF t(1) that] by linarith
  qed
  show "\<not> code \<ge> after \<and> uint code < uint after - uint own" if "v < w"
  proof -
    have "unat v + 1 \<le> unat w" using that by (simp add: word_less_nat_alt)
    then have "(unat v + 1) * unat minimum \<le> unat w * unat minimum" by (rule mult_le_mono1)
    then have "unat code < unat below + weight l + unat w * unat minimum"
      using c bm weight_node(1) [OF t(1) that] weight_split [of v l] unfolding add_mult_distrib by linarith
    then have "unat code + unat own < unat after" unfolding after own add_mult_distrib by linarith
    then show ?thesis unfolding ints word_le_nat_alt by linarith
  qed
  show "\<not> code \<ge> after \<and> \<not> uint code < uint after - uint own" if "v = w"
  proof -
    have "weight_below v (Bin l w n u r) = weight l" "weight_of v (Bin l w n u r) = unat n"
      using weight_node(3) [OF t(1)] that by simp_all
    then have "unat after = unat b + unat m" "unat after = unat b + unat own"
      unfolding after own bm that add_mult_distrib by linarith+
    then show ?thesis unfolding ints word_le_nat_alt using c by linarith
  qed
qed

text \<open>What decoding \<open>v\<close> needs to know of the tree.\<close>

definition decode_pre ::
  "(u8 \<Rightarrow> nat) \<Rightarrow> bool \<Rightarrow> u8 \<Rightarrow> u8 \<Rightarrow> u16 \<Rightarrow> u16 \<Rightarrow> u16 \<Rightarrow> ctx_tree \<Rightarrow> ENetRangeCoder \<Rightarrow> bool" where
  "decode_pre f creating v update code below minimum t c \<longleftrightarrow> encode_pre f v t c \<and> counted t
     \<and> unat below + weight t + 256 * unat minimum < 65536 \<and> unat minimum \<le> 1
     \<and> (v \<notin> tree_values t \<longrightarrow> creating \<and> minimum = 1)
     \<and> (case tree_count v update (below + ucast v * minimum) minimum t of (b, m, t') \<Rightarrow> among code b m)"

definition decodes_as ::
  "(u8 \<Rightarrow> nat) \<Rightarrow> bool \<Rightarrow> u8 \<Rightarrow> u8 \<Rightarrow> u16 \<Rightarrow> u16 \<Rightarrow> u16 \<Rightarrow> ctx_tree \<Rightarrow> ENetRangeCoder \<Rightarrow> bool" where
  "decodes_as f creating v update code below minimum t c \<longleftrightarrow>
     context_decode_from creating (f (top_value t)) code update minimum below minimum c
     = with_value_decoded v (context_encode_from (f (top_value t)) v update (below + ucast v * minimum) minimum c)"

lemma among_one: "among code b 1 \<Longrightarrow> code = b"
  by (simp add: among_def word_unat_eq_iff)

lemma with_value_decoded_create:
  "with_value_decoded v (bindc (ENET_SYMBOL_CREATE v update c) (\<lambda>(s, c). Some (Go (s, b, m, g s c))))
   = bindc (ENET_SYMBOL_CREATE v update c) (\<lambda>(s, c). Some (Go (s, v, b, m, g s c)))"
  by (auto simp: with_value_decoded_def ENET_SYMBOL_CREATE_def Let_def)

lemma ucast_u8_u16 [simp]: "(ucast (ucast (v :: u8) :: u16) :: u8) = v"
  using u8_below [of v] by (simp add: word_unat_eq_iff unsigned_ucast_eq [of "ucast v :: u16"] take_bit_nat_eq_self)

lemma decode_left:
  assumes pre: "decode_pre f creating v update code below minimum (Bin l w n u r) c" and v: "v < w"
    and IH: "\<And>c. l \<noteq> Tip \<Longrightarrow> decode_pre f creating v update code below minimum l c \<Longrightarrow>
      decodes_as f creating v update code below minimum l c"
  shows "decodes_as f creating v update code below minimum (Bin l w n u r) c"
proof -
  let ?t = "Bin l w n u r"
  have enc: "encode_pre f v ?t c" and t: "tree_sorted ?t" "counted ?t"
    and small: "unat below + weight ?t + 256 * unat minimum < 65536" "unat minimum \<le> 1"
    using pre by (simp_all only: decode_pre_def encode_pre_def)
  note p = encode_preD [OF enc]
  obtain b m l' where l': "tree_count v update (below + ucast v * minimum) minimum l = (b, m, l')" by (metis prod_cases3)
  then have count: "tree_count v update (below + ucast v * minimum) minimum ?t = (b, m, Bin l' w n (u + ucast update) r)"
    using v by simp
  then have code: "among code b m" using pre by (simp add: decode_pre_def)
  note side = decode_node_side(2) [OF t small count code v]
  define c1 where "c1 = upd_sym (f w) (\<lambda>n. n\<lparr>sy_under := sy_under n + ucast update\<rparr>) c"
  have d: "context_decode_from creating (f w) code update minimum below minimum c =
    (if sy_left (rc_symbols c (f w)) \<noteq> 0
     then context_decode_from creating (f w + unat (sy_left (rc_symbols c (f w)))) code update minimum below minimum c1
     else if \<not> creating then Some Return0
     else
       let gap = (below + u + (ucast w + 1) * minimum) - (ucast n + minimum) - code - 1;
           v = ucast (ucast w - 1 - gap div minimum);
           b = code - gap mod minimum
       in bindc (ENET_SYMBOL_CREATE v update c1)
            (\<lambda>(s, c). Some (Go (s, v, b, minimum, upd_sym (f w) (\<lambda>n. n\<lparr>sy_left := of_nat s - of_nat (f w)\<rparr>) c))))"
    using decode_from_left [OF p(1) refl refl refl _ _ c1_def, where code = code and below = below and minimum = minimum, unfolded p(3-5)] side by blast
  have e: "context_encode_from (f w) v update (below + ucast v * minimum) minimum c =
    (if sy_left (rc_symbols c (f w)) \<noteq> 0
     then context_encode_from (f w + unat (sy_left (rc_symbols c (f w)))) v update (below + ucast v * minimum) minimum c1
     else bindc (ENET_SYMBOL_CREATE v update c1)
            (\<lambda>(s, c). Some (Go (s, below + ucast v * minimum, minimum, upd_sym (f w) (\<lambda>n. n\<lparr>sy_left := of_nat s - of_nat (f w)\<rparr>) c))))"
    using p(1,3) v by (subst context_encode_from_less) (simp_all add: Let_def c1_def)
  show ?thesis
  proof (cases "l = Tip")
    case True
    then have new: "v \<notin> tree_values ?t" using t(1) v by auto
    then have m: "creating" "minimum = 1" using pre by (simp_all add: decode_pre_def)
    have "b = below + ucast v" "code = b" using l' True m among_one code by auto
    moreover have "u = ucast n" using t(2) True by (simp add: word_unat_eq_iff)
    ultimately show ?thesis
      using p(6) True m unfolding decodes_as_def top_value.simps d e
      by (simp add: Let_def with_value_decoded_create)
  next
    case False
    have "encode_pre f v l c1" unfolding c1_def by (rule encode_pre_child(1) [OF enc]) (simp add: v)
    moreover have "v \<in> tree_values l \<longleftrightarrow> v \<in> tree_values ?t" by (rule encode_pre_child(2) [OF enc]) (simp add: v)
    ultimately have "decode_pre f creating v update code below minimum l c1"
      using pre l' code by (auto simp: decode_pre_def)
    then show ?thesis
      using IH [OF False] linked_top [OF p(6) False] unfolding decodes_as_def top_value.simps d e by simp
  qed
qed

lemma decode_right:
  assumes pre: "decode_pre f creating v update code below minimum (Bin l w n u r) c" and v: "w < v"
    and IH: "\<And>c. r \<noteq> Tip \<Longrightarrow> decode_pre f creating v update code (below + u) minimum r c \<Longrightarrow>
      decodes_as f creating v update code (below + u) minimum r c"
  shows "decodes_as f creating v update code below minimum (Bin l w n u r) c"
proof -
  let ?t = "Bin l w n u r"
  have enc: "encode_pre f v ?t c" and t: "tree_sorted ?t" "counted ?t"
    and small: "unat below + weight ?t + 256 * unat minimum < 65536" "unat minimum \<le> 1"
    using pre by (simp_all only: decode_pre_def encode_pre_def)
  note p = encode_preD [OF enc]
  obtain b m r' where r': "tree_count v update (below + ucast v * minimum + u) minimum r = (b, m, r')" by (metis prod_cases3)
  then have count: "tree_count v update (below + ucast v * minimum) minimum ?t = (b, m, Bin l w n u r')"
    using v by auto
  then have code: "among code b m" using pre by (simp add: decode_pre_def)
  note side = decode_node_side(1) [OF t small count code v]
  have d: "context_decode_from creating (f w) code update minimum below minimum c =
    (if sy_right (rc_symbols c (f w)) \<noteq> 0
     then context_decode_from creating (f w + unat (sy_right (rc_symbols c (f w)))) code update minimum (below + u) minimum c
     else if \<not> creating then Some Return0
     else
       let after = below + u + (ucast w + 1) * minimum;
           v = ucast (ucast w + 1 + (code - after) div minimum);
           b = code - (code - after) mod minimum
       in bindc (ENET_SYMBOL_CREATE v update c)
            (\<lambda>(s, c). Some (Go (s, v, b, minimum, upd_sym (f w) (\<lambda>n. n\<lparr>sy_right := of_nat s - of_nat (f w)\<rparr>) c))))"
    using decode_from_right [OF p(1) refl, where c = c and code = code and below = below and minimum = minimum, unfolded p(3-5)] side by blast
  have e: "context_encode_from (f w) v update (below + ucast v * minimum) minimum c =
    (if sy_right (rc_symbols c (f w)) \<noteq> 0
     then context_encode_from (f w + unat (sy_right (rc_symbols c (f w)))) v update (below + u + ucast v * minimum) minimum c
     else bindc (ENET_SYMBOL_CREATE v update c)
            (\<lambda>(s, c). Some (Go (s, below + u + ucast v * minimum, minimum, upd_sym (f w) (\<lambda>n. n\<lparr>sy_right := of_nat s - of_nat (f w)\<rparr>) c))))"
    using p(1,3,5) v by (subst context_encode_from_greater) (simp_all add: Let_def add.assoc add.commute [of u])
  show ?thesis
  proof (cases "r = Tip")
    case True
    then have new: "v \<notin> tree_values ?t" using t(1) v by auto
    then have m: "creating" "minimum = 1" using pre by (simp_all add: decode_pre_def)
    have b: "b = below + u + ucast v" "code = b" using r' True m among_one code by auto
    then show ?thesis
      using p(7) True m unfolding decodes_as_def top_value.simps d e
      by (simp add: Let_def with_value_decoded_create)
  next
    case False
    have "encode_pre f v r c" using encode_pre_child(1) [OF enc, of r "\<lambda>n. n"] v by simp
    moreover have "v \<in> tree_values r \<longleftrightarrow> v \<in> tree_values ?t" by (rule encode_pre_child(2) [OF enc]) (simp add: v)
    moreover have "unat (below + u) = unat below + weight l + unat n" by (rule decode_node_bounds(4) [OF t(2) small])
    ultimately have "decode_pre f creating v update code (below + u) minimum r c"
      using pre r' code by (auto simp: decode_pre_def add.assoc add.commute [of u])
    then show ?thesis
      using IH [OF False] linked_top [OF p(7) False] unfolding decodes_as_def top_value.simps d e by simp
  qed
qed

lemma decode_equal:
  assumes pre: "decode_pre f creating w update code below minimum (Bin l w n u r) c"
  shows "decodes_as f creating w update code below minimum (Bin l w n u r) c"
proof -
  let ?t = "Bin l w n u r"
  have enc: "encode_pre f w ?t c" and t: "tree_sorted ?t" "counted ?t"
    and small: "unat below + weight ?t + 256 * unat minimum < 65536" "unat minimum \<le> 1"
    using pre by (simp_all only: decode_pre_def encode_pre_def)
  note p = encode_preD [OF enc]
  obtain b m t' where count: "tree_count w update (below + ucast w * minimum) minimum ?t = (b, m, t')" by (metis prod_cases3)
  then have code: "among code b m" using pre by (simp add: decode_pre_def)
  note side = decode_node_side(3) [OF t small count code refl]
  have "below + u + (ucast w + 1) * minimum - (ucast n + minimum) = below + ucast w * minimum + (u - ucast n)"
    by (simp add: algebra_simps)
  then show ?thesis
    using decode_from_here [OF p(1) refl refl refl, where code = code and below = below and minimum = minimum, unfolded p(3-5)] side p
    unfolding decodes_as_def top_value.simps
    by (subst context_encode_from_equal) (simp_all add: with_value_decoded_def)
qed

lemma context_decode_from_spec:
  "decode_pre f creating v update code below minimum t c \<Longrightarrow> t \<noteq> Tip \<Longrightarrow> decodes_as f creating v update code below minimum t c"
proof (induction t arbitrary: c below)
  case (Bin l w n u r)
  show ?case
  proof (cases v w rule: linorder_cases)
    case less
    from decode_left [OF Bin.prems(1) less Bin.IH(1)] show ?thesis by blast
  next
    case equal
    from decode_equal [OF Bin.prems(1) [unfolded equal]] show ?thesis unfolding equal .
  next
    case greater
    from decode_right [OF Bin.prems(1) greater Bin.IH(2)] show ?thesis by blast
  qed
qed simp

text \<open>A whole context: decoding finds the value, and does to the array what counting it does.\<close>

lemma context_decode_spec:
  assumes rep: "context_rep c k f t" and t: "tree_sorted t" "counted t" "room_for f v t c"
    and small: "weight t + 256 * unat minimum < 65536" "unat minimum \<le> 1"
    and new: "v \<notin> tree_values t \<longrightarrow> creating \<and> minimum = 1"
    and count: "tree_count v update (ucast v * minimum) minimum t = (b, m, t')" and code: "among code b m"
  shows "ENET_CONTEXT_DECODE creating k code update minimum c = with_value_decoded v (ENET_CONTEXT_ENCODE k v update minimum c)"
proof (cases "t = Tip")
  case True
  then have m: "creating" "minimum = 1" using new by simp_all
  have s0: "sy_symbols (rc_symbols c k) = 0" using rep True by (simp add: context_rep_def)
  have "code = ucast v" using count True m among_one code by auto
  then show ?thesis
    using s0 m by (simp add: ENET_CONTEXT_DECODE_def ENET_CONTEXT_ENCODE_def sym_at_def Let_def with_value_decoded_create)
next
  case False
  have link: "sy_symbols (rc_symbols c k) \<noteq> 0 \<and> k + unat (sy_symbols (rc_symbols c k)) = f (top_value t)"
    using rep linked_top [OF _ False] unfolding context_rep_def by blast
  have "decode_pre f creating v update code 0 minimum t c"
    using rep t small new count code by (simp add: decode_pre_def encode_pre_def context_rep_def)
  from context_decode_from_spec [OF this False] show ?thesis
    using link by (simp add: decodes_as_def ENET_CONTEXT_DECODE_def ENET_CONTEXT_ENCODE_def sym_at_def Let_def)
qed

end
