(* ===== verification/ENet_Tries.thy ===== *)
theory ENet_Tries
  imports ENet_Weights
begin

text \<open>
  The contexts of the coder as a map from the bytes that led to them (at most three, the last one
  last) to their tree and totals, and how the array represents such a map. The indices are free:
  the compressor and the decompressor allocate in different orders.
\<close>

section \<open>Models\<close>

record ctx =
  cx_tree :: ctx_tree
  cx_escapes :: u16
  cx_total :: u16

type_synonym model = "u8 list \<Rightarrow> ctx option"

definition empty_ctx :: ctx where
  "empty_ctx = \<lparr>cx_tree = Tip, cx_escapes = 0, cx_total = 0\<rparr>"

text \<open>The context \<open>w\<close> has counted \<open>v\<close>, with the tree \<open>t\<close>; a new symbol defines an empty context.\<close>

definition put_tree :: "u8 list \<Rightarrow> u8 \<Rightarrow> ctx_tree \<Rightarrow> model \<Rightarrow> model" where
  "put_tree w v t M = (\<lambda>u. if u = w then map_option (\<lambda>x. x\<lparr>cx_tree := t\<rparr>) (M w)
     else if u = w @ [v] \<and> M u = None then Some empty_ctx else M u)"

definition put_totals :: "u8 list \<Rightarrow> u16 \<Rightarrow> u16 \<Rightarrow> model \<Rightarrow> model" where
  "put_totals w e t M = M(w := map_option (\<lambda>x. x\<lparr>cx_escapes := e, cx_total := t\<rparr>) (M w))"

section \<open>Models in the array\<close>

definition children :: "(u8 list \<Rightarrow> nat) \<Rightarrow> u8 list \<Rightarrow> u8 \<Rightarrow> nat" where
  "children idx w v = idx (w @ [v])"

definition ctx_rep :: "ENetRangeCoder \<Rightarrow> (u8 list \<Rightarrow> nat) \<Rightarrow> u8 list \<Rightarrow> ctx \<Rightarrow> bool" where
  "ctx_rep c idx w x \<longleftrightarrow> context_rep c (idx w) (children idx w) (cx_tree x)
     \<and> sy_escapes (rc_symbols c (idx w)) = cx_escapes x \<and> sy_total (rc_symbols c (idx w)) = cx_total x"

definition model_ok :: "model \<Rightarrow> bool" where
  "model_ok M \<longleftrightarrow> finite (dom M) \<and> [] \<in> dom M \<and> card (dom M) \<le> ENET_RANGE_CODER_SYMBOLS
     \<and> (\<forall>w x. M w = Some x \<longrightarrow> tree_sorted (cx_tree x) \<and> (\<forall>v. w @ [v] \<in> dom M \<longleftrightarrow> v \<in> tree_values (cx_tree x)))
     \<and> (\<forall>w v. w @ [v] \<in> dom M \<longrightarrow> w \<in> dom M)"

definition trie_rep :: "ENetRangeCoder \<Rightarrow> (u8 list \<Rightarrow> nat) \<Rightarrow> model \<Rightarrow> bool" where
  "trie_rep c idx M \<longleftrightarrow> model_ok M \<and> inj_on idx (dom M) \<and> idx [] = 0 \<and> rc_nextSymbol c = card (dom M)
     \<and> (\<forall>w \<in> dom M. idx w < card (dom M)) \<and> (\<forall>w x. M w = Some x \<longrightarrow> ctx_rep c idx w x)"

text \<open>The parent of a symbol is the symbol without the oldest byte; \<open>P\<close> still wait for theirs.\<close>

definition parents_rep :: "ENetRangeCoder \<Rightarrow> (u8 list \<Rightarrow> nat) \<Rightarrow> model \<Rightarrow> u8 list set \<Rightarrow> bool" where
  "parents_rep c idx M P \<longleftrightarrow> (\<forall>u \<in> dom M. u \<noteq> [] \<longrightarrow> u \<notin> P \<longrightarrow>
     tl u \<in> dom M \<and> sy_parent (rc_symbols c (idx u)) = of_nat (idx (tl u)))"

lemma trie_repD:
  assumes "trie_rep c idx M" "M w = Some x"
  shows "context_rep c (idx w) (children idx w) (cx_tree x)" "tree_sorted (cx_tree x)"
    "inj_on (children idx w) (tree_values (cx_tree x))"
    "\<And>v. v \<in> tree_values (cx_tree x) \<Longrightarrow> children idx w v < rc_nextSymbol c"
    "\<And>v. v \<in> tree_values (cx_tree x) \<longleftrightarrow> w @ [v] \<in> dom M"
    "idx w \<notin> children idx w ` tree_values (cx_tree x)" "idx w < rc_nextSymbol c"
proof -
  have M: "model_ok M" "inj_on idx (dom M)" and lt: "\<And>u. u \<in> dom M \<Longrightarrow> idx u < rc_nextSymbol c"
    using assms(1) by (auto simp: trie_rep_def)
  show v: "v \<in> tree_values (cx_tree x) \<longleftrightarrow> w @ [v] \<in> dom M" for v
    using M(1) assms(2) by (simp add: model_ok_def)
  show "context_rep c (idx w) (children idx w) (cx_tree x)" "tree_sorted (cx_tree x)"
    using assms by (simp_all add: trie_rep_def ctx_rep_def model_ok_def)
  show "inj_on (children idx w) (tree_values (cx_tree x))"
  proof (rule inj_onI)
    fix a b assume "a \<in> tree_values (cx_tree x)" "b \<in> tree_values (cx_tree x)" "children idx w a = children idx w b"
    then have "idx (w @ [a]) = idx (w @ [b])" "w @ [a] \<in> dom M" "w @ [b] \<in> dom M" by (simp_all add: v [symmetric] children_def)
    from inj_onD [OF M(2) this] show "a = b" by simp
  qed
  show "children idx w v < rc_nextSymbol c" if "v \<in> tree_values (cx_tree x)" for v
    using lt v that by (simp add: children_def)
  have w: "w \<in> dom M" using assms(2) by blast
  then show "idx w < rc_nextSymbol c" by (rule lt)
  show "idx w \<notin> children idx w ` tree_values (cx_tree x)"
  proof
    assume "idx w \<in> children idx w ` tree_values (cx_tree x)"
    then obtain v where "v \<in> tree_values (cx_tree x)" "idx w = idx (w @ [v])" by (auto simp: children_def)
    then show False using M(2) w v [of v] by (auto dest: inj_onD)
  qed
qed

text \<open>A context is represented as before when its own symbol and those of its tree are as before.\<close>

definition tree_part :: "ENetSymbol \<Rightarrow> u8 \<times> u8 \<times> u16 \<times> u16 \<times> u16" where
  "tree_part s = (sy_value s, sy_count s, sy_under s, sy_left s, sy_right s)"

lemma tree_rep_part_cong:
  "(\<And>v. v \<in> tree_values t \<Longrightarrow> f v = g v) \<Longrightarrow> (\<And>v. v \<in> tree_values t \<Longrightarrow> tree_part (S (f v)) = tree_part (S' (g v))) \<Longrightarrow>
   tree_rep S f t = tree_rep S' g t"
proof (induction t)
  case (Bin l v n u r)
  have "linked k off f l = linked k off g l" "linked k off f r = linked k off g r" for k off
    by (rule tree_link_cong; use Bin.prems in simp)+
  moreover have "tree_rep S f l = tree_rep S' g l" by (rule Bin.IH(1); rule Bin.prems; simp)
  moreover have "tree_rep S f r = tree_rep S' g r" by (rule Bin.IH(2); rule Bin.prems; simp)
  moreover have "f v = g v" "tree_part (S (f v)) = tree_part (S' (g v))" using Bin.prems(1,2) [of v] by simp_all
  ultimately show ?case by (simp add: tree_part_def)
qed simp

lemma ctx_rep_cong:
  assumes "\<And>v. v \<in> tree_values (cx_tree x) \<Longrightarrow> idx' (w @ [v]) = idx (w @ [v])"
    and "\<And>v. v \<in> tree_values (cx_tree x) \<Longrightarrow> tree_part (rc_symbols c' (idx (w @ [v]))) = tree_part (rc_symbols c (idx (w @ [v])))"
    and "idx' w = idx w" "sy_symbols (rc_symbols c' (idx w)) = sy_symbols (rc_symbols c (idx w))"
    and "sy_escapes (rc_symbols c' (idx w)) = sy_escapes (rc_symbols c (idx w))"
    and "sy_total (rc_symbols c' (idx w)) = sy_total (rc_symbols c (idx w))"
  shows "ctx_rep c' idx' w x = ctx_rep c idx w x"
proof -
  have "tree_rep (rc_symbols c') (children idx' w) (cx_tree x) = tree_rep (rc_symbols c) (children idx w) (cx_tree x)"
    by (rule tree_rep_part_cong) (use assms(1,2) in \<open>simp_all add: children_def\<close>)
  moreover have "linked k off (children idx' w) (cx_tree x) = linked k off (children idx w) (cx_tree x)" for k off
    by (rule tree_link_cong) (use assms(1) in \<open>simp add: children_def\<close>)
  ultimately show ?thesis using assms(3-6) by (simp add: ctx_rep_def context_rep_def)
qed

section \<open>Counting a value\<close>

lemma put_tree_dom: "w \<in> dom M \<Longrightarrow> dom (put_tree w v t M) = insert (w @ [v]) (dom M)"
  by (auto simp: put_tree_def split: if_splits)

lemma put_tree_ok:
  assumes "model_ok M" "M w = Some x" "tree_sorted t" "tree_values t = insert v (tree_values (cx_tree x))"
    and "w @ [v] \<in> dom M \<or> card (dom M) < ENET_RANGE_CODER_SYMBOLS"
  shows "model_ok (put_tree w v t M)"
proof -
  have w: "w \<in> dom M" using assms(2) by blast
  have d: "dom (put_tree w v t M) = insert (w @ [v]) (dom M)" by (rule put_tree_dom [OF w])
  have closed: "u \<in> dom M" if "u @ [y] \<in> dom M" for u y using assms(1) that unfolding model_ok_def by blast
  have kids: "u @ [y] \<in> dom M \<longleftrightarrow> y \<in> tree_values (cx_tree z)" if "M u = Some z" for u y z
    using assms(1) that unfolding model_ok_def by blast
  have "tree_sorted (cx_tree z) \<and> (\<forall>y. u @ [y] \<in> dom (put_tree w v t M) \<longleftrightarrow> y \<in> tree_values (cx_tree z))"
    if z: "put_tree w v t M u = Some z" for u z
  proof (cases "u = w")
    case True
    then show ?thesis using z assms kids [OF assms(2)] unfolding d by (auto simp: put_tree_def)
  next
    case nw: False
    show ?thesis
    proof (cases "M u")
      case None
      then have u: "u = w @ [v]" "z = empty_ctx" using z nw by (auto simp: put_tree_def split: if_splits)
      have "u @ [y] \<notin> dom M" for y using closed [of u y] None by blast
      then show ?thesis unfolding d by (auto simp: u empty_ctx_def)
    next
      case (Some z')
      then have "z = z'" using z nw by (simp add: put_tree_def)
      then show ?thesis using Some kids [OF Some] assms(1) nw unfolding d by (auto simp: model_ok_def)
    qed
  qed
  moreover have "u \<in> dom (put_tree w v t M)" if "u @ [y] \<in> dom (put_tree w v t M)" for u y
    using that closed [of u y] w unfolding d by auto
  moreover have "card (insert (w @ [v]) (dom M)) \<le> ENET_RANGE_CODER_SYMBOLS"
    using assms(1,5) by (auto simp: model_ok_def card_insert_if)
  ultimately show ?thesis using assms(1) unfolding model_ok_def d by auto
qed

text \<open>The indices once \<open>v\<close> has been counted in \<open>w\<close>.\<close>

definition idx_after :: "(u8 list \<Rightarrow> nat) \<Rightarrow> u8 list \<Rightarrow> u8 \<Rightarrow> model \<Rightarrow> u8 list \<Rightarrow> nat" where
  "idx_after idx w v M = (if w @ [v] \<in> dom M then idx else idx(w @ [v] := card (dom M)))"

lemma idx_after_old: "u \<in> dom M \<Longrightarrow> idx_after idx w v M u = idx u"
  by (auto simp: idx_after_def)

lemma idx_after_children:
  assumes "trie_rep c idx M" "M w = Some x"
  shows "with_value (children idx w) v (cx_tree x) (rc_nextSymbol c) = children (idx_after idx w v M) w"
proof -
  have "v \<in> tree_values (cx_tree x) \<longleftrightarrow> w @ [v] \<in> dom M" by (rule trie_repD(5) [OF assms])
  moreover have "rc_nextSymbol c = card (dom M)" using assms(1) by (simp add: trie_rep_def)
  ultimately show ?thesis by (auto simp: with_value_def idx_after_def children_def)
qed

text \<open>The frame: only the new symbol's part of a context differs.\<close>

definition grown_frame :: "(u8 list \<Rightarrow> nat) \<Rightarrow> u8 list \<Rightarrow> u8 \<Rightarrow> model \<Rightarrow> ENetRangeCoder \<Rightarrow> ENetRangeCoder \<Rightarrow> bool" where
  "grown_frame idx w v M c c' \<longleftrightarrow> rc_predicted c' = rc_predicted c \<and> rc_order c' = rc_order c
     \<and> (\<forall>u \<in> dom M. sy_parent (rc_symbols c' (idx u)) = sy_parent (rc_symbols c (idx u)))
     \<and> (w @ [v] \<notin> dom M \<longrightarrow> sy_parent (rc_symbols c' (card (dom M))) = 0)"

lemma trie_encode:
  assumes rep: "trie_rep c idx M" and x: "M w = Some x" and room: "w @ [v] \<in> dom M \<or> card (dom M) < ENET_RANGE_CODER_SYMBOLS"
    and count: "tree_count v update (ucast v * minimum) minimum (cx_tree x) = (b, m, t')"
    and t': "tree_sorted t'" "tree_values t' = insert v (tree_values (cx_tree x))"
  defines "idx' \<equiv> idx_after idx w v M"
  shows "\<exists>c'. ENET_CONTEXT_ENCODE (idx w) v update minimum c = Some (Go (idx' (w @ [v]), b, m, c'))
    \<and> trie_rep c' idx' (put_tree w v t' M) \<and> grown_frame idx w v M c c'"
proof -
  note r = trie_repD [OF rep x]
  let ?f = "children idx w" and ?t = "cx_tree x" and ?k = "idx w" and ?new = "rc_nextSymbol c"
  have new: "?new = card (dom M)" using rep by (simp add: trie_rep_def)
  have "room_for ?f v ?t c" using r(3,4) room by (simp add: room_for_def r(5) new) blast
  from context_encode_spec [OF r(1,2) this r(6,7) count] obtain c' where
    e: "ENET_CONTEXT_ENCODE ?k v update minimum c = Some (Go (idx' (w @ [v]), b, m, c'))"
    and rep': "context_rep c' ?k (children idx' w) t'" and g: "context_grown ?k ?f v ?t c c'"
    unfolding idx_after_children [OF rep x] idx'_def by (auto simp: children_def)
  have w: "w \<in> dom M" using x by blast
  have dom: "dom (put_tree w v t' M) = insert (w @ [v]) (dom M)" by (rule put_tree_dom [OF w])
  have inj: "inj_on idx (dom M)" and lt: "\<And>u. u \<in> dom M \<Longrightarrow> idx u < ?new" using rep by (auto simp: trie_rep_def)
  have old: "u \<in> dom M \<Longrightarrow> idx' u = idx u" for u by (simp add: idx'_def idx_after_old)
  have M: "model_ok M" using rep by (simp add: trie_rep_def)
  have fresh: "idx' (w @ [v]) = ?new" if "w @ [v] \<notin> dom M" using that by (simp add: idx'_def idx_after_def new)
  have next': "rc_nextSymbol c' = card (insert (w @ [v]) (dom M))"
    using g new M r(5) [of v] by (auto simp: context_grown_def model_ok_def card_insert_if split: if_splits)
  have part: "context_part (rc_symbols c' (idx u)) = context_part (rc_symbols c (idx u))" if "u \<in> dom M" "u \<noteq> w" for u
  proof -
    have "idx u \<noteq> idx w" using inj_onD [OF inj _ that(1) w] that(2) by blast
    moreover have "idx u \<noteq> ?new" using lt [OF that(1)] by simp
    ultimately show ?thesis using g by (simp add: context_grown_def)
  qed
  have kk: "\<exists>y. rc_symbols c' ?k = (rc_symbols c ?k)\<lparr>sy_symbols := y\<rparr>" using g by (simp add: context_grown_def)
  have "ctx_rep c' idx' u z" if z: "put_tree w v t' M u = Some z" for u z
  proof -
    consider "u = w" | "u \<noteq> w" "M u = None" "u = w @ [v]" "z = empty_ctx" | "u \<noteq> w" "M u = Some z"
      using z by (cases "M u") (auto simp: put_tree_def split: if_splits)
    then show ?thesis
    proof cases
      case 1
      then have "z = x\<lparr>cx_tree := t'\<rparr>" using z x by (simp add: put_tree_def)
      moreover have "ctx_rep c idx w x" using rep x by (simp add: trie_rep_def)
      ultimately show ?thesis using rep' kk old [OF w] 1 by (auto simp: ctx_rep_def)
    next
      case 2
      then have "w @ [v] \<notin> dom M" by auto
      then have "context_part (rc_symbols c' ?new) = (v, 0, 0, 0, 0)" "idx' u = ?new"
        using g r(5) [of v] fresh 2(3) by (auto simp: context_grown_def)
      then show ?thesis using 2(4) by (simp add: ctx_rep_def context_rep_def empty_ctx_def context_part_def)
    next
      case 3
      then have u: "u \<in> dom M" by blast
      have "ctx_rep c' idx' u z = ctx_rep c idx u z"
      proof (rule ctx_rep_cong)
        fix y assume "y \<in> tree_values (cx_tree z)"
        then have uy: "u @ [y] \<in> dom M" using M 3(2) by (simp add: model_ok_def)
        then show "idx' (u @ [y]) = idx (u @ [y])" by (rule old)
        have "idx (u @ [y]) \<notin> ?f ` tree_values ?t"
        proof
          assume "idx (u @ [y]) \<in> ?f ` tree_values ?t"
          then obtain y' where "y' \<in> tree_values ?t" "idx (u @ [y]) = idx (w @ [y'])" by (auto simp: children_def)
          then have "u @ [y] = w @ [y']" using inj_onD [OF inj _ uy] r(5) [of y'] by blast
          then show False using 3(1) by simp
        qed
        moreover have "idx (u @ [y]) \<noteq> ?new" using lt [OF uy] by simp
        ultimately show "tree_part (rc_symbols c' (idx (u @ [y]))) = tree_part (rc_symbols c (idx (u @ [y])))"
          using g kk by (cases "idx (u @ [y]) = ?k") (auto simp: context_grown_def tree_part_def)
      qed (use part [OF u 3(1)] old [OF u] in \<open>simp_all add: context_part_def\<close>)
      then show ?thesis using rep 3(2) by (simp add: trie_rep_def)
    qed
  qed
  moreover have "inj_on idx' (insert (w @ [v]) (dom M))"
  proof (cases "w @ [v] \<in> dom M")
    case True
    then show ?thesis using inj by (simp add: idx'_def idx_after_def insert_absorb)
  next
    case False
    have "idx' (w @ [v]) \<notin> idx' ` dom M"
      using fresh [OF False] lt old by (metis imageE less_irrefl)
    moreover have "inj_on idx' (dom M)" using inj old by (simp add: inj_on_def)
    ultimately show ?thesis using False by (simp add: inj_on_insert)
  qed
  moreover have "idx' [] = 0" using old [of "[]"] M rep by (simp add: trie_rep_def model_ok_def)
  moreover have "idx' u < card (insert (w @ [v]) (dom M))" if "u \<in> insert (w @ [v]) (dom M)" for u
  proof (cases "u \<in> dom M")
    case True
    moreover have "card (dom M) \<le> card (insert (w @ [v]) (dom M))" using M by (intro card_mono) (auto simp: model_ok_def)
    ultimately show ?thesis using lt [OF True] old [OF True] new by simp
  next
    case False
    then have "u = w @ [v]" "w @ [v] \<notin> dom M" using that by auto
    then show ?thesis using fresh new M by (simp add: model_ok_def)
  qed
  moreover have "model_ok (put_tree w v t' M)" by (rule put_tree_ok [OF M x t' room])
  ultimately have "trie_rep c' idx' (put_tree w v t' M)" using next' by (simp add: trie_rep_def dom)
  moreover have "grown_frame idx w v M c c'"
    unfolding grown_frame_def
  proof (intro conjI ballI impI)
    show "rc_predicted c' = rc_predicted c" "rc_order c' = rc_order c" using g by (simp_all add: context_grown_def)
    show "sy_parent (rc_symbols c' (idx u)) = sy_parent (rc_symbols c (idx u))" if "u \<in> dom M" for u
      using part [OF that] kk by (cases "u = w") (auto simp: context_part_def)
    show "sy_parent (rc_symbols c' (card (dom M))) = 0" if "w @ [v] \<notin> dom M"
      using g that r(5) [of v] new by (auto simp: context_grown_def context_part_def)
  qed
  ultimately show ?thesis using e by blast
qed

section \<open>The other fields\<close>

text \<open>Totals of a context.\<close>

lemma put_totals_dom [simp]: "dom (put_totals w e t M) = dom M"
  by (auto simp: put_totals_def map_option_case split: if_splits option.splits)

lemma put_totals_ok: "model_ok M \<Longrightarrow> model_ok (put_totals w e t M)"
proof -
  assume M: "model_ok M"
  have "tree_sorted (cx_tree x) \<and> (\<forall>v. u @ [v] \<in> dom M \<longleftrightarrow> v \<in> tree_values (cx_tree x))" if "put_totals w e t M u = Some x" for u x
    using M that unfolding model_ok_def put_totals_def by (cases "M u") (auto split: if_splits)
  then show ?thesis using M unfolding model_ok_def by simp
qed

lemma trie_upd:
  assumes rep: "trie_rep c idx M"
    and g: "\<And>s. tree_part (g s) = tree_part s" "\<And>s. sy_symbols (g s) = sy_symbols s"
  shows "w \<in> dom M \<Longrightarrow> sy_escapes (g (rc_symbols c (idx w))) = e \<Longrightarrow> sy_total (g (rc_symbols c (idx w))) = t \<Longrightarrow>
      trie_rep (upd_sym (idx w) g c) idx (put_totals w e t M)"
    and "(\<And>s. sy_escapes (g s) = sy_escapes s \<and> sy_total (g s) = sy_total s) \<Longrightarrow> trie_rep (upd_sym k g c) idx M"
proof -
  have inj: "inj_on idx (dom M)" and ok: "model_ok M" and ctx: "\<And>u x. M u = Some x \<Longrightarrow> ctx_rep c idx u x"
    using rep by (simp_all add: trie_rep_def)
  show "trie_rep (upd_sym (idx w) g c) idx (put_totals w e t M)"
    if w: "w \<in> dom M" and gt: "sy_escapes (g (rc_symbols c (idx w))) = e" "sy_total (g (rc_symbols c (idx w))) = t"
  proof -
    have "ctx_rep (upd_sym (idx w) g c) idx u x" if "put_totals w e t M u = Some x" for u x
    proof (cases "u = w")
      case True
      obtain y where y: "M w = Some y" using w by blast
      then have x: "x = y\<lparr>cx_escapes := e, cx_total := t\<rparr>" using that True by (simp add: put_totals_def)
      have "tree_rep ((rc_symbols c)(idx w := g (rc_symbols c (idx w)))) (children idx w) (cx_tree y)
          = tree_rep (rc_symbols c) (children idx w) (cx_tree y)"
        by (rule tree_rep_part_cong) (simp_all add: g)
      then show ?thesis using ctx [OF y] True g gt by (simp add: x ctx_rep_def context_rep_def)
    next
      case False
      then have u: "M u = Some x" using that by (simp add: put_totals_def)
      then have "idx u \<noteq> idx w" using inj_onD [OF inj _ _ w] False by blast
      then have "ctx_rep (upd_sym (idx w) g c) idx u x = ctx_rep c idx u x"
        by (intro ctx_rep_cong) (simp_all add: g)
      then show ?thesis using ctx [OF u] by simp
    qed
    then show ?thesis using rep put_totals_ok [OF ok] unfolding trie_rep_def by simp
  qed
  show "trie_rep (upd_sym k g c) idx M" if gt: "\<And>s. sy_escapes (g s) = sy_escapes s \<and> sy_total (g s) = sy_total s"
  proof -
    have "ctx_rep (upd_sym k g c) idx u x = ctx_rep c idx u x" for u x
      by (intro ctx_rep_cong) (simp_all add: g gt)
    then show ?thesis using rep unfolding trie_rep_def by simp
  qed
qed

lemma trie_set_parent: "trie_rep c idx M \<Longrightarrow> trie_rep (set_parent p s c) idx M"
proof (cases p)
  case ParentPredicted
  assume rep: "trie_rep c idx M"
  have "ctx_rep (set_parent p s c) idx u x = ctx_rep c idx u x" for u x
    by (intro ctx_rep_cong) (simp_all add: ParentPredicted)
  then show ?thesis using rep by (simp add: trie_rep_def ParentPredicted)
next
  case (ParentOf k)
  assume "trie_rep c idx M"
  then show ?thesis unfolding ParentOf set_parent.simps by (rule trie_upd(2)) (simp_all add: tree_part_def)
qed

text \<open>Rescaling a context.\<close>

definition ctx_rescale :: "u16 \<Rightarrow> ctx \<Rightarrow> ctx" where
  "ctx_rescale minimum x =
    (let escapes = cx_escapes x - drop_bit 1 (cx_escapes x)
     in \<lparr>cx_tree = snd (tree_rescale (cx_tree x)), cx_escapes = escapes,
         cx_total = fst (tree_rescale (cx_tree x)) + escapes + 256 * minimum\<rparr>)"

definition same_links :: "(u8 list \<Rightarrow> nat) \<Rightarrow> model \<Rightarrow> ENetRangeCoder \<Rightarrow> ENetRangeCoder \<Rightarrow> bool" where
  "same_links idx M c c' \<longleftrightarrow> rc_predicted c' = rc_predicted c \<and> rc_order c' = rc_order c
     \<and> (\<forall>u \<in> dom M. sy_parent (rc_symbols c' (idx u)) = sy_parent (rc_symbols c (idx u)))"

lemma trie_rescale:
  assumes rep: "trie_rep c idx M" and x: "M w = Some x"
  shows "\<exists>c'. ENET_CONTEXT_RESCALE (idx w) minimum c = Some (Go c')
    \<and> trie_rep c' idx (M(w \<mapsto> ctx_rescale minimum x)) \<and> same_links idx M c c'"
proof -
  note r = trie_repD [OF rep x]
  let ?f = "children idx w" and ?t = "cx_tree x" and ?k = "idx w" and ?x = "ctx_rescale minimum x"
  from context_rescale_spec [OF r(1-3) _ r(6), of minimum] r(4) obtain c' where
    c': "ENET_CONTEXT_RESCALE ?k minimum c = Some (Go c')" "context_rep c' ?k ?f (snd (tree_rescale ?t))"
    and g: "context_rescaled ?k ?f ?t minimum c c'" by blast
  have inj: "inj_on idx (dom M)" and M: "model_ok M" and ctx: "\<And>u x. M u = Some x \<Longrightarrow> ctx_rep c idx u x" and w: "w \<in> dom M"
    using rep x by (auto simp: trie_rep_def)
  have kk: "rc_symbols c' ?k = rescaled_symbol ?t minimum (rc_symbols c ?k)" using g by (simp add: context_rescaled_def)
  have "ctx_rep c' idx u z" if z: "(M(w \<mapsto> ?x)) u = Some z" for u z
  proof (cases "u = w")
    case True
    then show ?thesis
      using z c'(2) ctx [OF x] kk by (auto simp: ctx_rep_def ctx_rescale_def rescaled_symbol_def Let_def)
  next
    case False
    then have u: "M u = Some z" "idx u \<noteq> ?k" using z inj_onD [OF inj _ _ w, of u] by auto
    have "ctx_rep c' idx u z = ctx_rep c idx u z"
    proof (rule ctx_rep_cong)
      fix y assume "y \<in> tree_values (cx_tree z)"
      then have uy: "u @ [y] \<in> dom M" using M u(1) by (simp add: model_ok_def)
      have "idx (u @ [y]) \<notin> ?f ` tree_values ?t"
      proof
        assume "idx (u @ [y]) \<in> ?f ` tree_values ?t"
        then obtain y' where "y' \<in> tree_values ?t" "idx (u @ [y]) = idx (w @ [y'])" by (auto simp: children_def)
        then have "u @ [y] = w @ [y']" using inj_onD [OF inj _ uy] r(5) [of y'] by blast
        then show False using False by simp
      qed
      then show "tree_part (rc_symbols c' (idx (u @ [y]))) = tree_part (rc_symbols c (idx (u @ [y])))"
        using g kk by (cases "idx (u @ [y]) = ?k") (simp_all add: context_rescaled_def tree_part_def rescaled_symbol_def Let_def)
    qed (use g u(2) in \<open>simp_all add: context_rescaled_def context_part_def\<close>)
    then show ?thesis using ctx [OF u(1)] by simp
  qed
  moreover have dom: "dom (M(w \<mapsto> ?x)) = dom M" using w by auto
  moreover have "tree_sorted (cx_tree z) \<and> (\<forall>v. u @ [v] \<in> dom M \<longleftrightarrow> v \<in> tree_values (cx_tree z))"
    if "(M(w \<mapsto> ?x)) u = Some z" for u z
  proof (cases "u = w")
    case True
    then have "z = ?x" using that by simp
    then show ?thesis using True r(2,5) by (simp add: ctx_rescale_def Let_def tree_sorted_rescale)
  next
    case False
    then show ?thesis using that M by (simp add: model_ok_def)
  qed
  then have "model_ok (M(w \<mapsto> ?x))"
    using M unfolding model_ok_def dom by blast
  ultimately have "trie_rep c' idx (M(w \<mapsto> ?x))"
    using rep g unfolding trie_rep_def dom by (simp add: context_rescaled_def)
  moreover have "same_links idx M c c'"
    unfolding same_links_def
  proof (intro conjI ballI)
    show "rc_predicted c' = rc_predicted c" "rc_order c' = rc_order c" using g by (simp_all add: context_rescaled_def)
    show "sy_parent (rc_symbols c' (idx u)) = sy_parent (rc_symbols c (idx u))" for u
      using g kk by (cases "idx u = ?k") (simp_all add: context_rescaled_def context_part_def rescaled_symbol_def Let_def)
  qed
  ultimately show ?thesis using c'(1) by blast
qed

end
