(* ===== verification/ENet_Learning.thy ===== *)
theory ENet_Learning
  imports ENet_Tries
begin

text \<open>
  How a context learns a value, on the model and in the array, and the numeric invariant of the
  contexts that keeps the 8-bit and 16-bit counts from wrapping around.
\<close>

section \<open>Learning\<close>

definition ctx_count :: "u8 \<Rightarrow> u8 \<Rightarrow> u16 \<Rightarrow> ctx \<Rightarrow> u16 \<times> u16 \<times> ctx_tree" where
  "ctx_count v update minimum x = tree_count v update (ucast v * minimum) minimum (cx_tree x)"

definition ctx_add :: "u16 \<Rightarrow> u16 \<Rightarrow> ctx \<Rightarrow> ctx" where
  "ctx_add e t x = x\<lparr>cx_escapes := cx_escapes x + e, cx_total := cx_total x + t\<rparr>"

definition settle :: "u16 \<Rightarrow> u16 \<Rightarrow> u16 \<Rightarrow> ctx \<Rightarrow> ctx" where
  "settle limit minimum m x = (if m > limit \<or> cx_total x > 65280 then ctx_rescale minimum x else x)"

definition learn_sub :: "u8 \<Rightarrow> ctx \<Rightarrow> ctx" where
  "learn_sub v x = (case ctx_count v 2 0 x of (b, m, t) \<Rightarrow>
     settle 251 0 m (ctx_add 0 2 (if m \<le> 0 then ctx_add 5 5 (x\<lparr>cx_tree := t\<rparr>) else x\<lparr>cx_tree := t\<rparr>)))"

definition learn_root :: "u8 \<Rightarrow> ctx \<Rightarrow> ctx" where
  "learn_root v x = (case ctx_count v 3 1 x of (b, m, t) \<Rightarrow> settle 250 1 m (ctx_add 0 3 (x\<lparr>cx_tree := t\<rparr>)))"

definition learn :: "u8 \<Rightarrow> u8 list \<Rightarrow> ctx \<Rightarrow> ctx" where
  "learn v w x = (if w = [] then learn_root v x else learn_sub v x)"

text \<open>The contexts \<open>W\<close> have learned \<open>v\<close>.\<close>

definition learned :: "u8 \<Rightarrow> u8 list set \<Rightarrow> model \<Rightarrow> model" where
  "learned v W M = (\<lambda>u. if u \<in> W then map_option (learn v u) (M u)
     else if M u = None \<and> u \<noteq> [] \<and> last u = v \<and> butlast u \<in> W then Some empty_ctx else M u)"

lemma learned_empty [simp]: "learned v {} M = M"
  by (simp add: learned_def)

lemma learned_insert:
  assumes "W \<subseteq> dom M" "w \<in> dom M" "w \<notin> W"
  shows "learned v {w} (learned v W M) = learned v (insert w W) M"
proof
  fix u
  show "learned v {w} (learned v W M) u = learned v (insert w W) M u"
    using assms by (cases "M u") (auto simp: learned_def subset_iff)
qed

lemma learned_other: "w \<in> dom M \<Longrightarrow> w \<notin> W \<Longrightarrow> learned v W M w = M w"
  by (auto simp: learned_def)

lemma dom_learned: "W \<subseteq> dom M \<Longrightarrow> dom (learned v W M) = dom M \<union> (\<lambda>w. w @ [v]) ` W"
proof -
  assume W: "W \<subseteq> dom M"
  have "u \<in> (\<lambda>w. w @ [v]) ` W \<longleftrightarrow> u \<noteq> [] \<and> last u = v \<and> butlast u \<in> W" for u
    by (cases u rule: rev_cases) (auto simp: image_iff)
  then show ?thesis using W by (auto simp: learned_def dom_def split: if_splits)
qed

section \<open>The numeric invariant\<close>

definition ctx_ok :: "nat \<Rightarrow> nat \<Rightarrow> ctx \<Rightarrow> bool" where
  "ctx_ok minimum cap x \<longleftrightarrow> tree_sorted (cx_tree x) \<and> counted (cx_tree x) \<and> (\<forall>v. weight_of v (cx_tree x) \<le> cap)
     \<and> unat (cx_total x) = unat (cx_escapes x) + weight (cx_tree x) + 256 * minimum \<and> unat (cx_total x) \<le> 65280"

definition sub_ok :: "ctx \<Rightarrow> bool" where
  "sub_ok x \<longleftrightarrow> ctx_ok 0 253 x \<and> (cx_tree x = Tip \<longleftrightarrow> cx_escapes x = 0)"

definition root_ok :: "ctx \<Rightarrow> bool" where
  "root_ok x \<longleftrightarrow> ctx_ok 1 252 x \<and> 1 \<le> unat (cx_escapes x)"

definition any_ok :: "u8 list \<Rightarrow> ctx \<Rightarrow> bool" where
  "any_ok w x \<longleftrightarrow> (if w = [] then root_ok x else sub_ok x)"

lemma half_u16: "unat (e - drop_bit 1 e :: u16) = unat e - unat e div 2"
proof -
  have h: "unat (drop_bit 1 e) = unat e div 2" unfolding unat_drop_bit_eq by (simp add: drop_bit_eq_div)
  then have "drop_bit 1 e \<le> e" unfolding word_le_nat_alt by simp
  then show ?thesis using h unat_sub by metis
qed

text \<open>Before it is settled, a context may exceed the bounds a little.\<close>

lemma settle_ok:
  assumes t: "tree_sorted (cx_tree x)" "counted (cx_tree x)"
    and total: "unat (cx_total x) = unat (cx_escapes x) + weight (cx_tree x) + 256 * unat minimum" "unat (cx_total x) \<le> 65300"
    and cap: "\<And>v. weight_of v (cx_tree x) \<le> 255" "128 \<le> cap" "unat minimum \<le> 1"
    and small: "m \<le> limit \<Longrightarrow> \<forall>v. weight_of v (cx_tree x) \<le> cap"
  shows "ctx_ok (unat minimum) cap (settle limit minimum m x)"
    and "cx_escapes (settle limit minimum m x) = 0 \<longleftrightarrow> cx_escapes x = 0" "cx_tree (settle limit minimum m x) = Tip \<longleftrightarrow> cx_tree x = Tip"
    and "tree_values (cx_tree (settle limit minimum m x)) = tree_values (cx_tree x)"
proof -
  let ?t = "cx_tree x" and ?e = "cx_escapes x"
  have W: "weight ?t < 65536" using total by simp
  note r = tree_rescale_weight [OF t W]
  have e: "unat (?e - drop_bit 1 ?e) = unat ?e - unat ?e div 2" by (rule half_u16)
  have n: "nodes ?t \<le> 256" by (rule nodes_le [OF t(1)])
  have m1: "unat (256 * minimum) = 256 * unat minimum"
    using zero_or_one [OF cap(3)] by auto
  have 1: "unat (fst (tree_rescale ?t) + (?e - drop_bit 1 ?e)) = weight (snd (tree_rescale ?t)) + (unat ?e - unat ?e div 2)"
    using r e n total by (subst u16_add) auto
  have 2: "unat (fst (tree_rescale ?t) + (?e - drop_bit 1 ?e) + 256 * minimum)
      = weight (snd (tree_rescale ?t)) + (unat ?e - unat ?e div 2) + 256 * unat minimum"
    unfolding m1 [symmetric] 1 [symmetric] by (rule u16_add) (unfold m1 1, use r n total cap(3) in linarith)
  show "ctx_ok (unat minimum) cap (settle limit minimum m x)"
  proof (cases "m > limit \<or> cx_total x > 65280")
    case True
    then have x': "settle limit minimum m x = ctx_rescale minimum x" by (simp add: settle_def)
    have "weight_of v (snd (tree_rescale ?t)) \<le> cap" for v
    proof -
      have "2 * weight_of v (snd (tree_rescale ?t)) \<le> weight_of v ?t + 1" using r by blast
      then show ?thesis using cap(1) [of v] cap(2) by linarith
    qed
    moreover have "unat (fst (tree_rescale ?t) + (?e - drop_bit 1 ?e) + 256 * minimum) \<le> 65280"
      unfolding 2 using r n total cap(3) by linarith
    ultimately show ?thesis unfolding x' using r 2 e by (simp add: ctx_ok_def ctx_rescale_def Let_def add.commute)
  next
    case False
    then have x': "settle limit minimum m x = x" "m \<le> limit" "unat (cx_total x) \<le> 65280"
      by (simp_all add: settle_def word_less_nat_alt word_le_nat_alt)
    then show ?thesis using t total small by (simp add: ctx_ok_def)
  qed
  have "unat (?e - drop_bit 1 ?e) = 0 \<longleftrightarrow> unat ?e = 0" unfolding e by linarith
  then have "?e - drop_bit 1 ?e = 0 \<longleftrightarrow> ?e = 0" by (simp add: unat_eq_zero)
  then show "cx_escapes (settle limit minimum m x) = 0 \<longleftrightarrow> cx_escapes x = 0"
    by (simp add: settle_def ctx_rescale_def Let_def)
  show "cx_tree (settle limit minimum m x) = Tip \<longleftrightarrow> cx_tree x = Tip"
    by (simp add: settle_def ctx_rescale_def Let_def top_value_rescale)
  show "tree_values (cx_tree (settle limit minimum m x)) = tree_values (cx_tree x)"
    by (simp add: settle_def ctx_rescale_def Let_def)
qed

lemma add_u16 [simp]: "unat (x :: u16) + unat y < 65536 \<Longrightarrow> unat (x + y) = unat x + unat y"
  by (rule u16_add)

text \<open>A context other than the root.\<close>

lemma sub_count:
  assumes ok: "sub_ok x" and count: "ctx_count v 2 0 x = (b, m, t)"
  shows "unat b = weight_below v (cx_tree x)" "unat m = weight_of v (cx_tree x)"
    "counted_once_more v 2 (cx_tree x) t" "m = 0 \<longleftrightarrow> v \<notin> tree_values (cx_tree x)"
    "unat b + unat m + unat (cx_escapes x) \<le> unat (cx_total x)"
proof -
  have t: "tree_sorted (cx_tree x)" "counted (cx_tree x)" "weight (cx_tree x) + unat (cx_escapes x) \<le> 65280"
    "weight_of v (cx_tree x) \<le> 253" "unat (cx_total x) = unat (cx_escapes x) + weight (cx_tree x)"
    using ok by (auto simp: sub_ok_def ctx_ok_def)
  have c: "tree_count v 2 0 0 (cx_tree x) = (b, m, t)" using count by (simp add: ctx_count_def)
  note bm = tree_count_value [OF t(1,2) _ _ c]
  show b: "unat b = weight_below v (cx_tree x)" and m: "unat m = weight_of v (cx_tree x)" using bm t(3) by simp_all
  show "counted_once_more v 2 (cx_tree x) t"
    using tree_count_tree [OF t(1,2), of v 2 0 0] t(3,4) c by simp
  show "m = 0 \<longleftrightarrow> v \<notin> tree_values (cx_tree x)"
    using m weight_outside [of v "cx_tree x"] weight_positive [OF t(2), of v] by (auto simp: unat_eq_zero)
  show "unat b + unat m + unat (cx_escapes x) \<le> unat (cx_total x)"
    unfolding b m t(5) using weight_split [of v "cx_tree x"] by linarith
qed

lemma learn_sub_ok:
  assumes ok: "sub_ok x"
  shows "sub_ok (learn_sub v x)" "tree_values (cx_tree (learn_sub v x)) = insert v (tree_values (cx_tree x))"
proof -
  obtain b m t where count: "ctx_count v 2 0 x = (b, m, t)" by (metis prod_cases3)
  note c = sub_count [OF ok count]
  have x: "ctx_ok 0 253 x" "cx_tree x = Tip \<longleftrightarrow> cx_escapes x = 0" using ok by (simp_all add: sub_ok_def)
  define y where "y = ctx_add 0 2 (if m \<le> 0 then ctx_add 5 5 (x\<lparr>cx_tree := t\<rparr>) else x\<lparr>cx_tree := t\<rparr>)"
  have y: "learn_sub v x = settle 251 0 m y" by (simp add: learn_sub_def count y_def)
  have t: "cx_tree y = t" by (simp add: y_def ctx_add_def)
  have e: "unat (cx_escapes y) = unat (cx_escapes x) + (if m = 0 then 5 else 0)"
    using x(1) by (auto simp: y_def ctx_add_def ctx_ok_def)
  have tot: "unat (cx_total y) = unat (cx_total x) + (if m = 0 then 7 else 2)"
    using x(1) by (auto simp: y_def ctx_add_def ctx_ok_def)
  have s: "ctx_ok (unat (0 :: u16)) 253 (settle 251 0 m y)" "cx_escapes (settle 251 0 m y) = 0 \<longleftrightarrow> cx_escapes y = 0"
    "cx_tree (settle 251 0 m y) = Tip \<longleftrightarrow> cx_tree y = Tip" "tree_values (cx_tree (settle 251 0 m y)) = tree_values (cx_tree y)"
  proof -
    have 1: "tree_sorted (cx_tree y)" "counted (cx_tree y)" using c(3) by (simp_all add: t counted_once_more_def)
    have 2: "unat (cx_total y) = unat (cx_escapes y) + weight (cx_tree y) + 256 * unat (0 :: u16)" "unat (cx_total y) \<le> 65300"
      using c(3) x(1) e tot by (simp_all add: t counted_once_more_def ctx_ok_def)
    have w: "weight_of u (cx_tree x) \<le> 253" "weight_of u t = weight_of u (cx_tree x) + (if u = v then 2 else 0)" for u
      using x(1) c(3) by (simp_all add: ctx_ok_def counted_once_more_def)
    have 3: "weight_of u (cx_tree y) \<le> 255" for u using w(1) [of u] unfolding t w(2) by (cases "u = v") simp_all
    have 4: "\<forall>u. weight_of u (cx_tree y) \<le> 253" if "m \<le> 251"
    proof
      have "weight_of v (cx_tree x) \<le> 251" using that c(2) by (simp add: word_le_nat_alt)
      then show "weight_of u (cx_tree y) \<le> 253" for u using w(1) [of u] unfolding t w(2) by (cases "u = v") simp_all
    qed
    note settle = settle_ok [OF 1 2 3 _ _ 4]
    show "ctx_ok (unat (0 :: u16)) 253 (settle 251 0 m y)" by (rule settle(1)) simp_all
    show "cx_escapes (settle 251 0 m y) = 0 \<longleftrightarrow> cx_escapes y = 0" by (rule settle(2)) simp_all
    show "cx_tree (settle 251 0 m y) = Tip \<longleftrightarrow> cx_tree y = Tip" by (rule settle(3)) simp_all
    show "tree_values (cx_tree (settle 251 0 m y)) = tree_values (cx_tree y)" by (rule settle(4)) simp_all
  qed
  have "t \<noteq> Tip" using c(3) by (auto simp: counted_once_more_def)
  moreover have "cx_escapes y \<noteq> 0"
    using e x(2) c(4) by (cases "m = 0") (auto simp: unat_eq_zero)
  ultimately show "sub_ok (learn_sub v x)" using s t by (simp add: sub_ok_def y)
  show "tree_values (cx_tree (learn_sub v x)) = insert v (tree_values (cx_tree x))"
    using s(4) t c(3) by (simp add: y counted_once_more_def)
qed

text \<open>The root.\<close>

lemma root_count:
  assumes ok: "root_ok x" and count: "ctx_count v 3 1 x = (b, m, t)"
  shows "unat b = unat v + weight_below v (cx_tree x)" "unat m = 1 + weight_of v (cx_tree x)"
    "counted_once_more v 3 (cx_tree x) t" "unat b + unat m + unat (cx_escapes x) \<le> unat (cx_total x)"
proof -
  have t: "tree_sorted (cx_tree x)" "counted (cx_tree x)" "weight (cx_tree x) + unat (cx_escapes x) + 256 \<le> 65280"
    "weight_of v (cx_tree x) \<le> 252" "unat (cx_total x) = unat (cx_escapes x) + weight (cx_tree x) + 256"
    using ok by (auto simp: root_ok_def ctx_ok_def)
  have c: "tree_count v 3 (ucast v) 1 (cx_tree x) = (b, m, t)" using count by (simp add: ctx_count_def)
  note bm = tree_count_value [OF t(1,2) _ _ c]
  show b: "unat b = unat v + weight_below v (cx_tree x)" and m: "unat m = 1 + weight_of v (cx_tree x)"
    using bm t(3) u8_below [of v] by simp_all
  show "counted_once_more v 3 (cx_tree x) t"
    using tree_count_tree [OF t(1,2), of v 3 "ucast v" 1] t(3,4) c by simp
  show "unat b + unat m + unat (cx_escapes x) \<le> unat (cx_total x)"
    unfolding b m t(5) using weight_split [of v "cx_tree x"] u8_below [of v] by linarith
qed

lemma learn_root_ok:
  assumes ok: "root_ok x"
  shows "root_ok (learn_root v x)" "tree_values (cx_tree (learn_root v x)) = insert v (tree_values (cx_tree x))"
proof -
  obtain b m t where count: "ctx_count v 3 1 x = (b, m, t)" by (metis prod_cases3)
  note c = root_count [OF ok count]
  have x: "ctx_ok 1 252 x" "1 \<le> unat (cx_escapes x)" using ok by (simp_all add: root_ok_def)
  define y where "y = ctx_add 0 3 (x\<lparr>cx_tree := t\<rparr>)"
  have y: "learn_root v x = settle 250 1 m y" by (simp add: learn_root_def count y_def)
  have t: "cx_tree y = t" "cx_escapes y = cx_escapes x" by (simp_all add: y_def ctx_add_def)
  have tot: "unat (cx_total y) = unat (cx_total x) + 3"
    using x(1) by (auto simp: y_def ctx_add_def ctx_ok_def)
  have s: "ctx_ok (unat (1 :: u16)) 252 (settle 250 1 m y)" "cx_escapes (settle 250 1 m y) = 0 \<longleftrightarrow> cx_escapes y = 0"
    "tree_values (cx_tree (settle 250 1 m y)) = tree_values (cx_tree y)"
  proof -
    have 1: "tree_sorted (cx_tree y)" "counted (cx_tree y)" using c(3) by (simp_all add: t counted_once_more_def)
    have 2: "unat (cx_total y) = unat (cx_escapes y) + weight (cx_tree y) + 256 * unat (1 :: u16)" "unat (cx_total y) \<le> 65300"
      using c(3) x(1) tot by (simp_all add: t counted_once_more_def ctx_ok_def)
    have w: "weight_of u (cx_tree x) \<le> 252" "weight_of u t = weight_of u (cx_tree x) + (if u = v then 3 else 0)" for u
      using x(1) c(3) by (simp_all add: ctx_ok_def counted_once_more_def)
    have 3: "weight_of u (cx_tree y) \<le> 255" for u using w(1) [of u] unfolding t w(2) by (cases "u = v") simp_all
    have 4: "\<forall>u. weight_of u (cx_tree y) \<le> 252" if "m \<le> 250"
    proof
      have "weight_of v (cx_tree x) \<le> 249" using that c(2) by (simp add: word_le_nat_alt)
      then show "weight_of u (cx_tree y) \<le> 252" for u using w(1) [of u] unfolding t w(2) by (cases "u = v") simp_all
    qed
    note settle = settle_ok [OF 1 2 3 _ _ 4]
    show "ctx_ok (unat (1 :: u16)) 252 (settle 250 1 m y)" by (rule settle(1)) simp_all
    show "cx_escapes (settle 250 1 m y) = 0 \<longleftrightarrow> cx_escapes y = 0" by (rule settle(2)) simp_all
    show "tree_values (cx_tree (settle 250 1 m y)) = tree_values (cx_tree y)" by (rule settle(4)) simp_all
  qed
  have "cx_escapes (settle 250 1 m y) \<noteq> 0" using s(2) x(2) t(2) by auto
  then have "1 \<le> unat (cx_escapes (settle 250 1 m y))" by (simp add: Suc_le_eq unat_gt_0)
  then show "root_ok (learn_root v x)" using s(1) by (simp add: root_ok_def y)
  show "tree_values (cx_tree (learn_root v x)) = insert v (tree_values (cx_tree x))"
    using s(3) t c(3) by (simp add: y counted_once_more_def)
qed

end
