(* ===== verification/ENet_RangeCoding.thy ===== *)
theory ENet_RangeCoding
  imports ENet_Range
begin

text \<open>
  The arithmetic of the range coder: the registers of the encoder always describe a part of the
  interval they described before, the final output lies in all of them, and the decoder that
  reads that output keeps the same registers and finds each coded symbol in its place.
\<close>

section \<open>The registers\<close>

definition interval_ok :: "nat \<Rightarrow> nat \<Rightarrow> bool" where
  "interval_ok low rg \<longleftrightarrow> 1 \<le> rg \<and> low + rg \<le> 4294967296 \<and> (low + rg < 4294967296 \<or> rg \<le> 4294967296 - 16777216)"

text \<open>The condition of the loop over the values of the registers.\<close>

lemma unat_drop_byte: "unat (drop_bit 24 x) = unat x div 16777216"
  unfolding unat_drop_bit_eq by (simp add: drop_bit_eq_div)

lemma u32_less: "unat (x :: u32) < 4294967296"
  using unsigned_less [of x] by simp

lemma u8_less: "unat (x :: u8) < 256"
  using unsigned_less [of x] by simp

lemma straddles_unat: "straddles low rg \<longleftrightarrow> unat low div 16777216 \<noteq> unat (low + rg) div 16777216"
proof -
  have "straddles low rg \<longleftrightarrow> unat (low XOR (low + rg)) div 16777216 \<noteq> 0"
    by (simp add: straddles_def ENET_RANGE_CODER_TOP_def word_le_nat_alt div_eq_0_iff not_less)
  also have "\<dots> \<longleftrightarrow> drop_bit 24 (low XOR (low + rg)) \<noteq> 0"
    unfolding unat_drop_byte [symmetric] by (simp only: unsigned_0 unat_eq_zero simp_thms)
  also have "\<dots> \<longleftrightarrow> drop_bit 24 low \<noteq> drop_bit 24 (low + rg)"
    unfolding drop_bit_xor by (auto simp: bit_eq_iff bit_xor_iff)
  finally show ?thesis unfolding word_unat_eq_iff by (simp add: unat_drop_byte)
qed

lemma complement_mod: "x < 4294967296 \<Longrightarrow> (4294967296 - x) mod 65536 = (65536 - x mod 65536) mod (65536 :: nat)"
proof -
  assume x: "x < 4294967296"
  have q: "x div 65536 \<le> 65535" using x by (simp add: div_le_mono [of x 4294967295 65536, simplified])
  have "x = x div 65536 * 65536 + x mod 65536" by simp
  then have "4294967296 - x = (65536 - x mod 65536) + (65535 - x div 65536) * 65536"
    using q by (simp add: algebra_simps)
  then show ?thesis by (simp only: mod_mult_self1)
qed

lemma truncate_arith:
  fixes l r :: nat
  assumes "r < 65536" "l div 16777216 \<noteq> (l + r) div 16777216"
  shows "l mod 65536 + r \<ge> 65536" "l mod 16777216 + (65536 - l mod 65536) = 16777216"
proof -
  define a b c e where "a = l div 16777216" and "b = l mod 16777216" and "c = b div 65536" and "e = b mod 65536"
  have "b = c * 65536 + e" unfolding c_def e_def by simp
  moreover have "l = a * 16777216 + b" unfolding a_def b_def by simp
  moreover have "b < 16777216" "e < 65536" by (simp_all add: b_def e_def)
  moreover have "e = l mod 65536" unfolding e_def b_def by (rule mod_mod_cancel) simp
  ultimately have l: "l = a * 16777216 + b" "b < 16777216" "b = c * 65536 + e" "e < 65536" "e = l mod 65536"
    by simp_all
  have "b + r \<ge> 16777216"
  proof (rule ccontr)
    assume "\<not> b + r \<ge> 16777216"
    then have "(a * 16777216 + (b + r)) div 16777216 = a" by simp
    then have "(l + r) div 16777216 = a" unfolding l(1) by (simp only: add.assoc)
    then show False using assms(2) by (simp add: a_def)
  qed
  moreover from this have "c = 255" using l assms(1) by linarith
  ultimately have "e + r \<ge> 65536" "b + (65536 - e) = 16777216" using l by linarith+
  then show "l mod 65536 + r \<ge> 65536" "l mod 16777216 + (65536 - l mod 65536) = 16777216"
    unfolding b_def l(5) .
qed

lemma unat_truncated: "unat (truncated_range low) = (65536 - unat low mod 65536) mod 65536"
proof -
  have m: "ENET_RANGE_CODER_BOTTOM - 1 = mask 16" by (simp add: ENET_RANGE_CODER_BOTTOM_def mask_eq_exp_minus_1)
  have "truncated_range low = take_bit 16 (- low)" unfolding truncated_range_def m take_bit_eq_mask ..
  then have "unat (truncated_range low) = unat (- low) mod 65536"
    by (simp only: unsigned_take_bit_eq) (simp add: take_bit_eq_mod)
  also have "\<dots> = (4294967296 - unat low) mod 65536"
    using unat_sub_if' [of 0 low] by (cases "low = 0") (simp_all add: unat_gt_0 not_le)
  also have "\<dots> = (65536 - unat low mod 65536) mod 65536"
    using complement_mod [of "unat low"] unsigned_less [of low] by simp
  finally show ?thesis .
qed

lemma unat_shift_byte: "unat (push_bit 8 x :: u32) = unat x mod 16777216 * 256"
proof -
  have "unat (push_bit 8 x :: u32) = (unat x * 256) mod 4294967296"
    unfolding unsigned_push_bit_eq by (simp add: push_bit_eq_mult take_bit_eq_mod)
  then show ?thesis using mult_mod_left [of "unat x" "16777216" "256"] by simp
qed

text \<open>One round of the loop on the registers.\<close>

definition shift_range :: "u32 \<Rightarrow> u32 \<Rightarrow> u32" where
  "shift_range low rg = push_bit 8 (if straddles low rg then truncated_range low else rg)"

lemma add_no_wrap: "unat (low :: u32) + unat rg < 4294967296 \<Longrightarrow> unat (low + rg) = unat low + unat rg"
  by (simp add: unat_word_ariths)

lemma add_wrap: "unat (low :: u32) + unat rg = 4294967296 \<Longrightarrow> unat (low + rg) = 0"
  by (simp add: unat_word_ariths)

lemma shift_step:
  assumes ok: "interval_ok (unat low) (unat rg)" and go: "\<not> (straddles low rg \<and> rg \<ge> ENET_RANGE_CODER_BOTTOM)"
  shows "interval_ok (unat (push_bit 8 low)) (unat (shift_range low rg))"
    and "unat (shift_range low rg) div 256 \<le> unat rg"
    and "unat low + unat rg = 4294967296 \<Longrightarrow> unat (push_bit 8 low) + unat (shift_range low rg) = 4294967296 \<and> unat (shift_range low rg) > unat rg"
    and "unat (push_bit 8 low) + unat (shift_range low rg) = 4294967296 \<or> unat (shift_range low rg) > unat rg"
proof -
  let ?l = "unat low" and ?r = "unat rg"
  have l: "?l < 4294967296" "?r < 4294967296" by (rule u32_less)+
  have low': "unat (push_bit 8 low) = ?l mod 16777216 * 256" by (rule unat_shift_byte)
  have "interval_ok (unat (push_bit 8 low)) (unat (shift_range low rg)) \<and> unat (shift_range low rg) div 256 \<le> unat rg
    \<and> (unat low + unat rg = 4294967296 \<longrightarrow> unat (push_bit 8 low) + unat (shift_range low rg) = 4294967296 \<and> unat (shift_range low rg) > unat rg)
    \<and> (unat (push_bit 8 low) + unat (shift_range low rg) = 4294967296 \<or> unat (shift_range low rg) > unat rg)"
  proof (cases "straddles low rg")
    case True
    then have r: "?r < 65536" using go by (simp add: ENET_RANGE_CODER_BOTTOM_def word_le_nat_alt)
    define t where "t = (65536 - ?l mod 65536) mod (65536 :: nat)"
    have s: "unat (shift_range low rg) = t mod 16777216 * 256"
      using True by (simp add: shift_range_def unat_shift_byte unat_truncated t_def)
    have d: "?l div 16777216 \<noteq> (?l + ?r) div 16777216"
    proof (cases "?l + ?r < 4294967296")
      case True
      then show ?thesis using \<open>straddles low rg\<close> add_no_wrap [of low rg] by (simp add: straddles_unat)
    next
      case False
      then have "?l + ?r = 4294967296" using ok by (simp add: interval_ok_def)
      moreover have "1 \<le> ?r" using ok by (simp add: interval_ok_def)
      ultimately have "?l div 16777216 < 256" by (intro less_mult_imp_div_less) simp
      then show ?thesis using \<open>?l + ?r = 4294967296\<close> by simp
    qed
    have t: "1 \<le> t" "t \<le> ?r" "?l mod 16777216 + t = 16777216" "t < 65536"
      using truncate_arith [OF _ d [simplified], of] r by (simp_all add: t_def)
    moreover have "t = ?r" if "?l + ?r = 4294967296"
    proof -
      have e: "?l + ?r = 4294967296" using that by simp
      define k b where "k = ?l div 16777216" and "b = ?l mod 16777216"
      have "?l = k * 16777216 + b" unfolding k_def b_def by simp
      moreover have "b + t = 16777216" using t by (simp add: b_def)
      ultimately have "k * 16777216 + ?r = 255 * 16777216 + t" using e by linarith
      moreover have "?r < 65536" "t < 65536" using r t(4) by simp_all
      moreover from calculation have "k = 255" by linarith
      ultimately show ?thesis by simp
    qed
    ultimately show ?thesis
      using ok low' s l r by (auto simp: interval_ok_def)
  next
    case False
    then have less: "?l + ?r < 4294967296"
      using ok add_wrap [of low rg] by (cases "?l + ?r < 4294967296") (auto simp: interval_ok_def straddles_unat)
    have s: "unat (shift_range low rg) = ?r mod 16777216 * 256"
      using False by (simp add: shift_range_def unat_shift_byte)
    have d: "?l div 16777216 = (?l + ?r) div 16777216" using False less by (simp add: straddles_unat add_no_wrap)
    have "?l = ?l div 16777216 * 16777216 + ?l mod 16777216" by simp
    then have "?l mod 16777216 + ?r < 16777216"
      using d mod_less_divisor [of 16777216 "?l + ?r", simplified] div_mult_mod_eq [of "?l + ?r" 16777216] by linarith
    then show ?thesis using ok low' s less by (auto simp: interval_ok_def)
  qed
  then show "interval_ok (unat (push_bit 8 low)) (unat (shift_range low rg))"
    "unat (shift_range low rg) div 256 \<le> unat rg"
    "unat low + unat rg = 4294967296 \<Longrightarrow> unat (push_bit 8 low) + unat (shift_range low rg) = 4294967296 \<and> unat (shift_range low rg) > unat rg"
    "unat (push_bit 8 low) + unat (shift_range low rg) = 4294967296 \<or> unat (shift_range low rg) > unat rg"
    by blast+
qed

text \<open>The measure of the loop.\<close>

definition rounds_left :: "u32 \<Rightarrow> u32 \<Rightarrow> nat" where
  "rounds_left low rg = (if unat low + unat rg = 4294967296 then 0 else 4294967296) + (4294967296 - unat rg)"

lemma rounds_left_less:
  assumes "interval_ok (unat low) (unat rg)" "\<not> (straddles low rg \<and> rg \<ge> ENET_RANGE_CODER_BOTTOM)"
  shows "rounds_left (push_bit 8 low) (shift_range low rg) < rounds_left low rg"
  using shift_step(3,4) [OF assms] unsigned_less [of "shift_range low rg"] assms(1)
  by (auto simp: rounds_left_def interval_ok_def)

section \<open>The stream\<close>

text \<open>
  The four bytes of the output from position \<open>n\<close> on, zeros beyond its end: what the decoder's code
  register holds once it has consumed \<open>n\<close> bytes more than its first four.
\<close>

definition byte_at :: "u8 list \<Rightarrow> nat \<Rightarrow> nat" where
  "byte_at F n = (if n < length F then unat (F ! n) else 0)"

definition window :: "u8 list \<Rightarrow> nat \<Rightarrow> nat" where
  "window F n = byte_at F n * 16777216 + byte_at F (n + 1) * 65536 + byte_at F (n + 2) * 256 + byte_at F (n + 3)"

lemma byte_at_less: "byte_at F n < 256"
  using u8_less [of "F ! n"] by (simp add: byte_at_def)

lemma window_Suc: "window F n = byte_at F n * 16777216 + window F (Suc n) div 256"
  "window F (Suc n) mod 256 = byte_at F (n + 4)"
proof -
  have 1: "Suc n = n + 1" "n + 1 + 1 = n + 2" "n + 1 + 2 = n + 3" "n + 1 + 3 = n + 4" by simp_all
  have e: "window F (Suc n) = (byte_at F (n + 1) * 65536 + byte_at F (n + 2) * 256 + byte_at F (n + 3)) * 256 + byte_at F (n + 4)"
    unfolding window_def 1 by (simp add: algebra_simps)
  show "window F n = byte_at F n * 16777216 + window F (Suc n) div 256"
    unfolding e using byte_at_less [of F "n + 4"] unfolding window_def by simp
  show "window F (Suc n) mod 256 = byte_at F (n + 4)"
    unfolding e using byte_at_less [of F "n + 4"] by (simp only: mod_mult_self3 mod_less)
qed

lemma window_less: "window F n < 4294967296"
  using byte_at_less [of F n] byte_at_less [of F "n + 1"] byte_at_less [of F "n + 2"] byte_at_less [of F "n + 3"]
  by (simp add: window_def)

text \<open>The final output \<open>F\<close> lies in the interval of the encoder's registers.\<close>

definition inside :: "u8 list \<Rightarrow> range_encoder \<Rightarrow> bool" where
  "inside F e \<longleftrightarrow> (\<exists>G. F = re_out e @ G) \<and> unat (re_low e) \<le> window F (length (re_out e))
     \<and> window F (length (re_out e)) < unat (re_low e) + unat (re_range e)"

text \<open>The decoder has the encoder's registers, and has read the output as far as they reach.\<close>

definition tracks :: "u8 list \<Rightarrow> range_decoder \<Rightarrow> range_encoder \<Rightarrow> bool" where
  "tracks F d e \<longleftrightarrow> rd_low d = re_low e \<and> rd_range d = re_range e
     \<and> rd_code d = word_of_nat (window F (length (re_out e))) \<and> rd_in d = drop (length (re_out e) + 4) F"

definition encoder_ok :: "range_encoder \<Rightarrow> bool" where
  "encoder_ok e \<longleftrightarrow> interval_ok (unat (re_low e)) (unat (re_range e))"

definition shifted :: "range_encoder \<Rightarrow> range_encoder" where
  "shifted e = e\<lparr>re_out := re_out e @ [ucast (drop_bit 24 (re_low e))],
                 re_range := shift_range (re_low e) (re_range e), re_low := push_bit 8 (re_low e)\<rparr>"

lemma top_byte: "unat (ucast (drop_bit 24 x) :: u8) = unat (x :: u32) div 16777216"
proof -
  have "unat x div 16777216 < 256" using u32_less [of x] by (intro less_mult_imp_div_less) simp
  then show ?thesis
    by (simp only: unsigned_ucast_eq unat_drop_byte) (simp add: take_bit_nat_eq_self)
qed

lemma shifted_inside:
  assumes "encoder_ok e" "\<not> (straddles (re_low e) (re_range e) \<and> re_range e \<ge> ENET_RANGE_CODER_BOTTOM)"
    and "inside F (shifted e)"
  shows "inside F e"
proof -
  let ?n = "length (re_out e)" and ?l = "unat (re_low e)" and ?r = "unat (re_range e)"
  let ?s = "unat (shift_range (re_low e) (re_range e))"
  obtain G where F: "F = re_out e @ ucast (drop_bit 24 (re_low e)) # G"
    using assms(3) by (auto simp: inside_def shifted_def)
  then have b: "byte_at F ?n = ?l div 16777216" by (simp add: byte_at_def nth_append top_byte del: unat_drop_byte)
  have w: "?l mod 16777216 * 256 \<le> window F (Suc ?n)" "window F (Suc ?n) < ?l mod 16777216 * 256 + ?s"
    using assms(3) by (simp_all add: inside_def shifted_def unat_shift_byte)
  have s: "?s div 256 \<le> ?r" by (rule shift_step(2)) (use assms(1,2) in \<open>simp_all add: encoder_ok_def\<close>)
  have m: "?s mod 256 = 0" unfolding shift_range_def unat_shift_byte by simp
  define W where "W = window F (Suc ?n)"
  have "W = W div 256 * 256 + W mod 256" "W mod 256 < 256" "?s = ?s div 256 * 256"
    using m div_mult_mod_eq [of ?s 256] by simp_all
  then have "?l mod 16777216 \<le> W div 256 \<and> W div 256 < ?l mod 16777216 + ?s div 256"
    using w unfolding W_def [symmetric] by linarith
  moreover have "?l = ?l div 16777216 * 16777216 + ?l mod 16777216" by simp
  moreover have "window F ?n = ?l div 16777216 * 16777216 + W div 256" using window_Suc(1) [of F ?n] b by (simp add: W_def)
  ultimately have "?l \<le> window F ?n \<and> window F ?n < ?l + ?r" using s by linarith
  then show ?thesis using F by (auto simp: inside_def)
qed

lemma or_low_byte: "push_bit 8 x OR push_bit 0 (ucast (b :: u8)) = push_bit 8 (x :: u32) + ucast b"
proof -
  have "push_bit 8 x AND (ucast b :: u32) = 0"
    by (rule bit_word_eqI) (auto simp: bit_simps)
  then show ?thesis by (simp add: disjunctive_add_eq_or)
qed

lemma window_shift: "word_of_nat (window F (Suc n)) = push_bit 8 (word_of_nat (window F n) :: u32) + word_of_nat (byte_at F (n + 4))"
proof -
  have "window F (Suc n) = window F (Suc n) div 256 * 256 + byte_at F (n + 4)"
    using window_Suc(2) [of F n] div_mult_mod_eq [of "window F (Suc n)" 256] by simp
  moreover have "window F n * 256 = byte_at F n * 4294967296 + window F (Suc n) div 256 * 256"
    using window_Suc(1) [of F n] by (simp add: algebra_simps)
  ultimately have "window F n * 256 + byte_at F (n + 4) = byte_at F n * 4294967296 + window F (Suc n)" by simp
  then have "(word_of_nat (window F n * 256 + byte_at F (n + 4)) :: u32) = word_of_nat (byte_at F n * 4294967296 + window F (Suc n))"
    by simp
  moreover have "(word_of_nat (byte_at F n * 4294967296) :: u32) = 0"
    unfolding word_of_nat_eq_0_iff by simp
  ultimately have "(word_of_nat (window F n * 256 + byte_at F (n + 4)) :: u32) = word_of_nat (window F (Suc n))"
    by (simp only: of_nat_add add_0)
  then show ?thesis by (simp add: push_bit_eq_mult)
qed

definition decoder_shifted :: "range_decoder \<Rightarrow> range_decoder" where
  "decoder_shifted d = (or_next_byte 0 (d\<lparr>rd_code := push_bit 8 (rd_code d)\<rparr>))
     \<lparr>rd_range := shift_range (rd_low d) (rd_range d), rd_low := push_bit 8 (rd_low d)\<rparr>"

lemma tracks_shift:
  assumes "tracks F d e"
  shows "tracks F (decoder_shifted d) (shifted e)"
proof -
  let ?n = "length (re_out e)"
  have d: "rd_low d = re_low e" "rd_range d = re_range e" "rd_code d = word_of_nat (window F ?n)" "rd_in d = drop (?n + 4) F"
    using assms by (simp_all add: tracks_def)
  show ?thesis
  proof (cases "?n + 4 < length F")
    case True
    then have f: "drop (?n + 4) F = F ! (?n + 4) # drop (Suc ?n + 4) F" using Cons_nth_drop_Suc [OF True] by simp
    have "or_next_byte 0 (d\<lparr>rd_code := push_bit 8 (rd_code d)\<rparr>)
        = d\<lparr>rd_code := push_bit 8 (rd_code d) + ucast (F ! (?n + 4)), rd_in := drop (Suc ?n + 4) F\<rparr>"
      using or_low_byte by (simp add: or_next_byte_def d(4) f)
    moreover have "(ucast (F ! (?n + 4)) :: u32) = word_of_nat (byte_at F (?n + 4))" using True by (simp add: byte_at_def)
    ultimately show ?thesis
      using window_shift [of F ?n] d by (simp add: tracks_def decoder_shifted_def shifted_def)
  next
    case False
    then have "byte_at F (?n + 4) = 0" by (simp add: byte_at_def)
    with False show ?thesis
      using window_shift [of F ?n] d by (simp add: tracks_def decoder_shifted_def shifted_def or_next_byte_def)
  qed
qed

section \<open>Renormalisation\<close>

lemma encode_normalize_stop:
  "straddles (re_low e) (re_range e) \<and> re_range e \<ge> ENET_RANGE_CODER_BOTTOM \<Longrightarrow> encode_normalize L e = Some (Go e)"
  by (simp add: encode_normalize.simps)

lemma encode_normalize_shift:
  assumes "\<not> (straddles (re_low e) (re_range e) \<and> re_range e \<ge> ENET_RANGE_CODER_BOTTOM)"
  shows "encode_normalize L e = (if length (re_out e) \<ge> unat L then Some Return0 else encode_normalize L (shifted e))"
  using assms by (subst encode_normalize.simps)
    (auto simp: Let_def emit_byte_def ENET_RANGE_CODER_OUTPUT_def shifted_def shift_range_def)

lemma decode_normalize_stop:
  "straddles (rd_low d) (rd_range d) \<and> rd_range d \<ge> ENET_RANGE_CODER_BOTTOM \<Longrightarrow> decode_normalize d = Some (Go d)"
  by (simp add: decode_normalize.simps)

lemma decode_normalize_shift:
  assumes "\<not> (straddles (rd_low d) (rd_range d) \<and> rd_range d \<ge> ENET_RANGE_CODER_BOTTOM)"
  shows "decode_normalize d = decode_normalize (decoder_shifted d)"
proof -
  have "rd_low (or_next_byte 0 (d\<lparr>rd_code := c\<rparr>)) = rd_low d" "rd_range (or_next_byte 0 (d\<lparr>rd_code := c\<rparr>)) = rd_range d" for c
    by (simp_all add: or_next_byte_def split: list.split)
  then show ?thesis
    using assms by (subst decode_normalize.simps) (auto simp: Let_def decoder_shifted_def shift_range_def)
qed

text \<open>
  What a step of the encoder from \<open>e\<close> to \<open>e'\<close> guarantees: it has written at most its limit, the
  final output lies in the old interval when it lies in the new one, and a decoder step \<open>D\<close> follows.
\<close>

definition mirrored :: "range_encoder \<Rightarrow> (range_decoder \<Rightarrow> range_decoder coding option) \<Rightarrow> range_encoder \<Rightarrow> bool" where
  "mirrored e D e' \<longleftrightarrow> (\<forall>F. inside F e' \<longrightarrow> inside F e \<and>
     (\<forall>d. tracks F d e \<longrightarrow> (\<exists>d'. D d = Some (Go d') \<and> tracks F d' e')))"

definition encoder_ready :: "size_t \<Rightarrow> range_encoder \<Rightarrow> bool" where
  "encoder_ready L e \<longleftrightarrow> encoder_ok e \<and> 65536 \<le> unat (re_range e) \<and> length (re_out e) \<le> unat L"

lemma shifted_ok:
  "encoder_ok e \<Longrightarrow> \<not> (straddles (re_low e) (re_range e) \<and> re_range e \<ge> ENET_RANGE_CODER_BOTTOM) \<Longrightarrow> encoder_ok (shifted e)"
  using shift_step(1) by (simp add: encoder_ok_def shifted_def)

lemma encode_normalize_spec:
  assumes "encoder_ok e" "length (re_out e) \<le> unat L"
  shows "encode_normalize L e = Some Return0 \<or>
    (\<exists>e'. encode_normalize L e = Some (Go e') \<and> encoder_ready L e' \<and> mirrored e decode_normalize e')"
  using assms
proof (induction "rounds_left (re_low e) (re_range e)" arbitrary: e rule: less_induct)
  case less
  show ?case
  proof (cases "straddles (re_low e) (re_range e) \<and> re_range e \<ge> ENET_RANGE_CODER_BOTTOM")
    case True
    then have "mirrored e decode_normalize e"
      unfolding mirrored_def tracks_def using decode_normalize_stop by auto
    moreover have "65536 \<le> unat (re_range e)" using True by (simp add: ENET_RANGE_CODER_BOTTOM_def word_le_nat_alt)
    ultimately show ?thesis using True less.prems encode_normalize_stop by (auto simp: encoder_ready_def)
  next
    case False
    note step = encode_normalize_shift [OF False, of L]
    show ?thesis
    proof (cases "length (re_out e) \<ge> unat L")
      case no_room: False
      have "rounds_left (re_low (shifted e)) (re_range (shifted e)) < rounds_left (re_low e) (re_range e)"
        using rounds_left_less False less.prems(1) by (simp add: shifted_def encoder_ok_def)
      from less.hyps [OF this shifted_ok [OF less.prems(1) False]] no_room
      consider "encode_normalize L (shifted e) = Some Return0" | e' where
        "encode_normalize L (shifted e) = Some (Go e')" "encoder_ready L e'" "mirrored (shifted e) decode_normalize e'"
        by (auto simp: shifted_def)
      then show ?thesis
      proof cases
        case 2
        have "mirrored e decode_normalize e'"
          unfolding mirrored_def
        proof (intro allI impI conjI)
          fix F assume F: "inside F e'"
          then have s: "inside F (shifted e)" using 2(3) by (simp add: mirrored_def)
          show "inside F e" by (rule shifted_inside [OF less.prems(1) False s])
          fix d assume d: "tracks F d e"
          then have "decode_normalize d = decode_normalize (decoder_shifted d)"
            using False by (intro decode_normalize_shift) (simp add: tracks_def)
          then show "\<exists>d'. decode_normalize d = Some (Go d') \<and> tracks F d' e'"
            using 2(3) F tracks_shift [OF d] by (auto simp: mirrored_def)
        qed
        then show ?thesis using 2 step no_room by auto
      qed (use step no_room in simp)
    qed (use step in simp)
  qed
qed

section \<open>Coding a symbol\<close>

text \<open>
  The symbol with \<open>cnt\<close> of \<open>tot\<close> counts, \<open>below\<close> counts before it: the code the decoder reads falls
  among its counts, and after decoding them it has the encoder's registers again.
\<close>

definition follows ::
  "range_encoder \<Rightarrow> u32 \<Rightarrow> u32 \<Rightarrow> u32 \<Rightarrow> range_encoder \<Rightarrow> bool" where
  "follows e below cnt tot e' \<longleftrightarrow> (\<forall>F. inside F e' \<longrightarrow> inside F e \<and>
     (\<forall>d. tracks F d e \<longrightarrow> (\<exists>code d1 d2. ENET_RANGE_CODER_READ tot d = Some (Go (code, d1))
        \<and> unat below \<le> unat code \<and> unat code < unat below + unat cnt
        \<and> ENET_RANGE_CODER_DECODE below cnt d1 = Some (Go d2) \<and> tracks F d2 e')))"

lemma part_of_range:
  fixes rg tot below cnt :: nat
  assumes "below + cnt \<le> tot" "1 \<le> cnt" "tot \<le> rg" "0 < tot"
  shows "1 \<le> rg div tot" "below * (rg div tot) + rg div tot * cnt \<le> rg" "1 \<le> rg div tot * cnt"
proof -
  show r: "1 \<le> rg div tot" using div_greater_zero_iff [of rg tot] assms(3,4) by linarith
  have "below * (rg div tot) + rg div tot * cnt = (below + cnt) * (rg div tot)" by (simp add: algebra_simps)
  also have "\<dots> \<le> tot * (rg div tot)" using assms(1) by (rule mult_le_mono1)
  also have "\<dots> \<le> rg" by (rule times_div_less_eq_dividend)
  finally show "below * (rg div tot) + rg div tot * cnt \<le> rg" .
  show "1 \<le> rg div tot * cnt" using r assms(2) by simp
qed

lemma unat_mult_small: "unat (x :: u32) * unat y < 4294967296 \<Longrightarrow> unat (x * y) = unat x * unat y"
  by (simp add: unat_word_ariths)

lemma div_between:
  fixes w :: nat
  assumes "0 < r" "below * r \<le> w" "w < below * r + r * cnt"
  shows "below \<le> w div r" "w div r < below + cnt"
proof -
  show "below \<le> w div r" using div_le_mono [OF assms(2), of r] assms(1) by simp
  have "w < (below + cnt) * r" using assms(3) by (simp add: algebra_simps)
  then show "w div r < below + cnt" by (rule less_mult_imp_div_less)
qed

lemma encode_spec:
  assumes ready: "encoder_ready L e" and cnt: "1 \<le> unat cnt" "unat below + unat cnt \<le> unat tot" "unat tot < 65536"
  shows "ENET_RANGE_CODER_ENCODE L below cnt tot e = Some Return0 \<or>
    (\<exists>e'. ENET_RANGE_CODER_ENCODE L below cnt tot e = Some (Go e') \<and> encoder_ready L e' \<and> follows e below cnt tot e')"
proof -
  let ?r = "unat (re_range e) div unat tot"
  let ?l = "unat (re_low e)"
  let ?part = "\<lambda>d. d\<lparr>rd_low := rd_low d + below * rd_range d, rd_range := rd_range d * cnt\<rparr>"
  define r where "r = re_range e div tot"
  have tot: "0 < unat tot" "unat tot \<le> unat (re_range e)" using ready cnt by (auto simp: encoder_ready_def)
  note part = part_of_range [OF cnt(2,1) tot(2,1)]
  have ok: "interval_ok ?l (unat (re_range e))" using ready by (simp add: encoder_ready_def encoder_ok_def)
  then have sum: "?l + unat (re_range e) \<le> 4294967296" by (simp add: interval_ok_def)
  have r: "unat r = ?r" unfolding r_def by (rule unat_div_distrib)
  define e1 where "e1 = e\<lparr>re_low := re_low e + below * r, re_range := r * cnt\<rparr>"
  have br: "unat (below * r) = unat below * ?r" unfolding r [symmetric]
    using part sum u32_less [of "re_range e"] by (intro unat_mult_small) (simp add: r)
  have rc: "unat (r * cnt) = ?r * unat cnt" unfolding r [symmetric]
    using part sum u32_less [of "re_range e"] by (intro unat_mult_small) (simp add: r)
  have lb: "unat (re_low e + below * r) = ?l + unat below * ?r" unfolding br [symmetric]
    by (rule add_no_wrap, unfold br, use part sum in linarith)
  have e1: "re_out e1 = re_out e" "unat (re_low e1) = ?l + unat below * ?r" "unat (re_range e1) = ?r * unat cnt"
    by (simp_all add: e1_def lb rc)
  have "encoder_ok e1"
    using ok part e1 unfolding encoder_ok_def interval_ok_def by linarith
  moreover have "length (re_out e1) \<le> unat L" using ready e1 by (simp add: encoder_ready_def)
  moreover have "ENET_RANGE_CODER_ENCODE L below cnt tot e = encode_normalize L e1"
    using tot(1) by (auto simp: ENET_RANGE_CODER_ENCODE_def r_def e1_def Let_def)
  moreover have "follows e below cnt tot e'" if m: "mirrored e1 decode_normalize e'" for e'
    unfolding follows_def
  proof (intro allI impI)
    fix F assume "inside F e'"
    then have i1: "inside F e1" and n: "\<And>d. tracks F d e1 \<Longrightarrow> \<exists>d'. decode_normalize d = Some (Go d') \<and> tracks F d' e'"
      using m by (auto simp: mirrored_def)
    define W where "W = window F (length (re_out e))"
    have W: "?l + unat below * ?r \<le> W" "W < ?l + unat below * ?r + ?r * unat cnt" "\<exists>G. F = re_out e @ G"
      using i1 e1 by (simp_all add: inside_def W_def)
    then have "?l \<le> W \<and> W < ?l + unat (re_range e)" using part by linarith
    then have "inside F e" using W(3) unfolding inside_def W_def [symmetric] by blast
    moreover have "\<exists>code d1 d2. ENET_RANGE_CODER_READ tot d = Some (Go (code, d1))
        \<and> unat below \<le> unat code \<and> unat code < unat below + unat cnt
        \<and> ENET_RANGE_CODER_DECODE below cnt d1 = Some (Go d2) \<and> tracks F d2 e'" if d: "tracks F d e" for d
    proof -
      define d1 where "d1 = d\<lparr>rd_range := r\<rparr>"
      define code :: u16 where "code = ucast ((rd_code d - rd_low d) div r)"
      have "r \<noteq> 0" using part(1) r by (metis not_one_le_zero unsigned_0)
      then have read: "ENET_RANGE_CODER_READ tot d = Some (Go (code, d1))"
        using d tot(1) by (auto simp: ENET_RANGE_CODER_READ_def tracks_def r_def d1_def code_def Let_def)
      have "unat (rd_code d) = W"
        using d window_less [of F] by (simp add: tracks_def W_def unsigned_of_nat take_bit_nat_eq_self)
      then have diff: "unat (rd_code d - rd_low d) = W - ?l"
        using d W by (simp add: tracks_def unat_sub word_le_nat_alt)
      have "0 < ?r" "unat below * ?r \<le> W - ?l" "W - ?l < unat below * ?r + ?r * unat cnt"
        using W part(1) by linarith+
      note c = div_between [OF this]
      have code: "unat code = (W - ?l) div ?r"
        unfolding code_def unsigned_ucast_eq unat_div_distrib diff r
        using c cnt by (simp add: take_bit_nat_eq_self)
      have "tracks F (?part d1) e1" using d by (simp add: tracks_def d1_def e1_def)
      from n [OF this] obtain d2 where "ENET_RANGE_CODER_DECODE below cnt d1 = Some (Go d2)" "tracks F d2 e'"
        by (auto simp: ENET_RANGE_CODER_DECODE_def)
      then show ?thesis using read code c by auto
    qed
    ultimately show "inside F e \<and> (\<forall>d. tracks F d e \<longrightarrow> (\<exists>code d1 d2. ENET_RANGE_CODER_READ tot d = Some (Go (code, d1))
        \<and> unat below \<le> unat code \<and> unat code < unat below + unat cnt
        \<and> ENET_RANGE_CODER_DECODE below cnt d1 = Some (Go d2) \<and> tracks F d2 e'))" by blast
  qed
  ultimately show ?thesis using encode_normalize_spec [of e1 L] by auto
qed

section \<open>The end of the data\<close>

lemma flush_spec:
  "256 ^ (4 - k) dvd unat (re_low e) \<Longrightarrow> k \<le> 4 \<Longrightarrow> length (re_out e) \<le> unat L \<Longrightarrow>
    ENET_RANGE_CODER_FLUSH L e = Some Return0 \<or>
    (\<exists>e' G. ENET_RANGE_CODER_FLUSH L e = Some (Go e') \<and> re_out e' = re_out e @ G \<and> length G \<le> k
       \<and> length (re_out e') \<le> unat L \<and> window (re_out e') (length (re_out e)) = unat (re_low e))"
proof (induction k arbitrary: e)
  case 0
  then have "unat (re_low e) = 0" using u32_less [of "re_low e"] by (auto elim!: dvdE)
  then have "re_low e = 0" by (simp add: unat_eq_zero)
  then show ?case using 0 by (subst ENET_RANGE_CODER_FLUSH.simps) (simp add: window_def byte_at_def)
next
  case (Suc k)
  show ?case
  proof (cases "re_low e = 0")
    case True
    then show ?thesis using Suc.prems by (subst ENET_RANGE_CODER_FLUSH.simps) (simp add: window_def byte_at_def)
  next
    case False
    define e1 where "e1 = e\<lparr>re_out := re_out e @ [ucast (drop_bit 24 (re_low e))], re_low := push_bit 8 (re_low e)\<rparr>"
    have step: "ENET_RANGE_CODER_FLUSH L e = (if length (re_out e) \<ge> unat L then Some Return0 else ENET_RANGE_CODER_FLUSH L e1)"
      using False by (subst ENET_RANGE_CODER_FLUSH.simps) (simp add: emit_byte_def ENET_RANGE_CODER_OUTPUT_def e1_def)
    show ?thesis
    proof (cases "length (re_out e) \<ge> unat L")
      case room: False
      let ?l = "unat (re_low e)"
      have l1: "unat (re_low e1) = ?l mod 16777216 * 256" by (simp add: e1_def unat_shift_byte)
      have d: "256 ^ (4 - k) = 256 * (256 :: nat) ^ (4 - Suc k)"
        using Suc.prems(2) Suc_diff_le [of "Suc k" 4] by (simp flip: power_Suc)
      have "256 ^ (4 - Suc k) dvd (16777216 :: nat)"
        using le_imp_power_dvd [of "4 - Suc k" 3 "256 :: nat"] by simp
      then have "256 ^ (4 - Suc k) dvd ?l mod 16777216" using Suc.prems(1) by (simp add: dvd_mod)
      then have "256 ^ (4 - k) dvd unat (re_low e1)" unfolding l1 d by (simp add: mult.commute)
      from Suc.IH [OF this] Suc.prems room
      consider "ENET_RANGE_CODER_FLUSH L e1 = Some Return0" | e' G where "ENET_RANGE_CODER_FLUSH L e1 = Some (Go e')"
        "re_out e' = re_out e1 @ G" "length G \<le> k" "length (re_out e') \<le> unat L"
        "window (re_out e') (length (re_out e1)) = unat (re_low e1)"
        by (auto simp: e1_def)
      then show ?thesis
      proof cases
        case 2
        have "byte_at (re_out e') (length (re_out e)) = ?l div 16777216"
          using 2(2) top_byte [of "re_low e"] by (simp add: byte_at_def e1_def nth_append)
        then have "window (re_out e') (length (re_out e)) = ?l div 16777216 * 16777216 + ?l mod 16777216"
          using window_Suc(1) [of "re_out e'" "length (re_out e)"] 2(5) l1 by (simp add: e1_def)
        then have w: "window (re_out e') (length (re_out e)) = ?l" by simp
        have "re_out e' = re_out e @ (ucast (drop_bit 24 (re_low e)) # G)" using 2(2) by (simp add: e1_def)
        then show ?thesis using w 2 step room by (intro disjI2 exI [of _ e'] exI conjI) auto
      qed (use step room in simp)
    qed (use step in simp)
  qed
qed

text \<open>At the end the code is the low end of the interval, and only zeros follow.\<close>

definition at_end :: "range_decoder \<Rightarrow> bool" where
  "at_end d \<longleftrightarrow> rd_code d = rd_low d \<and> rd_in d = [] \<and> interval_ok (unat (rd_low d)) (unat (rd_range d))
     \<and> 65536 \<le> unat (rd_range d)"

lemma decode_normalize_end:
  assumes "rd_code d = rd_low d" "rd_in d = []" "interval_ok (unat (rd_low d)) (unat (rd_range d))"
  shows "\<exists>d'. decode_normalize d = Some (Go d') \<and> at_end d'"
  using assms
proof (induction "rounds_left (rd_low d) (rd_range d)" arbitrary: d rule: less_induct)
  case less
  show ?case
  proof (cases "straddles (rd_low d) (rd_range d) \<and> rd_range d \<ge> ENET_RANGE_CODER_BOTTOM")
    case True
    then show ?thesis
      using less.prems decode_normalize_stop by (auto simp: at_end_def ENET_RANGE_CODER_BOTTOM_def word_le_nat_alt)
  next
    case False
    have "rounds_left (rd_low (decoder_shifted d)) (rd_range (decoder_shifted d)) < rounds_left (rd_low d) (rd_range d)"
      using rounds_left_less [OF less.prems(3) False] by (simp add: decoder_shifted_def)
    from less.hyps [OF this] show ?thesis
      using less.prems shift_step(1) [OF less.prems(3) False] decode_normalize_shift [OF False]
      by (simp add: decoder_shifted_def or_next_byte_def)
  qed
qed

lemma read_end:
  assumes "at_end d" "1 \<le> unat esc" "unat esc \<le> unat tot" "unat tot < 65536"
  shows "\<exists>d1 d2. ENET_RANGE_CODER_READ tot d = Some (Go (0, d1)) \<and> ENET_RANGE_CODER_DECODE 0 esc d1 = Some (Go d2) \<and> at_end d2"
proof -
  define r where "r = rd_range d div tot"
  have tot: "0 < unat tot" "unat tot \<le> unat (rd_range d)" using assms by (auto simp: at_end_def)
  have r: "unat r = unat (rd_range d) div unat tot" unfolding r_def by (rule unat_div_distrib)
  note part = part_of_range [of 0 "unat esc", OF _ assms(2) tot(2,1), folded r]
  have "r \<noteq> 0" using part(1) assms(3) by auto
  then have read: "ENET_RANGE_CODER_READ tot d = Some (Go (0, d\<lparr>rd_range := r\<rparr>))"
    using assms(1) tot(1) by (auto simp: ENET_RANGE_CODER_READ_def at_end_def r_def Let_def)
  have "unat r * unat esc < 4294967296" using part(2) assms(3) u32_less [of "rd_range d"] by simp
  then have rc: "unat (r * esc) = unat r * unat esc" by (rule unat_mult_small)
  have "interval_ok (unat (rd_low d)) (unat (r * esc))"
    using assms(1,3) part(2,3) unfolding at_end_def interval_ok_def rc by linarith
  then show ?thesis
    using decode_normalize_end [of "d\<lparr>rd_range := r * esc\<rparr>"] assms(1) read
    by (auto simp: ENET_RANGE_CODER_DECODE_def at_end_def)
qed

lemma tracks_end:
  assumes "tracks F d e" "encoder_ready L e" "F = re_out e @ G" "length G \<le> 4"
    and "window F (length (re_out e)) = unat (re_low e)"
  shows "at_end d"
  using assms by (simp add: tracks_def at_end_def encoder_ready_def encoder_ok_def)

lemma inside_end:
  assumes "encoder_ready L e" "F = re_out e @ G" "window F (length (re_out e)) = unat (re_low e)"
  shows "inside F e"
  using assms by (auto simp: inside_def encoder_ready_def encoder_ok_def interval_ok_def)

text \<open>The registers before the first symbol.\<close>

lemma start_ready: "encoder_ready L \<lparr>re_low = 0, re_range = - 1, re_out = []\<rparr>"
proof -
  have "unat (- 1 :: u32) = 4294967295" by (simp add: unsigned_minus_1_eq_mask mask_eq_exp_minus_1)
  then show ?thesis by (simp add: encoder_ready_def encoder_ok_def interval_ok_def)
qed

lemma or_bytes:
  fixes a b c d :: u8
  shows "push_bit 24 (ucast a) OR push_bit 16 (ucast b) OR push_bit 8 (ucast c) OR ucast d
    = (word_of_nat (unat a * 16777216 + unat b * 65536 + unat c * 256 + unat d) :: u32)" (is "?x OR ?y OR ?z OR ?w = _")
proof -
  have "?z AND ?w = 0" "?y AND (?z OR ?w) = 0" "?x AND (?y OR ?z OR ?w) = 0"
    by (rule bit_word_eqI; auto simp: bit_simps)+
  then have "?x OR ?y OR ?z OR ?w = ?x + (?y + (?z + ?w))"
    by (metis disjunctive_add_eq_or)
  also have "\<dots> = word_of_nat (unat a * 16777216 + unat b * 65536 + unat c * 256 + unat d)"
    by (simp add: push_bit_eq_mult)
  finally show ?thesis .
qed

lemma seed_tracks:
  "tracks F (ENET_RANGE_CODER_SEED \<lparr>rd_low = 0, rd_code = 0, rd_range = - 1, rd_in = F\<rparr>) \<lparr>re_low = 0, re_range = - 1, re_out = []\<rparr>"
proof -
  define a b c d where "a = (if 0 < length F then F ! 0 else 0)" and "b = (if 1 < length F then F ! 1 else 0)"
    and "c = (if 2 < length F then F ! 2 else 0)" and "d = (if 3 < length F then F ! 3 else 0)"
  have w: "window F 0 = unat a * 16777216 + unat b * 65536 + unat c * 256 + unat d"
    by (simp add: window_def byte_at_def a_def b_def c_def d_def numeral_2_eq_2)
  have "ENET_RANGE_CODER_SEED \<lparr>rd_low = 0, rd_code = 0, rd_range = - 1, rd_in = F\<rparr>
    = \<lparr>rd_low = 0, rd_code = push_bit 24 (ucast a) OR push_bit 16 (ucast b) OR push_bit 8 (ucast c) OR ucast d,
       rd_range = - 1, rd_in = drop 4 F\<rparr>"
    by (cases F; cases "tl F"; cases "tl (tl F)"; cases "tl (tl (tl F))")
      (auto simp: ENET_RANGE_CODER_SEED_def or_next_byte_def a_def b_def c_def d_def or.assoc)
  then show ?thesis unfolding or_bytes w [symmetric] by (simp add: tracks_def)
qed

end
