(* ===== verification/ENet_Stepping.thy ===== *)
theory ENet_Stepping
  imports ENet_Learning ENet_RangeCoding
begin

text \<open>
  One context learns a value in the array: counting, the link from the symbol before it, the
  totals and, when they have grown too large, rescaling.
\<close>

lemma context_limits [simp]:
  "0xFF - 2 * ucast ENET_SUBCONTEXT_SYMBOL_DELTA = (251 :: u16)"
  "0xFF - 2 * ucast ENET_CONTEXT_SYMBOL_DELTA + ENET_CONTEXT_SYMBOL_MINIMUM = 250"
  "ucast (ENET_RANGE_CODER_BOTTOM - 0x100) = (65280 :: u16)"
  "ucast ENET_SUBCONTEXT_SYMBOL_DELTA = (2 :: u16)" "ucast ENET_CONTEXT_SYMBOL_DELTA = (3 :: u16)"
  by (simp_all add: context_const_defs range_coder_limit_defs)

lemma same_links_refl: "same_links idx M c c"
  by (simp add: same_links_def)

lemma same_links_trans: "same_links idx M c c' \<Longrightarrow> same_links idx M c' c'' \<Longrightarrow> same_links idx M c c''"
  by (simp add: same_links_def)

lemma same_links_dom: "same_links idx M c c' \<Longrightarrow> dom M = dom M' \<Longrightarrow> same_links idx M' c c'"
  by (simp add: same_links_def)

lemma same_links_upd: "(\<And>s. sy_parent (g s) = sy_parent s) \<Longrightarrow> same_links idx M c (upd_sym k g c)"
  by (simp add: same_links_def)

text \<open>Totals and rescaling.\<close>

lemma trie_add:
  assumes rep: "trie_rep c idx M" and x: "M w = Some x"
    and g: "\<And>s. g s = s\<lparr>sy_escapes := sy_escapes s + e, sy_total := sy_total s + t\<rparr>"
  shows "trie_rep (upd_sym (idx w) g c) idx (M(w \<mapsto> ctx_add e t x))"
proof -
  have c: "ctx_rep c idx w x" using rep x by (simp add: trie_rep_def)
  have "trie_rep (upd_sym (idx w) g c) idx (put_totals w (cx_escapes x + e) (cx_total x + t) M)"
    by (rule trie_upd(1) [OF rep]) (use x c in \<open>auto simp: g tree_part_def ctx_rep_def\<close>)
  moreover have "put_totals w (cx_escapes x + e) (cx_total x + t) M = M(w \<mapsto> ctx_add e t x)"
    using x by (simp add: put_totals_def ctx_add_def)
  ultimately show ?thesis by simp
qed

lemma trie_settle:
  assumes rep: "trie_rep c idx M" and x: "M w = Some x"
  shows "\<exists>c'. (if m > limit \<or> sy_total (sym_at c (idx w)) > 65280 then ENET_CONTEXT_RESCALE (idx w) minimum c else Some (Go c)) = Some (Go c')
    \<and> trie_rep c' idx (M(w \<mapsto> settle limit minimum m x)) \<and> same_links idx M c c'"
proof -
  have "ctx_rep c idx w x" using rep x by (simp add: trie_rep_def)
  then have tot: "sy_total (sym_at c (idx w)) = cx_total x" by (simp add: ctx_rep_def sym_at_def)
  show ?thesis
  proof (cases "m > limit \<or> cx_total x > 65280")
    case True
    then show ?thesis using trie_rescale [OF rep x, of minimum] unfolding tot settle_def by auto
  next
    case False
    have "M(w \<mapsto> x) = M" using x by (simp add: fun_upd_idem)
    then show ?thesis using False rep same_links_refl unfolding tot settle_def by simp
  qed
qed

lemma rescale_context_spec:
  assumes rep: "trie_rep c idx M" and x: "M w = Some x"
  shows "\<exists>c'. rescale_context (idx w) m c = Some (Go c')
    \<and> trie_rep c' idx (M(w \<mapsto> settle 251 0 m (ctx_add 0 2 x))) \<and> same_links idx M c c'"
proof -
  define c1 where "c1 = upd_sym (idx w) (\<lambda>s. s\<lparr>sy_total := sy_total s + 2\<rparr>) c"
  have "trie_rep c1 idx (M(w \<mapsto> ctx_add 0 2 x))" unfolding c1_def by (rule trie_add [OF rep x]) simp
  from trie_settle [OF this, of w "ctx_add 0 2 x" 251 m 0]
  obtain c' where c': "(if m > 251 \<or> sy_total (sym_at c1 (idx w)) > 65280 then ENET_CONTEXT_RESCALE (idx w) 0 c1 else Some (Go c1)) = Some (Go c')"
    "trie_rep c' idx (M(w \<mapsto> settle 251 0 m (ctx_add 0 2 x)))" "same_links idx (M(w \<mapsto> ctx_add 0 2 x)) c1 c'"
    by auto
  have "same_links idx M c c1" unfolding c1_def by (rule same_links_upd) simp
  moreover have "same_links idx M c1 c'" by (rule same_links_dom [OF c'(3)]) (use x in auto)
  moreover have "rescale_context (idx w) m c = Some (Go c')"
    unfolding c'(1) [symmetric] by (simp add: rescale_context_def c1_def)
  ultimately show ?thesis using c'(2) same_links_trans by blast
qed

lemma rescale_root_spec:
  assumes rep: "trie_rep c idx M" and x: "M [] = Some x"
  shows "\<exists>c'. rescale_root m c = Some (Go c')
    \<and> trie_rep c' idx (M([] \<mapsto> settle 250 1 m (ctx_add 0 3 x))) \<and> same_links idx M c c'"
proof -
  define c1 where "c1 = upd_sym (idx []) (\<lambda>s. s\<lparr>sy_total := sy_total s + 3\<rparr>) c"
  have "trie_rep c1 idx (M([] \<mapsto> ctx_add 0 3 x))" unfolding c1_def by (rule trie_add [OF rep x]) simp
  from trie_settle [OF this, of "[]" "ctx_add 0 3 x" 250 m 1]
  obtain c' where c': "(if m > 250 \<or> sy_total (sym_at c1 (idx [])) > 65280 then ENET_CONTEXT_RESCALE (idx []) 1 c1 else Some (Go c1)) = Some (Go c')"
    "trie_rep c' idx (M([] \<mapsto> settle 250 1 m (ctx_add 0 3 x)))" "same_links idx (M([] \<mapsto> ctx_add 0 3 x)) c1 c'"
    by auto
  have "same_links idx M c c1" unfolding c1_def by (rule same_links_upd) simp
  moreover have "same_links idx M c1 c'" by (rule same_links_dom [OF c'(3)]) (use x in auto)
  moreover have "idx [] = 0" using rep by (simp add: trie_rep_def)
  then have "rescale_root m c = Some (Go c')"
    unfolding c'(1) [symmetric] by (simp add: rescale_root_def c1_def ENET_CONTEXT_SYMBOL_MINIMUM_def)
  ultimately show ?thesis using c'(2) same_links_trans by blast
qed

text \<open>The model after a context has learned is the one with the tree and the totals put in.\<close>

lemma learned_single:
  assumes "M w = Some x"
  shows "(put_tree w v t M)(w \<mapsto> learn v w x) = learned v {w} M"
proof
  fix u
  have "u = w @ [v] \<longleftrightarrow> u \<noteq> [] \<and> last u = v \<and> butlast u = w" by (cases u rule: rev_cases) auto
  then show "((put_tree w v t M)(w \<mapsto> learn v w x)) u = learned v {w} M u"
    using assms by (auto simp: put_tree_def learned_def)
qed

lemma dom_learned_single: "w \<in> dom M \<Longrightarrow> dom (learned v {w} M) = insert (w @ [v]) (dom M)"
  using dom_learned [of "{w}" M v] by auto

definition totals_at :: "(u8 list \<Rightarrow> nat) \<Rightarrow> u8 list \<Rightarrow> ctx \<Rightarrow> ENetRangeCoder \<Rightarrow> bool" where
  "totals_at idx w x c \<longleftrightarrow> sy_escapes (sym_at c (idx w)) = cx_escapes x \<and> sy_total (sym_at c (idx w)) = cx_total x"

lemma trie_totals: "trie_rep c idx M \<Longrightarrow> M w = Some x \<Longrightarrow> totals_at idx w x c"
  by (simp add: trie_rep_def ctx_rep_def totals_at_def sym_at_def)

text \<open>The coder between counting and settling: as counted, or with a link set to the symbol.\<close>

definition linked_to :: "nat \<Rightarrow> ENetRangeCoder \<Rightarrow> ENetRangeCoder \<Rightarrow> bool" where
  "linked_to s c1 c2 \<longleftrightarrow> c2 = c1 \<or> (\<exists>p. c2 = set_parent p s c1)"

lemma sub_step:
  assumes rep: "trie_rep c idx M" and x: "M w = Some x" and w: "w \<noteq> []" and ok: "sub_ok x"
    and room: "w @ [v] \<in> dom M \<or> card (dom M) < ENET_RANGE_CODER_SYMBOLS" and count: "ctx_count v 2 0 x = (b, m, t)"
  defines "idx' \<equiv> idx_after idx w v M" and "k \<equiv> idx w"
  shows "\<exists>c1. ENET_CONTEXT_ENCODE k v ENET_SUBCONTEXT_SYMBOL_DELTA 0 c = Some (Go (idx' (w @ [v]), b, m, c1))
    \<and> grown_frame idx w v M c c1 \<and> (\<forall>c2. linked_to (idx' (w @ [v])) c1 c2 \<longrightarrow> totals_at idx w x c2
      \<and> (\<exists>c3. rescale_context k m (if m \<le> 0 then count_escape k c2 else c2) = Some (Go c3)
          \<and> trie_rep c3 idx' (learned v {w} M) \<and> same_links idx' (learned v {w} M) c2 c3))"
proof -
  note sub = sub_count [OF ok count]
  have t: "tree_sorted t" "tree_values t = insert v (tree_values (cx_tree x))" using sub(3) by (simp_all add: counted_once_more_def)
  have "tree_count v 2 (ucast v * 0) 0 (cx_tree x) = (b, m, t)" using count by (simp add: ctx_count_def)
  from trie_encode [OF rep x room this t, folded idx'_def] obtain c1 where c1:
    "ENET_CONTEXT_ENCODE k v 2 0 c = Some (Go (idx' (w @ [v]), b, m, c1))" "trie_rep c1 idx' (put_tree w v t M)"
    "grown_frame idx w v M c c1" unfolding k_def by blast
  let ?M1 = "put_tree w v t M" and ?x1 = "x\<lparr>cx_tree := t\<rparr>"
  have wM: "w \<in> dom M" using x by blast
  have x1: "?M1 w = Some ?x1" using x by (simp add: put_tree_def)
  have kk: "idx' w = k" unfolding idx'_def k_def by (rule idx_after_old [OF wM])
  have dom: "dom (learned v {w} M) = dom ?M1" using dom_learned_single [OF wM] put_tree_dom [OF wM] by simp
  have "totals_at idx w x c2 \<and> (\<exists>c3. rescale_context k m (if m \<le> 0 then count_escape k c2 else c2) = Some (Go c3)
          \<and> trie_rep c3 idx' (learned v {w} M) \<and> same_links idx' (learned v {w} M) c2 c3)"
    if l: "linked_to (idx' (w @ [v])) c1 c2" for c2
  proof
    have r2: "trie_rep c2 idx' ?M1" using l c1(2) trie_set_parent by (auto simp: linked_to_def)
    show "totals_at idx w x c2" using trie_totals [OF r2 x1] kk by (simp add: totals_at_def k_def)
    define y where "y = (if m \<le> 0 then ctx_add 5 5 ?x1 else ?x1)"
    define c2' where "c2' = (if m \<le> 0 then count_escape k c2 else c2)"
    have "trie_rep c2' idx' (?M1(w \<mapsto> y))"
    proof (cases "m \<le> 0")
      case True
      have "trie_rep (upd_sym (idx' w) (\<lambda>s. s\<lparr>sy_escapes := sy_escapes s + ENET_SUBCONTEXT_ESCAPE_DELTA,
          sy_total := sy_total s + ENET_SUBCONTEXT_ESCAPE_DELTA\<rparr>) c2) idx' (?M1(w \<mapsto> ctx_add 5 5 ?x1))"
        by (rule trie_add [OF r2 x1]) (simp add: ENET_SUBCONTEXT_ESCAPE_DELTA_def)
      then show ?thesis using True kk by (simp add: c2'_def y_def count_escape_def)
    next
      case False
      have "?M1(w \<mapsto> ?x1) = ?M1" using x1 by (simp add: fun_upd_idem)
      then show ?thesis using False r2 by (simp add: c2'_def y_def)
    qed
    from rescale_context_spec [OF this, of w y m] obtain c3 where c3: "rescale_context k m c2' = Some (Go c3)"
      "trie_rep c3 idx' (?M1(w \<mapsto> settle 251 0 m (ctx_add 0 2 y)))" "same_links idx' (?M1(w \<mapsto> y)) c2' c3"
      unfolding kk by auto
    have "settle 251 0 m (ctx_add 0 2 y) = learn v w x" using w count by (simp add: learn_def learn_sub_def y_def)
    then have "trie_rep c3 idx' (learned v {w} M)" using c3(2) learned_single [of M w x v t] x by simp
    moreover have "same_links idx' (learned v {w} M) c2' c3"
      by (rule same_links_dom [OF c3(3)]) (use x1 dom in auto)
    moreover have "same_links idx' (learned v {w} M) c2 c2'"
      by (simp add: c2'_def same_links_refl count_escape_def same_links_upd)
    ultimately show "\<exists>c3. rescale_context k m (if m \<le> 0 then count_escape k c2 else c2) = Some (Go c3)
          \<and> trie_rep c3 idx' (learned v {w} M) \<and> same_links idx' (learned v {w} M) c2 c3"
      using c3(1) same_links_trans unfolding c2'_def by blast
  qed
  then show ?thesis using c1 by (auto simp: ENET_SUBCONTEXT_SYMBOL_DELTA_def)
qed

lemma root_step:
  assumes rep: "trie_rep c idx M" and x: "M [] = Some x" and ok: "root_ok x"
    and room: "[v] \<in> dom M \<or> card (dom M) < ENET_RANGE_CODER_SYMBOLS" and count: "ctx_count v 3 1 x = (b, m, t)"
  defines "idx' \<equiv> idx_after idx [] v M"
  shows "\<exists>c1. ENET_CONTEXT_ENCODE 0 v ENET_CONTEXT_SYMBOL_DELTA ENET_CONTEXT_SYMBOL_MINIMUM c = Some (Go (idx' [v], b, m, c1))
    \<and> grown_frame idx [] v M c c1 \<and> (\<forall>c2. linked_to (idx' [v]) c1 c2 \<longrightarrow> totals_at idx [] x c2
      \<and> (\<exists>c3. rescale_root m c2 = Some (Go c3) \<and> trie_rep c3 idx' (learned v {[]} M) \<and> same_links idx' (learned v {[]} M) c2 c3))"
proof -
  note root = root_count [OF ok count]
  have t: "tree_sorted t" "tree_values t = insert v (tree_values (cx_tree x))" using root(3) by (simp_all add: counted_once_more_def)
  have k: "idx [] = 0" using rep by (simp add: trie_rep_def)
  have "tree_count v 3 (ucast v * 1) 1 (cx_tree x) = (b, m, t)" using count by (simp add: ctx_count_def)
  from trie_encode [OF rep x _ this t] room obtain c1 where c1:
    "ENET_CONTEXT_ENCODE 0 v 3 1 c = Some (Go (idx' [v], b, m, c1))" "trie_rep c1 idx' (put_tree [] v t M)"
    "grown_frame idx [] v M c c1" unfolding k idx'_def by auto
  let ?M1 = "put_tree [] v t M" and ?x1 = "x\<lparr>cx_tree := t\<rparr>"
  have wM: "[] \<in> dom M" using x by blast
  have x1: "?M1 [] = Some ?x1" using x by (simp add: put_tree_def)
  have kk: "idx' [] = idx []" unfolding idx'_def by (rule idx_after_old [OF wM])
  have dom: "dom (learned v {[]} M) = dom ?M1" using dom_learned_single [OF wM] put_tree_dom [OF wM] by simp
  have "totals_at idx [] x c2 \<and> (\<exists>c3. rescale_root m c2 = Some (Go c3)
          \<and> trie_rep c3 idx' (learned v {[]} M) \<and> same_links idx' (learned v {[]} M) c2 c3)"
    if l: "linked_to (idx' [v]) c1 c2" for c2
  proof
    have r2: "trie_rep c2 idx' ?M1" using l c1(2) trie_set_parent by (auto simp: linked_to_def)
    show "totals_at idx [] x c2" using trie_totals [OF r2 x1] kk by (simp add: totals_at_def)
    from rescale_root_spec [OF r2 x1, of m] obtain c3 where c3: "rescale_root m c2 = Some (Go c3)"
      "trie_rep c3 idx' (?M1([] \<mapsto> settle 250 1 m (ctx_add 0 3 ?x1)))" "same_links idx' ?M1 c2 c3" by auto
    have "settle 250 1 m (ctx_add 0 3 ?x1) = learn v [] x" using count by (simp add: learn_def learn_root_def)
    then have "trie_rep c3 idx' (learned v {[]} M)" using c3(2) learned_single [of M "[]" x v t] x by simp
    moreover have "same_links idx' (learned v {[]} M) c2 c3" by (rule same_links_dom [OF c3(3)]) (simp add: dom)
    ultimately show "\<exists>c3. rescale_root m c2 = Some (Go c3)
          \<and> trie_rep c3 idx' (learned v {[]} M) \<and> same_links idx' (learned v {[]} M) c2 c3" using c3(1) by blast
  qed
  then show ?thesis using c1 by (auto simp: ENET_CONTEXT_SYMBOL_DELTA_def ENET_CONTEXT_SYMBOL_MINIMUM_def)
qed

section \<open>Links\<close>

text \<open>Who waits for the index of the symbol of \<open>w @ [v]\<close>: nobody but \<open>predicted\<close>, or the symbol before it.\<close>

definition waiting :: "(u8 list \<Rightarrow> nat) \<Rightarrow> model \<Rightarrow> u8 list \<Rightarrow> parent_ref \<Rightarrow> u8 list set \<Rightarrow> bool" where
  "waiting idx M u p P \<longleftrightarrow> p = ParentPredicted \<and> P = {}
     \<or> (\<exists>q. p = ParentOf (idx q) \<and> q \<in> dom M \<and> P \<subseteq> {q} \<and> q \<noteq> [] \<and> tl q = u)"

lemma link_step:
  assumes rep: "trie_rep c idx M" and parents: "parents_rep c idx M P" and w: "w \<in> dom M"
    and frame: "grown_frame idx w v M c c1" and wait: "waiting idx M (w @ [v]) p P"
  defines "idx' \<equiv> idx_after idx w v M" and "M' \<equiv> learned v {w} M"
  assumes links: "same_links idx' M' (set_parent p (idx' (w @ [v])) c1) c3"
  shows "parents_rep c3 idx' M' (if w @ [v] \<in> dom M \<or> w = [] then {} else {w @ [v]})"
    and "rc_order c3 = rc_order c"
    and "rc_predicted c3 = (if p = ParentPredicted then of_nat (idx' (w @ [v])) else rc_predicted c)"
proof -
  let ?s = "idx' (w @ [v])" and ?c2 = "set_parent p (idx' (w @ [v])) c1"
  have dom: "dom M' = insert (w @ [v]) (dom M)" unfolding M'_def by (rule dom_learned_single [OF w])
  have inj: "inj_on idx (dom M)" and lt: "\<And>u. u \<in> dom M \<Longrightarrow> idx u < card (dom M)" using rep by (auto simp: trie_rep_def)
  have old: "u \<in> dom M \<Longrightarrow> idx' u = idx u" for u by (simp add: idx'_def idx_after_old)
  have p3: "sy_parent (rc_symbols c3 (idx' u)) = sy_parent (rc_symbols ?c2 (idx' u))" if "u \<in> dom M'" for u
    using links that by (simp add: same_links_def)
  have p1: "sy_parent (rc_symbols c1 (idx u)) = sy_parent (rc_symbols c (idx u))" if "u \<in> dom M" for u
    using frame that by (simp add: grown_frame_def)
  show "rc_order c3 = rc_order c" using links frame by (cases p) (simp_all add: same_links_def grown_frame_def)
  show "rc_predicted c3 = (if p = ParentPredicted then of_nat ?s else rc_predicted c)"
    using links frame by (cases p) (simp_all add: same_links_def grown_frame_def)
  show "parents_rep c3 idx' M' (if w @ [v] \<in> dom M \<or> w = [] then {} else {w @ [v]})"
    unfolding parents_rep_def
  proof (intro ballI impI)
    fix u assume u: "u \<in> dom M'" "u \<noteq> []" and np: "u \<notin> (if w @ [v] \<in> dom M \<or> w = [] then {} else {w @ [v]})"
    show "tl u \<in> dom M' \<and> sy_parent (rc_symbols c3 (idx' u)) = of_nat (idx' (tl u))"
    proof (cases "u \<in> dom M")
      case True
      show ?thesis
      proof (cases "p = ParentOf (idx u)")
        case True
        then obtain q where "idx u = idx q" "q \<in> dom M" "tl q = w @ [v]" using wait by (auto simp: waiting_def)
        then have "tl u = w @ [v]" using inj_onD [OF inj, of u q] \<open>u \<in> dom M\<close> by blast
        then show ?thesis using p3 [OF u(1)] True old [OF \<open>u \<in> dom M\<close>] by (simp add: dom)
      next
        case False
        have "u \<notin> P" using wait False by (auto simp: waiting_def)
        then have "tl u \<in> dom M" "sy_parent (rc_symbols c (idx u)) = of_nat (idx (tl u))"
          using parents True u(2) by (simp_all add: parents_rep_def)
        moreover have "sy_parent (rc_symbols ?c2 (idx u)) = sy_parent (rc_symbols c1 (idx u))"
          using False by (cases p) auto
        ultimately show ?thesis using p3 [OF u(1)] p1 [OF True] old [OF True] old [of "tl u"] by (simp add: dom)
      qed
    next
      case new: False
      then have uw: "u = w @ [v]" using u(1) by (simp add: dom)
      then have w0: "w = []" using np new by (auto split: if_splits)
      have s: "idx' u = card (dom M)" using new uw by (simp add: idx'_def idx_after_def)
      have not_new: "p \<noteq> ParentOf (card (dom M))"
      proof
        assume "p = ParentOf (card (dom M))"
        then obtain q where "card (dom M) = idx q" "q \<in> dom M" using wait by (auto simp: waiting_def)
        then show False using lt [of q] by simp
      qed
      have "sy_parent (rc_symbols ?c2 (card (dom M))) = sy_parent (rc_symbols c1 (card (dom M)))"
        using not_new by (cases p) auto
      moreover have "sy_parent (rc_symbols c1 (card (dom M))) = 0" using frame new uw by (simp add: grown_frame_def)
      moreover have "idx' [] = 0" using old [of "[]"] w w0 rep by (simp add: trie_rep_def)
      ultimately show ?thesis using p3 [OF u(1)] s uw w0 w by (simp add: dom)
    qed
  qed
qed

text \<open>The same without a link being set, for a context that knew the value, or the root.\<close>

lemma link_step_found:
  assumes rep: "trie_rep c idx M" and parents: "parents_rep c idx M {}" and w: "w \<in> dom M"
    and frame: "grown_frame idx w v M c c1" and known: "w @ [v] \<in> dom M \<or> w = []"
  defines "idx' \<equiv> idx_after idx w v M" and "M' \<equiv> learned v {w} M"
  assumes links: "same_links idx' M' c1 c3"
  shows "parents_rep c3 idx' M' {}" and "rc_order c3 = rc_order c" and "rc_predicted c3 = rc_predicted c"
proof -
  have dom: "dom M' = insert (w @ [v]) (dom M)" unfolding M'_def by (rule dom_learned_single [OF w])
  have old: "u \<in> dom M \<Longrightarrow> idx' u = idx u" for u by (simp add: idx'_def idx_after_old)
  show "rc_order c3 = rc_order c" "rc_predicted c3 = rc_predicted c"
    using links frame by (simp_all add: same_links_def grown_frame_def)
  show "parents_rep c3 idx' M' {}"
    unfolding parents_rep_def
  proof (intro ballI impI)
    fix u assume u: "u \<in> dom M'" "u \<noteq> []" "u \<notin> {}"
    have p3: "sy_parent (rc_symbols c3 (idx' u)) = sy_parent (rc_symbols c1 (idx' u))" using links u(1) by (simp add: same_links_def)
    show "tl u \<in> dom M' \<and> sy_parent (rc_symbols c3 (idx' u)) = of_nat (idx' (tl u))"
    proof (cases "u \<in> dom M")
      case True
      have "tl u \<in> dom M" "sy_parent (rc_symbols c (idx u)) = of_nat (idx (tl u))"
        using parents True u(2) by (simp_all add: parents_rep_def)
      then show ?thesis using p3 frame old [OF True] old [of "tl u"] True by (simp add: dom grown_frame_def)
    next
      case False
      then have uw: "u = w @ [v]" "w = []" using u(1) known by (auto simp: dom)
      then have "idx' u = card (dom M)" "sy_parent (rc_symbols c1 (card (dom M))) = 0"
        using False frame by (simp_all add: idx'_def idx_after_def grown_frame_def)
      moreover have "idx' [] = 0" using old [of "[]"] w uw rep by (simp add: trie_rep_def)
      ultimately show ?thesis using p3 uw w by (simp add: dom)
    qed
  qed
qed

end
