(* ===== verification/ENet_Coding.thy ===== *)
theory ENet_Coding
  imports ENet_Stepping
begin

text \<open>
  The compressor's loop over the contexts of a value, against the model: the contexts that learn
  the value, and the parts of the range that are encoded for it.
\<close>

section \<open>Contexts and codings of a value\<close>

text \<open>The contexts tried for \<open>v\<close> after the history \<open>w\<close>: up to one that knows it, or the root.\<close>

fun ctxs :: "u8 \<Rightarrow> model \<Rightarrow> u8 list \<Rightarrow> u8 list list" where
  "ctxs v M [] = [[]]"
| "ctxs v M (a # w) = (if (a # w) @ [v] \<in> dom M then [a # w] else (a # w) # ctxs v M w)"

definition ctx_at :: "model \<Rightarrow> u8 list \<Rightarrow> ctx" where
  "ctx_at M w = (case M w of None \<Rightarrow> empty_ctx | Some x \<Rightarrow> x)"

definition value_coding :: "ctx \<Rightarrow> u16 \<times> u16 \<times> ctx_tree \<Rightarrow> u32 \<times> u32 \<times> u32" where
  "value_coding x r = (case r of (b, m, t) \<Rightarrow> (ucast (cx_escapes x) + ucast b, ucast m, ucast (cx_total x)))"

definition escape_codings :: "ctx \<Rightarrow> (u32 \<times> u32 \<times> u32) list" where
  "escape_codings x = (if cx_escapes x > 0 \<and> cx_escapes x < cx_total x then [(0, ucast (cx_escapes x), ucast (cx_total x))] else [])"

fun codings :: "u8 \<Rightarrow> model \<Rightarrow> u8 list \<Rightarrow> (u32 \<times> u32 \<times> u32) list" where
  "codings v M [] = [value_coding (ctx_at M []) (ctx_count v 3 1 (ctx_at M []))]"
| "codings v M (a # w) =
    (if (a # w) @ [v] \<in> dom M then [value_coding (ctx_at M (a # w)) (ctx_count v 2 0 (ctx_at M (a # w)))]
     else escape_codings (ctx_at M (a # w)) @ codings v M w)"

fun encode_all :: "size_t \<Rightarrow> (u32 \<times> u32 \<times> u32) list \<Rightarrow> range_encoder \<Rightarrow> range_encoder coding option" where
  "encode_all L [] e = Some (Go e)"
| "encode_all L ((b, m, t) # cs) e = bindc (ENET_RANGE_CODER_ENCODE L b m t e) (encode_all L cs)"

lemma bindc_assoc: "bindc (bindc m f) g = bindc m (\<lambda>x. bindc (f x) g)"
  by (cases m rule: option.exhaust; simp; rename_tac r; case_tac r; simp)

lemma bindc_cong: "m = m' \<Longrightarrow> (\<And>x. f x = g x) \<Longrightarrow> bindc m f = bindc m' g"
  by (metis (no_types) ext)

lemma encode_all_append: "encode_all L (cs @ ds) e = bindc (encode_all L cs e) (encode_all L ds)"
proof (induction cs arbitrary: e)
  case (Cons a cs)
  have "encode_all L (cs @ ds) = (\<lambda>e. bindc (encode_all L cs e) (encode_all L ds))" using Cons by blast
  then show ?case by (cases a) (simp add: bindc_assoc)
qed simp

section \<open>Models whose contexts are in order\<close>

definition all_ok :: "model \<Rightarrow> bool" where
  "all_ok M \<longleftrightarrow> (\<forall>w x. M w = Some x \<longrightarrow> any_ok w x) \<and> (\<forall>u \<in> dom M. u \<noteq> [] \<longrightarrow> tl u \<in> dom M)"

lemma all_okD: "all_ok M \<Longrightarrow> w \<in> dom M \<Longrightarrow> \<exists>x. M w = Some x \<and> any_ok w x \<and> ctx_at M w = x"
  by (auto simp: all_ok_def ctx_at_def)

lemma all_ok_tl: "all_ok M \<Longrightarrow> a # w \<in> dom M \<Longrightarrow> w \<in> dom M"
  by (force simp: all_ok_def)

lemma ctxs_dom: "all_ok M \<Longrightarrow> w \<in> dom M \<Longrightarrow> set (ctxs v M w) \<subseteq> dom M"
proof (induction w)
  case (Cons a w)
  then show ?case using all_ok_tl [OF Cons.prems] by auto
qed auto

lemma ctxs_length: "u \<in> set (ctxs v M w) \<Longrightarrow> length u \<le> length w"
  by (induction w) (auto split: if_splits)

lemma ctxs_hd: "w \<in> set (ctxs v M w)"
  by (cases w) auto

text \<open>A context knows the values of its tree.\<close>

lemma trie_knows: "trie_rep c idx M \<Longrightarrow> M w = Some x \<Longrightarrow> w @ [v] \<in> dom M \<longleftrightarrow> v \<in> tree_values (cx_tree x)"
  using trie_repD(5) by blast

lemma learned_knows: "W \<subseteq> dom M \<Longrightarrow> w \<notin> W \<Longrightarrow> w @ [v] \<in> dom (learned v W M) \<longleftrightarrow> w @ [v] \<in> dom M"
  by (auto simp: dom_learned)

lemma learned_in: "W \<subseteq> dom M \<Longrightarrow> w \<in> dom M \<Longrightarrow> w \<in> dom (learned v W M)"
  by (simp add: dom_learned)

section \<open>One context\<close>

text \<open>A stage of a loop over contexts: the longer contexts \<open>W\<close> have learned, some link waits for \<open>u\<close>.\<close>

definition stage :: "ENetRangeCoder \<Rightarrow> (u8 list \<Rightarrow> nat) \<Rightarrow> u8 \<Rightarrow> u8 list set \<Rightarrow> model \<Rightarrow> u8 list \<Rightarrow> parent_ref \<Rightarrow> bool" where
  "stage c idx v W M u p \<longleftrightarrow> W \<subseteq> dom M \<and> trie_rep c idx (learned v W M)
     \<and> (\<exists>P. parents_rep c idx (learned v W M) P \<and> waiting idx (learned v W M) u p P \<and> P \<inter> dom M = {})"

definition extends :: "(u8 list \<Rightarrow> nat) \<Rightarrow> (u8 list \<Rightarrow> nat) \<Rightarrow> model \<Rightarrow> bool" where
  "extends idx' idx M \<longleftrightarrow> (\<forall>u \<in> dom M. idx' u = idx u)"

lemma stage_idx: "stage c idx v W M u p \<Longrightarrow> w \<in> dom M \<Longrightarrow> idx w < ENET_RANGE_CODER_SYMBOLS \<and> (idx w = 0 \<longleftrightarrow> w = [])"
proof -
  assume s: "stage c idx v W M u p" and w: "w \<in> dom M"
  let ?M = "learned v W M"
  have r: "trie_rep c idx ?M" and w': "w \<in> dom ?M" using s w by (auto simp: stage_def learned_in)
  have 0: "idx [] = 0" "[] \<in> dom ?M" "inj_on idx (dom ?M)" "card (dom ?M) \<le> ENET_RANGE_CODER_SYMBOLS"
    using r by (auto simp: trie_rep_def model_ok_def)
  have "idx w < card (dom ?M)" using r w' by (auto simp: trie_rep_def)
  moreover have "idx w = 0 \<longleftrightarrow> w = []" using 0 inj_onD [OF 0(3), of w "[]"] w' by auto
  ultimately show ?thesis using 0(4) by linarith
qed

lemma stage_parent:
  assumes "stage c idx v W M u p" "all_ok M" "a # w \<in> dom M"
  shows "unat (sy_parent (sym_at c (idx (a # w)))) = idx w"
proof -
  let ?M = "learned v W M"
  obtain P where P: "parents_rep c idx ?M P" "P \<inter> dom M = {}" and W: "W \<subseteq> dom M"
    using assms(1) by (auto simp: stage_def)
  have "a # w \<in> dom ?M" using learned_in [OF W assms(3)] .
  moreover have "a # w \<notin> P" using P(2) assms(3) by blast
  ultimately have "sy_parent (rc_symbols c (idx (a # w))) = of_nat (idx w)"
    using P(1) unfolding parents_rep_def by (metis list.distinct(1) list.sel(3))
  moreover have "idx w < ENET_RANGE_CODER_SYMBOLS" using stage_idx [OF assms(1)] all_ok_tl [OF assms(2,3)] by blast
  ultimately show ?thesis by (simp add: sym_at_def ENET_RANGE_CODER_SYMBOLS_def unsigned_of_nat take_bit_nat_eq_self)
qed

text \<open>All links are set.\<close>

definition settled :: "ENetRangeCoder \<Rightarrow> (u8 list \<Rightarrow> nat) \<Rightarrow> model \<Rightarrow> bool" where
  "settled c idx M \<longleftrightarrow> trie_rep c idx M \<and> parents_rep c idx M {}"

definition links_kept :: "parent_ref \<Rightarrow> nat \<Rightarrow> ENetRangeCoder \<Rightarrow> ENetRangeCoder \<Rightarrow> bool" where
  "links_kept p s c c' \<longleftrightarrow> rc_order c' = rc_order c
     \<and> rc_predicted c' = (if p = ParentPredicted then of_nat s else rc_predicted c)"

lemma extends_after: "extends (idx_after idx w v M) idx M"
  by (simp add: extends_def idx_after_old)

lemma extends_trans: "extends j i M \<Longrightarrow> extends k j M' \<Longrightarrow> dom M \<subseteq> dom M' \<Longrightarrow> extends k i M"
  unfolding extends_def by (metis subsetD)

lemma learned_more: "W \<subseteq> dom M \<Longrightarrow> w \<in> dom M \<Longrightarrow> w \<notin> W \<Longrightarrow> w @ [v] \<notin> dom M \<Longrightarrow>
  card (dom (learned v (insert w W) M)) \<le> Suc (card (dom (learned v W M)))"
proof -
  assume W: "W \<subseteq> dom M" "w \<in> dom M"
  then have "dom (learned v (insert w W) M) = insert (w @ [v]) (dom (learned v W M))" by (auto simp: dom_learned)
  then show ?thesis by (simp add: card_insert_le_m1 card_insert_if card_insert_disjoint)
qed


text \<open>A context other than the root that does not know the value.\<close>

lemma unknown_stage:
  assumes stage: "stage c idx v W M (w @ [v]) p" and ok: "all_ok M" and w: "w \<in> dom M" "w \<notin> W" "w \<noteq> []" "w @ [v] \<notin> dom M"
    and room: "card (dom (learned v W M)) < ENET_RANGE_CODER_SYMBOLS" and count: "ctx_count v 2 0 (ctx_at M w) = (b, m, t)"
  shows "m = 0"
    and "\<exists>c1 c3 idx'. ENET_CONTEXT_ENCODE (idx w) v ENET_SUBCONTEXT_SYMBOL_DELTA 0 c = Some (Go (idx' (w @ [v]), b, m, c1))
      \<and> totals_at idx w (ctx_at M w) (set_parent p (idx' (w @ [v])) c1)
      \<and> rescale_context (idx w) m (count_escape (idx w) (set_parent p (idx' (w @ [v])) c1)) = Some (Go c3)
      \<and> stage c3 idx' v (insert w W) M (tl w @ [v]) (ParentOf (idx' (w @ [v]))) \<and> links_kept p (idx' (w @ [v])) c c3
      \<and> extends idx' idx (learned v W M) \<and> w @ [v] \<in> dom (learned v (insert w W) M)"
proof -
  let ?M = "learned v W M"
  obtain P where W: "W \<subseteq> dom M" and rep: "trie_rep c idx ?M" and P: "parents_rep c idx ?M P" "waiting idx ?M (w @ [v]) p P"
    using stage by (auto simp: stage_def)
  obtain x where x: "M w = Some x" "any_ok w x" "ctx_at M w = x" using all_okD [OF ok w(1)] by blast
  have x': "?M w = Some x" using learned_other [OF w(1,2)] x(1) by simp
  have sub: "sub_ok x" using x(2) w(3) by (simp add: any_ok_def)
  have unknown: "w @ [v] \<notin> dom ?M" using learned_knows [OF W w(2)] w(4) by blast
  then have "v \<notin> tree_values (cx_tree x)" using trie_knows [OF rep x'] by blast
  then show m: "m = 0" using sub_count(4) [OF sub] count x(3) by simp
  define idx' where "idx' = idx_after idx w v ?M"
  have M': "learned v {w} ?M = learned v (insert w W) M" by (rule learned_insert [OF W w(1,2)])
  have wM: "w \<in> dom ?M" by (rule learned_in [OF W w(1)])
  obtain c1 where c1: "ENET_CONTEXT_ENCODE (idx w) v ENET_SUBCONTEXT_SYMBOL_DELTA 0 c = Some (Go (idx' (w @ [v]), b, m, c1))"
      "grown_frame idx w v ?M c c1"
    and all: "\<And>c2. linked_to (idx' (w @ [v])) c1 c2 \<Longrightarrow> totals_at idx w x c2
      \<and> (\<exists>c3. rescale_context (idx w) m (if m \<le> 0 then count_escape (idx w) c2 else c2) = Some (Go c3)
          \<and> trie_rep c3 idx' (learned v {w} ?M) \<and> same_links idx' (learned v {w} ?M) c2 c3)"
    using sub_step [OF rep x' w(3) sub disjI2 [OF room] count [unfolded x(3)], folded idx'_def] by blast
  let ?c2 = "set_parent p (idx' (w @ [v])) c1"
  obtain c3 where c3: "totals_at idx w x ?c2" "rescale_context (idx w) m (count_escape (idx w) ?c2) = Some (Go c3)"
    "trie_rep c3 idx' (learned v {w} ?M)" "same_links idx' (learned v {w} ?M) ?c2 c3"
    using all [of ?c2] m by (auto simp: linked_to_def)
  note link = link_step [OF rep P(1) wM c1(2) P(2) c3(4) [unfolded idx'_def], folded idx'_def]
  have wv: "w @ [v] \<in> dom (learned v (insert w W) M)" using W w(1) by (auto simp: dom_learned)
  have "waiting idx' (learned v (insert w W) M) (tl w @ [v]) (ParentOf (idx' (w @ [v]))) {w @ [v]}"
    using wv w(3) by (auto simp: waiting_def intro!: exI [of _ "w @ [v]"])
  then have "stage c3 idx' v (insert w W) M (tl w @ [v]) (ParentOf (idx' (w @ [v])))"
    using W w c3(3) link(1) unknown unfolding M' stage_def by auto
  moreover have "links_kept p (idx' (w @ [v])) c c3" using link(2,3) by (simp add: links_kept_def)
  moreover have "extends idx' idx ?M" unfolding idx'_def by (rule extends_after)
  ultimately show "\<exists>c1 c3 idx'. ENET_CONTEXT_ENCODE (idx w) v ENET_SUBCONTEXT_SYMBOL_DELTA 0 c = Some (Go (idx' (w @ [v]), b, m, c1))
      \<and> totals_at idx w (ctx_at M w) (set_parent p (idx' (w @ [v])) c1)
      \<and> rescale_context (idx w) m (count_escape (idx w) (set_parent p (idx' (w @ [v])) c1)) = Some (Go c3)
      \<and> stage c3 idx' v (insert w W) M (tl w @ [v]) (ParentOf (idx' (w @ [v]))) \<and> links_kept p (idx' (w @ [v])) c c3
      \<and> extends idx' idx ?M \<and> w @ [v] \<in> dom (learned v (insert w W) M)"
    using c1(1) c3(1,2) wv unfolding x(3) by blast
qed

text \<open>A context that knows the value, and the root.\<close>

lemma known_stage:
  assumes stage: "stage c idx v W M (w @ [v]) p" and ok: "all_ok M" and w: "w \<in> dom M" "w \<notin> W" "w \<noteq> []" "w @ [v] \<in> dom M"
    and count: "ctx_count v 2 0 (ctx_at M w) = (b, m, t)"
  shows "m > 0"
    and "\<exists>c1 c3 idx'. ENET_CONTEXT_ENCODE (idx w) v ENET_SUBCONTEXT_SYMBOL_DELTA 0 c = Some (Go (idx' (w @ [v]), b, m, c1))
      \<and> totals_at idx w (ctx_at M w) (set_parent p (idx' (w @ [v])) c1)
      \<and> rescale_context (idx w) m (set_parent p (idx' (w @ [v])) c1) = Some (Go c3)
      \<and> settled c3 idx' (learned v (insert w W) M) \<and> links_kept p (idx' (w @ [v])) c c3
      \<and> extends idx' idx (learned v W M)"
proof -
  let ?M = "learned v W M"
  obtain P where W: "W \<subseteq> dom M" and rep: "trie_rep c idx ?M" and P: "parents_rep c idx ?M P" "waiting idx ?M (w @ [v]) p P"
    using stage by (auto simp: stage_def)
  obtain x where x: "M w = Some x" "any_ok w x" "ctx_at M w = x" using all_okD [OF ok w(1)] by blast
  have x': "?M w = Some x" using learned_other [OF w(1,2)] x(1) by simp
  have sub: "sub_ok x" using x(2) w(3) by (simp add: any_ok_def)
  have known: "w @ [v] \<in> dom ?M" using learned_knows [OF W w(2)] w(4) by blast
  then have "v \<in> tree_values (cx_tree x)" using trie_knows [OF rep x'] by blast
  then have "m \<noteq> 0" using sub_count(4) [OF sub] count x(3) by simp
  then show m: "m > 0" by (simp add: word_neq_0_conv)
  define idx' where "idx' = idx_after idx w v ?M"
  have M': "learned v {w} ?M = learned v (insert w W) M" by (rule learned_insert [OF W w(1,2)])
  have wM: "w \<in> dom ?M" by (rule learned_in [OF W w(1)])
  obtain c1 where c1: "ENET_CONTEXT_ENCODE (idx w) v ENET_SUBCONTEXT_SYMBOL_DELTA 0 c = Some (Go (idx' (w @ [v]), b, m, c1))"
      "grown_frame idx w v ?M c c1"
    and all: "\<And>c2. linked_to (idx' (w @ [v])) c1 c2 \<Longrightarrow> totals_at idx w x c2
      \<and> (\<exists>c3. rescale_context (idx w) m (if m \<le> 0 then count_escape (idx w) c2 else c2) = Some (Go c3)
          \<and> trie_rep c3 idx' (learned v {w} ?M) \<and> same_links idx' (learned v {w} ?M) c2 c3)"
    using sub_step [OF rep x' w(3) sub disjI1 [OF known] count [unfolded x(3)], folded idx'_def] by blast
  let ?c2 = "set_parent p (idx' (w @ [v])) c1"
  obtain c3 where c3: "totals_at idx w x ?c2" "rescale_context (idx w) m ?c2 = Some (Go c3)"
    "trie_rep c3 idx' (learned v {w} ?M)" "same_links idx' (learned v {w} ?M) ?c2 c3"
    using all [of ?c2] \<open>m \<noteq> 0\<close> by (auto simp: linked_to_def)
  note link = link_step [OF rep P(1) wM c1(2) P(2) c3(4) [unfolded idx'_def], folded idx'_def]
  have "settled c3 idx' (learned v (insert w W) M)"
    using c3(3) link(1) known unfolding M' settled_def by simp
  moreover have "links_kept p (idx' (w @ [v])) c c3" using link(2,3) by (simp add: links_kept_def)
  moreover have "extends idx' idx ?M" unfolding idx'_def by (rule extends_after)
  ultimately show "\<exists>c1 c3 idx'. ENET_CONTEXT_ENCODE (idx w) v ENET_SUBCONTEXT_SYMBOL_DELTA 0 c = Some (Go (idx' (w @ [v]), b, m, c1))
      \<and> totals_at idx w (ctx_at M w) (set_parent p (idx' (w @ [v])) c1)
      \<and> rescale_context (idx w) m (set_parent p (idx' (w @ [v])) c1) = Some (Go c3)
      \<and> settled c3 idx' (learned v (insert w W) M) \<and> links_kept p (idx' (w @ [v])) c c3 \<and> extends idx' idx ?M"
    using c1(1) c3(1,2) unfolding x(3) by blast
qed

lemma root_stage:
  assumes stage: "stage c idx v W M [v] p" and ok: "all_ok M" and w: "[] \<in> dom M" "[] \<notin> W"
    and room: "card (dom (learned v W M)) < ENET_RANGE_CODER_SYMBOLS" and count: "ctx_count v 3 1 (ctx_at M []) = (b, m, t)"
  shows "\<exists>c1 c3 idx'. ENET_CONTEXT_ENCODE 0 v ENET_CONTEXT_SYMBOL_DELTA ENET_CONTEXT_SYMBOL_MINIMUM c = Some (Go (idx' [v], b, m, c1))
      \<and> totals_at idx [] (ctx_at M []) (set_parent p (idx' [v]) c1)
      \<and> rescale_root m (set_parent p (idx' [v]) c1) = Some (Go c3)
      \<and> settled c3 idx' (learned v (insert [] W) M) \<and> links_kept p (idx' [v]) c c3
      \<and> extends idx' idx (learned v W M)"
proof -
  let ?M = "learned v W M"
  obtain P where W: "W \<subseteq> dom M" and rep: "trie_rep c idx ?M" and P: "parents_rep c idx ?M P" "waiting idx ?M ([] @ [v]) p P"
    using stage by (auto simp: stage_def)
  obtain x where x: "M [] = Some x" "any_ok [] x" "ctx_at M [] = x" using all_okD [OF ok w(1)] by blast
  have x': "?M [] = Some x" using learned_other [OF w(1,2)] x(1) by simp
  have root: "root_ok x" using x(2) by (simp add: any_ok_def)
  define idx' where "idx' = idx_after idx [] v ?M"
  have M': "learned v {[]} ?M = learned v (insert [] W) M" by (rule learned_insert [OF W w(1,2)])
  have wM: "[] \<in> dom ?M" by (rule learned_in [OF W w(1)])
  obtain c1 where c1: "ENET_CONTEXT_ENCODE 0 v ENET_CONTEXT_SYMBOL_DELTA ENET_CONTEXT_SYMBOL_MINIMUM c = Some (Go (idx' [v], b, m, c1))"
      "grown_frame idx [] v ?M c c1"
    and all: "\<And>c2. linked_to (idx' [v]) c1 c2 \<Longrightarrow> totals_at idx [] x c2
      \<and> (\<exists>c3. rescale_root m c2 = Some (Go c3)
          \<and> trie_rep c3 idx' (learned v {[]} ?M) \<and> same_links idx' (learned v {[]} ?M) c2 c3)"
    using root_step [OF rep x' root disjI2 [OF room] count [unfolded x(3)], folded idx'_def] by blast
  let ?c2 = "set_parent p (idx' [v]) c1"
  obtain c3 where c3: "totals_at idx [] x ?c2" "rescale_root m ?c2 = Some (Go c3)"
    "trie_rep c3 idx' (learned v {[]} ?M)" "same_links idx' (learned v {[]} ?M) ?c2 c3"
    using all [of ?c2] by (auto simp: linked_to_def)
  note link = link_step [OF rep P(1) wM c1(2) P(2), folded idx'_def, unfolded append_Nil, OF c3(4)]
  have "settled c3 idx' (learned v (insert [] W) M)"
    using c3(3) link(1) unfolding M' settled_def by simp
  moreover have "links_kept p (idx' [v]) c c3" using link(2,3) by (simp add: links_kept_def)
  moreover have "extends idx' idx ?M" unfolding idx'_def by (rule extends_after)
  ultimately show ?thesis
    using c1(1) c3(1,2) unfolding x(3) by blast
qed

section \<open>The loop of the compressor\<close>

lemma encode_subcontexts_root: "encode_subcontexts L v 0 p c e = Some (Go (False, p, c, e))"
  by (subst encode_subcontexts.simps) simp

lemma encode_subcontexts_known:
  assumes "k \<noteq> 0" "k < ENET_RANGE_CODER_SYMBOLS" "ENET_CONTEXT_ENCODE k v ENET_SUBCONTEXT_SYMBOL_DELTA 0 c = Some (Go (s, b, m, c1))"
    and "m > 0" "rescale_context k m (set_parent p s c1) = Some (Go c3)"
    and "sy_escapes (sym_at (set_parent p s c1) k) = cx_escapes x" "sy_total (sym_at (set_parent p s c1) k) = cx_total x"
  shows "encode_subcontexts L v k p c e =
    bindc (encode_all L [value_coding x (b, m, t)] e) (\<lambda>e. Some (Go (True, ParentOf s, c3, e)))"
  using assms by (subst encode_subcontexts.simps) (simp add: value_coding_def bindc_assoc Let_def)

lemma encode_subcontexts_unknown:
  assumes "k \<noteq> 0" "k < ENET_RANGE_CODER_SYMBOLS" "ENET_CONTEXT_ENCODE k v ENET_SUBCONTEXT_SYMBOL_DELTA 0 c = Some (Go (s, b, 0, c1))"
    and "rescale_context k 0 (count_escape k (set_parent p s c1)) = Some (Go c3)" "unat (sy_parent (sym_at c3 k)) = up"
    and "sy_escapes (sym_at (set_parent p s c1) k) = cx_escapes x" "sy_total (sym_at (set_parent p s c1) k) = cx_total x"
  shows "encode_subcontexts L v k p c e =
    bindc (encode_all L (escape_codings x) e) (\<lambda>e. encode_subcontexts L v up (ParentOf s) c3 e)"
  using assms by (subst encode_subcontexts.simps) (simp add: escape_codings_def bindc_assoc Let_def)

lemma encode_root_coded:
  assumes "ENET_CONTEXT_ENCODE 0 v ENET_CONTEXT_SYMBOL_DELTA ENET_CONTEXT_SYMBOL_MINIMUM c = Some (Go (s, b, m, c1))"
    and "rescale_root m (set_parent p s c1) = Some (Go c3)"
    and "sy_escapes (sym_at (set_parent p s c1) 0) = cx_escapes x" "sy_total (sym_at (set_parent p s c1) 0) = cx_total x"
  shows "encode_root L v p c e = bindc (encode_all L [value_coding x (b, m, t)] e) (\<lambda>e. Some (Go (c3, e)))"
  using assms by (simp add: encode_root_def value_coding_def bindc_assoc Let_def)

definition encode_contexts ::
  "size_t \<Rightarrow> u8 \<Rightarrow> nat \<Rightarrow> parent_ref \<Rightarrow> ENetRangeCoder \<Rightarrow> range_encoder \<Rightarrow> (ENetRangeCoder \<times> range_encoder) coding option" where
  "encode_contexts L v k p c e = bindc (encode_subcontexts L v k p c e)
     (\<lambda>(known, p, c, e). if known then Some (Go (c, e)) else encode_root L v p c e)"

lemma totals_atD:
  "totals_at idx w x c \<Longrightarrow> sy_escapes (sym_at c (idx w)) = cx_escapes x"
  "totals_at idx w x c \<Longrightarrow> sy_total (sym_at c (idx w)) = cx_total x"
  by (simp_all add: totals_at_def)

lemma links_kept_trans: "links_kept p s c c1 \<Longrightarrow> links_kept (ParentOf k) s' c1 c2 \<Longrightarrow> links_kept p s c c2"
  by (simp add: links_kept_def)

lemma encode_contexts_spec:
  assumes "stage c idx v W M (w @ [v]) p" "all_ok M" "w \<in> dom M" "\<forall>u \<in> W. length w < length u"
    and "card (dom (learned v W M)) + length w < ENET_RANGE_CODER_SYMBOLS"
  shows "\<exists>c' idx'. (\<forall>e. encode_contexts L v (idx w) p c e = bindc (encode_all L (codings v M w) e) (\<lambda>e. Some (Go (c', e))))
    \<and> settled c' idx' (learned v (W \<union> set (ctxs v M w)) M) \<and> links_kept p (idx' (w @ [v])) c c' \<and> extends idx' idx (learned v W M)"
  using assms
proof (induction w arbitrary: c idx W p)
  case Nil
  have k: "idx [] = 0" using stage_idx [OF Nil.prems(1,3)] by simp
  obtain b m t where count: "ctx_count v 3 1 (ctx_at M []) = (b, m, t)" by (metis prod_cases3)
  have W: "[] \<notin> W" and st: "stage c idx v W M [v] p" and room: "card (dom (learned v W M)) < ENET_RANGE_CODER_SYMBOLS"
    using Nil.prems(1,4,5) by auto
  obtain c1 c3 idx' where r: "ENET_CONTEXT_ENCODE 0 v ENET_CONTEXT_SYMBOL_DELTA ENET_CONTEXT_SYMBOL_MINIMUM c = Some (Go (idx' [v], b, m, c1))"
      "totals_at idx [] (ctx_at M []) (set_parent p (idx' [v]) c1)"
      "rescale_root m (set_parent p (idx' [v]) c1) = Some (Go c3)"
      "settled c3 idx' (learned v (insert [] W) M)" "links_kept p (idx' [v]) c c3" "extends idx' idx (learned v W M)"
    using root_stage [OF st Nil.prems(2,3) W room count] by blast
  note tot = totals_atD [OF r(2), unfolded k]
  have "encode_contexts L v (idx []) p c e = bindc (encode_all L (codings v M []) e) (\<lambda>e. Some (Go (c3, e)))" for e
    by (simp add: encode_contexts_def k encode_subcontexts_root encode_root_coded [OF r(1,3) tot, of _ _ t] count)
  then show ?case using r(4,5,6) by auto
next
  case (Cons a w)
  let ?w = "a # w"
  obtain b m t where count: "ctx_count v 2 0 (ctx_at M ?w) = (b, m, t)" by (metis prod_cases3)
  have W: "?w \<notin> W" and W': "w \<notin> W" using Cons.prems(4) by auto
  have k: "idx ?w \<noteq> 0" "idx ?w < ENET_RANGE_CODER_SYMBOLS" using stage_idx [OF Cons.prems(1,3)] by simp_all
  show ?case
  proof (cases "?w @ [v] \<in> dom M")
    case True
    note known = known_stage [OF Cons.prems(1,2,3) W _ True count]
    obtain c1 c3 idx' where r: "ENET_CONTEXT_ENCODE (idx ?w) v ENET_SUBCONTEXT_SYMBOL_DELTA 0 c = Some (Go (idx' (?w @ [v]), b, m, c1))"
      "totals_at idx ?w (ctx_at M ?w) (set_parent p (idx' (?w @ [v])) c1)"
      "rescale_context (idx ?w) m (set_parent p (idx' (?w @ [v])) c1) = Some (Go c3)"
      "settled c3 idx' (learned v (insert ?w W) M)" "links_kept p (idx' (?w @ [v])) c c3"
      "extends idx' idx (learned v W M)"
      using known(2) by blast
    note code = encode_subcontexts_known [OF k r(1) known(1) r(3) totals_atD [OF r(2)], of L _ t]
    have "encode_contexts L v (idx ?w) p c e = bindc (encode_all L (codings v M ?w) e) (\<lambda>e. Some (Go (c3, e)))" for e
      using True by (simp add: encode_contexts_def code bindc_assoc count)
    then show ?thesis using r(4,5,6) True by auto
  next
    case False
    note room = Cons.prems(5)
    note unknown = unknown_stage [OF Cons.prems(1,2,3) W _ False _ count]
    have m: "m = 0" using unknown(1) room by simp
    obtain c1 c3 idx' where r: "ENET_CONTEXT_ENCODE (idx ?w) v ENET_SUBCONTEXT_SYMBOL_DELTA 0 c = Some (Go (idx' (?w @ [v]), b, 0, c1))"
      "totals_at idx ?w (ctx_at M ?w) (set_parent p (idx' (?w @ [v])) c1)"
      "rescale_context (idx ?w) 0 (count_escape (idx ?w) (set_parent p (idx' (?w @ [v])) c1)) = Some (Go c3)"
      "stage c3 idx' v (insert ?w W) M (w @ [v]) (ParentOf (idx' (?w @ [v])))" "links_kept p (idx' (?w @ [v])) c c3"
      "extends idx' idx (learned v W M)" "?w @ [v] \<in> dom (learned v (insert ?w W) M)"
      using unknown(2) room unfolding m by auto
    have WM: "W \<subseteq> dom M" using Cons.prems(1) by (simp add: stage_def)
    have old: "idx' ?w = idx ?w" "idx' w = idx w" using r(6) learned_in [OF WM] Cons.prems(3) all_ok_tl [OF Cons.prems(2,3)]
      by (simp_all add: extends_def)
    have up: "unat (sy_parent (sym_at c3 (idx ?w))) = idx' w"
      using stage_parent [OF r(4) Cons.prems(2,3)] old by simp
    have room': "card (dom (learned v (insert ?w W) M)) + length w < ENET_RANGE_CODER_SYMBOLS"
      using learned_more [OF WM Cons.prems(3) W False] room by simp
    have len: "\<forall>u \<in> insert ?w W. length w < length u" using Cons.prems(4) by (auto dest: Suc_lessD)
    obtain c' idx'' where IH: "\<And>e. encode_contexts L v (idx' w) (ParentOf (idx' (?w @ [v]))) c3 e
        = bindc (encode_all L (codings v M w) e) (\<lambda>e. Some (Go (c', e)))"
      "settled c' idx'' (learned v (insert ?w W \<union> set (ctxs v M w)) M)" "links_kept (ParentOf (idx' (?w @ [v]))) (idx'' (w @ [v])) c3 c'"
      "extends idx'' idx' (learned v (insert ?w W) M)"
      using Cons.IH [OF r(4) Cons.prems(2) all_ok_tl [OF Cons.prems(2,3)] len room'] by blast
    note code = encode_subcontexts_unknown [OF k r(1,3) up totals_atD [OF r(2)], of L]
    have "encode_contexts L v (idx ?w) p c e = bindc (encode_all L (codings v M ?w) e) (\<lambda>e. Some (Go (c', e)))" for e
      using False by (simp add: encode_contexts_def code bindc_assoc encode_all_append IH(1) [unfolded encode_contexts_def append_Cons])
    moreover have "settled c' idx'' (learned v (W \<union> set (ctxs v M ?w)) M)" using IH(2) False by simp
    moreover have "idx'' (?w @ [v]) = idx' (?w @ [v])" using IH(4) r(7) by (simp add: extends_def)
    then have "links_kept p (idx'' (?w @ [v])) c c'" using links_kept_trans [OF r(5) IH(3)] by (simp only:)
    moreover have "dom (learned v W M) \<subseteq> dom (learned v (insert ?w W) M)" using WM Cons.prems(3) by (auto simp: dom_learned)
    then have "extends idx'' idx (learned v W M)" by (rule extends_trans [OF r(6) IH(4)])
    ultimately show ?thesis by blast
  qed
qed

end
