(* ===== verification/ENet_Decoding.thy ===== *)
theory ENet_Decoding
  imports ENet_Coding
begin

text \<open>
  The decompressor's loops over the contexts of a value, against the same model: the context that
  knows the value is found from the code, then the contexts before it learn the value.
\<close>

section \<open>The codings of a value are parts of the range\<close>

definition part_ok :: "u32 \<times> u32 \<times> u32 \<Rightarrow> bool" where
  "part_ok r = (case r of (b, m, t) \<Rightarrow> 1 \<le> unat m \<and> unat b + unat m \<le> unat t \<and> unat t < 65536)"

lemma unat_u32_of_u16: "unat (ucast (x :: u16) :: u32) = unat x"
  using u16_below [of x] by (simp add: unsigned_ucast_eq take_bit_nat_eq_self)

lemma unat_u32_sum: "unat (ucast (x :: u16) + ucast (y :: u16) :: u32) = unat x + unat y"
proof -
  have "unat (ucast x + ucast y :: u32) = unat (ucast x :: u32) + unat (ucast y :: u32)"
    by (rule add_no_wrap) (use u16_below [of x] u16_below [of y] in \<open>simp add: unat_u32_of_u16\<close>)
  then show ?thesis by (simp add: unat_u32_of_u16)
qed

lemma value_coding_ok:
  assumes "m > 0" "unat b + unat m + unat (cx_escapes x) \<le> unat (cx_total x)"
  shows "part_ok (value_coding x (b, m, t))"
  using assms u16_below [of "cx_total x"]
  by (simp add: part_ok_def value_coding_def unat_u32_sum unat_u32_of_u16 word_less_nat_alt)

lemma escape_codings_ok: "list_all part_ok (escape_codings x)"
  using u16_below [of "cx_total x"]
  by (simp add: escape_codings_def part_ok_def unat_u32_of_u16 word_less_nat_alt word_le_nat_alt)

lemma model_knows: "model_ok M \<Longrightarrow> M w = Some x \<Longrightarrow> w @ [v] \<in> dom M \<longleftrightarrow> v \<in> tree_values (cx_tree x)"
  by (auto simp: model_ok_def)

lemma codings_ok: "all_ok M \<Longrightarrow> model_ok M \<Longrightarrow> w \<in> dom M \<Longrightarrow> list_all part_ok (codings v M w)"
proof (induction w)
  case Nil
  obtain x where x: "any_ok [] x" "ctx_at M [] = x" using all_okD [OF Nil.prems(1,3)] by blast
  then have root: "root_ok x" by (simp add: any_ok_def)
  obtain b m t where count: "ctx_count v 3 1 x = (b, m, t)" by (metis prod_cases3)
  note r = root_count [OF root count]
  have "m > 0" using r(2) by (simp add: word_less_nat_alt)
  then show ?case using value_coding_ok [OF _ r(4)] by (simp add: x(2) count)
next
  case (Cons a w)
  obtain x where x: "M (a # w) = Some x" "any_ok (a # w) x" "ctx_at M (a # w) = x" using all_okD [OF Cons.prems(1,3)] by blast
  then have sub: "sub_ok x" by (simp add: any_ok_def)
  obtain b m t where count: "ctx_count v 2 0 x = (b, m, t)" by (metis prod_cases3)
  note r = sub_count [OF sub count]
  show ?case
  proof (cases "(a # w) @ [v] \<in> dom M")
    case True
    then have "m > 0" using r(4) model_knows [OF Cons.prems(2) x(1)] by (simp add: word_neq_0_conv [symmetric])
    then show ?thesis using True value_coding_ok [OF _ r(5)] by (simp add: x(3) count)
  next
    case False
    then show ?thesis using Cons.IH [OF Cons.prems(1,2) all_ok_tl [OF Cons.prems(1,3)]] escape_codings_ok by simp
  qed
qed

lemma encode_part:
  assumes "encoder_ready L e" "part_ok (b, m, t)"
  shows "ENET_RANGE_CODER_ENCODE L b m t e = Some Return0
    \<or> (\<exists>e'. ENET_RANGE_CODER_ENCODE L b m t e = Some (Go e') \<and> encoder_ready L e' \<and> follows e b m t e')"
  using encode_spec [OF assms(1), of m b t] assms(2) by (simp add: part_ok_def)

lemma encode_all_ready:
  "list_all part_ok cs \<Longrightarrow> encoder_ready L e \<Longrightarrow> encode_all L cs e = Some Return0
    \<or> (\<exists>e'. encode_all L cs e = Some (Go e') \<and> encoder_ready L e')"
proof (induction cs arbitrary: e)
  case (Cons r cs)
  obtain b m t where r: "r = (b, m, t)" by (metis prod_cases3)
  from encode_part [OF Cons.prems(2), of b m t] Cons.prems(1) r
  consider "ENET_RANGE_CODER_ENCODE L b m t e = Some Return0"
    | e' where "ENET_RANGE_CODER_ENCODE L b m t e = Some (Go e')" "encoder_ready L e'" by auto
  then show ?case by cases (use Cons r in auto)
qed simp

section \<open>What the decoder reads follows what the encoder wrote\<close>

definition replays :: "range_encoder \<Rightarrow> (range_decoder \<Rightarrow> 'a coding option) \<Rightarrow> (range_decoder \<Rightarrow> 'a) \<Rightarrow> range_encoder \<Rightarrow> bool" where
  "replays e X f e' \<longleftrightarrow> (\<forall>F. inside F e' \<longrightarrow> inside F e \<and> (\<forall>d. tracks F d e \<longrightarrow> (\<exists>d'. X d = Some (Go (f d')) \<and> tracks F d' e')))"

lemma replays_id: "(\<And>d. X d = Some (Go (f d))) \<Longrightarrow> replays e X f e"
  by (auto simp: replays_def)

lemma replays_bind:
  assumes "replays e X f e1" "replays e1 Y g e2" "\<And>d d'. X d = Some (Go (f d')) \<Longrightarrow> Z d = Y d'"
  shows "replays e Z g e2"
  using assms unfolding replays_def by metis

lemma replays_step:
  assumes "follows e b m t e1" "replays e1 Y g e2"
    and "\<And>d code d1 d2. ENET_RANGE_CODER_READ t d = Some (Go (code, d1)) \<Longrightarrow> unat b \<le> unat code \<Longrightarrow> unat code < unat b + unat m
      \<Longrightarrow> ENET_RANGE_CODER_DECODE b m d1 = Some (Go d2) \<Longrightarrow> Z d = Y d2"
  shows "replays e Z g e2"
  unfolding replays_def
proof (intro allI impI)
  fix F assume "inside F e2"
  then have 1: "inside F e1" "\<And>d. tracks F d e1 \<Longrightarrow> \<exists>d'. Y d = Some (Go (g d')) \<and> tracks F d' e2"
    using assms(2) unfolding replays_def by blast+
  from 1(1) have "inside F e" and 2: "\<And>d. tracks F d e \<Longrightarrow> \<exists>code d1 d2. ENET_RANGE_CODER_READ t d = Some (Go (code, d1))
      \<and> unat b \<le> unat code \<and> unat code < unat b + unat m \<and> ENET_RANGE_CODER_DECODE b m d1 = Some (Go d2) \<and> tracks F d2 e1"
    using assms(1) unfolding follows_def by blast+
  moreover have "\<exists>d'. Z d = Some (Go (g d')) \<and> tracks F d' e2" if "tracks F d e" for d
    using 2 [OF that] 1(2) assms(3) by metis
  ultimately show "inside F e \<and> (\<forall>d. tracks F d e \<longrightarrow> (\<exists>d'. Z d = Some (Go (g d')) \<and> tracks F d' e2))" by blast
qed

section \<open>Finding the value\<close>

definition decode_contexts ::
  "nat \<Rightarrow> ENetRangeCoder \<Rightarrow> range_decoder \<Rightarrow> ((nat \<times> nat \<times> u8) option \<times> ENetRangeCoder \<times> range_decoder) coding option" where
  "decode_contexts k c d = bindc (decode_subcontexts k c d)
     (\<lambda>(found, c, d). if found = None then decode_root c d else Some (Go (found, c, d)))"

lemma decode_contexts_root: "decode_contexts 0 c d = decode_root c d"
  by (simp add: decode_contexts_def) (subst decode_subcontexts.simps, simp)

lemma decode_contexts_silent:
  assumes "k \<noteq> 0" "k < ENET_RANGE_CODER_SYMBOLS" "unat (sy_parent (sym_at c k)) = up"
    and "\<not> (sy_escapes (sym_at c k) > 0 \<and> sy_escapes (sym_at c k) < sy_total (sym_at c k))"
  shows "decode_contexts k c d = decode_contexts up c d"
  unfolding decode_contexts_def by (subst decode_subcontexts.simps) (use assms in \<open>auto simp: Let_def not_less\<close>)

lemma decode_contexts_escape:
  assumes "k \<noteq> 0" "k < ENET_RANGE_CODER_SYMBOLS" "unat (sy_parent (sym_at c k)) = up"
    and "sy_escapes (sym_at c k) > 0 \<and> sy_escapes (sym_at c k) < sy_total (sym_at c k)"
    and "ENET_RANGE_CODER_READ (ucast (sy_total (sym_at c k))) d = Some (Go (code, d1))" "code < sy_escapes (sym_at c k)"
    and "ENET_RANGE_CODER_DECODE 0 (ucast (sy_escapes (sym_at c k))) d1 = Some (Go d2)"
  shows "decode_contexts k c d = decode_contexts up c d2"
  unfolding decode_contexts_def by (subst decode_subcontexts.simps) (use assms in \<open>auto simp: Let_def not_le\<close>)

lemma decode_contexts_found:
  assumes "k \<noteq> 0" "k < ENET_RANGE_CODER_SYMBOLS"
    and "sy_escapes (sym_at c k) > 0 \<and> sy_escapes (sym_at c k) < sy_total (sym_at c k)"
    and "ENET_RANGE_CODER_READ (ucast (sy_total (sym_at c k))) d = Some (Go (code, d1))" "\<not> code < sy_escapes (sym_at c k)"
    and "ENET_CONTEXT_DECODE False k (code - sy_escapes (sym_at c k)) ENET_SUBCONTEXT_SYMBOL_DELTA 0 c = Some (Go (s, v, b, m, c1))"
    and "ENET_RANGE_CODER_DECODE (ucast (sy_escapes (sym_at c1 k)) + ucast b) (ucast m) d1 = Some (Go d2)"
    and "rescale_context k m c1 = Some (Go c3)"
  shows "decode_contexts k c d = Some (Go (Some (k, s, v), c3, d2))"
  unfolding decode_contexts_def by (subst decode_subcontexts.simps) (use assms in \<open>auto simp: Let_def not_le\<close>)

lemma decode_root_found:
  assumes "ENET_RANGE_CODER_READ (ucast (sy_total (sym_at c 0))) d = Some (Go (code, d1))" "\<not> code < sy_escapes (sym_at c 0)"
    and "ENET_CONTEXT_DECODE True 0 (code - sy_escapes (sym_at c 0)) ENET_CONTEXT_SYMBOL_DELTA ENET_CONTEXT_SYMBOL_MINIMUM c = Some (Go (s, v, b, m, c1))"
    and "ENET_RANGE_CODER_DECODE (ucast (sy_escapes (sym_at c1 0)) + ucast b) (ucast m) d1 = Some (Go d2)"
    and "rescale_root m c1 = Some (Go c3)"
  shows "decode_root c d = Some (Go (Some (0, s, v), c3, d2))"
  using assms by (simp add: decode_root_def Let_def)

text \<open>The code of a value, after the escapes of the context.\<close>

lemma among_code:
  assumes "unat (ucast (esc :: u16) + ucast (b :: u16) :: u32) \<le> unat (code :: u16)"
    and "unat code < unat (ucast esc + ucast b :: u32) + unat (ucast (m :: u16) :: u32)"
  shows "\<not> code < esc" "among (code - esc) b m"
proof -
  have le: "unat esc + unat b \<le> unat code" "unat code < unat esc + unat b + unat m"
    using assms by (simp_all add: unat_u32_sum unat_u32_of_u16)
  then show "\<not> code < esc" by (simp add: word_less_nat_alt)
  then have "unat (code - esc) = unat code - unat esc" by (simp add: unat_sub_if_size word_less_nat_alt not_less)
  then show "among (code - esc) b m" using le unfolding among_def by linarith
qed

text \<open>A context of the model decodes what it would encode.\<close>

lemma trie_decode:
  assumes rep: "trie_rep c idx M" and x: "M w = Some x" and counted: "counted (cx_tree x)"
    and small: "weight (cx_tree x) + 256 * unat minimum < 65536" "unat minimum \<le> 1"
    and new: "w @ [v] \<notin> dom M \<Longrightarrow> creating \<and> minimum = 1 \<and> card (dom M) < ENET_RANGE_CODER_SYMBOLS"
    and count: "ctx_count v update minimum x = (b, m, t)" and code: "among code b m"
    and enc: "ENET_CONTEXT_ENCODE (idx w) v update minimum c = Some (Go (s, b, m, c1))"
  shows "ENET_CONTEXT_DECODE creating (idx w) code update minimum c = Some (Go (s, v, b, m, c1))"
proof -
  note r = trie_repD [OF rep x]
  have nxt: "rc_nextSymbol c = card (dom M)" using rep by (simp add: trie_rep_def)
  have "room_for (children idx w) v (cx_tree x) c" using r(3,4,5) new nxt by (auto simp: room_for_def)
  from context_decode_spec [OF r(1,2) counted this small _ count [unfolded ctx_count_def] code, of creating] new r(5)
  show ?thesis unfolding enc by (simp add: with_value_decoded_def)
qed

lemma known_found:
  assumes set: "settled c idx M" and ok: "all_ok M" and w: "w \<in> dom M" "w \<noteq> []" "w @ [v] \<in> dom M"
  shows "\<exists>c3. settled c3 idx (learned v {w} M) \<and> rc_order c3 = rc_order c \<and> rc_predicted c3 = rc_predicted c
    \<and> (\<forall>L e e'. encoder_ready L e \<longrightarrow> encode_all L (codings v M w) e = Some (Go e') \<longrightarrow>
        replays e (decode_contexts (idx w) c) (\<lambda>d. (Some (idx w, idx (w @ [v]), v), c3, d)) e')"
proof -
  have rep: "trie_rep c idx M" and par: "parents_rep c idx M {}" using set by (simp_all add: settled_def)
  have mok: "model_ok M" using rep by (simp add: trie_rep_def)
  obtain x where x: "M w = Some x" "any_ok w x" "ctx_at M w = x" using all_okD [OF ok w(1)] by blast
  have sub: "sub_ok x" using x(2) w(2) by (simp add: any_ok_def)
  then have cx: "counted (cx_tree x)" "weight (cx_tree x) < 65536" by (auto simp: sub_ok_def ctx_ok_def)
  obtain b m t where count: "ctx_count v 2 0 x = (b, m, t)" by (metis prod_cases3)
  note r = sub_count [OF sub count]
  have mem: "v \<in> tree_values (cx_tree x)" using trie_knows [OF rep x(1)] w(3) by blast
  have m: "m \<noteq> 0" using r(4) mem by simp
  have same: "idx_after idx w v M = idx" using w(3) by (simp add: idx_after_def)
  obtain c1 where c1: "ENET_CONTEXT_ENCODE (idx w) v ENET_SUBCONTEXT_SYMBOL_DELTA 0 c = Some (Go (idx (w @ [v]), b, m, c1))"
      "grown_frame idx w v M c c1"
    and all: "\<And>c2. linked_to (idx (w @ [v])) c1 c2 \<Longrightarrow> totals_at idx w x c2
      \<and> (\<exists>c3. rescale_context (idx w) m (if m \<le> 0 then count_escape (idx w) c2 else c2) = Some (Go c3)
          \<and> trie_rep c3 idx (learned v {w} M) \<and> same_links idx (learned v {w} M) c2 c3)"
    using sub_step [OF rep x(1) w(2) sub disjI1 [OF w(3)] count, unfolded same] by blast
  obtain c3 where c3: "totals_at idx w x c1" "rescale_context (idx w) m c1 = Some (Go c3)"
    "trie_rep c3 idx (learned v {w} M)" "same_links idx (learned v {w} M) c1 c3"
    using all [of c1] m by (auto simp: linked_to_def)
  note link = link_step_found [OF rep par w(1) c1(2) disjI1 [OF w(3)], unfolded same, OF c3(4)]
  have "stage c idx v {} M u ParentPredicted" for u
    using rep par by (auto simp: stage_def waiting_def)
  then have k: "idx w \<noteq> 0" "idx w < ENET_RANGE_CODER_SYMBOLS" using stage_idx [of c idx v "{}" M, OF _ w(1)] w(2) by blast+
  note tot = totals_atD [OF trie_totals [OF rep x(1)]] and tot1 = totals_atD [OF c3(1)]
  have tree: "cx_tree x \<noteq> Tip" using mem by auto
  have esc: "cx_escapes x > 0 \<and> cx_escapes x < cx_total x"
    using sub tree r(5) m by (auto simp: sub_ok_def word_neq_0_conv [symmetric] word_less_nat_alt unat_eq_zero [symmetric])
  have "replays e (decode_contexts (idx w) c) (\<lambda>d. (Some (idx w, idx (w @ [v]), v), c3, d)) e'"
    if ready: "encoder_ready L e" and enc: "encode_all L (codings v M w) e = Some (Go e')" for L e e'
  proof -
    obtain a u where w': "w = a # u" using w(2) by (cases w) auto
    have vc: "codings v M w = [value_coding x (b, m, t)]" using w(3) x(3) count by (simp add: w')
    have "part_ok (value_coding x (b, m, t))" using codings_ok [OF ok mok w(1), of v] by (simp add: vc)
    then have part: "part_ok (ucast (cx_escapes x) + ucast b, ucast m, ucast (cx_total x))" by (simp add: value_coding_def)
    have "ENET_RANGE_CODER_ENCODE L (ucast (cx_escapes x) + ucast b) (ucast m) (ucast (cx_total x)) e = Some (Go e')"
      using enc by (simp add: vc value_coding_def bindc_Go)
    then have "follows e (ucast (cx_escapes x) + ucast b) (ucast m) (ucast (cx_total x)) e'"
      using encode_part [OF ready part] by auto
    then show ?thesis
    proof (rule replays_step [OF _ replays_id])
      fix d code d1 d2
      assume d: "ENET_RANGE_CODER_READ (ucast (cx_total x)) d = Some (Go (code, d1))"
        "unat (ucast (cx_escapes x) + ucast b :: u32) \<le> unat code"
        "unat code < unat (ucast (cx_escapes x) + ucast b :: u32) + unat (ucast m :: u32)"
        "ENET_RANGE_CODER_DECODE (ucast (cx_escapes x) + ucast b) (ucast m) d1 = Some (Go d2)"
      note code = among_code [OF d(2,3)]
      have dec: "ENET_CONTEXT_DECODE False (idx w) (code - cx_escapes x) ENET_SUBCONTEXT_SYMBOL_DELTA 0 c
          = Some (Go (idx (w @ [v]), v, b, m, c1))"
        by (rule trie_decode [OF rep x(1) cx(1) _ _ _ _ code(2) c1(1)])
          (use cx(2) w(3) count in \<open>simp_all add: ENET_SUBCONTEXT_SYMBOL_DELTA_def\<close>)
      show "decode_contexts (idx w) c d = Some (Go (Some (idx w, idx (w @ [v]), v), c3, d2))"
        by (rule decode_contexts_found [OF k]) (use tot tot1 esc d code dec c3(2) in simp_all)
    qed simp
  qed
  then show ?thesis using c3(3) link by (auto simp: settled_def)
qed

lemma root_found:
  assumes set: "settled c idx M" and ok: "all_ok M" and w: "[] \<in> dom M" and room: "card (dom M) < ENET_RANGE_CODER_SYMBOLS"
  shows "\<exists>c3 idx'. settled c3 idx' (learned v {[]} M) \<and> extends idx' idx M \<and> rc_order c3 = rc_order c \<and> rc_predicted c3 = rc_predicted c
    \<and> (\<forall>L e e'. encoder_ready L e \<longrightarrow> encode_all L (codings v M []) e = Some (Go e') \<longrightarrow>
        replays e (decode_root c) (\<lambda>d. (Some (0, idx' [v], v), c3, d)) e')"
proof -
  have rep: "trie_rep c idx M" and par: "parents_rep c idx M {}" using set by (simp_all add: settled_def)
  have mok: "model_ok M" and k: "idx [] = 0" using rep by (simp_all add: trie_rep_def)
  obtain x where x: "M [] = Some x" "any_ok [] x" "ctx_at M [] = x" using all_okD [OF ok w] by blast
  have root: "root_ok x" using x(2) by (simp add: any_ok_def)
  then have cx: "counted (cx_tree x)" "weight (cx_tree x) + 256 < 65536" by (auto simp: root_ok_def ctx_ok_def)
  obtain b m t where count: "ctx_count v 3 1 x = (b, m, t)" by (metis prod_cases3)
  define idx' where "idx' = idx_after idx [] v M"
  obtain c1 where c1: "ENET_CONTEXT_ENCODE 0 v ENET_CONTEXT_SYMBOL_DELTA ENET_CONTEXT_SYMBOL_MINIMUM c = Some (Go (idx' [v], b, m, c1))"
      "grown_frame idx [] v M c c1"
    and all: "\<And>c2. linked_to (idx' [v]) c1 c2 \<Longrightarrow> totals_at idx [] x c2
      \<and> (\<exists>c3. rescale_root m c2 = Some (Go c3)
          \<and> trie_rep c3 idx' (learned v {[]} M) \<and> same_links idx' (learned v {[]} M) c2 c3)"
    using root_step [OF rep x(1) root disjI2 [OF room] count, folded idx'_def] by blast
  obtain c3 where c3: "totals_at idx [] x c1" "rescale_root m c1 = Some (Go c3)"
    "trie_rep c3 idx' (learned v {[]} M)" "same_links idx' (learned v {[]} M) c1 c3"
    using all [of c1] by (auto simp: linked_to_def)
  note link = link_step_found [OF rep par w c1(2) disjI2 [OF refl], folded idx'_def, OF c3(4)]
  note tot = totals_atD [OF trie_totals [OF rep x(1)], unfolded k] and tot1 = totals_atD [OF c3(1), unfolded k]
  have "replays e (decode_root c) (\<lambda>d. (Some (0, idx' [v], v), c3, d)) e'"
    if ready: "encoder_ready L e" and enc: "encode_all L (codings v M []) e = Some (Go e')" for L e e'
  proof -
    have vc: "codings v M [] = [value_coding x (b, m, t)]" using x(3) count by simp
    have "part_ok (value_coding x (b, m, t))" using codings_ok [OF ok mok w, of v] unfolding vc by simp
    then have part: "part_ok (ucast (cx_escapes x) + ucast b, ucast m, ucast (cx_total x))" by (simp add: value_coding_def)
    have "ENET_RANGE_CODER_ENCODE L (ucast (cx_escapes x) + ucast b) (ucast m) (ucast (cx_total x)) e = Some (Go e')"
      using enc by (simp only: vc encode_all.simps value_coding_def split bindc_Go coding.inject option.inject) auto
    then have "follows e (ucast (cx_escapes x) + ucast b) (ucast m) (ucast (cx_total x)) e'"
      using encode_part [OF ready part] by auto
    then show ?thesis
    proof (rule replays_step [OF _ replays_id])
      fix d code d1 d2
      assume d: "ENET_RANGE_CODER_READ (ucast (cx_total x)) d = Some (Go (code, d1))"
        "unat (ucast (cx_escapes x) + ucast b :: u32) \<le> unat code"
        "unat code < unat (ucast (cx_escapes x) + ucast b :: u32) + unat (ucast m :: u32)"
        "ENET_RANGE_CODER_DECODE (ucast (cx_escapes x) + ucast b) (ucast m) d1 = Some (Go d2)"
      note code = among_code [OF d(2,3)]
      have dec: "ENET_CONTEXT_DECODE True (idx []) (code - cx_escapes x) ENET_CONTEXT_SYMBOL_DELTA ENET_CONTEXT_SYMBOL_MINIMUM c
          = Some (Go (idx' [v], v, b, m, c1))"
        by (rule trie_decode [OF rep x(1) cx(1) _ _ _ _ code(2)])
          (use cx(2) room count c1(1) k in \<open>simp_all add: ENET_CONTEXT_SYMBOL_DELTA_def ENET_CONTEXT_SYMBOL_MINIMUM_def\<close>)
      show "decode_root c d = Some (Go (Some (0, idx' [v], v), c3, d2))"
        by (rule decode_root_found) (use tot tot1 d code dec [unfolded k] c3(2) in simp_all)
    qed simp
  qed
  moreover have "extends idx' idx M" unfolding idx'_def by (rule extends_after)
  moreover have "settled c3 idx' (learned v {[]} M)" using c3(3) link(1) by (simp add: settled_def)
  ultimately show ?thesis using link(2,3) by blast
qed

lemma ctxs_not_Nil: "ctxs v M w \<noteq> []"
  by (cases w) auto

lemma decode_contexts_spec:
  assumes set: "settled c idx M" and ok: "all_ok M" and w: "w \<in> dom M" and room: "card (dom M) < ENET_RANGE_CODER_SYMBOLS"
  shows "\<exists>c3 idx'. settled c3 idx' (learned v {last (ctxs v M w)} M) \<and> extends idx' idx M
    \<and> rc_order c3 = rc_order c \<and> rc_predicted c3 = rc_predicted c
    \<and> (\<forall>L e e'. encoder_ready L e \<longrightarrow> encode_all L (codings v M w) e = Some (Go e') \<longrightarrow>
        replays e (decode_contexts (idx w) c)
          (\<lambda>d. (Some (idx (last (ctxs v M w)), idx' (last (ctxs v M w) @ [v]), v), c3, d)) e')"
  using w
proof (induction w)
  case Nil
  have "idx [] = 0" using set by (simp add: settled_def trie_rep_def)
  then show ?case using root_found [OF set ok Nil room, of v] by (simp add: decode_contexts_root [abs_def])
next
  case (Cons a w)
  let ?w = "a # w"
  have rep: "trie_rep c idx M" and par: "parents_rep c idx M {}" using set by (simp_all add: settled_def)
  have st: "stage c idx v {} M u ParentPredicted" for u using rep par by (auto simp: stage_def waiting_def)
  have k: "idx ?w \<noteq> 0" "idx ?w < ENET_RANGE_CODER_SYMBOLS" using stage_idx [OF st Cons.prems] by simp_all
  have up: "unat (sy_parent (sym_at c (idx ?w))) = idx w" by (rule stage_parent [OF st ok Cons.prems])
  show ?case
  proof (cases "?w @ [v] \<in> dom M")
    case True
    then have "last (ctxs v M ?w) = ?w" by simp
    moreover have "extends idx idx M" by (simp add: extends_def)
    ultimately show ?thesis using known_found [OF set ok Cons.prems _ True] by (simp only: list.distinct not_False_eq_True) blast
  next
    case False
    have l: "last (ctxs v M ?w) = last (ctxs v M w)" using False ctxs_not_Nil by simp
    obtain x where x: "M ?w = Some x" "ctx_at M ?w = x" using all_okD [OF ok Cons.prems] by blast
    note tot = totals_atD [OF trie_totals [OF rep x(1)]]
    have cs: "codings v M ?w = escape_codings x @ codings v M w" using False x(2) by simp
    have wM: "w \<in> dom M" by (rule all_ok_tl [OF ok Cons.prems])
    from Cons.IH [OF wM] obtain c3 idx' where IH: "settled c3 idx' (learned v {last (ctxs v M w)} M)" "extends idx' idx M"
      "rc_order c3 = rc_order c" "rc_predicted c3 = rc_predicted c"
      "\<And>L e e'. encoder_ready L e \<Longrightarrow> encode_all L (codings v M w) e = Some (Go e') \<Longrightarrow>
        replays e (decode_contexts (idx w) c)
          (\<lambda>d. (Some (idx (last (ctxs v M w)), idx' (last (ctxs v M w) @ [v]), v), c3, d)) e'" by blast
    have "replays e (decode_contexts (idx ?w) c)
          (\<lambda>d. (Some (idx (last (ctxs v M w)), idx' (last (ctxs v M w) @ [v]), v), c3, d)) e'"
      if ready: "encoder_ready L e" and enc: "encode_all L (codings v M ?w) e = Some (Go e')" for L e e'
    proof (cases "cx_escapes x > 0 \<and> cx_escapes x < cx_total x")
      case True
      then have es: "escape_codings x = [(0, ucast (cx_escapes x), ucast (cx_total x))]" by (simp add: escape_codings_def)
      obtain e1 where e1: "ENET_RANGE_CODER_ENCODE L 0 (ucast (cx_escapes x)) (ucast (cx_total x)) e = Some (Go e1)"
        "encode_all L (codings v M w) e1 = Some (Go e')"
        using enc unfolding cs es by (auto simp: bindc_Go)
      have "part_ok (0, ucast (cx_escapes x), ucast (cx_total x))" using escape_codings_ok [of x] by (simp add: es)
      from encode_part [OF ready this] e1(1)
      have f: "encoder_ready L e1" "follows e 0 (ucast (cx_escapes x)) (ucast (cx_total x)) e1" by auto
      show ?thesis
      proof (rule replays_step [OF f(2) IH(5) [OF f(1) e1(2)]])
        fix d code d1 d2
        assume d: "ENET_RANGE_CODER_READ (ucast (cx_total x)) d = Some (Go (code, d1))"
          "unat code < unat (0 :: u32) + unat (ucast (cx_escapes x) :: u32)"
          "ENET_RANGE_CODER_DECODE 0 (ucast (cx_escapes x)) d1 = Some (Go d2)"
        have "code < cx_escapes x" using d(2) by (simp add: unat_u32_of_u16 word_less_nat_alt)
        then show "decode_contexts (idx ?w) c d = decode_contexts (idx w) c d2"
          using decode_contexts_escape [OF k up, of d code d1 d2] True d(1,3) unfolding tot by blast
      qed
    next
      case False
      then have es: "escape_codings x = []" by (auto simp: escape_codings_def)
      have "decode_contexts (idx ?w) c = decode_contexts (idx w) c"
        using decode_contexts_silent [OF k up] False unfolding tot by blast
      then show ?thesis using IH(5) [OF ready] enc unfolding cs es by simp
    qed
    then show ?thesis using IH(1,2,3,4) unfolding l by blast
  qed
qed

section \<open>Teaching the contexts before\<close>

lemma patch_contexts_stop: "patch_contexts k v k p c = Some (Go (p, c))"
  by (subst patch_contexts.simps) simp

lemma patch_contexts_step:
  assumes "k \<noteq> stop" "k < ENET_RANGE_CODER_SYMBOLS" "ENET_CONTEXT_ENCODE k v ENET_SUBCONTEXT_SYMBOL_DELTA 0 c = Some (Go (s, b, 0, c1))"
    and "rescale_context k 0 (count_escape k (set_parent p s c1)) = Some (Go c3)" "unat (sy_parent (sym_at c3 k)) = up"
  shows "patch_contexts stop v k p c = patch_contexts stop v up (ParentOf s) c3"
  using assms by (subst patch_contexts.simps) (simp add: Let_def)

lemma ctxs_last_self: "last (ctxs v M w) = w \<Longrightarrow> ctxs v M w = [w]"
proof (cases w)
  case (Cons a u)
  assume l: "last (ctxs v M w) = w"
  have "length (last (ctxs v M u)) \<le> length u" using ctxs_length ctxs_not_Nil last_in_set by metis
  then have "last (ctxs v M u) \<noteq> a # u" by auto
  then show ?thesis using l Cons ctxs_not_Nil by (auto split: if_splits)
qed simp

lemma patch_contexts_spec:
  assumes "stage c idx v W M (w @ [v]) p" "all_ok M" "w \<in> dom M" "u = last (ctxs v M w)" "u \<in> W"
    and "\<forall>x \<in> W. x = u \<or> length w < length x" "card (dom (learned v W M)) + length w \<le> ENET_RANGE_CODER_SYMBOLS"
  shows "\<exists>c' idx' p'. patch_contexts (idx u) v (idx w) p c = Some (Go (p', c'))
    \<and> stage c' idx' v (W \<union> set (ctxs v M w)) M (u @ [v]) p' \<and> extends idx' idx (learned v W M)
    \<and> (if w = u then p' = p \<and> c' = c else p' \<noteq> ParentPredicted \<and> links_kept p (idx' (w @ [v])) c c' \<and> idx' (w @ [v]) < ENET_RANGE_CODER_SYMBOLS)"
  using assms
proof (induction w arbitrary: c idx W p)
  case Nil
  then have "u = []" by simp
  moreover have "extends idx idx (learned v W M)" by (simp add: extends_def)
  moreover have "W \<union> set (ctxs v M []) = W" using Nil.prems(5) \<open>u = []\<close> by auto
  ultimately have "patch_contexts (idx u) v (idx []) p c = Some (Go (p, c)) \<and> stage c idx v (W \<union> set (ctxs v M [])) M (u @ [v]) p
      \<and> extends idx idx (learned v W M)"
    using Nil.prems(1) patch_contexts_stop by simp
  then show ?case unfolding if_P [OF \<open>u = []\<close> [symmetric]] by blast
next
  case (Cons a w)
  let ?w = "a # w"
  have WM: "W \<subseteq> dom M" using Cons.prems(1) by (simp add: stage_def)
  have uM: "u \<in> dom M" using Cons.prems(5) WM by blast
  show ?case
  proof (cases "?w = u")
    case True
    have "ctxs v M ?w = [u]" using ctxs_last_self [of v M ?w] Cons.prems(4) unfolding True by (simp only:)
    then have "W \<union> set (ctxs v M ?w) = W" using Cons.prems(5) by auto
    moreover have "extends idx idx (learned v W M)" by (simp add: extends_def)
    ultimately have "patch_contexts (idx u) v (idx ?w) p c = Some (Go (p, c)) \<and> stage c idx v (W \<union> set (ctxs v M ?w)) M (u @ [v]) p
        \<and> extends idx idx (learned v W M)"
      using Cons.prems(1) patch_contexts_stop unfolding True by simp
    then show ?thesis unfolding if_P [OF True] by blast
  next
    case other: False
    have False': "?w @ [v] \<notin> dom M"
    proof
      assume "?w @ [v] \<in> dom M"
      then have "ctxs v M ?w = [?w]" by simp
      then show False using other Cons.prems(4) by (metis last.simps)
    qed
    then have cs: "ctxs v M ?w = ?w # ctxs v M w" by simp
    then have u: "u = last (ctxs v M w)" using Cons.prems(4) ctxs_not_Nil by simp
    have W: "?w \<notin> W" using Cons.prems(6) other by auto
    obtain b m t where count: "ctx_count v 2 0 (ctx_at M ?w) = (b, m, t)" by (metis prod_cases3)
    have k: "idx ?w \<noteq> 0" "idx ?w < ENET_RANGE_CODER_SYMBOLS" using stage_idx [OF Cons.prems(1,3)] by simp_all
    have rep: "trie_rep c idx (learned v W M)" using Cons.prems(1) by (simp add: stage_def)
    then have inj: "inj_on idx (dom (learned v W M))" by (simp add: trie_rep_def)
    have stop: "idx ?w \<noteq> idx u"
      using inj_onD [OF inj _ learned_in [OF WM Cons.prems(3)] learned_in [OF WM uM]] other by blast
    have room: "card (dom (learned v W M)) < ENET_RANGE_CODER_SYMBOLS" using Cons.prems(7) by simp
    note unknown = unknown_stage [OF Cons.prems(1,2,3) W _ False' room count]
    have m: "m = 0" using unknown(1) by simp
    obtain c1 c3 idx' where r: "ENET_CONTEXT_ENCODE (idx ?w) v ENET_SUBCONTEXT_SYMBOL_DELTA 0 c = Some (Go (idx' (?w @ [v]), b, 0, c1))"
      "rescale_context (idx ?w) 0 (count_escape (idx ?w) (set_parent p (idx' (?w @ [v])) c1)) = Some (Go c3)"
      "stage c3 idx' v (insert ?w W) M (w @ [v]) (ParentOf (idx' (?w @ [v])))" "links_kept p (idx' (?w @ [v])) c c3"
      "extends idx' idx (learned v W M)" "?w @ [v] \<in> dom (learned v (insert ?w W) M)"
      using unknown(2) unfolding m by auto
    have wM: "w \<in> dom M" by (rule all_ok_tl [OF Cons.prems(2,3)])
    have old: "idx' ?w = idx ?w" "idx' w = idx w" "idx' u = idx u" using r(5) learned_in [OF WM] Cons.prems(3) wM uM
      by (simp_all add: extends_def)
    have up: "unat (sy_parent (sym_at c3 (idx ?w))) = idx' w"
      using stage_parent [OF r(3) Cons.prems(2,3)] old by simp
    have room': "card (dom (learned v (insert ?w W) M)) + length w \<le> ENET_RANGE_CODER_SYMBOLS"
      using learned_more [OF WM Cons.prems(3) W False'] Cons.prems(7) by simp
    have len: "\<forall>x \<in> insert ?w W. x = u \<or> length w < length x" using Cons.prems(6) by (auto dest: Suc_lessD)
    have uW: "u \<in> insert ?w W" using Cons.prems(5) by simp
    obtain c' idx'' p' where IH: "patch_contexts (idx' u) v (idx' w) (ParentOf (idx' (?w @ [v]))) c3 = Some (Go (p', c'))"
      "stage c' idx'' v (insert ?w W \<union> set (ctxs v M w)) M (u @ [v]) p'" "extends idx'' idx' (learned v (insert ?w W) M)"
      "if w = u then p' = ParentOf (idx' (?w @ [v])) \<and> c' = c3
       else p' \<noteq> ParentPredicted \<and> links_kept (ParentOf (idx' (?w @ [v]))) (idx'' (w @ [v])) c3 c' \<and> idx'' (w @ [v]) < ENET_RANGE_CODER_SYMBOLS"
      using Cons.IH [OF r(3) Cons.prems(2) wM u uW len room'] by blast
    have "patch_contexts (idx u) v (idx ?w) p c = Some (Go (p', c'))"
      using patch_contexts_step [OF stop k(2) r(1,2) up] IH(1) unfolding old by (simp only:)
    moreover have "stage c' idx'' v (W \<union> set (ctxs v M ?w)) M (u @ [v]) p'" using IH(2) cs by simp
    moreover have "dom (learned v W M) \<subseteq> dom (learned v (insert ?w W) M)" using WM Cons.prems(3) by (auto simp: dom_learned)
    then have "extends idx'' idx (learned v W M)" by (rule extends_trans [OF r(5) IH(3)])
    moreover have "if ?w = u then p' = p \<and> c' = c
      else p' \<noteq> ParentPredicted \<and> links_kept p (idx'' (?w @ [v])) c c' \<and> idx'' (?w @ [v]) < ENET_RANGE_CODER_SYMBOLS"
    proof -
      have s: "idx'' (?w @ [v]) = idx' (?w @ [v])" using IH(3) r(6) by (simp add: extends_def)
      have "trie_rep c3 idx' (learned v (insert ?w W) M)" using r(3) by (simp add: stage_def)
      then have "idx' (?w @ [v]) < card (dom (learned v (insert ?w W) M))" "card (dom (learned v (insert ?w W) M)) \<le> ENET_RANGE_CODER_SYMBOLS"
        using r(6) unfolding trie_rep_def model_ok_def by blast+
      moreover have "p' \<noteq> ParentPredicted \<and> links_kept p (idx' (?w @ [v])) c c'"
      proof (cases "w = u")
        case True
        then show ?thesis using IH(4) r(4) by simp
      next
        case False
        then show ?thesis using IH(4) links_kept_trans [OF r(4)] by (simp only: if_False) blast
      qed
      ultimately show ?thesis unfolding s if_not_P [OF other] by simp
    qed
    ultimately show ?thesis by blast
  qed
qed

end
