(* ===== verification/ENet_RoundTrip.thy ===== *)
theory ENet_RoundTrip
  imports ENet_Decoding
begin

text \<open>
  The whole coder: both loops keep the array at the same model, so that what the compressor wrote
  is what the decompressor reads, up to the escape that ends the data.
\<close>

section \<open>A coder between two values\<close>

definition coder_rep :: "ENetRangeCoder \<Rightarrow> model \<Rightarrow> u8 list \<Rightarrow> bool" where
  "coder_rep c M h \<longleftrightarrow> all_ok M \<and> h \<in> dom M \<and> length h \<le> 2 \<and> rc_order c = length h \<and> card (dom M) < 4094
     \<and> (\<exists>idx. settled c idx M \<and> rc_predicted c = of_nat (idx h))"

definition root_model :: model where
  "root_model = [[] \<mapsto> \<lparr>cx_tree = Tip, cx_escapes = 1, cx_total = 257\<rparr>]"

lemma all_ok_root: "all_ok root_model"
  by (auto simp: all_ok_def root_model_def any_ok_def root_ok_def ctx_ok_def split: if_splits)

lemma settled_root:
  assumes "ENET_CONTEXT_CREATE ENET_CONTEXT_ESCAPE_MINIMUM ENET_CONTEXT_SYMBOL_MINIMUM (c\<lparr>rc_nextSymbol := 0\<rparr>) = Some (Go (k, c'))"
  shows "settled c' (\<lambda>_. 0) root_model" "rc_predicted c' = rc_predicted c" "rc_order c' = rc_order c"
  using assms
  by (auto simp: ENET_CONTEXT_CREATE_def ENET_SYMBOL_CREATE_def context_const_defs Let_def settled_def trie_rep_def
      model_ok_def root_model_def ctx_rep_def context_rep_def fresh_symbol_def parents_rep_def split: if_splits)

lemma context_created: "\<exists>k c'. ENET_CONTEXT_CREATE e m (c\<lparr>rc_nextSymbol := 0\<rparr>) = Some (Go (k, c'))"
  by (simp add: ENET_CONTEXT_CREATE_def ENET_SYMBOL_CREATE_def ENET_RANGE_CODER_SYMBOLS_def)

lemma settled_links: "settled c idx M \<Longrightarrow> settled (c\<lparr>rc_predicted := p, rc_order := n\<rparr>) idx M"
  by (simp add: settled_def trie_rep_def parents_rep_def ctx_rep_def context_rep_def)

lemma coder_rep_root: "settled c (\<lambda>_. 0) root_model \<Longrightarrow> rc_predicted c = 0 \<Longrightarrow> rc_order c = 0 \<Longrightarrow> coder_rep c root_model []"
  using all_ok_root by (auto simp: coder_rep_def root_model_def)

text \<open>The model of the array once the context of the next value has been chosen.\<close>

definition next_history :: "u8 list \<Rightarrow> u8 list" where
  "next_history u = (if length u > 2 then tl u else u)"

definition next_model :: "model \<Rightarrow> u8 list \<Rightarrow> model \<times> u8 list" where
  "next_model M u = (if card (dom M) \<ge> 4094 then (root_model, []) else (M, next_history u))"

definition value_model :: "u8 \<Rightarrow> model \<Rightarrow> u8 list \<Rightarrow> model \<times> u8 list" where
  "value_model v M h = next_model (learned v (set (ctxs v M h)) M) (h @ [v])"

lemma next_input_spec:
  assumes set: "settled c idx M" and ok: "all_ok M" and u: "u \<in> dom M" "u \<noteq> []" "length u \<le> 3"
    and c: "rc_predicted c = of_nat (idx u)" "Suc (rc_order c) = length u" and M': "next_model M u = (M', h')"
  shows "\<exists>c'. next_input c = Some (Go c') \<and> coder_rep c' M' h'"
proof -
  have rep: "trie_rep c idx M" and par: "parents_rep c idx M {}" using set by (simp_all add: settled_def)
  have num: "rc_nextSymbol c = card (dom M)" "card (dom M) \<le> 4096" "idx u < card (dom M)"
    using rep u(1) by (auto simp: trie_rep_def model_ok_def ENET_RANGE_CODER_SYMBOLS_def)
  have tl: "tl u \<in> dom M" "sy_parent (rc_symbols c (idx u)) = of_nat (idx (tl u))"
    using par u(1,2) by (auto simp: parents_rep_def)
  have k: "unat (rc_predicted c) = idx u" using num c(1) by (simp add: unsigned_of_nat take_bit_nat_eq_self)
  define c1 where "c1 = (if rc_order c \<ge> ENET_SUBCONTEXT_ORDER then c\<lparr>rc_predicted := sy_parent (sym_at c (unat (rc_predicted c)))\<rparr>
      else c\<lparr>rc_order := rc_order c + 1\<rparr>)"
  have h: "next_history u \<in> dom M" "length (next_history u) \<le> 2" "rc_order c1 = length (next_history u)"
    "rc_predicted c1 = of_nat (idx (next_history u))"
    using u tl c k by (auto simp: c1_def next_history_def ENET_SUBCONTEXT_ORDER_def sym_at_def)
  have "c1 = c\<lparr>rc_predicted := rc_predicted c1, rc_order := rc_order c1\<rparr>" by (simp add: c1_def)
  then have set1: "settled c1 idx M" using settled_links [OF set, of "rc_order c1" "rc_predicted c1"] by simp
  show ?thesis
  proof (cases "card (dom M) \<ge> 4094")
    case True
    obtain k c2 where c2: "ENET_CONTEXT_CREATE ENET_CONTEXT_ESCAPE_MINIMUM ENET_CONTEXT_SYMBOL_MINIMUM (c1\<lparr>rc_nextSymbol := 0\<rparr>) = Some (Go (k, c2))"
      using context_created by blast
    have "next_input c = Some (Go (c2\<lparr>rc_predicted := 0, rc_order := 0\<rparr>))"
      unfolding next_input_def c1_def [symmetric]
      using True num(1) c2 by (simp add: ENET_RANGE_CODER_FREE_SYMBOLS_def c1_def context_const_defs)
    moreover have "coder_rep (c2\<lparr>rc_predicted := 0, rc_order := 0\<rparr>) root_model []"
      by (rule coder_rep_root) (use settled_links [OF settled_root(1) [OF c2], of 0 0] in simp_all)
    ultimately show ?thesis using True M' by (simp add: next_model_def)
  next
    case False
    then have "next_input c = Some (Go c1)"
      unfolding next_input_def c1_def [symmetric]
      using num(1) by (simp add: ENET_RANGE_CODER_FREE_SYMBOLS_def c1_def context_const_defs)
    moreover have "coder_rep c1 M (next_history u)" using False set1 h ok by (auto simp: coder_rep_def)
    ultimately show ?thesis using False M' by (simp add: next_model_def)
  qed
qed

lemma learned_ok:
  assumes ok: "all_ok M" and h: "h \<in> dom M"
  shows "all_ok (learned v (set (ctxs v M h)) M)"
proof -
  let ?W = "set (ctxs v M h)"
  have W: "?W \<subseteq> dom M" by (rule ctxs_dom [OF ok h])
  have "any_ok w x" if x: "learned v ?W M w = Some x" for w x
  proof (cases "w \<in> ?W")
    case True
    then obtain y where y: "M w = Some y" "x = learn v w y" using x by (auto simp: learned_def)
    then have "any_ok w y" using ok by (simp add: all_ok_def)
    then show ?thesis using y(2) learn_sub_ok(1) learn_root_ok(1) by (auto simp: any_ok_def learn_def)
  next
    case False
    then have "M w = Some x \<or> w \<noteq> [] \<and> x = empty_ctx" using x by (auto simp: learned_def split: if_splits)
    moreover have "sub_ok empty_ctx" by (simp add: sub_ok_def ctx_ok_def empty_ctx_def)
    ultimately show ?thesis using ok by (auto simp: all_ok_def any_ok_def)
  qed
  moreover have "tl u \<in> dom (learned v ?W M)" if u: "u \<in> dom (learned v ?W M)" "u \<noteq> []" for u
  proof (cases "u \<in> dom M")
    case True
    then show ?thesis using ok u(2) learned_in [OF W] by (auto simp: all_ok_def)
  next
    case False
    then obtain w where w: "w \<in> ?W" "u = w @ [v]" using u dom_learned [OF W] by auto
    show ?thesis
    proof (cases w)
      case Nil
      have "[] \<in> dom M" using W w(1) Nil by blast
      then show ?thesis using w(2) Nil learned_in [OF W] by simp
    next
      case (Cons a x)
      have "x @ [v] \<in> dom (learned v ?W M)"
      proof -
        have "x \<in> ?W" using w(1) w(2) False Cons
        proof (induction h)
          case (Cons b h)
          then show ?case by (auto split: if_splits simp: ctxs_hd)
        qed auto
        then show ?thesis using dom_learned [OF W] by auto
      qed
      then show ?thesis using w(2) Cons by simp
    qed
  qed
  ultimately show ?thesis by (auto simp: all_ok_def)
qed

section \<open>One value\<close>

lemma settled_stage: "settled c idx (learned v W M) \<Longrightarrow> W \<subseteq> dom M \<Longrightarrow> stage c idx v W M u ParentPredicted"
  by (auto simp: settled_def stage_def waiting_def)

lemma stage_link:
  assumes stage: "stage c idx v W M u p" and u: "u \<in> dom (learned v W M)"
  shows "settled (set_parent p (idx u) c) idx (learned v W M)"
proof -
  let ?M = "learned v W M"
  obtain P where rep: "trie_rep c idx ?M" and P: "parents_rep c idx ?M P" "waiting idx ?M u p P"
    using stage by (auto simp: stage_def)
  have inj: "inj_on idx (dom ?M)" using rep by (simp add: trie_rep_def)
  have "tl x \<in> dom ?M \<and> sy_parent (rc_symbols (set_parent p (idx u) c) (idx x)) = of_nat (idx (tl x))"
    if x: "x \<in> dom ?M" "x \<noteq> []" for x
  proof (cases "p = ParentOf (idx x)")
    case True
    then obtain q where "idx x = idx q" "q \<in> dom ?M" "tl q = u" using P(2) by (auto simp: waiting_def)
    then have "tl x = u" using inj_onD [OF inj _ x(1)] by blast
    then show ?thesis using True u by simp
  next
    case False
    then have "x \<notin> P" using P(2) by (auto simp: waiting_def)
    moreover have "sy_parent (rc_symbols (set_parent p (idx u) c) (idx x)) = sy_parent (rc_symbols c (idx x))"
      using False by (cases p) auto
    ultimately show ?thesis using P(1) x by (simp add: parents_rep_def)
  qed
  then show ?thesis using trie_set_parent [OF rep] by (auto simp: settled_def parents_rep_def)
qed

lemma coder_repD:
  assumes "coder_rep c M h"
  obtains idx where "settled c idx M" "unat (rc_predicted c) = idx h" "all_ok M" "h \<in> dom M" "length h \<le> 2"
    "rc_order c = length h" "card (dom M) < 4094" "model_ok M"
proof -
  obtain idx where i: "settled c idx M" "rc_predicted c = of_nat (idx h)" using assms by (auto simp: coder_rep_def)
  have "idx h < card (dom M)" using i(1) assms by (auto simp: settled_def trie_rep_def coder_rep_def)
  then have "unat (rc_predicted c) = idx h"
    using i(2) assms by (simp add: coder_rep_def unsigned_of_nat take_bit_nat_eq_self)
  moreover have "model_ok M" using i(1) by (simp add: settled_def trie_rep_def)
  ultimately show thesis using that [of idx] i(1) assms by (simp add: coder_rep_def)
qed

lemma encode_value_alt:
  "encode_value L v c e = bindc (encode_contexts L v (unat (rc_predicted c)) ParentPredicted c e)
     (\<lambda>(c, e). bindc (next_input c) (\<lambda>c. Some (Go (c, e))))"
  unfolding encode_value_def encode_contexts_def bindc_assoc by (rule bindc_cong) (auto split: prod.split)

lemma encode_value_spec:
  assumes "coder_rep c M h" and M': "value_model v M h = (M', h')"
  shows "\<exists>c'. (\<forall>e. encode_value L v c e = bindc (encode_all L (codings v M h) e) (\<lambda>e. Some (Go (c', e)))) \<and> coder_rep c' M' h'"
proof -
  obtain idx where c: "settled c idx M" "unat (rc_predicted c) = idx h" "all_ok M" "h \<in> dom M" "length h \<le> 2"
    "rc_order c = length h" "card (dom M) < 4094" using coder_repD [OF assms(1)] by metis
  let ?W = "set (ctxs v M h)"
  have W: "?W \<subseteq> dom M" by (rule ctxs_dom [OF c(3,4)])
  have st: "stage c idx v {} M (h @ [v]) ParentPredicted" by (rule settled_stage) (use c(1) in simp_all)
  have room: "card (dom (learned v {} M)) + length h < ENET_RANGE_CODER_SYMBOLS" using c(5,7) by (simp add: ENET_RANGE_CODER_SYMBOLS_def)
  obtain c1 idx' where e: "\<And>e. encode_contexts L v (idx h) ParentPredicted c e = bindc (encode_all L (codings v M h) e) (\<lambda>e. Some (Go (c1, e)))"
      "settled c1 idx' (learned v ?W M)" "links_kept ParentPredicted (idx' (h @ [v])) c c1"
    using encode_contexts_spec [OF st c(3,4) _ room, of L] by auto
  have hv: "h @ [v] \<in> dom (learned v ?W M)" using dom_learned [OF W] ctxs_hd [of h v M] by blast
  obtain c2 where c2: "next_input c1 = Some (Go c2)" "coder_rep c2 M' h'"
    using next_input_spec [OF e(2) learned_ok [OF c(3,4)] hv _ _ _ _ M' [unfolded value_model_def]] e(3) c(5,6)
    by (auto simp: links_kept_def)
  have "encode_value L v c e = bindc (encode_all L (codings v M h) e) (\<lambda>e. Some (Go (c2, e)))" for e
    unfolding encode_value_alt c(2) e(1) bindc_assoc by (simp add: c2(1))
  then show ?thesis using c2(2) by blast
qed

lemma decode_value_alt:
  "decode_value L c d out = bindc (decode_contexts (unat (rc_predicted c)) c d) (\<lambda>(found, c, d). case found of
      None \<Rightarrow> Some (Go None)
    | Some (subcontext, bottom, v) \<Rightarrow>
        bindc (patch_contexts subcontext v (unat (rc_predicted c)) ParentPredicted c) (\<lambda>(parent, c).
          bindc (ENET_RANGE_CODER_OUTPUT L v out) (\<lambda>out.
            bindc (next_input (set_parent parent bottom c)) (\<lambda>c. Some (Go (Some (c, d, out)))))))"
  unfolding decode_value_def decode_contexts_def bindc_assoc by (rule bindc_cong) (auto split: prod.split)

lemma decode_value_spec:
  assumes "coder_rep c M h" and M': "value_model v M h = (M', h')"
  shows "\<exists>c'. coder_rep c' M' h' \<and> (\<forall>L e e' outL out. encoder_ready L e \<longrightarrow> encode_all L (codings v M h) e = Some (Go e') \<longrightarrow>
    length out < unat outL \<longrightarrow> replays e (\<lambda>d. decode_value outL c d out) (\<lambda>d. Some (c', d, out @ [v])) e')"
proof -
  obtain idx where c: "settled c idx M" "unat (rc_predicted c) = idx h" "all_ok M" "h \<in> dom M" "length h \<le> 2"
    "rc_order c = length h" "card (dom M) < 4094" using coder_repD [OF assms(1)] by metis
  let ?W = "set (ctxs v M h)" and ?u = "last (ctxs v M h)"
  have W: "?W \<subseteq> dom M" by (rule ctxs_dom [OF c(3,4)])
  have u: "?u \<in> ?W" using ctxs_not_Nil by simp
  have uM: "{?u} \<subseteq> dom M" using u W by blast
  have room: "card (dom M) < ENET_RANGE_CODER_SYMBOLS" using c(7) by (simp add: ENET_RANGE_CODER_SYMBOLS_def)
  obtain c3 idx1 where f: "settled c3 idx1 (learned v {?u} M)" "extends idx1 idx M"
    "rc_order c3 = rc_order c" "rc_predicted c3 = rc_predicted c"
    "\<And>L e e'. encoder_ready L e \<Longrightarrow> encode_all L (codings v M h) e = Some (Go e') \<Longrightarrow>
        replays e (decode_contexts (idx h) c) (\<lambda>d. (Some (idx ?u, idx1 (?u @ [v]), v), c3, d)) e'"
    using decode_contexts_spec [OF c(1,3,4) room] by metis
  have old: "idx1 h = idx h" "idx1 ?u = idx ?u" using f(2) c(4) uM by (simp_all add: extends_def)
  have st: "stage c3 idx1 v {?u} M (h @ [v]) ParentPredicted" by (rule settled_stage [OF f(1) uM])
  have "dom (learned v {?u} M) = insert (?u @ [v]) (dom M)" using dom_learned [OF uM] by auto
  then have "card (dom (learned v {?u} M)) \<le> Suc (card (dom M))"
    by (metis card_insert_if card.infinite finite_insert le_SucI order_refl zero_le)
  then have room': "card (dom (learned v {?u} M)) + length h \<le> ENET_RANGE_CODER_SYMBOLS"
    using c(5,7) by (simp add: ENET_RANGE_CODER_SYMBOLS_def)
  obtain c4 idx' p' where p: "patch_contexts (idx1 ?u) v (idx1 h) ParentPredicted c3 = Some (Go (p', c4))"
    "stage c4 idx' v ({?u} \<union> ?W) M (?u @ [v]) p'" "extends idx' idx1 (learned v {?u} M)"
    "if h = ?u then p' = ParentPredicted \<and> c4 = c3
     else p' \<noteq> ParentPredicted \<and> links_kept ParentPredicted (idx' (h @ [v])) c3 c4 \<and> idx' (h @ [v]) < ENET_RANGE_CODER_SYMBOLS"
    using patch_contexts_spec [OF st c(3,4) refl _ _ room'] by auto
  have WW: "{?u} \<union> ?W = ?W" using u by blast
  have uv: "?u @ [v] \<in> dom (learned v {?u} M)" "?u @ [v] \<in> dom (learned v ?W M)" "h @ [v] \<in> dom (learned v ?W M)"
    using dom_learned [OF uM] dom_learned [OF W] u ctxs_hd [of h v M] by auto
  define c5 where "c5 = set_parent p' (idx1 (?u @ [v])) c4"
  have same: "idx1 (?u @ [v]) = idx' (?u @ [v])" using p(3) uv(1) by (simp add: extends_def)
  have set5: "settled c5 idx' (learned v ?W M)"
    unfolding c5_def same by (rule stage_link [OF p(2) [unfolded WW] uv(2)])
  have order5: "rc_order c5 = length h" and pred5: "rc_predicted c5 = of_nat (idx' (h @ [v]))"
  proof -
    show "rc_order c5 = length h"
    proof (cases "h = ?u")
      case True then show ?thesis using p(4) f(3) c(6) by (simp add: c5_def)
    next
      case False then show ?thesis using p(4) f(3) c(6) by (cases p') (simp_all add: c5_def links_kept_def)
    qed
    show "rc_predicted c5 = of_nat (idx' (h @ [v]))"
    proof (cases "h = ?u")
      case True
      then have "c5 = c3\<lparr>rc_predicted := of_nat (idx' (?u @ [v]))\<rparr>" using p(4) unfolding c5_def same by simp
      then show ?thesis using True by simp
    next
      case False then show ?thesis using p(4) by (cases p') (simp_all add: c5_def links_kept_def)
    qed
  qed
  obtain c6 where c6: "next_input c5 = Some (Go c6)" "coder_rep c6 M' h'"
    using next_input_spec [OF set5 learned_ok [OF c(3,4)] uv(3) _ _ _ _ M' [unfolded value_model_def]] order5 pred5 c(5)
    by auto
  have "replays e (\<lambda>d. decode_value outL c d out) (\<lambda>d. Some (c6, d, out @ [v])) e'"
    if "encoder_ready L e" "encode_all L (codings v M h) e = Some (Go e')" "length out < unat outL" for L e e' outL out
  proof (rule replays_bind [OF f(5) [OF that(1,2)] replays_id [of "\<lambda>d. Some (Go (Some (c6, d, out @ [v])))"]])
    fix d d'
    assume d: "decode_contexts (idx h) c d = Some (Go (Some (idx ?u, idx1 (?u @ [v]), v), c3, d'))"
    show "decode_value outL c d out = Some (Go (Some (c6, d', out @ [v])))"
      unfolding decode_value_alt c(2) d
      using p(1) c6(1) that(3) f(4) c(2) old by (simp add: c5_def ENET_RANGE_CODER_OUTPUT_def)
  qed simp
  then show ?thesis using c6(2) by blast
qed

section \<open>All values\<close>

fun encode_values :: "size_t \<Rightarrow> u8 list \<Rightarrow> ENetRangeCoder \<Rightarrow> range_encoder \<Rightarrow> range_encoder coding option" where
  "encode_values L [] c e = Some (Go e)"
| "encode_values L (v # vs) c e = bindc (encode_value L v c e) (\<lambda>(c, e). encode_values L vs c e)"

lemma compress_loop_nil [simp]: "compress_loop L [] [] c e = Some (Go e)"
  and compress_loop_empty [simp]: "compress_loop L [] ([] # bs) c e = None"
  and compress_loop_value [simp]: "compress_loop L (v # vs) bs c e = bindc (encode_value L v c e) (\<lambda>(c, e). compress_loop L vs bs c e)"
  and compress_loop_next [simp]: "compress_loop L [] ((v # vs) # bs) c e = bindc (encode_value L v c e) (\<lambda>(c, e). compress_loop L vs bs c e)"
  by (subst compress_loop.simps, simp)+

lemma compress_loop_values:
  assumes "[] \<notin> set bs"
  shows "compress_loop L vs bs c e = encode_values L (vs @ concat bs) c e"
  using assms
proof (induction bs arbitrary: vs c e)
  case Nil
  show ?case
  proof (induction vs arbitrary: c e)
    case (Cons v vs)
    have "compress_loop L vs [] = encode_values L vs" using Cons by (intro ext) simp
    then show ?case by simp
  qed simp
next
  case (Cons b bs)
  obtain v b' where b: "b = v # b'" using Cons.prems by (cases b) auto
  have IH: "compress_loop L b' bs = encode_values L (b' @ concat bs)" using Cons by (intro ext) simp
  show ?case
  proof (induction vs arbitrary: c e)
    case Nil
    show ?case by (simp add: b IH)
  next
    case (Cons v vs)
    have "compress_loop L vs (b # bs) = encode_values L (vs @ concat (b # bs))" using Cons by (intro ext) simp
    then show ?case by simp
  qed
qed

text \<open>Where the compressor has a defined result, no buffer but the first was empty, or it gave up before.\<close>

lemma compress_loop_Go:
  "compress_loop L vs bs c e = Some (Go e') \<Longrightarrow> [] \<notin> set bs"
proof (induction bs arbitrary: vs c e)
  case (Cons b bs)
  show ?case using Cons.prems
  proof (induction vs arbitrary: c e)
    case Nil
    show ?case
    proof (cases b)
      case (Cons v b')
      then obtain c1 e1 where "compress_loop L b' bs c1 e1 = Some (Go e')" using Nil by (auto simp: bindc_Go)
      then show ?thesis using Cons.IH Cons by simp
    qed (use Nil in simp)
  next
    case (Cons v vs)
    then show ?case by (auto simp: bindc_Go)
  qed
qed simp

lemma encode_values_ready:
  "coder_rep c M h \<Longrightarrow> encoder_ready L e \<Longrightarrow> encode_values L vs c e = Some Return0
    \<or> (\<exists>e'. encode_values L vs c e = Some (Go e') \<and> encoder_ready L e')"
proof (induction vs arbitrary: c M h e)
  case (Cons v vs)
  obtain M' h' where M': "value_model v M h = (M', h')" by (cases "value_model v M h")
  obtain c' where c': "\<And>e. encode_value L v c e = bindc (encode_all L (codings v M h) e) (\<lambda>e. Some (Go (c', e)))" "coder_rep c' M' h'"
    using encode_value_spec [OF Cons.prems(1) M'] by blast
  obtain idx where "all_ok M" "model_ok M" "h \<in> dom M" using coder_repD [OF Cons.prems(1)] by metis
  from encode_all_ready [OF codings_ok [OF this, of v] Cons.prems(2)]
  show ?case using Cons.IH [OF c'(2)] by (elim disjE exE conjE) (simp_all add: c'(1))
qed simp

lemma decompress_loop_step:
  "decode_value L c d out = Some (Go (Some (c', d', out'))) \<Longrightarrow> decompress_loop L c d out = decompress_loop L c' d' out'"
  by (subst decompress_loop.simps) simp

lemma decompress_loop_end: "decode_value L c d out = Some (Go None) \<Longrightarrow> decompress_loop L c d out = Some (Go out)"
  by (subst decompress_loop.simps) simp

lemma values_replayed:
  assumes "coder_rep c M h" "coder_rep cd M h" "encoder_ready L e" "encode_values L vs c e = Some (Go e')" "inside F e'"
    and "length out + length vs \<le> unat outL"
  shows "inside F e \<and> (\<forall>d. tracks F d e \<longrightarrow> (\<exists>cd' M' h' d'. coder_rep cd' M' h' \<and> tracks F d' e'
    \<and> decompress_loop outL cd d out = decompress_loop outL cd' d' (out @ vs)))"
  using assms
proof (induction vs arbitrary: c cd M h e out)
  case Nil
  then show ?case by auto
next
  case (Cons v vs)
  obtain M' h' where M': "value_model v M h = (M', h')" by (cases "value_model v M h")
  obtain c' where c': "\<And>e. encode_value L v c e = bindc (encode_all L (codings v M h) e) (\<lambda>e. Some (Go (c', e)))" "coder_rep c' M' h'"
    using encode_value_spec [OF Cons.prems(1) M'] by blast
  obtain e1 where e1: "encode_all L (codings v M h) e = Some (Go e1)" "encode_values L vs c' e1 = Some (Go e')"
    using Cons.prems(4) by (auto simp: c'(1) bindc_Go)
  obtain idx where ok: "all_ok M" "model_ok M" "h \<in> dom M" using coder_repD [OF Cons.prems(1)] by metis
  have ready: "encoder_ready L e1" using encode_all_ready [OF codings_ok [OF ok, of v] Cons.prems(3)] e1(1) by auto
  obtain cd' where cd': "coder_rep cd' M' h'" "\<And>L e e' outL out. encoder_ready L e \<Longrightarrow> encode_all L (codings v M h) e = Some (Go e') \<Longrightarrow>
      length out < unat outL \<Longrightarrow> replays e (\<lambda>d. decode_value outL cd d out) (\<lambda>d. Some (cd', d, out @ [v])) e'"
    using decode_value_spec [OF Cons.prems(2) M'] by metis
  have len: "length out < unat outL" "length (out @ [v]) + length vs \<le> unat outL" using Cons.prems(6) by simp_all
  note IH = Cons.IH [OF c'(2) cd'(1) ready e1(2) Cons.prems(5) len(2)]
  have r: "inside F e \<and> (\<forall>d. tracks F d e \<longrightarrow> (\<exists>d'. decode_value outL cd d out = Some (Go (Some (cd', d', out @ [v]))) \<and> tracks F d' e1))"
    using cd'(2) [OF Cons.prems(3) e1(1) len(1)] IH unfolding replays_def by blast
  have "\<exists>cd'' M' h' d''. coder_rep cd'' M' h' \<and> tracks F d'' e'
    \<and> decompress_loop outL cd d out = decompress_loop outL cd'' d'' (out @ v # vs)" if t: "tracks F d e" for d
  proof -
    obtain d' where d': "decode_value outL cd d out = Some (Go (Some (cd', d', out @ [v])))" "tracks F d' e1" using r t by blast
    then show ?thesis using IH decompress_loop_step [OF d'(1)] by simp
  qed
  then show ?case using r by blast
qed

section \<open>The end of the data\<close>

lemma decode_contexts_end:
  assumes set: "settled c idx M" and ok: "all_ok M"
  shows "w \<in> dom M \<Longrightarrow> at_end d \<Longrightarrow> \<exists>c' d'. decode_contexts (idx w) c d = Some (Go (None, c', d'))"
proof (induction w arbitrary: d)
  case Nil
  have rep: "trie_rep c idx M" and k: "idx [] = 0" using set by (simp_all add: settled_def trie_rep_def)
  obtain x where x: "M [] = Some x" "any_ok [] x" using all_okD [OF ok Nil.prems(1)] by blast
  note tot = totals_atD [OF trie_totals [OF rep x(1)], unfolded k]
  have "1 \<le> unat (cx_escapes x)" "unat (cx_escapes x) \<le> unat (cx_total x)"
    using x(2) by (auto simp: any_ok_def root_ok_def ctx_ok_def)
  then obtain d1 d2 where "ENET_RANGE_CODER_READ (ucast (cx_total x)) d = Some (Go (0, d1))"
      "ENET_RANGE_CODER_DECODE 0 (ucast (cx_escapes x)) d1 = Some (Go d2)" "0 < cx_escapes x"
    using read_end [OF Nil.prems(2), of "ucast (cx_escapes x)" "ucast (cx_total x)"] u16_below [of "cx_total x"]
    by (auto simp: unat_u32_of_u16 word_less_nat_alt)
  then show ?case using tot by (simp add: k decode_contexts_root decode_root_def Let_def)
next
  case (Cons a w)
  let ?w = "a # w"
  have rep: "trie_rep c idx M" and par: "parents_rep c idx M {}" using set by (simp_all add: settled_def)
  have st: "stage c idx v {} M u ParentPredicted" for u v using rep par by (auto simp: stage_def waiting_def)
  have k: "idx ?w \<noteq> 0" "idx ?w < ENET_RANGE_CODER_SYMBOLS" using stage_idx [OF st Cons.prems(1)] by simp_all
  have up: "unat (sy_parent (sym_at c (idx ?w))) = idx w" by (rule stage_parent [OF st ok Cons.prems(1)])
  obtain x where x: "M ?w = Some x" using all_okD [OF ok Cons.prems(1)] by blast
  note tot = totals_atD [OF trie_totals [OF rep x]]
  note IH = Cons.IH [OF all_ok_tl [OF ok Cons.prems(1)]]
  show ?case
  proof (cases "cx_escapes x > 0 \<and> cx_escapes x < cx_total x")
    case True
    then have "1 \<le> unat (cx_escapes x)" "unat (cx_escapes x) \<le> unat (cx_total x)"
      by (simp_all add: word_less_nat_alt)
    then obtain d1 d2 where d: "ENET_RANGE_CODER_READ (ucast (cx_total x)) d = Some (Go (0, d1))"
        "ENET_RANGE_CODER_DECODE 0 (ucast (cx_escapes x)) d1 = Some (Go d2)" "at_end d2"
      using read_end [OF Cons.prems(2), of "ucast (cx_escapes x)" "ucast (cx_total x)"] u16_below [of "cx_total x"]
      by (auto simp: unat_u32_of_u16)
    have "decode_contexts (idx ?w) c d = decode_contexts (idx w) c d2"
      using decode_contexts_escape [OF k up, of d 0 d1 d2] True d(1,2) unfolding tot by blast
    then show ?thesis using IH [OF d(3)] by simp
  next
    case False
    then have "decode_contexts (idx ?w) c d = decode_contexts (idx w) c d"
      using decode_contexts_silent [OF k up, of d] unfolding tot by blast
    then show ?thesis using IH [OF Cons.prems(2)] by simp
  qed
qed

lemma decompress_end:
  assumes "coder_rep c M h" "at_end d"
  shows "decompress_loop L c d out = Some (Go out)"
proof (rule decompress_loop_end)
  obtain idx where c: "settled c idx M" "unat (rc_predicted c) = idx h" "all_ok M" "h \<in> dom M"
    using coder_repD [OF assms(1)] by metis
  from decode_contexts_end [OF c(1,3,4) assms(2)]
  show "decode_value L c d out = Some (Go None)" by (auto simp: decode_value_alt c(2))
qed

lemma start_coder_spec: "\<exists>c. start_coder mem = Some (Go c) \<and> coder_rep c root_model []"
proof -
  let ?c = "\<lparr>rc_symbols = mem, rc_nextSymbol = 0, rc_predicted = 0, rc_order = 0\<rparr>"
  obtain k c where c: "ENET_CONTEXT_CREATE ENET_CONTEXT_ESCAPE_MINIMUM ENET_CONTEXT_SYMBOL_MINIMUM (?c\<lparr>rc_nextSymbol := 0\<rparr>) = Some (Go (k, c))"
    using context_created by blast
  note r = settled_root [OF c]
  have "coder_rep c root_model []" by (rule coder_rep_root) (use r in simp_all)
  then show ?thesis using c by (simp add: start_coder_def)
qed

section \<open>Compressing and decompressing\<close>

abbreviation first_encoder :: range_encoder where
  "first_encoder \<equiv> \<lparr>re_low = 0, re_range = - 1, re_out = []\<rparr>"

lemma compressE:
  assumes "enet_range_coder_compress (Some mem) bs inLimit outLimit = Some out" "out \<noteq> []"
  obtains c e G and e' :: range_encoder where "start_coder mem = Some (Go c)" "coder_rep c root_model []"
    "encode_values outLimit (concat bs) c first_encoder = Some (Go e)" "encoder_ready outLimit e"
    "out = re_out e'" "re_out e' = re_out e @ G" "length G \<le> 4"
    "window (re_out e') (length (re_out e)) = unat (re_low e)"
proof -
  obtain c where c: "start_coder mem = Some (Go c)" "coder_rep c root_model []" using start_coder_spec by blast
  have bs: "bs \<noteq> []" using assms by (auto simp: enet_range_coder_compress_def)
  obtain e e' where e: "compress_loop outLimit (hd bs) (tl bs) c first_encoder = Some (Go e)"
      "ENET_RANGE_CODER_FLUSH outLimit e = Some (Go e')" "out = re_out e'"
    using assms c(1) by (auto simp: enet_range_coder_compress_def bindc_Go split: if_splits option.splits coding.splits)
  have "compress_loop outLimit (hd bs) (tl bs) c first_encoder = encode_values outLimit (concat bs) c first_encoder"
    using compress_loop_values [OF compress_loop_Go [OF e(1)]] bs by (simp flip: concat.simps(2))
  then have v: "encode_values outLimit (concat bs) c first_encoder = Some (Go e)" using e(1) by simp
  have r: "encoder_ready outLimit e" using encode_values_ready [OF c(2) start_ready, of outLimit "concat bs"] v by auto
  have "length (re_out e) \<le> unat outLimit" using r by (simp add: encoder_ready_def)
  with flush_spec [of 4 e outLimit] e(2) obtain G where G: "re_out e' = re_out e @ G" "length G \<le> 4"
    "window (re_out e') (length (re_out e)) = unat (re_low e)" by auto
  show thesis by (rule that [OF c v r e(3) G])
qed

text \<open>
  C3: What \<^verbatim>\<open>enet_range_coder_decompress\<close> makes of the output of \<^verbatim>\<open>enet_range_coder_compress\<close> is the
  concatenation of the buffers that were compressed, whatever the two arrays of symbols held
  before, provided that the receiver's buffer has room for it.
\<close>

theorem range_coder_roundtrip:
  assumes "enet_range_coder_compress (Some mem) inBuffers inLimit outLimit = Some out" "out \<noteq> []"
    and "length (concat inBuffers) \<le> unat outLimit'"
  shows "enet_range_coder_decompress (Some mem') out outLimit' = Some (concat inBuffers)"
proof -
  obtain c e G and e' :: range_encoder where c: "start_coder mem = Some (Go c)" "coder_rep c root_model []"
    "encode_values outLimit (concat inBuffers) c first_encoder = Some (Go e)" "encoder_ready outLimit e"
    and e': "out = re_out e'" "re_out e' = re_out e @ G" "length G \<le> 4"
      "window (re_out e') (length (re_out e)) = unat (re_low e)"
    by (rule compressE [OF assms(1,2)])
  have F: "out = re_out e @ G" "window out (length (re_out e)) = unat (re_low e)" using e' by simp_all
  obtain cd where cd: "start_coder mem' = Some (Go cd)" "coder_rep cd root_model []" using start_coder_spec by blast
  define d where "d = ENET_RANGE_CODER_SEED \<lparr>rd_low = 0, rd_code = 0, rd_range = - 1, rd_in = out\<rparr>"
  have t: "tracks out d first_encoder" unfolding d_def by (rule seed_tracks)
  obtain cd' M' h' d' where r: "coder_rep cd' M' h'" "tracks out d' e"
    "decompress_loop outLimit' cd d [] = decompress_loop outLimit' cd' d' ([] @ concat inBuffers)"
    using values_replayed [OF c(2) cd(2) start_ready c(3) inside_end [OF c(4) F], of "[]" outLimit'] assms(3) t by auto
  have "decompress_loop outLimit' cd d [] = Some (Go (concat inBuffers))"
    unfolding r(3) using decompress_end [OF r(1) tracks_end [OF r(2) c(4) F(1) e'(3) F(2)]] by simp
  then show ?thesis using assms(2) cd(1) by (simp add: enet_range_coder_decompress_def d_def)
qed

text \<open>A single byte: it falls into the first interval the root offers, which needs no renormalisation.\<close>

lemma first_byte_normalized:
  "encode_normalize 10 \<lparr>re_low = 133695480, re_range = 16711935, re_out = []\<rparr>
   = Some (Go \<lparr>re_low = 133695480, re_range = 16711935, re_out = []\<rparr>)"
  by (rule encode_normalize_stop) (simp add: straddles_def range_coder_limit_defs)

lemma first_byte_flushed:
  "ENET_RANGE_CODER_FLUSH 10 \<lparr>re_low = 133695480, re_range = 16711935, re_out = []\<rparr>
   = Some (Go \<lparr>re_low = 0, re_range = 16711935, re_out = [7, 248, 7, 248]\<rparr>)"
  by (subst ENET_RANGE_CODER_FLUSH.simps, simp add: emit_byte_def ENET_RANGE_CODER_OUTPUT_def)+

lemma compress_one_byte:
  "enet_range_coder_compress (Some (\<lambda>_. fresh_symbol 0 0)) [[7]] 1 10 = Some [7, 248, 7, 248]"
  by (simp add: enet_range_coder_compress_def start_coder_def ENET_CONTEXT_CREATE_def ENET_SYMBOL_CREATE_def
      encode_value_alt encode_contexts_def encode_subcontexts_root encode_root_def ENET_CONTEXT_ENCODE_def context_const_defs
      Let_def ENET_RANGE_CODER_ENCODE_def sym_at_def fresh_symbol_def upd_sym_def first_byte_normalized first_byte_flushed
      rescale_root_def range_coder_limit_defs next_input_def ENET_RANGE_CODER_FREE_SYMBOLS_def)

theorem range_coder_roundtrip_witness:
  "enet_range_coder_decompress (Some (\<lambda>_. fresh_symbol 1 1)) [7, 248, 7, 248] 1 = Some (concat [[7]])"
  by (rule range_coder_roundtrip [OF compress_one_byte]) simp_all

text \<open>
  C8: \<^verbatim>\<open>enet_range_coder_compress\<close> returns, without leaving the array of symbols, and writes at most
  \<^verbatim>\<open>outLimit\<close> bytes, when no buffer but the first is empty.
\<close>

theorem range_coder_compress_bounded:
  assumes "[] \<notin> set (tl inBuffers)"
  shows "\<exists>out. enet_range_coder_compress (Some mem) inBuffers inLimit outLimit = Some out \<and> length out \<le> unat outLimit"
proof (cases "inBuffers = [] \<or> inLimit = 0")
  case True
  then show ?thesis by (auto simp: enet_range_coder_compress_def)
next
  case False
  obtain c where c: "start_coder mem = Some (Go c)" "coder_rep c root_model []" using start_coder_spec by blast
  note loop = compress_loop_values [OF assms, of outLimit "hd inBuffers" c first_encoder]
  let ?r = "encode_values outLimit (hd inBuffers @ concat (tl inBuffers)) c first_encoder"
  from encode_values_ready [OF c(2) start_ready, of outLimit "hd inBuffers @ concat (tl inBuffers)"]
  show ?thesis
  proof (elim disjE exE conjE)
    assume "?r = Some Return0"
    then show ?thesis using False c(1) loop by (simp add: enet_range_coder_compress_def)
  next
    fix e assume e: "?r = Some (Go e)" and "encoder_ready outLimit e"
    then have "length (re_out e) \<le> unat outLimit" by (simp add: encoder_ready_def)
    with flush_spec [of 4 e outLimit] have "ENET_RANGE_CODER_FLUSH outLimit e = Some Return0
        \<or> (\<exists>e'. ENET_RANGE_CODER_FLUSH outLimit e = Some (Go e') \<and> length (re_out e') \<le> unat outLimit)" by auto
    then show ?thesis using False c(1) loop e by (elim disjE exE conjE) (simp_all add: enet_range_coder_compress_def)
  qed
qed



theorem range_coder_compress_bounded_witness:
  "\<exists>out. enet_range_coder_compress (Some (\<lambda>_. fresh_symbol 0 0)) [[7], [8, 9]] 3 10 = Some out \<and> length out \<le> unat (10 :: size_t)"
  by (rule range_coder_compress_bounded) simp

end
