(* ===== verification/Cpp_Strings.thy ===== *)
theory Cpp_Strings
  imports Prelude
begin

text \<open>
  What the C++ part of the proxy uses of the standard library's strings: the bytes of a string,
  decimal numbers, \<^verbatim>\<open>std::getline\<close> and \<^verbatim>\<open>std::string::find\<close>.
\<close>

section \<open>Bytes\<close>

definition string_bytes :: "string \<Rightarrow> u8 list" where
  "string_bytes s = map (\<lambda>c. of_nat (of_char c)) s"

definition bytes_string :: "u8 list \<Rightarrow> string" where
  "bytes_string bs = map (\<lambda>b. char_of (unat b)) bs"

lemma length_string_bytes [simp]: "length (string_bytes s) = length s"
  by (simp add: string_bytes_def)

lemma bytes_string_bytes [simp]: "bytes_string (string_bytes s) = s"
proof -
  have "char_of (unat (of_nat (of_char c) :: u8)) = c" for c :: char
  proof -
    have "of_char c < (256 :: nat)" by (cases c) (simp add: of_char_def horner_sum_simps)
    then have "unat (of_nat (of_char c) :: u8) = of_char c" by (simp add: unsigned_of_nat take_bit_nat_eq_self)
    then show ?thesis by simp
  qed
  then show ?thesis by (simp add: bytes_string_def string_bytes_def comp_def)
qed

section \<open>Numbers\<close>

text \<open>\<^verbatim>\<open>std::to_string\<close> of integers.\<close>

fun digits :: "nat \<Rightarrow> string" where
  "digits n = (if n < 10 then [char_of (48 + n)] else digits (n div 10) @ [char_of (48 + n mod 10)])"

definition show_int :: "int \<Rightarrow> string" where
  "show_int i = (if i < 0 then CHR ''-'' # digits (nat (- i)) else digits (nat i))"

section \<open>Reading lines\<close>

text \<open>
  The tokens \<^verbatim>\<open>std::getline(ss, token, d)\<close> yields until it fails: text that ends in a delimiter has
  no empty token after it.
\<close>

fun lines_from :: "char \<Rightarrow> string \<Rightarrow> string \<Rightarrow> string list" where
  "lines_from d token [] = (if token = [] then [] else [token])"
| "lines_from d token (c # s) = (if c = d then token # lines_from d [] s else lines_from d (token @ [c]) s)"

definition getlines :: "char \<Rightarrow> string \<Rightarrow> string list" where
  "getlines d s = lines_from d [] s"

lemma getlines_app: "c \<notin> set s \<Longrightarrow> getlines c (s @ c # t) = s # getlines c t"
proof -
  have "c \<notin> set s \<Longrightarrow> lines_from c token (s @ c # t) = (token @ s) # lines_from c [] t" for token
    by (induction s arbitrary: token) auto
  then show "c \<notin> set s \<Longrightarrow> ?thesis" by (simp add: getlines_def)
qed

lemma getlines_last: "c \<notin> set s \<Longrightarrow> s \<noteq> [] \<Longrightarrow> getlines c s = [s]"
proof -
  have "c \<notin> set s \<Longrightarrow> lines_from c token s = (if token @ s = [] then [] else [token @ s])" for token
    by (induction s arbitrary: token) auto
  then show "c \<notin> set s \<Longrightarrow> s \<noteq> [] \<Longrightarrow> ?thesis" by (simp add: getlines_def)
qed

lemma getlines_Nil [simp]: "getlines c [] = []"
  by (simp add: getlines_def)

lemma getlines_lines: "list_all (\<lambda>s. c \<notin> set s) ss \<Longrightarrow> getlines c (concat (map (\<lambda>s. s @ [c]) ss)) = ss"
  by (induction ss) (simp_all add: getlines_app)

section \<open>Searching\<close>

fun prefix_of :: "string \<Rightarrow> string \<Rightarrow> bool" where
  "prefix_of [] s = True"
| "prefix_of (c # p) [] = False"
| "prefix_of (c # p) (d # s) = (c = d \<and> prefix_of p s)"

text \<open>The least position where \<open>p\<close> occurs, or none (\<^verbatim>\<open>npos\<close>).\<close>

fun string_find :: "string \<Rightarrow> string \<Rightarrow> nat option" where
  "string_find p [] = (if p = [] then Some 0 else None)"
| "string_find p (c # s) = (if prefix_of p (c # s) then Some 0 else map_option Suc (string_find p s))"

lemma prefix_of_app: "prefix_of p s \<longleftrightarrow> (\<exists>t. s = p @ t)"
  by (induction p s rule: prefix_of.induct) auto

lemma string_find_Some: "string_find p s = Some n \<Longrightarrow> \<exists>t. s = take n s @ p @ t \<and> n + length p \<le> length s"
proof (induction s arbitrary: n)
  case Nil
  then show ?case by (auto split: if_splits)
next
  case (Cons c s)
  show ?case
  proof (cases "prefix_of p (c # s)")
    case True
    then obtain t where "c # s = p @ t" using prefix_of_app by blast
    moreover have "n = 0" using Cons.prems True by simp
    moreover have "length p \<le> length (c # s)" unfolding \<open>c # s = p @ t\<close> by simp
    ultimately show ?thesis by auto
  next
    case False
    then obtain m where m: "string_find p s = Some m" "n = Suc m" using Cons.prems by auto
    then show ?thesis using Cons.IH [OF m(1)] by auto
  qed
qed

lemma string_find_None: "string_find p s = None \<Longrightarrow> s \<noteq> a @ p @ b"
proof (induction s arbitrary: a)
  case Nil
  then show ?case by (auto split: if_splits)
next
  case (Cons c s)
  have "\<not> prefix_of p (c # s)" "string_find p s = None" using Cons.prems by (auto split: if_splits)
  then show ?case using Cons.IH [of "tl a"] by (cases a) (auto simp: prefix_of_app)
qed

end
