(* ===== verification/Proxy_Utils.thy ===== *)
theory Proxy_Utils
  imports Cpp_Strings
begin

text \<open>
  \<^verbatim>\<open>utils.cpp\<close> and \<^verbatim>\<open>proton/hash.hpp\<close>. The random numbers are arguments, in the order they are
  drawn. A \<^verbatim>\<open>char\<close> is signed.
\<close>

section \<open>Hashes\<close>

definition hash_step :: "u32 \<Rightarrow> u8 \<Rightarrow> u32" where
  "hash_step acc n = drop_bit 27 acc + push_bit 5 acc + ucast n"

text \<open>
  \<^verbatim>\<open>utils::hash\<close> of the bytes at \<open>str\<close>: \<open>len\<close> of them, or up to a zero when \<open>len\<close> is 0. A null
  pointer is \<open>None\<close> inside, running past the bytes that are there is \<open>None\<close> outside.
\<close>

definition utils_hash :: "u8 list option \<Rightarrow> u32 \<Rightarrow> u32 option" where
  "utils_hash str len =
    (case str of
       None \<Rightarrow> Some 0
     | Some n \<Rightarrow>
         if len = 0 then (if 0 \<in> set n then Some (foldl hash_step 0x55555555 (takeWhile (\<lambda>b. b \<noteq> 0) n)) else None)
         else if unat len > length n then None
         else Some (foldl hash_step 0x55555555 (take (unat len) n)))"

text \<open>The FNV-1a hashes; a character is sign-extended.\<close>

definition char_word :: "char \<Rightarrow> 'a::len word" where
  "char_word c = scast (of_nat (of_char c) :: u8)"

fun hash32_from :: "string \<Rightarrow> u32 \<Rightarrow> u32" where
  "hash32_from [] value = value"
| "hash32_from (c # str) value =
    (if c = CHR 0x00 then value else hash32_from str ((value XOR char_word c) * 0x1000193))"

definition hash32 :: "string \<Rightarrow> u32" where
  "hash32 str = hash32_from str 0x811c9dc5"

fun hash64_from :: "string \<Rightarrow> size_t \<Rightarrow> size_t" where
  "hash64_from [] value = value"
| "hash64_from (c # str) value =
    (if c = CHR 0x00 then value else hash64_from str ((value XOR char_word c) * 0x100000001b3))"

definition hash64 :: "string \<Rightarrow> size_t" where
  "hash64 str = hash64_from str 0xcbf29ce484222325"

section \<open>Random texts\<close>

definition hexmap_s :: string where "hexmap_s = ''0123456789abcdef''"

definition hex_str :: "u8 \<Rightarrow> string" where
  "hex_str data = [hexmap_s ! unat (drop_bit 4 (data AND 0xF0)), hexmap_s ! unat (data AND 0x0F)]"

definition to_upper :: "char \<Rightarrow> char" where
  "to_upper c =
    (case map_of (zip ''abcdefghijklmnopqrstuvwxyz'' ''ABCDEFGHIJKLMNOPQRSTUVWXYZ'') c of Some d \<Rightarrow> d | None \<Rightarrow> c)"

text \<open>\<^verbatim>\<open>generate_rid\<close> from its 16 random bytes, \<^verbatim>\<open>generate_mac\<close> from its 5.\<close>

definition generate_rid :: "u8 list \<Rightarrow> string" where
  "generate_rid rs = map to_upper (concat (map hex_str (take 16 rs)))"

fun mac_groups :: "nat \<Rightarrow> u8 list \<Rightarrow> string" where
  "mac_groups i [] = []"
| "mac_groups i (r # rs) = hex_str r @ (if i \<noteq> 4 then '':'' else []) @ mac_groups (i + 1) rs"

definition generate_mac :: "string \<Rightarrow> u8 list \<Rightarrow> string" where
  "generate_mac prefix rs = prefix @ '':'' @ mac_groups 0 (take 5 rs)"

definition charset :: string where
  "charset = ''0123456789'' @ ''qwertyuiopasdfghjklzxcvbnm'' @ ''QWERTYUIOPASDFGHJKLZXCVBNM''"

definition random_text :: "nat list \<Rightarrow> string" where
  "random_text rs = map (\<lambda>r. charset ! (r mod 62)) rs"

section \<open>Texts\<close>

text \<open>The first occurrence, if any, is replaced.\<close>

definition utils_replace :: "string \<Rightarrow> string \<Rightarrow> string \<Rightarrow> bool \<times> string" where
  "utils_replace str from to =
    (case string_find from str of
       None \<Rightarrow> (False, str)
     | Some start_pos \<Rightarrow> (True, take start_pos str @ to @ drop (start_pos + length from) str))"

text \<open>A sign, then digits only; a sign alone passes.\<close>

definition is_digit :: "char \<Rightarrow> bool" where
  "is_digit c \<longleftrightarrow> c \<in> set ''0123456789''"

definition is_number :: "string \<Rightarrow> bool" where
  "is_number s \<longleftrightarrow> s \<noteq> [] \<and> list_all is_digit (if hd s = CHR ''-'' then tl s else s)"

section \<open>Properties\<close>

lemma low_nibble: "unat (x AND 15 :: u8) < 16"
proof -
  have "x AND 15 = take_bit 4 x" by (simp add: take_bit_eq_mask mask_eq_exp_minus_1)
  then have "unat (x AND 15) = take_bit 4 (unat x)" by (simp add: unsigned_take_bit_eq)
  then show ?thesis using take_bit_nat_less_exp [of 4 "unat x"] by simp
qed

lemma high_nibble: "unat (drop_bit 4 (x AND 0xF0) :: u8) < 16"
proof -
  have "unat (drop_bit 4 (x AND 0xF0)) = unat (x AND 0xF0) div 16" unfolding unat_drop_bit_eq by (simp add: drop_bit_eq_div)
  moreover have "unat (x AND 0xF0) < 256" using unsigned_less [of "x AND 0xF0"] by simp
  ultimately show ?thesis by simp
qed

definition hex_digits :: "char set" where
  "hex_digits = set hexmap_s"

lemma hex_str_digits: "set (hex_str r) \<subseteq> hex_digits" "length (hex_str r) = 2"
proof -
  have "length hexmap_s = 16" by (simp add: hexmap_s_def)
  then show "set (hex_str r) \<subseteq> hex_digits"
    using low_nibble [of r] high_nibble [of r] by (auto simp: hex_str_def hex_digits_def intro!: nth_mem)
  show "length (hex_str r) = 2" by (simp add: hex_str_def)
qed

lemma to_upper_hex: "c \<in> hex_digits \<Longrightarrow> to_upper c \<in> set ''0123456789ABCDEF''"
  unfolding hex_digits_def hexmap_s_def set_simps insert_iff empty_iff by (elim disjE) (simp_all add: to_upper_def)

lemma length_concat_hex: "length (concat (map hex_str rs)) = 2 * length rs"
  by (induction rs) (simp_all add: hex_str_digits)

lemma generated_texts:
  assumes "length rs = 16" "length ms = 5"
  shows "length (generate_rid rs) = 32" "set (generate_rid rs) \<subseteq> set ''0123456789ABCDEF''"
    and "generate_mac prefix ms = prefix @ concat (map (\<lambda>m. '':'' @ hex_str m) ms)"
    and "\<forall>m. length (hex_str m) = 2 \<and> set (hex_str m) \<subseteq> hex_digits"
proof -
  show "length (generate_rid rs) = 32" using assms(1) by (simp add: generate_rid_def length_concat_hex)
  show "set (generate_rid rs) \<subseteq> set ''0123456789ABCDEF''"
  proof
    fix c assume "c \<in> set (generate_rid rs)"
    then obtain r d where "d \<in> set (hex_str r)" "c = to_upper d" by (auto simp: generate_rid_def)
    then show "c \<in> set ''0123456789ABCDEF''" using hex_str_digits(1) [of r] to_upper_hex by blast
  qed
  have "length ms = Suc (Suc (Suc (Suc (Suc 0))))" using assms(2) by simp
  then obtain a b c d e where "ms = [a, b, c, d, e]" by (auto simp: length_Suc_conv)
  then show "generate_mac prefix ms = prefix @ concat (map (\<lambda>m. '':'' @ hex_str m) ms)"
    by (simp add: generate_mac_def)
  show "\<forall>m. length (hex_str m) = 2 \<and> set (hex_str m) \<subseteq> hex_digits" using hex_str_digits by blast
qed

text \<open>
  C33: Whatever is drawn, a generated id is 32 upper-case hexadecimal digits, and a generated
  hardware address is the prefix and five groups of two digits after colons.
\<close>

theorem generated_formats:
  assumes "length rs = 16" "length ms = 5"
  shows "length (generate_rid rs) = 32 \<and> set (generate_rid rs) \<subseteq> set ''0123456789ABCDEF''
    \<and> generate_mac prefix ms = prefix @ concat (map (\<lambda>m. '':'' @ hex_str m) ms)
    \<and> (\<forall>m. length (hex_str m) = 2 \<and> set (hex_str m) \<subseteq> hex_digits)"
  using generated_texts [OF assms] by blast

theorem generated_formats_witness:
  "length (generate_rid (replicate 16 7)) = 32 \<and> generate_mac ''02'' [1, 2, 3, 4, 5] = ''02'' @ concat (map (\<lambda>m. '':'' @ hex_str m) [1, 2, 3, 4, 5])"
proof -
  have 1: "length (replicate 16 7 :: u8 list) = 16" and 2: "length [1, 2, 3, 4, 5 :: u8] = 5" by simp_all
  show ?thesis using generated_formats [OF 1 2] by blast
qed

text \<open>
  \<^verbatim>\<open>replace\<close> puts \<open>to\<close> in the place of the first occurrence of \<open>from\<close>, and reports failure
  exactly where there is none.
\<close>

theorem replace_first_occurrence:
  shows "case utils_replace str from to of
      (True, str') \<Rightarrow> (\<exists>a b. str = a @ from @ b \<and> str' = a @ to @ b \<and> string_find from str = Some (length a))
    | (False, str') \<Rightarrow> str' = str \<and> (\<forall>a b. str \<noteq> a @ from @ b)"
proof (cases "string_find from str")
  case None
  then show ?thesis using string_find_None by (simp add: utils_replace_def)
next
  case (Some n)
  obtain t where t: "str = take n str @ from @ t" "n + length from \<le> length str" using string_find_Some [OF Some] by blast
  have "drop (n + length from) str = t"
  proof -
    have "drop (n + length from) (take n str @ from @ t) = t" using t(2) by simp
    then show ?thesis using t(1) by simp
  qed
  moreover have "length (take n str) = n" using t(2) by simp
  ultimately have "str = take n str @ from @ t \<and> take n str @ to @ t = take n str @ to @ t \<and> string_find from str = Some (length (take n str))"
    and "utils_replace str from to = (True, take n str @ to @ t)"
    using t(1) Some by (simp_all add: utils_replace_def)
  then show ?thesis by (simp only: prod.case bool.case) blast
qed

end
