(* ===== verification/Proton_Rtvar.thy ===== *)
theory Proton_Rtvar
  imports Proxy_Utils
begin

text \<open>
  \<^verbatim>\<open>proton/rtparam.hpp\<close>: the text parameters of the game's messages, lines of a key and values
  separated by bars. \<^verbatim>\<open>None\<close> is code without a defined result, such as the first element of an
  empty vector.
\<close>

section \<open>Pairs\<close>

record pair =
  m_key :: string
  m_values :: "string list"
  m_value :: string

fun joined :: "string list \<Rightarrow> string" where
  "joined [] = []"
| "joined [v] = v"
| "joined (v # vs) = v @ ''|'' @ joined vs"

definition pair_parse :: "string \<Rightarrow> pair" where
  "pair_parse str =
    (if str = [] then \<lparr>m_key = [], m_values = [''[EMPTY]''], m_value = ''[EMPTY]''\<rparr>
     else
       (case getlines (CHR ''|'') str of
          [] \<Rightarrow> \<lparr>m_key = [], m_values = [], m_value = []\<rparr>
        | key # values \<Rightarrow> \<lparr>m_key = key, m_values = values, m_value = joined values\<rparr>))"

definition pair_serialize :: "pair \<Rightarrow> string" where
  "pair_serialize p = m_key p @ concat (map (\<lambda>v. ''|'' @ v) (m_values p))"

text \<open>\<^verbatim>\<open>operator==\<close> looks at the first value only, when the keys are the same.\<close>

definition pair_eq :: "pair \<Rightarrow> pair \<Rightarrow> bool option" where
  "pair_eq p rst =
    (if m_key p \<noteq> m_key rst then Some False
     else if m_values p = [] \<or> m_values rst = [] then None
     else Some (hd (m_values p) = hd (m_values rst)))"

section \<open>Lists of pairs\<close>

type_synonym rtvar = "pair list"

definition rtvar_append :: "string \<Rightarrow> rtvar \<Rightarrow> rtvar" where
  "rtvar_append str r = r @ [pair_parse str]"

definition rtvar_parse :: "string \<Rightarrow> rtvar" where
  "rtvar_parse str = fold rtvar_append (getlines (CHR 0x0A) str) []"

text \<open>An index out of range, also a negative one, stands for the first pair.\<close>

definition rtvar_nth :: "int \<Rightarrow> rtvar \<Rightarrow> pair option" where
  "rtvar_nth i r =
    (if r = [] then None
     else if unat (of_int i :: u32) \<ge> length r then Some (r ! 0) else Some (r ! unat (of_int i :: u32)))"

definition rtvar_valid :: "rtvar \<Rightarrow> bool" where
  "rtvar_valid r \<longleftrightarrow> \<not> length r < 1 \<and> \<not> length (m_values (r ! 0)) < 1"

fun find_from :: "string \<Rightarrow> nat \<Rightarrow> rtvar \<Rightarrow> nat option" where
  "find_from key inx [] = None"
| "find_from key inx (p # ps) = (if m_key p = key then Some inx else find_from key (inx + 1) ps)"

definition rtvar_find :: "string \<Rightarrow> rtvar \<Rightarrow> nat option" where
  "rtvar_find key r = find_from key 0 r"

definition rtvar_get :: "string \<Rightarrow> rtvar \<Rightarrow> string" where
  "rtvar_get key r = (case rtvar_find key r of Some i \<Rightarrow> m_value (r ! i) | None \<Rightarrow> [])"

definition rtvar_set :: "string \<Rightarrow> string \<Rightarrow> rtvar \<Rightarrow> rtvar" where
  "rtvar_set key value r =
    (case rtvar_find key r of
       Some i \<Rightarrow>
         if length (m_values (r ! i)) \<ge> 1
         then r[i := (r ! i)\<lparr>m_values := (m_values (r ! i))[0 := value]\<rparr>] else r
     | None \<Rightarrow> r)"

definition serialize_text :: "rtvar \<Rightarrow> string" where
  "serialize_text r = concat (map (\<lambda>p. pair_serialize p @ [CHR 0x0A]) r)"

text \<open>
  The last statement erases the character at \<^verbatim>\<open>ret.end()\<close>, of which there is none: only the empty
  text, for which it is skipped, has a defined result.
\<close>

definition rtvar_serialize :: "rtvar \<Rightarrow> string option" where
  "rtvar_serialize r = (let ret = serialize_text r in if ret \<noteq> [] then None else Some ret)"

definition validate_int :: "string \<Rightarrow> rtvar \<Rightarrow> bool" where
  "validate_int str r = (case rtvar_find str r of None \<Rightarrow> False | Some i \<Rightarrow> is_number (m_value (r ! i)))"

fun validate_ints :: "string list \<Rightarrow> rtvar \<Rightarrow> bool" where
  "validate_ints [] r = True"
| "validate_ints (str # vals) r =
    (case rtvar_find str r of
       None \<Rightarrow> False
     | Some i \<Rightarrow> if \<not> is_number (m_value (r ! i)) then False else validate_ints vals r)"

definition rtvar_size :: "rtvar \<Rightarrow> nat" where
  "rtvar_size r = length r"

text \<open>
  \<^verbatim>\<open>remove\<close> hands \<^verbatim>\<open>std::remove\<close> a reference into the vector that is being compacted. From the
  first pair that is moved on, that pair has taken the place of the one to be removed, and the rest
  is compared with it.
\<close>

fun remove_rest :: "pair \<Rightarrow> bool \<Rightarrow> rtvar \<Rightarrow> rtvar option" where
  "remove_rest ref moved [] = Some []"
| "remove_rest ref moved (p # ps) =
    (case pair_eq p ref of
       None \<Rightarrow> None
     | Some True \<Rightarrow> remove_rest ref moved ps
     | Some False \<Rightarrow> map_option ((#) p) (remove_rest (if moved then ref else p) True ps))"

definition rtvar_remove :: "string \<Rightarrow> rtvar \<Rightarrow> rtvar option" where
  "rtvar_remove key r =
    (case rtvar_find key r of
       None \<Rightarrow> Some r
     | Some i \<Rightarrow>
         (case pair_eq (r ! i) (r ! i) of
            None \<Rightarrow> None
          | Some _ \<Rightarrow> map_option ((@) (take i r)) (remove_rest (r ! i) False (drop (i + 1) r))))"

text \<open>\<^verbatim>\<open>rtvar_opt\<close>\<close>

definition rtvar_opt_append :: "string \<Rightarrow> string \<Rightarrow> string" where
  "rtvar_opt_append str m_var = m_var @ [CHR 0x0A] @ str"

section \<open>Lines that are read back\<close>

definition pair_wf :: "pair \<Rightarrow> bool" where
  "pair_wf p \<longleftrightarrow> list_all (\<lambda>s. CHR ''|'' \<notin> set s \<and> CHR 0x0A \<notin> set s) (m_key p # m_values p)
     \<and> (if m_values p = [] then m_key p \<noteq> [] else last (m_values p) \<noteq> []) \<and> m_value p = joined (m_values p)"

lemma getlines_bars:
  "CHR ''|'' \<notin> set k \<Longrightarrow> list_all (\<lambda>s. CHR ''|'' \<notin> set s) vs \<Longrightarrow> (if vs = [] then k \<noteq> [] else last vs \<noteq> []) \<Longrightarrow>
   getlines (CHR ''|'') (k @ concat (map (\<lambda>v. ''|'' @ v) vs)) = k # vs"
proof (induction vs arbitrary: k)
  case Nil
  then show ?case by (simp add: getlines_last)
next
  case (Cons v vs)
  have "getlines (CHR ''|'') (v @ concat (map (\<lambda>v. ''|'' @ v) vs)) = v # vs"
    using Cons by (cases vs) (simp_all add: getlines_last)
  then show ?case using Cons.prems by (simp add: getlines_app)
qed

lemma pair_roundtrip: "pair_wf p \<Longrightarrow> pair_parse (pair_serialize p) = p"
proof -
  assume p: "pair_wf p"
  have k: "CHR ''|'' \<notin> set (m_key p)" "list_all (\<lambda>s. CHR ''|'' \<notin> set s) (m_values p)"
    and l: "if m_values p = [] then m_key p \<noteq> [] else last (m_values p) \<noteq> []"
    using p by (auto simp: pair_wf_def list_all_iff)
  have g: "getlines (CHR ''|'') (pair_serialize p) = m_key p # m_values p"
    unfolding pair_serialize_def by (rule getlines_bars [OF k l])
  then have "pair_serialize p \<noteq> []" by auto
  then show ?thesis using p by (simp add: pair_parse_def g pair_wf_def)
qed

lemma rtvar_parse_lines: "rtvar_parse s = map pair_parse (getlines (CHR 0x0A) s)"
proof -
  have "fold rtvar_append ls r = r @ map pair_parse ls" for ls r
    by (induction ls arbitrary: r) (simp_all add: rtvar_append_def)
  then show ?thesis by (simp add: rtvar_parse_def)
qed


definition example_rtvar :: rtvar where
  "example_rtvar = [\<lparr>m_key = ''name'', m_values = [''a'', '''', ''b''], m_value = ''a||b''\<rparr>, \<lparr>m_key = ''x'', m_values = [''1''], m_value = ''1''\<rparr>]"


text \<open>
  \<^verbatim>\<open>rtvar::serialize\<close> has a defined result only for a list without pairs: it always erases past
  the end of the text it has built.
\<close>

theorem rtvar_serialize_undefined:
  shows "rtvar_serialize r = (if r = [] then Some [] else None)"
  by (cases r) (simp_all add: rtvar_serialize_def serialize_text_def Let_def)

lemma find_from_nth:
  "find_from key n r = Some i \<Longrightarrow> n \<le> i \<and> i - n < length r \<and> m_key (r ! (i - n)) = key
     \<and> (\<forall>j < i - n. m_key (r ! j) \<noteq> key)"
proof (induction r arbitrary: n)
  case (Cons p r)
  show ?case
  proof (cases "m_key p = key")
    case False
    then have IH: "Suc n \<le> i \<and> i - Suc n < length r \<and> m_key (r ! (i - Suc n)) = key
        \<and> (\<forall>j < i - Suc n. m_key (r ! j) \<noteq> key)" using Cons by simp
    then have "i - n = Suc (i - Suc n)" by linarith
    then show ?thesis using IH False by (auto simp: less_Suc_eq_0_disj)
  qed (use Cons.prems in auto)
qed simp

lemma rtvar_findD: "rtvar_find key r = Some i \<Longrightarrow> i < length r \<and> m_key (r ! i) = key \<and> (\<forall>j < i. m_key (r ! j) \<noteq> key)"
  using find_from_nth [of key 0 r i] by (simp add: rtvar_find_def)

lemma find_from_update:
  "m_key q = m_key (r ! i) \<Longrightarrow> i < length r \<Longrightarrow> find_from key n (r[i := q]) = find_from key n r"
proof (induction r arbitrary: n i)
  case (Cons p r)
  then show ?case by (cases i) auto
qed simp

lemma rtvar_set_text_get:
  assumes "rtvar_find key r = Some i" "m_values (r ! i) = v # vs"
  shows "serialize_text (rtvar_set key value r)
      = serialize_text (take i r) @ (key @ ''|'' @ value @ concat (map (\<lambda>v. ''|'' @ v) vs)) @ [CHR 0x0A] @ serialize_text (drop (Suc i) r)"
    and "\<forall>k. rtvar_get k (rtvar_set key value r) = rtvar_get k r"
proof -
  have i: "i < length r" "m_key (r ! i) = key" using rtvar_findD [OF assms(1)] by auto
  define q where "q = (r ! i)\<lparr>m_values := value # vs\<rparr>"
  have s: "rtvar_set key value r = r[i := q]" using assms by (simp add: rtvar_set_def q_def)
  have "serialize_text (r[i := q]) = serialize_text (take i r) @ pair_serialize q @ [CHR 0x0A] @ serialize_text (drop (Suc i) r)"
    using i(1) by (simp add: upd_conv_take_nth_drop serialize_text_def)
  then show "serialize_text (rtvar_set key value r)
      = serialize_text (take i r) @ (key @ ''|'' @ value @ concat (map (\<lambda>v. ''|'' @ v) vs)) @ [CHR 0x0A] @ serialize_text (drop (Suc i) r)"
    unfolding s by (simp add: q_def pair_serialize_def i(2))
  have "rtvar_get k (r[i := q]) = rtvar_get k r" for k
  proof -
    have f: "rtvar_find k (r[i := q]) = rtvar_find k r"
      using find_from_update [of q r i k 0] i(1) by (simp add: rtvar_find_def q_def)
    show ?thesis
    proof (cases "rtvar_find k r")
      case (Some j)
      then have "j < length r" using rtvar_findD by blast
      then show ?thesis using f Some by (cases "j = i") (simp_all add: rtvar_get_def q_def)
    qed (simp add: rtvar_get_def f)
  qed
  then show "\<forall>k. rtvar_get k (rtvar_set key value r) = rtvar_get k r" unfolding s by blast
qed

text \<open>
  \<^verbatim>\<open>set\<close> replaces the first value of the first pair with the key, in the text that is
  serialised; what \<^verbatim>\<open>get\<close> returns, and the other pairs, it leaves as they were.
\<close>

theorem rtvar_set_first_value:
  assumes "rtvar_find key r = Some i" "m_values (r ! i) = v # vs"
  shows "serialize_text (rtvar_set key value r)
      = serialize_text (take i r) @ (key @ ''|'' @ value @ concat (map (\<lambda>v. ''|'' @ v) vs)) @ [CHR 0x0A] @ serialize_text (drop (Suc i) r)
    \<and> (\<forall>k. rtvar_get k (rtvar_set key value r) = rtvar_get k r)"
  using rtvar_set_text_get [OF assms] by blast

theorem rtvar_set_first_value_witness:
  "serialize_text (rtvar_set ''name'' ''z'' example_rtvar)
     = serialize_text (take 0 example_rtvar) @ (''name'' @ ''|'' @ ''z'' @ concat (map (\<lambda>v. ''|'' @ v) ['''', ''b''])) @ [CHR 0x0A]
       @ serialize_text (drop (Suc 0) example_rtvar)
   \<and> (\<forall>k. rtvar_get k (rtvar_set ''name'' ''z'' example_rtvar) = rtvar_get k example_rtvar)"
proof -
  have 1: "rtvar_find ''name'' example_rtvar = Some 0" by (simp add: example_rtvar_def rtvar_find_def)
  have 2: "m_values (example_rtvar ! 0) = ''a'' # ['''', ''b'']" by (simp add: example_rtvar_def)
  show ?thesis using rtvar_set_first_value [OF 1 2] by blast
qed

text \<open>The reference into the vector: a pair of another key is lost, and one to be removed is kept.\<close>

lemma rtvar_remove_aliasing:
  fixes k a :: pair
  defines "k \<equiv> \<lparr>m_key = ''k'', m_values = [''1''], m_value = ''1''\<rparr>" and "a \<equiv> \<lparr>m_key = ''a'', m_values = [''2''], m_value = ''2''\<rparr>"
  shows "rtvar_remove ''k'' [k, a, k, a] = Some [a, k]"
  by (simp add: rtvar_remove_def rtvar_find_def pair_eq_def k_def a_def)

end
