(* ===== verification/Proton_Variant.thy ===== *)
theory Proton_Variant
  imports Cpp_Strings
begin

text \<open>
  \<^verbatim>\<open>proton/vector.hpp\<close> and \<^verbatim>\<open>proton/variant.hpp\<close>: the vectors, the tagged value \<^verbatim>\<open>variant_t\<close> and
  \<^verbatim>\<open>variantlist_t\<close>, the seven parameters of a call packet, with their serialised form.

  A \<^verbatim>\<open>float\<close> is the word of its 32 bits. What the compiler's floating point does with two of them
  is an argument, a record of operations. \<^verbatim>\<open>None\<close> is code without a defined result: a signed
  addition that overflows, an access outside the list of parameters, or past the end of a buffer.
\<close>

section \<open>Vectors\<close>

type_synonym float32 = u32

record float_ops =
  fl_add :: "float32 \<Rightarrow> float32 \<Rightarrow> float32"
  fl_sub :: "float32 \<Rightarrow> float32 \<Rightarrow> float32"
  fl_mul :: "float32 \<Rightarrow> float32 \<Rightarrow> float32"
  fl_sqrt :: "float32 \<Rightarrow> float32"
  fl_eq :: "float32 \<Rightarrow> float32 \<Rightarrow> bool"
  fl_show :: "float32 \<Rightarrow> string"

record vector2_t =
  v2_x :: float32
  v2_y :: float32

record vector3_t =
  v3_x :: float32
  v3_y :: float32
  v3_z :: float32

record rect_t =
  rc_x :: float32
  rc_y :: float32
  rc_w :: float32
  rc_h :: float32

definition vector2_eq :: "float_ops \<Rightarrow> vector2_t \<Rightarrow> vector2_t \<Rightarrow> bool" where
  "vector2_eq F a b \<longleftrightarrow> fl_eq F (v2_x a) (v2_x b) \<and> fl_eq F (v2_y a) (v2_y b)"

definition vector2_add :: "float_ops \<Rightarrow> vector2_t \<Rightarrow> vector2_t \<Rightarrow> vector2_t" where
  "vector2_add F a b = \<lparr>v2_x = fl_add F (v2_x a) (v2_x b), v2_y = fl_add F (v2_y a) (v2_y b)\<rparr>"

definition vector2_sub :: "float_ops \<Rightarrow> vector2_t \<Rightarrow> vector2_t \<Rightarrow> vector2_t" where
  "vector2_sub F a b = \<lparr>v2_x = fl_sub F (v2_x a) (v2_x b), v2_y = fl_sub F (v2_y a) (v2_y b)\<rparr>"

definition vector2_distance :: "float_ops \<Rightarrow> vector2_t \<Rightarrow> float32 \<Rightarrow> float32 \<Rightarrow> float32" where
  "vector2_distance F a x y =
    (let value_x = fl_sub F (v2_x a) x; value_y = fl_sub F (v2_y a) y
     in fl_sqrt F (fl_add F (fl_mul F value_x value_x) (fl_mul F value_y value_y)))"

definition vector3_eq :: "float_ops \<Rightarrow> vector3_t \<Rightarrow> vector3_t \<Rightarrow> bool" where
  "vector3_eq F a b \<longleftrightarrow> fl_eq F (v3_x a) (v3_x b) \<and> fl_eq F (v3_y a) (v3_y b) \<and> fl_eq F (v3_z a) (v3_z b)"

definition vector3_add :: "float_ops \<Rightarrow> vector3_t \<Rightarrow> vector3_t \<Rightarrow> vector3_t" where
  "vector3_add F a b =
    \<lparr>v3_x = fl_add F (v3_x a) (v3_x b), v3_y = fl_add F (v3_y a) (v3_y b), v3_z = fl_add F (v3_z a) (v3_z b)\<rparr>"

definition vector3_sub :: "float_ops \<Rightarrow> vector3_t \<Rightarrow> vector3_t \<Rightarrow> vector3_t" where
  "vector3_sub F a b =
    \<lparr>v3_x = fl_sub F (v3_x a) (v3_x b), v3_y = fl_sub F (v3_y a) (v3_y b), v3_z = fl_sub F (v3_z a) (v3_z b)\<rparr>"

definition rect_eq :: "float_ops \<Rightarrow> rect_t \<Rightarrow> rect_t \<Rightarrow> bool" where
  "rect_eq F a b \<longleftrightarrow> fl_eq F (rc_x a) (rc_x b) \<and> fl_eq F (rc_y a) (rc_y b) \<and> fl_eq F (rc_w a) (rc_w b) \<and> fl_eq F (rc_h a) (rc_h b)"

section \<open>One value\<close>

datatype vartype_t = TYPE_UNUSED | TYPE_FLOAT | TYPE_STRING | TYPE_VECTOR2 | TYPE_VECTOR3 | TYPE_UINT32
  | TYPE_ENTITY | TYPE_COMPONENT | TYPE_RECT | TYPE_INT32

fun vartype_number :: "vartype_t \<Rightarrow> u8" where
  "vartype_number TYPE_UNUSED = 0"
| "vartype_number TYPE_FLOAT = 1"
| "vartype_number TYPE_STRING = 2"
| "vartype_number TYPE_VECTOR2 = 3"
| "vartype_number TYPE_VECTOR3 = 4"
| "vartype_number TYPE_UINT32 = 5"
| "vartype_number TYPE_ENTITY = 6"
| "vartype_number TYPE_COMPONENT = 7"
| "vartype_number TYPE_RECT = 8"
| "vartype_number TYPE_INT32 = 9"

text \<open>\<open>vt_var\<close> is the union of 16 bytes.\<close>

record variant_t =
  vt_type :: vartype_t
  vt_pointer :: size_t
  vt_var :: "u8 list"
  vt_string :: string

definition C_VAR_SPACE_BYTES :: nat where "C_VAR_SPACE_BYTES = 16"

text \<open>The members the constructor does not set have whatever value the memory had.\<close>

definition set_defaults :: "variant_t \<Rightarrow> variant_t" where
  "set_defaults v = v\<lparr>vt_type := TYPE_UNUSED\<rparr>"

definition variant_reset :: "variant_t \<Rightarrow> variant_t" where
  "variant_reset v = v\<lparr>vt_type := TYPE_UNUSED\<rparr>"

definition put_var :: "u8 list \<Rightarrow> variant_t \<Rightarrow> variant_t" where
  "put_var bs v = v\<lparr>vt_var := bs @ drop (length bs) (vt_var v)\<rparr>"

definition vector2_bytes :: "vector2_t \<Rightarrow> u8 list" where
  "vector2_bytes a = le32 (v2_x a) @ le32 (v2_y a)"

definition vector3_bytes :: "vector3_t \<Rightarrow> u8 list" where
  "vector3_bytes a = le32 (v3_x a) @ le32 (v3_y a) @ le32 (v3_z a)"

definition rect_bytes :: "rect_t \<Rightarrow> u8 list" where
  "rect_bytes a = le32 (rc_x a) @ le32 (rc_y a) @ le32 (rc_w a) @ le32 (rc_h a)"

definition set_float :: "float32 \<Rightarrow> variant_t \<Rightarrow> variant_t" where
  "set_float x v = put_var (le32 x) (v\<lparr>vt_type := TYPE_FLOAT\<rparr>)"

definition set_uint32 :: "u32 \<Rightarrow> variant_t \<Rightarrow> variant_t" where
  "set_uint32 x v = put_var (le32 x) (v\<lparr>vt_type := TYPE_UINT32\<rparr>)"

text \<open>An \<^verbatim>\<open>int32_t\<close> is the word of its 32 bits.\<close>

definition set_int32 :: "u32 \<Rightarrow> variant_t \<Rightarrow> variant_t" where
  "set_int32 x v = put_var (le32 x) (v\<lparr>vt_type := TYPE_INT32\<rparr>)"

definition set_string :: "string \<Rightarrow> variant_t \<Rightarrow> variant_t" where
  "set_string s v = v\<lparr>vt_type := TYPE_STRING, vt_string := s\<rparr>"

definition set_vector2 :: "vector2_t \<Rightarrow> variant_t \<Rightarrow> variant_t" where
  "set_vector2 a v = put_var (vector2_bytes a) (v\<lparr>vt_type := TYPE_VECTOR2\<rparr>)"

definition set_vector3 :: "vector3_t \<Rightarrow> variant_t \<Rightarrow> variant_t" where
  "set_vector3 a v = put_var (vector3_bytes a) (v\<lparr>vt_type := TYPE_VECTOR3\<rparr>)"

definition set_rect :: "rect_t \<Rightarrow> variant_t \<Rightarrow> variant_t" where
  "set_rect a v = put_var (rect_bytes a) (v\<lparr>vt_type := TYPE_RECT\<rparr>)"

text \<open>The getters of a constant value; the other ones first make an unused value a zero.\<close>

definition float_of :: "variant_t \<Rightarrow> float32" where "float_of v = rd32 (vt_var v)"
definition uint32_of :: "variant_t \<Rightarrow> u32" where "uint32_of v = rd32 (vt_var v)"
definition int32_of :: "variant_t \<Rightarrow> u32" where "int32_of v = rd32 (vt_var v)"

definition vector2_of :: "variant_t \<Rightarrow> vector2_t" where
  "vector2_of v = \<lparr>v2_x = rd32 (vt_var v), v2_y = rd32 (drop 4 (vt_var v))\<rparr>"

definition vector3_of :: "variant_t \<Rightarrow> vector3_t" where
  "vector3_of v = \<lparr>v3_x = rd32 (vt_var v), v3_y = rd32 (drop 4 (vt_var v)), v3_z = rd32 (drop 8 (vt_var v))\<rparr>"

definition rect_of :: "variant_t \<Rightarrow> rect_t" where
  "rect_of v = \<lparr>rc_x = rd32 (vt_var v), rc_y = rd32 (drop 4 (vt_var v)), rc_w = rd32 (drop 8 (vt_var v)), rc_h = rd32 (drop 12 (vt_var v))\<rparr>"

definition when_unused :: "(variant_t \<Rightarrow> variant_t) \<Rightarrow> variant_t \<Rightarrow> variant_t" where
  "when_unused f v = (if vt_type v = TYPE_UNUSED then f v else v)"

definition get_float :: "variant_t \<Rightarrow> float32 \<times> variant_t" where
  "get_float v = (let v = when_unused (set_float 0) v in (float_of v, v))"

definition get_int32 :: "variant_t \<Rightarrow> u32 \<times> variant_t" where
  "get_int32 v = (let v = when_unused (set_int32 0) v in (int32_of v, v))"

definition get_uint32 :: "variant_t \<Rightarrow> u32 \<times> variant_t" where
  "get_uint32 v = (let v = when_unused (set_uint32 0) v in (uint32_of v, v))"

definition get_string :: "variant_t \<Rightarrow> string" where
  "get_string v = vt_string v"

definition get_vector2 :: "variant_t \<Rightarrow> vector2_t \<times> variant_t" where
  "get_vector2 v = (let v = when_unused (set_vector2 \<lparr>v2_x = 0, v2_y = 0\<rparr>) v in (vector2_of v, v))"

definition get_vector3 :: "variant_t \<Rightarrow> vector3_t \<times> variant_t" where
  "get_vector3 v = (let v = when_unused (set_vector3 \<lparr>v3_x = 0, v3_y = 0, v3_z = 0\<rparr>) v in (vector3_of v, v))"

definition get_rect :: "variant_t \<Rightarrow> rect_t \<times> variant_t" where
  "get_rect v = (let v = when_unused (set_rect \<lparr>rc_x = 0, rc_y = 0, rc_w = 0, rc_h = 0\<rparr>) v in (rect_of v, v))"

text \<open>\<^verbatim>\<open>set(const variant_t&)\<close>\<close>

definition set_variant :: "variant_t \<Rightarrow> variant_t \<Rightarrow> variant_t" where
  "set_variant v this =
    (case vt_type v of
       TYPE_FLOAT \<Rightarrow> set_float (float_of v) this
     | TYPE_STRING \<Rightarrow> set_string (vt_string v) this
     | TYPE_VECTOR2 \<Rightarrow> set_vector2 (vector2_of v) this
     | TYPE_VECTOR3 \<Rightarrow> set_vector3 (vector3_of v) this
     | TYPE_UINT32 \<Rightarrow> set_uint32 (uint32_of v) this
     | TYPE_INT32 \<Rightarrow> set_int32 (int32_of v) this
     | TYPE_RECT \<Rightarrow> set_rect (rect_of v) this
     | _ \<Rightarrow> this)"

text \<open>\<^verbatim>\<open>operator=\<close>\<close>

definition variant_assign :: "variant_t \<Rightarrow> variant_t \<Rightarrow> variant_t" where
  "variant_assign rhs this = this\<lparr>vt_type := vt_type rhs, vt_pointer := vt_pointer rhs,
     vt_var := take C_VAR_SPACE_BYTES (vt_var rhs), vt_string := vt_string rhs\<rparr>"

text \<open>The copy constructor, and those from a value, over the memory of the object.\<close>

definition variant_copy :: "variant_t \<Rightarrow> variant_t \<Rightarrow> variant_t" where
  "variant_copy v mem = variant_assign v (set_defaults mem)"

definition variant_from :: "(variant_t \<Rightarrow> variant_t) \<Rightarrow> variant_t \<Rightarrow> variant_t" where
  "variant_from setter mem = setter (set_defaults mem)"

definition int32_fits :: "int \<Rightarrow> bool" where
  "int32_fits i \<longleftrightarrow> - 2147483648 \<le> i \<and> i \<le> 2147483647"

definition int32_op :: "int \<Rightarrow> u32 option" where
  "int32_op i = (if int32_fits i then Some (of_int i) else None)"

text \<open>\<^verbatim>\<open>operator+=\<close> and \<^verbatim>\<open>operator-=\<close>\<close>

definition variant_plus :: "float_ops \<Rightarrow> variant_t \<Rightarrow> variant_t \<Rightarrow> variant_t option" where
  "variant_plus F rhs this =
    (if vt_type this = vt_type rhs then
       (case vt_type this of
          TYPE_FLOAT \<Rightarrow> Some (set_float (fl_add F (float_of this) (float_of rhs)) this)
        | TYPE_STRING \<Rightarrow> Some (set_string (vt_string this @ vt_string rhs) this)
        | TYPE_VECTOR2 \<Rightarrow> Some (set_vector2 (vector2_add F (vector2_of this) (vector2_of rhs)) this)
        | TYPE_VECTOR3 \<Rightarrow> Some (set_vector3 (vector3_add F (vector3_of this) (vector3_of rhs)) this)
        | TYPE_UINT32 \<Rightarrow> Some (set_uint32 (uint32_of this + uint32_of rhs) this)
        | TYPE_INT32 \<Rightarrow> map_option (\<lambda>x. set_int32 x this) (int32_op (sint (int32_of this) + sint (int32_of rhs)))
        | _ \<Rightarrow> Some this)
     else Some this)"

definition variant_minus :: "float_ops \<Rightarrow> variant_t \<Rightarrow> variant_t \<Rightarrow> variant_t option" where
  "variant_minus F rhs this =
    (if vt_type this = vt_type rhs then
       (case vt_type this of
          TYPE_FLOAT \<Rightarrow> Some (set_float (fl_sub F (float_of this) (float_of rhs)) this)
        | TYPE_VECTOR2 \<Rightarrow> Some (set_vector2 (vector2_sub F (vector2_of this) (vector2_of rhs)) this)
        | TYPE_VECTOR3 \<Rightarrow> Some (set_vector3 (vector3_sub F (vector3_of this) (vector3_of rhs)) this)
        | TYPE_UINT32 \<Rightarrow> Some (set_uint32 (uint32_of this - uint32_of rhs) this)
        | TYPE_INT32 \<Rightarrow> map_option (\<lambda>x. set_int32 x this) (int32_op (sint (int32_of this) - sint (int32_of rhs)))
        | _ \<Rightarrow> Some this)
     else Some this)"

text \<open>\<^verbatim>\<open>operator==\<close>\<close>

definition variant_eq :: "float_ops \<Rightarrow> variant_t \<Rightarrow> variant_t \<Rightarrow> bool" where
  "variant_eq F this rhs \<longleftrightarrow> vt_type this = vt_type rhs \<and>
    (case vt_type this of
       TYPE_UNUSED \<Rightarrow> True
     | TYPE_FLOAT \<Rightarrow> fl_eq F (float_of this) (float_of rhs)
     | TYPE_STRING \<Rightarrow> vt_string this = vt_string rhs
     | TYPE_VECTOR2 \<Rightarrow> vector2_eq F (vector2_of this) (vector2_of rhs)
     | TYPE_VECTOR3 \<Rightarrow> vector3_eq F (vector3_of this) (vector3_of rhs)
     | TYPE_UINT32 \<Rightarrow> uint32_of this = uint32_of rhs
     | TYPE_RECT \<Rightarrow> rect_eq F (rect_of this) (rect_of rhs)
     | TYPE_INT32 \<Rightarrow> int32_of this = int32_of rhs
     | _ \<Rightarrow> False)"

section \<open>Printing\<close>

definition variant_print :: "float_ops \<Rightarrow> variant_t \<Rightarrow> string" where
  "variant_print F v =
    (case vt_type v of
       TYPE_FLOAT \<Rightarrow> fl_show F (float_of v)
     | TYPE_STRING \<Rightarrow> vt_string v
     | TYPE_VECTOR2 \<Rightarrow> ''x: '' @ fl_show F (v2_x (vector2_of v)) @ '' y: '' @ fl_show F (v2_y (vector2_of v))
     | TYPE_VECTOR3 \<Rightarrow> ''x: '' @ fl_show F (v3_x (vector3_of v)) @ '' y: '' @ fl_show F (v3_y (vector3_of v))
         @ '' z: '' @ fl_show F (v3_z (vector3_of v))
     | TYPE_UINT32 \<Rightarrow> show_int (uint (uint32_of v))
     | TYPE_INT32 \<Rightarrow> show_int (sint (int32_of v))
     | TYPE_RECT \<Rightarrow> ''x: '' @ fl_show F (rc_x (rect_of v)) @ '' y: '' @ fl_show F (rc_y (rect_of v))
         @ '' w: '' @ fl_show F (rc_w (rect_of v)) @ '' h: '' @ fl_show F (rc_h (rect_of v))
     | TYPE_ENTITY \<Rightarrow> ''unused''
     | TYPE_COMPONENT \<Rightarrow> ''unused''
     | TYPE_UNUSED \<Rightarrow> ''unused'')"

section \<open>The list of parameters\<close>

definition C_MAX_VARIANT_LIST_PARMS :: nat where "C_MAX_VARIANT_LIST_PARMS = 7"

text \<open>The array \<^verbatim>\<open>m_variant\<close>, which has \<^verbatim>\<open>C_MAX_VARIANT_LIST_PARMS\<close> elements.\<close>

type_synonym variantlist_t = "variant_t list"

definition variantlist_get :: "int \<Rightarrow> variantlist_t \<Rightarrow> variant_t option" where
  "variantlist_get n l = (if n < 0 \<or> n \<ge> int C_MAX_VARIANT_LIST_PARMS then None else Some (l ! nat n))"

text \<open>The constructors, with the parameters that are given; the others stay as constructed.\<close>

definition variantlist_of :: "variant_t list \<Rightarrow> variantlist_t \<Rightarrow> variantlist_t" where
  "variantlist_of vs l = map2 variant_assign vs (take (length vs) l) @ drop (length vs) l"

definition variantlist_reset :: "variantlist_t \<Rightarrow> variantlist_t" where
  "variantlist_reset l = map variant_reset l"

fun size_of_variant :: "vartype_t \<Rightarrow> int" where
  "size_of_variant TYPE_UNUSED = 0"
| "size_of_variant TYPE_COMPONENT = 0"
| "size_of_variant TYPE_ENTITY = 0"
| "size_of_variant TYPE_UINT32 = 4"
| "size_of_variant TYPE_INT32 = 4"
| "size_of_variant TYPE_FLOAT = 4"
| "size_of_variant TYPE_VECTOR2 = 8"
| "size_of_variant TYPE_VECTOR3 = 12"
| "size_of_variant TYPE_RECT = 16"
| "size_of_variant TYPE_STRING = 0"

text \<open>The sizes are of type \<^verbatim>\<open>int\<close>: that of a string is converted to it, their sum may overflow.\<close>

definition var_size :: "variant_t \<Rightarrow> int" where
  "var_size v = (if vt_type v = TYPE_STRING then sint (of_nat (length (vt_string v)) + 4 :: u32)
                 else size_of_variant (vt_type v))"

definition int_plus :: "int \<Rightarrow> int \<Rightarrow> int option" where
  "int_plus a b = (if int32_fits (a + b) then Some (a + b) else None)"

fun count_used :: "variantlist_t \<Rightarrow> int \<Rightarrow> int \<Rightarrow> (int \<times> int) option" where
  "count_used [] vars_used mem_needed = Some (vars_used, mem_needed)"
| "count_used (v # vs) vars_used mem_needed =
    (if var_size v > 0
     then (case int_plus mem_needed (var_size v) of None \<Rightarrow> None | Some m \<Rightarrow> count_used vs (vars_used + 1) m)
     else count_used vs vars_used mem_needed)"

definition total_size :: "variantlist_t \<Rightarrow> (int \<times> int) option" where
  "total_size l = (case count_used l 0 0 of None \<Rightarrow> None | Some (vars_used, mem_needed) \<Rightarrow>
     (case int_plus mem_needed 1 of None \<Rightarrow> None | Some m \<Rightarrow>
       map_option (\<lambda>tot. (vars_used, tot)) (int_plus m (vars_used * 2))))"

definition get_mem_needed :: "variantlist_t \<Rightarrow> u32 option" where
  "get_mem_needed l = map_option (\<lambda>(vars_used, tot). of_int tot) (total_size l)"

fun serialize_params :: "nat \<Rightarrow> variantlist_t \<Rightarrow> u8 list" where
  "serialize_params idx [] = []"
| "serialize_params idx (v # vs) =
    (if vt_type v = TYPE_STRING then
       let len = of_nat (length (vt_string v)) :: u32
       in [of_nat idx, vartype_number (vt_type v)] @ le32 len @ string_bytes (take (unat len) (vt_string v))
     else if size_of_variant (vt_type v) > 0
     then [of_nat idx, vartype_number (vt_type v)] @ take (nat (size_of_variant (vt_type v))) (vt_var v)
     else []) @ serialize_params (idx + 1) vs"

text \<open>
  The memory written to is the caller's, or an array of \<^verbatim>\<open>total\<close> bytes from \<^verbatim>\<open>new\<close> whose contents
  are the argument \<open>fresh\<close>. The result is that memory with the size.
\<close>

definition serialize_to_mem :: "variantlist_t \<Rightarrow> u8 list option \<Rightarrow> (nat \<Rightarrow> u8 list) \<Rightarrow> (u8 list \<times> u32) option" where
  "serialize_to_mem l data fresh =
    (case total_size l of None \<Rightarrow> None | Some (vars_used, tot) \<Rightarrow>
       if data = None \<and> tot < 0 then None
       else
         let mem = (case data of None \<Rightarrow> fresh (nat tot) | Some mem \<Rightarrow> mem);
             bs = of_int vars_used # serialize_params 0 l
         in if length bs > length mem then None else Some (bs @ drop (length bs) mem, of_int tot))"

definition take_bytes :: "nat \<Rightarrow> u8 list \<Rightarrow> (u8 list \<times> u8 list) option" where
  "take_bytes n p = (if length p < n then None else Some (take n p, drop n p))"

definition set_param :: "u8 \<Rightarrow> (variant_t \<Rightarrow> variant_t) \<Rightarrow> variantlist_t \<Rightarrow> variantlist_t option" where
  "set_param index f l =
    (if unat index \<ge> C_MAX_VARIANT_LIST_PARMS then None else Some (l[unat index := f (l ! unat index)]))"

text \<open>The size of a parameter that is copied as it is, by the number of its type.\<close>

definition fixed_type :: "u8 \<Rightarrow> (nat \<times> vartype_t) option" where
  "fixed_type n =
    (if n = 5 then Some (4, TYPE_UINT32) else if n = 9 then Some (4, TYPE_INT32) else if n = 1 then Some (4, TYPE_FLOAT)
     else if n = 3 then Some (8, TYPE_VECTOR2) else if n = 4 then Some (12, TYPE_VECTOR3) else if n = 8 then Some (16, TYPE_RECT)
     else None)"

text \<open>The rounds of the loop: the rest of the data, or nothing where a type is unknown.\<close>

fun read_params :: "nat \<Rightarrow> u8 list \<Rightarrow> variantlist_t \<Rightarrow> (u8 list option \<times> variantlist_t) option" where
  "read_params 0 p l = Some (Some p, l)"
| "read_params (Suc n) p l =
    (case take_bytes 2 p of None \<Rightarrow> None | Some (h, p) \<Rightarrow>
       let index = h ! 0; type = h ! 1
       in if type = 2 then
            (case take_bytes 4 p of None \<Rightarrow> None | Some (len, p) \<Rightarrow>
               (case take_bytes (unat (rd32 len)) p of None \<Rightarrow> None | Some (v, p) \<Rightarrow>
                  (case set_param index (set_string (bytes_string v)) l of None \<Rightarrow> None | Some l \<Rightarrow> read_params n p l)))
          else
            (case fixed_type type of
               None \<Rightarrow> Some (None, l)
             | Some (sz, t) \<Rightarrow>
                 (case take_bytes sz p of None \<Rightarrow> None | Some (v, p) \<Rightarrow>
                    (case set_param index (\<lambda>x. put_var v (x\<lparr>vt_type := t\<rparr>)) l of None \<Rightarrow> None | Some l \<Rightarrow> read_params n p l))))"

text \<open>Whether it succeeded, and what \<^verbatim>\<open>* read\<close> is set to.\<close>

definition serialize_from_mem :: "u8 list \<Rightarrow> variantlist_t \<Rightarrow> (bool \<times> int \<times> variantlist_t) option" where
  "serialize_from_mem data l =
    (case data of [] \<Rightarrow> None | count # p \<Rightarrow>
       (case read_params (unat count) p l of
          None \<Rightarrow> None
        | Some (None, l) \<Rightarrow> Some (False, 0, l)
        | Some (Some p, l) \<Rightarrow> Some (True, int (length data) - int (length p), l)))"

fun print_params :: "float_ops \<Rightarrow> nat \<Rightarrow> variantlist_t \<Rightarrow> string" where
  "print_params F i [] = []"
| "print_params F i (v # vs) =
    (if vt_type v = TYPE_UNUSED then []
     else ''param '' @ show_int (int i) @ '': '' @ variant_print F v @ [CHR 0x0A]) @ print_params F (i + 1) vs"

definition variantlist_print :: "float_ops \<Rightarrow> variantlist_t \<Rightarrow> string" where
  "variantlist_print F l = (let s = print_params F 0 l in if s = [] then ''(none)'' else s)"

section \<open>The serialised form\<close>

text \<open>
  Strings of less than 128 MB, as the sizes are added up in an \<^verbatim>\<open>int\<close>; unions of 16 bytes.
\<close>

definition param_ok :: "variant_t \<Rightarrow> bool" where
  "param_ok v \<longleftrightarrow> length (vt_var v) = C_VAR_SPACE_BYTES \<and> length (vt_string v) < 134217728"

text \<open>Whether a parameter is sent, and what of it.\<close>

definition is_sent :: "variant_t \<Rightarrow> bool" where
  "is_sent v \<longleftrightarrow> vt_type v = TYPE_STRING \<or> size_of_variant (vt_type v) > 0"

definition same_value :: "variant_t \<Rightarrow> variant_t \<Rightarrow> bool" where
  "same_value v w \<longleftrightarrow> vt_type v = vt_type w \<and>
     (if vt_type v = TYPE_STRING then vt_string v = vt_string w
      else take (nat (size_of_variant (vt_type v))) (vt_var v) = take (nat (size_of_variant (vt_type v))) (vt_var w))"

definition sent_size :: "variant_t \<Rightarrow> nat" where
  "sent_size v = (if vt_type v = TYPE_STRING then length (vt_string v) + 4 else nat (size_of_variant (vt_type v)))"

lemma size_of_variant_bounds: "0 \<le> size_of_variant t \<and> size_of_variant t \<le> 16"
  by (cases t) simp_all

lemma var_size_sent: "param_ok v \<Longrightarrow> var_size v = int (sent_size v) \<and> sent_size v \<le> 134217732 \<and> (is_sent v \<longleftrightarrow> sent_size v > 0)"
proof -
  assume v: "param_ok v"
  show ?thesis
  proof (cases "vt_type v = TYPE_STRING")
    case True
    have l: "length (vt_string v) < 134217728" using v by (simp add: param_ok_def)
    have "(of_nat (length (vt_string v)) + 4 :: u32) = of_nat (length (vt_string v) + 4)" by simp
    moreover have "sint (of_nat (length (vt_string v) + 4) :: u32) = int (length (vt_string v) + 4)"
      using l by (simp add: sint_uint signed_take_bit_int_eq_self uint_nat unsigned_of_nat take_bit_nat_eq_self del: of_nat_add)
    ultimately show ?thesis using True l by (simp add: var_size_def sent_size_def is_sent_def del: of_nat_add)
  next
    case False
    then show ?thesis using size_of_variant_bounds [of "vt_type v"]
      by (auto simp: var_size_def sent_size_def is_sent_def)
  qed
qed

definition used_params :: "variantlist_t \<Rightarrow> nat" where
  "used_params l = length (filter is_sent l)"

lemma count_used_sum:
  "list_all param_ok l \<Longrightarrow> 0 \<le> m \<Longrightarrow> m + 134217732 * int (length l) \<le> 2147483647 \<Longrightarrow>
   count_used l u m = Some (u + int (used_params l), m + int (sum_list (map sent_size l)))"
proof (induction l arbitrary: u m)
  case (Cons v l)
  have v: "var_size v = int (sent_size v)" "sent_size v \<le> 134217732" "is_sent v \<longleftrightarrow> sent_size v > 0"
    using var_size_sent [of v] Cons.prems(1) by simp_all
  have "count_used l u m = Some (u + int (used_params l), m + int (sum_list (map sent_size l)))" for u
    using Cons by simp
  moreover have "count_used l u (m + int (sent_size v)) = Some (u + int (used_params l), m + int (sent_size v) + int (sum_list (map sent_size l)))" for u
    by (rule Cons.IH) (use Cons.prems v(2) in simp_all)
  moreover have "int_plus m (int (sent_size v)) = Some (m + int (sent_size v))"
    using Cons.prems(2,3) v(2) by (simp add: int_plus_def int32_fits_def)
  ultimately show ?case using v by (simp add: used_params_def)
qed (simp add: used_params_def)

lemma short_len: "param_ok v \<Longrightarrow> unat (of_nat (length (vt_string v)) :: u32) = length (vt_string v)"
  by (simp add: param_ok_def unsigned_of_nat take_bit_nat_eq_self)

lemma length_serialize_params:
  "list_all param_ok l \<Longrightarrow> length (serialize_params idx l) = 2 * used_params l + sum_list (map sent_size l)"
proof (induction l arbitrary: idx)
  case (Cons v l)
  have "param_ok v" using Cons.prems by simp
  moreover have "nat (size_of_variant (vt_type v)) \<le> 16" using size_of_variant_bounds [of "vt_type v"] by linarith
  ultimately show ?case using Cons
    by (auto simp: short_len used_params_def is_sent_def sent_size_def param_ok_def C_VAR_SPACE_BYTES_def Let_def)
qed (simp add: used_params_def)

lemma sum_sent_size: "list_all param_ok l \<Longrightarrow> sum_list (map sent_size l) \<le> 134217732 * length l"
proof (induction l)
  case (Cons v l)
  then have "sent_size v \<le> 134217732" using var_size_sent [of v] by simp
  then show ?case using Cons by simp
qed simp

lemma used_le: "used_params l \<le> length l"
  by (simp add: used_params_def)

text \<open>The size that is announced is the number of bytes written.\<close>

lemma total_size_written:
  assumes ok: "list_all param_ok l" and l: "length l = C_MAX_VARIANT_LIST_PARMS"
  shows "total_size l = Some (int (used_params l), int (Suc (length (serialize_params 0 l))))"
    and "used_params l \<le> 7" "length (serialize_params 0 l) < 2147483647"
proof -
  have n: "length l = 7" using l by (simp add: C_MAX_VARIANT_LIST_PARMS_def)
  have s: "sum_list (map sent_size l) \<le> 939524124" using sum_sent_size [OF ok] n by simp
  show u: "used_params l \<le> 7" using used_le [of l] n by simp
  have c: "count_used l 0 0 = Some (int (used_params l), int (sum_list (map sent_size l)))"
    using count_used_sum [OF ok, of 0 0] n by simp
  show "total_size l = Some (int (used_params l), int (Suc (length (serialize_params 0 l))))"
    using s u by (simp add: total_size_def c length_serialize_params [OF ok] int_plus_def int32_fits_def)
  show "length (serialize_params 0 l) < 2147483647" using s u by (simp add: length_serialize_params [OF ok])
qed

lemma take_bytes_app [simp]: "length xs = n \<Longrightarrow> take_bytes n (xs @ ys) = Some (xs, ys)"
  by (simp add: take_bytes_def)

lemma take_two [simp]: "take_bytes 2 (x # y # zs) = Some ([x, y], zs)"
  by (simp add: take_bytes_def numeral_2_eq_2)

lemma fixed_type_number: "size_of_variant t > 0 \<Longrightarrow> fixed_type (vartype_number t) = Some (nat (size_of_variant t), t) \<and> vartype_number t \<noteq> 2"
  by (cases t) (simp_all add: fixed_type_def)

lemma index_byte: "idx < 7 \<Longrightarrow> unat (of_nat idx :: u8) = idx"
  by (simp add: unsigned_of_nat take_bit_nat_eq_self)

lemma read_string_param:
  assumes "idx < 7" "length s < 4294967296"
  shows "read_params (Suc n) ([of_nat idx, 2] @ le32 (of_nat (length s)) @ string_bytes s @ p) l
    = read_params n p (l[idx := set_string s (l ! idx)])"
proof -
  have "rd32 (le32 (of_nat (length s))) = of_nat (length s)" using rd32_le32 [of _ "[]"] by simp
  moreover have "unat (of_nat (length s) :: u32) = length s" using assms(2) by (simp add: unsigned_of_nat take_bit_nat_eq_self)
  ultimately show ?thesis using assms(1) by (simp add: set_param_def index_byte C_MAX_VARIANT_LIST_PARMS_def)
qed

lemma read_fixed_param:
  assumes "idx < 7" "size_of_variant t > 0" "length bs = nat (size_of_variant t)"
  shows "read_params (Suc n) ([of_nat idx, vartype_number t] @ bs @ p) l
    = read_params n p (l[idx := put_var bs ((l ! idx)\<lparr>vt_type := t\<rparr>)])"
  using assms fixed_type_number [OF assms(2)] by (simp add: set_param_def index_byte C_MAX_VARIANT_LIST_PARMS_def)

lemma same_value_put:
  "size_of_variant (vt_type v) > 0 \<Longrightarrow> length (vt_var v) = 16 \<Longrightarrow>
   same_value v (put_var (take (nat (size_of_variant (vt_type v))) (vt_var v)) (x\<lparr>vt_type := vt_type v\<rparr>))"
  using size_of_variant_bounds [of "vt_type v"] by (auto simp: same_value_def put_var_def)

text \<open>What is read back into the parameter of each index.\<close>

definition received :: "nat \<Rightarrow> variantlist_t \<Rightarrow> variantlist_t \<Rightarrow> variantlist_t \<Rightarrow> bool" where
  "received idx l l0 l1 \<longleftrightarrow> length l1 = length l0 \<and> (\<forall>k < length l0.
     if idx \<le> k \<and> k < idx + length l \<and> is_sent (l ! (k - idx)) then same_value (l ! (k - idx)) (l1 ! k) else l1 ! k = l0 ! k)"

lemma received_Cons:
  assumes "received (Suc idx) l l0' l1" "idx < length l0"
    and "if is_sent v then l0' = l0[idx := x] \<and> same_value v x else l0' = l0"
  shows "received idx (v # l) l0 l1"
  unfolding received_def
proof (intro conjI allI impI)
  show "length l1 = length l0" using assms(1,3) by (auto simp: received_def split: if_splits)
  fix k assume k: "k < length l0"
  then have r: "if Suc idx \<le> k \<and> k < Suc idx + length l \<and> is_sent (l ! (k - Suc idx))
      then same_value (l ! (k - Suc idx)) (l1 ! k) else l1 ! k = l0' ! k"
    using assms(1,3) by (auto simp: received_def split: if_splits)
  consider "k < idx" | "k = idx" | j where "k = Suc (idx + j)" using less_iff_Suc_add nat_neq_iff by metis
  then show "if idx \<le> k \<and> k < idx + length (v # l) \<and> is_sent ((v # l) ! (k - idx))
      then same_value ((v # l) ! (k - idx)) (l1 ! k) else l1 ! k = l0 ! k"
  proof cases
    case 1
    then show ?thesis using r assms(3) by (auto split: if_splits)
  next
    case 2
    then show ?thesis using r assms(2,3) by (auto split: if_splits)
  next
    case 3
    then show ?thesis using r assms(3) by (auto split: if_splits)
  qed
qed

lemma read_serialized:
  "list_all param_ok l \<Longrightarrow> idx + length l \<le> 7 \<Longrightarrow> length l0 = 7 \<Longrightarrow>
   \<exists>l1. read_params (used_params l) (serialize_params idx l @ p) l0 = Some (Some p, l1) \<and> received idx l l0 l1"
proof (induction l arbitrary: idx l0)
  case Nil
  then show ?case by (auto simp: used_params_def received_def)
next
  case (Cons v l)
  have v: "param_ok v" and idx: "idx < 7" using Cons.prems by simp_all
  have step: "\<exists>l1. read_params (used_params l) (serialize_params (Suc idx) l @ p) l0' = Some (Some p, l1) \<and> received (Suc idx) l l0' l1"
    if "length l0' = 7" for l0' using Cons.IH [of "Suc idx" l0'] Cons.prems that by simp
  consider "vt_type v = TYPE_STRING" | "vt_type v \<noteq> TYPE_STRING" "size_of_variant (vt_type v) > 0" | "\<not> is_sent v"
    by (auto simp: is_sent_def)
  then show ?case
  proof cases
    case 1
    define x where "x = set_string (vt_string v) (l0 ! idx)"
    obtain l1 where l1: "read_params (used_params l) (serialize_params (Suc idx) l @ p) (l0[idx := x]) = Some (Some p, l1)"
      "received (Suc idx) l (l0[idx := x]) l1" using step [of "l0[idx := x]"] Cons.prems(3) by auto
    have sent: "is_sent v" "same_value v x" using 1 by (simp_all add: is_sent_def same_value_def x_def set_string_def)
    have len: "length (vt_string v) < 4294967296" using v by (simp add: param_ok_def)
    have "read_params (used_params (v # l)) (serialize_params idx (v # l) @ p) l0 = Some (Some p, l1)"
      using 1 sent(1) read_string_param [OF idx len, of "used_params l" "serialize_params (Suc idx) l @ p" l0] l1(1) short_len [OF v]
      by (simp add: used_params_def x_def Let_def del: read_params.simps)
    moreover have "received idx (v # l) l0 l1" by (rule received_Cons [OF l1(2)]) (use sent idx Cons.prems(3) in simp_all)
    ultimately show ?thesis by blast
  next
    case 2
    let ?bs = "take (nat (size_of_variant (vt_type v))) (vt_var v)"
    define x where "x = put_var ?bs ((l0 ! idx)\<lparr>vt_type := vt_type v\<rparr>)"
    obtain l1 where l1: "read_params (used_params l) (serialize_params (Suc idx) l @ p) (l0[idx := x]) = Some (Some p, l1)"
      "received (Suc idx) l (l0[idx := x]) l1" using step [of "l0[idx := x]"] Cons.prems(3) by auto
    have var: "length (vt_var v) = 16" using v by (simp add: param_ok_def C_VAR_SPACE_BYTES_def)
    have sent: "is_sent v" "same_value v x" using 2 same_value_put [OF 2(2) var] by (simp_all add: is_sent_def x_def)
    have "nat (size_of_variant (vt_type v)) \<le> 16" using size_of_variant_bounds [of "vt_type v"] by linarith
    then have "length ?bs = nat (size_of_variant (vt_type v))" using var by simp
    then have "read_params (used_params (v # l)) (serialize_params idx (v # l) @ p) l0 = Some (Some p, l1)"
      using 2 sent(1) read_fixed_param [OF idx 2(2), of ?bs "used_params l" "serialize_params (Suc idx) l @ p" l0] l1(1)
      by (simp add: used_params_def x_def Let_def del: read_params.simps)
    moreover have "received idx (v # l) l0 l1" by (rule received_Cons [OF l1(2)]) (use sent idx Cons.prems(3) in simp_all)
    ultimately show ?thesis by blast
  next
    case 3
    then have u: "used_params (v # l) = used_params l" "serialize_params idx (v # l) = serialize_params (Suc idx) l"
      by (auto simp: used_params_def is_sent_def)
    obtain l1 where l1: "read_params (used_params l) (serialize_params (Suc idx) l @ p) l0 = Some (Some p, l1)"
      "received (Suc idx) l l0 l1" using step [OF Cons.prems(3)] by auto
    have "received idx (v # l) l0 l1" by (rule received_Cons [OF l1(2)]) (use 3 idx Cons.prems(3) in simp_all)
    then show ?thesis using l1(1) unfolding u by blast
  qed
qed

section \<open>Properties\<close>

lemma variantlist_received:
  assumes "list_all param_ok l" "length l = C_MAX_VARIANT_LIST_PARMS" "length l0 = C_MAX_VARIANT_LIST_PARMS"
    and "serialize_to_mem l None fresh = Some (data, n)" "\<And>k. length (fresh k) = k"
  shows "\<exists>l1. serialize_from_mem (data @ rest) l0 = Some (True, uint n, l1) \<and> received 0 l l0 l1"
proof -
  have 7: "length l = 7" "length l0 = 7" using assms(2,3) by (simp_all add: C_MAX_VARIANT_LIST_PARMS_def)
  note t = total_size_written [OF assms(1,2)]
  have d: "data = of_nat (used_params l) # serialize_params 0 l" "n = of_nat (Suc (length (serialize_params 0 l)))"
    using assms(4,5) by (simp_all add: serialize_to_mem_def t(1) nat_add_distrib)
  have u: "unat (of_nat (used_params l) :: u8) = used_params l" using t(2) by (simp add: unsigned_of_nat take_bit_nat_eq_self)
  have n: "uint n = int (Suc (length (serialize_params 0 l)))"
    using t(3) by (simp add: d(2) uint_nat unsigned_of_nat take_bit_nat_eq_self del: of_nat_Suc)
  obtain l1 where "read_params (used_params l) (serialize_params 0 l @ rest) l0 = Some (Some rest, l1)" "received 0 l l0 l1"
    using read_serialized [OF assms(1), of 0 l0 rest] 7 by auto
  then show ?thesis by (simp add: serialize_from_mem_def d(1) u n)
qed

text \<open>
  C29: A serialised list of parameters, followed by anything, is read back into any other list:
  each parameter that was sent has its type and its value, the others are left alone, and as many
  bytes are consumed as were written.
\<close>

theorem variantlist_roundtrip:
  assumes "list_all param_ok l" "length l = C_MAX_VARIANT_LIST_PARMS" "length l0 = C_MAX_VARIANT_LIST_PARMS"
    and "serialize_to_mem l None fresh = Some (data, n)" "\<And>k. length (fresh k) = k"
  shows "\<exists>l1. serialize_from_mem (data @ rest) l0 = Some (True, uint n, l1) \<and> received 0 l l0 l1"
  by (rule variantlist_received [OF assms])



definition blank_variant :: variant_t where
  "blank_variant = \<lparr>vt_type = TYPE_UNUSED, vt_pointer = 0, vt_var = replicate 16 0, vt_string = []\<rparr>"

definition example_params :: variantlist_t where
  "example_params = variantlist_of [set_string ''Hi'' blank_variant, set_uint32 7 blank_variant] (replicate 7 blank_variant)"

lemma example_params_eq:
  "example_params = [set_string ''Hi'' blank_variant, set_uint32 7 blank_variant,
     blank_variant, blank_variant, blank_variant, blank_variant, blank_variant]"
  by (simp add: example_params_def variantlist_of_def variant_assign_def blank_variant_def set_string_def set_uint32_def put_var_def
      C_VAR_SPACE_BYTES_def eval_nat_numeral)

lemma example_params_ok: "list_all param_ok example_params" "length example_params = C_MAX_VARIANT_LIST_PARMS"
  by (simp_all add: example_params_eq param_ok_def blank_variant_def set_string_def set_uint32_def put_var_def
      C_VAR_SPACE_BYTES_def C_MAX_VARIANT_LIST_PARMS_def)

lemma example_params_sent:
  "serialize_to_mem example_params None (\<lambda>k. replicate k 0) = Some ([2, 0, 2, 2, 0, 0, 0, 72, 105, 1, 5, 7, 0, 0, 0], 15)"
  by (simp add: serialize_to_mem_def total_size_def example_params_eq blank_variant_def set_string_def set_uint32_def put_var_def
      var_size_def int_plus_def int32_fits_def le32_def string_bytes_def of_char_def Let_def)

theorem variantlist_roundtrip_witness:
  "\<exists>l1. serialize_from_mem ([2, 0, 2, 2, 0, 0, 0, 72, 105, 1, 5, 7, 0, 0, 0] @ [9, 9]) (replicate 7 blank_variant) = Some (True, uint (15 :: u32), l1)
     \<and> received 0 example_params (replicate 7 blank_variant) l1"
  by (rule variantlist_roundtrip [OF example_params_ok _ example_params_sent]) (simp_all add: C_MAX_VARIANT_LIST_PARMS_def)

text \<open>
  \<^verbatim>\<open>get_mem_needed\<close> is the number of bytes \<^verbatim>\<open>serialize_to_mem\<close> writes: a buffer of that size is
  filled exactly, and a shorter one is overrun.
\<close>

theorem variantlist_size_exact:
  assumes "list_all param_ok l" "length l = C_MAX_VARIANT_LIST_PARMS"
  shows "\<exists>n bs. get_mem_needed l = Some n \<and> length bs = unat n
    \<and> (\<forall>mem. serialize_to_mem l (Some mem) fresh = (if length mem < unat n then None else Some (bs @ drop (unat n) mem, n)))"
proof -
  note t = total_size_written [OF assms]
  let ?bs = "of_nat (used_params l) # serialize_params 0 l" and ?n = "of_nat (Suc (length (serialize_params 0 l))) :: u32"
  have n: "unat ?n = length ?bs" using t(3) by (simp add: unsigned_of_nat take_bit_nat_eq_self del: of_nat_Suc)
  have "get_mem_needed l = Some ?n" by (simp add: get_mem_needed_def t(1))
  moreover have "serialize_to_mem l (Some mem) fresh = (if length mem < unat ?n then None else Some (?bs @ drop (unat ?n) mem, ?n))" for mem
    unfolding n by (auto simp: serialize_to_mem_def t(1))
  ultimately show ?thesis using n by metis
qed

theorem variantlist_size_exact_witness:
  "\<exists>n bs. get_mem_needed example_params = Some n \<and> length bs = unat n
    \<and> (\<forall>mem. serialize_to_mem example_params (Some mem) (\<lambda>k. []) = (if length mem < unat n then None else Some (bs @ drop (unat n) mem, n)))"
  by (rule variantlist_size_exact [OF example_params_ok])

end
