(* ===== verification/Proxy_Packets.thy ===== *)
theory Proxy_Packets
  imports Proton_Variant
begin

text \<open>
  The game's packets (\<^verbatim>\<open>packet.h\<close>): how \<^verbatim>\<open>server.cpp\<close> builds the bytes it hands to ENet, and how
  \<^verbatim>\<open>utils.cpp\<close> casts received bytes to text and structures. \<^verbatim>\<open>None\<close> is an access outside the data.
\<close>

section \<open>Structures\<close>

record gameupdatepacket_t =
  gp_type :: u8
  gp_netid :: u8
  gp_jump_amount :: u8
  gp_count :: u8
  gp_player_flags :: u32
  gp_item :: u32
  gp_packet_flags :: u32
  gp_struct_flags :: float32
  gp_int_data :: u32
  gp_vec_x :: float32
  gp_vec_y :: float32
  gp_vec2_x :: float32
  gp_vec2_y :: float32
  gp_particle_time :: float32
  gp_state1 :: u32
  gp_state2 :: u32
  gp_data_size :: u32
  gp_data :: u32

definition sizeof_gameupdatepacket :: nat where "sizeof_gameupdatepacket = 60"
definition sizeof_gametextpacket :: nat where "sizeof_gametextpacket = 5"

definition PACKET_STATE :: u8 where "PACKET_STATE = 0"
definition PACKET_CALL_FUNCTION :: u8 where "PACKET_CALL_FUNCTION = 1"
definition PACKET_SEND_MAP_DATA :: u8 where "PACKET_SEND_MAP_DATA = 4"
definition PACKET_SEND_INVENTORY_STATE :: u8 where "PACKET_SEND_INVENTORY_STATE = 9"
definition PACKET_PING_REPLY :: u8 where "PACKET_PING_REPLY = 21"
definition PACKET_PING_REQUEST :: u8 where "PACKET_PING_REQUEST = 22"
definition PACKET_APP_INTEGRITY_FAIL :: u8 where "PACKET_APP_INTEGRITY_FAIL = 25"
definition PACKET_DISCONNECT :: u8 where "PACKET_DISCONNECT = 26"

definition NET_MESSAGE_GENERIC_TEXT :: u8 where "NET_MESSAGE_GENERIC_TEXT = 2"
definition NET_MESSAGE_GAME_MESSAGE :: u8 where "NET_MESSAGE_GAME_MESSAGE = 3"
definition NET_MESSAGE_GAME_PACKET :: u8 where "NET_MESSAGE_GAME_PACKET = 4"
definition NET_MESSAGE_TRACK :: u8 where "NET_MESSAGE_TRACK = 6"
definition NET_MESSAGE_CLIENT_LOG_REQUEST :: u8 where "NET_MESSAGE_CLIENT_LOG_REQUEST = 7"
definition NET_MESSAGE_CLIENT_LOG_RESPONSE :: u8 where "NET_MESSAGE_CLIENT_LOG_RESPONSE = 8"

lemmas packet_type_defs = PACKET_STATE_def PACKET_CALL_FUNCTION_def PACKET_SEND_MAP_DATA_def PACKET_SEND_INVENTORY_STATE_def
  PACKET_PING_REPLY_def PACKET_PING_REQUEST_def PACKET_APP_INTEGRITY_FAIL_def PACKET_DISCONNECT_def
lemmas message_type_defs = NET_MESSAGE_GENERIC_TEXT_def NET_MESSAGE_GAME_MESSAGE_def NET_MESSAGE_GAME_PACKET_def
  NET_MESSAGE_TRACK_def NET_MESSAGE_CLIENT_LOG_REQUEST_def NET_MESSAGE_CLIENT_LOG_RESPONSE_def
lemmas sizeof_packet_defs = sizeof_gameupdatepacket_def sizeof_gametextpacket_def

text \<open>The packed structure in memory.\<close>

definition gameupdate_head :: "gameupdatepacket_t \<Rightarrow> u8 list" where
  "gameupdate_head g = [gp_type g, gp_netid g, gp_jump_amount g, gp_count g] @ le32 (gp_player_flags g) @ le32 (gp_item g)
     @ le32 (gp_packet_flags g) @ le32 (gp_struct_flags g) @ le32 (gp_int_data g) @ le32 (gp_vec_x g) @ le32 (gp_vec_y g)
     @ le32 (gp_vec2_x g) @ le32 (gp_vec2_y g) @ le32 (gp_particle_time g) @ le32 (gp_state1 g) @ le32 (gp_state2 g)
     @ le32 (gp_data_size g)"

definition gameupdate_bytes :: "gameupdatepacket_t \<Rightarrow> u8 list" where
  "gameupdate_bytes g = gameupdate_head g @ le32 (gp_data g)"

definition gameupdate_at :: "u8 list \<Rightarrow> gameupdatepacket_t" where
  "gameupdate_at p = \<lparr>gp_type = p ! 0, gp_netid = p ! 1, gp_jump_amount = p ! 2, gp_count = p ! 3,
     gp_player_flags = rd32 (drop 4 p), gp_item = rd32 (drop 8 p), gp_packet_flags = rd32 (drop 12 p),
     gp_struct_flags = rd32 (drop 16 p), gp_int_data = rd32 (drop 20 p), gp_vec_x = rd32 (drop 24 p), gp_vec_y = rd32 (drop 28 p),
     gp_vec2_x = rd32 (drop 32 p), gp_vec2_y = rd32 (drop 36 p), gp_particle_time = rd32 (drop 40 p),
     gp_state1 = rd32 (drop 44 p), gp_state2 = rd32 (drop 48 p), gp_data_size = rd32 (drop 52 p), gp_data = rd32 (drop 56 p)\<rparr>"

definition no_update :: gameupdatepacket_t where
  "no_update = \<lparr>gp_type = 0, gp_netid = 0, gp_jump_amount = 0, gp_count = 0, gp_player_flags = 0, gp_item = 0, gp_packet_flags = 0,
     gp_struct_flags = 0, gp_int_data = 0, gp_vec_x = 0, gp_vec_y = 0, gp_vec2_x = 0, gp_vec2_y = 0, gp_particle_time = 0,
     gp_state1 = 0, gp_state2 = 0, gp_data_size = 0, gp_data = 0\<rparr>"

section \<open>Received packets\<close>

definition get_packet_type :: "u8 list \<Rightarrow> u8" where
  "get_packet_type data = (if length data > 3 then data ! 0 else 0)"

text \<open>
  \<^verbatim>\<open>get_text\<close> ends the data with a zero and returns a pointer to the byte after the type, from
  which its callers make a string.
\<close>

definition get_text :: "u8 list \<Rightarrow> u8 list option" where
  "get_text data = (if data = [] then None else Some (data[length data - 1 := 0]))"

definition c_string_at :: "nat \<Rightarrow> u8 list \<Rightarrow> string option" where
  "c_string_at k data = (if 0 \<in> set (drop k data) then Some (bytes_string (takeWhile (\<lambda>b. b \<noteq> 0) (drop k data))) else None)"

definition packet_text :: "u8 list \<Rightarrow> string option" where
  "packet_text data = Option.bind (get_text data) (c_string_at 4)"

text \<open>
  \<^verbatim>\<open>get_struct\<close>: whether the pointer returned, always to the fifth byte, is not null, and the data
  afterwards. The sum \<^verbatim>\<open>m_data_size + 60\<close> is one of 32 bits.
\<close>

definition get_struct :: "u8 list \<Rightarrow> (bool \<times> u8 list) option" where
  "get_struct data =
    (if length data < sizeof_gameupdatepacket - 4 then Some (False, data)
     else if rd32 (drop 16 data) AND 8 \<noteq> 0 then
       (if length data < 60 then None
        else if length data < unat (rd32 (drop 56 data) + 60) then Some (False, data)
        else Some (True, data))
     else if length data < 60 then None
     else Some (True, take 56 data @ [0, 0, 0, 0] @ drop 60 data))"

text \<open>\<^verbatim>\<open>get_extended\<close>: the offset, within the structure, of the pointer it returns.\<close>

definition get_extended :: nat where
  "get_extended = 52"

text \<open>The parameters as \<^verbatim>\<open>events::in::variantlist\<close> reads them, and as \<^verbatim>\<open>events::out::variantlist\<close> does.\<close>

definition in_variantlist :: "u8 list \<Rightarrow> variantlist_t \<Rightarrow> (bool \<times> int \<times> variantlist_t) option" where
  "in_variantlist data varlist = serialize_from_mem (drop (4 + get_extended + 4) data) varlist"

definition out_variantlist :: "u8 list \<Rightarrow> variantlist_t \<Rightarrow> (bool \<times> int \<times> variantlist_t) option" where
  "out_variantlist data varlist = serialize_from_mem (drop (4 + get_extended) data) varlist"

text \<open>\<^verbatim>\<open>events::out::pingreply\<close>: the numbers are 1000, 250 and 64 as floats.\<close>

definition pingreply :: "gameupdatepacket_t \<Rightarrow> gameupdatepacket_t" where
  "pingreply g = g\<lparr>gp_vec2_x := 0x447a0000, gp_vec2_y := 0x437a0000, gp_vec_x := 0x42800000, gp_vec_y := 0x42800000,
     gp_jump_amount := 0, gp_player_flags := 0\<rparr>"

section \<open>Packets that are sent\<close>

text \<open>
  \<^verbatim>\<open>send(bool, int32_t, uint8_t*, int32_t)\<close>: the bytes of the packet, whose memory was \<open>mem\<close>. A
  length below -5 or one that overflows, data of another length than \<open>len\<close>, or a negative length
  make it undefined.
\<close>

definition raw_packet :: "u32 \<Rightarrow> u8 list option \<Rightarrow> int \<Rightarrow> u8 list \<Rightarrow> u8 list option" where
  "raw_packet type data len mem =
    (if len < 0 \<or> \<not> int32_fits (len + 5) \<or> length mem \<noteq> nat (len + 5) then None
     else
       (case data of
          None \<Rightarrow> Some (le32 type @ take (nat len) (drop 4 mem) @ [0])
        | Some d \<Rightarrow> if length d < nat len then None else Some (le32 type @ take (nat len) d @ [0])))"

text \<open>\<^verbatim>\<open>send(bool, std::string, int32_t)\<close>\<close>

definition text_packet :: "string \<Rightarrow> u32 \<Rightarrow> u8 list" where
  "text_packet text type = le32 type @ string_bytes text @ [0]"

text \<open>\<^verbatim>\<open>send(bool, variantlist_t&, int32_t, int32_t)\<close>, with the memory \<^verbatim>\<open>new\<close> returns.\<close>

definition call_packet :: "variantlist_t \<Rightarrow> u32 \<Rightarrow> u32 \<Rightarrow> (nat \<Rightarrow> u8 list) \<Rightarrow> u8 list option" where
  "call_packet list netid delay fresh =
    (case serialize_to_mem list None fresh of
       None \<Rightarrow> None
     | Some (data, data_size) \<Rightarrow>
         let update_packet = no_update\<lparr>gp_type := PACKET_CALL_FUNCTION, gp_player_flags := netid,
               gp_packet_flags := gp_packet_flags no_update OR 8, gp_int_data := delay, gp_data_size := data_size\<rparr>;
             memory = gameupdate_head update_packet @ data @ [0, 0, 0, 0];
             game_packet = le32 (ucast NET_MESSAGE_GAME_PACKET) @ memory @ [0]
         in Some (take (unat data_size + sizeof_gameupdatepacket) game_packet))"

section \<open>Properties\<close>

lemma length_gameupdate_head [simp]: "length (gameupdate_head g) = 56"
  by (simp add: gameupdate_head_def)

lemma drop_le32_app [simp]: "drop (Suc (Suc (Suc (Suc n)))) (le32 x @ bs) = drop n bs"
  by (simp add: le32_def)

lemma gameupdate_at_head: "gameupdate_at (gameupdate_head g @ p) = g\<lparr>gp_data := rd32 p\<rparr>"
  by (cases g) (simp add: gameupdate_at_def gameupdate_head_def eval_nat_numeral)

lemma add_u32_small: "unat (x :: u32) + unat y < 4294967296 \<Longrightarrow> unat (x + y) = unat x + unat y"
  by (simp add: unat_word_ariths)

lemma head_fields:
  "rd32 (drop 12 (gameupdate_head g @ p)) = gp_packet_flags g" "rd32 (drop 52 (gameupdate_head g @ p)) = gp_data_size g"
  using arg_cong [OF gameupdate_at_head [of g p], of gp_packet_flags] arg_cong [OF gameupdate_at_head [of g p], of gp_data_size]
  by (simp_all add: gameupdate_at_def)

lemma drop_head [simp]: "drop 56 (gameupdate_head g @ p) = p"
  by simp

definition call_update :: "u32 \<Rightarrow> u32 \<Rightarrow> u32 \<Rightarrow> gameupdatepacket_t" where
  "call_update netid delay data_size = no_update\<lparr>gp_type := PACKET_CALL_FUNCTION, gp_player_flags := netid,
     gp_packet_flags := 8, gp_int_data := delay, gp_data_size := data_size\<rparr>"

lemma call_packet_bytes:
  assumes "list_all param_ok l" "length l = C_MAX_VARIANT_LIST_PARMS" "\<And>k. length (fresh k) = k"
    and "call_packet l netid delay fresh = Some p"
  obtains data n where "serialize_to_mem l None fresh = Some (data, n)" "length data = unat n" "unat n \<le> 2147483647"
    "p = le32 4 @ gameupdate_head (call_update netid delay n) @ data"
proof -
  obtain data n where d: "serialize_to_mem l None fresh = Some (data, n)"
    using assms(4) by (auto simp: call_packet_def split: option.splits)
  note t = total_size_written [OF assms(1,2)]
  have "data = of_nat (used_params l) # serialize_params 0 l" "n = of_nat (Suc (length (serialize_params 0 l)))"
    using d assms(3) by (simp_all add: serialize_to_mem_def t(1) nat_add_distrib)
  then have len: "length data = unat n" "unat n \<le> 2147483647"
    using t(3) by (simp_all add: unsigned_of_nat take_bit_nat_eq_self del: of_nat_Suc)
  have "p = take (unat n + 60) (le32 4 @ gameupdate_head (call_update netid delay n) @ data @ [0, 0, 0, 0, 0])"
    using assms(4) d len(1) by (simp add: call_packet_def call_update_def no_update_def message_type_defs sizeof_packet_defs)
  also have "\<dots> = le32 4 @ gameupdate_head (call_update netid delay n) @ data"
    using len(1) by simp
  finally show thesis using that d len by blast
qed

lemma call_packet_received:
  assumes "list_all param_ok l" "length l = C_MAX_VARIANT_LIST_PARMS" "length l0 = C_MAX_VARIANT_LIST_PARMS"
    and "\<And>k. length (fresh k) = k" "call_packet l netid delay fresh = Some p"
  shows "get_packet_type p = NET_MESSAGE_GAME_PACKET" "get_struct p = Some (True, p)"
    and "gp_type (gameupdate_at (drop 4 p)) = PACKET_CALL_FUNCTION" "gp_player_flags (gameupdate_at (drop 4 p)) = netid"
      "gp_int_data (gameupdate_at (drop 4 p)) = delay" "60 + unat (gp_data_size (gameupdate_at (drop 4 p))) = length p"
    and "\<exists>l1. in_variantlist p l0 = Some (True, int (length p - 60), l1) \<and> received 0 l l0 l1"
proof -
  obtain data n where d: "serialize_to_mem l None fresh = Some (data, n)" "length data = unat n" "unat n \<le> 2147483647"
    and p: "p = le32 4 @ gameupdate_head (call_update netid delay n) @ data"
    using call_packet_bytes [OF assms(1,2,4,5)] by blast
  let ?g = "call_update netid delay n"
  have at: "gameupdate_at (drop 4 p) = ?g\<lparr>gp_data := rd32 data\<rparr>" by (simp add: p gameupdate_at_head)
  show "gp_type (gameupdate_at (drop 4 p)) = PACKET_CALL_FUNCTION" "gp_player_flags (gameupdate_at (drop 4 p)) = netid"
    "gp_int_data (gameupdate_at (drop 4 p)) = delay"
    unfolding at by (simp_all add: call_update_def)
  have lp: "length p = 60 + unat n" using d(2) by (simp add: p)
  show "60 + unat (gp_data_size (gameupdate_at (drop 4 p))) = length p"
    unfolding at lp by (simp add: call_update_def)
  show "get_packet_type p = NET_MESSAGE_GAME_PACKET"
    using lp by (simp add: get_packet_type_def message_type_defs) (simp add: p le32_def)
  have "drop 16 p = drop 12 (gameupdate_head ?g @ data)" "drop 56 p = drop 52 (gameupdate_head ?g @ data)"
    by (simp_all add: p)
  then have f: "rd32 (drop 16 p) = 8" "rd32 (drop 56 p) = n"
    unfolding head_fields by (simp_all only: head_fields) (simp_all add: call_update_def)
  have "unat (n + 60) = unat n + 60" using d(3) by (subst add_u32_small) simp_all
  then show "get_struct p = Some (True, p)"
    using lp by (simp add: get_struct_def f sizeof_packet_defs)
  have "drop (4 + get_extended + 4) p = data" by (simp add: p get_extended_def)
  moreover have "uint n = int (length p - 60)" by (simp only: lp uint_nat add_diff_cancel_left')
  ultimately show "\<exists>l1. in_variantlist p l0 = Some (True, int (length p - 60), l1) \<and> received 0 l l0 l1"
    using variantlist_received [OF assms(1,2,3) d(1) assms(4), of "[]"] by (simp only: in_variantlist_def append_Nil2)
qed

text \<open>
  C24: A call packet the proxy sends is one its receiving side accepts: it has the type of a game
  packet, the structure is found with the fields that were given and inside the data, and the
  parameters are read back.
\<close>

theorem call_packet_roundtrip:
  assumes "list_all param_ok l" "length l = C_MAX_VARIANT_LIST_PARMS" "length l0 = C_MAX_VARIANT_LIST_PARMS"
    and "\<And>k. length (fresh k) = k" "call_packet l netid delay fresh = Some p"
  shows "get_packet_type p = NET_MESSAGE_GAME_PACKET \<and> get_struct p = Some (True, p)
    \<and> gp_type (gameupdate_at (drop 4 p)) = PACKET_CALL_FUNCTION \<and> gp_player_flags (gameupdate_at (drop 4 p)) = netid
    \<and> gp_int_data (gameupdate_at (drop 4 p)) = delay \<and> 60 + unat (gp_data_size (gameupdate_at (drop 4 p))) = length p
    \<and> (\<exists>l1. in_variantlist p l0 = Some (True, int (length p - 60), l1) \<and> received 0 l l0 l1)"
  using call_packet_received [OF assms] by blast

lemma example_call: "\<exists>p. call_packet example_params 7 0 (\<lambda>k. replicate k 0) = Some p \<and> length p < 65536"
  by (simp add: call_packet_def example_params_sent sizeof_packet_defs)

theorem call_packet_roundtrip_witness:
  "\<exists>p l1. get_struct p = Some (True, p) \<and> gp_player_flags (gameupdate_at (drop 4 p)) = 7
    \<and> in_variantlist p (replicate 7 blank_variant) = Some (True, int (length p - 60), l1)
    \<and> received 0 example_params (replicate 7 blank_variant) l1"
proof -
  obtain p where p: "call_packet example_params 7 0 (\<lambda>k. replicate k 0) = Some p" using example_call by blast
  have 7: "length (replicate 7 blank_variant) = C_MAX_VARIANT_LIST_PARMS" by (simp add: C_MAX_VARIANT_LIST_PARMS_def)
  have f: "length (replicate k (0 :: u8)) = k" for k by simp
  show ?thesis using call_packet_roundtrip [OF example_params_ok 7 f p] by blast
qed

text \<open>
  \<^verbatim>\<open>events::out::variantlist\<close> reads the parameters from the size before them: of a call packet
  with less than 64 KB of parameters none is ever read.
\<close>

theorem out_variantlist_reads_nothing:
  assumes "list_all param_ok l" "length l = C_MAX_VARIANT_LIST_PARMS"
    and "\<And>k. length (fresh k) = k" "call_packet l netid delay fresh = Some p" "length p < 65536"
  shows "\<exists>ok n. out_variantlist p l0 = Some (ok, n, l0)"
proof -
  obtain data n where d: "length data = unat n"
    and p: "p = le32 4 @ gameupdate_head (call_update netid delay n) @ data"
    using call_packet_bytes [OF assms(1,2,3,4)] by blast
  have n: "unat n < 65536" using assms(5) d by (simp add: p)
  have "gameupdate_head (call_update netid delay n) = take 52 (gameupdate_head (call_update netid delay n)) @ le32 n"
    by (simp add: gameupdate_head_def call_update_def le32_def)
  then have x: "drop (4 + get_extended) p = le32 n @ data"
    by (simp add: p get_extended_def gameupdate_head_def call_update_def le32_def)
  have "unat (drop_bit 16 n) = 0" using n unfolding unat_drop_bit_eq by (simp add: drop_bit_eq_div)
  then have z: "drop_bit 16 n = 0" by (simp add: unat_eq_zero)
  show ?thesis
    unfolding out_variantlist_def x
    by (cases "unat (ucast n :: u8)") (auto simp: serialize_from_mem_def le32_def z fixed_type_def)
qed

theorem out_variantlist_reads_nothing_witness:
  "\<exists>p ok n. call_packet example_params 7 0 (\<lambda>k. replicate k 0) = Some p \<and> out_variantlist p (replicate 7 blank_variant) = Some (ok, n, replicate 7 blank_variant)"
proof -
  obtain p where p: "call_packet example_params 7 0 (\<lambda>k. replicate k 0) = Some p" "length p < 65536" using example_call by blast
  have f: "length (replicate k (0 :: u8)) = k" for k by simp
  show ?thesis using out_variantlist_reads_nothing [OF example_params_ok f p, of "replicate 7 blank_variant"] p(1) by blast
qed

text \<open>
  C31: Extended data that \<^verbatim>\<open>get_struct\<close> accepts lies within the packet, unless its size is within 60
  of the largest 32-bit number.
\<close>

theorem get_struct_within:
  assumes "get_struct data = Some (True, data')" "rd32 (drop 16 data) AND 8 \<noteq> 0" "unat (rd32 (drop 56 data)) < 4294967236"
  shows "data' = data \<and> 60 + unat (rd32 (drop 56 data)) \<le> length data"
proof -
  have "unat (rd32 (drop 56 data) + 60) = unat (rd32 (drop 56 data)) + 60" using assms(3) by (subst add_u32_small) simp_all
  then show ?thesis using assms(1,2) by (auto simp: get_struct_def sizeof_packet_defs split: if_splits)
qed

theorem get_struct_within_witness:
  "60 + unat (rd32 (drop 56 (replicate 16 0 @ [8, 0, 0, 0] @ replicate 36 0 @ [2, 0, 0, 0] @ [5, 6]))) \<le> (62 :: nat)"
proof -
  let ?d = "replicate 16 0 @ [8, 0, 0, 0] @ replicate 36 0 @ [2, 0, 0, 0] @ [5, 6 :: u8]"
  have "get_struct ?d = Some (True, ?d)" by (simp add: get_struct_def sizeof_packet_defs)
  moreover have "rd32 (drop 16 ?d) AND 8 \<noteq> 0" by simp
  moreover have "unat (rd32 (drop 56 ?d)) < 4294967236" by simp
  ultimately have "60 + unat (rd32 (drop 56 ?d)) \<le> length ?d" using get_struct_within [of ?d ?d] by blast
  then show ?thesis by simp
qed

text \<open>A size that wraps around is accepted; packets of 56 to 59 bytes are read, or written, past their end.\<close>

lemma get_struct_wraps: "\<exists>data. get_struct data = Some (True, data) \<and> length data = 60 \<and> unat (rd32 (drop 56 data)) = 4294967295"
  by (rule exI [of _ "replicate 16 0 @ [8, 0, 0, 0] @ replicate 36 0 @ [255, 255, 255, 255]"])
    (simp add: get_struct_def sizeof_packet_defs)

lemma get_struct_short: "56 \<le> length data \<Longrightarrow> length data < 60 \<Longrightarrow> get_struct data = None"
  by (simp add: get_struct_def sizeof_packet_defs)

text \<open>A text packet of four bytes has its text past its end.\<close>

lemma packet_text_short: "length data = 4 \<Longrightarrow> packet_text data = None"
  by (simp add: packet_text_def get_text_def c_string_at_def)

end
