(* ===== verification/Proxy_Server.thy ===== *)
theory Proxy_Server
  imports ENet_Packet Proxy_Packets Proxy_Utils
begin

text \<open>
  \<^verbatim>\<open>server.cpp\<close>: the proxy between the game's client, connected to the host \<^verbatim>\<open>m_proxy_server\<close>, and the
  game's server, to which \<^verbatim>\<open>m_real_server\<close> is the connection.

  ENet is seen through its interface: hosts are numbered as they are created, a peer is a host's
  number with an index, and the calls the proxy makes are recorded in \<open>sv_calls\<close>. What ENet answers
  (whether a host or a connection could be made, the events of a service call) is an argument. Hosts
  that have been destroyed leave \<open>sv_live\<close>; a call on one, on a peer of one, or on a null pointer is
  recorded in \<open>sv_ub\<close>. The handlers of \<^verbatim>\<open>events.cpp\<close> are arguments here, so that what is said of the
  loops holds of any that keep their contract. \<open>sv_ended\<close> is set when one of
  them does not return, or when building a packet is undefined: from there on the model says nothing.
\<close>

section \<open>State\<close>

datatype enet_call =
    Enet_send "nat \<times> nat" "u8 list" u32
  | Enet_flush nat
  | Enet_disconnect "nat \<times> nat"
  | Enet_destroy nat
  | Enet_create nat nat nat
  | Enet_connect nat "(nat \<times> nat) option"
  | Enet_packet_destroy "u8 list"

record player =
  pl_name :: string
  pl_country :: string
  pl_netid :: int
  pl_userid :: int
  pl_pos :: vector2_t
  pl_invis :: bool
  pl_mod :: bool

record world =
  wd_name :: string
  wd_players :: "player list"
  wd_local :: player
  wd_connected :: bool

definition fresh_player :: player where
  "fresh_player = \<lparr>pl_name = [], pl_country = [], pl_netid = -1, pl_userid = -1, pl_pos = \<lparr>v2_x = 0, v2_y = 0\<rparr>, pl_invis = False, pl_mod = False\<rparr>"

definition player_eq :: "player \<Rightarrow> player \<Rightarrow> bool" where
  "player_eq p right \<longleftrightarrow> pl_netid p = pl_netid right \<and> pl_userid p = pl_userid right"

text \<open>
  The variables of \<^verbatim>\<open>events.h\<close> and \<^verbatim>\<open>gt.cpp\<close> that only the handlers use; those the loops read are in
  \<open>server\<close>.
\<close>

record globals =
  saveworld :: string
  o_name :: string
  o_type :: string
  o_ip :: string
  currentuid :: string
  unaccesspaketi :: string
  country :: string
  o_mode :: string
  owneruid :: string
  taxsystem :: bool
  fastmmode :: bool
  dicemod :: bool
  worldbanjoinmod :: bool
  autopull :: bool
  fastdrop :: bool
  fasttrash :: bool
  visualspin :: bool
  wltroll :: bool
  wrenchpull :: bool
  autohosts :: bool
  yuzde :: int
  wlx :: int
  wly :: int
  uidz :: int
  setx :: int
  sety :: int
  o_id :: int
  posx :: int
  posy :: int
  ruletsayi :: int
  iditemm :: int
  loggedin :: int
  type2 :: int
  gt_flag :: string
  gt_ghost :: bool
  gt_resolving_uid :: bool
  gt_resolving_uid2 :: bool

record server =
  m_proxy_server :: "nat option"
  m_real_server :: "nat option"
  m_server_peer :: "(nat \<times> nat) option"
  m_gt_peer :: "(nat \<times> nat) option"
  m_user :: int
  m_token :: int
  m_server :: string
  m_port :: int
  serverz :: string
  portz :: int
  m_proxyport :: int
  ipserver :: string
  create :: string
  m_world :: world
  gt_in_game :: bool
  gt_connecting :: bool
  out_dicespeed :: bool
  out_visdice :: bool
  out_sayi :: int
  sv_globals :: globals
  sv_live :: "nat list"
  sv_hosts :: nat
  sv_calls :: "enet_call list"
  sv_ub :: bool
  sv_ended :: bool

definition enet_call :: "enet_call \<Rightarrow> server \<Rightarrow> server" where
  "enet_call c s = s\<lparr>sv_calls := sv_calls s @ [c]\<rparr>"

definition use_host :: "nat \<Rightarrow> server \<Rightarrow> server" where
  "use_host h s = (if h \<in> set (sv_live s) then s else s\<lparr>sv_ub := True\<rparr>)"

section \<open>Sending\<close>

text \<open>
  The end of every \<^verbatim>\<open>send\<close>: the packet goes to the peer of the client or of the server. No packet
  (\<open>None\<close>) means that building it was undefined.
\<close>

definition send_packet :: "bool \<Rightarrow> u8 list option \<Rightarrow> server \<Rightarrow> server" where
  "send_packet client packet s =
    (case (if client then m_gt_peer s else m_server_peer s, if client then m_proxy_server s else m_real_server s) of
       (Some peer, Some host) \<Rightarrow>
         (case packet of
            None \<Rightarrow> s\<lparr>sv_ended := True\<rparr>
          | Some p \<Rightarrow>
              let s = enet_call (Enet_send peer p ENET_PACKET_FLAG_RELIABLE) (use_host (fst peer) s)
              in enet_call (Enet_flush host) (use_host host s))
     | _ \<Rightarrow> s)"

definition send_text :: "bool \<Rightarrow> string \<Rightarrow> u32 \<Rightarrow> server \<Rightarrow> server" where
  "send_text client text type s = send_packet client (Some (text_packet text type)) s"

definition send_raw :: "bool \<Rightarrow> u32 \<Rightarrow> u8 list option \<Rightarrow> int \<Rightarrow> (nat \<Rightarrow> u8 list) \<Rightarrow> server \<Rightarrow> server" where
  "send_raw client type data len fresh s = send_packet client (raw_packet type data len (fresh (nat (len + 5)))) s"

definition send_call :: "bool \<Rightarrow> variantlist_t \<Rightarrow> u32 \<Rightarrow> u32 \<Rightarrow> (nat \<Rightarrow> u8 list) \<Rightarrow> server \<Rightarrow> server" where
  "send_call client list netid delay fresh s = send_packet client (call_packet list netid delay fresh) s"

text \<open>
  The free function \<^verbatim>\<open>SendPacketRaw\<close>, with the contents of a fresh packet; \<^verbatim>\<open>a4\<close> is the extended
  data, read only when the size field says so. The packet is not flushed.
\<close>

definition SendPacketRaw :: "u32 \<Rightarrow> u8 list \<Rightarrow> u8 list \<Rightarrow> (nat \<Rightarrow> u8 list) \<Rightarrow> (nat \<times> nat) option \<Rightarrow> u32 \<Rightarrow> server \<Rightarrow> server" where
  "SendPacketRaw a1 packetData a4 fresh peer packetFlag s =
    (case peer of
       None \<Rightarrow> s
     | Some peer \<Rightarrow>
         if a1 = 4 \<and> (length packetData < 13 \<or> packetData ! 12 AND 8 \<noteq> 0 \<and> length packetData < 56) then s\<lparr>sv_ub := True\<rparr>
         else if a1 = 4 \<and> packetData ! 12 AND 8 \<noteq> 0 then
           let n = unat (rd32 (drop 52 packetData));
               mem = fresh (length packetData + n + 5)
           in if length a4 < n then s\<lparr>sv_ub := True\<rparr>
              else enet_call (Enet_send peer (le32 4 @ packetData @ take n a4 @ drop (4 + length packetData + n) mem) packetFlag)
                     (use_host (fst peer) s)
         else
           let mem = fresh (length packetData + 5)
           in enet_call (Enet_send peer (le32 a1 @ packetData @ drop (4 + length packetData) mem) packetFlag) (use_host (fst peer) s))"

text \<open>\<^verbatim>\<open>gt::send_log\<close>\<close>

definition send_log :: "string \<Rightarrow> server \<Rightarrow> server" where
  "send_log text = send_text True (''action|log'' @ [CHR 0x0A] @ ''msg|'' @ text) (ucast NET_MESSAGE_GAME_MESSAGE)"

section \<open>Connections\<close>

definition enet_create :: "bool \<Rightarrow> nat \<Rightarrow> nat \<Rightarrow> server \<Rightarrow> nat option \<times> server" where
  "enet_create ok peers channels s =
    (if ok then (Some (sv_hosts s), enet_call (Enet_create (sv_hosts s) peers channels)
                   (s\<lparr>sv_live := sv_hosts s # sv_live s, sv_hosts := sv_hosts s + 1\<rparr>))
     else (None, s))"

definition destroy_host :: "nat option \<Rightarrow> server \<Rightarrow> server" where
  "destroy_host host s =
    (case host of
       None \<Rightarrow> s
     | Some h \<Rightarrow> enet_call (Enet_destroy h) ((use_host h s)\<lparr>sv_live := removeAll h (sv_live s)\<rparr>))"

text \<open>The member of the new host is set before the pointer is tested.\<close>

definition setup_client :: "bool \<Rightarrow> server \<Rightarrow> bool \<times> server" where
  "setup_client ok s =
    (let (host, s) = enet_create ok 1 2 s;
         s = s\<lparr>m_real_server := host\<rparr>
     in case host of
          None \<Rightarrow> (False, s\<lparr>sv_ub := True\<rparr>)
        | Some h \<Rightarrow> (True, enet_call (Enet_flush h) s))"

definition server_start :: "bool \<Rightarrow> bool \<Rightarrow> server \<Rightarrow> bool \<times> server" where
  "server_start ok client_ok s =
    (let (host, s) = enet_create ok 1024 10 s;
         s = s\<lparr>m_proxy_server := host\<rparr>
     in case host of
          None \<Rightarrow> (False, s\<lparr>sv_ub := True\<rparr>)
        | Some h \<Rightarrow> setup_client client_ok s)"

definition server_disconnect :: "bool \<Rightarrow> server \<Rightarrow> server" where
  "server_disconnect reset s =
    (let s = s\<lparr>m_world := (m_world s)\<lparr>wd_connected := False, wd_local := fresh_player, wd_players := []\<rparr>\<rparr>;
         s = (case m_server_peer s of
                None \<Rightarrow> s
              | Some peer \<Rightarrow>
                  let s = (enet_call (Enet_disconnect peer) (use_host (fst peer) s))\<lparr>m_server_peer := None\<rparr>
                  in (destroy_host (m_real_server s) s)\<lparr>m_real_server := None\<rparr>)
     in if reset then s\<lparr>m_user := 0, m_token := 0, m_server := serverz s, m_port := portz s\<rparr> else s)"

definition server_disconnectsr :: "bool \<Rightarrow> server \<Rightarrow> server" where
  "server_disconnectsr reset s =
    (let s = s\<lparr>m_world := (m_world s)\<lparr>wd_connected := False, wd_local := fresh_player, wd_players := []\<rparr>\<rparr>;
         s = (case m_server_peer s of
                None \<Rightarrow> s
              | Some peer \<Rightarrow>
                  let s = (enet_call (Enet_disconnect peer) (use_host (fst peer) s))\<lparr>m_server_peer := None\<rparr>
                  in (destroy_host (m_real_server s) s)\<lparr>m_real_server := None\<rparr>)
     in if reset then s\<lparr>m_user := 0, m_token := 0, m_server := serverz s, m_port := portz s\<rparr> else s)"

definition server_quit :: "server \<Rightarrow> server" where
  "server_quit s = server_disconnect True (s\<lparr>gt_in_game := False\<rparr>)"

definition server_connect :: "bool \<Rightarrow> bool \<Rightarrow> server \<Rightarrow> bool \<times> server" where
  "server_connect host_ok peer_ok s =
    (let (ok, s) = setup_client host_ok s in
     if \<not> ok then (False, s)
     else
       (case m_real_server s of
          None \<Rightarrow> (False, s\<lparr>sv_ub := True\<rparr>)
        | Some h \<Rightarrow>
            let peer = (if peer_ok then Some (h, 0) else None);
                s = (enet_call (Enet_connect h peer) (use_host h s))\<lparr>m_server_peer := peer\<rparr>
            in (peer \<noteq> None, s)))"

definition drop_real :: "server \<Rightarrow> server" where
  "drop_real s = (case m_real_server s of None \<Rightarrow> s | Some h \<Rightarrow> (destroy_host (Some h) s)\<lparr>m_real_server := None\<rparr>)"

text \<open>
  \<^verbatim>\<open>redirect_server\<close>: the address of the next server is kept, the client is sent to the proxy
  instead. \<^verbatim>\<open>None\<close> is the exception of \<^verbatim>\<open>substr\<close> where the text has no bar. The pointer to the
  peer of the host that is destroyed stays.
\<close>

definition redirect_server :: "(nat \<Rightarrow> u8 list) \<Rightarrow> variantlist_t \<Rightarrow> server \<Rightarrow> (variantlist_t \<times> server) option" where
  "redirect_server fresh varlist s =
    (let (port, v1) = get_uint32 (varlist ! 1);
         (token, v2) = get_uint32 (varlist ! 2);
         (user, v3) = get_uint32 (varlist ! 3);
         str = get_string (varlist ! 4)
     in case string_find ''|'' str of
          None \<Rightarrow> None
        | Some n \<Rightarrow>
            let doorid = drop n str;
                s = s\<lparr>m_port := sint port, m_token := sint token, m_user := sint user, m_server := take n str\<rparr>;
                varlist = varlist[1 := set_int32 (of_int (m_proxyport s)) v1, 2 := v2, 3 := v3,
                                  4 := set_string (ipserver s @ doorid) (varlist ! 4)];
                s = send_call True varlist (- 1) 0 fresh (s\<lparr>gt_connecting := True\<rparr>)
            in Some (varlist, drop_real s))"

section \<open>Events\<close>

datatype enet_event =
    Event_connect "nat \<times> nat"
  | Event_receive "nat \<times> nat" "u8 list"
  | Event_disconnect "nat \<times> nat"

fun event_peer :: "enet_event \<Rightarrow> nat \<times> nat" where
  "event_peer (Event_connect p) = p"
| "event_peer (Event_receive p data) = p"
| "event_peer (Event_disconnect p) = p"

text \<open>
  The handlers: of a text, or of a structure in the packet's data, which they may change. They
  return true when the packet is not to be forwarded. One that throws ends the program, since nothing
  above it catches; after undefined behaviour there is nothing more to say either.
\<close>

datatype reply = Returns bool | Throws | Undefined

type_synonym text_handler = "string \<Rightarrow> server \<Rightarrow> reply \<times> server"
type_synonym struct_handler = "u8 list \<Rightarrow> server \<Rightarrow> reply \<times> u8 list \<times> server"

record handlers =
  on_generictext :: text_handler
  on_gamemessage :: text_handler
  on_tracking :: text_handler
  on_state :: struct_handler
  on_variantlist :: struct_handler
  on_sendmapdata :: struct_handler

text \<open>What a packet comes to: it is dropped, destroyed and dropped, or goes on to be forwarded; or the program ends.\<close>

datatype verdict = Drop | Destroy | Forward "u8 list" | End

definition verdict_of :: "reply \<Rightarrow> u8 list \<Rightarrow> verdict" where
  "verdict_of r data = (case r of Returns stop \<Rightarrow> (if stop then Destroy else Forward data) | _ \<Rightarrow> End)"

definition by_text :: "text_handler \<Rightarrow> u8 list \<Rightarrow> server \<Rightarrow> verdict \<times> server" where
  "by_text handler data s =
    (case (get_text data, packet_text data) of
       (Some data, Some text) \<Rightarrow>
         let (r, s) = handler text s in (verdict_of r data, s)
     | _ \<Rightarrow> (Drop, s\<lparr>sv_ub := True\<rparr>))"

definition by_struct :: "struct_handler \<Rightarrow> u8 list \<Rightarrow> server \<Rightarrow> verdict \<times> server" where
  "by_struct handler data s =
    (let (r, data, s) = handler data s in (verdict_of r data, s))"

definition outgoing_struct :: "handlers \<Rightarrow> u8 list \<Rightarrow> server \<Rightarrow> verdict \<times> server" where
  "outgoing_struct H data s =
    (let type = gp_type (gameupdate_at (drop 4 data)) in
     if type = PACKET_STATE then by_struct (on_state H) data s
     else if type = PACKET_CALL_FUNCTION then by_struct (on_variantlist H) data s
     else if type = PACKET_PING_REPLY
     then (Forward (take 4 data @ gameupdate_head (pingreply (gameupdate_at (drop 4 data))) @ drop 60 data), s)
     else if type = PACKET_DISCONNECT \<or> type = PACKET_APP_INTEGRITY_FAIL
     then (if gt_in_game s then Drop else Forward data, s)
     else (Forward data, s))"

definition outgoing_packet :: "handlers \<Rightarrow> u8 list \<Rightarrow> server \<Rightarrow> verdict \<times> server" where
  "outgoing_packet H data s =
    (let type = get_packet_type data in
     if type = NET_MESSAGE_GENERIC_TEXT then by_text (on_generictext H) data s
     else if type = NET_MESSAGE_GAME_MESSAGE then by_text (on_gamemessage H) data s
     else if type = NET_MESSAGE_GAME_PACKET then
       (case get_struct data of
          None \<Rightarrow> (Drop, s\<lparr>sv_ub := True\<rparr>)
        | Some (False, data) \<Rightarrow> (Forward data, s)
        | Some (True, data) \<Rightarrow> outgoing_struct H data s)
     else if type = NET_MESSAGE_TRACK \<or> type = NET_MESSAGE_CLIENT_LOG_RESPONSE then (Drop, s)
     else (Forward data, s))"

text \<open>A packet that is not forwarded ends the round; so does one for which there is no way.\<close>

definition conclude :: "u8 list \<Rightarrow> verdict \<Rightarrow> (server \<Rightarrow> (nat \<times> nat) option) \<Rightarrow> (server \<Rightarrow> nat option) \<Rightarrow> server \<Rightarrow> bool \<times> server" where
  "conclude data v peer_of host_of s =
    (case v of
       Drop \<Rightarrow> (False, s)
     | Destroy \<Rightarrow> (False, enet_call (Enet_packet_destroy data) s)
     | End \<Rightarrow> (False, s\<lparr>sv_ended := True\<rparr>)
     | Forward data \<Rightarrow>
         (case (peer_of s, host_of s) of
            (Some peer, Some host) \<Rightarrow>
              let s = enet_call (Enet_send peer data 0) (use_host (fst peer) s)
              in (True, enet_call (Enet_flush host) (use_host host s))
          | _ \<Rightarrow> (False, s)))"

text \<open>
  One event from the game's client, with what ENet answers to a connection attempt; whether the loop
  goes on.
\<close>

definition outgoing_event :: "handlers \<Rightarrow> bool \<Rightarrow> bool \<Rightarrow> enet_event \<Rightarrow> server \<Rightarrow> bool \<times> server" where
  "outgoing_event H host_ok peer_ok ev s =
    (let s = s\<lparr>m_gt_peer := Some (event_peer ev)\<rparr> in
     case ev of
       Event_connect p \<Rightarrow> server_connect host_ok peer_ok s
     | Event_receive p data \<Rightarrow>
         let (v, s) = outgoing_packet H data s in conclude data v m_server_peer m_real_server s
     | Event_disconnect p \<Rightarrow>
         if gt_in_game s then (False, s)
         else if gt_connecting s then (False, (server_disconnect False s)\<lparr>gt_connecting := False\<rparr>)
         else (True, s))"

text \<open>The loop conditions service the host before each event, and once more at the end.\<close>

definition service_host :: "nat option \<Rightarrow> server \<Rightarrow> server" where
  "service_host host s = (case host of None \<Rightarrow> s\<lparr>sv_ub := True\<rparr> | Some h \<Rightarrow> use_host h s)"

fun handle_outgoing :: "handlers \<Rightarrow> (bool \<times> bool \<times> enet_event) list \<Rightarrow> server \<Rightarrow> server" where
  "handle_outgoing H [] s = service_host (m_proxy_server s) s"
| "handle_outgoing H ((host_ok, peer_ok, ev) # evs) s =
    (case outgoing_event H host_ok peer_ok ev (service_host (m_proxy_server s) s) of
       (True, s) \<Rightarrow> handle_outgoing H evs s
     | (False, s) \<Rightarrow> s)"

text \<open>The reply to a ping goes to the client: the first argument of \<^verbatim>\<open>send\<close> is true.\<close>

definition ping_reply_packet :: "u32 \<Rightarrow> gameupdatepacket_t" where
  "ping_reply_packet int_data = no_update\<lparr>gp_type := PACKET_PING_REPLY, gp_int_data := int_data,
     gp_vec_x := 0x42800000, gp_vec_y := 0x42800000, gp_vec2_x := 0x447a0000, gp_vec2_y := 0x437a0000\<rparr>"

definition incoming_struct :: "handlers \<Rightarrow> (nat \<Rightarrow> u8 list) \<Rightarrow> u8 list \<Rightarrow> server \<Rightarrow> verdict \<times> server" where
  "incoming_struct H fresh data s =
    (let g = gameupdate_at (drop 4 data); type = gp_type g in
     if type = 8 then
       (if gp_int_data g = 0 then
          let s = (if out_dicespeed s
                   then send_log (''`bThe dice `bwill roll a `#'' @ show_int (uint (gp_count g) + 1)) s else s)
          in (Forward (if out_visdice s then data[7 := of_int (out_sayi s)] else data), s)
        else (Forward data, s))
     else if type = PACKET_PING_REQUEST then
       let s = send_raw True (ucast NET_MESSAGE_GAME_PACKET) (Some (gameupdate_bytes (ping_reply_packet (gp_int_data g))))
                 (int sizeof_gameupdatepacket) fresh s
       in (Forward data, send_log (''`b[`#S`b]:Ping reply was successfully `2sent!`b(Saved you from a DC or a possible ban)'') s)
     else if type = PACKET_CALL_FUNCTION then by_struct (on_variantlist H) data s
     else if type = PACKET_SEND_MAP_DATA then by_struct (on_sendmapdata H) data s
     else if type = PACKET_STATE then by_struct (on_state H) data s
     else (Forward data, s))"

definition incoming_packet :: "handlers \<Rightarrow> (nat \<Rightarrow> u8 list) \<Rightarrow> u8 list \<Rightarrow> server \<Rightarrow> verdict \<times> server" where
  "incoming_packet H fresh data s =
    (let type = get_packet_type data in
     if type = NET_MESSAGE_GENERIC_TEXT then by_text (on_generictext H) data s
     else if type = NET_MESSAGE_GAME_MESSAGE then by_text (on_gamemessage H) data s
     else if type = NET_MESSAGE_GAME_PACKET then
       (case get_struct data of
          None \<Rightarrow> (Drop, s\<lparr>sv_ub := True\<rparr>)
        | Some (False, data) \<Rightarrow> (Forward data, s)
        | Some (True, data) \<Rightarrow> incoming_struct H fresh data s)
     else if type = NET_MESSAGE_TRACK then by_text (on_tracking H) data s
     else if type = NET_MESSAGE_CLIENT_LOG_REQUEST then (Drop, s)
     else (Forward data, s))"

definition incoming_event :: "handlers \<Rightarrow> (nat \<Rightarrow> u8 list) \<Rightarrow> enet_event \<Rightarrow> server \<Rightarrow> bool \<times> server" where
  "incoming_event H fresh ev s =
    (case ev of
       Event_connect p \<Rightarrow> (True, s)
     | Event_disconnect p \<Rightarrow> (False, server_disconnect True s)
     | Event_receive p data \<Rightarrow>
         let (v, s) = incoming_packet H fresh data s in conclude data v m_gt_peer m_proxy_server s)"

fun handle_incoming :: "handlers \<Rightarrow> (nat \<Rightarrow> u8 list) \<Rightarrow> enet_event list \<Rightarrow> server \<Rightarrow> server" where
  "handle_incoming H fresh [] s = service_host (m_real_server s) s"
| "handle_incoming H fresh (ev # evs) s =
    (case incoming_event H fresh ev (service_host (m_real_server s) s) of
       (True, s) \<Rightarrow> handle_incoming H fresh evs s
     | (False, s) \<Rightarrow> s)"

definition poll :: "handlers \<Rightarrow> handlers \<Rightarrow> (nat \<Rightarrow> u8 list) \<Rightarrow> (bool \<times> bool \<times> enet_event) list \<Rightarrow> enet_event list \<Rightarrow> server \<Rightarrow> server" where
  "poll H_out H_in fresh out_events in_events s =
    (let s = handle_outgoing H_out out_events s in
     if sv_ended s \<or> m_real_server s = None then s else handle_incoming H_in fresh in_events s)"

section \<open>Properties\<close>

text \<open>
  No call is made on a host that is gone: the hosts and the peers the proxy holds are those of live
  hosts, the peer of the server belongs to \<^verbatim>\<open>m_real_server\<close> and that of the client to \<^verbatim>\<open>m_proxy_server\<close>.
\<close>

definition server_ok :: "server \<Rightarrow> bool" where
  "server_ok s \<longleftrightarrow> (\<exists>h. m_proxy_server s = Some h \<and> h \<in> set (sv_live s) \<and> m_real_server s \<noteq> Some h)
    \<and> (\<forall>h. m_real_server s = Some h \<longrightarrow> h \<in> set (sv_live s))
    \<and> (\<forall>p. m_server_peer s = Some p \<longrightarrow> m_real_server s = Some (fst p))
    \<and> (\<forall>p. m_gt_peer s = Some p \<longrightarrow> m_proxy_server s = Some (fst p))
    \<and> (\<forall>h \<in> set (sv_live s). h < sv_hosts s) \<and> \<not> sv_ub s"

text \<open>
  After a redirection: the host of the server is gone, \<^verbatim>\<open>m_server_peer\<close> still points into it. Nothing
  has been misused yet.
\<close>

definition server_stale :: "server \<Rightarrow> bool" where
  "server_stale s \<longleftrightarrow> m_real_server s = None \<and> (\<exists>p. m_server_peer s = Some p \<and> fst p \<notin> set (sv_live s))
    \<and> server_ok (s\<lparr>m_server_peer := None\<rparr>)"

text \<open>
  What a handler may do: send, disconnect and redirect. It keeps \<open>server_ok\<close>, or stops with a stale
  peer; if it is called with a connection that has to last (\<open>c\<close>), it keeps the host of the server
  unless it stops.
\<close>

definition step_ok :: "bool \<Rightarrow> server \<Rightarrow> bool \<Rightarrow> server \<Rightarrow> bool" where
  "step_ok c s stop s' \<longleftrightarrow> (server_ok s' \<or> stop \<and> server_stale s') \<and> m_proxy_server s' = m_proxy_server s
    \<and> (c \<and> m_real_server s \<noteq> None \<longrightarrow> stop \<or> m_real_server s' \<noteq> None)"

definition text_handler_ok :: "bool \<Rightarrow> text_handler \<Rightarrow> bool" where
  "text_handler_ok c f \<longleftrightarrow> (\<forall>text s r s'. server_ok s \<longrightarrow> f text s = (r, s') \<longrightarrow> step_ok c s (r \<noteq> Returns False) s')"

definition struct_handler_ok :: "bool \<Rightarrow> struct_handler \<Rightarrow> bool" where
  "struct_handler_ok c f \<longleftrightarrow> (\<forall>data s r data' s'. server_ok s \<longrightarrow> f data s = (r, data', s') \<longrightarrow> step_ok c s (r \<noteq> Returns False) s')"

definition handlers_ok :: "bool \<Rightarrow> handlers \<Rightarrow> bool" where
  "handlers_ok c H \<longleftrightarrow> text_handler_ok c (on_generictext H) \<and> text_handler_ok c (on_gamemessage H) \<and> text_handler_ok c (on_tracking H)
    \<and> struct_handler_ok c (on_state H) \<and> struct_handler_ok c (on_variantlist H) \<and> struct_handler_ok c (on_sendmapdata H)"

text \<open>Packets whose text or structure can be read; a peer of the host that is serviced.\<close>

definition packet_ok :: "u8 list \<Rightarrow> bool" where
  "packet_ok data \<longleftrightarrow> get_struct data \<noteq> None \<and> packet_text data \<noteq> None"

definition event_ok :: "nat option \<Rightarrow> enet_event \<Rightarrow> bool" where
  "event_ok host ev \<longleftrightarrow> host = Some (fst (event_peer ev)) \<and> (\<forall>p data. ev = Event_receive p data \<longrightarrow> packet_ok data)"

lemma use_host_live [simp]: "h \<in> set (sv_live s) \<Longrightarrow> use_host h s = s"
  by (simp add: use_host_def)

lemma enet_call_sel [simp]:
  "m_proxy_server (enet_call c s) = m_proxy_server s" "m_real_server (enet_call c s) = m_real_server s"
  "m_server_peer (enet_call c s) = m_server_peer s" "m_gt_peer (enet_call c s) = m_gt_peer s"
  "sv_live (enet_call c s) = sv_live s" "sv_hosts (enet_call c s) = sv_hosts s" "sv_ub (enet_call c s) = sv_ub s"
  by (simp_all add: enet_call_def)

lemma server_ok_call [simp]: "server_ok (enet_call c s) = server_ok s"
  by (simp add: server_ok_def)

lemma server_stale_call [simp]: "server_stale (enet_call c s) = server_stale s"
  by (simp add: server_stale_def server_ok_def)

lemma step_okI:
  "server_ok s' \<Longrightarrow> m_proxy_server s' = m_proxy_server s \<Longrightarrow> (c \<Longrightarrow> m_real_server s \<noteq> None \<Longrightarrow> \<not> b \<Longrightarrow> m_real_server s' \<noteq> None) \<Longrightarrow> step_ok c s b s'"
  by (auto simp: step_ok_def)

lemma step_ok_refl: "server_ok s \<Longrightarrow> step_ok c s b s"
  by (simp add: step_ok_def)

lemma step_ok_weaken: "step_ok c s False s' \<Longrightarrow> step_ok c s b s'"
  by (auto simp: step_ok_def)

lemma step_ok_trans: "step_ok c s False s' \<Longrightarrow> step_ok c s' b s'' \<Longrightarrow> step_ok c s b s''"
  by (auto simp: step_ok_def)

lemma step_ok_server: "step_ok c s False s' \<Longrightarrow> server_ok s'"
  by (simp add: step_ok_def)

lemma server_ok_update [simp]:
  "server_ok (s\<lparr>gt_connecting := c\<rparr>) = server_ok s" "server_ok (s\<lparr>sv_ended := e\<rparr>) = server_ok s"
  "server_ok (s\<lparr>sv_globals := g\<rparr>) = server_ok s" "server_ok (s\<lparr>m_world := w\<rparr>) = server_ok s"
  "server_ok (s\<lparr>gt_in_game := c\<rparr>) = server_ok s" "server_ok (s\<lparr>out_visdice := c\<rparr>) = server_ok s"
  "server_ok (s\<lparr>out_dicespeed := c\<rparr>) = server_ok s" "server_ok (s\<lparr>out_sayi := n\<rparr>) = server_ok s"
  by (simp_all add: server_ok_def)

lemma server_stale_update [simp]:
  "server_stale (s\<lparr>gt_connecting := c\<rparr>) = server_stale s" "server_stale (s\<lparr>sv_ended := e\<rparr>) = server_stale s"
  by (simp_all add: server_stale_def server_ok_def)

lemma step_ok_update [simp]:
  "step_ok c s b (s'\<lparr>gt_connecting := x\<rparr>) = step_ok c s b s'" "step_ok c s b (s'\<lparr>sv_ended := e\<rparr>) = step_ok c s b s'"
  by (simp_all add: step_ok_def)

lemma step_ok_call [simp]: "step_ok c s b (enet_call x s') = step_ok c s b s'"
  by (simp add: step_ok_def)

lemma send_packet_ok: "server_ok s \<Longrightarrow> step_ok c s b (send_packet client p s)"
  by (intro step_okI) (auto simp: send_packet_def Let_def server_ok_def split: option.split)

lemma server_disconnect_ok:
  assumes "server_ok s" "b \<or> \<not> c"
  shows "step_ok c s b (server_disconnect reset s)"
proof -
  let ?w = "s\<lparr>m_world := (m_world s)\<lparr>wd_connected := False, wd_local := fresh_player, wd_players := []\<rparr>\<rparr>"
  show ?thesis
  proof (cases "m_server_peer s")
    case None
    then show ?thesis using assms by (intro step_okI) (auto simp: server_disconnect_def Let_def server_ok_def)
  next
    case (Some peer)
    then have r: "m_real_server s = Some (fst peer)" "fst peer \<in> set (sv_live s)" using assms by (auto simp: server_ok_def)
    then show ?thesis using assms Some
      by (intro step_okI) (auto simp: server_disconnect_def Let_def destroy_host_def server_ok_def)
  qed
qed

lemma disconnectsr_same: "server_disconnectsr = server_disconnect"
  by (intro ext) (simp add: server_disconnectsr_def server_disconnect_def)

lemma server_connect_ok:
  assumes "server_ok s"
  shows "step_ok c s b (snd (server_connect True peer_ok s))"
  using assms
  by (intro step_okI) (auto simp: server_connect_def setup_client_def enet_create_def Let_def server_ok_def)

lemma send_raw_ok:
  "server_ok s \<Longrightarrow> step_ok c s b (send_raw client type data len fresh s)"
  by (simp add: send_raw_def send_packet_ok)

lemma send_text_ok: "server_ok s \<Longrightarrow> step_ok c s b (send_text client text type s)"
  by (simp add: send_text_def send_packet_ok)

lemma send_call_ok: "server_ok s \<Longrightarrow> step_ok c s b (send_call client list netid delay fresh s)"
  by (simp add: send_call_def send_packet_ok)

lemma send_log_ok: "server_ok s \<Longrightarrow> step_ok c s b (send_log text s)"
  by (simp add: send_log_def send_text_ok)

text \<open>What becomes of one packet\<close>

definition stops :: "verdict \<Rightarrow> bool" where
  "stops v \<longleftrightarrow> (\<forall>d. v \<noteq> Forward d)"

lemma stops_simps [simp]: "stops Drop" "stops Destroy" "stops End" "\<not> stops (Forward d)"
  by (simp_all add: stops_def)

lemma verdict_stops: "stops (verdict_of r data) = (r \<noteq> Returns False)"
  by (simp add: verdict_of_def split: reply.split)

lemma by_text_ok:
  assumes "text_handler_ok c f" "packet_text data \<noteq> None" "server_ok s" "by_text f data s = (v, s')"
  shows "step_ok c s (stops v) s'"
proof -
  obtain str d where "packet_text data = Some str" "get_text data = Some d"
    using assms(2) by (auto simp: packet_text_def bind_eq_Some_conv)
  then show ?thesis using assms by (auto simp: by_text_def text_handler_ok_def verdict_stops split: prod.splits)
qed

lemma by_struct_ok:
  assumes "struct_handler_ok c f" "server_ok s" "by_struct f data s = (v, s')"
  shows "step_ok c s (stops v) s'"
  using assms by (auto simp: by_struct_def struct_handler_ok_def verdict_stops split: prod.splits)

lemma outgoing_packet_ok:
  assumes "handlers_ok c H" "packet_ok data" "server_ok s" "outgoing_packet H data s = (v, s')"
  shows "step_ok c s (stops v) s'"
proof -
  have "outgoing_struct H d s = (v, s') \<Longrightarrow> step_ok c s (stops v) s'" for d
    using assms(1,3) by_struct_ok
    by (fastforce simp: outgoing_struct_def Let_def handlers_ok_def step_ok_refl split: if_splits)
  then show ?thesis
    using assms by_text_ok
    by (fastforce simp: outgoing_packet_def Let_def handlers_ok_def packet_ok_def step_ok_refl
        split: if_splits option.splits prod.splits bool.splits)
qed

lemma incoming_struct_ok:
  assumes "handlers_ok c H" "server_ok s" "incoming_struct H fresh data s = (v, s')"
  shows "step_ok c s (stops v) s'"
proof -
  have log: "step_ok c s b (send_log msg s)" for b msg using assms(2) by (rule send_log_ok)
  have ping: "step_ok c s b (send_log msg (send_raw client type (Some (gameupdate_bytes g)) (int sizeof_gameupdatepacket) fresh s))"
    for b msg client type g
  proof -
    have "step_ok c s False (send_raw client type (Some (gameupdate_bytes g)) (int sizeof_gameupdatepacket) fresh s)"
      using assms(2) by (rule send_raw_ok)
    then show ?thesis using send_log_ok step_ok_server step_ok_trans by blast
  qed
  show ?thesis
    using assms by_struct_ok log ping
    by (fastforce simp: incoming_struct_def Let_def handlers_ok_def step_ok_refl split: if_splits)
qed

lemma incoming_packet_ok:
  assumes "handlers_ok c H" "packet_ok data" "server_ok s" "incoming_packet H fresh data s = (v, s')"
  shows "step_ok c s (stops v) s'"
proof -
  have "incoming_struct H fresh d s = (v, s') \<Longrightarrow> step_ok c s (stops v) s'" for d
    using incoming_struct_ok [OF assms(1,3)] .
  moreover have "by_text f data s = (v, s') \<Longrightarrow> text_handler_ok c f \<Longrightarrow> step_ok c s (stops v) s'" for f
    using by_text_ok assms(2,3) unfolding packet_ok_def by blast
  ultimately show ?thesis
    using assms
    by (fastforce simp: incoming_packet_def Let_def handlers_ok_def packet_ok_def step_ok_refl
        split: if_splits option.splits prod.splits bool.splits)
qed

lemma server_okD:
  assumes "server_ok s"
  shows "m_proxy_server s = Some h \<Longrightarrow> h \<in> set (sv_live s)" "m_real_server s = Some h \<Longrightarrow> h \<in> set (sv_live s)"
    and "m_server_peer s = Some p \<Longrightarrow> fst p \<in> set (sv_live s)" "m_gt_peer s = Some p \<Longrightarrow> fst p \<in> set (sv_live s)"
proof -
  obtain h' where h': "m_proxy_server s = Some h'" "h' \<in> set (sv_live s)" using assms unfolding server_ok_def by blast
  then show "m_proxy_server s = Some h \<Longrightarrow> h \<in> set (sv_live s)" by simp
  show "m_gt_peer s = Some p \<Longrightarrow> fst p \<in> set (sv_live s)"
  proof -
    assume "m_gt_peer s = Some p"
    then have "m_proxy_server s = Some (fst p)" using assms unfolding server_ok_def by blast
    then show ?thesis using h' by simp
  qed
qed (use assms in \<open>unfold server_ok_def, blast+\<close>)

lemma conclude_ok:
  assumes "step_ok c s (stops v) s1" "conclude data v peer_of host_of s1 = (go, s2)"
    and "peer_of = m_server_peer \<and> host_of = m_real_server \<or> peer_of = m_gt_peer \<and> host_of = m_proxy_server"
  shows "step_ok c s (\<not> go) s2"
proof (cases v)
  case (Forward d)
  have s1: "step_ok c s False s1" using assms(1) Forward by simp
  then have ok: "server_ok s1" by (rule step_ok_server)
  show ?thesis
  proof (cases "peer_of s1 = None \<or> host_of s1 = None")
    case True
    then show ?thesis using assms(2) Forward step_ok_weaken [OF s1] by (auto simp: conclude_def split: option.splits)
  next
    case False
    then obtain p h where p: "peer_of s1 = Some p" "host_of s1 = Some h" by (cases "peer_of s1"; cases "host_of s1") simp_all
    have "fst p \<in> set (sv_live s1)" "h \<in> set (sv_live s1)"
      using assms(3) p server_okD [OF ok] by (elim disjE conjE; simp)+
    then show ?thesis using assms(2) Forward p step_ok_weaken [OF s1] by (auto simp: conclude_def Let_def)
  qed
next
  case End
  then show ?thesis using assms(1,2) by (auto simp: conclude_def)
qed (use assms(1,2) in \<open>auto simp: conclude_def\<close>)

lemma service_host_ok [simp]: "server_ok s \<Longrightarrow> service_host (m_proxy_server s) s = s"
  by (auto simp: service_host_def server_ok_def)

lemma service_real_ok [simp]: "server_ok s \<Longrightarrow> m_real_server s \<noteq> None \<Longrightarrow> service_host (m_real_server s) s = s"
  by (auto simp: service_host_def server_ok_def)

lemma outgoing_event_ok:
  assumes "handlers_ok c H" "event_ok (m_proxy_server s) ev" "server_ok s" "outgoing_event H True peer_ok ev s = (go, s')"
  shows "step_ok c s (\<not> go) s'"
proof -
  let ?s = "s\<lparr>m_gt_peer := Some (event_peer ev)\<rparr>"
  have s: "server_ok ?s" using assms(2,3) by (auto simp: server_ok_def event_ok_def)
  then have refl: "step_ok c s False ?s" by (intro step_okI) simp_all
  have "step_ok c ?s (\<not> go) s'"
  proof (cases ev)
    case (Event_connect p)
    then show ?thesis
      using assms(4) server_connect_ok [OF s, of c "\<not> go" peer_ok] by (simp add: outgoing_event_def)
  next
    case (Event_receive p data)
    obtain v s1 where v: "outgoing_packet H data ?s = (v, s1)" by fastforce
    have "packet_ok data" using assms(2) Event_receive by (simp add: event_ok_def)
    then have "step_ok c ?s (stops v) s1" using outgoing_packet_ok assms(1) s v by blast
    moreover have "conclude data v m_server_peer m_real_server s1 = (go, s')"
      using assms(4) Event_receive v by (simp add: outgoing_event_def)
    ultimately show ?thesis by (rule conclude_ok) simp
  next
    case (Event_disconnect p)
    show ?thesis
      using assms(4) Event_disconnect server_disconnect_ok [OF s, of True] step_ok_refl [OF s]
      by (auto simp: outgoing_event_def Let_def split: if_splits)
  qed
  then show ?thesis using step_ok_trans [OF refl] by blast
qed

definition server_safe :: "nat option \<Rightarrow> server \<Rightarrow> bool" where
  "server_safe host s \<longleftrightarrow> (server_ok s \<or> server_stale s) \<and> m_proxy_server s = host"

lemma step_ok_safe: "step_ok c s b s' \<Longrightarrow> server_safe (m_proxy_server s) s'"
  by (auto simp: step_ok_def server_safe_def)

lemma handle_outgoing_ok:
  assumes "handlers_ok c H" "server_ok s" "\<forall>(host_ok, peer_ok, ev) \<in> set evs. host_ok \<and> event_ok (m_proxy_server s) ev"
  shows "server_safe (m_proxy_server s) (handle_outgoing H evs s)"
  using assms
proof (induction H evs s rule: handle_outgoing.induct)
  case (1 H s)
  then show ?case by (simp add: server_safe_def)
next
  case (2 H host_ok peer_ok ev evs s)
  obtain go s1 where e: "outgoing_event H host_ok peer_ok ev s = (go, s1)" by fastforce
  have "host_ok = True" "event_ok (m_proxy_server s) ev" using "2.prems"(3) by auto
  then have s1: "step_ok c s (\<not> go) s1" using outgoing_event_ok "2.prems"(1,2) e by blast
  show ?case
  proof (cases go)
    case True
    then have s1: "server_ok s1" "m_proxy_server s1 = m_proxy_server s" using s1 by (auto simp: step_ok_def)
    have "\<forall>(host_ok, peer_ok, ev) \<in> set evs. host_ok \<and> event_ok (m_proxy_server s1) ev"
      using "2.prems"(3) s1(2) by simp
    then show ?thesis using "2.IH" "2.prems"(1,2) e True s1 by fastforce
  next
    case False
    then show ?thesis using "2.prems"(2) e step_ok_safe [OF s1] by simp
  qed
qed

lemma incoming_event_ok:
  assumes "handlers_ok c H" "\<And>p data. ev = Event_receive p data \<Longrightarrow> packet_ok data"
    and "server_ok s" "incoming_event H fresh ev s = (go, s')"
  shows "step_ok c s (\<not> go) s'"
proof (cases ev)
  case (Event_receive p data)
  obtain v s1 where v: "incoming_packet H fresh data s = (v, s1)" by fastforce
  have "step_ok c s (stops v) s1" using incoming_packet_ok [OF assms(1) _ assms(3) v] assms(2) Event_receive by blast
  moreover have "conclude data v m_gt_peer m_proxy_server s1 = (go, s')"
    using assms(4) Event_receive v by (simp add: incoming_event_def)
  ultimately show ?thesis by (rule conclude_ok) simp
qed (use assms(3,4) server_disconnect_ok step_ok_refl in \<open>auto simp: incoming_event_def\<close>)

lemma handle_incoming_ok:
  assumes "handlers_ok True H" "server_ok s" "m_real_server s \<noteq> None"
    and "\<forall>ev \<in> set evs. \<forall>p data. ev = Event_receive p data \<longrightarrow> packet_ok data"
  shows "server_safe (m_proxy_server s) (handle_incoming H fresh evs s)"
  using assms(2-4)
proof (induction evs arbitrary: s)
  case (Cons ev evs)
  obtain go s1 where e: "incoming_event H fresh ev s = (go, s1)" by fastforce
  have s1: "step_ok True s (\<not> go) s1" using incoming_event_ok [OF assms(1) _ Cons.prems(1) e] Cons.prems(3) by auto
  show ?case
  proof (cases go)
    case True
    then have "server_ok s1" "m_proxy_server s1 = m_proxy_server s" "m_real_server s1 \<noteq> None"
      using s1 Cons.prems(2) by (auto simp: step_ok_def)
    then show ?thesis using Cons.IH [of s1] Cons.prems e True by simp
  qed (use Cons.prems e step_ok_safe [OF s1] in simp)
qed (simp add: server_safe_def)

text \<open>
  The contract between the loops and the handlers: as long as the handlers keep to it, neither the
  loops nor the calls they make of ENet ever use a host that was destroyed, a null host, or a peer of
  one.
\<close>

locale relay =
  fixes H_out H_in :: handlers and fresh :: "nat \<Rightarrow> u8 list"
  assumes out_ok: "handlers_ok False H_out" and in_ok: "handlers_ok True H_in"
begin

lemma poll_keeps:
  assumes "server_ok s" "\<forall>(host_ok, peer_ok, ev) \<in> set out_events. host_ok \<and> event_ok (m_proxy_server s) ev"
    and "\<forall>ev \<in> set in_events. \<forall>p data. ev = Event_receive p data \<longrightarrow> packet_ok data"
  shows "server_safe (m_proxy_server s) (poll H_out H_in fresh out_events in_events s)"
proof -
  let ?s = "handle_outgoing H_out out_events s"
  have out: "server_safe (m_proxy_server s) ?s" by (rule handle_outgoing_ok [OF out_ok assms(1,2)])
  show ?thesis
  proof (cases "sv_ended ?s \<or> m_real_server ?s = None")
    case True
    then show ?thesis using out by (simp add: poll_def Let_def)
  next
    case False
    then have "server_ok ?s" "m_proxy_server ?s = m_proxy_server s"
      using out by (auto simp: server_safe_def server_stale_def)
    then show ?thesis
      using handle_incoming_ok [OF in_ok, of ?s in_events] assms(3) False by (auto simp: poll_def Let_def)
  qed
qed

end

lemma server_start_ok:
  assumes "m_server_peer s = None" "m_gt_peer s = None" "\<forall>h \<in> set (sv_live s). h < sv_hosts s" "\<not> sv_ub s"
  shows "fst (server_start True True s)" "server_ok (snd (server_start True True s))"
  using assms by (auto simp: server_start_def setup_client_def enet_create_def server_ok_def Let_def)

text \<open>The pointer is used before it is tested, so a host that cannot be made is no error that is reported.\<close>

lemma server_start_fails: "sv_ub (snd (server_start False ok s))"
  by (simp add: server_start_def enet_create_def Let_def)

text \<open>The values the variables are initialised with.\<close>

definition first_globals :: globals where
  "first_globals = \<lparr>saveworld = [], o_name = [], o_type = [], o_ip = [], currentuid = [], unaccesspaketi = [], country = ''tr'',
     o_mode = ''`5Pull'', owneruid = [], taxsystem = False, fastmmode = False, dicemod = False, worldbanjoinmod = False,
     autopull = False, fastdrop = False, fasttrash = False, visualspin = False, wltroll = False, wrenchpull = False, autohosts = False,
     yuzde = 10, wlx = 0, wly = 0, uidz = 0, setx = 0, sety = 0, o_id = 12, posx = 0, posy = 0, ruletsayi = 0, iditemm = 0,
     loggedin = 1, type2 = 0, gt_flag = ''tr'', gt_ghost = False, gt_resolving_uid = False, gt_resolving_uid2 = False\<rparr>"

definition first_server :: server where
  "first_server = \<lparr>m_proxy_server = None, m_real_server = None, m_server_peer = None, m_gt_peer = None, m_user = 0, m_token = 0,
     m_server = ''213.179.209.168'', m_port = 17201, serverz = ''213.179.209.168'', portz = 17201, m_proxyport = 17191,
     ipserver = ''127.0.0.1'', create = ''0.0.0.0'',
     m_world = \<lparr>wd_name = [], wd_players = [], wd_local = fresh_player, wd_connected = False\<rparr>,
     gt_in_game = False, gt_connecting = False, out_dicespeed = False, out_visdice = False, out_sayi = 1, sv_globals = first_globals,
     sv_live = [], sv_hosts = 0, sv_calls = [], sv_ub = False, sv_ended = False\<rparr>"

definition bystander :: handlers where
  "bystander = \<lparr>on_generictext = \<lambda>text s. (Returns False, s), on_gamemessage = \<lambda>text s. (Returns False, s), on_tracking = \<lambda>text s. (Returns False, s),
     on_state = \<lambda>data s. (Returns False, data, s), on_variantlist = \<lambda>data s. (Returns False, data, s), on_sendmapdata = \<lambda>data s. (Returns False, data, s)\<rparr>"

lemma bystander_ok: "handlers_ok c bystander"
  by (simp add: bystander_def handlers_ok_def text_handler_ok_def struct_handler_ok_def step_ok_refl)

text \<open>The server once it runs, with the client connected to it and it to the game's server.\<close>

definition connected_server :: server where
  "connected_server = snd (outgoing_event bystander True True (Event_connect (0, 0)) (snd (server_start True True first_server)))"

lemmas connection_defs = connected_server_def outgoing_event_def server_start_def setup_client_def server_connect_def
  enet_create_def first_server_def Let_def enet_call_def

lemma started_ok: "server_ok (snd (server_start True True first_server))" "m_proxy_server (snd (server_start True True first_server)) = Some 0"
  by (rule server_start_ok; simp add: first_server_def) (simp add: connection_defs)

lemma outgoing_connect_continues: "fst (outgoing_event H True True (Event_connect p) s)"
  by (simp add: outgoing_event_def server_connect_def setup_client_def enet_create_def Let_def)

lemma connected_ok: "server_ok connected_server"
proof -
  have "event_ok (m_proxy_server (snd (server_start True True first_server))) (Event_connect (0, 0))"
    by (simp add: started_ok event_ok_def)
  then show ?thesis
    unfolding connected_server_def
    using outgoing_event_ok [OF bystander_ok _ started_ok(1), of "Event_connect (0, 0)" True]
    by (metis (full_types) prod.collapse outgoing_connect_continues step_ok_server)
qed

lemma connected_peers:
  "m_proxy_server connected_server = Some 0" "m_gt_peer connected_server = Some (0, 0)"
  "m_real_server connected_server = Some 2" "m_server_peer connected_server = Some (2, 0)"
  "\<not> gt_in_game connected_server" "\<not> sv_ended connected_server" "m_proxyport connected_server = 17191" "ipserver connected_server = ''127.0.0.1''"
  by (simp_all add: connection_defs use_host_def)

section \<open>Relaying\<close>

text \<open>Packets that are none of the proxy's business: of an unknown type, or structures that no handler looks at.\<close>

definition plain :: "u8 list \<Rightarrow> bool" where
  "plain d \<longleftrightarrow> get_packet_type d \<notin> {2, 3, 4, 6, 7, 8}
    \<or> get_packet_type d = 4 \<and> get_struct d = Some (True, d) \<and> gp_type (gameupdate_at (drop 4 d)) \<notin> {8, 21, 22, 25, 26}"

definition relays :: "nat \<times> nat \<Rightarrow> nat \<Rightarrow> u8 list list \<Rightarrow> enet_call list" where
  "relays peer host ds = concat (map (\<lambda>d. [Enet_send peer d 0, Enet_flush host]) ds)"

lemma plain_outgoing: "plain d \<Longrightarrow> outgoing_packet bystander d s = (Forward d, s)"
  by (auto simp: plain_def outgoing_packet_def outgoing_struct_def bystander_def by_struct_def verdict_of_def message_type_defs packet_type_defs Let_def)

lemma plain_incoming: "plain d \<Longrightarrow> incoming_packet bystander fresh d s = (Forward d, s)"
  by (auto simp: plain_def incoming_packet_def incoming_struct_def bystander_def by_struct_def verdict_of_def message_type_defs packet_type_defs Let_def)

lemma relays_simps [simp]: "relays p h [] = []" "relays p h (d # ds) = Enet_send p d 0 # Enet_flush h # relays p h ds"
  by (simp_all add: relays_def)

lemma server_ok_calls [simp]: "server_ok (s\<lparr>sv_calls := c\<rparr>) = server_ok s"
  by (simp add: server_ok_def)

lemma conclude_relays:
  assumes "server_ok s" "peer_of s = Some p" "host_of s = Some h"
    and "peer_of = m_server_peer \<and> host_of = m_real_server \<or> peer_of = m_gt_peer \<and> host_of = m_proxy_server"
  shows "conclude data (Forward d) peer_of host_of s = (True, s\<lparr>sv_calls := sv_calls s @ [Enet_send p d 0, Enet_flush h]\<rparr>)"
proof -
  have "fst p \<in> set (sv_live s)" "h \<in> set (sv_live s)"
    using assms(2-4) server_okD [OF assms(1)] by (elim disjE conjE; simp)+
  then show ?thesis using assms(2,3) by (simp add: conclude_def enet_call_def Let_def)
qed

lemma handle_outgoing_relays:
  assumes "server_ok s" "m_gt_peer s = Some p" "m_server_peer s = Some q" "\<forall>d \<in> set ds. plain d"
  shows "handle_outgoing bystander (map (\<lambda>d. (True, True, Event_receive p d)) ds) s = s\<lparr>sv_calls := sv_calls s @ relays q (fst q) ds\<rparr>"
  using assms
proof (induction ds arbitrary: s)
  case (Cons d ds)
  have s: "s\<lparr>m_gt_peer := Some p\<rparr> = s" using Cons.prems(2) by simp
  have "m_real_server s = Some (fst q)" using Cons.prems(1,3) unfolding server_ok_def by blast
  then have "outgoing_event bystander True True (Event_receive p d) s
      = (True, s\<lparr>sv_calls := sv_calls s @ [Enet_send q d 0, Enet_flush (fst q)]\<rparr>)"
    using conclude_relays [of s m_server_peer q m_real_server "fst q" d d] plain_outgoing Cons.prems
    by (simp add: outgoing_event_def s)
  then show ?case
    using Cons.IH [of "s\<lparr>sv_calls := sv_calls s @ [Enet_send q d 0, Enet_flush (fst q)]\<rparr>"] Cons.prems by simp
qed simp

lemma handle_incoming_relays:
  assumes "server_ok s" "m_gt_peer s = Some p" "m_real_server s \<noteq> None" "\<forall>d \<in> set ds. plain d"
  shows "handle_incoming bystander fresh (map (Event_receive q) ds) s = s\<lparr>sv_calls := sv_calls s @ relays p (fst p) ds\<rparr>"
  using assms
proof (induction ds arbitrary: s)
  case (Cons d ds)
  have "m_proxy_server s = Some (fst p)" using Cons.prems(1,2) unfolding server_ok_def by blast
  then have "incoming_event bystander fresh (Event_receive q d) s
      = (True, s\<lparr>sv_calls := sv_calls s @ [Enet_send p d 0, Enet_flush (fst p)]\<rparr>)"
    using conclude_relays [of s m_gt_peer p m_proxy_server "fst p" d d] plain_incoming Cons.prems
    by (simp add: incoming_event_def)
  then show ?case
    using Cons.IH [of "s\<lparr>sv_calls := sv_calls s @ [Enet_send p d 0, Enet_flush (fst p)]\<rparr>"] Cons.prems by simp
qed simp



section \<open>Redirection\<close>

lemma send_packet_sel [simp]:
  "m_real_server (send_packet client p s) = m_real_server s" "m_server_peer (send_packet client p s) = m_server_peer s"
  "m_proxy_server (send_packet client p s) = m_proxy_server s" "sv_live (send_packet client p s) = sv_live s"
  "gt_in_game (send_packet client p s) = gt_in_game s" "gt_connecting (send_packet client p s) = gt_connecting s"
  by (auto simp: send_packet_def Let_def use_host_def enet_call_def split: option.split)

text \<open>
  C36: A redirection destroys the connection's host but keeps the peer, which is then memory that was
  freed: when the client leaves the proxy, as the redirection has told it to, before it has connected
  again, the proxy disconnects that peer.
\<close>

theorem redirect_server_dangles:
  assumes "server_ok s" "m_server_peer s = Some p" "redirect_server fresh varlist s = Some (varlist', s')" "\<not> gt_in_game s"
  shows "m_server_peer s' = Some p \<and> fst p \<notin> set (sv_live s')
    \<and> sv_ub (handle_outgoing H ((host_ok, peer_ok, Event_disconnect q) # evs) s')"
proof -
  have r: "m_real_server s = Some (fst p)" using assms(1,2) unfolding server_ok_def by blast
  have "m_server_peer s' = Some p \<and> fst p \<notin> set (sv_live s') \<and> \<not> gt_in_game s' \<and> gt_connecting s'"
    using assms(2-4) r
    by (auto simp: redirect_server_def drop_real_def send_call_def destroy_host_def enet_call_def use_host_def Let_def split: prod.splits option.splits if_splits)
  then show ?thesis
    by (auto simp: outgoing_event_def server_disconnect_def destroy_host_def enet_call_def use_host_def service_host_def Let_def
        split: option.split)
qed

lemma drop_real_ok:
  assumes "server_ok s"
  shows "step_ok c s True (drop_real s)"
proof (cases "m_real_server s")
  case None
  then show ?thesis using step_ok_refl [OF assms] by (simp add: drop_real_def)
next
  case (Some h)
  have h: "h \<in> set (sv_live s)" using server_okD(2) [OF assms Some] .
  note assms = assms Some
  let ?s = "(destroy_host (Some h) s)\<lparr>m_real_server := None\<rparr>"
  show ?thesis
  proof (cases "m_server_peer s")
    case None
    then have "server_ok ?s" using assms h by (auto simp: destroy_host_def enet_call_def server_ok_def)
    then show ?thesis using h assms(2) by (auto simp: step_ok_def destroy_host_def enet_call_def drop_real_def)
  next
    case (Some p)
    then have "m_real_server s = Some (fst p)" using assms(1) unfolding server_ok_def by blast
    then have p: "fst p = h" using assms(2) by simp
    have "server_stale ?s" using assms h Some p by (auto simp: destroy_host_def enet_call_def server_stale_def server_ok_def)
    then show ?thesis using h assms(2) by (auto simp: step_ok_def destroy_host_def enet_call_def drop_real_def)
  qed
qed

lemma redirect_server_ok:
  assumes "server_ok s" "redirect_server fresh varlist s = Some (varlist', s')"
  shows "step_ok c s True s'"
proof -
  obtain vl a b e d where s': "s' = drop_real (send_call True vl (- 1) 0 fresh
      (s\<lparr>m_port := a, m_token := b, m_user := e, m_server := d, gt_connecting := True\<rparr>))"
    using assms(2) by (auto simp: redirect_server_def Let_def split: prod.splits option.splits)
  let ?s = "s\<lparr>m_port := a, m_token := b, m_user := e, m_server := d, gt_connecting := True\<rparr>"
  have ok: "server_ok ?s" using assms(1) by (simp add: server_ok_def)
  then have "step_ok c s False ?s" by (intro step_okI) simp_all
  then have t: "step_ok c s False (send_call True vl (- 1) 0 fresh ?s)" using step_ok_trans send_call_ok [OF ok] by blast
  then show ?thesis unfolding s' using step_ok_trans [OF t drop_real_ok [OF step_ok_server [OF t]]] by simp
qed

lemma redirect_server_some: "string_find ''|'' (get_string (varlist ! 4)) \<noteq> None \<Longrightarrow> \<exists>varlist' s'. redirect_server fresh varlist s = Some (varlist', s')"
  by (auto simp: redirect_server_def Let_def split: prod.split)

theorem redirect_server_dangles_witness:
  "\<exists>varlist' s'. redirect_server (\<lambda>k. replicate k 0) ((replicate 7 blank_variant)[4 := set_string ''1.2.3.4|0'' blank_variant]) connected_server
      = Some (varlist', s')
    \<and> sv_ub (handle_outgoing bystander [(True, True, Event_disconnect (0, 0))] s')"
proof -
  let ?v = "(replicate 7 blank_variant)[4 := set_string ''1.2.3.4|0'' blank_variant]"
  have "string_find ''|'' (get_string (?v ! 4)) \<noteq> None" by (simp add: get_string_def set_string_def)
  then obtain varlist' s' where "redirect_server (\<lambda>k. replicate k 0) ?v connected_server = Some (varlist', s')"
    using redirect_server_some by blast
  then show ?thesis using redirect_server_dangles [OF connected_ok connected_peers(4) _ connected_peers(5)] by blast
qed

end
