(* ===== verification/Proxy_Texts.thy ===== *)
theory Proxy_Texts
  imports Proxy_Utils Proton_Variant
begin

text \<open>
  How \<^verbatim>\<open>events.cpp\<close> takes texts apart: \<^verbatim>\<open>find\<close> and \<^verbatim>\<open>substr\<close>, \<^verbatim>\<open>stoi\<close> and \<^verbatim>\<open>atoi\<close>, trimming, and
  \<^verbatim>\<open>split\<close>. \<^verbatim>\<open>None\<close> is an exception, in \<^verbatim>\<open>atoi\<close> a number that is too large, in \<^verbatim>\<open>split\<close> a loop
  that does not end.
\<close>

section \<open>Searching\<close>

definition contains :: "string \<Rightarrow> string \<Rightarrow> bool" where
  "contains s p \<longleftrightarrow> string_find p s \<noteq> None"

definition substr :: "nat \<Rightarrow> nat \<Rightarrow> string \<Rightarrow> string option" where
  "substr pos n s = (if pos > length s then None else Some (take n (drop pos s)))"

text \<open>
  \<^verbatim>\<open>s.find(p) + k\<close> and \<^verbatim>\<open>s.length() - s.find(p) - 1\<close>, in unsigned arithmetic: without an occurrence
  \<^verbatim>\<open>find\<close> is the largest number and both wrap around.
\<close>

definition pos_after :: "string \<Rightarrow> nat \<Rightarrow> string \<Rightarrow> nat" where
  "pos_after p k s = (case string_find p s of None \<Rightarrow> k - 1 | Some n \<Rightarrow> n + k)"

definition len_after :: "string \<Rightarrow> string \<Rightarrow> nat" where
  "len_after p s = (case string_find p s of None \<Rightarrow> length s | Some n \<Rightarrow> length s - n - 1)"

definition field_after :: "string \<Rightarrow> nat \<Rightarrow> string \<Rightarrow> string option" where
  "field_after p k s = substr (pos_after p k s) (len_after p s) s"

text \<open>\<^verbatim>\<open>s.substr(0, s.find(p))\<close>\<close>

definition upto :: "string \<Rightarrow> string \<Rightarrow> string" where
  "upto p s = (case string_find p s of None \<Rightarrow> s | Some n \<Rightarrow> take n s)"

definition string_rfind :: "string \<Rightarrow> string \<Rightarrow> nat option" where
  "string_rfind p s =
    (case filter (\<lambda>n. prefix_of p (drop n s)) [0..<Suc (length s)] of [] \<Rightarrow> None | n # ns \<Rightarrow> Some (last (n # ns)))"

text \<open>\<^verbatim>\<open>s.insert(s.find(p), t)\<close> where \<open>p\<close> occurs.\<close>

definition insert_before :: "string \<Rightarrow> string \<Rightarrow> string \<Rightarrow> string" where
  "insert_before p t s = (case string_find p s of None \<Rightarrow> s | Some n \<Rightarrow> take n s @ t @ drop n s)"

definition c_str :: "string \<Rightarrow> string" where
  "c_str s = takeWhile (\<lambda>c. c \<noteq> CHR 0x00) s"

definition to_lower :: "char \<Rightarrow> char" where
  "to_lower c =
    (case map_of (zip ''ABCDEFGHIJKLMNOPQRSTUVWXYZ'' ''abcdefghijklmnopqrstuvwxyz'') c of Some d \<Rightarrow> d | None \<Rightarrow> c)"

definition is_space :: "char \<Rightarrow> bool" where
  "is_space c \<longleftrightarrow> c \<in> set [CHR 0x09, CHR 0x0A, CHR 0x0B, CHR 0x0C, CHR 0x0D, CHR 0x20]"

text \<open>The loop that erases white space at the end.\<close>

definition rtrim :: "string \<Rightarrow> string" where
  "rtrim s = rev (dropWhile is_space (rev s))"

section \<open>Numbers\<close>

definition digits_value :: "string \<Rightarrow> int" where
  "digits_value ds = foldl (\<lambda>n c. 10 * n + (of_char c - 48)) 0 ds"

definition scan_int :: "string \<Rightarrow> int option" where
  "scan_int s =
    (let s = dropWhile is_space (c_str s);
         neg = (s \<noteq> [] \<and> hd s = CHR ''-'');
         s = (if s \<noteq> [] \<and> (hd s = CHR ''-'' \<or> hd s = CHR ''+'') then tl s else s);
         ds = takeWhile is_digit s
     in if ds = [] then None else Some (if neg then - digits_value ds else digits_value ds))"

definition stoi :: "string \<Rightarrow> int option" where
  "stoi s = (case scan_int s of None \<Rightarrow> None | Some n \<Rightarrow> if int32_fits n then Some n else None)"

definition atoi :: "string \<Rightarrow> int option" where
  "atoi s = (case scan_int s of None \<Rightarrow> Some 0 | Some n \<Rightarrow> if int32_fits n then Some n else None)"

section \<open>Splitting\<close>

partial_function (option) split_from :: "string \<Rightarrow> string \<Rightarrow> nat \<Rightarrow> string list option" where
  "split_from str delim prev =
    (let pos = (case string_find delim (drop prev str) of None \<Rightarrow> length str | Some n \<Rightarrow> prev + n);
         token = take (pos - prev) (drop prev str);
         tokens = (if token \<noteq> [] then [token] else [])
     in if pos < length str \<and> pos + length delim < length str
        then Option.bind (split_from str delim (pos + length delim)) (\<lambda>rest. Some (tokens @ rest))
        else Some tokens)"

definition split_text :: "string \<Rightarrow> string \<Rightarrow> string list option" where
  "split_text str delim = split_from str delim 0"

section \<open>Properties\<close>

lemma contains_app: "contains s p \<longleftrightarrow> (\<exists>a b. s = a @ p @ b)"
  unfolding contains_def
proof
  assume "string_find p s \<noteq> None"
  then obtain n where "string_find p s = Some n" by blast
  then show "\<exists>a b. s = a @ p @ b" using string_find_Some by blast
qed (use string_find_None in blast)

lemma pos_after_found: "contains s p \<Longrightarrow> length p \<ge> k \<Longrightarrow> pos_after p k s \<le> length s"
  unfolding contains_def pos_after_def using string_find_Some by (fastforce split: option.split)

lemma field_after_found: "contains s p \<Longrightarrow> length p \<ge> k \<Longrightarrow> field_after p k s \<noteq> None"
  using pos_after_found by (fastforce simp: field_after_def substr_def)

lemma string_find_least: "\<exists>m. string_find p (a @ p @ c) = Some m \<and> m \<le> length a"
proof (induction a)
  case Nil
  have "prefix_of p (p @ c)" unfolding prefix_of_app by blast
  then show ?case by (cases "p @ c") auto
next
  case (Cons d a)
  then show ?case by auto
qed

lemma string_find_first:
  assumes "string_find p s = Some n" "p \<noteq> []"
  shows "\<not> contains (take n s) p"
proof
  assume "contains (take n s) p"
  then obtain a b where ab: "take n s = a @ p @ b" unfolding contains_app by blast
  then have "s = a @ p @ b @ drop n s" using append_take_drop_id [of n s] by simp
  then obtain m where "string_find p s = Some m" "m \<le> length a" using string_find_least by metis
  moreover have "length (take n s) \<le> n" by simp
  ultimately show False using ab assms by (cases p) auto
qed

text \<open>The parts between the delimiters, of which \<^verbatim>\<open>split\<close> keeps those that are not empty.\<close>

lemma split_from_parts:
  assumes "delim \<noteq> []" "prev \<le> length str"
  shows "\<exists>parts. parts \<noteq> [] \<and> split_from str delim prev = Some (filter (\<lambda>t. t \<noteq> []) parts)
    \<and> (\<forall>t \<in> set parts. \<not> contains t delim)
    \<and> (drop prev str = concat (map (\<lambda>t. t @ delim) (butlast parts)) @ last parts
       \<or> drop prev str = concat (map (\<lambda>t. t @ delim) parts))"
  using assms(2)
proof (induction "length str - prev" arbitrary: prev rule: less_induct)
  case less
  let ?s = "drop prev str"
  show ?case
  proof (cases "string_find delim ?s")
    case None
    then have "split_from str delim prev = Some (filter (\<lambda>t. t \<noteq> []) [?s])"
      using less.prems by (subst split_from.simps) simp
    moreover have "\<not> contains ?s delim" using None by (simp add: contains_def)
    ultimately show ?thesis by (intro exI [of _ "[?s]"]) auto
  next
    case (Some n)
    obtain t where t: "?s = take n ?s @ delim @ t" "n + length delim \<le> length ?s" using string_find_Some [OF Some] by blast
    have first: "\<not> contains (take n ?s) delim"
      using string_find_first [OF Some assms(1)] .
    have rest: "drop (prev + n + length delim) str = t"
    proof -
      have "drop (prev + n + length delim) str = drop (n + length delim) ?s" by (simp add: add.commute add.left_commute)
      also have "\<dots> = drop (n + length delim) (take n ?s @ delim @ t)" using t(1) by simp
      also have "\<dots> = t" using t(2) by simp
      finally show ?thesis .
    qed
    have pos: "prev + n < length str" using t(2) assms(1) by (cases delim) auto
    show ?thesis
    proof (cases "prev + n + length delim < length str")
      case True
      have "0 < length delim" using assms(1) by simp
      then have smaller: "length str - (prev + n + length delim) < length str - prev" using True by linarith
      obtain parts where p: "parts \<noteq> []" "split_from str delim (prev + n + length delim) = Some (filter (\<lambda>t. t \<noteq> []) parts)"
        "\<forall>t \<in> set parts. \<not> contains t delim"
        "t = concat (map (\<lambda>t. t @ delim) (butlast parts)) @ last parts \<or> t = concat (map (\<lambda>t. t @ delim) parts)"
        using less.hyps [of "prev + n + length delim"] True smaller rest by auto
      have "split_from str delim prev = Some (filter (\<lambda>t. t \<noteq> []) (take n ?s # parts))"
        using Some True pos p(2) by (subst split_from.simps) (simp add: Let_def)
      moreover have "?s = concat (map (\<lambda>t. t @ delim) (butlast (take n ?s # parts))) @ last (take n ?s # parts)
          \<or> ?s = concat (map (\<lambda>t. t @ delim) (take n ?s # parts))"
        using t(1) p(1,4) by auto
      ultimately show ?thesis using p(3) first by (intro exI [of _ "take n ?s # parts"]) auto
    next
      case False
      then have "t = []" using rest by auto
      have "split_from str delim prev = Some (filter (\<lambda>t. t \<noteq> []) [take n ?s])"
        using Some False by (subst split_from.simps) (simp add: Let_def)
      moreover have "?s = concat (map (\<lambda>t. t @ delim) [take n ?s])" using t(1) \<open>t = []\<close> by simp
      ultimately show ?thesis using first by (intro exI [of _ "[take n ?s]"]) auto
    qed
  qed
qed

text \<open>With an empty delimiter the position never moves.\<close>

lemma split_from_diverges: "str \<noteq> [] \<Longrightarrow> split_from str [] 0 = None"
proof (rule ccontr)
  assume str: "str \<noteq> []" and "split_from str [] 0 \<noteq> None"
  then obtain r where r: "split_from str [] 0 = Some r" by blast
  have "str \<noteq> [] \<longrightarrow> delim = [] \<longrightarrow> prev = 0 \<longrightarrow> False" if "split_from str delim prev = Some r" for str delim prev r
  proof (rule split_from.raw_induct [of "\<lambda>str delim prev r. str \<noteq> [] \<longrightarrow> delim = [] \<longrightarrow> prev = 0 \<longrightarrow> False", OF _ that])
    fix f :: "string \<Rightarrow> string \<Rightarrow> nat \<Rightarrow> string list option" and str delim prev r
    assume IH: "\<And>str delim prev r. f str delim prev = Some r \<Longrightarrow> str \<noteq> [] \<longrightarrow> delim = [] \<longrightarrow> prev = 0 \<longrightarrow> False"
      and body: "(let pos = (case string_find delim (drop prev str) of None \<Rightarrow> length str | Some n \<Rightarrow> prev + n);
            token = take (pos - prev) (drop prev str); tokens = (if token \<noteq> [] then [token] else [])
        in if pos < length str \<and> pos + length delim < length str
           then Option.bind (f str delim (pos + length delim)) (\<lambda>rest. Some (tokens @ rest)) else Some tokens) = Some r"
    show "str \<noteq> [] \<longrightarrow> delim = [] \<longrightarrow> prev = 0 \<longrightarrow> False"
    proof (intro impI)
      assume *: "str \<noteq> []" "delim = []" "prev = 0"
      then obtain c cs where "str = c # cs" by (cases str) auto
      then have "Option.bind (f str [] 0) (\<lambda>rest. Some rest) = Some r" using body * by (simp add: Let_def)
      then show False using IH * by (auto simp: bind_eq_Some_conv)
    qed
  qed
  then show False using r str by blast
qed

text \<open>
  C37: \<^verbatim>\<open>split\<close> returns when the delimiter is not empty: it gives the parts of the text between its
  occurrences, in order, but for the empty ones. With an empty delimiter it runs for ever on any text.
\<close>

theorem split_returns:
  "if delim \<noteq> []
   then \<exists>parts. split_text str delim = Some (filter (\<lambda>t. t \<noteq> []) parts) \<and> (\<forall>t \<in> set parts. \<not> contains t delim)
     \<and> str \<in> {concat (map (\<lambda>t. t @ delim) (butlast parts)) @ last parts, concat (map (\<lambda>t. t @ delim) parts)}
   else str \<noteq> [] \<longrightarrow> split_text str delim = None"
  using split_from_parts [of delim 0 str] split_from_diverges [of str] by (auto simp: split_text_def)

theorem split_returns_witness:
  "\<exists>parts. split_text ''a||b'' ''|'' = Some (filter (\<lambda>t. t \<noteq> []) parts) \<and> (\<forall>t \<in> set parts. \<not> contains t ''|'')"
  using split_returns [of "''|''" "''a||b''"] by auto

end
