(* ===== verification/Proxy_Dialog.thy ===== *)
theory Proxy_Dialog
  imports Cpp_Strings
begin

text \<open>
  \<^verbatim>\<open>dialog.cpp\<close>: the builder of dialog descriptions. The object is its text \<^verbatim>\<open>dialogstr\<close>.
\<close>

section \<open>The builder\<close>

datatype LabelStyles = LABEL_BIG | LABEL_SMALL
datatype SpacerTypes = SPACER_BIG | SPACER_SMALL

abbreviation newline :: string where "newline \<equiv> [CHR 0x0A]"

definition addSpacer :: "SpacerTypes \<Rightarrow> string \<Rightarrow> string" where
  "addSpacer type dialogstr =
    (case type of
       SPACER_BIG \<Rightarrow> dialogstr @ ''add_spacer|big|'' @ newline
     | SPACER_SMALL \<Rightarrow> dialogstr @ ''add_spacer|small|'' @ newline)"

definition addItemWithCustomText :: "string \<Rightarrow> string \<Rightarrow> string \<Rightarrow> string \<Rightarrow> string" where
  "addItemWithCustomText itemID textUnderButton buttonName dialogstr =
    dialogstr @ newline @ ''add_button_with_icon|'' @ buttonName @ ''|'' @ textUnderButton @ ''|staticBlueFrame|'' @ itemID @ ''|''"

definition addNewLineAfterFrame :: "string \<Rightarrow> string" where
  "addNewLineAfterFrame dialogstr = dialogstr @ newline @ ''add_button_with_icon||END_LIST|noflags|0|0|''"

definition addPicker :: "string \<Rightarrow> string \<Rightarrow> string \<Rightarrow> string \<Rightarrow> string" where
  "addPicker pickername pickertext headText dialogstr =
    dialogstr @ newline @ ''add_item_picker|'' @ pickername @ ''|'' @ pickertext @ ''|'' @ headText @ ''|''"

definition addStaticBlueFrame :: "string \<Rightarrow> string \<Rightarrow> string \<Rightarrow> bool \<Rightarrow> string \<Rightarrow> string" where
  "addStaticBlueFrame itemID textUnderFrame buttonName isEndLine dialogstr =
    (if isEndLine = False then
       dialogstr @ newline @ ''add_button_with_icon|'' @ buttonName @ ''||staticBlueFrame|'' @ itemID @ ''|'' @ textUnderFrame @ ''|''
     else
       dialogstr @ newline @ ''add_button_with_icon||END_LIST|noflags|0|0|'' @ newline @ ''add_button_with_icon|'' @ buttonName
         @ ''||staticBlueFrame|'' @ itemID @ ''|'' @ textUnderFrame @ ''|'')"

definition addStaticBlueFrameWithIdCountText :: "string \<Rightarrow> string \<Rightarrow> string \<Rightarrow> string \<Rightarrow> bool \<Rightarrow> string \<Rightarrow> string" where
  "addStaticBlueFrameWithIdCountText itemID cnt textUnderFrame buttonName isEndLine dialogstr =
    (if isEndLine = False then
       dialogstr @ newline @ ''add_button_with_icon|'' @ buttonName @ ''|'' @ textUnderFrame @ ''|frame|'' @ itemID @ ''|'' @ cnt @ ''|''
     else
       dialogstr @ newline @ ''add_button_with_icon||END_LIST|noflags|0|0|'' @ newline @ ''add_button_with_icon|'' @ buttonName
         @ ''|'' @ textUnderFrame @ ''|frame|'' @ itemID @ ''|'' @ cnt @ ''|'')"

definition addLabelWithIcon :: "string \<Rightarrow> int \<Rightarrow> LabelStyles \<Rightarrow> string \<Rightarrow> string" where
  "addLabelWithIcon text tileid type dialogstr =
    (case type of
       LABEL_BIG \<Rightarrow> dialogstr @ ''add_label_with_icon|big|'' @ text @ ''|left|'' @ show_int tileid @ ''|'' @ newline
     | LABEL_SMALL \<Rightarrow> dialogstr @ ''add_label_with_icon|small|'' @ text @ ''|left|'' @ show_int tileid @ ''|'' @ newline)"

definition addLabelWithIconButton :: "string \<Rightarrow> int \<Rightarrow> string \<Rightarrow> string \<Rightarrow> string" where
  "addLabelWithIconButton text tileid buttontext dialogstr =
    dialogstr @ ''add_label_with_icon_button||'' @ text @ ''|left|'' @ show_int tileid @ ''|'' @ buttontext @ ''|'' @ newline"

definition addButton :: "string \<Rightarrow> string \<Rightarrow> string \<Rightarrow> string" where
  "addButton buttonname buttontext dialogstr =
    dialogstr @ ''add_button|'' @ buttonname @ ''|'' @ buttontext @ ''|noflags|0|0|'' @ newline"

definition addCheckbox :: "string \<Rightarrow> string \<Rightarrow> bool \<Rightarrow> string \<Rightarrow> string" where
  "addCheckbox checkboxname text checked dialogstr =
    (if checked then dialogstr @ ''add_checkbox|'' @ checkboxname @ ''|'' @ text @ ''|1|'' @ newline
     else dialogstr @ ''add_checkbox|'' @ checkboxname @ ''|'' @ text @ ''|0|'' @ newline)"

definition addTextBox :: "string \<Rightarrow> string \<Rightarrow> string" where
  "addTextBox str dialogstr = dialogstr @ ''add_textbox|'' @ str @ ''|left|'' @ newline"

definition addSmallText :: "string \<Rightarrow> string \<Rightarrow> string" where
  "addSmallText str dialogstr = dialogstr @ ''add_smalltext|'' @ str @ ''|'' @ newline"

definition addInputBox :: "string \<Rightarrow> string \<Rightarrow> string \<Rightarrow> int \<Rightarrow> string \<Rightarrow> string" where
  "addInputBox name text cont sz dialogstr =
    dialogstr @ ''add_text_input|'' @ name @ ''|'' @ text @ ''|'' @ cont @ ''|'' @ show_int sz @ ''|'' @ newline"

definition addQuickExit :: "string \<Rightarrow> string" where
  "addQuickExit dialogstr = dialogstr @ ''add_quick_exit|'' @ newline"

definition endDialog :: "string \<Rightarrow> string \<Rightarrow> string \<Rightarrow> string \<Rightarrow> string" where
  "endDialog name accept nvm dialogstr =
    dialogstr @ ''end_dialog|'' @ name @ ''|'' @ nvm @ ''|'' @ accept @ ''|'' @ newline"

definition addCustom :: "string \<Rightarrow> string \<Rightarrow> string" where
  "addCustom name dialogstr = dialogstr @ name @ newline"

definition finishDialog :: "string \<Rightarrow> string" where
  "finishDialog dialogstr = dialogstr"

section \<open>The lines of a dialog\<close>

text \<open>The calls that add a line, with the fields between its bars.\<close>

datatype dialog_line =
    Spacer SpacerTypes
  | LabelIcon string int LabelStyles
  | LabelButton string int string
  | Button string string
  | Checkbox string string bool
  | TextBox string
  | SmallText string
  | InputBox string string string int
  | QuickExit
  | EndDialog string string string

fun add_line :: "dialog_line \<Rightarrow> string \<Rightarrow> string" where
  "add_line (Spacer t) = addSpacer t"
| "add_line (LabelIcon s n t) = addLabelWithIcon s n t"
| "add_line (LabelButton s n b) = addLabelWithIconButton s n b"
| "add_line (Button n b) = addButton n b"
| "add_line (Checkbox n s c) = addCheckbox n s c"
| "add_line (TextBox s) = addTextBox s"
| "add_line (SmallText s) = addSmallText s"
| "add_line (InputBox n s c z) = addInputBox n s c z"
| "add_line QuickExit = addQuickExit"
| "add_line (EndDialog n a v) = endDialog n a v"

fun line_fields :: "dialog_line \<Rightarrow> string list" where
  "line_fields (Spacer t) = [''add_spacer'', case t of SPACER_BIG \<Rightarrow> ''big'' | SPACER_SMALL \<Rightarrow> ''small'']"
| "line_fields (LabelIcon s n t) =
    [''add_label_with_icon'', case t of LABEL_BIG \<Rightarrow> ''big'' | LABEL_SMALL \<Rightarrow> ''small'', s, ''left'', show_int n]"
| "line_fields (LabelButton s n b) = [''add_label_with_icon_button'', [], s, ''left'', show_int n, b]"
| "line_fields (Button n b) = [''add_button'', n, b, ''noflags'', ''0'', ''0'']"
| "line_fields (Checkbox n s c) = [''add_checkbox'', n, s, if c then ''1'' else ''0'']"
| "line_fields (TextBox s) = [''add_textbox'', s, ''left'']"
| "line_fields (SmallText s) = [''add_smalltext'', s]"
| "line_fields (InputBox n s c z) = [''add_text_input'', n, s, c, show_int z]"
| "line_fields QuickExit = [''add_quick_exit'']"
| "line_fields (EndDialog n a v) = [''end_dialog'', n, v, a]"

definition barred :: "string list \<Rightarrow> string" where
  "barred fs = concat (map (\<lambda>f. f @ ''|'') fs)"

lemma add_line_barred: "add_line d s = s @ barred (line_fields d) @ newline"
  by (cases d) (auto simp: barred_def addSpacer_def addLabelWithIcon_def addLabelWithIconButton_def addButton_def addCheckbox_def
      addTextBox_def addSmallText_def addInputBox_def addQuickExit_def endDialog_def split: SpacerTypes.split LabelStyles.split)

definition clean :: "string \<Rightarrow> bool" where
  "clean s \<longleftrightarrow> CHR ''|'' \<notin> set s \<and> CHR 0x0A \<notin> set s"

text \<open>
  C34: The text of a dialog is read back, line by line and field by field, as the calls that built
  it, in their order, provided that no argument holds a bar or a line break.
\<close>

theorem dialog_read_back:
  assumes "list_all (\<lambda>d. list_all clean (line_fields d)) ds"
  shows "map (getlines (CHR ''|'')) (getlines (CHR 0x0A) (finishDialog (fold add_line ds []))) = map line_fields ds"
proof -
  have run: "fold add_line ds s = s @ concat (map (\<lambda>d. barred (line_fields d) @ newline) ds)" for s
    by (induction ds arbitrary: s) (simp_all add: add_line_barred)
  have "list_all (\<lambda>s. CHR 0x0A \<notin> set s) (map (barred \<circ> line_fields) ds)"
    using assms by (auto simp: list_all_iff barred_def clean_def)
  from getlines_lines [OF this] have "getlines (CHR 0x0A) (fold add_line ds []) = map (barred \<circ> line_fields) ds"
    by (simp add: run comp_def)
  moreover have "getlines (CHR ''|'') (barred fs) = fs" if "list_all clean fs" for fs
    unfolding barred_def by (rule getlines_lines) (use that in \<open>auto simp: list_all_iff clean_def\<close>)
  ultimately show ?thesis using assms by (auto simp: finishDialog_def list_all_iff)
qed

theorem dialog_read_back_witness:
  "map (getlines (CHR ''|'')) (getlines (CHR 0x0A) (finishDialog (fold add_line [TextBox ''Hi'', QuickExit, EndDialog ''d'' ''OK'' ''''] [])))
   = map line_fields [TextBox ''Hi'', QuickExit, EndDialog ''d'' ''OK'' '''']"
  by (rule dialog_read_back) (simp add: clean_def)

end
