(* ===== verification/Proxy_Handlers.thy ===== *)
theory Proxy_Handlers
  imports Proxy_Server Proxy_Texts Proxy_Dialog Proton_Rtvar
begin

text \<open>
  What the handlers of \<^verbatim>\<open>events.cpp\<close> are made of: blocks that run one after the other until one
  returns, throws or is undefined, and the texts and dialogs that are sent more than once.
\<close>

section \<open>The surroundings\<close>

text \<open>
  What comes from outside the program: the contents of fresh memory, the answer to an HTTP request
  (\<open>None\<close> is an exception), what \<^verbatim>\<open>ret.erase(ret.end())\<close> leaves of a text, which the language does not
  define, a float divided by 32 and cut to a whole number, a number as a float, and the random numbers.
\<close>

record externals =
  x_fresh :: "nat \<Rightarrow> u8 list"
  x_answer :: "string \<Rightarrow> string option"
  x_erase_end :: "string \<Rightarrow> string"
  x_tile :: "float32 \<Rightarrow> int"
  x_float :: "int \<Rightarrow> float32"
  x_mac :: "u8 list"
  x_wk :: "u8 list"
  x_rid :: "u8 list"
  x_fz :: int
  x_zf :: int
  x_hash :: int

section \<open>Blocks\<close>

type_synonym step = "server \<Rightarrow> reply option \<times> server"

fun steps :: "step list \<Rightarrow> step" where
  "steps [] s = (None, s)"
| "steps (f # fs) s = (case f s of (None, s) \<Rightarrow> steps fs s | (Some r, s) \<Rightarrow> (Some r, s))"

definition run_steps :: "step list \<Rightarrow> server \<Rightarrow> reply \<times> server" where
  "run_steps fs s = (case steps fs s of (None, s) \<Rightarrow> (Returns False, s) | (Some r, s) \<Rightarrow> (r, s))"

text \<open>A block that goes on, one that returns, and one that may be taken.\<close>

definition go :: "(server \<Rightarrow> server) \<Rightarrow> step" where
  "go f s = (None, f s)"

definition return_after :: "bool \<Rightarrow> (server \<Rightarrow> server) \<Rightarrow> step" where
  "return_after b f s = (Some (Returns b), f s)"

definition throw :: step where "throw s = (Some Throws, s)"
definition undef :: step where "undef s = (Some Undefined, s)"

definition on :: "bool \<Rightarrow> step \<Rightarrow> step" where
  "on b f s = (if b then f s else (None, s))"

text \<open>A value that may be missing, because the expression throws or because it is undefined.\<close>

definition get_or_throw :: "'a option \<Rightarrow> ('a \<Rightarrow> step) \<Rightarrow> step" where
  "get_or_throw v f s = (case v of None \<Rightarrow> throw s | Some x \<Rightarrow> f x s)"

definition get_or_undef :: "'a option \<Rightarrow> ('a \<Rightarrow> step) \<Rightarrow> step" where
  "get_or_undef v f s = (case v of None \<Rightarrow> undef s | Some x \<Rightarrow> f x s)"

definition set_globals :: "(globals \<Rightarrow> globals) \<Rightarrow> server \<Rightarrow> server" where
  "set_globals f s = s\<lparr>sv_globals := f (sv_globals s)\<rparr>"

section \<open>What is sent\<close>

definition new_list :: "string \<Rightarrow> variantlist_t" where
  "new_list func = (replicate 7 blank_variant)[0 := set_string func blank_variant]"

definition set_param_string :: "nat \<Rightarrow> string \<Rightarrow> variantlist_t \<Rightarrow> variantlist_t" where
  "set_param_string i x varlist = varlist[i := set_string x (varlist ! i)]"

definition set_param_int :: "nat \<Rightarrow> int \<Rightarrow> variantlist_t \<Rightarrow> variantlist_t" where
  "set_param_int i x varlist = varlist[i := set_int32 (of_int x) (varlist ! i)]"

text \<open>\<^verbatim>\<open>send\<close> with its default arguments.\<close>

definition send_action :: "string \<Rightarrow> server \<Rightarrow> server" where
  "send_action text = send_text False text 2"

definition send_list :: "externals \<Rightarrow> variantlist_t \<Rightarrow> server \<Rightarrow> server" where
  "send_list ex varlist = send_call True varlist (- 1) 0 (x_fresh ex)"

definition send_dialog :: "externals \<Rightarrow> string \<Rightarrow> server \<Rightarrow> server" where
  "send_dialog ex text = send_list ex (set_param_string 1 text (new_list ''OnDialogRequest''))"

definition send_overlay :: "externals \<Rightarrow> string \<Rightarrow> server \<Rightarrow> server" where
  "send_overlay ex text = send_list ex (set_param_string 1 text (new_list ''OnTextOverlay''))"

definition critical_error :: "server \<Rightarrow> server" where
  "critical_error = send_log ''`4Critical Error: `2override detected''"

definition numbers_only :: "server \<Rightarrow> server" where
  "numbers_only = send_log ''`4Critical Error: `9Please enter numbers only.''"

text \<open>A dialog, call by call, and one given line by line.\<close>

definition dialog :: "(string \<Rightarrow> string) list \<Rightarrow> string" where
  "dialog calls = finishDialog (fold (\<lambda>f. f) calls [])"

definition nl_lines :: "string list \<Rightarrow> string" where
  "nl_lines ls = concat (map (\<lambda>l. newline @ l) ls)"

definition options_dialog :: "server \<Rightarrow> string" where
  "options_dialog s =
    (let g = sv_globals s in
     dialog [addLabelWithIcon ''Options Page'' 758 LABEL_BIG, addSpacer SPACER_SMALL,
       addCheckbox ''roulette2'' ''Enable Auto Pull'' (autopull g),
       addCheckbox ''wrenchpull'' (''Enable Wrench '' @ o_mode g) (wrenchpull g),
       addCheckbox ''fastdrop'' ''Enable Fast Drop'' (fastdrop g),
       addCheckbox ''fasttrash'' ''Enable Fast Trash'' (fasttrash g),
       addCheckbox ''dicespeed'' ''Enable Dice Speed'' (out_dicespeed s),
       addCheckbox ''worldbanmod'' ''Exit world when mod joins'' (worldbanjoinmod g),
       addCheckbox ''visualspin'' ''Enable Visual Spin'' (visualspin g),
       addCheckbox ''autohosts'' ''Enable Show X,Y Position'' (autohosts g),
       addCheckbox ''wltroll1'' ''Enable World Lock Troll'' (wltroll g),
       addInputBox ''roulette5'' ''Number:'' (show_int (ruletsayi g)) 2,
       addInputBox ''saveworld'' ''Save World:'' (saveworld g) 12,
       endDialog ''end'' ''Okey'' ''Cancel''])"

section \<open>\<^verbatim>\<open>gt.cpp\<close>\<close>

definition captcha_question :: string where
  "captcha_question = ''set_default_color|`o'' @ newline @ ''add_label_with_icon|big|`wAre you Human?``|left|206|'' @ newline
     @ ''add_spacer|small|'' @ newline @ ''add_textbox|What will be the sum of the following numbers|left|'' @ newline @ ''add_textbox|''"

definition captcha_answer :: string where
  "captcha_answer = ''|left|'' @ newline @ ''add_text_input|captcha_answer|Answer:||32|'' @ newline @ ''end_dialog|captcha_submit||Submit|''"

text \<open>The block that calls \<^verbatim>\<open>solve_captcha\<close> and then returns true.\<close>

definition solve_captcha :: "string \<Rightarrow> step" where
  "solve_captcha text =
    (let text = snd (utils_replace text captcha_question []);
         text = snd (utils_replace text captcha_answer []);
         number1 = upto '' +'' text
     in get_or_throw (substr (length number1 + 3) (length text) text) (\<lambda>number2.
          get_or_undef (atoi number1) (\<lambda>a. get_or_undef (atoi number2) (\<lambda>b.
            if \<not> int32_fits (a + b) then undef
            else return_after True (\<lambda>s.
              send_action (''action|dialog_return'' @ newline @ ''dialog_name|captcha_submit'' @ newline @ ''captcha_answer|'' @ show_int (a + b))
                (send_log (''Solved captcha as `2'' @ show_int (a + b) @ ''``'') s))))))"

definition resolve_uid_to_name :: "string \<Rightarrow> server \<Rightarrow> server" where
  "resolve_uid_to_name uid s =
    set_globals (\<lambda>g. g\<lparr>gt_resolving_uid := True\<rparr>)
      (send_action (''action|dialog_return'' @ newline @ ''dialog_name|show_mentees'' @ newline @ ''buttonClicked|'' @ uid)
        (send_action (''action|dialog_return'' @ newline @ ''dialog_name|friends_guilds'' @ newline @ ''buttonClicked|show_apprentices'')
          (send_action ''action|friends'' s)))"

end
