(* ===== verification/Proxy_Generic.thy ===== *)
theory Proxy_Generic
  imports Proxy_Handlers
begin

text \<open>
  \<^verbatim>\<open>events::out::generictext\<close>: the settings that the proxy's dialogs send back, the commands of the
  chat, and the spoofed login.
\<close>

section \<open>Settings\<close>

text \<open>
  Most settings: where \<open>key\<close> occurs, the number after \<open>field\<close>, whose four characters are looked for on
  their own, is stored. An exception is caught and reported.
\<close>

definition number_after :: "string \<Rightarrow> (string \<Rightarrow> string) \<Rightarrow> string \<Rightarrow> int option" where
  "number_after field trim packet =
    Option.bind (substr (pos_after field 4 packet) (length packet) packet) (\<lambda>aaa. stoi (trim (c_str aaa)))"

definition setting :: "string \<Rightarrow> string \<Rightarrow> (string \<Rightarrow> string) \<Rightarrow> (int \<Rightarrow> server \<Rightarrow> server) \<Rightarrow> string \<Rightarrow> step" where
  "setting key field trim store packet =
    on (contains packet key) (go (\<lambda>s.
      case number_after field trim packet of None \<Rightarrow> critical_error s | Some n \<Rightarrow> store n s))"

definition store_wltroll :: "int \<Rightarrow> server \<Rightarrow> server" where
  "store_wltroll n s =
    (if n \<noteq> 0 then send_log ''`9worldlock`` trolling mode is now `2on'' else send_log ''`9worldlock`` trolling mode is now `4off'')
      (set_globals (\<lambda>g. g\<lparr>wltroll := n \<noteq> 0\<rparr>) s)"

definition store_worldban :: "int \<Rightarrow> server \<Rightarrow> server" where
  "store_worldban n s =
    (let s = set_globals (\<lambda>g. g\<lparr>worldbanjoinmod := n \<noteq> 0\<rparr>) s in
     if n \<noteq> 0
     then send_log ''`9Successfuly started checking entered for `#@Moderators `9and `#@Guardians`9, please wait...'' s
     else s)"

definition first_settings :: "string \<Rightarrow> step list" where
  "first_settings packet =
    [setting ''roulette2|'' ''te2|'' id (\<lambda>n. set_globals (\<lambda>g. g\<lparr>autopull := n \<noteq> 0\<rparr>)) packet,
     setting ''fastdrop|'' ''rop|'' id (\<lambda>n. set_globals (\<lambda>g. g\<lparr>fastdrop := n \<noteq> 0\<rparr>)) packet,
     setting ''fasttrash|'' ''ash|'' id (\<lambda>n. set_globals (\<lambda>g. g\<lparr>fasttrash := n \<noteq> 0\<rparr>)) packet,
     setting ''visualspin|'' ''pin|'' id (\<lambda>n. set_globals (\<lambda>g. g\<lparr>visualspin := n \<noteq> 0\<rparr>)) packet,
     setting ''fastmode|'' ''ode|'' id (\<lambda>n. set_globals (\<lambda>g. g\<lparr>fastmmode := n \<noteq> 0\<rparr>)) packet,
     setting ''autotax|'' ''tax|'' id (\<lambda>n. set_globals (\<lambda>g. g\<lparr>taxsystem := n \<noteq> 0\<rparr>)) packet,
     setting ''wltroll1|'' ''ll1|'' id store_wltroll packet,
     setting ''taxamount|'' ''unt|'' id (\<lambda>n. set_globals (\<lambda>g. g\<lparr>yuzde := n\<rparr>)) packet,
     setting ''roulette5'' ''te5|'' rtrim (\<lambda>n. set_globals (\<lambda>g. g\<lparr>ruletsayi := n\<rparr>)) packet,
     setting ''dicespeed|'' ''eed|'' id (\<lambda>n s. s\<lparr>out_dicespeed := n \<noteq> 0\<rparr>) packet,
     setting ''worldbanmod|'' ''mod|'' id store_worldban packet,
     setting ''wrenchpull|'' ''ull|'' rtrim (\<lambda>n. set_globals (\<lambda>g. g\<lparr>wrenchpull := n \<noteq> 0\<rparr>)) packet,
     setting ''autohosts|'' ''sts|'' id (\<lambda>n. set_globals (\<lambda>g. g\<lparr>autohosts := n \<noteq> 0\<rparr>)) packet]"

definition country_list :: string where
  "country_list = nl_lines [''add_label_with_icon|big|Country List|left|3394|'', ''add_spacer|small'',
     ''add_textbox|`otr: Turkey|left|2480|'', ''add_textbox|`oen: USA|left|2480|'', ''add_textbox|`okr: Korean|left|2480|'',
     ''add_textbox|`oid: Indonesia|left|2480|'', ''add_textbox|`oaf: Afghanistan|left|2480|'', ''add_textbox|`oal: Albania|left|2480|'',
     ''add_textbox|`odz: Algeria|left|2480|'', ''add_textbox|`oas: American Samoa|left|2480|'', ''add_textbox|`oad: Andorra|left|2480|'',
     ''add_textbox|`oao: Angola|left|2480|'', ''add_textbox|`oai: Anguilla|left|2480|'', ''add_textbox|`oaq: Antarctica|left|2480|'',
     ''add_textbox|`oag: Antigua and Barbuda|left|2480|'', ''add_textbox|`oar: Argentina|left|2480|'',
     ''add_textbox|`oam: Armenia|left|2480|'', ''add_textbox|`oth: Thailand|left|2480|'', ''add_textbox|`oes: Spain|left|2480|'',
     ''add_textbox|`oso: Somalia|left|2480|'', ''add_textbox|`ose: Sweden|left|2480|'', ''add_quick_exit|'',
     ''end_dialog|end|Cancel|Okay|'']"

definition country_setting :: "externals \<Rightarrow> string \<Rightarrow> step" where
  "country_setting ex packet =
    on (contains packet ''countryzz|'') (go (\<lambda>s.
      case substr (pos_after ''yzz|'' 4 packet) (length packet) packet of
        None \<Rightarrow> critical_error s
      | Some aaa \<Rightarrow>
          if contains packet ''buttonClicked|countrylist'' then send_dialog ex country_list s
          else
            let name = c_str (rtrim aaa);
                s = set_globals (\<lambda>g. g\<lparr>country := name\<rparr>) s;
                s = send_overlay ex ''Your country Successfuly changed!, Disconnecting'' s;
                s = set_globals (\<lambda>g. g\<lparr>gt_flag := country g\<rparr>) s
            in server_disconnectsr True (send_log ''Disconnected?! Will attempt to reconnect..'' s)))"

text \<open>
  The settings whose text is cut out before the \<^verbatim>\<open>try\<close>, and \<^verbatim>\<open>saveworld\<close>, whose exceptions are
  swallowed.
\<close>

definition position_setting :: "string \<Rightarrow> string \<Rightarrow> (string \<Rightarrow> string) \<Rightarrow> (int \<Rightarrow> server \<Rightarrow> server) \<Rightarrow> string \<Rightarrow> step" where
  "position_setting key field trim store packet =
    on (contains packet key) (get_or_throw (substr (pos_after field 4 packet) (length packet) packet) (\<lambda>aaa. go (\<lambda>s.
      case stoi (c_str (trim aaa)) of None \<Rightarrow> numbers_only s | Some n \<Rightarrow> store n s)))"

definition saveworld_setting :: "string \<Rightarrow> step" where
  "saveworld_setting packet =
    on (contains packet ''saveworld|'') (go (\<lambda>s.
      case substr (pos_after ''rld|'' 4 packet) (length packet) packet of
        None \<Rightarrow> s | Some aaa \<Rightarrow> set_globals (\<lambda>g. g\<lparr>saveworld := rtrim aaa\<rparr>) s))"

definition mode_button :: "string \<Rightarrow> string \<Rightarrow> string \<Rightarrow> step" where
  "mode_button button mode packet = on (contains packet button) (go (set_globals (\<lambda>g. g\<lparr>o_mode := mode\<rparr>)))"

section \<open>Everyone in the world\<close>

text \<open>
  \<^verbatim>\<open>worldoptions\<close>, for one player. The condition is the position of \<^verbatim>\<open>all\<close> in the name, which is
  false only at its beginning.
\<close>

definition player_option :: "string \<Rightarrow> player \<Rightarrow> step" where
  "player_option option p s =
    get_or_throw (substr 2 (length (pl_name p)) (pl_name p)) (\<lambda>plain.
      on (string_find ''all'' (map to_lower plain) \<noteq> Some 0 \<and> option \<in> {''pull'', ''kick'', ''ban''})
        (let bruh = pl_name (wd_local (m_world s)) in
         get_or_throw (substr 2 (length bruh) bruh) (\<lambda>own.
           let n = (if length (pl_name p) < 4 then max (length plain) (length own) else length (pl_name p) - 4);
               plyr = take n plain
           in on (plyr \<noteq> take n own) (go (send_action (''action|input'' @ newline @ ''|text|/'' @ option @ '' '' @ plyr)))))) s"

definition worldoptions :: "string \<Rightarrow> step" where
  "worldoptions option s = steps (map (player_option option) (wd_players (m_world s))) s"

definition worldoptions_button :: "string \<Rightarrow> string \<Rightarrow> string \<Rightarrow> step" where
  "worldoptions_button button option packet = on (contains packet button) (worldoptions option)"

definition later_settings :: "externals \<Rightarrow> string \<Rightarrow> step list" where
  "later_settings ex packet =
    [country_setting ex packet,
     on (contains packet ''buttonClicked|optionzzz'') (go (\<lambda>s. send_dialog ex (options_dialog s) s)),
     position_setting ''xvault111|'' ''111|'' id
       (\<lambda>n s. send_log (''posx: '' @ show_int n) (set_globals (\<lambda>g. g\<lparr>posx := n\<rparr>) s)) packet,
     saveworld_setting packet,
     position_setting ''2vault222|'' ''222|'' rtrim
       (\<lambda>n s. send_log (''posy: '' @ show_int n) (set_globals (\<lambda>g. g\<lparr>posy := n\<rparr>) s)) packet,
     mode_button ''buttonClicked|iso11pul1'' ''`5Pull'' packet,
     mode_button ''buttonClicked|bannj'' ''`4Ban'' packet,
     mode_button ''buttonClicked|kicj'' ''`4Kick'' packet,
     position_setting ''iditemzz1|'' ''zz1|'' rtrim (\<lambda>n. set_globals (\<lambda>g. g\<lparr>iditemm := n\<rparr>)) packet,
     worldoptions_button ''buttonClicked|killall'' ''kick'' packet,
     worldoptions_button ''buttonClicked|banall'' ''ban'' packet,
     worldoptions_button ''buttonClicked|pullall'' ''pull'' packet,
     on (contains packet ''buttonClicked|ubaworld'') (go (send_action (''action|input'' @ newline @ ''|text|/uba'')))]"

text \<open>A wrenched player is pulled, kicked or banned at once.\<close>

definition popup_action :: "string \<Rightarrow> string \<Rightarrow> string" where
  "popup_action netid button = ''action|dialog_return'' @ newline @ ''dialog_name|popup'' @ newline @ ''netID|'' @ netid @ ''|'' @ newline
     @ ''netID|'' @ netid @ ''|'' @ newline @ ''buttonClicked|'' @ button"

definition wrench_step :: "externals \<Rightarrow> string \<Rightarrow> step" where
  "wrench_step ex packet s =
    on (wrenchpull (sv_globals s) \<and> contains packet ''action|wrench'') (\<lambda>s.
      let s = send_action packet s in
      get_or_throw (field_after ''netid|'' 6 packet) (\<lambda>str.
        let gta5 = upto ''|'' str; mode = o_mode (sv_globals s) in
        return_after True (\<lambda>s.
          let s = (if mode = ''`5Pull'' then send_action (popup_action gta5 ''pull'') s else s);
              s = (if mode = ''`4Kick'' then send_action (popup_action gta5 ''kick'') s else s);
              s = (if mode = ''`4Ban'' then send_action (popup_action gta5 ''worldban'') s else s)
          in send_overlay ex (''Successfuly '' @ mode @ ''`` netID: '' @ gta5) s)) s) s"

section \<open>Commands\<close>

text \<open>A command that is found is echoed, whether or not it then does anything.\<close>

definition find_command :: "string \<Rightarrow> string \<Rightarrow> server \<Rightarrow> bool \<times> server" where
  "find_command chat name s =
    (let found = string_find (''/'' @ name) chat = Some 0 in (found, if found then send_log (''`6'' @ chat) s else s))"

text \<open>The chain of \<^verbatim>\<open>else if\<close>: the first command that is found is carried out.\<close>

fun commands :: "string \<Rightarrow> (string \<times> step) list \<Rightarrow> step" where
  "commands chat [] s = (None, s)"
| "commands chat ((name, act) # cs) s =
    (case find_command chat name s of (True, s) \<Rightarrow> act s | (False, s) \<Rightarrow> commands chat cs s)"

text \<open>\<^verbatim>\<open>chat.substr(n)\<close>\<close>

definition rest_of :: "nat \<Rightarrow> string \<Rightarrow> (string \<Rightarrow> step) \<Rightarrow> step" where
  "rest_of n chat = get_or_throw (substr n (length chat) chat)"

definition send_local :: "externals \<Rightarrow> variantlist_t \<Rightarrow> server \<Rightarrow> server" where
  "send_local ex varlist s = send_call True varlist (of_int (pl_netid (wd_local (m_world s)))) (- 1) (x_fresh ex) s"

definition name_command :: "externals \<Rightarrow> string \<Rightarrow> step" where
  "name_command ex chat = rest_of 6 chat (\<lambda>rest.
    let name = ''``'' @ rest @ ''``'' in
    return_after True (\<lambda>s. send_log (''name set to: '' @ name) (send_local ex (set_param_string 1 name (new_list ''OnNameChanged'')) s)))"

definition flag_command :: "externals \<Rightarrow> string \<Rightarrow> step" where
  "flag_command ex chat = rest_of 6 chat (\<lambda>rest. get_or_undef (atoi rest) (\<lambda>flag.
    return_after True (\<lambda>s. send_log (''flag set to item id: '' @ show_int flag)
      (send_local ex (set_param_int 4 3 (set_param_int 3 flag (set_param_int 2 2 (set_param_int 1 1 (new_list ''OnGuildDataChanged''))))) s))))"

definition ghost_command :: step where
  "ghost_command = return_after True (\<lambda>s.
    let s = set_globals (\<lambda>g. g\<lparr>gt_ghost := \<not> gt_ghost g\<rparr>) s
    in send_log (if gt_ghost (sv_globals s) then ''Ghost is now enabled.'' else ''Ghost is now disabled.'') s)"

definition casino_dialog :: "globals \<Rightarrow> string" where
  "casino_dialog g =
    dialog [addLabelWithIcon ''Auto Tax System'' 758 LABEL_BIG, addSpacer SPACER_SMALL,
      addCheckbox ''autotax'' ''Enable Auto Tax'' (taxsystem g), addCheckbox ''fastmode'' ''Fast Drop Mode'' (fastmmode g),
      addInputBox ''taxamount'' ''Tax Amount: %'' (show_int (yuzde g)) 2, addQuickExit, endDialog ''end'' ''OK'' ''Cancel'']"

definition account_dialog :: "globals \<Rightarrow> string" where
  "account_dialog g =
    ''add_label_with_icon|big|Account Page|left|2480| '' @ newline @ ''add_spacer|small'' @ newline
    @ ''add_textbox|`oAccount Expire Time: Never|left|'' @ newline @ ''add_textbox|`oAccount Type: '' @ o_type g @ ''|left|'' @ newline
    @ ''add_textbox|`oLastest Logged IP: '' @ o_ip g @ ''|left|'' @ newline @ ''add_spacer|small|'' @ newline
    @ nl_lines [''add_button|manageacc|`wManage Account``|noflags|0|0|'', ''end_dialog|end|Cancel|Okay|'']"

definition wrench_dialog :: "globals \<Rightarrow> string" where
  "wrench_dialog g =
    ''add_label_with_icon|big|Wrench Mode: '' @ o_mode g @ ''|left|2480| '' @ newline @ ''add_spacer|small'' @ newline
    @ nl_lines [''add_button|kicj|`4Kick``|noflags|0|0|'', ''add_button|bannj|`4Ban``|noflags|0|0|'',
        ''add_button|iso11pul1|`5Pull``|noflags|0|0|'', ''end_dialog|end|Cancel|Okay|'']"

definition dialog_command :: "externals \<Rightarrow> (server \<Rightarrow> string) \<Rightarrow> step" where
  "dialog_command ex text = return_after True (\<lambda>s. send_dialog ex (text s) s)"

definition first_commands :: "externals \<Rightarrow> string \<Rightarrow> (string \<times> step) list" where
  "first_commands ex chat =
    [(''name '', name_command ex chat),
     (''flag '', flag_command ex chat),
     (''ghost'', ghost_command),
     (''casino'', dialog_command ex (\<lambda>s. casino_dialog (sv_globals s))),
     (''options'', dialog_command ex options_dialog),
     (''account'', dialog_command ex (\<lambda>s. account_dialog (sv_globals s))),
     (''wrench'', dialog_command ex (\<lambda>s. wrench_dialog (sv_globals s)))]"

text \<open>With \<^verbatim>\<open>autopull\<close> on, everything else that is said is taken for the name of a player to pull.\<close>

definition autopull_step :: "string \<Rightarrow> step" where
  "autopull_step packet =
    (if \<not> contains packet ''/options'' \<and> contains packet ''text|''
     then get_or_throw (field_after ''text|'' 5 packet) (\<lambda>str.
            return_after True (send_action (''action|input'' @ newline @ ''|text|/pull '' @ str)))
     else return_after True id)"

definition country_dialog :: "globals \<Rightarrow> string" where
  "country_dialog g =
    ''add_label_with_icon|big|Country|left|3394| '' @ newline @ ''add_spacer|small'' @ newline
    @ newline @ ''add_text_input|countryzz|CountryID|'' @ country g @ ''|2|''
    @ nl_lines [''add_button|countrylist|`wCountry List``|noflags|0|0|'', ''add_quick_exit|'', ''end_dialog|end|Cancel|Okay|'']"

definition server_dialog :: "server \<Rightarrow> string" where
  "server_dialog s =
    ''add_label_with_icon|big|Server Settings|left|32|'' @ newline @ ''add_spacer|small'' @ newline
    @ nl_lines [''add_text_input|serverip|Server IP|'' @ m_server s @ ''|15|'',
        ''add_text_input|serverport|Server Port|'' @ show_int (m_port s) @ ''|5|'', ''end_dialog|end|Cancel|Okay|'']"

definition vault_dialog :: "globals \<Rightarrow> string" where
  "vault_dialog g =
    ''add_label_with_icon|big|Safe Vault Bypass|left|8878| '' @ newline @ ''add_spacer|small'' @ newline
    @ nl_lines [''add_text_input|xvault111|PosX|'' @ show_int (posx g) @ ''|3|'',
        ''add_text_input|2vault222|PosY|'' @ show_int (posy g) @ ''|3|'',
        ''add_text_input|iditemzz1|ItemID|'' @ show_int (iditemm g) @ ''|6|'', ''add_spacer|small'', ''end_dialog|end|Cancel|Set|'']"

definition bypassvault_command :: step where
  "bypassvault_command = return_after True (\<lambda>s.
    let g = sv_globals s in
    send_action (''action|dialog_return'' @ newline @ ''dialog_name|storageboxxtreme'' @ newline @ ''tilex|'' @ show_int (posx g) @ ''|'' @ newline
      @ ''tiley|'' @ show_int (posy g) @ ''|'' @ newline @ ''itemid|'' @ show_int (iditemm g) @ ''|'' @ newline @ ''buttonClicked|do_add'' @ newline
      @ ''itemcount|1'') s)"

text \<open>The numbers of the owner and of the player are converted outside any \<^verbatim>\<open>try\<close>.\<close>

definition setuid_command :: "string \<Rightarrow> step" where
  "setuid_command chat = rest_of 7 chat (\<lambda>chateyazilan s.
    (if contains chateyazilan ''owner'' then
       get_or_throw (stoi (owneruid (sv_globals s))) (\<lambda>n. return_after True (\<lambda>s.
         send_log (''`9Target UID Successfuly set to owner uid `#'' @ show_int n) (set_globals (\<lambda>g. g\<lparr>uidz := n\<rparr>) s)))
     else if contains chateyazilan ''current'' \<or> contains chateyazilan ''Current'' \<or> contains chateyazilan ''CURRENT'' then
       get_or_throw (stoi (currentuid (sv_globals s))) (\<lambda>n. return_after True (\<lambda>s.
         send_log (''`9Target UID Successfuly set to current uid `#'' @ show_int n) (set_globals (\<lambda>g. g\<lparr>uidz := n\<rparr>) s)))
     else
       (case stoi chateyazilan of
          None \<Rightarrow> return_after True numbers_only
        | Some n \<Rightarrow> return_after True (\<lambda>s.
            send_log (''`9Target UID Successfuly set to `#'' @ show_int n) (set_globals (\<lambda>g. g\<lparr>uidz := n\<rparr>) s)))) s)"

definition wlt_command :: step where
  "wlt_command = return_after True (\<lambda>s.
    if \<not> wltroll (sv_globals s)
    then send_log ''`9worldlock`` trolling mode is now `2on'' (set_globals (\<lambda>g. g\<lparr>wltroll := True\<rparr>) s)
    else set_globals (\<lambda>g. g\<lparr>wltroll := False\<rparr>) (send_log ''`9worldlock`` trolling mode is now `4off'' s))"

definition dicemode_command :: step where
  "dicemode_command = return_after True (\<lambda>s.
    if \<not> dicemod (sv_globals s)
    then send_log ''`9AntiSpeed`` mode is now `2on'' (set_globals (\<lambda>g. g\<lparr>dicemod := True\<rparr>) s)
    else set_globals (\<lambda>g. g\<lparr>dicemod := False\<rparr>) (send_log ''`9AntiSpeed`` mode is now `4off'' s))"

definition o_dc :: string where "o_dc = ''SrMotion#1337''"

text \<open>The case in which a message is sent does not return: the text is forwarded too.\<close>

definition crash_command :: step where
  "crash_command s =
    (if type2 (sv_globals s) > 2 then
       if contains (wd_name (m_world s)) ''ACE''
       then return_after True (send_log (''`9You cant do in this world sorry :( if you have a problem pm '' @ o_dc)) s
       else go (\<lambda>s. send_action (''action|input'' @ newline @ ''|text|`eCrashed by '' @ o_dc)
                  (send_log ''`9Please use VPN For doesn't get `#SHADOW `4BAN!'' s)) s
     else return_after True (send_log ''`9You dont have permissions. You need `4Buyer+`` Role.'') s)"

definition whitelist_dialog :: string where
  "whitelist_dialog =
    dialog [addLabelWithIcon ''Whitelist'' 3394 LABEL_BIG, addTextBox ''Whitelisted Player List'', addQuickExit, endDialog ''end'' ''Okay'' ''Close'']"

text \<open>\<^verbatim>\<open>tp\<close>: the first player whose name, without its color, begins with what was said.\<close>

fun tp_players :: "externals \<Rightarrow> string \<Rightarrow> player list \<Rightarrow> step" where
  "tp_players ex name [] s = (None, s)"
| "tp_players ex name (p # ps) s =
    (case substr 2 (length (pl_name p)) (pl_name p) of
       None \<Rightarrow> throw s
     | Some name_2 \<Rightarrow>
         if string_find name (map to_lower name_2) = Some 0 then
           go (\<lambda>s.
             let s = send_log (''Teleporting to '' @ pl_name p) s;
                 varlist = (new_list ''OnSetPos'')[1 := set_vector2 (pl_pos p) blank_variant];
                 s = s\<lparr>m_world := (m_world s)\<lparr>wd_local := (wd_local (m_world s))\<lparr>pl_pos := pl_pos p\<rparr>\<rparr>\<rparr>
             in send_local ex varlist s) s
         else tp_players ex name ps s)"

definition tp_command :: "externals \<Rightarrow> string \<Rightarrow> step" where
  "tp_command ex chat = rest_of 4 chat (\<lambda>name s.
    steps [tp_players ex (map to_lower name) (wd_players (m_world s)), return_after True id] s)"

text \<open>\<^verbatim>\<open>logs\<close>: the settings as they are.\<close>

definition on_off :: "string \<Rightarrow> string \<Rightarrow> string \<Rightarrow> bool \<Rightarrow> string \<Rightarrow> string" where
  "on_off text yes no b = addTextBox (text @ (if b then yes else no))"

definition logs_hacks :: "server \<Rightarrow> (string \<Rightarrow> string) list" where
  "logs_hacks s =
    [addLabelWithIcon ''Logs Page'' 5016 LABEL_BIG, addSpacer SPACER_SMALL, addLabelWithIcon ''Hacks'' 32 LABEL_SMALL,
     on_off ''Ghost Mode``: '' ''`2ON'' ''`4OFF'' (gt_ghost (sv_globals s)),
     on_off ''Dice Speed``: '' ''`2ON'' ''`4OFF'' (out_dicespeed s)]"

definition logs_positions :: "globals \<Rightarrow> (string \<Rightarrow> string) list" where
  "logs_positions g =
    [addLabelWithIcon ''Door Bypass'' 12 LABEL_SMALL,
     addTextBox (''The current `2tileX`` position is `2'' @ show_int (setx g)),
     addTextBox (''The current `2tileY`` position is `2'' @ show_int (sety g)),
     addTextBox (''The current `2DoorID`` is `2'' @ show_int (o_id g)),
     addLabelWithIcon ''Safe Vault'' 8878 LABEL_SMALL,
     addTextBox (''The current `2tileX`` position is `2'' @ show_int (posx g)),
     addTextBox (''The current `2tileY`` position is `2'' @ show_int (posy g)),
     addTextBox (''The current `2ItemID`` is `2'' @ show_int (iditemm g)),
     addLabelWithIcon ''Wrench Logs'' 32 LABEL_SMALL,
     on_off ''The `5Wrench Opinions`` is '' ''`2ON'' ''`4OFF'' (wrenchpull g),
     addTextBox (''The Current `2Wrench Mode ``is '' @ o_mode g @ ''``'')]"

definition logs_casino :: "globals \<Rightarrow> (string \<Rightarrow> string) list" where
  "logs_casino g =
    [addLabelWithIcon ''Tax Mode Options'' 758 LABEL_SMALL,
     on_off ''The `2Tax System`` is '' ''`2ON'' ''`2OFF'' (taxsystem g),
     addTextBox (''The current tax is `2%'' @ show_int (yuzde g)),
     addLabelWithIcon ''Casino Options'' 758 LABEL_SMALL,
     on_off ''The `2Exit world when mod joins '' ''`2ON'' ''`4OFF'' (worldbanjoinmod g),
     on_off ''The `2Visual Spin`` is '' ''`2ON'' ''`4OFF'' (visualspin g),
     addTextBox (''The `2Visual Spin`` Number is '' @ (if \<not> visualspin g \<and> ruletsayi g = 0 then ''`2'' else ''`4'') @ show_int (ruletsayi g)),
     addLabelWithIcon ''Skip Dialogs'' 18 LABEL_SMALL,
     on_off ''The `2Fast Trash`` is '' ''`2ON'' ''`4OFF'' (fasttrash g),
     on_off ''The `2Fast Drop`` is '' ''`2ON'' ''`4OFF'' (fastdrop g),
     on_off ''The `2Auto Pull`` is '' ''`2ON'' ''`4OFF'' (autopull g),
     addLabelWithIcon ''Visuals'' 3394 LABEL_SMALL,
     addTextBox (''The current `2Country`` is `4'' @ country g),
     endDialog ''end'' ''OK'' []]"

definition logs_dialog :: "server \<Rightarrow> string" where
  "logs_dialog s = dialog (logs_hacks s @ logs_positions (sv_globals s) @ logs_casino (sv_globals s))"

text \<open>\<^verbatim>\<open>setx\<close>, \<^verbatim>\<open>sety\<close> and \<^verbatim>\<open>setid\<close>: only for some, and nothing is said to the others.\<close>

definition number_command :: "string \<Rightarrow> (int \<Rightarrow> globals \<Rightarrow> globals) \<Rightarrow> string \<Rightarrow> step" where
  "number_command what store chat = return_after True (\<lambda>s.
    if type2 (sv_globals s) > 2 then
      (case Option.bind (substr 6 (length chat) chat) stoi of
         None \<Rightarrow> numbers_only s
       | Some n \<Rightarrow> send_log (''Set '' @ what @ '' to `5'' @ show_int n @ ''`` successfuly'') (set_globals (store n) s))
    else s)"

definition door_message :: "server \<Rightarrow> server" where
  "door_message s =
    send_log ''Please do /logs to check your `2ID''
      (send_log (''Hacking the door of ID of tileX `5'' @ show_int (setx (sv_globals s)) @ '' ``and tileY `5''
         @ show_int (sety (sv_globals s))) s)"

definition bypassdoor_command :: step where
  "bypassdoor_command = return_after True (\<lambda>s.
    let g = sv_globals s in
    if type2 g > 2
    then door_message (send_action (''action|dialog_return'' @ newline @ ''dialog_name|door_edit'' @ newline @ ''tilex|'' @ show_int (setx g)
           @ ''|'' @ newline @ ''tiley|'' @ show_int (sety g) @ ''|'' @ newline @ ''door_name|SrMotion'' @ newline
           @ ''door_target|SrMotion:123'' @ newline @ ''door_id|'' @ show_int (o_id g) @ newline @ ''checkbox_locked|1'') s)
    else s)"

definition bypasspath_command :: step where
  "bypasspath_command = return_after True (\<lambda>s.
    let g = sv_globals s in
    if type2 g > 2
    then door_message (send_action (''action|dialog_return'' @ newline @ ''dialog_name|sign_edit'' @ newline @ ''tilex|'' @ show_int (setx g)
           @ ''|'' @ newline @ ''tiley|'' @ show_int (sety g) @ ''|'' @ newline @ ''sign_text|'' @ show_int (o_id g)) s)
    else s)"

definition visdice_command :: step where
  "visdice_command = return_after True (\<lambda>s.
    if \<not> out_visdice s then send_log ''`9Dice Visual Mode `#Enabled'' (s\<lparr>out_visdice := True\<rparr>)
    else send_log ''`9Dice Visual Mode `4Disabled'' (s\<lparr>out_visdice := False\<rparr>))"

definition dset_command :: "string \<Rightarrow> step" where
  "dset_command chat =
    (case substr 5 (length chat) chat of
       None \<Rightarrow> return_after True (send_log ''Critical error: use number'')
     | Some rest \<Rightarrow>
         (case stoi rest of
            None \<Rightarrow> return_after True (send_log ''Critical error: use number'')
          | Some n \<Rightarrow>
              if \<not> int32_fits (n - 1) then undef
              else return_after True (\<lambda>s. send_log (''`9Number set to `#'' @ rest) (s\<lparr>out_sayi := n - 1\<rparr>))))"

definition join_request :: "string \<Rightarrow> server \<Rightarrow> server" where
  "join_request name = send_text False (''action|join_request'' @ newline @ ''name|'' @ name) 3"

definition save_command :: step where
  "save_command = return_after True (\<lambda>s. join_request (saveworld (sv_globals s)) s)"

definition warp_command :: "string \<Rightarrow> step" where
  "warp_command chat = rest_of 5 chat (\<lambda>rest.
    return_after True (\<lambda>s. send_log (''`9Warping to `#'' @ rest) (join_request rest s)))"

definition skin_command :: "externals \<Rightarrow> string \<Rightarrow> step" where
  "skin_command ex chat = rest_of 5 chat (\<lambda>rest. get_or_undef (atoi rest) (\<lambda>skin.
    return_after True (send_local ex (set_param_int 1 skin (new_list ''OnChangeSkin'')))))"

definition uid_command :: "string \<Rightarrow> step" where
  "uid_command chat = rest_of 5 chat (\<lambda>name. return_after True (\<lambda>s.
    set_globals (\<lambda>g. g\<lparr>gt_resolving_uid2 := True\<rparr>)
      (send_action ''action|friends''
        (send_action (''action|input'' @ newline @ ''|text|/ignore /'' @ name) (send_log (''resolving uid for '' @ name) s)))))"

definition world_commands :: string where
  "world_commands = nl_lines [''add_label_with_icon|big|World Commands|left|32|'', ''add_spacer|small'', ''add_button|killall|`4Kill All``|noflags|0|0|'',
     ''add_button|banall|`4Ban All``|noflags|0|0|'', ''add_button|pullall|`5Pull All``|noflags|0|0|'',
     ''add_button|ubaworld|`5Unban World``|noflags|0|0|'', ''add_textbox|`4IMPORTANT: `oDiscord: SrMotion#0069.|left|2480|'',
     ''add_quick_exit|'', ''end_dialog|end|Cancel|Okay|'']"

definition proxy_commands :: string where
  "proxy_commands = nl_lines [''add_label_with_icon|big|Proxy Commands|left|32|'', ''add_spacer|small'',
     ''add_textbox|`9/proxy `#(shows commands)|left|2480|'', ''add_textbox|`9/world `#(shows commands)|left|2480|'',
     ''add_textbox|`9/bypassvault `#(bypassing safe vault)|left|2480|'',
     ''add_textbox|`9/bypassdoor `#(bypassing the doorid /setid (set door id))|left|2480|'',
     ''add_textbox|`9/bypasspath `#(bypassing the path marker)|left|2480|'',
     ''add_textbox|`9/tp [name] `#(teleports to a player in the world) |left|2480|'',
     ''add_textbox|`9/ghost `#(toggles ghost, you wont move for others when its enabled)|left|2480|'',
     ''add_textbox|`9/uid [name] `#(resolves name to uid)|left|2480|'',
     ''add_textbox|`9/warp [world] `#(warp's the world)|left|2480|'',
     ''add_textbox|`9/flag [id] `#(sets flag to item id)|left|2480|'', ''add_textbox|`9/skin [id] `#(sets your skin)|left|2480|'',
     ''add_textbox|`9/name [name] `#(sets name to name)|left|2480|'', ''add_textbox|`9/options `#(features)|left|2480|'',
     ''add_textbox|`9/country `#(Changes your country flag)|left|2480|'',
     ''add_textbox|`9/whitelist `#(Show's Whitelisted Players)|left|2480|'',
     ''add_textbox|`9/blacklist `#(Show's Blacklisted Players)|left|2480|'',
     ''add_textbox|`9/server `#(You Can Change Server Informations)|left|2480|'',
     ''add_textbox|`9/account `#(See your account credentials)|left|2480|'',
     ''add_textbox|`9/setuid `#(set uid for world lock troll)|left|2480|'',
     ''add_textbox|`9/wlt `#(open/close worldlock troll)|left|2480|'', ''add_textbox|`9/crash `#(You can Crash World)|left|2480|'',
     ''add_textbox|`9/vault `#(Safe Vault Bypass with /bypassvault)|left|2480|'',
     ''add_textbox|`9/visdice `#(Open Visual Dice Mode and /dset [number] to set number)|left|2480|'',
     ''add_textbox|`9/antidice `#(Open Anti Dice Speed Mode)|left|2480|'',
     ''add_textbox|`9/token `#(token exploit you need mentorship ticket you can buy with /buym and set netid to /setnid)|left|2480|'',
     ''add_textbox|`9/name [name] `#(Change's your gt name visual)|left|2480|'', ''add_quick_exit|'',
     ''end_dialog|end|Cancel|Okay|'']"

definition later_commands :: "externals \<Rightarrow> string \<Rightarrow> (string \<times> step) list" where
  "later_commands ex chat =
    [(''country'', dialog_command ex (\<lambda>s. country_dialog (sv_globals s))),
     (''server'', dialog_command ex server_dialog),
     (''vault'', dialog_command ex (\<lambda>s. vault_dialog (sv_globals s))),
     (''bypassvault'', bypassvault_command),
     (''setuid '', setuid_command chat),
     (''wlt'', wlt_command),
     (''dicemode'', dicemode_command),
     (''crash'', crash_command),
     (''whitelist'', dialog_command ex (\<lambda>s. whitelist_dialog)),
     (''tp '', tp_command ex chat),
     (''logs'', dialog_command ex logs_dialog),
     (''setx '', number_command ''tileX'' (\<lambda>n g. g\<lparr>setx := n\<rparr>) chat),
     (''sety '', number_command ''tileY'' (\<lambda>n g. g\<lparr>sety := n\<rparr>) chat),
     (''setid '', number_command ''DoorID'' (\<lambda>n g. g\<lparr>o_id := n\<rparr>) chat),
     (''bypassdoor'', bypassdoor_command),
     (''bypasspath'', bypasspath_command),
     (''visdice'', visdice_command),
     (''dset '', dset_command chat),
     (''save'', save_command),
     (''warp '', warp_command chat),
     (''skin '', skin_command ex chat),
     (''uid '', uid_command chat),
     (''dropentire'', return_after True id),
     (''world'', dialog_command ex (\<lambda>s. world_commands)),
     (''proxy'', dialog_command ex (\<lambda>s. proxy_commands))]"

section \<open>The handler\<close>

text \<open>What is said in the chat; nothing after it is looked at.\<close>

definition input_step :: "externals \<Rightarrow> string \<Rightarrow> rtvar \<Rightarrow> step" where
  "input_step ex packet var s =
    (if m_key (var ! 0) = ''action'' \<and> m_value (var ! 0) = ''input'' then
       if rtvar_size var < 2 \<or> length (m_values (var ! 1)) < 2 \<or> \<not> wd_connected (m_world s) then return_after False id s
       else
         let chat = m_values (var ! 1) ! 1 in
         steps [commands chat (first_commands ex chat),
                \<lambda>s. if autopull (sv_globals s) then autopull_step packet s else commands chat (later_commands ex chat) s,
                return_after False id] s
     else (None, s))"

text \<open>\<^verbatim>\<open>serialize\<close>, where \<^verbatim>\<open>erase(end())\<close> leaves what it leaves.\<close>

definition serialize_with :: "externals \<Rightarrow> rtvar \<Rightarrow> string" where
  "serialize_with ex var = (let text = serialize_text var in if text \<noteq> [] then x_erase_end ex text else text)"

definition spoofed_login :: "externals \<Rightarrow> globals \<Rightarrow> rtvar \<Rightarrow> rtvar option" where
  "spoofed_login ex g var =
    (let mac = generate_mac ''02'' (x_mac ex); hash_str = mac @ ''RT''
     in map_option (\<lambda>hash2.
          fold (\<lambda>(key, v). rtvar_set key v)
            [(''mac'', mac), (''wk'', generate_rid (x_wk ex)), (''rid'', generate_rid (x_rid ex)), (''fz'', show_int (x_fz ex)),
             (''zf'', show_int (x_zf ex)), (''hash'', show_int (x_hash ex)), (''hash2'', show_int (uint hash2)),
             (''country'', gt_flag g), (''player_age'', ''20'')] var)
          (utils_hash (Some (string_bytes hash_str)) (of_nat (length hash_str))))"

definition login_step :: "externals \<Rightarrow> string \<Rightarrow> step" where
  "login_step ex packet s =
    on (contains packet ''game_version|'' \<and> loggedin (sv_globals s) = 1)
      (get_or_undef (spoofed_login ex (sv_globals s) (rtvar_parse packet)) (\<lambda>var.
        let send = \<lambda>s. send_action (serialize_with ex var) (s\<lparr>gt_in_game := False\<rparr>) in
        (case rtvar_find ''tankIDName'' var of
           None \<Rightarrow> return_after True send
         | Some i \<Rightarrow>
             if m_values (var ! i) = [] then undef
             else return_after True (\<lambda>s. send (set_globals (\<lambda>g. g\<lparr>o_name := m_values (var ! i) ! 0\<rparr>) s))))) s"

definition out_generictext :: "externals \<Rightarrow> text_handler" where
  "out_generictext ex packet s =
    (let var = rtvar_parse packet in
     if \<not> rtvar_valid var then (Returns False, s)
     else run_steps (first_settings packet @ later_settings ex packet @ [wrench_step ex packet, input_step ex packet var, login_step ex packet]) s)"

end
