(* ===== verification/Proxy_Events.thy ===== *)
theory Proxy_Events
  imports Proxy_Generic "HOL-Library.Signed_Division"
begin

text \<open>
  The other handlers of \<^verbatim>\<open>events.cpp\<close>: of what the client sends besides text, and of what the server
  sends. At the end the handlers are shown to keep the contract of the loops, so that what was proved
  of the loops holds of the whole proxy.
\<close>

section \<open>From the client\<close>

definition out_variantlist_handler :: struct_handler where
  "out_variantlist_handler data s =
    (case out_variantlist data (replicate 7 blank_variant) of
       None \<Rightarrow> (Undefined, data, s) | Some _ \<Rightarrow> (Returns False, data, s))"

definition out_gamemessage :: text_handler where
  "out_gamemessage packet s =
    (if packet = ''action|quit'' then (Returns True, server_quit s) else (Returns False, s))"

definition position_name :: "externals \<Rightarrow> player \<Rightarrow> string" where
  "position_name ex bruh =
    pl_name bruh @ '' `4['' @ show_int (x_tile ex (v2_x (pl_pos bruh))) @ '','' @ show_int (x_tile ex (v2_y (pl_pos bruh))) @ '']''
      @ '' `4['' @ show_int (pl_netid bruh) @ '']``'' @ '' `#['' @ show_int (pl_userid bruh) @ '']``''"

definition set_local_pos :: "vector2_t \<Rightarrow> server \<Rightarrow> server" where
  "set_local_pos pos s = s\<lparr>m_world := (m_world s)\<lparr>wd_local := (wd_local (m_world s))\<lparr>pl_pos := pos\<rparr>\<rparr>\<rparr>"

definition out_state :: "externals \<Rightarrow> struct_handler" where
  "out_state ex data s =
    (if \<not> wd_connected (m_world s) then (Returns False, data, s)
     else
       let g = gameupdate_at (drop 4 data);
           s = (if autohosts (sv_globals s)
                then send_local ex (set_param_string 1 (position_name ex (wd_local (m_world s))) (new_list ''OnNameChanged'')) s
                else s);
           s = set_local_pos \<lparr>v2_x = gp_vec_x g, v2_y = gp_vec_y g\<rparr> s
       in (Returns (gt_ghost (sv_globals s)), data, s))"

section \<open>Texts from the server\<close>

definition in_generictext :: text_handler where
  "in_generictext packet s = (Returns False, s)"

definition in_gamemessage :: text_handler where
  "in_gamemessage packet s =
    (if gt_resolving_uid2 (sv_globals s) then
       if contains packet ''PERSON IGNORED'' then
         (Returns False,
          send_action (''action|dialog_return'' @ newline @ ''dialog_name|friends'' @ newline @ ''buttonClicked|friend_all'')
            (send_action (''action|dialog_return'' @ newline @ ''dialog_name|friends_guilds'' @ newline @ ''buttonClicked|showfriend'') s))
       else if contains packet ''Nobody is currently online with the name'' then
         (Returns False, send_log ''Target is offline, cant find uid.'' (set_globals (\<lambda>g. g\<lparr>gt_resolving_uid2 := False\<rparr>) s))
       else if contains packet ''Clever perhaps'' then
         (Returns False, send_log ''Target is a moderator, can't ignore them.'' (set_globals (\<lambda>g. g\<lparr>gt_resolving_uid2 := False\<rparr>) s))
       else (Returns False, s)
     else (Returns False, s))"

definition tracking_login :: "string \<Rightarrow> step" where
  "tracking_login packet =
    on (contains packet ''eventName|102_PLAYER.AUTHENTICATION'') (get_or_throw (field_after ''Worldlock_balance|'' 18 packet) (\<lambda>wlbalance.
      go (\<lambda>s.
        let s = (if contains wlbalance ''PLAYER.'' then send_log ''`9World Lock Balance: `#0'' s
                 else send_log (''`9World Lock Balance: `#'' @ wlbalance) s)
        in if contains packet ''Authenticated|1'' then send_log ''`9Player Authentication `2Successfuly.'' s
           else send_log ''`9Player Authentication `4Failed.'' s)))"

definition tracking_start :: "string \<Rightarrow> step" where
  "tracking_start packet =
    on (contains packet ''eventName|100_MOBILE.START'')
      (get_or_throw (field_after ''Gems_balance|'' 13 packet) (\<lambda>gem. get_or_throw (field_after ''Level|'' 6 packet) (\<lambda>level.
       get_or_throw (field_after ''GrowId|'' 7 packet) (\<lambda>uidd. go (\<lambda>s.
         set_globals (\<lambda>g. g\<lparr>currentuid := uidd\<rparr>)
           (send_log (''`9Your Current UID: `#'' @ uidd)
             (send_log (''`9Account Level: `#'' @ level) (send_log (''`9Gems Balance: `#'' @ gem) s)))))))) "

definition tracking_visit :: "string \<Rightarrow> step" where
  "tracking_visit packet =
    on (contains packet ''eventName|300_WORLD_VISIT'')
      (if contains packet ''Locked|0'' then go (send_log ''`4This world is not locked by a world lock.'')
       else (\<lambda>s.
         let s = send_log ''`2This world is locked by a world lock.'' s in
         on (contains packet ''World_owner|'') (get_or_throw (field_after ''World_owner|'' 12 packet) (\<lambda>uidd. go (\<lambda>s.
           set_globals (\<lambda>g. g\<lparr>owneruid := uidd\<rparr>) (send_log (''`9World Owner UID: `#'' @ uidd) s)))) s))"

definition in_tracking :: text_handler where
  "in_tracking packet =
    run_steps [tracking_login packet, tracking_start packet, tracking_visit packet, return_after True id]"

section \<open>The world\<close>

text \<open>The name of the world, whose length is a \<^verbatim>\<open>short\<close> from the packet, is copied and cut at a zero.\<close>

definition in_sendmapdata :: struct_handler where
  "in_sendmapdata data s =
    (let s = s\<lparr>m_world := \<lparr>wd_name = [], wd_players = [], wd_local = fresh_player, wd_connected = False\<rparr>\<rparr>;
         p = drop (4 + get_extended + 4 + 6) data
     in if length p < 2 then (Undefined, data, s)
        else
          let name_length = sint (rd16 p) in
          if name_length < 0 \<or> length p < 2 + nat name_length then (Undefined, data, s)
          else (Returns False, data,
                s\<lparr>m_world := (m_world s)\<lparr>wd_name := c_str (bytes_string (take (nat name_length) (drop 2 p))), wd_connected := True\<rparr>\<rparr>))"

fun move_player :: "int \<Rightarrow> vector2_t \<Rightarrow> player list \<Rightarrow> player list" where
  "move_player netid pos [] = []"
| "move_player netid pos (p # ps) = (if pl_netid p = netid then p\<lparr>pl_pos := pos\<rparr> # ps else p # move_player netid pos ps)"

definition in_state :: struct_handler where
  "in_state data s =
    (let g = gameupdate_at (drop 4 data) in
     if \<not> wd_connected (m_world s) \<or> gp_player_flags g = - 1 then (Returns False, data, s)
     else (Returns False, data,
           s\<lparr>m_world := (m_world s)\<lparr>wd_players :=
             move_player (sint (gp_player_flags g)) \<lparr>v2_x = gp_vec_x g, v2_y = gp_vec_y g\<rparr> (wd_players (m_world s))\<rparr>\<rparr>))"

text \<open>
  \<^verbatim>\<open>OnRemove\<close>: as in \<^verbatim>\<open>rtvar::remove\<close>, the player to be removed is a reference into the vector that is
  compacted, and stands for the next player that was moved once there was one.
\<close>

fun remove_rest_players :: "player \<Rightarrow> bool \<Rightarrow> player list \<Rightarrow> player list" where
  "remove_rest_players ref moved [] = []"
| "remove_rest_players ref moved (p # ps) =
    (if player_eq p ref then remove_rest_players ref moved ps
     else p # remove_rest_players (if moved then ref else p) True ps)"

fun remove_player :: "int \<Rightarrow> player list \<Rightarrow> player list" where
  "remove_player netid [] = []"
| "remove_player netid (p # ps) =
    (if pl_netid p = netid then remove_rest_players p False ps else p # remove_player netid ps)"

definition on_remove :: "variantlist_t \<Rightarrow> step" where
  "on_remove varlist =
    (let text = get_string (varlist ! 1) in
     on (string_find ''netID|'' text = Some 0)
       (get_or_throw (substr 6 (length text) text) (\<lambda>rest. get_or_undef (atoi rest) (\<lambda>netid. go (\<lambda>s.
          let w = m_world s;
              w = (if netid = pl_netid (wd_local w) then w\<lparr>wd_local := fresh_player\<rparr> else w)
          in s\<lparr>m_world := w\<lparr>wd_players := remove_player netid (wd_players w)\<rparr>\<rparr>)))))"

text \<open>
  \<^verbatim>\<open>OnSpawn\<close>: the pairs found are pointers, here the indices of the pairs, and null where there is
  none. First the player that is described, without mentioning moderators.
\<close>

definition pair_value :: "string \<Rightarrow> rtvar \<Rightarrow> string option" where
  "pair_value key var = map_option (\<lambda>i. m_value (var ! i)) (rtvar_find key var)"

definition set_first_value :: "nat \<Rightarrow> (string \<Rightarrow> string) \<Rightarrow> rtvar \<Rightarrow> rtvar option" where
  "set_first_value i f var =
    (if m_values (var ! i) = [] then None
     else Some (var[i := (var ! i)\<lparr>m_values := (m_values (var ! i))[0 := f (m_values (var ! i) ! 0)]\<rparr>]))"

definition spawn_position :: "externals \<Rightarrow> rtvar \<Rightarrow> vector2_t option" where
  "spawn_position ex var =
    (case rtvar_find ''posXY'' var of
       None \<Rightarrow> Some (pl_pos fresh_player)
     | Some i \<Rightarrow>
         if length (m_values (var ! i)) < 2 then Some (pl_pos fresh_player)
         else Option.bind (atoi (m_values (var ! i) ! 0)) (\<lambda>x.
              map_option (\<lambda>y. \<lparr>v2_x = x_float ex x, v2_y = x_float ex y\<rparr>) (atoi (m_values (var ! i) ! 1))))"

definition spawn_visible :: "externals \<Rightarrow> bool \<Rightarrow> rtvar \<Rightarrow> (player \<times> rtvar) option" where
  "spawn_visible ex hosts var =
    (case (rtvar_find ''name'' var, pair_value ''netID'' var) of
       (Some i, Some netid) \<Rightarrow>
         let named = m_value (var ! i); land = rtvar_get ''country'' var in
         Option.bind (if hosts then Option.bind (pair_value ''userID'' var) (\<lambda>userid.
                        set_first_value i (\<lambda>v. v @ '' `4['' @ netid @ '']``'' @ '' `#['' @ userid @ '']``'') var) else Some var) (\<lambda>var.
         map_option (\<lambda>pos. (fresh_player\<lparr>pl_name := named, pl_country := land, pl_pos := pos\<rparr>, var)) (spawn_position ex var))
     | _ \<Rightarrow> None)"

definition get_int :: "string \<Rightarrow> rtvar \<Rightarrow> int option" where
  "get_int key var = Option.bind (pair_value key var) atoi"

text \<open>The player, the pairs that are sent on, and whether a moderator is announced.\<close>

definition spawn_player :: "externals \<Rightarrow> bool \<Rightarrow> string \<Rightarrow> rtvar \<Rightarrow> (player \<times> rtvar \<times> bool) option" where
  "spawn_player ex hosts meme var =
    Option.bind (pair_value ''invis'' var) (\<lambda>invis.
    Option.bind (if invis \<noteq> ''1'' then spawn_visible ex hosts var
                 else Some (fresh_player\<lparr>pl_mod := True, pl_invis := True\<rparr>, var)) (\<lambda>(ply, var).
    Option.bind (get_int ''userID'' var) (\<lambda>userid. Option.bind (get_int ''netID'' var) (\<lambda>netid.
    let m = (rtvar_get ''mstate'' var = ''1'' \<or> rtvar_get ''smstate'' var = ''1'');
        ply = ply\<lparr>pl_mod := pl_mod ply \<or> m, pl_userid := userid, pl_netid := netid\<rparr>
    in map_option (\<lambda>var. (ply, var, invis = ''1''))
         (if contains meme ''type|local''
          then Option.bind (rtvar_find ''mstate'' var) (\<lambda>i. set_first_value i (\<lambda>_. ''1'') var) else Some var)))))"

definition unaccess_entry :: "string \<Rightarrow> string" where
  "unaccess_entry userid = newline @ ''checkbox_'' @ userid @ ''|0''"

definition spawn_unaccess :: "string \<Rightarrow> rtvar \<Rightarrow> step" where
  "spawn_unaccess named var =
    on (contains named ''`^'') (get_or_undef (pair_value ''userID'' var) (\<lambda>userid. go (set_globals (\<lambda>g.
      if contains (unaccesspaketi g) (unaccess_entry userid) then g
      else g\<lparr>unaccesspaketi := unaccesspaketi g @ unaccess_entry userid\<rparr>))))"

definition spawn_add :: "externals \<Rightarrow> string \<Rightarrow> variantlist_t \<Rightarrow> player \<times> rtvar \<times> bool \<Rightarrow> server \<Rightarrow> server" where
  "spawn_add ex meme varlist spawned s =
    (let (ply, var, moderator) = spawned;
         s = (if moderator then send_log ''Moderator entered the world. 1/2'' s else s);
         w = m_world s;
         w = (if contains meme ''type|local'' then w\<lparr>wd_local := ply\<rparr> else w);
         s = s\<lparr>m_world := w\<lparr>wd_players := wd_players w @ [ply]\<rparr>\<rparr>;
         str = snd (utils_replace (serialize_with ex var) ''onlineID'' ''onlineID|'')
     in send_call True (set_param_string 1 str varlist) (- 1) (- 1) (x_fresh ex) s)"

definition on_spawn :: "externals \<Rightarrow> variantlist_t \<Rightarrow> step" where
  "on_spawn ex varlist =
    (let meme = get_string (varlist ! 1); var = rtvar_parse meme in
     get_or_undef (pair_value ''name'' var) (\<lambda>named. (\<lambda>s. steps
       [spawn_unaccess named var,
        on (pair_value ''netID'' var \<noteq> None \<and> pair_value ''onlineID'' var \<noteq> None)
          (\<lambda>s. get_or_undef (spawn_player ex (autohosts (sv_globals s)) meme var) (\<lambda>spawned. return_after True (spawn_add ex meme varlist spawned)) s)] s)))"

section \<open>Calls from the server\<close>

definition resend :: "externals \<Rightarrow> nat \<Rightarrow> string \<Rightarrow> variantlist_t \<Rightarrow> u32 \<Rightarrow> step" where
  "resend ex i text varlist delay = return_after True (send_call True (set_param_string i text varlist) (- 1) delay (x_fresh ex))"

definition o_packets :: string where "o_packets = ''`b[`#S`b]:SrMotion#1337 `o''"

text \<open>The line of the wheel, which visual spin replaces.\<close>

definition spin_line :: "string \<Rightarrow> string \<Rightarrow> string" where
  "spin_line color name = ''`7[```'' @ color @ name @ ''`` spun the wheel and got''"

definition spun :: "string \<Rightarrow> globals \<Rightarrow> string" where
  "spun color g =
    spin_line color (o_name g) @ (if show_int (ruletsayi g) = ''0'' then '' `2'' else '' `4'') @ show_int (ruletsayi g) @ ''``!`7]``''"

definition on_console_message :: "externals \<Rightarrow> variantlist_t \<Rightarrow> step" where
  "on_console_message ex varlist s =
    (let wry = get_string (varlist ! 1);
         s = (if worldbanjoinmod (sv_globals s) \<and> contains wry ''Removed your access from all locks.''
              then join_request ''exit''
                (send_log ''`$Leaving the world due to having Mod bypass on and due to having a `#mod `$in the world!'' s)
              else s);
         g = sv_globals s
     in if visualspin g \<and> contains wry (spin_line ''w'' (o_name g)) then resend ex 1 (spun ''w'' g) varlist 1900 s
        else if visualspin g \<and> contains wry (spin_line ''2'' (o_name g)) then resend ex 1 (spun ''2'' g) varlist 1900 s
        else resend ex 1 (o_packets @ wry) varlist 0 s)"

definition on_talk_bubble :: "externals \<Rightarrow> variantlist_t \<Rightarrow> step" where
  "on_talk_bubble ex varlist s =
    (let wry = get_string (varlist ! 2); g = sv_globals s in
     if visualspin g then
       if contains wry (spin_line ''w'' (o_name g)) then resend ex 2 (spun ''w'' g) varlist 1900 s
       else if contains wry (spin_line ''2'' (o_name g)) then resend ex 2 (spun ''2'' g) varlist 1900 s
       else (None, s)
     else return_after True (send_list ex varlist) s)"

definition on_show_captcha :: "externals \<Rightarrow> variantlist_t \<Rightarrow> step" where
  "on_show_captcha ex varlist =
    (let menu = get_string (varlist ! 1) in
     if contains menu ''`wAre you Human?``'' then solve_captcha menu
     else get_or_undef (split_text menu ''|'') (\<lambda>g.
       if length g < 2 then undef
       else
         let captchaid = snd (utils_replace (g ! 1) ''0098/captcha/generated/'' []);
             captchaid = snd (utils_replace captchaid ''PuzzleWithMissingPiece.rttex'' []);
             captchaid = butlast captchaid
         in get_or_throw (x_answer ex (''http://api.surferstealer.com/captcha/index?CaptchaID='' @ captchaid)) (\<lambda>output.
              if contains output ''Answer|Failed'' then return_after False id
              else if contains output ''Answer|'' then
                let output = snd (utils_replace output ''Answer|'' []) in
                if length g < 5 then undef
                else return_after True (\<lambda>s.
                  send_action (''action|dialog_return'' @ newline @ ''dialog_name|puzzle_captcha_submit'' @ newline @ ''captcha_answer|'' @ output
                    @ ''|CaptchaID|'' @ g ! 4) (send_log (''Solved Captcha As '' @ output) s))
              else return_after False id)))"

definition on_world_select :: step where
  "on_world_select = go (\<lambda>s. s\<lparr>m_world := \<lparr>wd_name = ''EXIT'', wd_players = [], wd_local = fresh_player, wd_connected = False\<rparr>\<rparr>)"

definition on_send_to_server :: "externals \<Rightarrow> variantlist_t \<Rightarrow> step" where
  "on_send_to_server ex varlist s =
    (case redirect_server (x_fresh ex) varlist s of None \<Rightarrow> throw s | Some (varlist, s) \<Rightarrow> (Some (Returns True), s))"

section \<open>Dialogs from the server\<close>

definition resolved_uid :: "string \<Rightarrow> step" where
  "resolved_uid content =
    (let ignore_substring = (case string_rfind ''|`4Stop ignoring'' content of None \<Rightarrow> content | Some pos \<Rightarrow> take pos content);
         start = (case string_rfind ''add_button|'' ignore_substring of None \<Rightarrow> 10 | Some n \<Rightarrow> n + 11)
     in get_or_throw (substr start (length ignore_substring) ignore_substring) (\<lambda>uid. get_or_undef (atoi uid) (\<lambda>uid_int.
          if uid_int = 0
          then return_after True (\<lambda>s. send_log ''name resolving seems to have failed.'' (set_globals (\<lambda>g. g\<lparr>gt_resolving_uid2 := False\<rparr>) s))
          else (\<lambda>s.
            let s = send_log (''`9worldlock troll UID set to: `#'' @ uid) (send_log (''`9Target UID: `#'' @ uid) s) in
            get_or_throw (stoi uid) (\<lambda>n. return_after True (\<lambda>s.
              send_action (''action|dialog_return'' @ newline @ ''dialog_name|friends_remove'' @ newline @ ''friendID|'' @ uid @ ''|'' @ newline
                  @ ''buttonClicked|remove'')
                (send_action (''action|dialog_return'' @ newline @ ''dialog_name|friends'' @ newline @ ''buttonClicked|'' @ uid)
                  (set_globals (\<lambda>g. g\<lparr>uidz := n\<rparr>) s)))) s))))"

definition resolving_step :: "string \<Rightarrow> step" where
  "resolving_step content s =
    (let resolving = gt_resolving_uid2 (sv_globals s) in
     if resolving \<and> (contains content ''friend_all|Show offline'' \<or> contains content ''Social Portal'')
        \<or> contains content ''Are you sure you wish to stop ignoring''
     then return_after True id s
     else if contains content ''add_label_with_icon|small|Remove Your Access From World|left|242|''
     then on (worldbanjoinmod (sv_globals s))
            (return_after True (send_action (''action|dialog_return'' @ newline @ ''dialog_name|unaccess''))) s
     else if resolving \<and> contains content ''Ok, you will now be able to see chat''
     then return_after True (set_globals (\<lambda>g. g\<lparr>gt_resolving_uid2 := False\<rparr>)) s
     else on (resolving \<and> contains content ''`4Stop ignoring'') (resolved_uid content) s)"

text \<open>The coordinates in a dialog, converted outside any \<^verbatim>\<open>try\<close>.\<close>

definition tile_of :: "string \<Rightarrow> (int \<Rightarrow> int \<Rightarrow> step) \<Rightarrow> step" where
  "tile_of content f =
    get_or_throw (Option.bind (field_after ''embed_data|tilex|'' 17 content) stoi) (\<lambda>x.
    get_or_throw (Option.bind (field_after ''embed_data|tiley|'' 17 content) stoi) (f x))"

definition world_lock_troll :: "string \<Rightarrow> step" where
  "world_lock_troll content s =
    on (wltroll (sv_globals s) \<and> contains content ''add_label_with_icon|big|`wEdit World Lock``|left|242|'')
      (tile_of content (\<lambda>x y. return_after True (\<lambda>s.
        send_action (''action|dialog_return'' @ newline @ ''dialog_name|lock_edit'' @ newline @ ''tilex|'' @ show_int x @ ''|'' @ newline
          @ ''tiley|'' @ show_int y @ ''|'' @ newline @ ''checkbox_'' @ show_int (uidz (sv_globals s)) @ ''|0'' @ newline @ ''checkbox_public|0''
          @ newline @ ''checkbox_disable_music|0'' @ newline @ ''tempo|100'' @ newline @ ''checkbox_disable_music_render|0'' @ newline
          @ ''checkbox_set_as_home_world|0'' @ newline @ ''minimum_entry_level|1'') s))) s"

definition world_lock_place :: "string \<Rightarrow> step" where
  "world_lock_place content =
    on (contains content ''add_label_with_icon|big|`wEdit World Lock``|left|'')
      (\<lambda>s. let s = send_log ''find world lock x,y path.'' s
           in tile_of content (\<lambda>x y. go (set_globals (\<lambda>g. g\<lparr>wlx := x, wly := y\<rparr>))) s)"

definition dice_block :: "string \<Rightarrow> step" where
  "dice_block content s =
    on (dicemod (sv_globals s) \<and> contains content ''add_label_with_icon|big|`wEdit Dice Block``|left|456|'')
      (tile_of content (\<lambda>x y.
        let usable = contains content ''add_checkbox|checkbox_public|Usable by public|0'' in
        return_after True (\<lambda>s.
          send_action (''action|dialog_return'' @ newline @ ''dialog_name|boombox_edit'' @ newline @ ''tilex|'' @ show_int x @ ''|'' @ newline
              @ ''tiley|'' @ show_int y @ ''|'' @ newline @ (if usable then ''checkbox_public|1'' else ''checkbox_public|0'') @ newline @ ''checkbox_silence|1'')
            (send_log (''`4 (X:'' @ show_int x @ '' Y:'' @ show_int y @ '')`9 Dice is '' @ (if usable then ''`2Public'' else ''`4Not Public'')) s)))) s"

definition human_question :: "string \<Rightarrow> step" where
  "human_question content =
    on (contains content ''set_default_color|`o'' \<and> contains content ''add_label_with_icon|big|`wAre you Human?``|left|206|'')
      (solve_captcha content)"

text \<open>
  The tax on a drop of world locks: the number is rounded to a multiple of ten, from which the per
  cent are taken. The remainder is that of C++, which has the sign of the number.
\<close>

definition tax_base :: "int \<Rightarrow> int" where
  "tax_base count =
    (let bruh = count smod 10 in
     if 1 \<le> bruh \<and> bruh \<le> 4 then count - bruh
     else if 5 \<le> bruh \<and> bruh \<le> 9 then count + (10 - bruh) else count)"

definition taxed :: "int \<Rightarrow> int \<Rightarrow> int option" where
  "taxed percent count =
    (let base = tax_base count in
     if \<not> int32_fits base \<or> \<not> int32_fits (base * percent) then None
     else
       let rest = count - (base * percent) sdiv 100 in if int32_fits rest then Some rest else None)"

definition item_id :: "string \<Rightarrow> string option" where
  "item_id content = field_after ''embed_data|itemID|'' 18 content"

definition drop_action :: "string \<Rightarrow> string \<Rightarrow> string" where
  "drop_action itemid n = ''action|dialog_return'' @ newline @ ''dialog_name|drop_item'' @ newline @ ''itemID|'' @ itemid @ ''|'' @ newline @ ''count|'' @ n"

definition tax_dialog :: "int \<Rightarrow> string" where
  "tax_dialog n = ''set_default_color|`o'' @ newline @ ''add_label_with_icon|big|`wDrop World Lock``|left|242|'' @ newline
     @ ''add_textbox|How many to drop?|left|'' @ newline @ ''add_text_input|count||'' @ show_int n @ ''|5|'' @ newline
     @ ''embed_data|itemID|242'' @ newline @ ''end_dialog|drop_item|Cancel|OK|''"

definition tax_drop :: "externals \<Rightarrow> string \<Rightarrow> variantlist_t \<Rightarrow> step" where
  "tax_drop ex content varlist s =
    on (taxsystem (sv_globals s) \<and> contains content ''Drop'' \<and> contains content ''embed_data|itemID|'')
      (get_or_throw (item_id content) (\<lambda>itemid. on (contains itemid ''242'')
        (get_or_throw (Option.bind (field_after ''count||'' 7 content) stoi) (\<lambda>n s.
          get_or_undef (taxed (yuzde (sv_globals s)) n) (\<lambda>rest.
            if fastmmode (sv_globals s) then return_after True (send_action (drop_action itemid (show_int rest)))
            else resend ex 1 (tax_dialog rest) varlist 0) s)))) s"

text \<open>The texts are cut out before it is known whether the dialog has them.\<close>

definition fast_drop :: "string \<Rightarrow> step" where
  "fast_drop content s =
    on (fastdrop (sv_globals s))
      (get_or_throw (item_id content) (\<lambda>itemid. get_or_throw (field_after ''count||'' 7 content) (\<lambda>n.
        on (contains content ''embed_data|itemID|'' \<and> contains content ''Drop'') (return_after True (send_action (drop_action itemid n)))))) s"

definition tax_dropped :: "string \<Rightarrow> step" where
  "tax_dropped content s =
    on (taxsystem (sv_globals s) \<and> fastmmode (sv_globals s))
      (get_or_throw (item_id content) (\<lambda>itemid. get_or_throw (field_after ''count||'' 7 content) (\<lambda>n.
        on (contains content ''embed_data|itemID|'' \<and> contains content ''Drop'' \<and> contains itemid ''242'') (return_after True id)))) s"

definition fast_trash :: "string \<Rightarrow> step" where
  "fast_trash content s =
    on (fasttrash (sv_globals s))
      (get_or_throw (item_id content) (\<lambda>itemid. get_or_throw (field_after ''you have '' 9 content) (\<lambda>n.
        let token = upto '')'' n in
        on (contains content ''embed_data|itemID|'' \<and> contains content ''Trash'')
          (return_after True (send_action (''action|dialog_return'' @ newline @ ''dialog_name|trash_item'' @ newline @ ''itemID|'' @ itemid @ ''|''
             @ newline @ ''count|'' @ token)))))) s"

definition report_button :: string where
  "report_button = ''add_button|report_player|`wReport Player``|noflags|0|0|''"

definition worlds_button :: string where
  "worlds_button = ''add_button|my_worlds|`$My Worlds``|noflags|0|0|''"

definition player_dialogs :: "externals \<Rightarrow> string \<Rightarrow> variantlist_t \<Rightarrow> step" where
  "player_dialogs ex content varlist s =
    (if wrenchpull (sv_globals s) then
       get_or_throw (field_after ''embed_data|netID'' 17 content) (\<lambda>netid.
         on (contains content ''set_default_color|`o'' \<and> contains content ''embed_data|netID'') (return_after True id)) s
     else if contains content report_button then
       return_after True (send_call True (set_param_string 1 (insert_before report_button
           (nl_lines [''add_button|whitelist|`2Add to Whitelist``|noflags|0|0|'', ''add_button|blacklist|`4Add to Blacklist``|noflags|0|0|''] @ newline)
           content) varlist) (- 1) (- 1) (x_fresh ex)) s
     else if contains content worlds_button then
       return_after True (send_call True (set_param_string 1 (insert_before worlds_button
           (nl_lines [''add_button|whitelisted_players|`2Whitelisted Players``|noflags|0|0|'', [],
              ''add_button|blacklisted_players|`4Blacklisted Players``|noflags|0|0|'', ''add_button|optionzzz|`5Options``|noflags|0|0|''] @ newline)
           content) varlist) (- 1) (- 1) (x_fresh ex)) s
     else (None, s))"

definition gazette :: string where
  "gazette = ''add_label_with_icon|big|`5The Proxy Gazette``|left|5016|'' @ nl_lines [''add_spacer|small|'', [], ''add_url_button||`1Join Discord Server``|NOFLAGS|https://discord.gg/KD4a37S2an|Open link?|0|0|'',
     ''add_textbox|`wDecember 26th: `5Don't Forget Join Discord Server https://discord.gg/KD4a37S2an |left|'',
     ''add_spacer|small|'', ''add_textbox|`wDecember 26th: `5Proxy made by SrMotion#0001 |left|'', ''add_spacer|small|'',
     ''add_textbox|All Commands: |left|'', ''add_spacer|small|'', ''add_textbox|`9/proxy `#(shows commands)|left|2480|'',
     ''add_textbox|`9/world `#(shows commands)|left|2480|'', ''add_textbox|`9/bypassvault `#(bypassing safe vault)|left|2480|'',
     ''add_textbox|`9/bypassdoor `#(bypassing the doorid /setid (set door id))|left|2480|'',
     ''add_textbox|`9/bypasspath `#(bypassing the path marker)|left|2480|'',
     ''add_textbox|`9/tp [name] `#(teleports to a player in the world) |left|2480|'',
     ''add_textbox|`9/ghost `#(toggles ghost, you wont move for others when its enabled)|left|2480|'',
     ''add_textbox|`9/uid [name] `#(resolves name to uid)|left|2480|'',
     ''add_textbox|`9/flag [id] `#(sets flag to item id)|left|2480|'',
     ''add_textbox|`9/warp [world] `#(warp's the world)|left|2480|'', ''add_textbox|`9/skin [id] `#(sets your skin)|left|2480|'',
     ''add_textbox|`9/name [name] `#(sets name to name)|left|2480|'', ''add_textbox|`9/options `#(features)|left|2480|'',
     ''add_textbox|`9/country `#(Changes your country flag)|left|2480|'',
     ''add_textbox|`9/whitelist `#(Show's Whitelisted Players)|left|2480|'',
     ''add_textbox|`9/blacklist `#(Show's Blacklisted Players)|left|2480|'',
     ''add_textbox|`9/server `#(You Can Change Server Informations)|left|2480|'',
     ''add_textbox|`9/account `#(See your account credentials)|left|2480|'',
     ''add_textbox|`9/setuid `#(set uid for world lock troll)|left|2480|'',
     ''add_textbox|`9/wlt `#(open/close worldlock troll)|left|2480|'', ''add_textbox|`9/crash `#(You can Crash World)|left|2480|'',
     ''add_textbox|`9/vault `#(Safe Vault Bypass)|left|2480|'',
     ''add_textbox|`9/token `#(token exploit you need mentorship ticket you can buy with /buym and set netid to /setnid)|left|2480|'',
     ''add_textbox|`9/name [name] `#(Change's your gt name visual)|left|2480|'', ''add_spacer|small|'',
     ''add_layout_spacer|3imageslayout|'', ''add_layout_spacer|3imageslayout|'', ''add_spacer|small|'',
     ''add_textbox|Don't forget to join our `2Official Proxy Discord Server`` on `2https://discord.gg/KD4a37S2an `` or click the link below!|left|'',
     ''add_textbox|Visit our Social Media pages for more Content!|left|'', ''add_spacer|small|'',
     ''add_layout_spacer|2imageslayout|'',
     ''add_image_button|iotm_layout_4|interface/large/gazette/gazette_5columns_social_btn04.rttex|5imageslayout|https://www.youtube.com/channel/UCLZOpt3XfT1Pp9U4JUC6SzQUCLZOpt3XfT1Pp9U4JUC6SzQ|Would you like to open this in Youtube?|'',
     ''add_image_button|iotm_layout_4|interface/large/gazette/gazette_5columns_social_btn06.rttex|5imageslayout|https://discord.gg/KD4a37S2an|Would you like to join our discord?|'',
     ''add_layout_spacer|2imageslayout|'', ''add_textbox||'', ''add_spacer|small|'', ''add_textbox||'', ''add_spacer|small|'',
     ''add_textbox||'', ''add_spacer|small|'', ''add_quick_exit|'', ''set_survey_enabled|1'', ''end_dialog|gazette||OK|'']"

definition on_dialog_request :: "externals \<Rightarrow> variantlist_t \<Rightarrow> step" where
  "on_dialog_request ex varlist =
    (let content = get_string (varlist ! 1) in
     steps [resolving_step content, world_lock_troll content, world_lock_place content, dice_block content, human_question content,
       on (contains content ''add_label_with_icon|big|`wThe Growtopia Gazette``|left|5016|'') (resend ex 1 gazette varlist 0),
       tax_drop ex content varlist, fast_drop content, tax_dropped content, fast_trash content, player_dialogs ex content varlist])"

section \<open>The handler of calls\<close>

definition call_step :: "externals \<Rightarrow> variantlist_t \<Rightarrow> step" where
  "call_step ex varlist =
    (let func = hash32 (get_string (varlist ! 0)) in
     if func = hash32 ''onShowCaptcha'' then on_show_captcha ex varlist
     else if func = hash32 ''OnRequestWorldSelectMenu'' then on_world_select
     else if func = hash32 ''OnSendToServer'' then on_send_to_server ex varlist
     else if func = hash32 ''OnConsoleMessage'' then on_console_message ex varlist
     else if func = hash32 ''OnTalkBubble'' then on_talk_bubble ex varlist
     else if func = hash32 ''OnDialogRequest'' then on_dialog_request ex varlist
     else if func = hash32 ''OnRemove'' then on_remove varlist
     else if func = hash32 ''OnSpawn'' then on_spawn ex varlist
     else go id)"

definition in_variantlist_handler :: "externals \<Rightarrow> struct_handler" where
  "in_variantlist_handler ex data s =
    (case in_variantlist data (replicate 7 blank_variant) of
       None \<Rightarrow> (Undefined, data, s)
     | Some (ok, n, varlist) \<Rightarrow>
         let (r, s) = run_steps [go (\<lambda>s. if contains (get_string (varlist ! 0)) ''OnSuperMainStartAcceptLogon''
                                          then s\<lparr>gt_in_game := True\<rparr> else s), call_step ex varlist] s
         in (r, data, s))"

section \<open>All handlers\<close>

text \<open>The loop over what the client sends calls neither \<^verbatim>\<open>tracking\<close> nor \<^verbatim>\<open>sendmapdata\<close>.\<close>

definition out_handlers :: "externals \<Rightarrow> handlers" where
  "out_handlers ex = \<lparr>on_generictext = out_generictext ex, on_gamemessage = out_gamemessage, on_tracking = in_tracking,
     on_state = out_state ex, on_variantlist = out_variantlist_handler, on_sendmapdata = in_sendmapdata\<rparr>"

definition in_handlers :: "externals \<Rightarrow> handlers" where
  "in_handlers ex = \<lparr>on_generictext = in_generictext, on_gamemessage = in_gamemessage, on_tracking = in_tracking,
     on_state = in_state, on_variantlist = in_variantlist_handler ex, on_sendmapdata = in_sendmapdata\<rparr>"

definition proxy_poll :: "externals \<Rightarrow> (bool \<times> bool \<times> enet_event) list \<Rightarrow> enet_event list \<Rightarrow> server \<Rightarrow> server" where
  "proxy_poll ex = poll (out_handlers ex) (in_handlers ex) (x_fresh ex)"

end
