(* ===== verification/Proxy_Contract.thy ===== *)
theory Proxy_Contract
  imports Proxy_Events
begin

text \<open>
  The handlers of \<^verbatim>\<open>events.cpp\<close> keep the contract of the loops (\<open>relay\<close> in \<open>Proxy_Server\<close>). Each block
  is shown to keep it from any state the ones before it may have left.
\<close>

section \<open>The contract of a block\<close>

abbreviation kept :: "bool \<Rightarrow> server \<Rightarrow> server \<Rightarrow> bool" where
  "kept c s s' \<equiv> step_ok c s False s'"

definition block_ok :: "bool \<Rightarrow> server \<Rightarrow> reply option \<times> server \<Rightarrow> bool" where
  "block_ok c s0 x \<longleftrightarrow> step_ok c s0 (fst x \<noteq> None \<and> fst x \<noteq> Some (Returns False)) (snd x)"

named_theorems kept_intros
named_theorems block_intros

lemma kept_update [kept_intros]:
  assumes "kept c s0 s"
  shows "kept c s0 (s\<lparr>m_world := w\<rparr>)" "kept c s0 (s\<lparr>gt_in_game := x\<rparr>)" "kept c s0 (s\<lparr>out_visdice := x\<rparr>)"
    "kept c s0 (s\<lparr>out_dicespeed := x\<rparr>)" "kept c s0 (s\<lparr>out_sayi := n\<rparr>)" "kept c s0 (s\<lparr>sv_globals := g\<rparr>)"
    "kept c s0 (set_globals f s)"
  using assms by (simp_all add: step_ok_def set_globals_def)

lemma kept_sent [kept_intros]:
  assumes "kept c s0 s"
  shows "kept c s0 (send_text client text type s)" "kept c s0 (send_call client varlist netid delay fresh s)"
    "kept c s0 (send_raw client t data len fresh s)"
  using step_ok_trans [OF assms send_text_ok [OF step_ok_server [OF assms]]]
    step_ok_trans [OF assms send_call_ok [OF step_ok_server [OF assms]]]
    step_ok_trans [OF assms send_raw_ok [OF step_ok_server [OF assms]]] by blast+

lemma kept_messages [kept_intros]:
  assumes "kept c s0 s"
  shows "kept c s0 (send_log text s)" "kept c s0 (send_action text s)" "kept c s0 (send_list ex varlist s)"
    "kept c s0 (send_dialog ex text s)" "kept c s0 (send_overlay ex text s)" "kept c s0 (critical_error s)"
    "kept c s0 (numbers_only s)" "kept c s0 (send_local ex varlist s)" "kept c s0 (join_request text s)"
    "kept c s0 (door_message s)"
  using assms
  by (auto intro!: kept_sent simp: send_log_def send_action_def send_list_def send_dialog_def send_overlay_def critical_error_def
      numbers_only_def send_local_def join_request_def door_message_def)

lemma kept_if [kept_intros]: "(b \<Longrightarrow> kept c s0 x) \<Longrightarrow> (\<not> b \<Longrightarrow> kept c s0 y) \<Longrightarrow> kept c s0 (if b then x else y)"
  by simp

lemma block_go [block_intros]: "kept c s0 (f s) \<Longrightarrow> block_ok c s0 (go f s)"
  by (simp add: block_ok_def go_def)

lemma block_None [block_intros]: "kept c s0 s \<Longrightarrow> block_ok c s0 (None, s)"
  by (simp add: block_ok_def)

lemma block_return [block_intros]: "kept c s0 (f s) \<Longrightarrow> block_ok c s0 (return_after b f s)"
  by (simp add: block_ok_def return_after_def step_ok_weaken)

lemma block_end [block_intros]: "kept c s0 s \<Longrightarrow> block_ok c s0 (throw s)" "kept c s0 s \<Longrightarrow> block_ok c s0 (undef s)"
  by (simp_all add: block_ok_def throw_def undef_def step_ok_weaken)

lemma block_on [block_intros]: "(b \<Longrightarrow> block_ok c s0 (f s)) \<Longrightarrow> kept c s0 s \<Longrightarrow> block_ok c s0 (on b f s)"
  by (auto simp: on_def block_None)

lemma block_get [block_intros]:
  "(\<And>x. block_ok c s0 (f x s)) \<Longrightarrow> kept c s0 s \<Longrightarrow> block_ok c s0 (get_or_throw v f s)"
  "(\<And>x. block_ok c s0 (f x s)) \<Longrightarrow> kept c s0 s \<Longrightarrow> block_ok c s0 (get_or_undef v f s)"
  by (auto simp: get_or_throw_def get_or_undef_def block_end split: option.split)

lemma block_if [block_intros]:
  "(b \<Longrightarrow> block_ok c s0 (f s)) \<Longrightarrow> (\<not> b \<Longrightarrow> block_ok c s0 (g s)) \<Longrightarrow> block_ok c s0 ((if b then f else g) s)"
  "(b \<Longrightarrow> block_ok c s0 x) \<Longrightarrow> (\<not> b \<Longrightarrow> block_ok c s0 y) \<Longrightarrow> block_ok c s0 (if b then x else y)"
  by simp_all

lemma block_option [block_intros]:
  "block_ok c s0 (f s) \<Longrightarrow> (\<And>x. block_ok c s0 (g x s)) \<Longrightarrow> block_ok c s0 ((case v of None \<Rightarrow> f | Some x \<Rightarrow> g x) s)"
  by (simp split: option.split)

lemma block_ok_kept: "block_ok c s0 (None, s) \<Longrightarrow> kept c s0 s"
  by (simp add: block_ok_def)

lemma block_steps [block_intros]:
  assumes "kept c s0 s" "\<And>f t. f \<in> set fs \<Longrightarrow> kept c s0 t \<Longrightarrow> block_ok c s0 (f t)"
  shows "block_ok c s0 (steps fs s)"
  using assms
proof (induction fs arbitrary: s)
  case (Cons f fs)
  obtain r s1 where f: "f s = (r, s1)" by fastforce
  have "block_ok c s0 (r, s1)" using Cons.prems f by (metis list.set_intros(1))
  then show ?case using Cons f by (auto dest: block_ok_kept split: option.split)
qed (simp add: block_None)

lemma kept_run:
  assumes "kept c s0 s" "\<And>f t. f \<in> set fs \<Longrightarrow> kept c s0 t \<Longrightarrow> block_ok c s0 (f t)" "run_steps fs s = (r, s')"
  shows "step_ok c s0 (r \<noteq> Returns False) s'"
proof -
  have "block_ok c s0 (steps fs s)" using assms(1,2) by (rule block_steps)
  then show ?thesis using assms(3) by (auto simp: run_steps_def block_ok_def step_ok_weaken split: prod.splits option.splits)
qed

section \<open>Text from the client\<close>

lemma block_setting [block_intros]:
  assumes "kept c s0 s" "\<And>n t. kept c s0 t \<Longrightarrow> kept c s0 (store n t)"
  shows "block_ok c s0 (setting key field trim store packet s)" "block_ok c s0 (position_setting key field trim store packet s)"
  using assms by (auto intro!: block_intros kept_intros simp: setting_def position_setting_def split: option.split)

lemma first_settings_ok:
  "f \<in> set (first_settings packet) \<Longrightarrow> kept c s0 s \<Longrightarrow> block_ok c s0 (f s)"
  unfolding first_settings_def
  by (auto intro!: block_setting kept_intros simp: store_wltroll_def store_worldban_def Let_def)

lemma disconnect_kept: "kept False s0 s \<Longrightarrow> kept False s0 (server_disconnectsr reset s)"
  unfolding disconnectsr_same using step_ok_trans [OF _ server_disconnect_ok] step_ok_server by blast

lemma country_setting_ok: "kept False s0 s \<Longrightarrow> block_ok False s0 (country_setting ex packet s)"
  unfolding country_setting_def Let_def
  by (intro block_intros) (auto intro!: disconnect_kept kept_intros split: option.split)

lemma worldoptions_ok [block_intros]:
  assumes "kept c s0 s"
  shows "block_ok c s0 (worldoptions option s)"
proof -
  have "kept c s0 t \<Longrightarrow> block_ok c s0 (player_option option p t)" for p t
    unfolding player_option_def Let_def by (intro block_intros kept_intros)
  then show ?thesis unfolding worldoptions_def using assms by (intro block_steps) auto
qed

lemma later_settings_ok:
  assumes "f \<in> set (later_settings ex packet)" "kept False s0 s"
  shows "block_ok False s0 (f s)"
  using assms unfolding later_settings_def
  by (auto intro!: country_setting_ok block_intros kept_intros
      simp: saveworld_setting_def mode_button_def worldoptions_button_def split: option.split)

lemma wrench_step_ok: "kept c s0 s \<Longrightarrow> block_ok c s0 (wrench_step ex packet s)"
  unfolding wrench_step_def Let_def by (intro block_intros kept_intros)

lemma commands_ok:
  assumes "kept c s0 s" "\<And>name act t. (name, act) \<in> set cs \<Longrightarrow> kept c s0 t \<Longrightarrow> block_ok c s0 (act t)"
  shows "block_ok c s0 (commands chat cs s)"
  using assms
proof (induction cs arbitrary: s)
  case (Cons p cs)
  obtain name act where p: "p = (name, act)" by fastforce
  show ?case
  proof (cases "string_find (''/'' @ name) chat = Some 0")
    case True
    have "block_ok c s0 (act (send_log (''`6'' @ chat) s))" using Cons.prems(2) [of name act] kept_messages(1) [OF Cons.prems(1)] p by simp
    then show ?thesis using True by (simp add: p find_command_def)
  next
    case False
    have "block_ok c s0 (commands chat cs s)" using Cons.prems by (intro Cons.IH) auto
    then show ?thesis using False by (simp add: p find_command_def)
  qed
qed (simp add: block_None)

lemma block_rest_of [block_intros]:
  "(\<And>rest. block_ok c s0 (f rest s)) \<Longrightarrow> kept c s0 s \<Longrightarrow> block_ok c s0 (rest_of n chat f s)"
  unfolding rest_of_def by (intro block_intros)

lemma dialog_command_ok [block_intros]: "kept c s0 s \<Longrightarrow> block_ok c s0 (dialog_command ex text s)"
  unfolding dialog_command_def by (intro block_intros kept_intros)

lemma first_commands_ok: "(name, act) \<in> set (first_commands ex chat) \<Longrightarrow> kept c s0 s \<Longrightarrow> block_ok c s0 (act s)"
  unfolding first_commands_def
  by (auto intro!: block_intros kept_intros simp: name_command_def flag_command_def ghost_command_def Let_def)

lemma tp_players_ok: "kept c s0 s \<Longrightarrow> block_ok c s0 (tp_players ex name ps s)"
  by (induction ps) (auto intro!: block_intros kept_intros simp: Let_def split: option.split)

lemma some_commands_ok [block_intros]:
  assumes "kept c s0 s"
  shows "block_ok c s0 (bypassvault_command s)" "block_ok c s0 (setuid_command chat s)" "block_ok c s0 (wlt_command s)"
    "block_ok c s0 (dicemode_command s)" "block_ok c s0 (crash_command s)" "block_ok c s0 (tp_command ex chat s)"
    "block_ok c s0 (number_command what store chat s)" "block_ok c s0 (bypassdoor_command s)"
  using assms
  by (auto intro!: block_intros kept_intros tp_players_ok simp: bypassvault_command_def setuid_command_def wlt_command_def dicemode_command_def
      crash_command_def tp_command_def number_command_def bypassdoor_command_def Let_def simp del: steps.simps split: option.split)

lemma more_commands_ok [block_intros]:
  assumes "kept c s0 s"
  shows "block_ok c s0 (bypasspath_command s)" "block_ok c s0 (visdice_command s)" "block_ok c s0 (dset_command chat s)"
    "block_ok c s0 (save_command s)" "block_ok c s0 (warp_command chat s)" "block_ok c s0 (skin_command ex chat s)"
    "block_ok c s0 (uid_command chat s)"
  using assms
  by (auto intro!: block_intros kept_intros simp: bypasspath_command_def visdice_command_def dset_command_def save_command_def
      warp_command_def skin_command_def uid_command_def Let_def split: option.split)

lemma later_commands_ok: "(name, act) \<in> set (later_commands ex chat) \<Longrightarrow> kept c s0 s \<Longrightarrow> block_ok c s0 (act s)"
  unfolding later_commands_def by (auto intro!: block_intros)

lemma autopull_step_ok [block_intros]: "kept c s0 s \<Longrightarrow> block_ok c s0 (autopull_step packet s)"
  unfolding autopull_step_def by (intro block_intros kept_intros) simp_all

lemma input_step_ok: "kept c s0 s \<Longrightarrow> block_ok c s0 (input_step ex packet var s)"
proof -
  have "kept c s0 s \<Longrightarrow> block_ok c s0 (steps [commands chat (first_commands ex chat),
      \<lambda>s. if autopull (sv_globals s) then autopull_step packet s else commands chat (later_commands ex chat) s, return_after False id] s)"
    for chat
    by (rule block_steps) (auto intro!: block_intros commands_ok dest: first_commands_ok later_commands_ok)
  then show "kept c s0 s \<Longrightarrow> ?thesis"
    by (auto simp: input_step_def Let_def intro!: block_None block_return simp del: steps.simps)
qed

lemma login_step_ok: "kept c s0 s \<Longrightarrow> block_ok c s0 (login_step ex packet s)"
  unfolding login_step_def Let_def by (auto intro!: block_intros kept_intros split: option.split)

lemma out_generictext_ok: "text_handler_ok False (out_generictext ex)"
  unfolding text_handler_ok_def
proof (intro allI impI)
  fix packet s r s'
  assume s: "server_ok s" "out_generictext ex packet s = (r, s')"
  show "step_ok False s (r \<noteq> Returns False) s'"
  proof (cases "rtvar_valid (rtvar_parse packet)")
    case True
    show ?thesis
    proof (rule kept_run)
      show "kept False s s" using step_ok_refl [OF s(1)] .
      show "run_steps (first_settings packet @ later_settings ex packet
          @ [wrench_step ex packet, input_step ex packet (rtvar_parse packet), login_step ex packet]) s = (r, s')"
        using s(2) True by (simp add: out_generictext_def)
    qed (auto intro: first_settings_ok later_settings_ok wrench_step_ok input_step_ok login_step_ok)
  next
    case False
    then show ?thesis using s step_ok_refl by (auto simp: out_generictext_def)
  qed
qed

section \<open>The other handlers\<close>

lemma struct_handler_okI:
  "(\<And>data s r data' s'. server_ok s \<Longrightarrow> f data s = (r, data', s') \<Longrightarrow> step_ok c s (r \<noteq> Returns False) s') \<Longrightarrow> struct_handler_ok c f"
  by (auto simp: struct_handler_ok_def)

lemma text_handler_okI:
  "(\<And>text s r s'. server_ok s \<Longrightarrow> f text s = (r, s') \<Longrightarrow> step_ok c s (r \<noteq> Returns False) s') \<Longrightarrow> text_handler_ok c f"
  by (auto simp: text_handler_ok_def)

lemma kept_local_pos [kept_intros]: "kept c s0 s \<Longrightarrow> kept c s0 (set_local_pos pos s)"
  unfolding set_local_pos_def by (rule kept_update)

lemma struct_handler_keptI:
  assumes "\<And>data s. server_ok s \<Longrightarrow> kept c s (snd (snd (f data s)))"
  shows "struct_handler_ok c f"
proof (rule struct_handler_okI)
  fix data s r data' s'
  assume "server_ok s" "f data s = (r, data', s')"
  then have "kept c s s'" using assms [of s data] by simp
  then show "step_ok c s (r \<noteq> Returns False) s'" by (rule step_ok_weaken)
qed

lemma out_variantlist_ok: "struct_handler_ok c out_variantlist_handler"
proof (rule struct_handler_keptI)
  fix data s
  assume "server_ok s"
  then show "kept c s (snd (snd (out_variantlist_handler data s)))"
    by (cases "out_variantlist data (replicate 7 blank_variant)") (simp_all add: out_variantlist_handler_def step_ok_refl)
qed

lemma out_state_ok: "struct_handler_ok c (out_state ex)"
  unfolding out_state_def Let_def
  by (rule struct_handler_keptI, unfold if_distrib [of snd] snd_conv) (intro kept_intros step_ok_refl)

lemma in_state_ok: "struct_handler_ok c in_state"
  unfolding in_state_def Let_def
  by (rule struct_handler_keptI, unfold if_distrib [of snd] snd_conv) (intro kept_intros step_ok_refl)

lemma in_sendmapdata_ok: "struct_handler_ok c in_sendmapdata"
  unfolding in_sendmapdata_def Let_def
  by (rule struct_handler_keptI, unfold if_distrib [of snd] snd_conv) (intro kept_intros step_ok_refl)

lemmas simple_structs_ok = out_variantlist_ok out_state_ok in_state_ok in_sendmapdata_ok

lemma simple_texts_ok: "text_handler_ok False out_gamemessage" "text_handler_ok c in_generictext" "text_handler_ok c in_gamemessage"
proof -
  show "text_handler_ok False out_gamemessage"
  proof (rule text_handler_okI)
    fix packet s r s'
    assume s: "server_ok s" "out_gamemessage packet s = (r, s')"
    have "kept False s (server_quit s)"
      unfolding server_quit_def
      using step_ok_trans [OF kept_update(2) [OF step_ok_refl [OF s(1)]] server_disconnect_ok] s(1) by simp
    then show "step_ok False s (r \<noteq> Returns False) s'"
      using s step_ok_refl [OF s(1)] by (auto simp: out_gamemessage_def step_ok_weaken split: if_splits)
  qed
  show "text_handler_ok c in_generictext"
    by (rule text_handler_okI) (simp add: in_generictext_def step_ok_refl)
  show "text_handler_ok c in_gamemessage"
    by (rule text_handler_okI)
      (auto simp: in_gamemessage_def intro!: step_ok_refl kept_intros split: if_splits)
qed

lemma in_tracking_ok: "text_handler_ok c in_tracking"
proof (rule text_handler_okI)
  fix packet s r s'
  assume s: "server_ok s" "in_tracking packet s = (r, s')"
  show "step_ok c s (r \<noteq> Returns False) s'"
  proof (rule kept_run)
    show "kept c s s" using step_ok_refl [OF s(1)] .
    show "run_steps [tracking_login packet, tracking_start packet, tracking_visit packet, return_after True id] s = (r, s')"
      using s(2) by (simp add: in_tracking_def)
  qed (auto intro!: block_intros kept_intros simp: tracking_login_def tracking_start_def tracking_visit_def Let_def)
qed

lemma solve_captcha_ok [block_intros]: "kept c s0 s \<Longrightarrow> block_ok c s0 (solve_captcha text s)"
  unfolding solve_captcha_def Let_def by (intro block_intros kept_intros)

lemma spawn_add_ok [kept_intros]: "kept c s0 s \<Longrightarrow> kept c s0 (spawn_add ex meme varlist spawned s)"
  unfolding spawn_add_def Let_def by (auto intro!: kept_intros split: prod.split)

lemma on_spawn_ok [block_intros]: "kept c s0 s \<Longrightarrow> block_ok c s0 (on_spawn ex varlist s)"
  unfolding on_spawn_def Let_def
  by (intro block_intros) (auto intro!: block_intros kept_intros simp: spawn_unaccess_def)

lemma on_remove_ok [block_intros]: "kept c s0 s \<Longrightarrow> block_ok c s0 (on_remove varlist s)"
  unfolding on_remove_def Let_def by (intro block_intros kept_intros)

lemma resend_ok [block_intros]: "kept c s0 s \<Longrightarrow> block_ok c s0 (resend ex i text varlist delay s)"
  unfolding resend_def by (intro block_intros kept_intros)

lemma some_calls_ok [block_intros]:
  assumes "kept c s0 s"
  shows "block_ok c s0 (on_console_message ex varlist s)" "block_ok c s0 (on_talk_bubble ex varlist s)"
    "block_ok c s0 (on_show_captcha ex varlist s)" "block_ok c s0 (on_world_select s)"
  using assms
  by (auto intro!: block_intros kept_intros simp: on_console_message_def on_talk_bubble_def on_show_captcha_def on_world_select_def Let_def)

lemma block_tile_of [block_intros]:
  "(\<And>x y. block_ok c s0 (f x y s)) \<Longrightarrow> kept c s0 s \<Longrightarrow> block_ok c s0 (tile_of content f s)"
  unfolding tile_of_def by (intro block_intros)

lemma some_dialogs_ok [block_intros]:
  assumes "kept c s0 s"
  shows "block_ok c s0 (resolving_step content s)" "block_ok c s0 (world_lock_troll content s)" "block_ok c s0 (world_lock_place content s)"
    "block_ok c s0 (dice_block content s)" "block_ok c s0 (human_question content s)"
  using assms
  by (auto intro!: block_intros kept_intros simp: resolving_step_def resolved_uid_def world_lock_troll_def world_lock_place_def
      dice_block_def human_question_def Let_def)

lemma more_dialogs_ok [block_intros]:
  assumes "kept c s0 s"
  shows "block_ok c s0 (tax_drop ex content varlist s)" "block_ok c s0 (fast_drop content s)" "block_ok c s0 (tax_dropped content s)"
    "block_ok c s0 (fast_trash content s)" "block_ok c s0 (player_dialogs ex content varlist s)"
  using assms
  by (auto intro!: block_intros kept_intros simp: tax_drop_def fast_drop_def tax_dropped_def fast_trash_def player_dialogs_def Let_def)

lemma on_dialog_request_ok [block_intros]: "kept c s0 s \<Longrightarrow> block_ok c s0 (on_dialog_request ex varlist s)"
  unfolding on_dialog_request_def Let_def by (intro block_steps) (auto intro!: block_intros)

lemma on_send_to_server_ok [block_intros]: "kept c s0 s \<Longrightarrow> block_ok c s0 (on_send_to_server ex varlist s)"
  unfolding on_send_to_server_def
  by (auto simp: block_end split: option.split)
    (auto simp: block_ok_def intro: step_ok_trans redirect_server_ok step_ok_server)

lemma call_step_ok: "kept c s0 s \<Longrightarrow> block_ok c s0 (call_step ex varlist s)"
  unfolding call_step_def Let_def by (intro block_intros kept_intros) simp_all

lemma in_variantlist_ok: "struct_handler_ok c (in_variantlist_handler ex)"
proof (rule struct_handler_okI)
  fix data s r data' s'
  assume s: "server_ok s" "in_variantlist_handler ex data s = (r, data', s')"
  note refl = step_ok_refl [OF s(1)]
  show "step_ok c s (r \<noteq> Returns False) s'"
  proof (cases "in_variantlist data (replicate 7 blank_variant)")
    case None
    then show ?thesis using s refl by (simp add: in_variantlist_handler_def)
  next
    case (Some x)
    obtain ok n varlist where x: "x = (ok, n, varlist)" using prod_cases3 by blast
    show ?thesis
    proof (rule kept_run)
      show "kept c s s" using refl .
      show "run_steps [go (\<lambda>s. if contains (get_string (varlist ! 0)) ''OnSuperMainStartAcceptLogon''
                            then s\<lparr>gt_in_game := True\<rparr> else s), call_step ex varlist] s = (r, s')"
        using s(2) Some x by (auto simp: in_variantlist_handler_def split: prod.splits)
    qed (auto intro!: block_intros kept_intros call_step_ok)
  qed
qed

section \<open>The whole proxy\<close>

lemma out_handlers_ok: "handlers_ok False (out_handlers ex)"
  by (simp add: handlers_ok_def out_handlers_def out_generictext_ok simple_texts_ok simple_structs_ok in_tracking_ok)

lemma in_handlers_ok: "handlers_ok True (in_handlers ex)"
  by (simp add: handlers_ok_def in_handlers_def in_variantlist_ok simple_texts_ok simple_structs_ok in_tracking_ok)

interpretation proxy: relay "out_handlers ex" "in_handlers ex" "x_fresh ex" for ex
  by unfold_locales (rule out_handlers_ok in_handlers_ok)+

lemma server_safe_ub: "server_safe host s \<Longrightarrow> \<not> sv_ub s"
  unfolding server_safe_def server_stale_def server_ok_def by auto


lemma quit_packet_ok: "packet_ok (text_packet ''action|quit'' 3)"
  by (simp add: packet_ok_def get_struct_def packet_text_def get_text_def c_string_at_def text_packet_def sizeof_packet_defs
      le32_def string_bytes_def)


end
