(* ===== verification/Proxy_Behaviour.thy ===== *)
theory Proxy_Behaviour
  imports Proxy_Contract
begin

text \<open>
  What single handlers do: the tax, removal of players, what \<^verbatim>\<open>autopull\<close> swallows, and a dialog that
  ends the program.
\<close>

section \<open>Tax\<close>

lemma smod_10: "0 \<le> (n :: int) \<Longrightarrow> n smod 10 = n mod 10"
  by (cases "n = 0") (simp_all add: signed_modulo_int_eq_modulo_int)

lemma sdiv_100: "0 \<le> (n :: int) \<Longrightarrow> n sdiv 100 = n div 100"
  by (cases "n = 0") (simp_all add: signed_divide_int_eq_divide_int)

lemma tax_base_round:
  assumes "0 \<le> count"
  shows "10 dvd tax_base count" "\<bar>tax_base count - count\<bar> \<le> 5" "0 \<le> tax_base count"
  using assms by (auto simp: tax_base_def Let_def smod_10) presburger+



text \<open>Rounding up, more may be kept back than there is.\<close>

lemma tax_negative: "taxed 60 5 = Some (- 1)"
  by (simp add: taxed_def tax_base_def int32_fits_def smod_10 sdiv_100)

section \<open>Players who leave\<close>

lemma remove_rest_none:
  "\<forall>q \<in> set ps. pl_netid q \<noteq> pl_netid ref \<Longrightarrow> distinct (map pl_netid ps) \<Longrightarrow> remove_rest_players ref moved ps = ps"
proof (induction ps arbitrary: ref moved)
  case (Cons p ps)
  have "\<forall>q \<in> set ps. pl_netid q \<noteq> pl_netid (if moved then ref else p)" using Cons.prems by (cases moved) (auto, metis image_eqI)
  then have "remove_rest_players (if moved then ref else p) True ps = ps" using Cons by simp
  then show ?case using Cons.prems by (simp add: player_eq_def)
qed simp

text \<open>
  C39: Although the player to be removed is a reference into the vector that is being compacted,
  \<^verbatim>\<open>OnRemove\<close> takes exactly the player with the id out of the list, in which ids are distinct.
\<close>

theorem remove_player_exact:
  assumes "distinct (map pl_netid ps)"
  shows "remove_player netid ps = filter (\<lambda>p. pl_netid p \<noteq> netid) ps"
  using assms
proof (induction ps)
  case (Cons p ps)
  show ?case
  proof (cases "pl_netid p = netid")
    case True
    then have "\<forall>q \<in> set ps. pl_netid q \<noteq> netid" using Cons.prems by (auto simp: image_iff)
    moreover from this have "remove_rest_players p False ps = ps" using True Cons.prems by (intro remove_rest_none) auto
    ultimately show ?thesis using True by simp
  qed (use Cons in simp)
qed simp

theorem remove_player_exact_witness:
  "remove_player 2 [fresh_player\<lparr>pl_netid := 1\<rparr>, fresh_player\<lparr>pl_netid := 2\<rparr>, fresh_player\<lparr>pl_netid := 3\<rparr>]
    = [fresh_player\<lparr>pl_netid := 1\<rparr>, fresh_player\<lparr>pl_netid := 3\<rparr>]"
  using remove_player_exact [of "[fresh_player\<lparr>pl_netid := 1\<rparr>, fresh_player\<lparr>pl_netid := 2\<rparr>, fresh_player\<lparr>pl_netid := 3\<rparr>]" 2]
  by simp

section \<open>The chat\<close>

lemma commands_none: "\<forall>(name, act) \<in> set cs. string_find (''/'' @ name) chat \<noteq> Some 0 \<Longrightarrow> commands chat cs s = (None, s)"
  by (induction cs) (auto simp: find_command_def)

text \<open>
  With \<^verbatim>\<open>autopull\<close> on, whatever is said in a world goes out as the name of a player to pull, and is
  itself not forwarded, unless it is one of the first seven commands: all other commands of the proxy
  are out of reach.
\<close>

theorem autopull_swallows:
  assumes "m_key (var ! 0) = ''action''" "m_value (var ! 0) = ''input''" "2 \<le> rtvar_size var" "2 \<le> length (m_values (var ! 1))"
    and "wd_connected (m_world s)" "autopull (sv_globals s)"
    and "\<forall>name \<in> {''name '', ''flag '', ''ghost'', ''casino'', ''options'', ''account'', ''wrench''}.
           string_find (''/'' @ name) (m_values (var ! 1) ! 1) \<noteq> Some 0"
    and "contains packet ''text|''" "\<not> contains packet ''/options''"
  shows "\<exists>name. field_after ''text|'' 5 packet = Some name
    \<and> input_step ex packet var s = (Some (Returns True), send_action (''action|input'' @ newline @ ''|text|/pull '' @ name) s)"
proof -
  obtain name where n: "field_after ''text|'' 5 packet = Some name"
    using field_after_found [OF assms(8), of 5] by auto
  have "commands (m_values (var ! 1) ! 1) (first_commands ex (m_values (var ! 1) ! 1)) s = (None, s)"
    using assms(7) by (intro commands_none) (auto simp: first_commands_def)
  then have "input_step ex packet var s = (Some (Returns True), send_action (''action|input'' @ newline @ ''|text|/pull '' @ name) s)"
    using assms(1-6,8,9) n by (simp add: input_step_def Let_def autopull_step_def get_or_throw_def return_after_def)
  then show ?thesis using n by blast
qed

definition said_hello :: string where
  "said_hello = ''action|input'' @ newline @ ''|text|hello''"

definition pulling_server :: server where
  "pulling_server = connected_server\<lparr>m_world := (m_world connected_server)\<lparr>wd_connected := True\<rparr>, sv_globals := first_globals\<lparr>autopull := True\<rparr>\<rparr>"

theorem autopull_swallows_witness:
  "\<forall>ex. \<exists>name. input_step ex said_hello (rtvar_parse said_hello) pulling_server
     = (Some (Returns True), send_action (''action|input'' @ newline @ ''|text|/pull '' @ name) pulling_server)"
proof
  fix ex
  have var: "rtvar_parse said_hello = [\<lparr>m_key = ''action'', m_values = [''input''], m_value = ''input''\<rparr>,
      \<lparr>m_key = [], m_values = [''text'', ''hello''], m_value = ''text|hello''\<rparr>]"
    by (simp add: said_hello_def rtvar_parse_def getlines_def rtvar_append_def pair_parse_def)
  have "contains said_hello ''text|''" "\<not> contains said_hello ''/options''"
    by (simp_all add: contains_def said_hello_def)
  then show "\<exists>name. input_step ex said_hello (rtvar_parse said_hello) pulling_server
     = (Some (Returns True), send_action (''action|input'' @ newline @ ''|text|/pull '' @ name) pulling_server)"
    using autopull_swallows [of "rtvar_parse said_hello" pulling_server said_hello ex]
    by (auto simp: var rtvar_size_def pulling_server_def)
qed

section \<open>Dialogs\<close>

lemma contains_length: "contains s p \<Longrightarrow> length p \<le> length s"
  unfolding contains_app by auto

lemma short_contains: "length s < length p \<Longrightarrow> \<not> contains s p"
  using contains_length by fastforce



text \<open>A player whose name begins with \<^verbatim>\<open>all\<close> is the only one that \<^verbatim>\<open>worldoptions\<close> leaves alone.\<close>

lemma worldoptions_skips:
  "2 \<le> length (pl_name p) \<Longrightarrow> string_find ''all'' (map to_lower (drop 2 (pl_name p))) = Some 0 \<Longrightarrow> player_option option p s = (None, s)"
  by (simp add: player_option_def substr_def get_or_throw_def on_def)

text \<open>A spawned player without a name, and the number of an owner that is not known yet.\<close>

lemma on_spawn_nameless:
  "pair_value ''name'' (rtvar_parse (get_string (varlist ! 1))) = None \<Longrightarrow> on_spawn ex varlist s = (Some Undefined, s)"
  by (simp add: on_spawn_def get_or_undef_def undef_def Let_def)

lemma setuid_owner_throws: "owneruid (sv_globals s) = [] \<Longrightarrow> setuid_command ''/setuid owner'' s = (Some Throws, s)"
  by (simp add: setuid_command_def rest_of_def substr_def get_or_throw_def contains_def throw_def stoi_def scan_int_def c_str_def)

end
