(* ===== verification/Web_Text.thy ===== *)
theory Web_Text
  imports Proxy_Texts
begin

text \<open>
  How \<^verbatim>\<open>sandbird.c\<close> reads requests: numbers, escapes, headers and variables. A C string is the list of
  its characters up to the zero that ends it, a pointer into it is what remains of it from there. What
  a call may come to besides a result is a \<open>run\<close>: an exception, undefined behaviour, or a loop that
  does not end.
\<close>

section \<open>Calls that may not return\<close>

datatype 'a run = Finished 'a | Raised | Illegal | Endless

fun bind_run :: "'a run \<Rightarrow> ('a \<Rightarrow> 'b run) \<Rightarrow> 'b run" where
  "bind_run (Finished x) f = f x"
| "bind_run Raised f = Raised"
| "bind_run Illegal f = Illegal"
| "bind_run Endless f = Endless"

text \<open>A loop as a partial function, whose \<open>None\<close> is a loop without an end.\<close>

fun loop_run :: "'a option \<Rightarrow> 'a run" where
  "loop_run None = Endless"
| "loop_run (Some x) = Finished x"

lemma bind_run_assoc [simp]: "bind_run (bind_run x f) g = bind_run x (\<lambda>a. bind_run (f a) g)"
  by (cases x) simp_all

lemma bind_run_Finished [simp]: "bind_run x Finished = x"
  by (cases x) simp_all

lemma bind_run_eq_Finished: "bind_run x f = Finished y \<longleftrightarrow> (\<exists>a. x = Finished a \<and> f a = Finished y)"
  by (cases x) simp_all

section \<open>Characters and numbers\<close>

definition CRLF :: string where "CRLF = [CHR 0x0D, CHR 0x0A]"

text \<open>\<^verbatim>\<open>char\<close> is signed.\<close>

definition char_int :: "char \<Rightarrow> int" where
  "char_int c = (let n = of_char c in if n < 128 then n else n - 256)"

definition is_alpha :: "char \<Rightarrow> bool" where
  "is_alpha c \<longleftrightarrow> c \<in> set ''ABCDEFGHIJKLMNOPQRSTUVWXYZabcdefghijklmnopqrstuvwxyz''"

text \<open>\<^verbatim>\<open>strspn\<close> and \<^verbatim>\<open>strcspn\<close>, as what remains after the characters they count.\<close>

definition after_spn :: "string \<Rightarrow> string \<Rightarrow> string" where
  "after_spn cs str = dropWhile (\<lambda>c. c \<in> set cs) str"

definition after_cspn :: "string \<Rightarrow> string \<Rightarrow> string" where
  "after_cspn cs str = dropWhile (\<lambda>c. c \<notin> set cs) str"

text \<open>
  \<^verbatim>\<open>sscanf(str, "%u", &n)\<close>: the number is read as an \<^verbatim>\<open>unsigned long\<close>, which is at its largest value when
  the digits do not fit, and cut to 32 bits.
\<close>

definition str_to_uint :: "string option \<Rightarrow> u32" where
  "str_to_uint str =
    (case str of None \<Rightarrow> 0
     | Some s \<Rightarrow>
         (case scan_int s of None \<Rightarrow> 0
          | Some n \<Rightarrow> if \<bar>n\<bar> \<ge> 2 ^ 64 then of_int (2 ^ 64 - 1) else of_int n))"

text \<open>Any character passes for a digit; the shift is arithmetic on the number it gives.\<close>

definition hex_to_int :: "char \<Rightarrow> int" where
  "hex_to_int chr = (if is_digit chr then char_int chr - 48 else char_int (to_lower chr) - 97 + 10)"

definition unescape :: "char \<Rightarrow> char \<Rightarrow> char" where
  "unescape a b = char_of (push_bit 4 (hex_to_int a) OR hex_to_int b)"

section \<open>Escapes\<close>

text \<open>
  The loop of \<^verbatim>\<open>url_decode\<close> with the number of characters that may still be written: what is written, and
  what is left of that number. The terminating zero comes on top.
\<close>

fun url_decode_loop :: "nat \<Rightarrow> string \<Rightarrow> string \<times> nat" where
  "url_decode_loop 0 src = ([], 0)"
| "url_decode_loop (Suc n) [] = ([], Suc n)"
| "url_decode_loop (Suc n) (c # src) =
    (if c \<in> set [CHR ''?'', CHR ''&'', CHR '' '', CHR 0x09, CHR 0x0D, CHR 0x0A] then ([], Suc n)
     else
       let (d, rest) =
             (case src of
                a # b # src' \<Rightarrow> if c = CHR ''%'' then (unescape a b, src')
                               else (if c = CHR ''+'' then CHR '' '' else c, src)
              | _ \<Rightarrow> (if c = CHR ''+'' then CHR '' '' else c, src));
           (dst, left) = url_decode_loop n rest
       in (d # dst, left))"

text \<open>The memory at \<open>dst\<close> has room for \<open>len\<close> characters, one at least.\<close>

definition url_decode :: "string \<Rightarrow> nat \<Rightarrow> (int \<times> string) run" where
  "url_decode src len =
    (if len = 0 then Illegal
     else let (dst, left) = url_decode_loop (len - 1) src in Finished (if left = 0 then - 3 else 0, dst))"

section \<open>Comparing\<close>

text \<open>The comparisons stop at the first difference, which the end of the shorter text is.\<close>

fun mem_equal :: "string \<Rightarrow> string \<Rightarrow> nat \<Rightarrow> bool" where
  "mem_equal p q 0 = True"
| "mem_equal (c # p) (d # q) (Suc n) = (c = d \<and> mem_equal p q n)"
| "mem_equal _ _ (Suc n) = False"

fun mem_case_equal :: "string \<Rightarrow> string \<Rightarrow> nat \<Rightarrow> bool" where
  "mem_case_equal p q 0 = True"
| "mem_case_equal (c # p) (d # q) (Suc n) = (to_lower c = to_lower d \<and> mem_case_equal p q n)"
| "mem_case_equal _ _ (Suc n) = False"

section \<open>Headers and variables\<close>

text \<open>
  One round of \<^verbatim>\<open>find_header_value\<close>: the header's value is found, the headers end, or the search goes on
  with the next line. At a carriage return without a line feed nothing is skipped.
\<close>

definition header_here :: "string \<Rightarrow> string \<Rightarrow> bool" where
  "header_here str field \<longleftrightarrow>
    mem_case_equal str field (length field) \<and> prefix_of '':'' (drop (length field) str)"

definition next_line :: "string \<Rightarrow> string" where
  "next_line str = (let str = after_cspn [CHR 0x0D] str in if mem_equal str CRLF 2 then drop 2 str else str)"

partial_function (option) find_header_value :: "string \<Rightarrow> string \<Rightarrow> string option option" where
  "find_header_value str field =
    (if str = [] \<or> mem_equal str CRLF 2 then Some None
     else if header_here str field
     then Some (Some (after_spn [CHR '' '', CHR 0x09] (drop (length field + 1) str)))
     else find_header_value (next_line str) field)"

function find_var_value :: "string \<Rightarrow> string \<Rightarrow> string option" where
  "find_var_value str name =
    (if mem_equal str name (length name) \<and> prefix_of ''='' (drop (length name) str)
     then Some (drop (length name + 1) str)
     else case after_cspn [CHR ''&'', CHR '' '', CHR 0x09, CHR 0x0D, CHR 0x0A] str of
       [] \<Rightarrow> None
     | c # rest \<Rightarrow> if c \<noteq> CHR ''&'' then None else find_var_value rest name)"
  by pat_completeness auto

lemma length_after_cspn: "length (after_cspn cs str) \<le> length str"
  by (simp add: after_cspn_def length_dropWhile_le)

termination find_var_value
proof (relation "measure (\<lambda>(str, name). length str)")
  fix str name c rest
  assume "after_cspn [CHR ''&'', CHR '' '', CHR 0x09, CHR 0x0D, CHR 0x0A] str = c # rest"
  then show "((rest, name), (str, name)) \<in> measure (\<lambda>(str, name). length str)"
    using length_after_cspn [of "[CHR ''&'', CHR '' '', CHR 0x09, CHR 0x0D, CHR 0x0A]" str] by simp
qed simp

declare find_var_value.simps [simp del]

definition sb_error_str :: "int \<Rightarrow> string" where
  "sb_error_str code =
    (if code = 0 then ''success'' else if code = - 1 then ''failure'' else if code = - 2 then ''out of memory''
     else if code = - 3 then ''result truncated'' else if code = - 4 then ''bad stream state for this operation''
     else if code = - 5 then ''bad result code from event handler'' else if code = - 6 then ''cannot open file''
     else if code = - 7 then ''not found'' else if code = - 8 then ''got socket fd larger than FD_SETSIZE''
     else ''unknown'')"

section \<open>Properties of the texts\<close>

lemma mem_equal_prefix: "mem_equal p q (length q) \<longleftrightarrow> (\<exists>t. p = q @ t)"
proof (induction q arbitrary: p)
  case (Cons d q)
  then show ?case by (cases p) auto
qed simp

lemma mem_equal_CRLF: "mem_equal p CRLF 2 \<longleftrightarrow> (\<exists>t. p = CRLF @ t)"
  using mem_equal_prefix [of p CRLF] by (simp add: CRLF_def eval_nat_numeral)

lemma mem_case_equal_map:
  "length q = n \<Longrightarrow> mem_case_equal p q n \<longleftrightarrow> n \<le> length p \<and> map to_lower (take n p) = map to_lower q"
proof (induction p q n rule: mem_case_equal.induct)
  case (2 c p d q n)
  then show ?case by auto
qed auto

end
