(* ===== verification/Web_Stream.thy ===== *)
theory Web_Stream
  imports Web_Text
begin

text \<open>
  The connections of \<^verbatim>\<open>sandbird.c\<close>: buffers that grow, the stream of one client, receiving a request and
  sending the response. Results are the codes of \<^verbatim>\<open>sandbird.h\<close>, numbers as there.
\<close>

section \<open>Data\<close>

datatype sb_state =
    STATE_RECEIVING_HEADER
  | STATE_RECEIVING_REQUEST
  | STATE_SENDING_STATUS
  | STATE_SENDING_HEADER
  | STATE_SENDING_DATA
  | STATE_SENDING_FILE
  | STATE_CLOSING

fun sb_state_number :: "sb_state \<Rightarrow> nat" where
  "sb_state_number STATE_RECEIVING_HEADER = 0"
| "sb_state_number STATE_RECEIVING_REQUEST = 1"
| "sb_state_number STATE_SENDING_STATUS = 2"
| "sb_state_number STATE_SENDING_HEADER = 3"
| "sb_state_number STATE_SENDING_DATA = 4"
| "sb_state_number STATE_SENDING_FILE = 5"
| "sb_state_number STATE_CLOSING = 6"

lemma sb_state_number_inj: "sb_state_number a = sb_state_number b \<longleftrightarrow> a = b"
  by (cases a; cases b) simp_all

instantiation sb_state :: linorder
begin

definition less_eq_sb_state :: "sb_state \<Rightarrow> sb_state \<Rightarrow> bool" where
  "less_eq_sb_state a b \<longleftrightarrow> sb_state_number a \<le> sb_state_number b"

definition less_sb_state :: "sb_state \<Rightarrow> sb_state \<Rightarrow> bool" where
  "less_sb_state a b \<longleftrightarrow> sb_state_number a < sb_state_number b"

instance
  by standard (auto simp: less_eq_sb_state_def less_sb_state_def sb_state_number_inj)

end

lemmas sb_state_order = less_eq_sb_state_def less_sb_state_def

text \<open>A buffer holds its characters and the size of the memory behind them.\<close>

record sb_Buffer =
  bf_s :: string
  bf_cap :: nat

text \<open>
  A stream without the pointers to its server and to the next stream. \<open>st_send_fp\<close> is what has not been
  read of the file that is sent.
\<close>

record sb_Stream =
  st_state :: sb_state
  st_address :: string
  st_init_time :: int
  st_last_activity :: int
  st_expected_recv_len :: nat
  st_data_idx :: nat
  st_sockfd :: nat
  st_recv_buf :: sb_Buffer
  st_send_buf :: sb_Buffer
  st_send_fp :: "string option"

text \<open>What \<^verbatim>\<open>recv\<close> and \<^verbatim>\<open>send\<close> come to; nothing received or sent is the end of a connection.\<close>

datatype received_chunk = Chunk string | Recv_would_block | Recv_failed
datatype sent_chunk = Sent nat | Send_would_block | Send_failed

text \<open>
  The surroundings: outcomes of allocations (they succeed when the list is empty), the clock as
  \<^verbatim>\<open>sb_poll_server\<close> last read it, what arrives at each socket and how sending on it goes, what was sent,
  the sockets closed, the files, and for \<^verbatim>\<open>getMeta\<close> the answers to its requests (\<open>None\<close> is an exception),
  whether the \<^verbatim>\<open>hosts\<close> file can be written, and its contents.
\<close>

record web_env =
  we_allocs :: "bool list"
  we_now :: int
  we_recv :: "nat \<Rightarrow> received_chunk list"
  we_send :: "nat \<Rightarrow> sent_chunk list"
  we_sent :: "nat \<Rightarrow> string"
  we_closed :: "nat list"
  we_files :: "string \<Rightarrow> string option"
  we_answers :: "string option list"
  we_hosts_writable :: bool
  we_hosts :: string

datatype sb_event_type = SB_EV_CONNECT | SB_EV_CLOSE | SB_EV_REQUEST

record sb_Event =
  se_type :: sb_event_type
  se_address :: string
  se_method :: string
  se_path :: string

type_synonym web = "sb_Stream \<times> web_env"
type_synonym sb_Handler = "sb_Event \<Rightarrow> web \<Rightarrow> (int \<times> web) run"

definition SB_ESUCCESS :: int where "SB_ESUCCESS = 0"
definition SB_EOUTOFMEM :: int where "SB_EOUTOFMEM = - 2"
definition SB_EBADSTATE :: int where "SB_EBADSTATE = - 4"
definition SB_EBADRESULT :: int where "SB_EBADRESULT = - 5"
definition SB_ECANTOPEN :: int where "SB_ECANTOPEN = - 6"
definition SB_ENOTFOUND :: int where "SB_ENOTFOUND = - 7"
definition SB_EFDTOOBIG :: int where "SB_EFDTOOBIG = - 8"
definition SB_RES_OK :: int where "SB_RES_OK = 0"
definition SB_RES_CLOSE :: int where "SB_RES_CLOSE = 1"

lemmas sb_codes = SB_ESUCCESS_def SB_EOUTOFMEM_def SB_EBADSTATE_def SB_EBADRESULT_def SB_ECANTOPEN_def
  SB_ENOTFOUND_def SB_EFDTOOBIG_def SB_RES_OK_def SB_RES_CLOSE_def

section \<open>Buffers\<close>

definition web_alloc :: "web_env \<Rightarrow> bool \<times> web_env" where
  "web_alloc e = (case we_allocs e of [] \<Rightarrow> (True, e) | b # bs \<Rightarrow> (b, e\<lparr>we_allocs := bs\<rparr>))"

definition sb_buffer_init :: sb_Buffer where
  "sb_buffer_init = \<lparr>bf_s = [], bf_cap = 0\<rparr>"

definition sb_buffer_shift :: "nat \<Rightarrow> sb_Buffer \<Rightarrow> sb_Buffer" where
  "sb_buffer_shift n b = b\<lparr>bf_s := drop n (bf_s b)\<rparr>"

definition sb_buffer_reserve :: "nat \<Rightarrow> sb_Buffer \<times> web_env \<Rightarrow> int \<times> sb_Buffer \<times> web_env" where
  "sb_buffer_reserve n = (\<lambda>(b, e).
    if bf_cap b \<ge> n then (SB_ESUCCESS, b, e)
    else case web_alloc e of
      (True, e) \<Rightarrow> (SB_ESUCCESS, b\<lparr>bf_cap := n\<rparr>, e)
    | (False, e) \<Rightarrow> (SB_EOUTOFMEM, b, e))"

definition sb_buffer_push_char :: "char \<Rightarrow> sb_Buffer \<times> web_env \<Rightarrow> int \<times> sb_Buffer \<times> web_env" where
  "sb_buffer_push_char chr = (\<lambda>(b, e).
    let (err, b, e) =
          (if length (bf_s b) = bf_cap b
           then sb_buffer_reserve (if bf_cap b = 0 then 1 else 2 * bf_cap b) (b, e)
           else (SB_ESUCCESS, b, e))
    in if err \<noteq> 0 then (err, b, e) else (SB_ESUCCESS, b\<lparr>bf_s := bf_s b @ [chr]\<rparr>, e))"

fun push_chars :: "string \<Rightarrow> nat \<Rightarrow> sb_Buffer \<times> web_env \<Rightarrow> int \<times> sb_Buffer \<times> web_env" where
  "push_chars [] orig_len (b, e) = (SB_ESUCCESS, b, e)"
| "push_chars (c # p) orig_len (b, e) =
    (case sb_buffer_push_char c (b, e) of (err, b, e) \<Rightarrow>
       if err \<noteq> 0 then (err, b\<lparr>bf_s := take orig_len (bf_s b)\<rparr>, e) else push_chars p orig_len (b, e))"

definition sb_buffer_push_str :: "string \<Rightarrow> sb_Buffer \<times> web_env \<Rightarrow> int \<times> sb_Buffer \<times> web_env" where
  "sb_buffer_push_str p = (\<lambda>(b, e). push_chars p (length (bf_s b)) (b, e))"

definition sb_buffer_null_terminate :: "sb_Buffer \<times> web_env \<Rightarrow> int \<times> sb_Buffer \<times> web_env" where
  "sb_buffer_null_terminate = (\<lambda>(b, e).
    case sb_buffer_push_char (CHR 0x00) (b, e) of (err, b', e) \<Rightarrow>
      if err \<noteq> 0 then (err, b', e) else (SB_ESUCCESS, b'\<lparr>bf_s := bf_s b\<rparr>, e))"

section \<open>Formats\<close>

text \<open>
  Arguments are strings and integers. A directive that wants an argument that is not there or not of
  its type is undefined. No format of the program has flags, widths or floating-point directives with
  an argument; they count as undefined here.
\<close>

datatype fmt_arg = Arg_str "string option" | Arg_int int

definition show_hex :: "bool \<Rightarrow> nat \<Rightarrow> string" where
  "show_hex upper n =
    (let ds = (if upper then ''0123456789ABCDEF'' else ''0123456789abcdef'');
         hs = dropWhile (\<lambda>d. d = 0) (map (\<lambda>i. (n div 16 ^ i) mod 16) (rev [0..<8]))
     in if hs = [] then ''0'' else map (\<lambda>d. ds ! d) hs)"

text \<open>One directive: what it prints, without what follows a zero, and the arguments that remain.\<close>

definition directive :: "string \<Rightarrow> char \<Rightarrow> fmt_arg list \<Rightarrow> (string \<times> fmt_arg list) option" where
  "directive flags conv args =
    (if length flags > 61 then None
     else if conv \<in> set ''fgcdiuxXp''
     then (case args of
             Arg_int i # args \<Rightarrow>
               if flags \<noteq> [] then None
               else if conv \<in> set ''di'' then Some (show_int i, args)
               else if conv = CHR ''c'' then Some (c_str [char_of (nat (i mod 256))], args)
               else if conv = CHR ''u'' then Some (show_int (i mod 2 ^ 32), args)
               else if conv \<in> set ''xX'' then Some (show_hex (conv = CHR ''X'') (nat (i mod 2 ^ 32)), args)
               else None
           | _ \<Rightarrow> None)
     else Some (c_str [conv], args))"

text \<open>The rest of a directive after the per cent sign: flags, the letter, and what follows.\<close>

definition split_directive :: "string \<Rightarrow> (string \<times> char \<times> string) option" where
  "split_directive fmt =
    (case dropWhile (\<lambda>c. \<not> is_alpha c \<and> c \<noteq> CHR ''%'') fmt of
       [] \<Rightarrow> None
     | conv # rest \<Rightarrow> Some (takeWhile (\<lambda>c. \<not> is_alpha c \<and> c \<noteq> CHR ''%'') fmt, conv, rest))"

lemma split_directive_shorter: "split_directive fmt = Some (flags, conv, rest) \<Longrightarrow> length rest < length fmt"
proof -
  assume "split_directive fmt = Some (flags, conv, rest)"
  then have "dropWhile (\<lambda>c. \<not> is_alpha c \<and> c \<noteq> CHR ''%'') fmt = conv # rest"
    by (simp add: split_directive_def split: list.splits)
  then show ?thesis by (metis length_Cons length_dropWhile_le less_eq_Suc_le)
qed

text \<open>
  The pieces that a format prints, in the order in which they are pushed, up to a directive that is
  undefined, and whether there is none.
\<close>

function format_pieces :: "string \<Rightarrow> fmt_arg list \<Rightarrow> string list \<times> bool" where
  "format_pieces [] args = ([], True)"
| "format_pieces (c # fmt) args =
    (if c \<noteq> CHR ''%'' then apfst (Cons [c]) (format_pieces fmt args)
     else case fmt of
       CHR ''s'' # fmt \<Rightarrow>
         (case args of
            Arg_str s # args \<Rightarrow>
              apfst (Cons (c_str (case s of None \<Rightarrow> ''(null)'' | Some s \<Rightarrow> s))) (format_pieces fmt args)
          | _ \<Rightarrow> ([], False))
     | _ \<Rightarrow>
         (case split_directive fmt of
            None \<Rightarrow> ([], False)
          | Some (flags, conv, fmt) \<Rightarrow>
              (case directive flags conv args of
                 None \<Rightarrow> ([], False)
               | Some (p, args) \<Rightarrow> apfst (Cons p) (format_pieces fmt args))))"
  by pat_completeness auto

termination
  by (relation "measure (\<lambda>(fmt, args). length fmt)") (auto dest: split_directive_shorter)

fun push_pieces :: "string list \<Rightarrow> nat \<Rightarrow> sb_Buffer \<times> web_env \<Rightarrow> int \<times> sb_Buffer \<times> web_env" where
  "push_pieces [] orig_len (b, e) = (SB_ESUCCESS, b, e)"
| "push_pieces (p # ps) orig_len (b, e) =
    (case sb_buffer_push_str p (b, e) of (err, b, e) \<Rightarrow>
       if err \<noteq> 0 then (err, b\<lparr>bf_s := take orig_len (bf_s b)\<rparr>, e) else push_pieces ps orig_len (b, e))"

definition sb_buffer_vwritef :: "string \<Rightarrow> fmt_arg list \<Rightarrow> sb_Buffer \<times> web_env \<Rightarrow> (int \<times> sb_Buffer \<times> web_env) run" where
  "sb_buffer_vwritef fmt args = (\<lambda>(b, e).
    let (ps, legal) = format_pieces fmt args;
        (err, b, e) = push_pieces ps (length (bf_s b)) (b, e)
    in if err = 0 \<and> \<not> legal then Illegal else Finished (err, b, e))"

section \<open>Streams\<close>

definition on_recv_buf :: "(sb_Buffer \<times> web_env \<Rightarrow> int \<times> sb_Buffer \<times> web_env) \<Rightarrow> web \<Rightarrow> int \<times> web" where
  "on_recv_buf f = (\<lambda>(st, e). case f (st_recv_buf st, e) of (err, b, e) \<Rightarrow> (err, st\<lparr>st_recv_buf := b\<rparr>, e))"

definition on_send_buf :: "(sb_Buffer \<times> web_env \<Rightarrow> int \<times> sb_Buffer \<times> web_env) \<Rightarrow> web \<Rightarrow> int \<times> web" where
  "on_send_buf f = (\<lambda>(st, e). case f (st_send_buf st, e) of (err, b, e) \<Rightarrow> (err, st\<lparr>st_send_buf := b\<rparr>, e))"

text \<open>\<open>peername\<close> is what \<^verbatim>\<open>getpeername\<close> gives as text.\<close>

definition sb_stream_new :: "nat \<Rightarrow> string option \<Rightarrow> web_env \<Rightarrow> sb_Stream option \<times> web_env" where
  "sb_stream_new sockfd peername e =
    (case web_alloc e of
       (False, e) \<Rightarrow> (None, e)
     | (True, e) \<Rightarrow>
         (Some \<lparr>st_state = STATE_RECEIVING_HEADER,
                st_address = (case peername of None \<Rightarrow> [] | Some a \<Rightarrow> a),
                st_init_time = we_now e, st_last_activity = we_now e,
                st_expected_recv_len = 0, st_data_idx = 0, st_sockfd = sockfd,
                st_recv_buf = sb_buffer_init, st_send_buf = sb_buffer_init, st_send_fp = None\<rparr>, e))"

definition sb_stream_close :: "sb_Stream \<Rightarrow> sb_Stream" where
  "sb_stream_close st = st\<lparr>st_state := STATE_CLOSING\<rparr>"

text \<open>The handler gets the event with the stream's address.\<close>

definition sb_stream_emit :: "sb_Handler \<Rightarrow> sb_event_type \<Rightarrow> string \<Rightarrow> string \<Rightarrow> web \<Rightarrow> (int \<times> web) run" where
  "sb_stream_emit handler type method path = (\<lambda>(st, e).
    bind_run (handler \<lparr>se_type = type, se_address = st_address st, se_method = method, se_path = path\<rparr> (st, e))
      (\<lambda>(res, st, e).
        if res < 0 then Finished (res, st, e)
        else if res = SB_RES_CLOSE then Finished (SB_ESUCCESS, sb_stream_close st, e)
        else if res = SB_RES_OK then Finished (SB_ESUCCESS, st, e)
        else Finished (SB_EBADRESULT, st, e)))"

text \<open>What the handler makes of the stream that is closed is lost with it.\<close>

definition sb_stream_destroy :: "sb_Handler \<Rightarrow> web \<Rightarrow> web_env run" where
  "sb_stream_destroy handler w =
    bind_run (sb_stream_emit handler SB_EV_CLOSE [] [] w)
      (\<lambda>(_, st, e). Finished (e\<lparr>we_closed := we_closed e @ [st_sockfd st]\<rparr>))"

section \<open>Writing the response\<close>

definition sb_send_status :: "int \<Rightarrow> string \<Rightarrow> web \<Rightarrow> (int \<times> web) run" where
  "sb_send_status code msg = (\<lambda>(st, e).
    if st_state st \<noteq> STATE_SENDING_STATUS then Finished (SB_EBADSTATE, st, e)
    else
      bind_run (sb_buffer_vwritef (''HTTP/1.1 %d %s'' @ CRLF) [Arg_int code, Arg_str (Some msg)] (st_send_buf st, e))
        (\<lambda>(err, b, e).
          let st = st\<lparr>st_send_buf := b\<rparr>
          in if err \<noteq> 0 then Finished (err, st, e)
             else Finished (SB_ESUCCESS, st\<lparr>st_state := STATE_SENDING_HEADER\<rparr>, e)))"

definition sb_stream_finalize_header :: "web \<Rightarrow> (int \<times> web) run" where
  "sb_stream_finalize_header = (\<lambda>(st, e).
    bind_run (if st_state st < STATE_SENDING_HEADER then sb_send_status 200 ''OK'' (st, e)
              else Finished (SB_ESUCCESS, st, e))
      (\<lambda>(err, st, e).
        if err \<noteq> 0 then Finished (err, st, e)
        else case on_send_buf (sb_buffer_push_str CRLF) (st, e) of (err, st, e) \<Rightarrow>
          if err \<noteq> 0 then Finished (err, st, e)
          else Finished (SB_ESUCCESS, st\<lparr>st_state := STATE_SENDING_DATA\<rparr>, e)))"

definition sb_send_header :: "string \<Rightarrow> string \<Rightarrow> web \<Rightarrow> (int \<times> web) run" where
  "sb_send_header field val = (\<lambda>(st, e).
    if st_state st > STATE_SENDING_HEADER then Finished (SB_EBADSTATE, st, e)
    else
      bind_run (if st_state st < STATE_SENDING_HEADER then sb_send_status 200 ''OK'' (st, e)
                else Finished (SB_ESUCCESS, st, e))
        (\<lambda>(err, st, e).
          if err \<noteq> 0 then Finished (err, st, e)
          else
            bind_run (sb_buffer_vwritef (''%s: %s'' @ CRLF) [Arg_str (Some field), Arg_str (Some val)] (st_send_buf st, e))
              (\<lambda>(err, b, e). Finished (if err \<noteq> 0 then err else SB_ESUCCESS, st\<lparr>st_send_buf := b\<rparr>, e))))"

definition sb_send_file :: "string \<Rightarrow> web \<Rightarrow> (int \<times> web) run" where
  "sb_send_file filename = (\<lambda>(st, e).
    if st_state st > STATE_SENDING_HEADER then Finished (SB_EBADSTATE, st, e)
    else case we_files e filename of
      None \<Rightarrow> Finished (SB_ECANTOPEN, st, e)
    | Some content \<Rightarrow>
        bind_run (sb_send_header ''Content-Length'' (show_int (uint (of_nat (length content) :: u32))) (st, e))
          (\<lambda>(err, st, e).
            if err \<noteq> 0 then Finished (err, st, e)
            else bind_run (sb_stream_finalize_header (st, e)) (\<lambda>(err, st, e).
              if err \<noteq> 0 then Finished (err, st, e)
              else Finished (SB_ESUCCESS, st\<lparr>st_send_fp := Some content, st_state := STATE_SENDING_FILE\<rparr>, e))))"

text \<open>The beginning of \<^verbatim>\<open>sb_write\<close> and \<^verbatim>\<open>sb_vwritef\<close>: the header is finished first.\<close>

definition ready_for_data :: "web \<Rightarrow> (int \<times> web) run" where
  "ready_for_data = (\<lambda>(st, e).
    bind_run (if st_state st < STATE_SENDING_DATA then sb_stream_finalize_header (st, e) else Finished (SB_ESUCCESS, st, e))
      (\<lambda>(err, st, e).
        if err \<noteq> 0 then Finished (err, st, e)
        else if st_state st \<noteq> STATE_SENDING_DATA then Finished (SB_EBADSTATE, st, e)
        else Finished (SB_ESUCCESS, st, e)))"

definition sb_write :: "string \<Rightarrow> web \<Rightarrow> (int \<times> web) run" where
  "sb_write data w =
    bind_run (ready_for_data w) (\<lambda>(err, w).
      if err \<noteq> 0 then Finished (err, w) else Finished (on_send_buf (sb_buffer_push_str data) w))"

definition sb_vwritef :: "string \<Rightarrow> fmt_arg list \<Rightarrow> web \<Rightarrow> (int \<times> web) run" where
  "sb_vwritef fmt args w =
    bind_run (ready_for_data w) (\<lambda>(err, st, e).
      if err \<noteq> 0 then Finished (err, st, e)
      else bind_run (sb_buffer_vwritef fmt args (st_send_buf st, e))
             (\<lambda>(err, b, e). Finished (err, st\<lparr>st_send_buf := b\<rparr>, e)))"

definition sb_writef :: "string \<Rightarrow> fmt_arg list \<Rightarrow> web \<Rightarrow> (int \<times> web) run" where
  "sb_writef fmt args w = sb_vwritef fmt args w"

section \<open>Receiving the request\<close>

text \<open>\<^verbatim>\<open>%15s\<close>: a word, after white space, of that many characters at most, and what follows.\<close>

definition scan_word :: "nat \<Rightarrow> string \<Rightarrow> (string \<times> string) option" where
  "scan_word n s =
    (let s = dropWhile is_space s; w = take n (takeWhile (\<lambda>c. \<not> is_space c) s)
     in if w = [] then None else Some (w, drop (length w) s))"

text \<open>\<^verbatim>\<open>"%15s %n%*s %15s"\<close>: the method, the text at \<^verbatim>\<open>path_idx\<close>, the version.\<close>

definition scan_request :: "string \<Rightarrow> (string \<times> string \<times> string) option" where
  "scan_request s =
    (case scan_word 15 s of None \<Rightarrow> None
     | Some (method, rest) \<Rightarrow>
         let target = dropWhile is_space rest
         in case scan_word (length target) target of None \<Rightarrow> None
          | Some (_, rest) \<Rightarrow>
              (case scan_word 15 rest of None \<Rightarrow> None | Some (ver, _) \<Rightarrow> Some (method, target, ver)))"

definition recv_text :: "sb_Stream \<Rightarrow> string" where
  "recv_text st = c_str (bf_s (st_recv_buf st))"

text \<open>The label \<^verbatim>\<open>handle_request\<close>.\<close>

definition handle_request :: "sb_Handler \<Rightarrow> web \<Rightarrow> (int \<times> web) run" where
  "handle_request handler = (\<lambda>(st, e).
    case on_recv_buf sb_buffer_null_terminate (st\<lparr>st_state := STATE_SENDING_STATUS\<rparr>, e) of (err, st, e) \<Rightarrow>
      if err \<noteq> 0 then Finished (err, st, e)
      else case scan_request (recv_text st) of
        None \<Rightarrow> Finished (SB_ESUCCESS, sb_stream_close st, e)
      | Some (method, target, ver) \<Rightarrow>
          if \<not> mem_equal ver ''HTTP'' 4 then Finished (SB_ESUCCESS, sb_stream_close st, e)
          else bind_run (url_decode target 512) (\<lambda>(_, path).
                 sb_stream_emit handler SB_EV_REQUEST method (c_str path) (st, e)))"

definition header_complete :: "sb_Stream \<Rightarrow> bool" where
  "header_complete st \<longleftrightarrow>
    (let s = bf_s (st_recv_buf st)
     in st_state st = STATE_RECEIVING_HEADER \<and> length s \<ge> 4 \<and> mem_equal (drop (length s - 4) s) (CRLF @ CRLF) 4)"

text \<open>
  What happens after a character has been taken up: \<open>Some\<close> is the code with which \<^verbatim>\<open>sb_stream_recv\<close> returns,
  \<open>None\<close> goes on. First whether the data that was expected is there, then the whole.
\<close>

definition expected_there :: "sb_Handler \<Rightarrow> web \<Rightarrow> (int option \<times> web) run" where
  "expected_there handler = (\<lambda>(st, e).
    if st_expected_recv_len st = length (bf_s (st_recv_buf st))
    then bind_run (handle_request handler (st, e)) (\<lambda>(err, w). Finished (Some err, w))
    else Finished (None, st, e))"

definition character_received :: "sb_Handler \<Rightarrow> web \<Rightarrow> (int option \<times> web) run" where
  "character_received handler = (\<lambda>(st, e).
    if \<not> header_complete st then expected_there handler (st, e)
    else case on_recv_buf sb_buffer_null_terminate (st\<lparr>st_state := STATE_RECEIVING_REQUEST\<rparr>, e) of (err, st, e) \<Rightarrow>
      if err \<noteq> 0 then Finished (Some err, st, e)
      else bind_run (loop_run (find_header_value (recv_text st) ''Content-Length'')) (\<lambda>s.
        case s of
          None \<Rightarrow> bind_run (handle_request handler (st, e)) (\<lambda>(err, w). Finished (Some err, w))
        | Some s \<Rightarrow>
            let len = length (bf_s (st_recv_buf st))
            in expected_there handler
                 (st\<lparr>st_expected_recv_len := len + unat (str_to_uint (Some s)), st_data_idx := len\<rparr>, e)))"

fun recv_chars :: "sb_Handler \<Rightarrow> string \<Rightarrow> web \<Rightarrow> (int option \<times> web) run" where
  "recv_chars handler [] w = Finished (None, w)"
| "recv_chars handler (c # cs) w =
    (case on_recv_buf (sb_buffer_push_char c) w of (err, w) \<Rightarrow>
       if err \<noteq> 0 then Finished (Some err, w)
       else bind_run (character_received handler w) (\<lambda>(r, w).
         case r of Some err \<Rightarrow> Finished (Some err, w) | None \<Rightarrow> recv_chars handler cs w))"

text \<open>
  The loop over what arrives at the socket. Characters after the end of a request are dropped with
  the chunk they came in.
\<close>

fun recv_chunks :: "sb_Handler \<Rightarrow> received_chunk list \<Rightarrow> web \<Rightarrow> (int \<times> received_chunk list \<times> web) run" where
  "recv_chunks handler [] w = Finished (SB_ESUCCESS, [], w)"
| "recv_chunks handler (r # rs) (st, e) =
    (case r of
       Recv_would_block \<Rightarrow> Finished (SB_ESUCCESS, rs, st, e)
     | Recv_failed \<Rightarrow> Finished (SB_ESUCCESS, rs, sb_stream_close st, e)
     | Chunk s \<Rightarrow>
         if s = [] then Finished (SB_ESUCCESS, rs, sb_stream_close st, e)
         else bind_run (recv_chars handler s (st\<lparr>st_last_activity := we_now e\<rparr>, e)) (\<lambda>(r, w).
           case r of Some err \<Rightarrow> Finished (err, rs, w) | None \<Rightarrow> recv_chunks handler rs w))"

definition sb_stream_recv :: "sb_Handler \<Rightarrow> web \<Rightarrow> (int \<times> web) run" where
  "sb_stream_recv handler = (\<lambda>(st, e).
    bind_run (recv_chunks handler (we_recv e (st_sockfd st)) (st, e)) (\<lambda>(err, rs, st', e).
      Finished (err, st', e\<lparr>we_recv := (we_recv e)(st_sockfd st := rs)\<rparr>)))"

section \<open>Sending the response\<close>

definition next_send :: "nat \<Rightarrow> web_env \<Rightarrow> sent_chunk \<times> web_env" where
  "next_send fd e =
    (case we_send e fd of [] \<Rightarrow> (Send_would_block, e)
     | r # rs \<Rightarrow> (r, e\<lparr>we_send := (we_send e)(fd := rs)\<rparr>))"

text \<open>The label \<^verbatim>\<open>send_data\<close>. The system takes no more than there is.\<close>

definition send_data :: "web \<Rightarrow> web" where
  "send_data = (\<lambda>(st, e).
    case next_send (st_sockfd st) e of
      (Send_would_block, e) \<Rightarrow> (st, e)
    | (Send_failed, e) \<Rightarrow> (sb_stream_close st, e)
    | (Sent n, e) \<Rightarrow>
        if n = 0 then (sb_stream_close st, e)
        else
          let s = take n (bf_s (st_send_buf st))
          in (st\<lparr>st_send_buf := sb_buffer_shift (length s) (st_send_buf st), st_last_activity := we_now e\<rparr>,
              e\<lparr>we_sent := (we_sent e)(st_sockfd st := we_sent e (st_sockfd st) @ s)\<rparr>))"

definition sb_stream_send :: "web \<Rightarrow> int \<times> web" where
  "sb_stream_send = (\<lambda>(st, e).
    if bf_s (st_send_buf st) \<noteq> [] then (SB_ESUCCESS, send_data (st, e))
    else case st_send_fp st of
      None \<Rightarrow> (SB_ESUCCESS, sb_stream_close st, e)
    | Some content \<Rightarrow>
        (case on_send_buf (sb_buffer_reserve 8192) (st, e) of (err, st, e) \<Rightarrow>
           if err \<noteq> 0 then (err, st, e)
           else
             let n = bf_cap (st_send_buf st);
                 st = st\<lparr>st_send_buf := (st_send_buf st)\<lparr>bf_s := take n content\<rparr>, st_send_fp := Some (drop n content)\<rparr>
             in if bf_s (st_send_buf st) \<noteq> [] then (SB_ESUCCESS, send_data (st, e))
                else (SB_ESUCCESS, st\<lparr>st_send_fp := None\<rparr>, e)))"

end
