(* ===== verification/Web_Server.thy ===== *)
theory Web_Server
  imports Web_Stream Proton_Rtvar
begin

text \<open>
  The server of \<^verbatim>\<open>sandbird.c\<close>, which looks after all streams in turn, and \<^verbatim>\<open>http.cpp\<close>, which answers the game's
  request for the list of servers with the proxy's own address and serves the game's files.
\<close>

section \<open>The server\<close>

text \<open>Times are in seconds, the two limits on them in milliseconds; a limit of zero is none.\<close>

record sb_Server =
  ws_streams :: "sb_Stream list"
  ws_sockfd :: nat
  ws_timeout :: int
  ws_max_lifetime :: int
  ws_max_request_size :: nat

record sb_Options =
  so_timeout :: "string option"
  so_max_lifetime :: "string option"
  so_max_request_size :: "string option"

text \<open>Whether \<^verbatim>\<open>getaddrinfo\<close>, \<^verbatim>\<open>bind\<close> and \<^verbatim>\<open>listen\<close> succeed, and the socket.\<close>

record listening =
  li_address :: bool
  li_socket :: "nat option"
  li_bind :: bool
  li_listen :: bool

fun destroy_streams :: "sb_Handler \<Rightarrow> sb_Stream list \<Rightarrow> web_env \<Rightarrow> web_env run" where
  "destroy_streams handler [] e = Finished e"
| "destroy_streams handler (st # sts) e =
    bind_run (sb_stream_destroy handler (st, e)) (destroy_streams handler sts)"

definition sb_close_server :: "sb_Handler \<Rightarrow> nat option \<Rightarrow> sb_Stream list \<Rightarrow> web_env \<Rightarrow> web_env run" where
  "sb_close_server handler sockfd sts e =
    bind_run (destroy_streams handler sts e) (\<lambda>e.
      Finished (case sockfd of None \<Rightarrow> e | Some fd \<Rightarrow> e\<lparr>we_closed := we_closed e @ [fd]\<rparr>))"

definition sb_new_server :: "sb_Handler \<Rightarrow> sb_Options \<Rightarrow> listening \<Rightarrow> web_env \<Rightarrow> (sb_Server option \<times> web_env) run" where
  "sb_new_server handler opt l e =
    (case web_alloc e of
       (False, e) \<Rightarrow> Finished (None, e)
     | (True, e) \<Rightarrow>
         let failed = (\<lambda>fd. bind_run (sb_close_server handler fd [] e) (\<lambda>e. Finished (None, e)))
         in if \<not> li_address l then failed None
            else case li_socket l of
              None \<Rightarrow> failed None
            | Some fd \<Rightarrow>
                if \<not> li_bind l \<or> \<not> li_listen l then failed (Some fd)
                else Finished (Some
                  \<lparr>ws_streams = [], ws_sockfd = fd,
                   ws_timeout = (if so_timeout opt = None then 30000 else uint (str_to_uint (so_timeout opt))),
                   ws_max_lifetime = uint (str_to_uint (so_max_lifetime opt)),
                   ws_max_request_size = unat (str_to_uint (so_max_request_size opt))\<rparr>, e))"

definition FD_SETSIZE :: nat where "FD_SETSIZE = 1024"

text \<open>
  What \<^verbatim>\<open>select\<close> leaves in the sets of sockets, the time, and the connections that \<^verbatim>\<open>accept\<close> yields, with
  the name of the other end.
\<close>

record selected =
  sl_ready :: "nat \<Rightarrow> bool"
  sl_now :: int
  sl_accepts :: "(nat \<times> string option) list"

definition stream_reads :: "selected \<Rightarrow> sb_Stream \<Rightarrow> bool" where
  "stream_reads sel st \<longleftrightarrow> st_state st < STATE_SENDING_STATUS \<and> sl_ready sel (st_sockfd st)"

definition stream_writes :: "selected \<Rightarrow> sb_Stream \<Rightarrow> bool" where
  "stream_writes sel st \<longleftrightarrow> st_state st \<ge> STATE_SENDING_STATUS \<and> sl_ready sel (st_sockfd st)"

definition stream_expired :: "sb_Server \<Rightarrow> int \<Rightarrow> sb_Stream \<Rightarrow> bool" where
  "stream_expired srv now st \<longleftrightarrow>
    (ws_timeout srv \<noteq> 0 \<and> now - st_last_activity st > ws_timeout srv div 1000) \<or>
    (ws_max_lifetime srv \<noteq> 0 \<and> now - st_init_time st > ws_max_lifetime srv div 1000) \<or>
    (ws_max_request_size srv \<noteq> 0 \<and> length (bf_s (st_recv_buf st)) \<ge> ws_max_request_size srv)"

text \<open>Receiving or sending on one stream, and its limits.\<close>

definition serve_stream :: "sb_Handler \<Rightarrow> selected \<Rightarrow> sb_Server \<Rightarrow> web \<Rightarrow> (int \<times> web) run" where
  "serve_stream handler sel srv = (\<lambda>(st, e).
    bind_run (if stream_reads sel st then sb_stream_recv handler (st, e) else Finished (SB_ESUCCESS, st, e))
      (\<lambda>(err, st', e).
        if err \<noteq> 0 then Finished (err, st', e)
        else case (if stream_writes sel st then sb_stream_send (st', e) else (SB_ESUCCESS, st', e)) of
          (err, st', e) \<Rightarrow>
            if err \<noteq> 0 then Finished (err, st', e)
            else Finished (SB_ESUCCESS, if stream_expired srv (sl_now sel) st' then sb_stream_close st' else st', e)))"

text \<open>The loop over the streams: those that are closed are destroyed, an error ends the loop.\<close>

fun serve_streams :: "sb_Handler \<Rightarrow> selected \<Rightarrow> sb_Server \<Rightarrow> sb_Stream list \<Rightarrow> web_env \<Rightarrow> (int \<times> sb_Stream list \<times> web_env) run" where
  "serve_streams handler sel srv [] e = Finished (SB_ESUCCESS, [], e)"
| "serve_streams handler sel srv (st # sts) e =
    bind_run (serve_stream handler sel srv (st, e)) (\<lambda>(err, st, e).
      if err \<noteq> 0 then Finished (err, st # sts, e)
      else if st_state st = STATE_CLOSING
      then bind_run (sb_stream_destroy handler (st, e)) (serve_streams handler sel srv sts)
      else bind_run (serve_streams handler sel srv sts e) (\<lambda>(err, sts, e). Finished (err, st # sts, e)))"

text \<open>The loop over new connections: a new stream comes first in the list.\<close>

fun accept_streams :: "sb_Handler \<Rightarrow> (nat \<times> string option) list \<Rightarrow> sb_Stream list \<Rightarrow> web_env \<Rightarrow> (int \<times> sb_Stream list \<times> web_env) run" where
  "accept_streams handler [] sts e = Finished (SB_ESUCCESS, sts, e)"
| "accept_streams handler ((fd, peername) # accepts) sts e =
    (if fd > FD_SETSIZE then Finished (SB_EFDTOOBIG, sts, e\<lparr>we_closed := we_closed e @ [fd]\<rparr>)
     else case sb_stream_new fd peername e of
       (None, e) \<Rightarrow> Finished (SB_EOUTOFMEM, sts, e\<lparr>we_closed := we_closed e @ [fd]\<rparr>)
     | (Some st, e) \<Rightarrow>
         bind_run (sb_stream_emit handler SB_EV_CONNECT [] [] (st, e)) (\<lambda>(err, st, e).
           if err \<noteq> 0 then Finished (err, st # sts, e) else accept_streams handler accepts (st # sts) e))"

text \<open>\<^verbatim>\<open>FD_SET\<close> and \<^verbatim>\<open>FD_ISSET\<close> with a socket of \<^verbatim>\<open>FD_SETSIZE\<close> or more go past the end of the set.\<close>

definition sb_poll_server :: "sb_Handler \<Rightarrow> selected \<Rightarrow> sb_Server \<Rightarrow> web_env \<Rightarrow> (int \<times> sb_Server \<times> web_env) run" where
  "sb_poll_server handler sel srv e =
    (if ws_sockfd srv \<ge> FD_SETSIZE \<or> (\<exists>st \<in> set (ws_streams srv). st_sockfd st \<ge> FD_SETSIZE) then Illegal
     else
       bind_run (serve_streams handler sel srv (ws_streams srv) (e\<lparr>we_now := sl_now sel\<rparr>)) (\<lambda>(err, sts, e).
         if err \<noteq> 0 \<or> \<not> sl_ready sel (ws_sockfd srv) then Finished (err, srv\<lparr>ws_streams := sts\<rparr>, e)
         else bind_run (accept_streams handler (sl_accepts sel) sts e) (\<lambda>(err, sts, e).
                Finished (err, srv\<lparr>ws_streams := sts\<rparr>, e))))"

section \<open>\<^verbatim>\<open>http.cpp\<close>\<close>

text \<open>
  \<^verbatim>\<open>getMeta\<close> takes the redirection out of the \<^verbatim>\<open>hosts\<close> file for the time of its request to the real server,
  which may throw.
\<close>

definition redirected_hosts :: string where
  "redirected_hosts =
    ''127.0.0.1 growtopia1.com'' @ [CHR 0x0A] @ ''127.0.0.1 growtopia2.com'' @ [CHR 0x0A] @
    ''127.0.0.1 www.growtopia1.com'' @ [CHR 0x0A] @ ''127.0.0.1 www.growtopia2.com''"

definition write_hosts :: "string \<Rightarrow> web_env \<Rightarrow> web_env" where
  "write_hosts text e = (if we_hosts_writable e then e\<lparr>we_hosts := text\<rparr> else e)"

definition next_answer :: "web_env \<Rightarrow> string option \<times> web_env" where
  "next_answer e = (case we_answers e of [] \<Rightarrow> (None, e) | a # as \<Rightarrow> (a, e\<lparr>we_answers := as\<rparr>))"

definition getMeta :: "web_env \<Rightarrow> (string \<times> web_env) run" where
  "getMeta e =
    (case next_answer (write_hosts [] e) of
       (None, e) \<Rightarrow> Raised
     | (Some body, e) \<Rightarrow>
         let var = rtvar_parse body;
             e = write_hosts redirected_hosts e
         in Finished (if rtvar_find ''meta'' var = None then [] else rtvar_get ''meta'' var, e))"

text \<open>\<^verbatim>\<open>format\<close> prints into 1024 characters, the last of which is zero. \<^verbatim>\<open>server_data\<close> with its four arguments:\<close>

definition server_data :: "string \<Rightarrow> string \<Rightarrow> string \<Rightarrow> string" where
  "server_data ip port meta =
    take 1023
      (''server|'' @ c_str ip @ [CHR 0x0A] @
       ''port|'' @ c_str port @ [CHR 0x0A] @
       ''type|1'' @ [CHR 0x0A] @
       ''#maint|Under mainteance.'' @ [CHR 0x0A] @
       ''beta_server|'' @ c_str ip @ [CHR 0x0A] @
       ''beta_port|1945'' @ [CHR 0x0A] @
       ''beta_type|1'' @ [CHR 0x0A] @
       ''meta|'' @ c_str meta @ [CHR 0x0A] @
       ''RTENDMARKERBS1001'' @ [CHR 0x0A])"

text \<open>The size of a file is cut to 32 bits; without memory for it there is no content.\<close>

definition read_file :: "string \<Rightarrow> web_env \<Rightarrow> (string \<times> u32) option \<times> web_env" where
  "read_file file e =
    (case we_files e file of
       None \<Rightarrow> (None, e)
     | Some content \<Rightarrow>
         let fsize = of_nat (length content) :: u32
         in case web_alloc e of
              (False, e) \<Rightarrow> (None, e)
            | (True, e) \<Rightarrow> (Some (take (unat fsize) content, fsize), e))"

text \<open>The calls of the handler go on whatever they return.\<close>

definition also_do :: "(int \<times> web) run \<Rightarrow> (web \<Rightarrow> (int \<times> web) run) \<Rightarrow> (int \<times> web) run" where
  "also_do x f = bind_run x (\<lambda>(_, w). f w)"

definition serve_data :: "string \<Rightarrow> string \<Rightarrow> web \<Rightarrow> (int \<times> web) run" where
  "serve_data ip port w =
    also_do (sb_send_status 200 ''OK'' w) (\<lambda>w.
    also_do (sb_send_header ''Content-Type'' ''text/plain'' w) (\<lambda>(st, e).
    bind_run (getMeta e) (\<lambda>(meta, e). sb_writef (server_data ip port meta) [] (st, e))))"

definition serve_file :: "string \<Rightarrow> web \<Rightarrow> (int \<times> web) run" where
  "serve_file path w =
    also_do (sb_send_status 200 ''OK'' w) (\<lambda>(st, e).
    case read_file (drop 1 path) e of
      (Some (content, fsize), e) \<Rightarrow>
        also_do (sb_send_header ''Content-Type'' ''application/x-www-form-urlencoded'' (st, e)) (\<lambda>w.
        also_do (sb_send_header ''Content-Length'' (show_int (sint fsize)) w) (\<lambda>w.
        also_do (sb_send_header ''beserver'' ''06'' w) (\<lambda>w.
        also_do (sb_send_header ''Connection'' ''keep-alive'' w) (\<lambda>w.
        also_do (sb_send_header ''Accept-Ranges'' ''bytes'' w) (\<lambda>w.
        sb_write content w)))))
    | (None, e) \<Rightarrow>
        also_do (sb_send_header ''Content-Type'' ''text/plain'' (st, e)) (\<lambda>w.
        sb_writef ''file not found'' [] w))"

definition serve_unknown :: "web \<Rightarrow> (int \<times> web) run" where
  "serve_unknown w =
    also_do (sb_send_status 200 ''OK'' w) (\<lambda>w.
    also_do (sb_send_header ''Content-Type'' ''text/plain'' w) (\<lambda>w.
    sb_writef ''unknown'' [] w))"

definition file_path :: "string \<Rightarrow> bool" where
  "file_path path \<longleftrightarrow>
    contains path ''/game/'' \<or> contains path ''/social/'' \<or> contains path ''/interface/'' \<or> contains path ''/audio/''"

definition http_handler :: "string \<Rightarrow> string \<Rightarrow> sb_Handler" where
  "http_handler ip port evt w =
    (if se_type evt \<noteq> SB_EV_REQUEST then Finished (SB_RES_OK, w)
     else
       also_do
         (if contains (se_path evt) ''/growtopia/server_data.php'' then serve_data ip port w
          else if file_path (se_path evt) \<and> contains (se_method evt) ''GET'' then serve_file (se_path evt) w
          else serve_unknown w)
         (\<lambda>w. Finished (SB_RES_OK, w)))"

definition http_options :: sb_Options where
  "http_options = \<lparr>so_timeout = None, so_max_lifetime = None, so_max_request_size = None\<rparr>"

text \<open>
  \<^verbatim>\<open>run\<close>: \<^verbatim>\<open>start\<close>, and the rounds of its loop for what \<^verbatim>\<open>select\<close> yields in each. A server that could not
  be started is used all the same.
\<close>

fun http_rounds :: "sb_Handler \<Rightarrow> selected list \<Rightarrow> sb_Server \<Rightarrow> web_env \<Rightarrow> (sb_Server \<times> web_env) run" where
  "http_rounds handler [] srv e = Finished (srv, e)"
| "http_rounds handler (sel # sels) srv e =
    bind_run (sb_poll_server handler sel srv e) (\<lambda>(_, srv, e). http_rounds handler sels srv e)"

definition http_run :: "string \<Rightarrow> string \<Rightarrow> listening \<Rightarrow> selected list \<Rightarrow> web_env \<Rightarrow> (sb_Server \<times> web_env) run" where
  "http_run dest port2 l sels e =
    bind_run (sb_new_server (http_handler dest port2) http_options l e) (\<lambda>(srv, e).
      case srv of
        None \<Rightarrow> Illegal
      | Some srv \<Rightarrow> http_rounds (http_handler dest port2) sels srv e)"

end
