(* ===== verification/Web_Contract.thy ===== *)
theory Web_Contract
  imports Web_Server
begin

text \<open>
  Memory safety of the web server: the buffers never hold more than their memory, and nothing undefined
  happens, for any handler that keeps to the contract \<open>web_handler\<close>. The handler of \<^verbatim>\<open>http.cpp\<close> does
  as long as no text that it prints as a format has a per cent sign.
\<close>

section \<open>Runs that satisfy a condition\<close>

named_theorems tame_intros
  \<open>calls that only write into the buffer of the response\<close>
named_theorems puts_intros
  \<open>what calls write when there is memory\<close>

text \<open>A run is safe when it is not undefined and what it returns, if it does, satisfies the condition.\<close>

definition run_ok :: "('a \<Rightarrow> bool) \<Rightarrow> 'a run \<Rightarrow> bool" where
  "run_ok Q x \<longleftrightarrow> (case x of Finished a \<Rightarrow> Q a | Illegal \<Rightarrow> False | Raised \<Rightarrow> True | Endless \<Rightarrow> True)"

lemma run_ok_simps [simp]:
  "run_ok Q (Finished a) = Q a" "\<not> run_ok Q Illegal" "run_ok Q Raised" "run_ok Q Endless"
  by (simp_all add: run_ok_def)

lemma run_ok_bind: "run_ok Q x \<Longrightarrow> (\<And>a. Q a \<Longrightarrow> run_ok R (f a)) \<Longrightarrow> run_ok R (bind_run x f)"
  by (cases x) simp_all

lemma run_ok_bind3:
  "run_ok Q x \<Longrightarrow> (\<And>a b c. Q (a, b, c) \<Longrightarrow> run_ok R (f (a, b, c))) \<Longrightarrow> run_ok R (bind_run x f)"
  by (cases x) auto

lemma run_ok_mono: "run_ok Q x \<Longrightarrow> (\<And>a. Q a \<Longrightarrow> R a) \<Longrightarrow> run_ok R x"
  by (cases x) simp_all

lemma run_ok_loop: "(\<And>a. x = Some a \<Longrightarrow> Q a) \<Longrightarrow> run_ok Q (loop_run x)"
  by (cases x) simp_all

section \<open>Buffers\<close>

definition buffer_ok :: "sb_Buffer \<Rightarrow> bool" where
  "buffer_ok b \<longleftrightarrow> length (bf_s b) \<le> bf_cap b"

text \<open>Only outcomes of allocations are used up.\<close>

definition quiet :: "web_env \<Rightarrow> web_env \<Rightarrow> bool" where
  "quiet e e' \<longleftrightarrow> (\<exists>bs. e' = e\<lparr>we_allocs := bs\<rparr> \<and> (we_allocs e = [] \<longrightarrow> bs = []))"

lemma quiet_refl [simp]: "quiet e e"
  unfolding quiet_def by (rule exI [of _ "we_allocs e"]) simp

lemma quiet_trans: "quiet e e' \<Longrightarrow> quiet e' e'' \<Longrightarrow> quiet e e''"
  by (auto simp: quiet_def)

lemma quiet_alloc: "web_alloc e = (b, e') \<Longrightarrow> quiet e e'"
proof (cases "we_allocs e")
  case (Cons a as)
  then show "web_alloc e = (b, e') \<Longrightarrow> ?thesis" by (auto simp: web_alloc_def quiet_def)
qed (simp add: web_alloc_def)

lemma quiet_no_failure: "quiet e e' \<Longrightarrow> we_allocs e = [] \<Longrightarrow> e' = e"
  by (auto simp: quiet_def)

lemma buffer_reserve:
  assumes "sb_buffer_reserve n (b, e) = (err, b', e')"
  shows "quiet e e'" "bf_s b' = bf_s b" "bf_cap b \<le> bf_cap b'" "err = 0 \<Longrightarrow> n \<le> bf_cap b'"
    and "we_allocs e = [] \<Longrightarrow> err = 0"
  using assms quiet_alloc [of e] by (auto simp: sb_buffer_reserve_def sb_codes web_alloc_def split: if_splits prod.splits bool.splits list.splits)

lemma buffer_push_char:
  assumes "sb_buffer_push_char c (b, e) = (err, b', e')"
  shows "quiet e e'" "bf_s b' = (if err = 0 then bf_s b @ [c] else bf_s b)" "buffer_ok b \<Longrightarrow> buffer_ok b'"
    and "we_allocs e = [] \<Longrightarrow> err = 0"
proof -
  define n where "n = (if bf_cap b = 0 then 1 else 2 * bf_cap b)"
  obtain err1 b1 e1 where r: "sb_buffer_reserve n (b, e) = (err1, b1, e1)" by (metis prod_cases3)
  note rs = buffer_reserve [OF r]
  show "quiet e e'" "bf_s b' = (if err = 0 then bf_s b @ [c] else bf_s b)" "we_allocs e = [] \<Longrightarrow> err = 0"
    using assms r rs by (auto simp: sb_buffer_push_char_def sb_codes n_def Let_def split: if_splits)
  show "buffer_ok b'" if "buffer_ok b"
    using assms r rs that by (auto simp: sb_buffer_push_char_def sb_codes n_def Let_def buffer_ok_def split: if_splits)
qed

lemma push_chars:
  assumes "push_chars p n (b, e) = (err, b', e')" "n \<le> length (bf_s b)"
  shows "quiet e e'" "bf_s b' = (if err = 0 then bf_s b @ p else take n (bf_s b))" "buffer_ok b \<Longrightarrow> buffer_ok b'"
    and "we_allocs e = [] \<Longrightarrow> err = 0"
proof -
  have "quiet e e' \<and> bf_s b' = (if err = 0 then bf_s b @ p else take n (bf_s b)) \<and> (buffer_ok b \<longrightarrow> buffer_ok b')
    \<and> (we_allocs e = [] \<longrightarrow> err = 0)"
    using assms
  proof (induction p arbitrary: b e)
    case (Cons c p)
    obtain err1 b1 e1 where r: "sb_buffer_push_char c (b, e) = (err1, b1, e1)" by (metis prod_cases3)
    note rs = buffer_push_char [OF r]
    show ?case
    proof (cases "err1 = 0")
      case True
      then have "push_chars p n (b1, e1) = (err, b', e')" using Cons.prems r by simp
      then have "quiet e1 e' \<and> bf_s b' = (if err = 0 then bf_s b1 @ p else take n (bf_s b1)) \<and> (buffer_ok b1 \<longrightarrow> buffer_ok b')
        \<and> (we_allocs e1 = [] \<longrightarrow> err = 0)"
        using Cons.IH Cons.prems(2) rs(2) True by simp
      then show ?thesis using rs True Cons.prems(2) quiet_trans quiet_no_failure [OF rs(1)] by auto
    next
      case False
      then show ?thesis using Cons.prems r rs by (auto simp: buffer_ok_def)
    qed
  qed (auto simp: sb_codes)
  then show "quiet e e'" "bf_s b' = (if err = 0 then bf_s b @ p else take n (bf_s b))" "buffer_ok b \<Longrightarrow> buffer_ok b'"
    "we_allocs e = [] \<Longrightarrow> err = 0" by simp_all
qed

lemma buffer_push_str:
  assumes "sb_buffer_push_str p (b, e) = (err, b', e')"
  shows "quiet e e'" "bf_s b' = (if err = 0 then bf_s b @ p else bf_s b)" "buffer_ok b \<Longrightarrow> buffer_ok b'"
    and "we_allocs e = [] \<Longrightarrow> err = 0"
  using assms push_chars [of p "length (bf_s b)" b e err b' e'] by (auto simp: sb_buffer_push_str_def)

lemma buffer_null_terminate:
  assumes "sb_buffer_null_terminate (b, e) = (err, b', e')"
  shows "quiet e e'" "bf_s b' = bf_s b" "buffer_ok b \<Longrightarrow> buffer_ok b'" "we_allocs e = [] \<Longrightarrow> err = 0"
proof -
  obtain err1 b1 e1 where r: "sb_buffer_push_char (CHR 0x00) (b, e) = (err1, b1, e1)" by (metis prod_cases3)
  note rs = buffer_push_char [OF r]
  show "quiet e e'" "bf_s b' = bf_s b" "buffer_ok b \<Longrightarrow> buffer_ok b'" "we_allocs e = [] \<Longrightarrow> err = 0"
    using assms r rs by (auto simp: sb_buffer_null_terminate_def sb_codes buffer_ok_def split: if_splits)
qed

lemma push_pieces:
  assumes "push_pieces ps n (b, e) = (err, b', e')" "n \<le> length (bf_s b)"
  shows "quiet e e'" "bf_s b' = (if err = 0 then bf_s b @ concat ps else take n (bf_s b))" "buffer_ok b \<Longrightarrow> buffer_ok b'"
    and "we_allocs e = [] \<Longrightarrow> err = 0"
proof -
  have "quiet e e' \<and> bf_s b' = (if err = 0 then bf_s b @ concat ps else take n (bf_s b)) \<and> (buffer_ok b \<longrightarrow> buffer_ok b')
    \<and> (we_allocs e = [] \<longrightarrow> err = 0)"
    using assms
  proof (induction ps arbitrary: b e)
    case (Cons p ps)
    obtain err1 b1 e1 where r: "sb_buffer_push_str p (b, e) = (err1, b1, e1)" by (metis prod_cases3)
    note rs = buffer_push_str [OF r]
    show ?case
    proof (cases "err1 = 0")
      case True
      then have "push_pieces ps n (b1, e1) = (err, b', e')" using Cons.prems r by simp
      then have "quiet e1 e' \<and> bf_s b' = (if err = 0 then bf_s b1 @ concat ps else take n (bf_s b1))
        \<and> (buffer_ok b1 \<longrightarrow> buffer_ok b') \<and> (we_allocs e1 = [] \<longrightarrow> err = 0)"
        using Cons.IH Cons.prems(2) rs(2) True by simp
      then show ?thesis using rs True Cons.prems(2) quiet_trans quiet_no_failure [OF rs(1)] by auto
    next
      case False
      then show ?thesis using Cons.prems r rs by (auto simp: buffer_ok_def)
    qed
  qed (auto simp: sb_codes)
  then show "quiet e e'" "bf_s b' = (if err = 0 then bf_s b @ concat ps else take n (bf_s b))" "buffer_ok b \<Longrightarrow> buffer_ok b'"
    "we_allocs e = [] \<Longrightarrow> err = 0" by simp_all
qed

lemma buffer_vwritef:
  assumes "format_pieces fmt args = (ps, True)"
  shows "\<exists>err b' e'. sb_buffer_vwritef fmt args (b, e) = Finished (err, b', e') \<and> quiet e e'
    \<and> bf_s b' = (if err = 0 then bf_s b @ concat ps else bf_s b) \<and> (buffer_ok b \<longrightarrow> buffer_ok b')
    \<and> (we_allocs e = [] \<longrightarrow> err = 0)"
proof -
  obtain err b' e' where r: "push_pieces ps (length (bf_s b)) (b, e) = (err, b', e')" by (metis prod_cases3)
  then show ?thesis using push_pieces [OF r] assms by (simp add: sb_buffer_vwritef_def)
qed

section \<open>Writing the response\<close>

definition stream_ok :: "sb_Stream \<Rightarrow> bool" where
  "stream_ok st \<longleftrightarrow> buffer_ok (st_recv_buf st) \<and> buffer_ok (st_send_buf st)"

text \<open>Of a stream, the calls that write the response change its buffer and its state.\<close>

definition tame :: "web \<Rightarrow> (int \<times> web) run \<Rightarrow> bool" where
  "tame w r \<longleftrightarrow>
    (\<exists>err b s e. r = Finished (err, (fst w)\<lparr>st_send_buf := b, st_state := s\<rparr>, e) \<and> quiet (snd w) e
      \<and> (buffer_ok (st_send_buf (fst w)) \<longrightarrow> buffer_ok b))"

definition puts :: "string \<Rightarrow> sb_state \<Rightarrow> web \<Rightarrow> (int \<times> web) run \<Rightarrow> bool" where
  "puts txt s w r \<longleftrightarrow>
    (\<exists>b. r = Finished (0, (fst w)\<lparr>st_send_buf := b, st_state := s\<rparr>, snd w) \<and> bf_s b = bf_s (st_send_buf (fst w)) @ txt)"

lemma tame_stays [tame_intros]: "tame (st, e) (Finished (err, st, e))"
  unfolding tame_def by (rule exI [of _ err], rule exI [of _ "st_send_buf st"], rule exI [of _ "st_state st"]) simp

lemma tame_bind: "tame w x \<Longrightarrow> (\<And>err w'. tame w' (f (err, w'))) \<Longrightarrow> tame w (bind_run x f)"
proof -
  assume "tame w x" and f: "\<And>err w'. tame w' (f (err, w'))"
  then obtain err b s e where x: "x = Finished (err, (fst w)\<lparr>st_send_buf := b, st_state := s\<rparr>, e)" "quiet (snd w) e"
    "buffer_ok (st_send_buf (fst w)) \<longrightarrow> buffer_ok b" unfolding tame_def by blast
  obtain err2 b2 s2 e2 where y: "f (err, (fst w)\<lparr>st_send_buf := b, st_state := s\<rparr>, e)
      = Finished (err2, (fst w)\<lparr>st_send_buf := b2, st_state := s2\<rparr>, e2)" "quiet e e2" "buffer_ok b \<longrightarrow> buffer_ok b2"
    using f [of "((fst w)\<lparr>st_send_buf := b, st_state := s\<rparr>, e)" err] unfolding tame_def by auto
  have "bind_run x f = Finished (err2, (fst w)\<lparr>st_send_buf := b2, st_state := s2\<rparr>, e2)" using x(1) y(1) by simp
  then show "tame w (bind_run x f)" unfolding tame_def using quiet_trans [OF x(2) y(2)] x(3) y(3) by blast
qed

lemma tame_also_do [tame_intros]: "tame w x \<Longrightarrow> (\<And>w'. tame w' (f w')) \<Longrightarrow> tame w (also_do x f)"
  unfolding also_do_def by (rule tame_bind) simp_all

lemma puts_bind:
  "puts t1 s1 w x \<Longrightarrow> (\<And>st. st_state st = s1 \<Longrightarrow> puts t2 s2 (st, snd w) (f (0, st, snd w))) \<Longrightarrow> puts (t1 @ t2) s2 w (bind_run x f)"
proof -
  assume "puts t1 s1 w x" and f: "\<And>st. st_state st = s1 \<Longrightarrow> puts t2 s2 (st, snd w) (f (0, st, snd w))"
  then obtain b where x: "x = Finished (0, (fst w)\<lparr>st_send_buf := b, st_state := s1\<rparr>, snd w)"
    "bf_s b = bf_s (st_send_buf (fst w)) @ t1" unfolding puts_def by blast
  then show "puts (t1 @ t2) s2 w (bind_run x f)"
    using f [of "(fst w)\<lparr>st_send_buf := b, st_state := s1\<rparr>"] unfolding puts_def by auto
qed

lemma puts_also_do [puts_intros]:
  "puts t1 s1 w x \<Longrightarrow> (\<And>st. st_state st = s1 \<Longrightarrow> puts t2 s2 (st, snd w) (f (st, snd w))) \<Longrightarrow> puts (t1 @ t2) s2 w (also_do x f)"
  unfolding also_do_def by (rule puts_bind) simp_all

lemma puts_stays: "st_state (fst w) = s \<Longrightarrow> puts [] s w (Finished (0, w))"
  unfolding puts_def by (rule exI [of _ "st_send_buf (fst w)"]) auto

definition status_line :: "int \<Rightarrow> string \<Rightarrow> string" where
  "status_line code msg = ''HTTP/1.1 '' @ show_int code @ '' '' @ c_str msg @ CRLF"

definition header_line :: "string \<Rightarrow> string \<Rightarrow> string" where
  "header_line field val = c_str field @ '': '' @ c_str val @ CRLF"

lemma digit_char: "m < 10 \<Longrightarrow> of_char (char_of (48 + m) :: char) = (48 + m :: nat)"
  by (simp only: of_char_of) simp

lemma c_str_digits: "c_str (show_int i) = show_int i"
proof -
  have "CHR 0x00 \<notin> set (digits n)" for n
  proof (induction n rule: digits.induct)
    case (1 n)
    have "CHR 0x00 \<noteq> char_of (48 + m)" if "m < 10" for m :: nat
    proof
      assume "CHR 0x00 = char_of (48 + m)"
      then have "of_char (CHR 0x00) = 48 + m" using digit_char [OF that] by simp
      then show False by simp
    qed
    then show ?case using 1 by (subst digits.simps) (simp del: digits.simps)
  qed
  then have "\<forall>c \<in> set (show_int i). c \<noteq> CHR 0x00" unfolding show_int_def
    by (simp del: digits.simps) metis
  then show ?thesis unfolding c_str_def takeWhile_eq_all_conv .
qed

lemma status_pieces:
  obtains ps where "format_pieces (''HTTP/1.1 %d %s'' @ CRLF) [Arg_int code, Arg_str (Some msg)] = (ps, True)"
    "concat ps = status_line code msg"
  by (simp add: CRLF_def split_directive_def directive_def is_alpha_def status_line_def)

lemma header_pieces:
  obtains ps where "format_pieces (''%s: %s'' @ CRLF) [Arg_str (Some field), Arg_str (Some val)] = (ps, True)"
    "concat ps = header_line field val"
  by (simp add: CRLF_def split_directive_def directive_def is_alpha_def header_line_def)

text \<open>A format without per cent signs prints itself.\<close>

lemma plain_pieces: "CHR ''%'' \<notin> set fmt \<Longrightarrow> \<exists>ps. format_pieces fmt args = (ps, True) \<and> concat ps = fmt"
  by (induction fmt) auto

lemma send_status_tame [tame_intros]: "tame w (sb_send_status code msg w)"
proof -
  obtain st e where w: "w = (st, e)" by force
  show ?thesis
  proof (cases "st_state st = STATE_SENDING_STATUS")
    case True
    obtain ps where ps: "format_pieces (''HTTP/1.1 %d %s'' @ CRLF) [Arg_int code, Arg_str (Some msg)] = (ps, True)"
      by (rule status_pieces)
    from buffer_vwritef [OF ps, of "st_send_buf st" e]
    obtain err b' e' where r: "sb_buffer_vwritef (''HTTP/1.1 %d %s'' @ CRLF) [Arg_int code, Arg_str (Some msg)] (st_send_buf st, e)
        = Finished (err, b', e')" "quiet e e'" "buffer_ok (st_send_buf st) \<longrightarrow> buffer_ok b'" by blast
    show ?thesis
    proof (cases "err = 0")
      case True
      then show ?thesis using r \<open>st_state st = _\<close> unfolding tame_def w sb_send_status_def by (simp add: Let_def) blast
    next
      case False
      then show ?thesis using r \<open>st_state st = _\<close> unfolding tame_def w sb_send_status_def
        by (intro exI [of _ err] exI [of _ b'] exI [of _ STATE_SENDING_STATUS] exI [of _ e']) (simp add: Let_def)
    qed
  qed (simp add: w sb_send_status_def tame_stays)
qed

lemma send_status_puts [puts_intros]:
  assumes "st_state st = STATE_SENDING_STATUS" "we_allocs e = []"
  shows "puts (status_line code msg) STATE_SENDING_HEADER (st, e) (sb_send_status code msg (st, e))"
proof -
  obtain ps where ps: "format_pieces (''HTTP/1.1 %d %s'' @ CRLF) [Arg_int code, Arg_str (Some msg)] = (ps, True)"
    "concat ps = status_line code msg" by (rule status_pieces)
  from buffer_vwritef [OF ps(1), of "st_send_buf st" e] assms(2)
  obtain b' where r: "sb_buffer_vwritef (''HTTP/1.1 %d %s'' @ CRLF) [Arg_int code, Arg_str (Some msg)] (st_send_buf st, e)
      = Finished (0, b', e)" "bf_s b' = bf_s (st_send_buf st) @ status_line code msg"
    using ps(2) quiet_no_failure by fastforce
  then show ?thesis using assms unfolding puts_def sb_send_status_def
    by (intro exI [of _ b']) (simp add: sb_codes)
qed

text \<open>Pushing a text, and printing a format, into the buffer of the response.\<close>

lemma on_send_buf_push:
  assumes "on_send_buf (sb_buffer_push_str p) (st, e) = (err, st', e')"
  shows "\<exists>b. st' = st\<lparr>st_send_buf := b\<rparr> \<and> quiet e e' \<and> (buffer_ok (st_send_buf st) \<longrightarrow> buffer_ok b)
    \<and> bf_s b = (if err = 0 then bf_s (st_send_buf st) @ p else bf_s (st_send_buf st)) \<and> (we_allocs e = [] \<longrightarrow> err = 0)"
proof -
  obtain b where r: "sb_buffer_push_str p (st_send_buf st, e) = (err, b, e')" "st' = st\<lparr>st_send_buf := b\<rparr>"
    using assms by (auto simp: on_send_buf_def split: prod.splits)
  then show ?thesis using buffer_push_str [OF r(1)] by blast
qed

lemma tame_result:
  "quiet e e' \<Longrightarrow> (buffer_ok (st_send_buf st) \<longrightarrow> buffer_ok b) \<Longrightarrow> tame (st, e) (Finished (err, st\<lparr>st_send_buf := b, st_state := s\<rparr>, e'))"
  unfolding tame_def by auto

lemma tame_buffer:
  "quiet e e' \<Longrightarrow> (buffer_ok (st_send_buf st) \<longrightarrow> buffer_ok b) \<Longrightarrow> tame (st, e) (Finished (err, st\<lparr>st_send_buf := b\<rparr>, e'))"
  using tame_result [of e e' st b err "st_state st"] by simp

lemma push_tame [tame_intros]: "tame w (Finished (on_send_buf (sb_buffer_push_str p) w))"
proof -
  obtain st e err st' e' where w: "w = (st, e)" "on_send_buf (sb_buffer_push_str p) w = (err, st', e')"
    by (metis prod_cases3 surj_pair)
  then show ?thesis using on_send_buf_push [of p st e err st' e'] tame_buffer by auto
qed

lemma push_puts [puts_intros]:
  assumes "we_allocs e = []" "st_state st = s"
  shows "puts p s (st, e) (Finished (on_send_buf (sb_buffer_push_str p) (st, e)))"
proof -
  obtain err st' e' where r: "on_send_buf (sb_buffer_push_str p) (st, e) = (err, st', e')" by (metis prod_cases3)
  then obtain b where "st' = st\<lparr>st_send_buf := b\<rparr>" "bf_s b = bf_s (st_send_buf st) @ p" "err = 0" "e' = e"
    using on_send_buf_push [OF r] assms(1) quiet_no_failure by fastforce
  then show ?thesis using r assms(2) unfolding puts_def by (intro exI [of _ b]) simp
qed

lemma vwritef_tame [tame_intros]:
  assumes "format_pieces fmt args = (ps, True)"
  shows "tame (st, e) (bind_run (sb_buffer_vwritef fmt args (st_send_buf st, e))
           (\<lambda>(err, b, e). Finished (if err \<noteq> 0 then err else SB_ESUCCESS, st\<lparr>st_send_buf := b\<rparr>, e)))"
    and "tame (st, e) (bind_run (sb_buffer_vwritef fmt args (st_send_buf st, e))
           (\<lambda>(err, b, e). Finished (err, st\<lparr>st_send_buf := b\<rparr>, e)))"
proof -
  obtain err b' e' where "sb_buffer_vwritef fmt args (st_send_buf st, e) = Finished (err, b', e')" "quiet e e'"
    "buffer_ok (st_send_buf st) \<longrightarrow> buffer_ok b'"
    using buffer_vwritef [OF assms] by blast
  then show "tame (st, e) (bind_run (sb_buffer_vwritef fmt args (st_send_buf st, e))
           (\<lambda>(err, b, e). Finished (if err \<noteq> 0 then err else SB_ESUCCESS, st\<lparr>st_send_buf := b\<rparr>, e)))"
    "tame (st, e) (bind_run (sb_buffer_vwritef fmt args (st_send_buf st, e))
           (\<lambda>(err, b, e). Finished (err, st\<lparr>st_send_buf := b\<rparr>, e)))"
    by (simp_all add: tame_buffer)
qed

lemma vwritef_puts [puts_intros]:
  assumes "format_pieces fmt args = (ps, True)" "we_allocs e = []" "st_state st = s"
  shows "puts (concat ps) s (st, e) (bind_run (sb_buffer_vwritef fmt args (st_send_buf st, e))
           (\<lambda>(err, b, e). Finished (if err \<noteq> 0 then err else SB_ESUCCESS, st\<lparr>st_send_buf := b\<rparr>, e)))"
    and "puts (concat ps) s (st, e) (bind_run (sb_buffer_vwritef fmt args (st_send_buf st, e))
           (\<lambda>(err, b, e). Finished (err, st\<lparr>st_send_buf := b\<rparr>, e)))"
proof -
  obtain b' where r: "sb_buffer_vwritef fmt args (st_send_buf st, e) = Finished (0, b', e)"
    "bf_s b' = bf_s (st_send_buf st) @ concat ps"
    using buffer_vwritef [OF assms(1), of "st_send_buf st" e] assms(2) quiet_no_failure by fastforce
  then show "puts (concat ps) s (st, e) (bind_run (sb_buffer_vwritef fmt args (st_send_buf st, e))
           (\<lambda>(err, b, e). Finished (if err \<noteq> 0 then err else SB_ESUCCESS, st\<lparr>st_send_buf := b\<rparr>, e)))"
    "puts (concat ps) s (st, e) (bind_run (sb_buffer_vwritef fmt args (st_send_buf st, e))
           (\<lambda>(err, b, e). Finished (err, st\<lparr>st_send_buf := b\<rparr>, e)))"
    using assms(3) unfolding puts_def by (auto simp: sb_codes intro!: exI [of _ b'])
qed

lemma finalize_tame [tame_intros]: "tame w (sb_stream_finalize_header w)"
proof -
  obtain st e where w: "w = (st, e)" by force
  have "tame (st, e) (case on_send_buf (sb_buffer_push_str CRLF) (st, e) of (err, st, e) \<Rightarrow>
          if err \<noteq> 0 then Finished (err, st, e) else Finished (SB_ESUCCESS, st\<lparr>st_state := STATE_SENDING_DATA\<rparr>, e))" for st e
  proof -
    obtain err st' e' where r: "on_send_buf (sb_buffer_push_str CRLF) (st, e) = (err, st', e')" by (metis prod_cases3)
    then show ?thesis using on_send_buf_push [OF r] tame_result tame_buffer by auto
  qed
  then show ?thesis unfolding w sb_stream_finalize_header_def
    by (auto intro!: tame_bind tame_intros)
qed

lemma finalize_puts [puts_intros]:
  assumes "st_state st = STATE_SENDING_HEADER" "we_allocs e = []"
  shows "puts CRLF STATE_SENDING_DATA (st, e) (sb_stream_finalize_header (st, e))"
proof -
  obtain err st' e' where r: "on_send_buf (sb_buffer_push_str CRLF) (st, e) = (err, st', e')" by (metis prod_cases3)
  then obtain b where "st' = st\<lparr>st_send_buf := b\<rparr>" "bf_s b = bf_s (st_send_buf st) @ CRLF" "err = 0" "e' = e"
    using on_send_buf_push [OF r] assms(2) quiet_no_failure by fastforce
  then show ?thesis using r assms unfolding puts_def sb_stream_finalize_header_def
    by (intro exI [of _ b]) (simp add: sb_codes)
qed

lemma send_header_tame [tame_intros]: "tame w (sb_send_header field val w)"
proof -
  obtain st e where w: "w = (st, e)" by force
  obtain ps where ps: "format_pieces (''%s: %s'' @ CRLF) [Arg_str (Some field), Arg_str (Some val)] = (ps, True)"
    by (rule header_pieces)
  show ?thesis unfolding w sb_send_header_def
    by (auto intro!: tame_bind tame_intros ps simp del: append.simps)
qed

lemma send_header_puts [puts_intros]:
  assumes "st_state st = STATE_SENDING_HEADER" "we_allocs e = []"
  shows "puts (header_line field val) STATE_SENDING_HEADER (st, e) (sb_send_header field val (st, e))"
proof -
  obtain ps where ps: "format_pieces (''%s: %s'' @ CRLF) [Arg_str (Some field), Arg_str (Some val)] = (ps, True)"
    "concat ps = header_line field val" by (rule header_pieces)
  show ?thesis using vwritef_puts(1) [OF ps(1) assms(2,1)] assms ps(2) unfolding sb_send_header_def
    by (simp add: sb_codes del: append.simps)
qed

lemma ready_tame [tame_intros]: "tame w (ready_for_data w)"
proof -
  obtain st e where w: "w = (st, e)" by force
  show ?thesis unfolding w ready_for_data_def by (auto intro!: tame_bind tame_intros)
qed

lemma ready_puts [puts_intros]:
  assumes "st_state st = STATE_SENDING_HEADER" "we_allocs e = []"
  shows "puts CRLF STATE_SENDING_DATA (st, e) (ready_for_data (st, e))"
proof -
  have "STATE_SENDING_HEADER < STATE_SENDING_DATA" by (simp add: sb_state_order)
  then show ?thesis using finalize_puts [OF assms] assms
    unfolding ready_for_data_def puts_def by (auto simp: sb_codes)
qed

lemma write_tame [tame_intros]: "tame w (sb_write data w)"
  unfolding sb_write_def
proof (rule tame_bind [OF ready_tame])
  show "tame w' (case (err, w') of (err, w) \<Rightarrow>
      if err \<noteq> 0 then Finished (err, w) else Finished (on_send_buf (sb_buffer_push_str data) w))" for err w'
    by (cases w') (auto intro: tame_intros)
qed

lemma writef_tame [tame_intros]:
  assumes "format_pieces fmt args = (ps, True)"
  shows "tame w (sb_writef fmt args w)"
  unfolding sb_writef_def sb_vwritef_def
proof (rule tame_bind [OF ready_tame])
  show "tame w' (case (err, w') of (err, st, e) \<Rightarrow>
      if err \<noteq> 0 then Finished (err, st, e)
      else bind_run (sb_buffer_vwritef fmt args (st_send_buf st, e)) (\<lambda>(err, b, e). Finished (err, st\<lparr>st_send_buf := b\<rparr>, e)))" for err w'
    by (cases w') (auto intro: tame_intros assms)
qed

lemma write_puts [puts_intros]:
  assumes "st_state st = STATE_SENDING_HEADER" "we_allocs e = []"
  shows "puts (CRLF @ data) STATE_SENDING_DATA (st, e) (sb_write data (st, e))"
  unfolding sb_write_def using assms by (intro puts_bind [OF ready_puts]) (auto intro: push_puts)

lemma writef_puts [puts_intros]:
  assumes "st_state st = STATE_SENDING_HEADER" "we_allocs e = []" "format_pieces fmt args = (ps, True)"
  shows "puts (CRLF @ concat ps) STATE_SENDING_DATA (st, e) (sb_writef fmt args (st, e))"
  unfolding sb_writef_def sb_vwritef_def using assms by (intro puts_bind [OF ready_puts]) (auto intro: vwritef_puts)

section \<open>The contract of a handler\<close>

text \<open>
  A handler gets one stream and the surroundings. It keeps the buffers within their memory, the socket,
  and a condition \<open>P\<close> on the surroundings that what the server itself does with them keeps.
\<close>

definition web_ok :: "(web_env \<Rightarrow> bool) \<Rightarrow> nat \<Rightarrow> web \<Rightarrow> bool" where
  "web_ok P fd w \<longleftrightarrow> stream_ok (fst w) \<and> st_sockfd (fst w) = fd \<and> P (snd w)"

lemma web_ok_simp [simp]: "web_ok P fd (st, e) \<longleftrightarrow> stream_ok st \<and> st_sockfd st = fd \<and> P e"
  by (simp add: web_ok_def)

text \<open>All streams of a server: their buffers, and sockets that fit into the sets of \<^verbatim>\<open>select\<close>.\<close>

definition streams_ok :: "sb_Stream list \<Rightarrow> bool" where
  "streams_ok sts \<longleftrightarrow> (\<forall>st \<in> set sts. stream_ok st \<and> st_sockfd st < FD_SETSIZE)"

locale web_handler =
  fixes handler :: sb_Handler and P :: "web_env \<Rightarrow> bool"
  assumes handler_ok: "web_ok P fd w \<Longrightarrow> run_ok (\<lambda>(_, w). web_ok P fd w) (handler evt w)"
    and allocs: "P e \<Longrightarrow> P (e\<lparr>we_allocs := bs\<rparr>)"
    and now: "P e \<Longrightarrow> P (e\<lparr>we_now := t\<rparr>)"
    and recv: "P e \<Longrightarrow> P (e\<lparr>we_recv := rs\<rparr>)"
    and send: "P e \<Longrightarrow> P (e\<lparr>we_send := ss\<rparr>)"
    and sent: "P e \<Longrightarrow> P (e\<lparr>we_sent := ts\<rparr>)"
    and closed: "P e \<Longrightarrow> P (e\<lparr>we_closed := fds\<rparr>)"
begin

lemma quiet_keeps: "quiet e e' \<Longrightarrow> P e \<Longrightarrow> P e'"
  using allocs by (auto simp: quiet_def)

lemma emit_ok: "web_ok P fd w \<Longrightarrow> run_ok (\<lambda>(_, w). web_ok P fd w) (sb_stream_emit handler type method path w)"
proof -
  obtain st e where w: "w = (st, e)" by force
  assume "web_ok P fd w"
  then show ?thesis unfolding w sb_stream_emit_def prod.case
    by (intro run_ok_bind [OF handler_ok [of fd]]) (auto simp: sb_stream_close_def stream_ok_def)
qed

lemma destroy_ok: "web_ok P fd w \<Longrightarrow> run_ok P (sb_stream_destroy handler w)"
  unfolding sb_stream_destroy_def by (rule run_ok_bind [OF emit_ok]) (auto intro: closed)

lemma recv_null_ok:
  "web_ok P fd w \<Longrightarrow> on_recv_buf sb_buffer_null_terminate w = (err, w') \<Longrightarrow> web_ok P fd w'"
proof -
  assume w: "web_ok P fd w" and r: "on_recv_buf sb_buffer_null_terminate w = (err, w')"
  obtain st e where st: "w = (st, e)" by force
  obtain b e' where b: "sb_buffer_null_terminate (st_recv_buf st, e) = (err, b, e')" "w' = (st\<lparr>st_recv_buf := b\<rparr>, e')"
    using r st by (auto simp: on_recv_buf_def split: prod.splits)
  then show ?thesis using buffer_null_terminate [OF b(1)] w st quiet_keeps by (simp add: stream_ok_def)
qed

lemma recv_push_ok:
  "web_ok P fd w \<Longrightarrow> on_recv_buf (sb_buffer_push_char c) w = (err, w') \<Longrightarrow> web_ok P fd w'"
proof -
  assume w: "web_ok P fd w" and r: "on_recv_buf (sb_buffer_push_char c) w = (err, w')"
  obtain st e where st: "w = (st, e)" by force
  obtain b e' where b: "sb_buffer_push_char c (st_recv_buf st, e) = (err, b, e')" "w' = (st\<lparr>st_recv_buf := b\<rparr>, e')"
    using r st by (auto simp: on_recv_buf_def split: prod.splits)
  then show ?thesis using buffer_push_char [OF b(1)] w st quiet_keeps by (simp add: stream_ok_def)
qed

lemma handle_request_ok: "web_ok P fd w \<Longrightarrow> run_ok (\<lambda>(_, w). web_ok P fd w) (handle_request handler w)"
proof -
  obtain st e where w: "w = (st, e)" by force
  assume ok: "web_ok P fd w"
  obtain err st' e' where r: "on_recv_buf sb_buffer_null_terminate (st\<lparr>st_state := STATE_SENDING_STATUS\<rparr>, e) = (err, st', e')"
    by (metis prod_cases3)
  then have ok': "web_ok P fd (st', e')" using recv_null_ok [OF _ r, of fd] ok by (simp add: w stream_ok_def)
  have "run_ok (\<lambda>_. True) (url_decode target 512)" for target by (simp add: url_decode_def split: prod.split)
  then show ?thesis using ok' unfolding w handle_request_def
    by (auto simp: r sb_stream_close_def stream_ok_def split: option.split intro!: run_ok_bind emit_ok)
qed

lemma request_done_ok:
  "web_ok P fd w \<Longrightarrow> run_ok (\<lambda>(_, w). web_ok P fd w) (bind_run (handle_request handler w) (\<lambda>(err, w). Finished (Some err, w)))"
  by (rule run_ok_bind [OF handle_request_ok]) auto

lemma expected_ok: "web_ok P fd w \<Longrightarrow> run_ok (\<lambda>(_, w). web_ok P fd w) (expected_there handler w)"
proof -
  obtain st e where w: "w = (st, e)" by force
  assume "web_ok P fd w"
  then show ?thesis using request_done_ok [of fd w] unfolding w expected_there_def by simp
qed

lemma character_ok: "web_ok P fd w \<Longrightarrow> run_ok (\<lambda>(_, w). web_ok P fd w) (character_received handler w)"
proof -
  obtain st e where w: "w = (st, e)" by force
  assume ok: "web_ok P fd w"
  obtain err st' e' where r: "on_recv_buf sb_buffer_null_terminate (st\<lparr>st_state := STATE_RECEIVING_REQUEST\<rparr>, e) = (err, st', e')"
    by (metis prod_cases3)
  then have ok': "web_ok P fd (st', e')" using recv_null_ok [OF _ r, of fd] ok by (simp add: w stream_ok_def)
  note request_done_ok [OF ok']
  moreover have "run_ok (\<lambda>(_, w). web_ok P fd w) (expected_there handler (st'\<lparr>st_expected_recv_len := n, st_data_idx := m\<rparr>, e'))" for n m
    using ok' by (intro expected_ok) (simp add: stream_ok_def)
  ultimately show ?thesis using ok' expected_ok [OF ok] unfolding w character_received_def
    by (auto simp: r Let_def split: option.split intro!: run_ok_bind [OF run_ok_loop, of _ "\<lambda>_. True"])
qed

lemma recv_chars_ok: "web_ok P fd w \<Longrightarrow> run_ok (\<lambda>(_, w). web_ok P fd w) (recv_chars handler cs w)"
proof (induction cs arbitrary: w)
  case (Cons c cs)
  obtain err w' where r: "on_recv_buf (sb_buffer_push_char c) w = (err, w')" by (metis surj_pair)
  then have ok: "web_ok P fd w'" using recv_push_ok Cons.prems by blast
  have "run_ok (\<lambda>(_, w). web_ok P fd w) (bind_run (character_received handler w') (\<lambda>(r, w).
         case r of Some err \<Rightarrow> Finished (Some err, w) | None \<Rightarrow> recv_chars handler cs w))"
    by (rule run_ok_bind [OF character_ok [OF ok]]) (auto simp del: web_ok_simp split: option.split intro: Cons.IH)
  then show ?case using ok by (simp add: r del: web_ok_simp)
qed simp

lemma recv_chunks_ok: "web_ok P fd w \<Longrightarrow> run_ok (\<lambda>(_, _, w). web_ok P fd w) (recv_chunks handler rs w)"
proof (induction rs arbitrary: w)
  case Nil
  then show ?case by (cases w) simp
next
  case (Cons r rs)
  obtain st e where w: "w = (st, e)" by force
  have "run_ok (\<lambda>(_, _, w). web_ok P fd w) (bind_run (recv_chars handler s (st\<lparr>st_last_activity := we_now e\<rparr>, e)) (\<lambda>(r, w).
           case r of Some err \<Rightarrow> Finished (err, rs, w) | None \<Rightarrow> recv_chunks handler rs w))" for s
    by (rule run_ok_bind [OF recv_chars_ok [of fd]]) (use Cons in \<open>auto simp: w stream_ok_def split: option.split\<close>)
  then show ?case using Cons.prems by (auto simp: w sb_stream_close_def stream_ok_def split: received_chunk.split)
qed

lemma stream_recv_ok: "web_ok P fd w \<Longrightarrow> run_ok (\<lambda>(_, w). web_ok P fd w) (sb_stream_recv handler w)"
proof -
  obtain st e where w: "w = (st, e)" by force
  assume "web_ok P fd w"
  then show ?thesis unfolding w sb_stream_recv_def prod.case
    by (intro run_ok_bind [OF recv_chunks_ok [of fd]]) (auto simp: recv)
qed

lemma send_data_ok: "web_ok P fd w \<Longrightarrow> web_ok P fd (send_data w)"
proof -
  obtain st e where w: "w = (st, e)" by force
  assume ok: "web_ok P fd w"
  obtain r e' where r: "next_send (st_sockfd st) e = (r, e')" by force
  then have "P e'" using ok send by (auto simp: w next_send_def split: list.splits)
  then show ?thesis using ok sent
    by (auto simp: w r send_data_def Let_def sb_stream_close_def sb_buffer_shift_def stream_ok_def buffer_ok_def split: sent_chunk.split)
qed

lemma stream_send_ok: "web_ok P fd w \<Longrightarrow> sb_stream_send w = (err, w') \<Longrightarrow> web_ok P fd w'"
proof -
  obtain st e where w: "w = (st, e)" by force
  assume ok: "web_ok P fd w" and s: "sb_stream_send w = (err, w')"
  show ?thesis
  proof (cases "bf_s (st_send_buf st) = [] \<and> st_send_fp st \<noteq> None")
    case False
    then show ?thesis using ok s send_data_ok [OF ok]
      by (auto simp: w sb_stream_send_def sb_stream_close_def stream_ok_def split: if_splits)
  next
    case True
    then obtain content where f: "st_send_fp st = Some content" by blast
    obtain b e' err1 where r: "sb_buffer_reserve 8192 (st_send_buf st, e) = (err1, b, e')" by (metis prod_cases3)
    note rs = buffer_reserve [OF r]
    define st1 where "st1 = st\<lparr>st_send_buf := b\<lparr>bf_s := take (bf_cap b) content\<rparr>, st_send_fp := Some (drop (bf_cap b) content)\<rparr>"
    have "web_ok P fd (st1, e')" "web_ok P fd (st\<lparr>st_send_buf := b\<rparr>, e')"
      using ok rs quiet_keeps by (auto simp: w st1_def stream_ok_def buffer_ok_def)
    then show ?thesis using s True f send_data_ok [of fd "(st1, e')"]
      by (auto simp: w sb_stream_send_def on_send_buf_def r Let_def st1_def stream_ok_def split: if_splits)
  qed
qed

lemma serve_stream_ok: "web_ok P fd w \<Longrightarrow> run_ok (\<lambda>(_, w). web_ok P fd w) (serve_stream handler sel srv w)"
proof -
  obtain st e where w: "w = (st, e)" by force
  assume ok: "web_ok P fd w"
  have recv: "run_ok (\<lambda>(_, w). web_ok P fd w) (if stream_reads sel st then sb_stream_recv handler (st, e) else Finished (SB_ESUCCESS, st, e))"
    using ok stream_recv_ok [of fd "(st, e)"] by (simp add: w)
  show ?thesis unfolding w serve_stream_def prod.case
  proof (rule run_ok_bind3 [OF recv], goal_cases)
    case (1 err st' e')
    obtain err2 st2 e2 where s: "sb_stream_send (st', e') = (err2, st2, e2)" by (metis prod_cases3)
    show ?case using 1 stream_send_ok [OF _ s, of fd] by (auto simp: s sb_stream_close_def stream_ok_def)
  qed
qed

lemma serve_streams_ok:
  "streams_ok sts \<Longrightarrow> P e \<Longrightarrow> run_ok (\<lambda>(_, sts, e). streams_ok sts \<and> P e) (serve_streams handler sel srv sts e)"
proof (induction sts arbitrary: e)
  case Nil
  then show ?case by (simp add: streams_ok_def)
next
  case (Cons st sts)
  then have ok: "web_ok P (st_sockfd st) (st, e)" and rest: "streams_ok sts" "st_sockfd st < FD_SETSIZE"
    by (simp_all add: streams_ok_def)
  show ?case unfolding serve_streams.simps
  proof (rule run_ok_bind3 [OF serve_stream_ok [OF ok]], goal_cases)
    case (1 err st1 e1)
    then have st1: "web_ok P (st_sockfd st) (st1, e1)" by simp
    have gone: "run_ok (\<lambda>(_, sts, e). streams_ok sts \<and> P e)
        (bind_run (sb_stream_destroy handler (st1, e1)) (serve_streams handler sel srv sts))"
      by (rule run_ok_bind [OF destroy_ok [OF st1] Cons.IH [OF rest(1)]])
    have stays: "run_ok (\<lambda>(_, sts, e). streams_ok sts \<and> P e)
        (bind_run (serve_streams handler sel srv sts e1) (\<lambda>(err, sts, e). Finished (err, st1 # sts, e)))"
      by (rule run_ok_bind3 [OF Cons.IH [OF rest(1)]]) (use st1 rest in \<open>auto simp: streams_ok_def\<close>)
    show ?case using gone stays st1 rest by (auto simp: streams_ok_def)
  qed
qed

lemma accept_streams_ok:
  "streams_ok sts \<Longrightarrow> P e \<Longrightarrow> \<forall>(fd, _) \<in> set accepts. fd < FD_SETSIZE \<Longrightarrow>
   run_ok (\<lambda>(_, sts, e). streams_ok sts \<and> P e) (accept_streams handler accepts sts e)"
proof (induction accepts arbitrary: sts e)
  case (Cons a accepts)
  obtain fd peername where a: "a = (fd, peername)" by force
  obtain ost e1 where n: "sb_stream_new fd peername e = (ost, e1)" by force
  then have e1: "P e1" using Cons.prems(2) quiet_keeps [OF quiet_alloc]
    by (auto simp: sb_stream_new_def split: prod.splits bool.splits)
  show ?case
  proof (cases ost)
    case None
    then show ?thesis using Cons.prems a n e1 closed by (auto simp: streams_ok_def)
  next
    case (Some st)
    then have st: "web_ok P fd (st, e1)" using n e1
      by (auto simp: sb_stream_new_def stream_ok_def buffer_ok_def sb_buffer_init_def split: prod.splits bool.splits)
    have "run_ok (\<lambda>(_, sts, e). streams_ok sts \<and> P e)
        (bind_run (sb_stream_emit handler SB_EV_CONNECT [] [] (st, e1)) (\<lambda>(err, st, e).
           if err \<noteq> 0 then Finished (err, st # sts, e) else accept_streams handler accepts (st # sts) e))"
      by (rule run_ok_bind3 [OF emit_ok [OF st]]) (use Cons a in \<open>auto simp: streams_ok_def\<close>)
    then show ?thesis using Cons.prems(3) by (simp add: a n Some)
  qed
qed simp

lemma poll_ok:
  assumes "streams_ok (ws_streams srv)" "ws_sockfd srv < FD_SETSIZE" "P e" "\<forall>(fd, _) \<in> set (sl_accepts sel). fd < FD_SETSIZE"
  shows "run_ok (\<lambda>(_, srv, e). streams_ok (ws_streams srv) \<and> ws_sockfd srv < FD_SETSIZE \<and> P e) (sb_poll_server handler sel srv e)"
proof -
  have fits: "\<not> (ws_sockfd srv \<ge> FD_SETSIZE \<or> (\<exists>st \<in> set (ws_streams srv). st_sockfd st \<ge> FD_SETSIZE))"
    using assms(1,2) by (auto simp: streams_ok_def)
  have accepts: "run_ok (\<lambda>(_, srv, e). streams_ok (ws_streams srv) \<and> ws_sockfd srv < FD_SETSIZE \<and> P e)
      (bind_run (accept_streams handler (sl_accepts sel) sts e) (\<lambda>(err, sts, e). Finished (err, srv\<lparr>ws_streams := sts\<rparr>, e)))"
    if "streams_ok sts" "P e" for sts e
    by (rule run_ok_bind3 [OF accept_streams_ok [OF that assms(4)]]) (use assms(2) in auto)
  show ?thesis unfolding sb_poll_server_def if_not_P [OF fits]
    by (rule run_ok_bind3 [OF serve_streams_ok [OF assms(1) now [OF assms(3)]]]) (use accepts assms(2) in auto)
qed

lemma rounds_ok:
  assumes "streams_ok (ws_streams srv)" "ws_sockfd srv < FD_SETSIZE" "P e"
    and "\<forall>sel \<in> set sels. \<forall>(fd, _) \<in> set (sl_accepts sel). fd < FD_SETSIZE"
  shows "run_ok (\<lambda>(srv, e). streams_ok (ws_streams srv) \<and> ws_sockfd srv < FD_SETSIZE \<and> P e) (http_rounds handler sels srv e)"
  using assms
proof (induction sels arbitrary: srv e)
  case (Cons sel sels)
  show ?case unfolding http_rounds.simps
    by (rule run_ok_bind3 [OF poll_ok [OF Cons.prems(1-3), of sel]]) (use Cons in auto)
qed simp

end

section \<open>The handler of \<^verbatim>\<open>http.cpp\<close>\<close>

text \<open>The texts that end up in the format of the list of servers have no per cent sign.\<close>

definition plain_texts :: "string \<Rightarrow> string \<Rightarrow> web_env \<Rightarrow> bool" where
  "plain_texts ip port e \<longleftrightarrow>
    CHR ''%'' \<notin> set ip \<and> CHR ''%'' \<notin> set port \<and>
    (\<forall>body. Some body \<in> set (we_answers e) \<longrightarrow> CHR ''%'' \<notin> set (rtvar_get ''meta'' (rtvar_parse body)))"

lemma tame_ok: "tame w r \<Longrightarrow> web_ok (plain_texts ip port) fd w \<Longrightarrow> run_ok (\<lambda>(_, w). web_ok (plain_texts ip port) fd w) r"
  by (cases w) (auto simp: tame_def stream_ok_def quiet_def plain_texts_def)

lemma server_data_plain:
  "CHR ''%'' \<notin> set ip \<Longrightarrow> CHR ''%'' \<notin> set port \<Longrightarrow> CHR ''%'' \<notin> set meta \<Longrightarrow> CHR ''%'' \<notin> set (server_data ip port meta)"
  unfolding server_data_def c_str_def by (auto dest!: in_set_takeD set_takeWhileD)

lemma serve_unknown_tame [tame_intros]: "tame w (serve_unknown w)"
proof -
  obtain ps where ps: "format_pieces ''unknown'' [] = (ps, True)" by simp
  show ?thesis unfolding serve_unknown_def by (intro tame_also_do send_status_tame send_header_tame writef_tame [OF ps])
qed

lemma serve_file_tame [tame_intros]: "tame w (serve_file path w)"
proof -
  obtain ps where ps: "format_pieces ''file not found'' [] = (ps, True)" by simp
  have quiet_tame: "tame (st, e') r \<Longrightarrow> quiet e e' \<Longrightarrow> tame (st, e) r" for st e e' r
    unfolding tame_def using quiet_trans by fastforce
  have "tame w (case read_file (drop 1 path) e of
      (Some (content, fsize), e) \<Rightarrow>
        also_do (sb_send_header ''Content-Type'' ''application/x-www-form-urlencoded'' (st, e)) (\<lambda>w.
        also_do (sb_send_header ''Content-Length'' (show_int (sint fsize)) w) (\<lambda>w.
        also_do (sb_send_header ''beserver'' ''06'' w) (\<lambda>w.
        also_do (sb_send_header ''Connection'' ''keep-alive'' w) (\<lambda>w.
        also_do (sb_send_header ''Accept-Ranges'' ''bytes'' w) (\<lambda>w.
        sb_write content w)))))
    | (None, e) \<Rightarrow>
        also_do (sb_send_header ''Content-Type'' ''text/plain'' (st, e)) (\<lambda>w.
        sb_writef ''file not found'' [] w))" if w: "w = (st, e)" for w st e
  proof -
    obtain r e' where r: "read_file (drop 1 path) e = (r, e')" by force
    have "quiet e e'" using r quiet_alloc by (auto simp: read_file_def Let_def split: option.splits prod.splits bool.splits)
    then show ?thesis unfolding w r
      by (cases r) (auto intro!: quiet_tame [of st e'] tame_also_do send_header_tame write_tame writef_tame [OF ps] split: prod.split)
  qed
  note body = this
  show ?thesis unfolding serve_file_def
  proof (rule tame_also_do [OF send_status_tame])
    fix w' :: web
    obtain st e where w': "w' = (st, e)" by force
    show "tame w' (case w' of (st, e) \<Rightarrow> case read_file (drop 1 path) e of
      (Some (content, fsize), e) \<Rightarrow>
        also_do (sb_send_header ''Content-Type'' ''application/x-www-form-urlencoded'' (st, e)) (\<lambda>w.
        also_do (sb_send_header ''Content-Length'' (show_int (sint fsize)) w) (\<lambda>w.
        also_do (sb_send_header ''beserver'' ''06'' w) (\<lambda>w.
        also_do (sb_send_header ''Connection'' ''keep-alive'' w) (\<lambda>w.
        also_do (sb_send_header ''Accept-Ranges'' ''bytes'' w) (\<lambda>w.
        sb_write content w)))))
    | (None, e) \<Rightarrow>
        also_do (sb_send_header ''Content-Type'' ''text/plain'' (st, e)) (\<lambda>w.
        sb_writef ''file not found'' [] w))"
      unfolding w' prod.case by (rule body) simp
  qed
qed

lemma getMeta_ok:
  assumes "plain_texts ip port e"
  shows "run_ok (\<lambda>(meta, e). CHR ''%'' \<notin> set meta \<and> plain_texts ip port e) (getMeta e)"
proof (cases "we_answers e")
  case (Cons a as)
  have "CHR ''%'' \<notin> set (rtvar_get ''meta'' (rtvar_parse body))" if "a = Some body" for body
    using assms that by (simp add: plain_texts_def Cons)
  then show ?thesis using assms
    by (cases a) (auto simp: getMeta_def next_answer_def write_hosts_def Cons Let_def plain_texts_def)
qed (simp add: getMeta_def next_answer_def write_hosts_def)

lemma serve_data_ok:
  assumes "web_ok (plain_texts ip port) fd w"
  shows "run_ok (\<lambda>(_, w). web_ok (plain_texts ip port) fd w) (serve_data ip port w)"
proof -
  have data: "run_ok (\<lambda>(_, w). web_ok (plain_texts ip port) fd w) (sb_writef (server_data ip port meta) [] (st, e))"
    if "CHR ''%'' \<notin> set meta" "web_ok (plain_texts ip port) fd (st, e)" for meta st e
  proof -
    have "CHR ''%'' \<notin> set (server_data ip port meta)" using that server_data_plain by (simp add: plain_texts_def)
    then obtain ps where "format_pieces (server_data ip port meta) [] = (ps, True)" using plain_pieces by blast
    then show ?thesis by (rule tame_ok [OF writef_tame that(2)])
  qed
  have meta: "run_ok (\<lambda>(_, w). web_ok (plain_texts ip port) fd w)
      (bind_run (getMeta e) (\<lambda>(meta, e). sb_writef (server_data ip port meta) [] (st, e)))"
    if "web_ok (plain_texts ip port) fd (st, e)" for st e
    by (rule run_ok_bind [OF getMeta_ok]) (use that data in auto)
  show ?thesis unfolding serve_data_def also_do_def
    by (rule run_ok_bind3 [OF tame_ok [OF send_status_tame assms]], unfold prod.case,
        rule run_ok_bind3 [OF tame_ok [OF send_header_tame]]) (auto simp del: web_ok_simp intro: meta)
qed

lemma http_handler_ok:
  assumes "web_ok (plain_texts ip port) fd w"
  shows "run_ok (\<lambda>(_, w). web_ok (plain_texts ip port) fd w) (http_handler ip port evt w)"
proof -
  have "run_ok (\<lambda>(_, w). web_ok (plain_texts ip port) fd w)
      (if contains (se_path evt) ''/growtopia/server_data.php'' then serve_data ip port w
       else if file_path (se_path evt) \<and> contains (se_method evt) ''GET'' then serve_file (se_path evt) w
       else serve_unknown w)"
    using serve_data_ok [OF assms] tame_ok [OF serve_file_tame assms] tame_ok [OF serve_unknown_tame assms] by simp
  then show ?thesis using assms unfolding http_handler_def also_do_def by (auto intro: run_ok_bind)
qed

interpretation http: web_handler "http_handler ip port" "plain_texts ip port" for ip port
  by unfold_locales (simp_all add: http_handler_ok plain_texts_def)


text \<open>Surroundings in which nothing has happened yet, a new stream, and a server with the limits of \<^verbatim>\<open>http.cpp\<close>.\<close>

definition quiet_env :: web_env where
  "quiet_env = \<lparr>we_allocs = [], we_now = 0, we_recv = (\<lambda>fd. []), we_send = (\<lambda>fd. []), we_sent = (\<lambda>fd. []),
     we_closed = [], we_files = (\<lambda>file. None), we_answers = [], we_hosts_writable = True, we_hosts = []\<rparr>"

definition new_stream :: "nat \<Rightarrow> sb_Stream" where
  "new_stream fd = \<lparr>st_state = STATE_RECEIVING_HEADER, st_address = [], st_init_time = 0, st_last_activity = 0,
     st_expected_recv_len = 0, st_data_idx = 0, st_sockfd = fd, st_recv_buf = sb_buffer_init,
     st_send_buf = sb_buffer_init, st_send_fp = None\<rparr>"

definition web_server :: "sb_Stream list \<Rightarrow> sb_Server" where
  "web_server sts = \<lparr>ws_streams = sts, ws_sockfd = 3, ws_timeout = 30000, ws_max_lifetime = 0, ws_max_request_size = 0\<rparr>"

lemma new_stream_ok [simp]: "stream_ok (new_stream fd)"
  by (simp add: new_stream_def stream_ok_def buffer_ok_def sb_buffer_init_def)


end
