(* ===== verification/Web_Query.thy ===== *)
theory Web_Query
  imports Web_Stream
begin

text \<open>
  What a handler may ask of a request, from \<^verbatim>\<open>sandbird.c\<close>: headers, variables, cookies and parts of a
  form. The memory at \<open>dst\<close> has room for \<open>len\<close> characters; with no room at all the sizes wrap around.
\<close>

section \<open>Headers\<close>

text \<open>Blanks at the end are dropped, but for the first character.\<close>

function trim_value :: "string \<Rightarrow> string" where
  "trim_value s =
    (if length s > 1 \<and> last s \<in> set [CHR '' '', CHR 0x09] then trim_value (butlast s) else s)"
  by pat_completeness auto

termination
  by (relation "measure length") auto

declare trim_value.simps [simp del]

definition sb_get_header :: "sb_Stream \<Rightarrow> string \<Rightarrow> nat \<Rightarrow> (int \<times> string) run" where
  "sb_get_header st field len =
    bind_run (loop_run (find_header_value (recv_text st) field)) (\<lambda>s.
      case s of
        None \<Rightarrow> Finished (SB_ENOTFOUND, [])
      | Some s \<Rightarrow>
          if CHR 0x0D \<notin> set s \<or> len = 0 then Illegal
          else
            let v = trim_value (takeWhile (\<lambda>c. c \<noteq> CHR 0x0D) s)
            in Finished (if length v > len - 1 then - 3 else SB_ESUCCESS, take (len - 1) v))"

section \<open>Variables\<close>

definition sb_get_var :: "sb_Stream \<Rightarrow> string \<Rightarrow> nat \<Rightarrow> (int \<times> string) run" where
  "sb_get_var st name len =
    (let s = (case after_cspn [CHR ''?'', CHR 0x0D] (recv_text st) of
                c # q \<Rightarrow> if c = CHR ''?'' then find_var_value q name else None
              | [] \<Rightarrow> None);
         s = (if s = None \<and> st_data_idx st \<noteq> 0
              then find_var_value (c_str (drop (st_data_idx st) (bf_s (st_recv_buf st)))) name else s)
     in case s of None \<Rightarrow> Finished (SB_ENOTFOUND, []) | Some s \<Rightarrow> url_decode s len)"

section \<open>Cookies\<close>

text \<open>\<^verbatim>\<open>strchr(" =", c)\<close> also finds the zero at the end of the text.\<close>

definition cookie_here :: "string \<Rightarrow> string \<Rightarrow> bool" where
  "cookie_here s name \<longleftrightarrow>
    mem_case_equal s name (length name) \<and>
    (case drop (length name) s of [] \<Rightarrow> True | c # _ \<Rightarrow> c \<in> set [CHR '' '', CHR ''=''])"

function cookie_value :: "string \<Rightarrow> string \<Rightarrow> string option" where
  "cookie_value s name =
    (if s = [] then None
     else
       let s = after_spn [CHR '' '', CHR 0x09] s
       in if cookie_here s name
          then Some (takeWhile (\<lambda>c. c \<notin> set [CHR '';'', CHR 0x0D])
                      (after_spn [CHR ''='', CHR '' '', CHR 0x09, CHR 0x0D] (drop (length name) s)))
          else case after_cspn [CHR '';'', CHR 0x0D] s of
                 [] \<Rightarrow> None
               | c # rest \<Rightarrow> if c \<noteq> CHR '';'' then None else cookie_value rest name)"
  by pat_completeness auto

lemma length_after_spn: "length (after_spn cs str) \<le> length str"
  by (simp add: after_spn_def length_dropWhile_le)

termination cookie_value
proof (relation "measure (\<lambda>(s, name). length s)")
  fix s name t c rest
  assume "t = after_spn [CHR '' '', CHR 0x09] s" "after_cspn [CHR '';'', CHR 0x0D] t = c # rest"
  then show "((rest, name), (s, name)) \<in> measure (\<lambda>(s, name). length s)"
    using length_after_cspn [of "[CHR '';'', CHR 0x0D]" t] length_after_spn [of "[CHR '' '', CHR 0x09]" s] by simp
qed simp

declare cookie_value.simps [simp del]

definition sb_get_cookie :: "sb_Stream \<Rightarrow> string \<Rightarrow> nat \<Rightarrow> (int \<times> string) run" where
  "sb_get_cookie st name len =
    bind_run (loop_run (find_header_value (recv_text st) ''Cookie'')) (\<lambda>s.
      case s of
        None \<Rightarrow> Finished (SB_ENOTFOUND, [])
      | Some s \<Rightarrow>
          (case cookie_value s name of
             None \<Rightarrow> Finished (SB_ENOTFOUND, [])
           | Some v \<Rightarrow>
               if len = 0 then Illegal
               else Finished (if length v \<ge> len - 1 then - 3 else SB_ESUCCESS, take (len - 1) v)))"

section \<open>Forms\<close>

text \<open>
  The macros \<^verbatim>\<open>P_ATCHK\<close> and \<^verbatim>\<open>P_AFTERL\<close>: \<open>None\<close> is the jump to \<^verbatim>\<open>fail\<close>. The search gives up where only as
  many characters are left as it looks for; with less than that it would run past the end.
\<close>

definition bind_found :: "'a option run \<Rightarrow> ('a \<Rightarrow> 'b option run) \<Rightarrow> 'b option run" where
  "bind_found x f = bind_run x (\<lambda>v. case v of None \<Rightarrow> Finished None | Some a \<Rightarrow> f a)"

fun search_text :: "string \<Rightarrow> string \<Rightarrow> string option" where
  "search_text x [] = None"
| "search_text x (c # p) =
    (if length (c # p) = length x then None
     else if mem_equal (c # p) x (length x) then Some (drop (length x) (c # p)) else search_text x p)"

definition after_text :: "string \<Rightarrow> string \<Rightarrow> string option run" where
  "after_text x p = (if length p < length x then Illegal else Finished (search_text x p))"

definition at_header :: "string \<Rightarrow> string \<Rightarrow> string option run" where
  "at_header field p =
    bind_run (loop_run (find_header_value (c_str p) field)) (\<lambda>s.
      Finished (map_option (\<lambda>s. drop (length (c_str p) - length s) p) s))"

text \<open>From one boundary to the name of the part behind it.\<close>

definition part_name :: "string \<Rightarrow> string \<Rightarrow> string option run" where
  "part_name boundary p =
    bind_found (after_text boundary p) (\<lambda>p. bind_found (after_text CRLF p) (\<lambda>p.
      bind_found (at_header ''Content-Disposition'' p) (\<lambda>p. after_text (''name='' @ [CHR 0x22]) p)))"

text \<open>The data of a part, with a length that wraps around when there is less than a line before the boundary.\<close>

definition part_data :: "string \<Rightarrow> string \<Rightarrow> (string \<times> size_t) option run" where
  "part_data boundary p =
    bind_found (after_text (CRLF @ CRLF) p) (\<lambda>res. bind_found (after_text boundary res) (\<lambda>p.
      Finished (Some (res, of_nat (length res - length p) - of_nat (length boundary) - 4))))"

lemma search_text_shorter: "search_text x p = Some q \<Longrightarrow> length q \<le> length p \<and> (x \<noteq> [] \<longrightarrow> length q < length p)"
  by (induction x p rule: search_text.induct) (auto split: if_splits)

lemma after_text_shorter:
  "after_text x p = Finished (Some q) \<Longrightarrow> length q \<le> length p \<and> (x \<noteq> [] \<longrightarrow> length q < length p)"
  by (auto simp: after_text_def search_text_shorter split: if_splits)

lemma at_header_shorter: "at_header field p = Finished (Some q) \<Longrightarrow> length q \<le> length p"
  by (auto simp: at_header_def bind_run_eq_Finished)

lemma bind_found_eq_Some: "bind_found x f = Finished (Some y) \<longleftrightarrow> (\<exists>a. x = Finished (Some a) \<and> f a = Finished (Some y))"
  by (auto simp: bind_found_def bind_run_eq_Finished split: option.splits)

lemma part_name_shorter: "part_name boundary p = Finished (Some q) \<Longrightarrow> length q < length p"
  unfolding part_name_def bind_found_eq_Some
  by (fastforce dest!: after_text_shorter at_header_shorter simp: CRLF_def)

function find_part :: "string \<Rightarrow> string \<Rightarrow> string \<Rightarrow> (string \<times> size_t) option run" where
  "find_part boundary name p =
    (case part_name boundary p of
       Finished (Some p) \<Rightarrow>
         if mem_equal p name (length name) \<and> prefix_of [CHR 0x22] (drop (length name) p)
         then part_data boundary p else find_part boundary name p
     | Finished None \<Rightarrow> Finished None
     | Raised \<Rightarrow> Raised | Illegal \<Rightarrow> Illegal | Endless \<Rightarrow> Endless)"
  by pat_completeness auto

termination
  by (relation "measure (\<lambda>(boundary, name, p). length p)") (auto dest: part_name_shorter)

declare find_part.simps [simp del]

definition sb_get_multipart :: "sb_Stream \<Rightarrow> string \<Rightarrow> (string \<times> size_t) option run" where
  "sb_get_multipart st name =
    bind_found (at_header ''Content-Type'' (bf_s (st_recv_buf st))) (\<lambda>p.
      bind_found (after_text ''boundary='' p) (\<lambda>boundary.
        bind_found (after_text CRLF boundary) (\<lambda>p.
          find_part (take (length boundary - length p - 2) boundary) name p)))"

end
