(* ===== verification/Web_Request.thy ===== *)
theory Web_Request
  imports Web_Contract Web_Query
begin

text \<open>
  Requests: what is found in their headers, that it does not matter how they are cut into pieces on
  their way, and the requests on which the search for a header never ends.
\<close>

section \<open>Lines\<close>

definition line_ok :: "string \<Rightarrow> bool" where
  "line_ok l \<longleftrightarrow> l \<noteq> [] \<and> CHR 0x0D \<notin> set l"

definition lines_text :: "string list \<Rightarrow> string" where
  "lines_text ls = concat (map (\<lambda>l. l @ CRLF) ls)"

lemma lines_text_simps [simp]: "lines_text [] = []" "lines_text (l # ls) = l @ CRLF @ lines_text ls"
  by (simp_all add: lines_text_def)

text \<open>What is not a letter is not made from one.\<close>

lemma map_of_default:
  assumes "x \<notin> set xs" "x \<notin> set ys"
  shows "(case map_of (zip xs ys) c of Some d \<Rightarrow> d | None \<Rightarrow> c) = x \<longleftrightarrow> c = x"
proof (cases "map_of (zip xs ys) c")
  case (Some d)
  then have "c \<in> set xs" "d \<in> set ys" by (meson map_of_SomeD set_zip_leftD set_zip_rightD)+
  then show ?thesis using Some assms by auto
qed simp

lemma to_lower_other:
  assumes "x \<notin> set ''ABCDEFGHIJKLMNOPQRSTUVWXYZ''" "x \<notin> set ''abcdefghijklmnopqrstuvwxyz''"
  shows "to_lower c = x \<longleftrightarrow> c = x"
  unfolding to_lower_def by (rule map_of_default [OF assms])

lemma to_lower_CR: "to_lower c = CHR 0x0D \<longleftrightarrow> c = CHR 0x0D"
  by (rule to_lower_other) simp_all

lemma header_here_CR:
  assumes "CHR 0x0D \<notin> set field"
  shows "header_here (l @ CHR 0x0D # r) field \<longleftrightarrow> header_here l field"
proof -
  let ?n = "length field"
  consider "?n < length l" | "?n = length l" | "length l < ?n" by linarith
  then show ?thesis
  proof cases
    case 1
    then obtain c t where "drop ?n l = c # t" by (metis Cons_nth_drop_Suc)
    then show ?thesis using 1 unfolding header_here_def by (simp add: mem_case_equal_map)
  next
    case 2
    then show ?thesis unfolding header_here_def by (simp add: mem_case_equal_map)
  next
    case 3
    have "map to_lower (take ?n (l @ CHR 0x0D # r)) \<noteq> map to_lower field"
    proof
      assume a: "map to_lower (take ?n (l @ CHR 0x0D # r)) = map to_lower field"
      have i: "take ?n (l @ CHR 0x0D # r) ! length l = CHR 0x0D" "length l < length (take ?n (l @ CHR 0x0D # r))"
        using 3 by (simp_all add: nth_append)
      have "to_lower (field ! length l) = map to_lower field ! length l" using 3 by simp
      also have "\<dots> = to_lower (take ?n (l @ CHR 0x0D # r) ! length l)" unfolding a [symmetric] by (rule nth_map [OF i(2)])
      also have "\<dots> = CHR 0x0D" unfolding i(1) using to_lower_CR [of "CHR 0x0D"] by simp
      finally have "field ! length l = CHR 0x0D" using to_lower_CR by blast
      then show False using assms nth_mem [OF 3] by simp
    qed
    then show ?thesis using 3 unfolding header_here_def by (simp add: mem_case_equal_map)
  qed
qed

lemma header_here_line: "CHR 0x0D \<notin> set field \<Longrightarrow> header_here (l @ CRLF @ r) field \<longleftrightarrow> header_here l field"
  using header_here_CR [of field l "CHR 0x0A # r"] by (simp add: CRLF_def)

lemma next_line_line: "CHR 0x0D \<notin> set l \<Longrightarrow> next_line (l @ CRLF @ r) = r"
proof -
  assume l: "CHR 0x0D \<notin> set l"
  have "dropWhile (\<lambda>c. c \<notin> {CHR 0x0D}) (l @ CHR 0x0D # t) = CHR 0x0D # t" for t
    using l by (subst dropWhile_append2) auto
  then show ?thesis by (simp add: next_line_def after_cspn_def CRLF_def eval_nat_numeral)
qed

lemma line_not_end: "line_ok l \<Longrightarrow> \<not> mem_equal (l @ r) CRLF 2"
  unfolding mem_equal_CRLF by (cases l) (auto simp: line_ok_def CRLF_def)

text \<open>The search goes through the lines in order.\<close>

lemma find_header_line:
  assumes "line_ok l" "CHR 0x0D \<notin> set field"
  shows "find_header_value (l @ CRLF @ r) field =
    (if header_here l field
     then Some (Some (after_spn [CHR '' '', CHR 0x09] (drop (length field + 1) l @ CRLF @ r)))
     else find_header_value r field)"
proof -
  have "length field + 1 \<le> length l" if "header_here l field"
  proof -
    have "drop (length field) l \<noteq> []" using that by (auto simp: header_here_def)
    then show ?thesis by simp
  qed
  then show ?thesis using assms line_not_end [OF assms(1)] header_here_line [OF assms(2)] next_line_line
    by (subst find_header_value.simps) (auto simp: line_ok_def)
qed

lemma find_header_end: "find_header_value (CRLF @ r) field = Some None"
  by (subst find_header_value.simps) (simp add: mem_equal_CRLF)

lemma find_header_lines:
  assumes "\<forall>l \<in> set ls. line_ok l" "CHR 0x0D \<notin> set field"
  shows "find_header_value (lines_text ls @ CRLF @ r) field =
    Some (case dropWhile (\<lambda>l. \<not> header_here l field) ls of
            [] \<Rightarrow> None
          | l # ls \<Rightarrow> Some (after_spn [CHR '' '', CHR 0x09] (drop (length field + 1) l @ CRLF @ lines_text ls @ CRLF @ r)))"
  using assms(1)
proof (induction ls)
  case (Cons l ls)
  have "find_header_value (l @ CRLF @ lines_text ls @ CRLF @ r) field =
    (if header_here l field
     then Some (Some (after_spn [CHR '' '', CHR 0x09] (drop (length field + 1) l @ CRLF @ lines_text ls @ CRLF @ r)))
     else find_header_value (lines_text ls @ CRLF @ r) field)"
    by (rule find_header_line) (use Cons.prems assms(2) in auto)
  then show ?case using Cons by simp
qed (simp add: find_header_end)

section \<open>Headers\<close>

text \<open>A header as a client writes it, and what a header's value may look like.\<close>

definition header_text :: "string \<times> string \<Rightarrow> string" where
  "header_text = (\<lambda>(f, v). f @ '': '' @ v)"

definition header_ok :: "string \<times> string \<Rightarrow> bool" where
  "header_ok = (\<lambda>(f, v). CHR 0x0D \<notin> set f \<and> CHR '':'' \<notin> set f \<and> CHR 0x0D \<notin> set v \<and>
    v \<noteq> [] \<and> hd v \<notin> set [CHR '' '', CHR 0x09] \<and> last v \<notin> set [CHR '' '', CHR 0x09])"

text \<open>Names of headers are the same up to the case of their letters.\<close>

definition same_name :: "string \<Rightarrow> string \<Rightarrow> bool" where
  "same_name f g \<longleftrightarrow> map to_lower f = map to_lower g"

lemma to_lower_colon: "to_lower c = CHR '':'' \<longleftrightarrow> c = CHR '':''"
  by (rule to_lower_other) simp_all

lemma header_here_text:
  assumes "CHR '':'' \<notin> set f" "CHR '':'' \<notin> set field"
  shows "header_here (header_text (f, v)) field \<longleftrightarrow> same_name f field"
proof -
  let ?n = "length field" and ?t = "f @ '': '' @ v"
  consider "?n < length f" | "?n = length f" | "length f < ?n" by linarith
  then show ?thesis
  proof cases
    case 1
    then obtain t where "drop ?n ?t = f ! ?n # t" by (simp add: Cons_nth_drop_Suc [symmetric])
    then show ?thesis using 1 assms(1) nth_mem [OF 1] unfolding header_here_def header_text_def same_name_def
      by (auto dest: map_eq_imp_length_eq)
  next
    case 2
    then show ?thesis unfolding header_here_def header_text_def same_name_def by (simp add: mem_case_equal_map)
  next
    case 3
    have "map to_lower (take ?n ?t) \<noteq> map to_lower field"
    proof
      assume a: "map to_lower (take ?n ?t) = map to_lower field"
      have i: "take ?n ?t ! length f = CHR '':''" "length f < length (take ?n ?t)"
        using 3 by (simp_all add: nth_append)
      have "to_lower (field ! length f) = map to_lower field ! length f" using 3 by simp
      also have "\<dots> = to_lower (take ?n ?t ! length f)" unfolding a [symmetric] by (rule nth_map [OF i(2)])
      also have "\<dots> = CHR '':''" unfolding i(1) using to_lower_colon [of "CHR '':''"] by simp
      finally have "field ! length f = CHR '':''" using to_lower_colon by blast
      then show False using assms nth_mem [OF 3] by simp
    qed
    then show ?thesis using 3 unfolding header_here_def header_text_def same_name_def
      by (auto simp: mem_case_equal_map dest: map_eq_imp_length_eq)
  qed
qed

lemma trim_value_trimmed: "last v \<notin> set [CHR '' '', CHR 0x09] \<Longrightarrow> trim_value v = v"
  by (subst trim_value.simps) auto

lemma header_text_ok: "header_ok h \<Longrightarrow> line_ok (header_text h)"
  by (cases h) (simp add: header_ok_def header_text_def line_ok_def)

lemma first_header:
  assumes "\<forall>h \<in> set hs. header_ok h" "CHR '':'' \<notin> set field"
  shows "case dropWhile (\<lambda>l. \<not> header_here l field) (map header_text hs) of
      [] \<Rightarrow> filter (\<lambda>(f, v). same_name f field) hs = []
    | l # ls \<Rightarrow> \<exists>f v hs'. filter (\<lambda>(f, v). same_name f field) hs = (f, v) # hs' \<and> l = header_text (f, v)
        \<and> header_ok (f, v) \<and> same_name f field"
  using assms(1)
proof (induction hs)
  case (Cons h hs)
  obtain f v where h: "h = (f, v)" by force
  have "header_here (header_text (f, v)) field \<longleftrightarrow> same_name f field"
    using Cons.prems assms(2) by (intro header_here_text) (auto simp: h header_ok_def)
  then have d: "dropWhile (\<lambda>l. \<not> header_here l field) (map header_text ((f, v) # hs)) =
      (if same_name f field then header_text (f, v) # map header_text hs
       else dropWhile (\<lambda>l. \<not> header_here l field) (map header_text hs))" by simp
  have fs: "filter (\<lambda>(f, v). same_name f field) ((f, v) # hs) =
      (if same_name f field then (f, v) # filter (\<lambda>(f, v). same_name f field) hs
       else filter (\<lambda>(f, v). same_name f field) hs)" by simp
  show ?case unfolding h d fs using Cons h by (cases "same_name f field") auto
qed simp

lemma value_of_header:
  assumes "header_ok (f, v)" "same_name f field"
  shows "after_spn [CHR '' '', CHR 0x09] (drop (length field + 1) (header_text (f, v)) @ CRLF @ r) = v @ CRLF @ r"
proof -
  have "length f = length field" using assms(2) by (auto simp: same_name_def dest: map_eq_imp_length_eq)
  then have "drop (length field + 1) (header_text (f, v)) = CHR '' '' # v" by (simp add: header_text_def)
  moreover obtain c t where "v = c # t" "c \<noteq> CHR '' ''" "c \<noteq> CHR 0x09"
    using assms(1) by (cases v) (auto simp: header_ok_def)
  ultimately show ?thesis by (simp add: after_spn_def)
qed

text \<open>
  C26: The value of a header is found whatever the case of its name and whatever headers surround it:
  \<^verbatim>\<open>sb_get_header\<close> gives the value of the first header with the name, cut to the room there is, and says so
  if it was cut, or that there is none.
\<close>

theorem get_header_finds:
  assumes "recv_text st = line @ CRLF @ lines_text (map header_text hs) @ CRLF @ body"
    and "line_ok line" "\<not> same_name (take (length field) line) field" "\<forall>h \<in> set hs. header_ok h"
    and "CHR '':'' \<notin> set field" "CHR 0x0D \<notin> set field" "0 < len"
  shows "sb_get_header st field len =
    Finished (case filter (\<lambda>(f, v). same_name f field) hs of
                [] \<Rightarrow> (SB_ENOTFOUND, [])
              | (f, v) # _ \<Rightarrow> (if length v < len then SB_ESUCCESS else - 3, take (len - 1) v))"
proof -
  have "\<not> header_here line field" using assms(3)
    by (auto simp: header_here_def mem_case_equal_map same_name_def)
  then have lines: "find_header_value (recv_text st) field =
    Some (case dropWhile (\<lambda>l. \<not> header_here l field) (map header_text hs) of
            [] \<Rightarrow> None
          | l # ls \<Rightarrow> Some (after_spn [CHR '' '', CHR 0x09] (drop (length field + 1) l @ CRLF @ lines_text ls @ CRLF @ body)))"
    using find_header_lines [of "line # map header_text hs" field body] assms header_text_ok by simp
  note first = first_header [OF assms(4,5)]
  show ?thesis
  proof (cases "dropWhile (\<lambda>l. \<not> header_here l field) (map header_text hs)")
    case Nil
    then show ?thesis using first lines unfolding Nil by (simp add: sb_get_header_def)
  next
    case (Cons l ls)
    then obtain f v hs' where f: "filter (\<lambda>(f, v). same_name f field) hs = (f, v) # hs'" "l = header_text (f, v)"
      "header_ok (f, v)" "same_name f field" using first unfolding Cons by auto
    have v: "CHR 0x0D \<notin> set v" "trim_value v = v" using f(3) trim_value_trimmed by (auto simp: header_ok_def)
    have "takeWhile (\<lambda>c. c \<noteq> CHR 0x0D) (v @ CRLF @ r) = v" for r
      using v(1) by (subst takeWhile_append2) (auto simp: CRLF_def)
    moreover have "CHR 0x0D \<in> set (v @ CRLF @ r)" for r by (simp add: CRLF_def)
    ultimately show ?thesis using lines f(1,2) value_of_header [OF f(3,4)] v assms(7) unfolding Cons
      by (auto simp: sb_get_header_def)
  qed
qed

theorem get_header_finds_witness:
  "sb_get_header ((new_stream 5)\<lparr>st_recv_buf :=
      \<lparr>bf_s = ''GET / HTTP/1.1'' @ CRLF @ ''Host: a:80'' @ CRLF @ ''cookie: x=1'' @ CRLF @ CRLF, bf_cap = 64\<rparr>\<rparr>) ''Cookie'' 3
    = Finished (- 3, ''x='')"
proof -
  have "recv_text ((new_stream 5)\<lparr>st_recv_buf :=
      \<lparr>bf_s = ''GET / HTTP/1.1'' @ CRLF @ ''Host: a:80'' @ CRLF @ ''cookie: x=1'' @ CRLF @ CRLF, bf_cap = 64\<rparr>\<rparr>)
    = ''GET / HTTP/1.1'' @ CRLF @ lines_text (map header_text [(''Host'', ''a:80''), (''cookie'', ''x=1'')]) @ CRLF @ []"
    by (simp add: recv_text_def c_str_def CRLF_def header_text_def)
  from get_header_finds [OF this, of "''Cookie''" 3] show ?thesis
    by (simp add: line_ok_def same_name_def header_ok_def to_lower_def)
qed

section \<open>The end of the headers\<close>

definition ends_header :: "string \<Rightarrow> bool" where
  "ends_header s \<longleftrightarrow> length s \<ge> 4 \<and> drop (length s - 4) s = CRLF @ CRLF"

lemma ends_header_app: "ends_header s \<longleftrightarrow> (\<exists>x. s = x @ CRLF @ CRLF)"
proof
  assume "ends_header s"
  then show "\<exists>x. s = x @ CRLF @ CRLF" unfolding ends_header_def by (metis append_take_drop_id)
qed (auto simp: ends_header_def CRLF_def)

lemma header_complete_ends:
  "header_complete st \<longleftrightarrow> st_state st = STATE_RECEIVING_HEADER \<and> ends_header (bf_s (st_recv_buf st))"
proof -
  have "mem_equal (drop (length s - 4) s) (CRLF @ CRLF) 4 \<longleftrightarrow> drop (length s - 4) s = CRLF @ CRLF" if "length s \<ge> 4" for s
  proof -
    have "mem_equal (drop (length s - 4) s) (CRLF @ CRLF) (length (CRLF @ CRLF)) \<longleftrightarrow> (\<exists>t. drop (length s - 4) s = (CRLF @ CRLF) @ t)"
      by (rule mem_equal_prefix)
    moreover have "t = []" if "drop (length s - 4) s = (CRLF @ CRLF) @ t" for t
      using arg_cong [OF that, of length] \<open>length s \<ge> 4\<close> by (simp add: CRLF_def)
    moreover have "length (CRLF @ CRLF) = 4" by (simp add: CRLF_def)
    ultimately show ?thesis by (metis append_Nil2)
  qed
  then show ?thesis by (auto simp: header_complete_def ends_header_def Let_def)
qed

text \<open>Only the empty line after the headers ends them.\<close>

lemma lines_end:
  assumes "ls \<noteq> []" "\<forall>l \<in> set ls. line_ok l" "lines_text ls @ CRLF = x @ CRLF @ CRLF @ q"
  shows "q = []"
  using assms
proof (induction ls arbitrary: x)
  case (Cons l ls)
  let ?rest = "lines_text ls @ CRLF"
  have l: "CHR 0x0D \<notin> set l" using Cons.prems(2) by (simp add: line_ok_def)
  have at_l: "q = []" if "CRLF @ q = ?rest"
  proof (cases ls)
    case (Cons l2 ls2)
    then obtain c t where "l2 = c # t" "c \<noteq> CHR 0x0D" using Cons.prems(2) by (cases l2) (auto simp: line_ok_def)
    then show ?thesis using that Cons by (simp add: CRLF_def)
  qed (use that in \<open>simp add: CRLF_def\<close>)
  have "x @ CRLF @ CRLF @ q = l @ CRLF @ ?rest" using Cons.prems(3) by simp
  then obtain us where "x @ us = l \<and> CRLF @ CRLF @ q = us @ CRLF @ ?rest \<or> x = l @ us \<and> us @ CRLF @ CRLF @ q = CRLF @ ?rest"
    unfolding append_eq_append_conv2 [of x "CRLF @ CRLF @ q"] by blast
  then show ?case
  proof (elim disjE conjE)
    assume x: "x @ us = l" and q: "CRLF @ CRLF @ q = us @ CRLF @ ?rest"
    have "us = []" using q l x by (cases us) (auto simp: CRLF_def)
    then show ?thesis using q at_l by (simp add: CRLF_def)
  next
    assume us: "us @ CRLF @ CRLF @ q = CRLF @ ?rest"
    consider "us = []" | c where "us = [c]" | c d vs where "us = c # d # vs" by (metis neq_Nil_conv)
    then show ?thesis
    proof cases
      case 1
      then show ?thesis using us at_l by (simp add: CRLF_def)
    next
      case 2
      then show ?thesis using us by (simp add: CRLF_def)
    next
      case 3
      then have v: "?rest = vs @ CRLF @ CRLF @ q" using us by (simp add: CRLF_def)
      then have "ls \<noteq> []" by (auto simp: CRLF_def dest: arg_cong [of _ _ length])
      then show ?thesis using Cons.IH Cons.prems(2) v by simp
    qed
  qed
qed simp

lemma lines_prefix:
  assumes "ls \<noteq> []" "\<forall>l \<in> set ls. line_ok l" "lines_text ls @ CRLF = p @ q" "q \<noteq> []"
  shows "\<not> ends_header p"
  using lines_end [OF assms(1,2)] assms(3,4) by (auto simp: ends_header_app)

section \<open>Receiving\<close>

lemma recv_chars_append:
  "recv_chars handler (a @ b) w =
   bind_run (recv_chars handler a w) (\<lambda>(r, w). case r of Some err \<Rightarrow> Finished (Some err, w) | None \<Rightarrow> recv_chars handler b w)"
proof (induction a arbitrary: w)
  case (Cons c a)
  obtain err w' where "on_recv_buf (sb_buffer_push_char c) w = (err, w')" by (metis surj_pair)
  then show ?case by (cases "character_received handler w'") (auto simp: Cons split: option.split)
qed simp

text \<open>A character is taken up, and the request goes on.\<close>

lemma push_recv:
  assumes "we_allocs e = []"
  obtains b where "on_recv_buf (sb_buffer_push_char c) (st, e) = (0, st\<lparr>st_recv_buf := b\<rparr>, e)"
    "bf_s b = bf_s (st_recv_buf st) @ [c]"
proof -
  obtain err b e' where r: "sb_buffer_push_char c (st_recv_buf st, e) = (err, b, e')" by (metis prod_cases3)
  have "err = 0" "e' = e" "bf_s b = bf_s (st_recv_buf st) @ [c]"
    using buffer_push_char [OF r] assms quiet_no_failure by auto
  then show ?thesis using r by (intro that [of b]) (simp_all add: on_recv_buf_def)
qed

lemma terminate_recv:
  assumes "we_allocs e = []"
  obtains b where "on_recv_buf sb_buffer_null_terminate (st, e) = (0, st\<lparr>st_recv_buf := b\<rparr>, e)"
    "bf_s b = bf_s (st_recv_buf st)"
proof -
  obtain err b e' where r: "sb_buffer_null_terminate (st_recv_buf st, e) = (err, b, e')" by (metis prod_cases3)
  have "err = 0" "e' = e" "bf_s b = bf_s (st_recv_buf st)"
    using buffer_null_terminate [OF r] assms quiet_no_failure by auto
  then show ?thesis using r by (intro that [of b]) (simp_all add: on_recv_buf_def)
qed

lemma recv_accumulates:
  assumes "we_allocs e = []" "st_expected_recv_len st = 0"
    and "\<And>p q. cs = p @ q \<Longrightarrow> p \<noteq> [] \<Longrightarrow> \<not> ends_header (bf_s (st_recv_buf st) @ p)"
  shows "\<exists>b. recv_chars handler cs (st, e) = Finished (None, st\<lparr>st_recv_buf := b\<rparr>, e) \<and> bf_s b = bf_s (st_recv_buf st) @ cs"
  using assms(2,3)
proof (induction cs arbitrary: st)
  case Nil
  show ?case by (rule exI [of _ "st_recv_buf st"]) simp
next
  case (Cons c cs)
  obtain b where b: "on_recv_buf (sb_buffer_push_char c) (st, e) = (0, st\<lparr>st_recv_buf := b\<rparr>, e)"
    "bf_s b = bf_s (st_recv_buf st) @ [c]" by (rule push_recv [OF assms(1)])
  let ?st = "st\<lparr>st_recv_buf := b\<rparr>"
  have "\<not> header_complete ?st" using Cons.prems(2) [of "[c]" cs] by (simp add: header_complete_ends b(2))
  then have step: "character_received handler (?st, e) = Finished (None, ?st, e)"
    using Cons.prems(1) b(2) by (simp add: character_received_def expected_there_def)
  have "\<exists>b'. recv_chars handler cs (?st, e) = Finished (None, ?st\<lparr>st_recv_buf := b'\<rparr>, e)
    \<and> bf_s b' = bf_s (st_recv_buf ?st) @ cs"
  proof (rule Cons.IH)
    show "\<not> ends_header (bf_s (st_recv_buf ?st) @ p)" if "cs = p @ q" "p \<noteq> []" for p q
      using Cons.prems(2) [of "c # p" q] that by (simp add: b(2))
  qed (simp add: Cons.prems(1))
  then show ?case using b step by auto
qed

text \<open>
  A stream that has received nothing yet, and a text that is complete with its last character: what is
  left to do when that arrives.
\<close>

definition fresh_stream :: "sb_Stream \<Rightarrow> bool" where
  "fresh_stream st \<longleftrightarrow>
    st_state st = STATE_RECEIVING_HEADER \<and> bf_s (st_recv_buf st) = [] \<and> st_expected_recv_len st = 0"

lemma recv_completes:
  assumes "we_allocs e = []" "fresh_stream st" "ends_header txt"
    and prefixes: "\<And>p q. txt = p @ q \<Longrightarrow> q \<noteq> [] \<Longrightarrow> \<not> ends_header p"
  shows "find_header_value (c_str txt) ''Content-Length'' = None \<Longrightarrow> recv_chars handler txt (st, e) = Endless"
    and "find_header_value (c_str txt) ''Content-Length'' = Some None \<Longrightarrow>
      \<exists>b. bf_s b = txt \<and> recv_chars handler txt (st, e) =
        bind_run (handle_request handler (st\<lparr>st_state := STATE_RECEIVING_REQUEST, st_recv_buf := b\<rparr>, e))
          (\<lambda>(err, w). Finished (Some err, w))"
proof -
  have "txt \<noteq> []" using assms(3) by (auto simp: ends_header_def)
  then obtain cs c where t: "txt = cs @ [c]" by (metis rev_exhaust)
  have st: "st_state st = STATE_RECEIVING_HEADER" "bf_s (st_recv_buf st) = []" "st_expected_recv_len st = 0"
    using assms(2) by (simp_all add: fresh_stream_def)
  have "\<exists>b. recv_chars handler cs (st, e) = Finished (None, st\<lparr>st_recv_buf := b\<rparr>, e) \<and> bf_s b = bf_s (st_recv_buf st) @ cs"
    by (rule recv_accumulates [OF assms(1) st(3)]) (use t in \<open>auto simp: st prefixes\<close>)
  then obtain b where b: "recv_chars handler cs (st, e) = Finished (None, st\<lparr>st_recv_buf := b\<rparr>, e)" "bf_s b = cs"
    using st by auto
  obtain b2 where b2: "on_recv_buf (sb_buffer_push_char c) (st\<lparr>st_recv_buf := b\<rparr>, e)
      = (0, st\<lparr>st_recv_buf := b\<rparr>\<lparr>st_recv_buf := b2\<rparr>, e)" "bf_s b2 = txt"
    using push_recv [OF assms(1), of c "st\<lparr>st_recv_buf := b\<rparr>"] b(2) t by auto
  let ?st = "st\<lparr>st_recv_buf := b2\<rparr>"
  obtain b3 where b3: "on_recv_buf sb_buffer_null_terminate (?st\<lparr>st_state := STATE_RECEIVING_REQUEST\<rparr>, e)
      = (0, ?st\<lparr>st_state := STATE_RECEIVING_REQUEST\<rparr>\<lparr>st_recv_buf := b3\<rparr>, e)" "bf_s b3 = txt"
    using terminate_recv [OF assms(1), of "?st\<lparr>st_state := STATE_RECEIVING_REQUEST\<rparr>"] b2(2) by auto
  have complete: "header_complete ?st" using assms(3) st b2(2) by (simp add: header_complete_ends)
  have r: "recv_chars handler txt (st, e) =
      bind_run (character_received handler (?st, e)) (\<lambda>(r, w). case r of Some err \<Rightarrow> Finished (Some err, w) | None \<Rightarrow> Finished (None, w))"
    unfolding t recv_chars_append b(1) using b2 by (simp cong: option.case_cong)
  show "recv_chars handler txt (st, e) = Endless" if "find_header_value (c_str txt) ''Content-Length'' = None"
    using that complete b3 by (simp add: r character_received_def recv_text_def)
  show "\<exists>b. bf_s b = txt \<and> recv_chars handler txt (st, e) =
        bind_run (handle_request handler (st\<lparr>st_state := STATE_RECEIVING_REQUEST, st_recv_buf := b\<rparr>, e))
          (\<lambda>(err, w). Finished (Some err, w))"
    if "find_header_value (c_str txt) ''Content-Length'' = Some None"
  proof (rule exI [of _ b3], intro conjI)
    have "bind_run x (\<lambda>(r, w). case r of Some err \<Rightarrow> Finished (Some err, w) | None \<Rightarrow> Finished (None, w)) = x"
      for x :: "(int option \<times> web) run"
      by (cases x) (auto split: option.split)
    then show "recv_chars handler txt (st, e) =
        bind_run (handle_request handler (st\<lparr>st_state := STATE_RECEIVING_REQUEST, st_recv_buf := b3\<rparr>, e))
          (\<lambda>(err, w). Finished (Some err, w))"
      using that complete b3 by (simp add: r character_received_def recv_text_def)
  qed (rule b3(2))
qed

section \<open>A carriage return on its own\<close>

lemma find_header_stuck:
  assumes "CHR 0x0D \<notin> set field" "t = [] \<or> hd t \<noteq> CHR 0x0A"
  shows "find_header_value (CHR 0x0D # t) field = None"
proof (cases "find_header_value (CHR 0x0D # t) field")
  case (Some y)
  have no_end: "\<not> mem_equal (CHR 0x0D # t) CRLF 2" using assms(2) by (auto simp: mem_equal_CRLF) (simp_all add: CRLF_def)
  have no_header: "\<not> header_here (CHR 0x0D # t) field"
  proof (cases field)
    case Nil
    then show ?thesis by (simp add: header_here_def)
  next
    case (Cons c f)
    then show ?thesis using assms(1) to_lower_CR [of c] to_lower_CR [of "CHR 0x0D"] by (auto simp: header_here_def)
  qed
  have stays: "next_line (CHR 0x0D # t) = CHR 0x0D # t" using no_end by (simp add: next_line_def after_cspn_def)
  have False
  proof (rule find_header_value.raw_induct [of "\<lambda>str f y. str = CHR 0x0D # t \<longrightarrow> f = field \<longrightarrow> False", OF _ Some, rule_format])
    fix g :: "string \<Rightarrow> string \<Rightarrow> string option option" and str f y
    assume IH: "\<And>str f y. g str f = Some y \<Longrightarrow> str = CHR 0x0D # t \<Longrightarrow> f = field \<Longrightarrow> False"
      and body: "(if str = [] \<or> mem_equal str CRLF 2 then Some None
        else if header_here str f then Some (Some (after_spn [CHR '' '', CHR 0x09] (drop (length f + 1) str)))
        else g (next_line str) f) = Some y"
      and here: "str = CHR 0x0D # t" "f = field"
    have "g (CHR 0x0D # t) field = Some y" using body no_end no_header stays by (simp add: here)
    then show False by (rule IH) simp_all
  qed simp_all
  then show ?thesis ..
qed

lemma first_CR:
  assumes "x @ CRLF @ CRLF @ q = l @ CHR 0x0D # r" "CHR 0x0D \<notin> set l"
  shows "x = l \<and> CHR 0x0A # CRLF @ q = r \<or> (\<exists>z. x = l @ CHR 0x0D # z \<and> z @ CRLF @ CRLF @ q = r)"
proof -
  obtain us where "x = l @ us \<and> us @ CRLF @ CRLF @ q = CHR 0x0D # r \<or> x @ us = l \<and> CRLF @ CRLF @ q = us @ CHR 0x0D # r"
    using assms(1) unfolding append_eq_append_conv2 [of x "CRLF @ CRLF @ q"] by blast
  then show ?thesis using assms(2) by (cases us) (auto simp: CRLF_def)
qed

lemma lone_CR_request:
  assumes "CHR 0x0D \<notin> set line" "CHR 0x0D \<notin> set x" "x \<noteq> []" "hd x \<noteq> CHR 0x0A"
    and "line @ CHR 0x0D # x @ CRLF @ CRLF = p @ q" "q \<noteq> []"
  shows "\<not> ends_header p"
proof
  assume "ends_header p"
  then obtain y where "y @ CRLF @ CRLF @ q = line @ CHR 0x0D # x @ CRLF @ CRLF" using assms(5) by (auto simp: ends_header_app)
  from first_CR [OF this assms(1)] show False
  proof (elim disjE exE conjE)
    assume "CHR 0x0A # CRLF @ q = x @ CRLF @ CRLF"
    then show False using assms(3,4) by (cases x) auto
  next
    fix z assume "z @ CRLF @ CRLF @ q = x @ CRLF @ CRLF"
    then have "z @ CRLF @ CRLF @ q = x @ CHR 0x0D # CHR 0x0A # CRLF" by (simp add: CRLF_def)
    from first_CR [OF this assms(2)] show False
      using assms(6) by (auto simp: CRLF_def dest: arg_cong [of _ _ length])
  qed
qed

text \<open>
  C27: One request is enough to stop the server for good: if a line of it has a carriage return that
  no line feed follows, the search for the header \<^verbatim>\<open>Content-Length\<close> never gets past that, and
  \<^verbatim>\<open>sb_poll_server\<close> does not return.
\<close>

theorem lone_CR_never_ends:
  assumes "ws_streams srv = st # sts" "fresh_stream st" "we_allocs e = []" "sl_ready sel (st_sockfd st)"
    and "\<forall>st \<in> set (st # sts). st_sockfd st < FD_SETSIZE" "ws_sockfd srv < FD_SETSIZE"
    and "we_recv e (st_sockfd st) = Chunk (line @ [CHR 0x0D] @ x @ CRLF @ CRLF) # later"
    and "line_ok line" "\<not> header_here line ''Content-Length''" "CHR 0x00 \<notin> set line"
    and "x \<noteq> []" "hd x \<noteq> CHR 0x0A" "CHR 0x0D \<notin> set x"
  shows "sb_poll_server handler sel srv e = Endless"
proof -
  let ?t = "line @ CHR 0x0D # x @ CRLF @ CRLF"
  let ?e = "e\<lparr>we_now := sl_now sel\<rparr>" and ?st = "st\<lparr>st_last_activity := sl_now sel\<rparr>"
  have "takeWhile (\<lambda>c. c \<noteq> CHR 0x00) ?t = line @ takeWhile (\<lambda>c. c \<noteq> CHR 0x00) (CHR 0x0D # x @ CRLF @ CRLF)"
    using assms(10) by (subst takeWhile_append2) auto
  then obtain y where y: "c_str ?t = line @ CHR 0x0D # y" "y = [] \<or> hd y \<noteq> CHR 0x0A"
    using assms(11,12) by (cases x) (auto simp: c_str_def)
  have l: "CHR 0x0D \<notin> set line" "line \<noteq> []" using assms(8) by (simp_all add: line_ok_def)
  have search: "find_header_value (c_str ?t) ''Content-Length'' = None"
  proof -
    have "\<not> mem_equal (line @ CHR 0x0D # y) CRLF 2" by (rule line_not_end [OF assms(8)])
    moreover have "\<not> header_here (line @ CHR 0x0D # y) ''Content-Length''"
      using header_here_CR [of "''Content-Length''" line y] assms(9) by simp
    moreover have "next_line (line @ CHR 0x0D # y) = CHR 0x0D # y"
    proof -
      have "dropWhile (\<lambda>c. c \<notin> {CHR 0x0D}) (line @ CHR 0x0D # y) = CHR 0x0D # y" using l(1) by (subst dropWhile_append2) auto
      moreover have "\<not> mem_equal (CHR 0x0D # y) CRLF 2" using y(2) unfolding mem_equal_CRLF by (auto simp: CRLF_def)
      ultimately show ?thesis by (simp add: next_line_def after_cspn_def)
    qed
    ultimately show ?thesis using l(2) y find_header_stuck [of "''Content-Length''" y]
      by (subst find_header_value.simps) simp
  qed
  have "ends_header ?t" unfolding ends_header_app by (rule exI [of _ "line @ CHR 0x0D # x"]) simp
  then have chars: "recv_chars handler ?t (?st, ?e) = Endless"
    using lone_CR_request [OF l(1) assms(13,11,12)] assms(2,3)
    by (intro recv_completes(1) [OF _ _ _ _ search]) (auto simp: fresh_stream_def)
  have "sb_stream_recv handler (st, ?e) = Endless"
    using chars assms(7) l(2) by (simp add: sb_stream_recv_def)
  moreover have "stream_reads sel st" using assms(2,4) by (simp add: stream_reads_def fresh_stream_def sb_state_order)
  moreover have "\<not> (ws_sockfd srv \<ge> FD_SETSIZE \<or> (\<exists>st \<in> set (ws_streams srv). st_sockfd st \<ge> FD_SETSIZE))"
    using assms(1,5,6) by auto
  ultimately show ?thesis using assms(1) by (simp add: sb_poll_server_def serve_stream_def)
qed

theorem lone_CR_never_ends_witness:
  "sb_poll_server (http_handler ''127.0.0.1'' ''17091'') \<lparr>sl_ready = (\<lambda>fd. True), sl_now = 0, sl_accepts = []\<rparr>
    (web_server [new_stream 5])
    (quiet_env\<lparr>we_recv := (\<lambda>fd. [Chunk (''GET / HTTP/1.1'' @ [CHR 0x0D] @ ''x'' @ CRLF @ CRLF)])\<rparr>) = Endless"
  by (rule lone_CR_never_ends [where st = "new_stream 5" and sts = "[]" and line = "''GET / HTTP/1.1''" and x = "''x''" and later = "[]"])
     (simp_all add: web_server_def new_stream_def quiet_env_def fresh_stream_def sb_buffer_init_def FD_SETSIZE_def line_ok_def
       header_here_def to_lower_def)

section \<open>Pieces\<close>

lemma recv_buf_keeps:
  "on_recv_buf sb_buffer_null_terminate (st, e) = (err, st', e') \<Longrightarrow> st_last_activity st' = st_last_activity st \<and> we_now e' = we_now e"
  "on_recv_buf (sb_buffer_push_char c) (st, e) = (err, st', e') \<Longrightarrow> st_last_activity st' = st_last_activity st \<and> we_now e' = we_now e"
  by (auto simp: on_recv_buf_def quiet_def split: prod.splits dest!: buffer_null_terminate(1) buffer_push_char(1))

text \<open>As long as the request goes on, the handler is not called and the times stay as they are.\<close>

lemma character_None_keeps:
  assumes "character_received handler (st, e) = Finished (None, st', e')"
  shows "st_last_activity st' = st_last_activity st \<and> we_now e' = we_now e"
proof -
  have there: "expected_there handler (st1, e1) = Finished (None, st', e') \<Longrightarrow> st' = st1 \<and> e' = e1" for st1 e1
    by (auto simp: expected_there_def bind_run_eq_Finished split: if_splits)
  show ?thesis
  proof (cases "header_complete st")
    case False
    then show ?thesis using assms there by (auto simp: character_received_def)
  next
    case True
    obtain err st1 e1 where r: "on_recv_buf sb_buffer_null_terminate (st\<lparr>st_state := STATE_RECEIVING_REQUEST\<rparr>, e) = (err, st1, e1)"
      by (metis prod_cases3)
    then have "st_last_activity st1 = st_last_activity st \<and> we_now e1 = we_now e" using recv_buf_keeps(1) [OF r] by simp
    then show ?thesis using assms True r there
      by (auto simp: character_received_def bind_run_eq_Finished Let_def split: if_splits option.splits dest!: there)
  qed
qed

lemma recv_chars_None_keeps:
  "recv_chars handler cs (st, e) = Finished (None, st', e') \<Longrightarrow> st_last_activity st' = st_last_activity st \<and> we_now e' = we_now e"
proof (induction cs arbitrary: st e)
  case (Cons c cs)
  obtain err st1 e1 where r: "on_recv_buf (sb_buffer_push_char c) (st, e) = (err, st1, e1)" by (metis prod_cases3)
  obtain st2 e2 where c: "character_received handler (st1, e1) = Finished (None, st2, e2)"
    "recv_chars handler cs (st2, e2) = Finished (None, st', e')"
    using Cons.prems r by (auto simp: bind_run_eq_Finished split: if_splits option.splits)
  show ?case using Cons.IH [OF c(2)] character_None_keeps [OF c(1)] recv_buf_keeps(2) [OF r] by simp
qed simp

definition recv_result :: "(int option \<times> web) run \<Rightarrow> (int \<times> web) run" where
  "recv_result x = bind_run x (\<lambda>(r, w). Finished (case r of Some err \<Rightarrow> err | None \<Rightarrow> SB_ESUCCESS, w))"

definition chunks_result :: "(int \<times> received_chunk list \<times> web) run \<Rightarrow> (int \<times> web) run" where
  "chunks_result x = bind_run x (\<lambda>(err, _, w). Finished (err, w))"

lemma recv_pieces:
  assumes "ss \<noteq> []" "[] \<notin> set ss"
  shows "chunks_result (recv_chunks handler (map Chunk ss) (st, e)) =
    recv_result (recv_chars handler (concat ss) (st\<lparr>st_last_activity := we_now e\<rparr>, e))"
  using assms
proof (induction ss arbitrary: st e)
  case (Cons s ss)
  let ?st = "st\<lparr>st_last_activity := we_now e\<rparr>"
  have s: "s \<noteq> []" using Cons.prems(2) by auto
  have rest: "chunks_result (recv_chunks handler (map Chunk ss) (st', e')) = recv_result (recv_chars handler (concat ss) (st', e'))"
    if r: "recv_chars handler s (?st, e) = Finished (None, st', e')" for st' e'
  proof (cases "ss = []")
    case True
    then show ?thesis by (simp add: chunks_result_def recv_result_def)
  next
    case False
    have "st_last_activity st' = we_now e'" using recv_chars_None_keeps [OF r] by simp
    then have "st'\<lparr>st_last_activity := we_now e'\<rparr> = st'" by simp
    then show ?thesis using Cons.IH [OF False] Cons.prems(2) by simp
  qed
  show ?case
  proof (cases "recv_chars handler s (?st, e)")
    case (Finished a)
    obtain r st' e' where a: "a = (r, st', e')" by (metis prod_cases3)
    show ?thesis using Finished s rest [of st' e']
      by (cases r) (simp_all add: a recv_chars_append, simp_all add: chunks_result_def recv_result_def)
  qed (use s in \<open>simp_all add: recv_chars_append chunks_result_def recv_result_def\<close>)
qed simp

text \<open>
  C25: It makes no difference how a request is cut into pieces on its way: from any two divisions of the
  same bytes the stream receives the same, with the same result and the same effects.
\<close>

theorem recv_cut_anywhere:
  assumes "concat ss = concat ts" "ss \<noteq> []" "ts \<noteq> []" "[] \<notin> set ss" "[] \<notin> set ts"
  shows "chunks_result (recv_chunks handler (map Chunk ss) (st, e)) = chunks_result (recv_chunks handler (map Chunk ts) (st, e))"
  using recv_pieces [OF assms(2,4)] recv_pieces [OF assms(3,5)] assms(1) by simp

theorem recv_cut_anywhere_witness:
  "chunks_result (recv_chunks (http_handler ''127.0.0.1'' ''17091'') (map Chunk [''GET / HTTP/1.1'', CRLF @ CRLF]) (new_stream 5, quiet_env)) =
   chunks_result (recv_chunks (http_handler ''127.0.0.1'' ''17091'') (map Chunk [''GET / HTTP/1.1'' @ CRLF, CRLF]) (new_stream 5, quiet_env))"
  by (rule recv_cut_anywhere) (simp_all add: CRLF_def)

end
