(* ===== verification/Web_Delivery.thy ===== *)
theory Web_Delivery
  imports Web_Request
begin

text \<open>
  From the request to the last byte of the response: a request for a file, cut into any pieces, is
  answered, and in every run of the server in which the client takes at least a byte at a time, the
  whole response is sent in order and the connection is closed.
\<close>

section \<open>The request\<close>

definition request_text :: "string \<Rightarrow> (string \<times> string) list \<Rightarrow> string" where
  "request_text target hs = lines_text ((''GET '' @ target @ '' HTTP/1.1'') # map header_text hs) @ CRLF"

text \<open>A target without escapes and query that fits.\<close>

definition plain_target :: "string \<Rightarrow> bool" where
  "plain_target t \<longleftrightarrow>
    t \<noteq> [] \<and> length t \<le> 511 \<and>
    (\<forall>c \<in> set t. \<not> is_space c \<and> c \<notin> set [CHR ''?'', CHR ''&'', CHR ''%'', CHR ''+'', CHR 0x00])"

lemma url_decode_plain:
  assumes "length t \<le> n" "\<forall>c \<in> set t. \<not> is_space c \<and> c \<notin> set [CHR ''?'', CHR ''&'', CHR ''%'', CHR ''+'', CHR 0x00]"
  shows "url_decode_loop n (t @ CHR '' '' # r) = (t, n - length t)"
  using assms
proof (induction t arbitrary: n)
  case Nil
  then show ?case by (cases n) simp_all
next
  case (Cons c t)
  then obtain m where m: "n = Suc m" "length t \<le> m" by (cases n) auto
  have c: "c \<notin> set [CHR ''?'', CHR ''&'', CHR '' '', CHR 0x09, CHR 0x0D, CHR 0x0A]" "c \<noteq> CHR ''%''" "c \<noteq> CHR ''+''"
    using Cons.prems(2) by (auto simp: is_space_def)
  have "url_decode_loop (Suc m) (c # (t @ CHR '' '' # r)) =
      (let (dst, left) = url_decode_loop m (t @ CHR '' '' # r) in (c # dst, left))"
    using c by (auto split: list.split)
  then show ?case using Cons.IH [OF m(2)] Cons.prems(2) m by simp
qed

lemma scan_word_app:
  assumes "w \<noteq> []" "\<forall>c \<in> set w. \<not> is_space c" "length w \<le> n" "is_space c"
  shows "scan_word n (w @ c # r) = Some (w, c # r)"
proof -
  obtain a v where w: "w = a # v" using assms(1) by (cases w) auto
  then have "dropWhile is_space (w @ c # r) = w @ c # r" using assms(2) by simp
  moreover have "takeWhile (\<lambda>c. \<not> is_space c) (w @ c # r) = w" using assms(2,4) by (subst takeWhile_append2) auto
  ultimately show ?thesis using assms(1,3) by (cases n) (simp_all add: scan_word_def Let_def)
qed

lemma scan_word_space: "is_space c \<Longrightarrow> scan_word n (c # s) = scan_word n s"
  by (simp add: scan_word_def)

lemma scan_get:
  assumes "plain_target target"
  shows "scan_request (''GET '' @ target @ '' HTTP/1.1'' @ CRLF @ r) = Some (''GET'', target @ '' HTTP/1.1'' @ CRLF @ r, ''HTTP/1.1'')"
proof -
  have t: "target \<noteq> []" "\<forall>c \<in> set target. \<not> is_space c" using assms by (auto simp: plain_target_def)
  have get: "scan_word 15 (''GET'' @ CHR '' '' # s) = Some (''GET'', CHR '' '' # s)" for s
    by (rule scan_word_app) (simp_all add: is_space_def)
  have target: "scan_word (length (target @ s)) (target @ CHR '' '' # s') = Some (target, CHR '' '' # s')" for s s'
    by (rule scan_word_app) (use t in \<open>simp_all add: is_space_def\<close>)
  have ver: "scan_word 15 (''HTTP/1.1'' @ CHR 0x0D # s) = Some (''HTTP/1.1'', CHR 0x0D # s)" for s
    by (rule scan_word_app) (simp_all add: is_space_def)
  have "dropWhile is_space (CHR '' '' # target @ s) = target @ s" for s using t by (cases target) (auto simp: is_space_def)
  then show ?thesis
    using get [of "target @ '' HTTP/1.1'' @ CRLF @ r"] target [of "'' HTTP/1.1'' @ CRLF @ r" "''HTTP/1.1'' @ CRLF @ r"]
      ver [of "CHR 0x0A # r"] scan_word_space [of "CHR '' ''" 15 "''HTTP/1.1'' @ CRLF @ r"]
    by (simp add: scan_request_def CRLF_def is_space_def)
qed

lemma request_lines:
  assumes "plain_target target" "\<forall>h \<in> set hs. header_ok h"
  shows "\<forall>l \<in> set ((''GET '' @ target @ '' HTTP/1.1'') # map header_text hs). line_ok l"
proof -
  have "CHR 0x0D \<notin> set target" using assms(1) by (auto simp: plain_target_def is_space_def)
  then show ?thesis using assms(2) header_text_ok by (simp add: line_ok_def)
qed

text \<open>The handler gets the request when its last character is there.\<close>

lemma request_handled:
  assumes "plain_target target" "\<forall>h \<in> set hs. header_ok h \<and> \<not> same_name (fst h) ''Content-Length''"
    and "\<forall>(f, v) \<in> set hs. CHR 0x00 \<notin> set f \<and> CHR 0x00 \<notin> set v"
    and "we_allocs e = []" "fresh_stream st"
  shows "\<exists>b. bf_s b = request_text target hs \<and>
    recv_chars handler (request_text target hs) (st, e) =
      bind_run (sb_stream_emit handler SB_EV_REQUEST ''GET'' target
                  (st\<lparr>st_state := STATE_SENDING_STATUS, st_recv_buf := b\<rparr>, e))
        (\<lambda>(err, w). Finished (Some err, w))"
proof -
  let ?ls = "(''GET '' @ target @ '' HTTP/1.1'') # map header_text hs"
  let ?t = "request_text target hs"
  have lines: "\<forall>l \<in> set ?ls. line_ok l" using request_lines [OF assms(1)] assms(2) by blast
  have "CHR 0x00 \<notin> set target" using assms(1) by (auto simp: plain_target_def)
  then have zero: "c_str ?t = ?t"
    using assms(3) unfolding c_str_def takeWhile_eq_all_conv
    by (auto simp: request_text_def lines_text_def header_text_def CRLF_def)
  have no_length: "dropWhile (\<lambda>l. \<not> header_here l ''Content-Length'') ?ls = []"
  proof -
    have "\<not> header_here (header_text h) ''Content-Length''" if "h \<in> set hs" for h
      using assms(2) that header_here_text [of "fst h" "''Content-Length''" "snd h"] by (cases h) (auto simp: header_ok_def)
    moreover have "\<not> header_here (''GET '' @ target @ '' HTTP/1.1'') ''Content-Length''"
      by (simp add: header_here_def to_lower_def)
    ultimately show ?thesis by auto
  qed
  have search: "find_header_value (c_str ?t) ''Content-Length'' = Some None"
    using find_header_lines [OF lines, of "''Content-Length''" "[]"]
    unfolding zero unfolding request_text_def no_length append_Nil2 by simp
  have complete: "ends_header ?t" unfolding ends_header_app request_text_def
  proof (cases hs rule: rev_cases)
    case Nil
    then show "\<exists>x. lines_text ?ls @ CRLF = x @ CRLF @ CRLF" by simp
  next
    case (snoc hs' h)
    then show "\<exists>x. lines_text ?ls @ CRLF = x @ CRLF @ CRLF"
      by (intro exI [of _ "lines_text ((''GET '' @ target @ '' HTTP/1.1'') # map header_text hs') @ header_text h"])
         (simp add: lines_text_def)
  qed
  have prefixes: "\<not> ends_header p" if "?t = p @ q" "q \<noteq> []" for p q
    using that lines_prefix [OF _ lines] unfolding request_text_def by simp
  have "\<exists>b. bf_s b = ?t \<and> recv_chars handler ?t (st, e) =
      bind_run (handle_request handler (st\<lparr>st_state := STATE_RECEIVING_REQUEST, st_recv_buf := b\<rparr>, e))
        (\<lambda>(err, w). Finished (Some err, w))"
    by (rule recv_completes(2) [OF assms(4,5) complete _ search]) (rule prefixes)
  then obtain b where b: "bf_s b = ?t" "recv_chars handler ?t (st, e) =
      bind_run (handle_request handler (st\<lparr>st_state := STATE_RECEIVING_REQUEST, st_recv_buf := b\<rparr>, e))
        (\<lambda>(err, w). Finished (Some err, w))" by blast
  let ?st = "st\<lparr>st_state := STATE_RECEIVING_REQUEST, st_recv_buf := b\<rparr>"
  obtain b2 where b2: "on_recv_buf sb_buffer_null_terminate (?st\<lparr>st_state := STATE_SENDING_STATUS\<rparr>, e)
      = (0, ?st\<lparr>st_state := STATE_SENDING_STATUS\<rparr>\<lparr>st_recv_buf := b2\<rparr>, e)" "bf_s b2 = ?t"
    using terminate_recv [OF assms(4), of "?st\<lparr>st_state := STATE_SENDING_STATUS\<rparr>"] b(1) by auto
  have scan: "scan_request ?t = Some (''GET'', target @ '' HTTP/1.1'' @ CRLF @ lines_text (map header_text hs) @ CRLF, ''HTTP/1.1'')"
    using scan_get [OF assms(1), of "lines_text (map header_text hs) @ CRLF"] by (simp add: request_text_def)
  have "length target \<le> 511" "\<forall>c \<in> set target. \<not> is_space c \<and> c \<notin> set [CHR ''?'', CHR ''&'', CHR ''%'', CHR ''+'', CHR 0x00]"
    using assms(1) by (simp_all add: plain_target_def)
  from url_decode_plain [OF this, of "''HTTP/1.1'' @ CRLF @ lines_text (map header_text hs) @ CRLF"]
  have path: "\<exists>err. url_decode (target @ '' HTTP/1.1'' @ CRLF @ lines_text (map header_text hs) @ CRLF) 512 = Finished (err, target)"
    by (simp add: url_decode_def)
  have "c_str target = target" using \<open>CHR 0x00 \<notin> set target\<close> unfolding c_str_def takeWhile_eq_all_conv by auto
  then have "handle_request handler (?st, e) =
      sb_stream_emit handler SB_EV_REQUEST ''GET'' target (st\<lparr>st_state := STATE_SENDING_STATUS, st_recv_buf := b2\<rparr>, e)"
    using b2 scan path zero by (auto simp: handle_request_def recv_text_def eval_nat_numeral simp del: append.simps)
  then show ?thesis using b(2) b2(2) by metis
qed

section \<open>The response\<close>

definition file_response :: "string \<Rightarrow> string" where
  "file_response content =
    status_line 200 ''OK'' @ header_line ''Content-Type'' ''application/x-www-form-urlencoded'' @
    header_line ''Content-Length'' (show_int (int (length content))) @ header_line ''beserver'' ''06'' @
    header_line ''Connection'' ''keep-alive'' @ header_line ''Accept-Ranges'' ''bytes'' @ CRLF @ content"

lemma puts_header:
  assumes "st_state st = STATE_SENDING_HEADER" "we_allocs e = []"
    and "\<And>st. st_state st = STATE_SENDING_HEADER \<Longrightarrow> puts t s (st, e) (f (st, e))"
  shows "puts (header_line field val @ t) s (st, e) (also_do (sb_send_header field val (st, e)) f)"
  using puts_also_do [OF send_header_puts [OF assms(1,2)], of t s f] assms(3) by simp

lemma serve_file_puts:
  assumes "st_state st = STATE_SENDING_STATUS" "we_allocs e = []" "we_files e (drop 1 path) = Some content"
    and "length content < 2 ^ 31"
  shows "puts (file_response content) STATE_SENDING_DATA (st, e) (serve_file path (st, e))"
proof -
  have "unat (of_nat (length content) :: u32) = length content"
    using assms(4) by (simp add: unsigned_of_nat take_bit_nat_eq_self)
  moreover have "sint (of_nat (length content) :: u32) = int (length content)"
    using assms(4) by (simp add: signed_of_nat signed_take_bit_int_eq_self)
  ultimately have read: "read_file (drop 1 path) e = (Some (content, of_nat (length content)), e)"
    "show_int (sint (of_nat (length content) :: u32)) = show_int (int (length content))"
    using assms(2,3) by (simp_all add: read_file_def web_alloc_def)
  have headers: "puts (header_line ''Content-Type'' ''application/x-www-form-urlencoded'' @
      header_line ''Content-Length'' (show_int (int (length content))) @ header_line ''beserver'' ''06'' @
      header_line ''Connection'' ''keep-alive'' @ header_line ''Accept-Ranges'' ''bytes'' @ CRLF @ content)
      STATE_SENDING_DATA (st, e)
      (also_do (sb_send_header ''Content-Type'' ''application/x-www-form-urlencoded'' (st, e)) (\<lambda>w.
        also_do (sb_send_header ''Content-Length'' (show_int (int (length content))) w) (\<lambda>w.
        also_do (sb_send_header ''beserver'' ''06'' w) (\<lambda>w.
        also_do (sb_send_header ''Connection'' ''keep-alive'' w) (\<lambda>w.
        also_do (sb_send_header ''Accept-Ranges'' ''bytes'' w) (\<lambda>w.
        sb_write content w))))))" if "st_state st = STATE_SENDING_HEADER" for st
    using that assms(2) by (intro puts_header write_puts)
  show ?thesis unfolding serve_file_def file_response_def
    by (rule puts_also_do [OF send_status_puts [OF assms(1,2)]]) (simp only: snd_conv prod.case read option.case headers)
qed

text \<open>The handler of \<^verbatim>\<open>http.cpp\<close> on a request for a file that there is.\<close>

lemma file_emitted:
  assumes "st_state st = STATE_SENDING_STATUS" "we_allocs e = []" "we_files e (drop 1 path) = Some content"
    and "length content < 2 ^ 31" "file_path path" "\<not> contains path ''/growtopia/server_data.php''"
  shows "\<exists>b. sb_stream_emit (http_handler ip port) SB_EV_REQUEST ''GET'' path (st, e)
      = Finished (0, st\<lparr>st_send_buf := b, st_state := STATE_SENDING_DATA\<rparr>, e)
    \<and> bf_s b = bf_s (st_send_buf st) @ file_response content"
proof -
  obtain b where b: "serve_file path (st, e) = Finished (0, st\<lparr>st_send_buf := b, st_state := STATE_SENDING_DATA\<rparr>, e)"
    "bf_s b = bf_s (st_send_buf st) @ file_response content"
    using serve_file_puts [OF assms(1-4)] unfolding puts_def by auto
  have "contains ''GET'' ''GET''" by (simp add: contains_def)
  then show ?thesis using b assms(5,6)
    by (intro exI [of _ b]) (simp add: sb_stream_emit_def http_handler_def also_do_def sb_codes)
qed

section \<open>Sending\<close>

text \<open>The limits that \<^verbatim>\<open>http.cpp\<close> sets.\<close>

definition default_limits :: "sb_Server \<Rightarrow> bool" where
  "default_limits srv \<longleftrightarrow> ws_timeout srv = 30000 \<and> ws_max_lifetime srv = 0 \<and> ws_max_request_size srv = 0"

lemma new_server_limits:
  "sb_new_server handler http_options l e = Finished (Some srv, e') \<Longrightarrow> default_limits srv \<and> ws_streams srv = []"
  by (auto simp: sb_new_server_def http_options_def default_limits_def str_to_uint_def Let_def bind_run_eq_Finished
      split: prod.splits bool.splits if_splits option.splits)

lemma not_expired: "default_limits srv \<Longrightarrow> now - st_last_activity st \<le> 30 \<Longrightarrow> \<not> stream_expired srv now st"
  by (simp add: stream_expired_def default_limits_def)

text \<open>One round with one stream: its last bytes are gone and it is closed, or some are sent.\<close>

definition one_stream :: "sb_Server \<Rightarrow> sb_Stream \<Rightarrow> bool" where
  "one_stream srv st \<longleftrightarrow>
    ws_streams srv = [st] \<and> st_sockfd st < FD_SETSIZE \<and> ws_sockfd srv < FD_SETSIZE \<and> default_limits srv"

lemma poll_one:
  assumes "one_stream srv st" "\<not> sl_ready sel (ws_sockfd srv)"
    and "serve_stream handler sel srv (st, e\<lparr>we_now := sl_now sel\<rparr>) = Finished (0, st', e')"
  shows "st_state st' \<noteq> STATE_CLOSING \<Longrightarrow> sb_poll_server handler sel srv e = Finished (0, srv\<lparr>ws_streams := [st']\<rparr>, e')"
    and "st_state st' = STATE_CLOSING \<Longrightarrow> (\<And>evt w. se_type evt = SB_EV_CLOSE \<Longrightarrow> handler evt w = Finished (0, w)) \<Longrightarrow>
      sb_poll_server handler sel srv e = Finished (0, srv\<lparr>ws_streams := []\<rparr>, e'\<lparr>we_closed := we_closed e' @ [st_sockfd st']\<rparr>)"
  using assms
  by (auto simp: one_stream_def sb_poll_server_def sb_stream_destroy_def sb_stream_emit_def sb_codes)

lemma sending_round:
  assumes "st_state st = STATE_SENDING_DATA" "sl_ready sel (st_sockfd st)" "bf_s (st_send_buf st) \<noteq> []"
    and "we_send e (st_sockfd st) = Sent n # ss" "0 < n" "default_limits srv" "we_now e = sl_now sel"
  shows "serve_stream handler sel srv (st, e) =
    Finished (0, st\<lparr>st_send_buf := (st_send_buf st)\<lparr>bf_s := drop n (bf_s (st_send_buf st))\<rparr>, st_last_activity := sl_now sel\<rparr>,
      e\<lparr>we_send := (we_send e)(st_sockfd st := ss),
        we_sent := (we_sent e)(st_sockfd st := we_sent e (st_sockfd st) @ take n (bf_s (st_send_buf st)))\<rparr>)"
proof -
  have "\<not> stream_expired srv (sl_now sel)
      (st\<lparr>st_send_buf := (st_send_buf st)\<lparr>bf_s := drop n (bf_s (st_send_buf st))\<rparr>, st_last_activity := sl_now sel\<rparr>)"
    using not_expired [OF assms(6)] by simp
  moreover have "drop (length (take n s)) s = drop n s" for s :: string by (cases "n \<le> length s") auto
  ultimately show ?thesis using assms
    by (simp add: serve_stream_def stream_reads_def stream_writes_def sb_stream_send_def send_data_def next_send_def
        sb_buffer_shift_def sb_state_order sb_codes Let_def)
qed

lemma last_round:
  assumes "st_state st = STATE_SENDING_DATA" "sl_ready sel (st_sockfd st)" "bf_s (st_send_buf st) = []" "st_send_fp st = None"
  shows "serve_stream handler sel srv (st, e) = Finished (0, sb_stream_close st, e)"
  using assms
  by (simp add: serve_stream_def stream_reads_def stream_writes_def sb_stream_send_def sb_state_order sb_codes sb_stream_close_def)

lemma idle_rounds:
  assumes "ws_streams srv = []" "ws_sockfd srv < FD_SETSIZE" "\<forall>sel \<in> set sels. \<not> sl_ready sel (ws_sockfd srv)"
  shows "\<exists>t. http_rounds handler sels srv e = Finished (srv, e\<lparr>we_now := t\<rparr>)"
  using assms(3)
proof (induction sels arbitrary: e)
  case Nil
  show ?case by (rule exI [of _ "we_now e"]) simp
next
  case (Cons sel sels)
  have "sb_poll_server handler sel srv e = Finished (0, srv, e\<lparr>we_now := sl_now sel\<rparr>)"
    using assms(1,2) Cons.prems by (simp add: sb_poll_server_def sb_codes)
  then show ?case using Cons.IH [of "e\<lparr>we_now := sl_now sel\<rparr>"] Cons.prems by simp
qed

text \<open>Enough rounds: one for each byte, and one more to notice that there is nothing left.\<close>

definition steady :: "nat \<Rightarrow> nat \<Rightarrow> selected list \<Rightarrow> bool" where
  "steady fd listening sels \<longleftrightarrow> (\<forall>sel \<in> set sels. sl_ready sel fd \<and> \<not> sl_ready sel listening)"

lemma response_drains:
  assumes "\<And>evt w. se_type evt = SB_EV_CLOSE \<Longrightarrow> handler evt w = Finished (0, w)"
    and "one_stream srv st" "steady (st_sockfd st) (ws_sockfd srv) sels"
    and "st_state st = STATE_SENDING_DATA" "st_send_fp st = None"
    and "we_send e (st_sockfd st) = map Sent ns" "\<forall>n \<in> set ns. 0 < n"
    and "length (bf_s (st_send_buf st)) \<le> length ns" "length (bf_s (st_send_buf st)) < length sels"
  shows "\<exists>e'. http_rounds handler sels srv e = Finished (srv\<lparr>ws_streams := []\<rparr>, e')
    \<and> we_sent e' (st_sockfd st) = we_sent e (st_sockfd st) @ bf_s (st_send_buf st) \<and> st_sockfd st \<in> set (we_closed e')"
  using assms(2-)
proof (induction sels arbitrary: srv st e ns)
  case (Cons sel sels)
  let ?s = "bf_s (st_send_buf st)" and ?fd = "st_sockfd st" and ?e = "e\<lparr>we_now := sl_now sel\<rparr>"
  have ready: "sl_ready sel ?fd" "\<not> sl_ready sel (ws_sockfd srv)" "steady ?fd (ws_sockfd srv) sels"
    using Cons.prems(2) by (simp_all add: steady_def)
  show ?case
  proof (cases "?s = []")
    case True
    have "serve_stream handler sel srv (st, ?e) = Finished (0, sb_stream_close st, ?e)"
      by (rule last_round [OF Cons.prems(3) ready(1) True Cons.prems(4)])
    from poll_one(2) [OF Cons.prems(1) ready(2) this _ assms(1)]
    have "sb_poll_server handler sel srv e = Finished (0, srv\<lparr>ws_streams := []\<rparr>, ?e\<lparr>we_closed := we_closed e @ [?fd]\<rparr>)"
      by (simp add: sb_stream_close_def)
    moreover obtain t where "http_rounds handler sels (srv\<lparr>ws_streams := []\<rparr>) (?e\<lparr>we_closed := we_closed e @ [?fd]\<rparr>)
        = Finished (srv\<lparr>ws_streams := []\<rparr>, ?e\<lparr>we_closed := we_closed e @ [?fd]\<rparr>\<lparr>we_now := t\<rparr>)"
      using idle_rounds [of "srv\<lparr>ws_streams := []\<rparr>" sels handler "?e\<lparr>we_closed := we_closed e @ [?fd]\<rparr>"] ready(3) Cons.prems(1)
      unfolding steady_def one_stream_def by auto
    ultimately show ?thesis using True by simp
  next
    case False
    then obtain n ns' where ns: "ns = n # ns'" using Cons.prems(7) by (cases ns) auto
    have n: "0 < n" "\<forall>n \<in> set ns'. 0 < n" using Cons.prems(6) ns by auto
    let ?st = "st\<lparr>st_send_buf := (st_send_buf st)\<lparr>bf_s := drop n ?s\<rparr>, st_last_activity := sl_now sel\<rparr>"
    let ?e' = "?e\<lparr>we_send := (we_send e)(?fd := map Sent ns'), we_sent := (we_sent e)(?fd := we_sent e ?fd @ take n ?s)\<rparr>"
    have "serve_stream handler sel srv (st, ?e) = Finished (0, ?st, ?e')"
      using sending_round [OF Cons.prems(3) ready(1) False, of ?e n "map Sent ns'" srv handler] Cons.prems(1,5) ns n(1)
      by (simp add: one_stream_def)
    from poll_one(1) [OF Cons.prems(1) ready(2) this]
    have poll: "sb_poll_server handler sel srv e = Finished (0, srv\<lparr>ws_streams := [?st]\<rparr>, ?e')"
      using Cons.prems(3) by simp
    have "0 < length ?s" using False by simp
    moreover have "length ?s \<le> Suc (length ns')" "length ?s < Suc (length sels)" using Cons.prems(7,8) ns by simp_all
    ultimately have "length ?s - n \<le> length ns'" "length ?s - n < length sels" using n(1) by linarith+
    then have "\<exists>e2. http_rounds handler sels (srv\<lparr>ws_streams := [?st]\<rparr>) ?e' = Finished (srv\<lparr>ws_streams := [?st]\<rparr>\<lparr>ws_streams := []\<rparr>, e2)
        \<and> we_sent e2 (st_sockfd ?st) = we_sent ?e' (st_sockfd ?st) @ bf_s (st_send_buf ?st) \<and> st_sockfd ?st \<in> set (we_closed e2)"
      using Cons.prems ready(3) n(2) by (intro Cons.IH) (auto simp: one_stream_def default_limits_def)
    then show ?thesis using poll by auto
  qed
qed simp



section \<open>The list of servers\<close>

lemma missing_argument: "CHR ''%'' \<notin> set a \<Longrightarrow> \<exists>ps. format_pieces (a @ ''%s'' @ b) [] = (ps, False)"
  by (induction a) auto

lemma writef_illegal:
  assumes "st_state st = STATE_SENDING_HEADER" "we_allocs e = []" "format_pieces fmt args = (ps, False)"
  shows "sb_writef fmt args (st, e) = Illegal"
proof -
  obtain b where r: "ready_for_data (st, e) = Finished (0, st\<lparr>st_send_buf := b, st_state := STATE_SENDING_DATA\<rparr>, e)"
    using ready_puts [OF assms(1,2)] by (auto simp: puts_def)
  obtain err b' e' where p: "push_pieces ps (length (bf_s b)) (b, e) = (err, b', e')" by (metis prod_cases3)
  then have "err = 0" using push_pieces(4) [OF p _ assms(2)] by simp
  then show ?thesis using r p assms(3) by (simp add: sb_writef_def sb_vwritef_def sb_buffer_vwritef_def)
qed

lemma data_header:
  assumes "st_state st = STATE_SENDING_STATUS" "we_allocs e = []"
  obtains b where "also_do (sb_send_status 200 ''OK'' (st, e)) (\<lambda>w. also_do (sb_send_header ''Content-Type'' ''text/plain'' w) f)
      = f (st\<lparr>st_send_buf := b, st_state := STATE_SENDING_HEADER\<rparr>, e)"
    and "bf_s b = bf_s (st_send_buf st) @ status_line 200 ''OK'' @ header_line ''Content-Type'' ''text/plain''"
proof -
  have "puts (status_line 200 ''OK'' @ header_line ''Content-Type'' ''text/plain'') STATE_SENDING_HEADER (st, e)
      (also_do (sb_send_status 200 ''OK'' (st, e)) (sb_send_header ''Content-Type'' ''text/plain''))"
    by (rule puts_also_do [OF send_status_puts [OF assms]]) (simp add: send_header_puts assms(2))
  then obtain b where "also_do (sb_send_status 200 ''OK'' (st, e)) (sb_send_header ''Content-Type'' ''text/plain'')
      = Finished (0, st\<lparr>st_send_buf := b, st_state := STATE_SENDING_HEADER\<rparr>, e)"
    "bf_s b = bf_s (st_send_buf st) @ status_line 200 ''OK'' @ header_line ''Content-Type'' ''text/plain''"
    by (auto simp: puts_def)
  moreover have "also_do x (\<lambda>w. also_do (g w) f) = bind_run (also_do x g) (\<lambda>(_, w). f w)" for x g
    by (cases x) (auto simp: also_do_def)
  ultimately show ?thesis by (intro that [of b]) simp_all
qed

lemma getMeta_answer:
  assumes "we_answers e = Some body # as"
  obtains e' where "getMeta e = Finished (rtvar_get ''meta'' (rtvar_parse body), e')" "we_allocs e' = we_allocs e"
proof -
  have "rtvar_find ''meta'' var = None \<Longrightarrow> rtvar_get ''meta'' var = []" for var by (simp add: rtvar_get_def)
  then show ?thesis using assms
    by (intro that [of "write_hosts redirected_hosts (write_hosts [] e\<lparr>we_answers := as\<rparr>)"])
       (simp_all add: getMeta_def next_answer_def write_hosts_def Let_def)
qed

text \<open>
  C28: The list of servers is printed as a format: if the text that the real server gave as \<^verbatim>\<open>meta\<close> brings a
  directive into it, the handler reads an argument that was never passed, which is undefined.
\<close>

theorem meta_is_a_format:
  assumes "st_state st = STATE_SENDING_STATUS" "we_allocs e = []" "we_answers e = Some body # as"
    and "server_data ip port (rtvar_get ''meta'' (rtvar_parse body)) = a @ ''%s'' @ b" "CHR ''%'' \<notin> set a"
    and "se_type evt = SB_EV_REQUEST" "contains (se_path evt) ''/growtopia/server_data.php''"
  shows "http_handler ip port evt (st, e) = Illegal"
proof -
  obtain e' where m: "getMeta e = Finished (rtvar_get ''meta'' (rtvar_parse body), e')" "we_allocs e' = []"
    using getMeta_answer [OF assms(3)] assms(2) by metis
  obtain ps where ps: "format_pieces (a @ ''%s'' @ b) [] = (ps, False)" using missing_argument [OF assms(5)] by blast
  obtain b' where h: "serve_data ip port (st, e) =
      bind_run (getMeta e) (\<lambda>(meta, e). sb_writef (server_data ip port meta) []
        (st\<lparr>st_send_buf := b', st_state := STATE_SENDING_HEADER\<rparr>, e))"
    unfolding serve_data_def
    by (rule data_header [OF assms(1,2), of "\<lambda>(st, e). bind_run (getMeta e) (\<lambda>(meta, e). sb_writef (server_data ip port meta) [] (st, e))"])
       auto
  have "serve_data ip port (st, e) = Illegal"
    using h m assms(4) writef_illegal [OF _ m(2) ps, of "st\<lparr>st_send_buf := b', st_state := STATE_SENDING_HEADER\<rparr>"] by simp
  then show ?thesis using assms(6,7) by (simp add: http_handler_def also_do_def)
qed

theorem meta_is_a_format_witness:
  "http_handler ''1'' ''2'' \<lparr>se_type = SB_EV_REQUEST, se_address = [], se_method = ''POST'', se_path = ''/growtopia/server_data.php''\<rparr>
    ((new_stream 5)\<lparr>st_state := STATE_SENDING_STATUS\<rparr>, quiet_env\<lparr>we_answers := [Some ''meta|%s'']\<rparr>) = Illegal"
proof (rule meta_is_a_format [where body = "''meta|%s''" and as = "[]"
      and b = "[CHR 0x0A] @ ''RTENDMARKERBS1001'' @ [CHR 0x0A]"
      and a = "''server|1'' @ [CHR 0x0A] @ ''port|2'' @ [CHR 0x0A] @ ''type|1'' @ [CHR 0x0A] @ ''#maint|Under mainteance.'' @
        [CHR 0x0A] @ ''beta_server|1'' @ [CHR 0x0A] @ ''beta_port|1945'' @ [CHR 0x0A] @ ''beta_type|1'' @ [CHR 0x0A] @ ''meta|''"])
  have "rtvar_get ''meta'' (rtvar_parse ''meta|%s'') = ''%s''" by code_simp
  then show "server_data ''1'' ''2'' (rtvar_get ''meta'' (rtvar_parse ''meta|%s'')) =
      (''server|1'' @ [CHR 0x0A] @ ''port|2'' @ [CHR 0x0A] @ ''type|1'' @ [CHR 0x0A] @ ''#maint|Under mainteance.'' @
        [CHR 0x0A] @ ''beta_server|1'' @ [CHR 0x0A] @ ''beta_port|1945'' @ [CHR 0x0A] @ ''beta_type|1'' @ [CHR 0x0A] @ ''meta|'') @
      ''%s'' @ [CHR 0x0A] @ ''RTENDMARKERBS1001'' @ [CHR 0x0A]"
    by (simp add: server_data_def c_str_def)
qed (simp_all add: quiet_env_def contains_def)

section \<open>Starting\<close>

text \<open>\<^verbatim>\<open>run\<close> goes on with a null pointer when the server could not be started.\<close>

lemma http_run_fails:
  assumes "\<not> li_bind l \<or> \<not> li_listen l \<or> \<not> li_address l \<or> li_socket l = None"
  shows "http_run dest port2 l sels e = Illegal"
proof -
  have "\<exists>e'. sb_new_server (http_handler dest port2) http_options l e = Finished (None, e')"
    using assms by (auto simp: sb_new_server_def sb_close_server_def Let_def split: prod.splits bool.splits option.splits)
  then show ?thesis by (auto simp: http_run_def)
qed

text \<open>A socket with the number \<^verbatim>\<open>FD_SETSIZE\<close> is accepted, although it does not fit into a set.\<close>

lemma accept_edge:
  assumes "ws_streams srv = []" "ws_sockfd srv < FD_SETSIZE" "sl_ready sel (ws_sockfd srv)" "we_allocs e = []"
    and "sl_accepts sel = [(FD_SETSIZE, peername)]"
  shows "http_rounds (http_handler ip port) [sel, sel'] srv e = Illegal"
  using assms
  by (simp add: sb_poll_server_def sb_stream_new_def web_alloc_def sb_stream_emit_def http_handler_def sb_codes)

end
