(* ===== verification/Spec2Isabelle.thy ===== *)
theory Spec2Isabelle
  imports ENet_List ENet_Invariant ENet_Reassembly ENet_Termination ENet_RoundTrip Proton_Rtvar Proxy_Behaviour Web_Delivery
begin

text \<open>
  Verification of srmotion-proxy, a proxy between the client and the servers of a game.

  \<^bold>\<open>The program.\<close> The proxy runs two ENet hosts: \<^verbatim>\<open>m_proxy_server\<close>, to which the game's client connects,
  and \<^verbatim>\<open>m_real_server\<close>, which is connected to the server. \<^verbatim>\<open>server::poll\<close> services both in turn. It hands
  every packet to the handlers of \<^verbatim>\<open>events.cpp\<close>, which drop it, change it, answer it with packets of
  their own, or let it pass to the other side. The parts, from the bottom up:

  \<^item> \<^bold>\<open>ENet\<close> (\<^verbatim>\<open>src/proxy/enet\<close>, C): reliable and unreliable packets over UDP datagrams. A host keeps an
    array of peers; a peer keeps channels, queues of commands to be sent, sent, received and to be
    delivered; \<^verbatim>\<open>enet_host_service\<close> receives datagrams, sends what is due and reports one event.
  \<^item> \<^bold>\<open>Game values\<close> (\<^verbatim>\<open>src/proxy/proton\<close>, \<^verbatim>\<open>packet.h\<close>, \<^verbatim>\<open>utils.cpp\<close>, \<^verbatim>\<open>dialog.cpp\<close>, C++): the payload of the
    packets: tagged values in lists of seven, lines of text with keys, the structure of 60 bytes that
    heads a packet, and the descriptions of dialogs.
  \<^item> \<^bold>\<open>The web server\<close> (\<^verbatim>\<open>sandbird\<close>, C, and \<^verbatim>\<open>http.cpp\<close>, C++): a small HTTP server in a thread of its own, which gives
    the game the proxy's address in place of the server's, and serves the game's files.
  \<^item> \<^bold>\<open>The proxy\<close> (\<^verbatim>\<open>server.cpp\<close>, \<^verbatim>\<open>events.cpp\<close>, \<^verbatim>\<open>gt.cpp\<close>, C++): the two loops, connections and redirections, the
    chat commands and the handlers of game events.

  \<^bold>\<open>Conventions.\<close> A struct is a \<^theory_text>\<open>record\<close> with the prefix of the struct in its field names, an enum a
  \<^theory_text>\<open>datatype\<close>, a fixed-width integer a word of its width, an \<^verbatim>\<open>int\<close> of the C++ part an \<open>int\<close> whose overflow
  is written out (\<open>int32_fits\<close>). Definitions have the names of the functions they translate; a function
  too long for one definition is cut into parts named after what they do. State is passed explicitly.
  Undefined behaviour is never given a meaning: it sets \<open>env_ub\<close> (ENet) or \<open>sv_ub\<close> (proxy), or is \<open>None\<close>,
  \<open>Undefined\<close> or \<open>Illegal\<close> in a result. A C++ exception is \<open>Throws\<close>, or \<open>None\<close> in a function that can only throw;
  \<open>sv_ended\<close> says that one left \<^verbatim>\<open>poll\<close> and ended the program.

  \<^bold>\<open>What comes from outside.\<close> \<open>enet_env\<close> (theory \<open>ENet_Packet\<close>) holds the outcomes of allocations, the clock,
  random numbers, the datagrams that arrive, the outcomes of sending and waiting, and records what is
  sent, freed and called back. \<open>externals\<close> (theory \<open>Proxy_Handlers\<close>) holds the contents of fresh memory, the
  answer of the captcha service, random numbers, what floating-point conversions give, and what
  \<^verbatim>\<open>erase\<close> at the end of a string leaves, which the language does not define. \<open>float_ops\<close> (theory
  \<open>Proton_Variant\<close>) stands for the arithmetic and printing of floats. \<open>web_env\<close> and \<open>selected\<close> (theories \<open>Web_Stream\<close>,
  \<open>Web_Server\<close>) hold what arrives at the sockets of the web server, how sending goes, which sockets \<^verbatim>\<open>select\<close>
  finds ready, the files, and the answers to the requests of \<^verbatim>\<open>getMeta\<close>. None of them is constrained, except
  by hypotheses that a theorem names.

  \<^bold>\<open>ENet, the model.\<close>
  \<^item> \<open>Prelude\<close>: words, the macros of \<^verbatim>\<open>time2.h\<close> and \<^verbatim>\<open>utility.h\<close>, byte order, lemmas shared by all theories.
  \<^item> \<open>ENet_List\<close>: \<^verbatim>\<open>list.c\<close> on an explicit store of nodes. Its lemmas show that the pointer operations on
    rings are list operations; the locale \<open>fifo\<close>, interpreted by them as \<open>list_fifo\<close>, is what the other
    theories rely on when they keep a queue of commands as a HOL list.
  \<^item> \<open>ENet_Packet\<close>: \<^verbatim>\<open>callbacks.c\<close>, \<^verbatim>\<open>packet.c\<close>: packets with reference counts, the checksum.
  \<^item> \<open>ENet_Protocol\<close>: \<^verbatim>\<open>protocol.h\<close>: commands, their packed bytes and the table of their sizes.
  \<^item> \<open>ENet_State\<close>: the structs of \<^verbatim>\<open>enet.h\<close>; a peer is an index into \<open>ho_peers\<close>.
  \<^item> \<open>ENet_Queue\<close>, \<open>ENet_Peer\<close>: \<^verbatim>\<open>peer.c\<close>; \<open>ENet_Notify\<close>, \<open>ENet_Handlers\<close>, \<open>ENet_Incoming\<close>, \<open>ENet_Outgoing\<close>:
    \<^verbatim>\<open>protocol.c\<close>; \<open>ENet_Host\<close>: \<^verbatim>\<open>host.c\<close> and the service loop.
  \<^item> \<open>ENet_Range\<close>, \<open>ENet_Compress\<close>: \<^verbatim>\<open>compress.c\<close>, the registers and the contexts of the range coder.

  \<^bold>\<open>ENet, what is shown.\<close>
  \<^item> \<open>ENet_Frame\<close>, \<open>ENet_Accounting\<close>, \<open>ENet_Preservation\<close>, \<open>ENet_Loops\<close>, \<open>ENet_Invariant\<close>: the counts of connected
    and of bandwidth-limited peers and the dispatch queue are right in every host that
    \<^verbatim>\<open>enet_host_create\<close> returns, and every operation keeps them. The locale \<open>host_invariant\<close> carries an
    invariant of single operations through the loops of \<^verbatim>\<open>enet_host_service\<close>; it is interpreted by the
    bookkeeping invariant (\<open>accounting\<close>).
  \<^item> \<open>ENet_Delivery\<close>: reliable commands are delivered in order, without gaps and once.
  \<^item> \<open>ENet_Fragments\<close>, \<open>ENet_Reassembly\<close>: a large packet is cut into fragments that tile it, and put together
    again whatever the order of arrival. The locale \<open>bitmap\<close> is interpreted by the bitmap of fragments
    (\<open>fragment_bitmap\<close>) and by that of unsequenced groups (\<open>unsequenced_bitmap\<close>).
  \<^item> \<open>ENet_Handshake\<close>: both ends agree after connecting; what the other end asks for is clamped.
  \<^item> \<open>ENet_Datagram\<close>, \<open>ENet_Termination\<close>: datagrams keep within mtu, buffers and commands; the loops end.
  \<^item> \<open>ENet_RangeCoding\<close>, \<open>ENet_Contexts\<close>, \<open>ENet_Weights\<close>, \<open>ENet_Tries\<close>, \<open>ENet_Learning\<close>, \<open>ENet_Stepping\<close>,
    \<open>ENet_Coding\<close>, \<open>ENet_Decoding\<close>, \<open>ENet_RoundTrip\<close>: the compressor and the decompressor keep the same
    model of what they have seen, first as trees and finite maps, then as the arrays of the code, and the
    interval arithmetic of one undoes that of the other: decompression inverts compression.

  \<^bold>\<open>The game's values and the proxy.\<close>
  \<^item> \<open>Cpp_Strings\<close>, \<open>Proxy_Texts\<close>: the operations of \<^verbatim>\<open>std::string\<close> that are used, \<^verbatim>\<open>split\<close>, \<^verbatim>\<open>stoi\<close>, \<^verbatim>\<open>atoi\<close>.
  \<^item> \<open>Proton_Variant\<close> (\<^verbatim>\<open>variant.hpp\<close>, \<^verbatim>\<open>vector.hpp\<close>), \<open>Proton_Rtvar\<close> (\<^verbatim>\<open>rtparam.hpp\<close>), \<open>Proxy_Utils\<close>
    (\<^verbatim>\<open>utils.cpp\<close>, \<^verbatim>\<open>hash.hpp\<close>), \<open>Proxy_Packets\<close> (\<^verbatim>\<open>packet.h\<close>), \<open>Proxy_Dialog\<close> (\<^verbatim>\<open>dialog.cpp\<close>): each with its
    round trips, sizes and what happens at malformed input.
  \<^item> \<open>Proxy_Server\<close>: \<^verbatim>\<open>server.cpp\<close>. ENet is seen through its interface: a host is a number (\<open>sv_live\<close> are those not
    destroyed), a peer a host and an index, and the calls are recorded in order in \<open>sv_calls\<close>; their
    answers are arguments. The handlers are parameters here. The locale \<open>relay\<close> states what they must
    keep (\<open>handlers_ok\<close>) for the loops to be safe.
  \<^item> \<open>Proxy_Handlers\<close>, \<open>Proxy_Generic\<close>, \<open>Proxy_Events\<close>: all handlers of \<^verbatim>\<open>events.cpp\<close>, as lists of blocks, one
    for each block of the source, that run until one returns or throws.
  \<^item> \<open>Proxy_Contract\<close>: every handler keeps the contract, so \<open>relay\<close> is interpreted (\<open>proxy\<close>) by the real
    handlers, for all externals. \<open>Proxy_Behaviour\<close>: what single handlers do.

  \<^bold>\<open>The web server.\<close>
  \<^item> \<open>Web_Text\<close>, \<open>Web_Stream\<close>, \<open>Web_Query\<close>, \<open>Web_Server\<close>: \<^verbatim>\<open>sandbird.c\<close> and \<^verbatim>\<open>http.cpp\<close>. The result of a call is a
    \<open>run\<close>: \<open>Finished\<close>, \<open>Raised\<close> (an exception), \<open>Illegal\<close> (undefined) or \<open>Endless\<close>. A stream is a record that its
    operations and the handler pass on with the surroundings; the server is the list of its streams.
  \<^item> \<open>Web_Contract\<close>: the buffers keep within their memory and nothing undefined happens, for every handler
    that keeps the contract \<open>web_handler\<close>, a locale that is interpreted (\<open>http\<close>) by the handler of \<^verbatim>\<open>http.cpp\<close>; what
    the calls that write a response put into the buffer (\<open>puts\<close>) or leave alone (\<open>tame\<close>).
  \<^item> \<open>Web_Request\<close>: what is found in headers, that requests may be cut anywhere, and requests on which the
    server never ends. \<open>Web_Delivery\<close>: a request for a file is answered and the answer arrives.

  \<^bold>\<open>Loops, bounds and fuel.\<close> Loops that may not end are \<^theory_text>\<open>partial_function (option)\<close>: \<open>None\<close> is a loop that goes on
  for ever, and that they return is shown by theorems of their own (\<open>ENet_Termination\<close>, \<open>ENet_RoundTrip\<close>,
  \<open>Proxy_Texts\<close>). The one loop over fuel is
  \<open>dispatch_loop\<close>: it takes an element off the queue in each round that goes on, so the length of the
  queue is enough. The array of the range coder has 4096 symbols; that it is emptied in time
  is shown in \<open>ENet_RoundTrip\<close>. \<^verbatim>\<open>size_t\<close> is 64 bits wide.

  \<^bold>\<open>Not modelled.\<close>
  \<^item> \<^verbatim>\<open>unix.c\<close>, \<^verbatim>\<open>win32.c\<close>: calls of the operating system; their results are inputs of the model.
  \<^item> \<^verbatim>\<open>HTTPRequest.hpp\<close>: a vendored HTTP client over sockets; its answers are inputs of the model.
  \<^item> In formats, flags and floating-point directives with an argument, which no format of the program has;
    they count as undefined.
  \<^item> \<^verbatim>\<open>proxy.cpp\<close>, \<^verbatim>\<open>print.cpp\<close>: start-up and printing; the loop of \<^verbatim>\<open>main\<close> calls \<^verbatim>\<open>poll\<close>, which is modelled.
  \<^item> Context exclusion in \<^verbatim>\<open>compress.c\<close>, which the source switches off; that the web server runs beside the
    proxy in a second thread (they share no state); console output; functions that nothing calls, which the manifest lists with their component.
\<close>

end
